(* ===== verification/Rupi_Prelude.thy ===== *)
theory Rupi_Prelude
  imports Main "HOL-Library.Word" "HOL-Library.Sublist"
begin

text \<open>
  Shared vocabulary of the development.

  Rust strings are UTF-8 byte strings: a \<open>string\<close> here is the list of the bytes of the
  Rust \<open>str\<close>, so \<open>length\<close> is \<open>str::len\<close>. Unsigned machine integers are natural
  numbers together with the bound of their width; every operation of the source that
  saturates, checks or wraps does so explicitly in the model through the operations below
  (\<open>sat_add\<close>, \<open>sat_mul\<close>, \<open>checked_add\<close>; \<open>saturating_sub\<close> is subtraction on
  \<open>nat\<close>). A \<open>Result<T, E>\<close> is a value of \<open>'e + 'a\<close> with the error on the left.
\<close>

named_theorems rupi_defs \<open>definitions of straight-line operations, unfolded by proofs\<close>
named_theorems inv_intros \<open>preservation lemmas of component invariants\<close>

section \<open>Machine integers\<close>

type_synonym u16 = nat
type_synonym u32 = nat
type_synonym u64 = nat
type_synonym usize = nat

definition u32_max :: nat where
  "u32_max = 4294967295"

definition u64_max :: nat where
  "u64_max = 18446744073709551615"

abbreviation usize_max :: nat where
  "usize_max \<equiv> u64_max"

lemma u32_max_pow: "u32_max = 2 ^ 32 - 1"
  by (simp add: u32_max_def)

lemma u64_max_pow: "u64_max = 2 ^ 64 - 1"
  by (simp add: u64_max_def)

definition sat_add :: "nat \<Rightarrow> nat \<Rightarrow> nat \<Rightarrow> nat" where
  "sat_add mx a b = min mx (a + b)"

definition sat_mul :: "nat \<Rightarrow> nat \<Rightarrow> nat \<Rightarrow> nat" where
  "sat_mul mx a b = min mx (a * b)"

definition checked_add :: "nat \<Rightarrow> nat \<Rightarrow> nat \<Rightarrow> nat option" where
  "checked_add mx a b = (if a + b \<le> mx then Some (a + b) else None)"

definition clamp :: "'a::linorder \<Rightarrow> 'a \<Rightarrow> 'a \<Rightarrow> 'a" where
  "clamp x lo hi = (if x < lo then lo else if hi < x then hi else x)"

lemma sat_add_le [simp]: "sat_add mx a b \<le> mx"
  by (simp add: sat_add_def)

lemma sat_add_exact: "a + b \<le> mx \<Longrightarrow> sat_add mx a b = a + b"
  by (simp add: sat_add_def)

lemma sat_add_mono: "a \<le> a' \<Longrightarrow> b \<le> b' \<Longrightarrow> sat_add mx a b \<le> sat_add mx a' b'"
  by (auto simp: sat_add_def min_def)

lemma sat_mul_le [simp]: "sat_mul mx a b \<le> mx"
  by (simp add: sat_mul_def)

lemma checked_add_Some [simp]:
  "checked_add mx a b = Some c \<longleftrightarrow> c = a + b \<and> a + b \<le> mx"
  by (auto simp: checked_add_def)

lemma checked_add_None [simp]: "checked_add mx a b = None \<longleftrightarrow> mx < a + b"
  by (auto simp: checked_add_def)

lemma clamp_ge: "lo \<le> hi \<Longrightarrow> lo \<le> clamp x lo hi"
  by (auto simp: clamp_def)

lemma clamp_le: "lo \<le> hi \<Longrightarrow> clamp x lo hi \<le> hi"
  by (auto simp: clamp_def)

lemma clamp_id: "lo \<le> x \<Longrightarrow> x \<le> hi \<Longrightarrow> clamp x lo hi = x"
  by (auto simp: clamp_def)

text \<open>
  Subtraction of two \<open>usize\<close> values. A build with overflow checks panics when the result
  would be negative; the release profile has none and wraps.
\<close>

datatype panic = SubtractionOverflow

definition usize_sub :: "bool \<Rightarrow> nat \<Rightarrow> nat \<Rightarrow> panic + nat" where
  "usize_sub checks a b =
     (if b \<le> a then Inr (a - b)
      else if checks then Inl SubtractionOverflow
      else Inr (a + (u64_max + 1) - b))"

lemma usize_sub_exact [simp]: "b \<le> a \<Longrightarrow> usize_sub checks a b = Inr (a - b)"
  by (simp add: usize_sub_def)

section \<open>Results\<close>

fun bind_res :: "'e + 'a \<Rightarrow> ('a \<Rightarrow> 'e + 'b) \<Rightarrow> 'e + 'b" where
  "bind_res (Inl e) f = Inl e"
| "bind_res (Inr a) f = f a"

fun ok_or :: "'a option \<Rightarrow> 'e \<Rightarrow> 'e + 'a" where
  "ok_or None e = Inl e"
| "ok_or (Some a) e = Inr a"

lemma bind_res_Inr [simp]:
  "bind_res r f = Inr b \<longleftrightarrow> (\<exists>a. r = Inr a \<and> f a = Inr b)"
  by (cases r) auto

lemma bind_res_cong [fundef_cong]:
  "r = s \<Longrightarrow> (\<And>a. s = Inr a \<Longrightarrow> f a = g a) \<Longrightarrow> bind_res r f = bind_res s g"
  by (cases s) auto

text \<open>A \<open>for\<close> loop whose body may return an error with \<open>?\<close>.\<close>

fun fold_res :: "('a \<Rightarrow> 's \<Rightarrow> 'e + 's) \<Rightarrow> 'a list \<Rightarrow> 's \<Rightarrow> 'e + 's" where
  "fold_res f [] s = Inr s"
| "fold_res f (x # xs) s = bind_res (f x s) (fold_res f xs)"

lemma bind_res_Inl_iff: "bind_res x f = Inl e \<longleftrightarrow> x = Inl e \<or> (\<exists>a. x = Inr a \<and> f a = Inl e)"
  by (cases x) auto

lemma fold_res_append: "fold_res f (xs @ ys) s = bind_res (fold_res f xs s) (fold_res f ys)"
proof (induction xs arbitrary: s)
  case (Cons x xs)
  then show ?case by (cases "f x s") simp_all
qed simp

lemma fold_res_invariant:
  assumes "fold_res f xs s = Inr s'" "I s"
    and "\<And>x s s'. x \<in> set xs \<Longrightarrow> I s \<Longrightarrow> f x s = Inr s' \<Longrightarrow> I s'"
  shows "I s'"
  using assms
proof (induction xs arbitrary: s)
  case (Cons x xs)
  then obtain t where t: "f x s = Inr t" "fold_res f xs t = Inr s'"
    by auto
  then have "I t"
    using Cons.prems(2,3) by (meson list.set_intros(1))
  then show ?case
    using Cons.IH [OF t(2)] Cons.prems(3) by (meson list.set_intros(2))
qed simp

lemma fold_res_no_error:
  assumes "I s"
    and "\<And>x s s'. x \<in> set xs \<Longrightarrow> I s \<Longrightarrow> f x s = Inr s' \<Longrightarrow> I s'"
    and "\<And>x s. x \<in> set xs \<Longrightarrow> I s \<Longrightarrow> f x s \<noteq> Inl e"
  shows "fold_res f xs s \<noteq> Inl e"
  using assms
proof (induction xs arbitrary: s)
  case (Cons x xs)
  show ?case
  proof (cases "f x s")
    case (Inr t)
    then have "I t"
      using Cons.prems(1,2) by (meson list.set_intros(1))
    then have "fold_res f xs t \<noteq> Inl e"
      using Cons.IH [of t] Cons.prems(2,3) by (meson list.set_intros(2))
    then show ?thesis
      using Inr by simp
  qed (use Cons.prems(1,3) in auto)
qed simp

text \<open>The state of an accepted loop just before and just after one of its elements.\<close>

lemma fold_res_split:
  assumes "fold_res f (xs @ x # ys) s = Inr s'"
  obtains t u where "fold_res f xs s = Inr t" "f x t = Inr u" "fold_res f ys u = Inr s'"
  using assms by (auto simp: fold_res_append)

lemma ok_or_Inr [simp]: "ok_or x e = Inr a \<longleftrightarrow> x = Some a"
  by (cases x) auto

definition or_else :: "'a option \<Rightarrow> 'a option \<Rightarrow> 'a option" where
  "or_else x y = (case x of None \<Rightarrow> y | Some _ \<Rightarrow> x)"

lemma or_else_simps [simp]: "or_else None y = y" "or_else (Some a) y = Some a"
  by (simp_all add: or_else_def)

definition unwrap_or :: "'a \<Rightarrow> 'a option \<Rightarrow> 'a" where
  "unwrap_or d x = (case x of None \<Rightarrow> d | Some a \<Rightarrow> a)"

lemma unwrap_or_simps [simp]: "unwrap_or d None = d" "unwrap_or d (Some a) = a"
  by (simp_all add: unwrap_or_def)

section \<open>Strings\<close>

definition byte :: "char \<Rightarrow> nat" where
  "byte c = of_char c"

definition digit_char :: "nat \<Rightarrow> char" where
  "digit_char d = char_of (48 + d)"

text \<open>Decimal rendering of an unsigned integer, \<open>{n}\<close> in a format string.\<close>

fun show_nat :: "nat \<Rightarrow> string" where
  "show_nat n = (if n < 10 then [digit_char n] else show_nat (n div 10) @ [digit_char (n mod 10)])"

declare show_nat.simps [simp del]

lemma show_nat_nonempty [simp]: "show_nat n \<noteq> []"
  by (subst show_nat.simps) simp

definition ascii_lower :: "char \<Rightarrow> char" where
  "ascii_lower c = (if 65 \<le> byte c \<and> byte c \<le> 90 then char_of (byte c + 32) else c)"

definition to_ascii_lowercase :: "string \<Rightarrow> string" where
  "to_ascii_lowercase s = map ascii_lower s"

text \<open>\<open>str::contains\<close> of a string pattern.\<close>

fun contains_str :: "string \<Rightarrow> string \<Rightarrow> bool" where
  "contains_str s pat =
     (take (length pat) s = pat \<or> (case s of [] \<Rightarrow> False | _ # s' \<Rightarrow> contains_str s' pat))"

declare contains_str.simps [simp del]

lemma contains_str_sublist: "contains_str s pat \<longleftrightarrow> sublist pat s"
proof (induction s)
  case Nil
  show ?case by (subst contains_str.simps) auto
next
  case (Cons c s)
  have "take (length pat) (c # s) = pat \<longleftrightarrow> prefix pat (c # s)"
    by (metis prefix_def append_eq_conv_conj)
  then show ?case
    using Cons.IH by (subst contains_str.simps) (simp add: sublist_Cons_right)
qed

text \<open>\<open>str::split_once\<close> of a single ASCII character.\<close>

fun split_once :: "char \<Rightarrow> string \<Rightarrow> (string \<times> string) option" where
  "split_once d [] = None"
| "split_once d (c # s) =
     (if c = d then Some ([], s) else map_option (\<lambda>(a, b). (c # a, b)) (split_once d s))"

lemma split_once_Some:
  "split_once d s = Some (a, b) \<longleftrightarrow> s = a @ d # b \<and> d \<notin> set a"
proof (induction s arbitrary: a)
  case Nil
  show ?case by simp
next
  case (Cons c s)
  show ?case using Cons.IH by (cases a) auto
qed

lemma split_once_None: "split_once d s = None \<longleftrightarrow> d \<notin> set s"
  by (induction s) auto

text \<open>
  The characters of the Unicode property \<open>White_Space\<close> have UTF-8 encodings of one, two or
  three bytes; \<open>ws1\<close>, \<open>ws2\<close> and \<open>ws3\<close> list them. A \<open>str\<close> is valid UTF-8, and the
  first byte of each of these sequences is a leading byte, so a match at the start or at the
  end of a string is a whole character.
\<close>

definition ws1 :: "nat \<Rightarrow> bool" where
  "ws1 a \<longleftrightarrow> 9 \<le> a \<and> a \<le> 13 \<or> a = 32"

definition ws2 :: "nat \<Rightarrow> nat \<Rightarrow> bool" where
  "ws2 a b \<longleftrightarrow> a = 194 \<and> (b = 133 \<or> b = 160)"

definition ws3 :: "nat \<Rightarrow> nat \<Rightarrow> nat \<Rightarrow> bool" where
  "ws3 a b c \<longleftrightarrow>
     a = 225 \<and> b = 154 \<and> c = 128
   \<or> a = 226 \<and> b = 128 \<and> (128 \<le> c \<and> c \<le> 138 \<or> c = 168 \<or> c = 169 \<or> c = 175)
   \<or> a = 226 \<and> b = 129 \<and> c = 159
   \<or> a = 227 \<and> b = 128 \<and> c = 128"

fun ws_len :: "string \<Rightarrow> nat" where
  "ws_len (a # b # c # s) =
     (if ws1 (byte a) then 1 else if ws2 (byte a) (byte b) then 2
      else if ws3 (byte a) (byte b) (byte c) then 3 else 0)"
| "ws_len [a, b] = (if ws1 (byte a) then 1 else if ws2 (byte a) (byte b) then 2 else 0)"
| "ws_len [a] = (if ws1 (byte a) then 1 else 0)"
| "ws_len [] = 0"

text \<open>The same test on the reversed string: the bytes of a character arrive last first.\<close>

fun ws_len_rev :: "string \<Rightarrow> nat" where
  "ws_len_rev (c # b # a # s) =
     (if ws1 (byte c) then 1 else if ws2 (byte b) (byte c) then 2
      else if ws3 (byte a) (byte b) (byte c) then 3 else 0)"
| "ws_len_rev [c, b] = (if ws1 (byte c) then 1 else if ws2 (byte b) (byte c) then 2 else 0)"
| "ws_len_rev [c] = (if ws1 (byte c) then 1 else 0)"
| "ws_len_rev [] = 0"

lemma ws_len_le: "ws_len s \<le> length s"
  by (induction s rule: ws_len.induct) auto

lemma ws_len_rev_le: "ws_len_rev s \<le> length s"
  by (induction s rule: ws_len_rev.induct) auto

text \<open>Dropping leading whitespace, for a test that measures one whitespace character.\<close>

function drop_ws :: "(string \<Rightarrow> nat) \<Rightarrow> string \<Rightarrow> string" where
  "drop_ws f s = (if f s = 0 \<or> s = [] then s else drop_ws f (drop (f s) s))"
  by pat_completeness auto
termination
  by (relation "measure (\<lambda>(f, s). length s)") auto

declare drop_ws.simps [simp del]

definition trim_start :: "string \<Rightarrow> string" where
  "trim_start s = drop_ws ws_len s"

definition trim_end :: "string \<Rightarrow> string" where
  "trim_end s = rev (drop_ws ws_len_rev (rev s))"

definition trim :: "string \<Rightarrow> string" where
  "trim s = trim_end (trim_start s)"

lemma drop_ws_suffix: "suffix (drop_ws f s) s"
proof (induction f s rule: drop_ws.induct)
  case (1 f s)
  show ?case
  proof (cases "f s = 0 \<or> s = []")
    case True
    then show ?thesis by (subst drop_ws.simps) simp
  next
    case False
    with "1.IH" have "suffix (drop_ws f (drop (f s) s)) s"
      using suffix_drop suffix_order.trans by blast
    with False show ?thesis by (subst drop_ws.simps) simp
  qed
qed

lemma drop_ws_done: "drop_ws f s = [] \<or> f (drop_ws f s) = 0"
proof (induction f s rule: drop_ws.induct)
  case (1 f s)
  show ?case
  proof (cases "f s = 0 \<or> s = []")
    case True
    then have "drop_ws f s = s" by (subst drop_ws.simps) simp
    with True show ?thesis by auto
  next
    case False
    then have "drop_ws f s = drop_ws f (drop (f s) s)" by (subst drop_ws.simps) simp
    with "1.IH" False show ?thesis by simp
  qed
qed

lemma trim_start_suffix: "suffix (trim_start s) s"
  by (simp add: trim_start_def drop_ws_suffix)

lemma trim_end_prefix: "prefix (trim_end s) s"
  using drop_ws_suffix [of ws_len_rev "rev s"] by (simp add: trim_end_def suffix_to_prefix)

lemma length_trim_le: "length (trim s) \<le> length s"
proof -
  have "length (trim s) \<le> length (trim_start s)"
    unfolding trim_def by (rule prefix_length_le [OF trim_end_prefix])
  also have "\<dots> \<le> length s"
    by (rule suffix_length_le [OF trim_start_suffix])
  finally show ?thesis .
qed

section \<open>Lists\<close>

text \<open>\<open>Option::map_or\<close>-style search: the first element with an image.\<close>

fun find_map :: "('a \<Rightarrow> 'b option) \<Rightarrow> 'a list \<Rightarrow> 'b option" where
  "find_map f [] = None"
| "find_map f (x # xs) = (case f x of None \<Rightarrow> find_map f xs | Some y \<Rightarrow> Some y)"

lemma find_map_Some: "find_map f xs = Some y \<Longrightarrow> \<exists>x \<in> set xs. f x = Some y"
  by (induction xs) (auto split: option.splits)

lemma find_map_None: "find_map f xs = None \<longleftrightarrow> (\<forall>x \<in> set xs. f x = None)"
  by (induction xs) (auto split: option.splits)

section \<open>Lines\<close>

text \<open>
  \<open>str::lines\<close>: split after every line feed, one trailing carriage return removed from each
  line, no final empty line.
\<close>

definition strip_cr :: "string \<Rightarrow> string" where
  "strip_cr l = (if l \<noteq> [] \<and> last l = CHR 0x0D then butlast l else l)"

function str_lines :: "string \<Rightarrow> string list" where
  "str_lines s =
     (if s = [] then []
      else case split_once (CHR 0x0A) s of
             None \<Rightarrow> [s]
           | Some (l, rest) \<Rightarrow> strip_cr l # str_lines rest)"
  by pat_completeness auto
termination
  by (relation "measure length") (auto simp: split_once_Some)

declare str_lines.simps [simp del]

text \<open>\<open>chars().count()\<close> and \<open>chars().take(n)\<close> of valid UTF-8: a character starts at every
  byte that is not a continuation byte.\<close>

definition is_continuation :: "char \<Rightarrow> bool" where
  "is_continuation c \<longleftrightarrow> 128 \<le> byte c \<and> byte c < 192"

definition char_count :: "string \<Rightarrow> nat" where
  "char_count s = length (filter (\<lambda>c. \<not> is_continuation c) s)"

fun take_chars :: "nat \<Rightarrow> string \<Rightarrow> string" where
  "take_chars n [] = []"
| "take_chars n (c # s) =
     (if is_continuation c then c # take_chars n s
      else case n of 0 \<Rightarrow> [] | Suc m \<Rightarrow> c # take_chars m s)"

lemma take_chars_prefix: "prefix (take_chars n s) s"
  by (induction n s rule: take_chars.induct) (auto split: nat.splits)

lemma char_count_take_chars: "char_count (take_chars n s) \<le> n"
  by (induction n s rule: take_chars.induct) (auto simp: char_count_def split: nat.splits)

end
