(* ===== verification/Model_Failure.thy ===== *)
theory Model_Failure
  imports Rupi_Prelude
begin

text \<open>
  \<open>crates/rupi-core/src/failure.rs\<close>: the typed provider failure classes, the replay-safety
  evidence a failure carries, and the classification of HTTP answers.
\<close>

section \<open>Failure kinds\<close>

datatype model_failure_kind =
  Transport | Timeout | RateLimited | ProviderUnavailable | Authentication
| Protocol | ContextOverflow | Semantic | Cancelled

fun failure_kind_as_str :: "model_failure_kind \<Rightarrow> string" where
  "failure_kind_as_str Transport = ''transport''"
| "failure_kind_as_str Timeout = ''timeout''"
| "failure_kind_as_str RateLimited = ''rate_limited''"
| "failure_kind_as_str ProviderUnavailable = ''provider_unavailable''"
| "failure_kind_as_str Authentication = ''authentication''"
| "failure_kind_as_str Protocol = ''protocol''"
| "failure_kind_as_str ContextOverflow = ''context_overflow''"
| "failure_kind_as_str Semantic = ''semantic''"
| "failure_kind_as_str Cancelled = ''cancelled''"

definition is_retryable :: "model_failure_kind \<Rightarrow> bool" where
  "is_retryable k \<longleftrightarrow> k \<in> {Transport, Timeout, RateLimited, ProviderUnavailable}"

definition is_failover_candidate :: "model_failure_kind \<Rightarrow> bool" where
  "is_failover_candidate k \<longleftrightarrow>
     k \<in> {Transport, Timeout, RateLimited, ProviderUnavailable, Protocol}"

lemma is_retryable_simps [simp]:
  "is_retryable Transport" "is_retryable Timeout" "is_retryable RateLimited"
  "is_retryable ProviderUnavailable" "\<not> is_retryable Authentication"
  "\<not> is_retryable Protocol" "\<not> is_retryable ContextOverflow"
  "\<not> is_retryable Semantic" "\<not> is_retryable Cancelled"
  by (simp_all add: is_retryable_def)

lemma is_failover_candidate_simps [simp]:
  "is_failover_candidate Transport" "is_failover_candidate Timeout"
  "is_failover_candidate RateLimited" "is_failover_candidate ProviderUnavailable"
  "is_failover_candidate Protocol" "\<not> is_failover_candidate Authentication"
  "\<not> is_failover_candidate ContextOverflow" "\<not> is_failover_candidate Semantic"
  "\<not> is_failover_candidate Cancelled"
  by (simp_all add: is_failover_candidate_def)

lemma retryable_is_candidate: "is_retryable k \<Longrightarrow> is_failover_candidate k"
  by (cases k) simp_all

datatype failure_phase = PreRequest | WaitingForResponse | Streaming | Normalizing

datatype request_replay_safety = Safe | AmbiguousPostBoundary | CommittedOutput

fun replay_safety_as_str :: "request_replay_safety \<Rightarrow> string" where
  "replay_safety_as_str Safe = ''safe''"
| "replay_safety_as_str AmbiguousPostBoundary = ''ambiguous_post_boundary''"
| "replay_safety_as_str CommittedOutput = ''committed_output''"

datatype completion_certainty = Certain | Unknown_Completion

section \<open>Model references and failures\<close>

record model_ref =
  mr_provider :: string
  mr_model :: string

record model_failure =
  mf_kind :: model_failure_kind
  mf_phase :: failure_phase
  mf_message :: string
  mf_status :: "u16 option"
  mf_retry_after_ms :: "u64 option"
  mf_attempts :: u32
  mf_partial_output_emitted :: bool
  mf_replay_safety :: request_replay_safety
  mf_model :: "model_ref option"
  mf_detail :: "string option"

definition new_failure :: "model_failure_kind \<Rightarrow> failure_phase \<Rightarrow> string \<Rightarrow> model_failure" where
  "new_failure kind phase message =
     \<lparr> mf_kind = kind, mf_phase = phase, mf_message = message, mf_status = None,
       mf_retry_after_ms = None, mf_attempts = 0, mf_partial_output_emitted = False,
       mf_replay_safety = (if phase = PreRequest then Safe else AmbiguousPostBoundary),
       mf_model = None, mf_detail = None \<rparr>"

definition with_status :: "u16 \<Rightarrow> model_failure \<Rightarrow> model_failure" where
  "with_status s f = f\<lparr>mf_status := Some s\<rparr>"

definition with_retry_after_ms :: "u64 \<Rightarrow> model_failure \<Rightarrow> model_failure" where
  "with_retry_after_ms ms f = f\<lparr>mf_retry_after_ms := Some ms\<rparr>"

definition with_attempts :: "u32 \<Rightarrow> model_failure \<Rightarrow> model_failure" where
  "with_attempts n f = f\<lparr>mf_attempts := n\<rparr>"

definition with_partial_output :: "bool \<Rightarrow> model_failure \<Rightarrow> model_failure" where
  "with_partial_output emitted f =
     (let f' = f\<lparr>mf_partial_output_emitted := emitted\<rparr>
      in if emitted then f'\<lparr>mf_replay_safety := CommittedOutput\<rparr> else f')"

definition with_replay_safety :: "request_replay_safety \<Rightarrow> model_failure \<Rightarrow> model_failure" where
  "with_replay_safety safety f =
     f\<lparr>mf_replay_safety := (if mf_partial_output_emitted f then CommittedOutput else safety)\<rparr>"

definition with_model :: "model_ref \<Rightarrow> model_failure \<Rightarrow> model_failure" where
  "with_model m f = f\<lparr>mf_model := Some m\<rparr>"

definition with_detail :: "string \<Rightarrow> model_failure \<Rightarrow> model_failure" where
  "with_detail d f = f\<lparr>mf_detail := Some d\<rparr>"

lemmas failure_builder_defs [rupi_defs] =
  new_failure_def with_status_def with_retry_after_ms_def with_attempts_def
  with_partial_output_def with_replay_safety_def with_model_def with_detail_def

definition safe_to_retry :: "model_failure \<Rightarrow> bool" where
  "safe_to_retry f \<longleftrightarrow>
     is_retryable (mf_kind f) \<and> mf_replay_safety f = Safe \<and> \<not> mf_partial_output_emitted f"

text \<open>
  The consistency the builders keep between the two fields: committed output is always
  recorded as a replay boundary.
\<close>

definition failure_wf :: "model_failure \<Rightarrow> bool" where
  "failure_wf f \<longleftrightarrow> (mf_partial_output_emitted f \<longrightarrow> mf_replay_safety f = CommittedOutput)"

inductive built_failure :: "model_failure \<Rightarrow> bool" where
  built_new: "built_failure (new_failure k p m)"
| built_status: "built_failure f \<Longrightarrow> built_failure (with_status s f)"
| built_retry: "built_failure f \<Longrightarrow> built_failure (with_retry_after_ms ms f)"
| built_attempts: "built_failure f \<Longrightarrow> built_failure (with_attempts n f)"
| built_partial: "built_failure f \<Longrightarrow> built_failure (with_partial_output e f)"
| built_replay: "built_failure f \<Longrightarrow> built_failure (with_replay_safety r f)"
| built_model: "built_failure f \<Longrightarrow> built_failure (with_model m f)"
| built_detail: "built_failure f \<Longrightarrow> built_failure (with_detail d f)"

lemma built_failure_wf: "built_failure f \<Longrightarrow> failure_wf f"
  by (induction rule: built_failure.induct) (auto simp: failure_wf_def rupi_defs Let_def)

section \<open>HTTP classification\<close>

definition overflow_phrases :: "string list" where
  "overflow_phrases =
     [''context length'', ''context_length'', ''maximum context'', ''context window'',
      ''context size'', ''exceeds the supported'', ''too many tokens'',
      ''prompt is too long'', ''reduce the length of the messages'']"

definition looks_like_context_overflow :: "string \<Rightarrow> bool" where
  "looks_like_context_overflow message =
     (let lowered = to_ascii_lowercase message
      in list_ex (contains_str lowered) overflow_phrases)"

definition classify_http :: "u16 \<Rightarrow> string \<Rightarrow> model_failure_kind" where
  "classify_http status message =
     (if looks_like_context_overflow message then ContextOverflow
      else if status = 401 \<or> status = 403 then Authentication
      else if status = 408 \<or> status = 504 then Timeout
      else if status = 429 then RateLimited
      else if status = 404 \<or> status = 410 then ProviderUnavailable
      else if status = 413 then ContextOverflow
      else if 500 \<le> status \<and> status \<le> 599 then ProviderUnavailable
      else if 400 \<le> status \<and> status \<le> 499 then Protocol
      else Protocol)"

definition display_failure :: "model_failure \<Rightarrow> string" where
  "display_failure f =
     failure_kind_as_str (mf_kind f)
     @ (case mf_status f of None \<Rightarrow> [] | Some s \<Rightarrow> '' (http '' @ show_nat s @ '')'')
     @ '': '' @ mf_message f"

lemma classify_http_overflow_first:
  "looks_like_context_overflow message \<Longrightarrow> classify_http status message = ContextOverflow"
  by (simp add: classify_http_def)

lemma classify_http_never_semantic:
  "classify_http status message \<notin> {Semantic, Cancelled, Transport}"
  by (auto simp: classify_http_def)

section \<open>Properties\<close>

text \<open>
  an HTTP error answer is retried exactly when its status is one of the transient ones and
  the body does not describe a context overflow; it is a candidate for a takeover exactly when
  it is neither an overflow nor a credential or permission problem.
\<close>

theorem http_classification:
  "(is_retryable (classify_http status message) \<longleftrightarrow>
      \<not> looks_like_context_overflow message
      \<and> (status \<in> {404, 408, 410, 429} \<or> status \<in> {500..599}))
   \<and> (is_failover_candidate (classify_http status message) \<longleftrightarrow>
        \<not> looks_like_context_overflow message \<and> status \<notin> {401, 403, 413})"
  by (simp add: classify_http_def)

text \<open>
  however a failure is put together by the constructor and the builders, in whatever order,
  a failure that reports emitted output carries the committed-output boundary and is not safe
  to retry.
\<close>

theorem built_failure_boundary:
  assumes "built_failure f" and "mf_partial_output_emitted f"
  shows "mf_replay_safety f = CommittedOutput \<and> \<not> safe_to_retry f"
  using built_failure_wf [OF assms(1)] assms(2) by (simp add: failure_wf_def safe_to_retry_def)

theorem built_failure_boundary_witness:
  "mf_replay_safety (with_replay_safety Safe (with_partial_output True
     (new_failure Timeout Streaming ''late''))) = CommittedOutput
   \<and> \<not> safe_to_retry (with_replay_safety Safe (with_partial_output True
     (new_failure Timeout Streaming ''late'')))"
  by (rule built_failure_boundary, intro built_failure.intros, simp add: rupi_defs Let_def)

end
