(* ===== verification/Capability.thy ===== *)
theory Capability
  imports Model_Failure
begin

text \<open>
  \<open>crates/rupi-core/src/capability.rs\<close> and \<open>crates/rupi-core/src/provenance.rs\<close>: model
  identity, capability claims and the gaps between a required and an available snapshot,
  model epochs, and the provenance claims of reasoning text.
\<close>

section \<open>Reasoning provenance\<close>

datatype reasoning_provenance = Native | ProviderSummary | Declared | Reconstructed

fun provenance_as_str :: "reasoning_provenance \<Rightarrow> string" where
  "provenance_as_str Native = ''native''"
| "provenance_as_str ProviderSummary = ''provider_summary''"
| "provenance_as_str Declared = ''declared''"
| "provenance_as_str Reconstructed = ''reconstructed''"

fun provenance_label :: "reasoning_provenance \<Rightarrow> string" where
  "provenance_label Native = ''reasoning''"
| "provenance_label ProviderSummary = ''provider summary''"
| "provenance_label Declared = ''declared rationale''"
| "provenance_label Reconstructed = ''reconstructed rationale''"

definition is_inferred :: "reasoning_provenance \<Rightarrow> bool" where
  "is_inferred p \<longleftrightarrow> p = Reconstructed"

definition is_not_hidden_reasoning :: "reasoning_provenance \<Rightarrow> bool" where
  "is_not_hidden_reasoning p \<longleftrightarrow> p \<noteq> Native"

record reasoning_chunk =
  rc_text :: string
  rc_provenance :: reasoning_provenance
  rc_source :: "string option"

definition new_chunk :: "string \<Rightarrow> reasoning_provenance \<Rightarrow> reasoning_chunk" where
  "new_chunk t p = \<lparr> rc_text = t, rc_provenance = p, rc_source = None \<rparr>"

definition chunk_with_source :: "string \<Rightarrow> reasoning_chunk \<Rightarrow> reasoning_chunk" where
  "chunk_with_source s c = c\<lparr>rc_source := Some s\<rparr>"

datatype reasoning_exposure =
  ExposureNone | ExposureNative | ExposureProviderSummary | ExposureDeclared

fun implied_provenance :: "reasoning_exposure \<Rightarrow> reasoning_provenance option" where
  "implied_provenance ExposureNone = None"
| "implied_provenance ExposureNative = Some Native"
| "implied_provenance ExposureProviderSummary = Some ProviderSummary"
| "implied_provenance ExposureDeclared = Some Declared"

lemma provenance_labels_distinct: "inj provenance_label"
  by (rule injI) (rename_tac p q, case_tac p; case_tac q; simp)

lemma implied_native_only_if_declared:
  "implied_provenance e = Some Native \<longleftrightarrow> e = ExposureNative"
  by (cases e) simp_all

lemma implied_never_reconstructed: "implied_provenance e \<noteq> Some Reconstructed"
  by (cases e) simp_all

section \<open>Model references\<close>

definition new_model_ref :: "string \<Rightarrow> string \<Rightarrow> model_ref" where
  "new_model_ref p m = \<lparr> mr_provider = p, mr_model = m \<rparr>"

definition parse_model_ref :: "string \<Rightarrow> model_ref option" where
  "parse_model_ref value =
     (case split_once (CHR ''/'') value of
        None \<Rightarrow> None
      | Some (provider, model) \<Rightarrow>
          (if trim provider = [] \<or> trim model = [] then None
           else Some (new_model_ref (trim provider) (trim model))))"

definition as_key :: "model_ref \<Rightarrow> string" where
  "as_key m = mr_provider m @ ''/'' @ mr_model m"

text \<open>The references that the configuration syntax \<open>provider/model\<close> can name.\<close>

definition model_ref_wf :: "model_ref \<Rightarrow> bool" where
  "model_ref_wf m \<longleftrightarrow>
     mr_provider m \<noteq> [] \<and> mr_model m \<noteq> [] \<and> CHR ''/'' \<notin> set (mr_provider m)
     \<and> trim (mr_provider m) = mr_provider m \<and> trim (mr_model m) = mr_model m"

section \<open>Capabilities and gaps\<close>

record model_capabilities =
  cap_text :: bool
  cap_images :: bool
  cap_tools :: bool
  cap_exposed_reasoning :: reasoning_exposure
  cap_context_window :: u64
  cap_max_output_tokens :: "u64 option"

definition text_only :: "u64 \<Rightarrow> model_capabilities" where
  "text_only window =
     \<lparr> cap_text = True, cap_images = False, cap_tools = False,
       cap_exposed_reasoning = ExposureNone, cap_context_window = window,
       cap_max_output_tokens = None \<rparr>"

datatype capability_gap =
  GapText | GapImages | GapTools | GapContextWindow (gap_required: u64) (gap_available: u64)

definition gaps :: "model_capabilities \<Rightarrow> model_capabilities \<Rightarrow> capability_gap list" where
  "gaps self required =
     (if cap_text required \<and> \<not> cap_text self then [GapText] else [])
     @ (if cap_images required \<and> \<not> cap_images self then [GapImages] else [])
     @ (if cap_tools required \<and> \<not> cap_tools self then [GapTools] else [])
     @ (if cap_context_window self < cap_context_window required
        then [GapContextWindow (cap_context_window required) (cap_context_window self)]
        else [])"

fun is_context_window_gap :: "capability_gap \<Rightarrow> bool" where
  "is_context_window_gap (GapContextWindow _ _) = True"
| "is_context_window_gap _ = False"

definition has_hard_gap :: "capability_gap list \<Rightarrow> bool" where
  "has_hard_gap gs = list_ex (\<lambda>g. \<not> is_context_window_gap g) gs"

fun display_gap :: "capability_gap \<Rightarrow> string" where
  "display_gap GapText = ''text input''"
| "display_gap GapImages = ''image input''"
| "display_gap GapTools = ''tool calling''"
| "display_gap (GapContextWindow required available) =
     ''context window '' @ show_nat available @ '' < required '' @ show_nat required"

text \<open>What the gate protects: every hard modality the session needs is offered.\<close>

definition serves_modalities :: "model_capabilities \<Rightarrow> model_capabilities \<Rightarrow> bool" where
  "serves_modalities self required \<longleftrightarrow>
     (cap_text required \<longrightarrow> cap_text self) \<and> (cap_images required \<longrightarrow> cap_images self)
     \<and> (cap_tools required \<longrightarrow> cap_tools self)"

lemma has_hard_gap_gaps: "has_hard_gap (gaps self required) \<longleftrightarrow> \<not> serves_modalities self required"
  by (auto simp: has_hard_gap_def gaps_def serves_modalities_def)

lemma window_gap_iff:
  "list_ex is_context_window_gap (gaps self required)
     \<longleftrightarrow> cap_context_window self < cap_context_window required"
  by (auto simp: gaps_def)

lemma gaps_empty_iff:
  "gaps self required = []
     \<longleftrightarrow> serves_modalities self required \<and> cap_context_window required \<le> cap_context_window self"
  by (auto simp: gaps_def serves_modalities_def)

section \<open>Epochs\<close>

datatype epoch_reason = Initial | ManualSwitch | AutomaticFailover | ManualSwitchBack

definition is_automatic :: "epoch_reason \<Rightarrow> bool" where
  "is_automatic r \<longleftrightarrow> r = AutomaticFailover"

record model_epoch =
  me_index :: u32
  me_model :: model_ref
  me_capabilities :: model_capabilities
  me_reason :: epoch_reason

section \<open>Parsing and printing model references\<close>

lemma ws_len_prefix: "prefix p s \<Longrightarrow> ws_len s = 0 \<Longrightarrow> ws_len p = 0"
  by (induction p rule: ws_len.induct) (auto simp: prefix_def split: if_splits elim!: ws_len.elims)

lemma trim_start_fixed: "ws_len s = 0 \<Longrightarrow> trim_start s = s"
  unfolding trim_start_def by (subst drop_ws.simps) simp

lemma trim_end_fixed: "ws_len_rev (rev s) = 0 \<Longrightarrow> trim_end s = s"
  unfolding trim_end_def by (subst drop_ws.simps) simp

lemma trim_idem [simp]: "trim (trim s) = trim s"
proof -
  have start: "ws_len (trim_start s) = 0"
    using drop_ws_done [of ws_len s] by (auto simp: trim_start_def)
  have "ws_len (trim s) = 0"
    unfolding trim_def by (rule ws_len_prefix [OF trim_end_prefix start])
  moreover have "ws_len_rev (rev (trim s)) = 0"
    using drop_ws_done [of ws_len_rev "rev (trim_start s)"]
    by (auto simp: trim_def trim_end_def)
  ultimately show ?thesis
    by (simp add: trim_def [of "trim s"] trim_start_fixed trim_end_fixed)
qed

lemma set_trim: "set (trim s) \<subseteq> set s"
  unfolding trim_def
  by (meson set_mono_prefix set_mono_suffix subset_trans trim_end_prefix trim_start_suffix)

lemma parse_model_ref_wf: "parse_model_ref v = Some m \<Longrightarrow> model_ref_wf m"
  using set_trim
  by (force simp: parse_model_ref_def model_ref_wf_def new_model_ref_def split_once_Some
      split: option.splits if_splits)

lemma parse_as_key: "model_ref_wf m \<Longrightarrow> parse_model_ref (as_key m) = Some m"
proof -
  assume wf: "model_ref_wf m"
  then have "split_once (CHR ''/'') (as_key m) = Some (mr_provider m, mr_model m)"
    by (simp add: split_once_Some as_key_def model_ref_wf_def)
  with wf show ?thesis
    by (simp add: parse_model_ref_def model_ref_wf_def new_model_ref_def)
qed

section \<open>Properties\<close>

text \<open>
  C29: printing a model reference as its durable key and parsing the key back yields the same
  reference exactly for the references the configuration syntax can name: both parts non-empty
  and without surrounding white space, and no slash in the provider part.
\<close>

theorem key_roundtrip: "parse_model_ref (as_key m) = Some m \<longleftrightarrow> model_ref_wf m"
  using parse_model_ref_wf parse_as_key by blast

end
