(* ===== verification/Failover_Policy.thy ===== *)
theory Failover_Policy
  imports Capability
begin

text \<open>
  \<open>crates/rupi-runtime/src/failover.rs\<close>: the policy that decides what happens after a failed
  model request, its complete characterisation, and the contract the request loop relies on.
\<close>

section \<open>The policy\<close>

datatype recovery =
  Retry (retry_attempt: u32) (retry_max: u32)
| Failover (failover_to: model_ref) (failover_gaps: "capability_gap list")
| Refused model_ref "capability_gap list"
| Abort

record failover_policy =
  fp_backup :: "model_ref option"
  fp_backup_capabilities :: "model_capabilities option"
  fp_max_attempts :: u32
  fp_required :: model_capabilities

definition default_policy :: failover_policy where
  "default_policy =
     \<lparr> fp_backup = None, fp_backup_capabilities = None, fp_max_attempts = 2,
       fp_required = text_only 8192 \<rparr>"

definition policy_with_backup :: "model_ref \<Rightarrow> model_capabilities \<Rightarrow> failover_policy \<Rightarrow> failover_policy" where
  "policy_with_backup m c p = p\<lparr>fp_backup := Some m, fp_backup_capabilities := Some c\<rparr>"

definition policy_requiring :: "model_capabilities \<Rightarrow> failover_policy \<Rightarrow> failover_policy" where
  "policy_requiring r p = p\<lparr>fp_required := r\<rparr>"

definition policy_with_max_attempts :: "u32 \<Rightarrow> failover_policy \<Rightarrow> failover_policy" where
  "policy_with_max_attempts n p = p\<lparr>fp_max_attempts := max n 1\<rparr>"

definition failover_or_abort :: "failover_policy \<Rightarrow> recovery" where
  "failover_or_abort p =
     (case (fp_backup p, fp_backup_capabilities p) of
        (Some backup, Some capabilities) \<Rightarrow>
          (let gs = gaps capabilities (fp_required p)
           in if has_hard_gap gs then Refused backup gs else Failover backup gs)
      | _ \<Rightarrow> Abort)"

definition decide :: "failover_policy \<Rightarrow> model_failure \<Rightarrow> recovery" where
  "decide p failure =
     (let kind = mf_kind failure; attempt = mf_attempts failure
      in if kind = Cancelled then Abort
         else if mf_partial_output_emitted failure then Abort
         else if safe_to_retry failure \<and> attempt < fp_max_attempts p
           then Retry attempt (fp_max_attempts p)
         else if is_failover_candidate kind then failover_or_abort p
         else Abort)"

section \<open>Characterisation of every branch\<close>

lemma decide_Retry_iff:
  "decide p f = Retry a n \<longleftrightarrow>
     safe_to_retry f \<and> a = mf_attempts f \<and> n = fp_max_attempts p \<and> a < n"
  by (cases "mf_kind f")
    (auto simp: decide_def safe_to_retry_def failover_or_abort_def Let_def
      split: option.splits)

lemma failover_or_abort_cases:
  "failover_or_abort p = Failover to gs \<longleftrightarrow>
     fp_backup p = Some to \<and> (\<exists>c. fp_backup_capabilities p = Some c
       \<and> gs = gaps c (fp_required p) \<and> serves_modalities c (fp_required p))"
  "failover_or_abort p = Refused to gs \<longleftrightarrow>
     fp_backup p = Some to \<and> (\<exists>c. fp_backup_capabilities p = Some c
       \<and> gs = gaps c (fp_required p) \<and> \<not> serves_modalities c (fp_required p))"
  "failover_or_abort p \<noteq> Retry a n"
  by (auto simp: failover_or_abort_def Let_def has_hard_gap_gaps split: option.splits)

definition takeover_eligible :: "failover_policy \<Rightarrow> model_failure \<Rightarrow> bool" where
  "takeover_eligible p f \<longleftrightarrow>
     is_failover_candidate (mf_kind f) \<and> \<not> mf_partial_output_emitted f
     \<and> \<not> (safe_to_retry f \<and> mf_attempts f < fp_max_attempts p)"

lemma takeover_eligible_decide: "takeover_eligible p f \<Longrightarrow> decide p f = failover_or_abort p"
  by (cases "mf_kind f") (auto simp: takeover_eligible_def decide_def Let_def)

lemma not_eligible_decide: "\<not> takeover_eligible p f \<Longrightarrow> decide p f = Abort \<or> (\<exists>a n. decide p f = Retry a n)"
  by (auto simp: takeover_eligible_def decide_def Let_def)

lemma decide_Failover_iff:
  "decide p f = Failover to gs \<longleftrightarrow> takeover_eligible p f \<and> failover_or_abort p = Failover to gs"
  by (cases "takeover_eligible p f") (auto simp: takeover_eligible_decide dest: not_eligible_decide)

lemma decide_Refused_iff:
  "decide p f = Refused to gs \<longleftrightarrow> takeover_eligible p f \<and> failover_or_abort p = Refused to gs"
  by (cases "takeover_eligible p f") (auto simp: takeover_eligible_decide dest: not_eligible_decide)

section \<open>The contract of a recovery decision\<close>

text \<open>
  What the request loop may assume of any policy it consults: a retry is granted only to a
  failure that is safe to replay and is under a finite attempt bound; a takeover names the
  model the gate admitted, and only an availability failure without committed output gets one.
\<close>

locale recovery_contract =
  fixes decision :: "model_failure \<Rightarrow> recovery"
    and attempt_bound :: nat
    and admitted :: "model_ref \<Rightarrow> bool"
  assumes retry_safe: "decision f = Retry a n \<Longrightarrow> safe_to_retry f"
    and retry_bounded: "decision f = Retry a n \<Longrightarrow> mf_attempts f < attempt_bound"
    and takeover_admitted: "decision f = Failover to gs \<Longrightarrow> admitted to"
    and takeover_availability: "decision f = Failover to gs \<Longrightarrow> is_failover_candidate (mf_kind f)"
    and takeover_uncommitted: "decision f = Failover to gs \<Longrightarrow> \<not> mf_partial_output_emitted f"
begin

lemma reissue_uncommitted:
  "decision f = Retry a n \<or> decision f = Failover to gs \<Longrightarrow> \<not> mf_partial_output_emitted f"
  using retry_safe takeover_uncommitted by (auto simp: safe_to_retry_def)

lemma reissue_availability:
  "decision f = Retry a n \<or> decision f = Failover to gs \<Longrightarrow> is_failover_candidate (mf_kind f)"
  using retry_safe takeover_availability retryable_is_candidate by (auto simp: safe_to_retry_def)

lemma spent_budget_never_retries:
  "attempt_bound \<le> mf_attempts f \<Longrightarrow> decision f \<noteq> Retry a n"
  using retry_bounded by fastforce

end

text \<open>The admission gate of a configured policy.\<close>

definition policy_admits :: "failover_policy \<Rightarrow> model_ref \<Rightarrow> bool" where
  "policy_admits p to \<longleftrightarrow>
     fp_backup p = Some to
     \<and> (\<exists>c. fp_backup_capabilities p = Some c \<and> serves_modalities c (fp_required p))"

interpretation fop: recovery_contract "decide p" "fp_max_attempts p" "policy_admits p"
  for p :: failover_policy
  by unfold_locales
    (auto simp: decide_Retry_iff decide_Failover_iff failover_or_abort_cases policy_admits_def
      takeover_eligible_def)

section \<open>Properties\<close>

text \<open>
  C18: the recovery decision, branch by branch. A retry needs a retryable class, replay-safe
  evidence, no committed output and an unspent attempt bound; a takeover needs an availability
  failure that is past retrying and a configured backup that offers every hard modality the
  session needs; a refusal names the backup that does not; everything else aborts.
\<close>

theorem decide_exact:
  "(decide p f = Retry a n \<longleftrightarrow>
      is_retryable (mf_kind f) \<and> mf_replay_safety f = Safe \<and> \<not> mf_partial_output_emitted f
      \<and> a = mf_attempts f \<and> n = fp_max_attempts p \<and> a < n)
   \<and> (decide p f = Failover to gs \<longleftrightarrow>
        takeover_eligible p f \<and> fp_backup p = Some to
        \<and> (\<exists>c. fp_backup_capabilities p = Some c \<and> gs = gaps c (fp_required p)
             \<and> serves_modalities c (fp_required p)))
   \<and> (decide p f = Refused to gs \<longleftrightarrow>
        takeover_eligible p f \<and> fp_backup p = Some to
        \<and> (\<exists>c. fp_backup_capabilities p = Some c \<and> gs = gaps c (fp_required p)
             \<and> \<not> serves_modalities c (fp_required p)))
   \<and> (decide p f = Abort \<longleftrightarrow>
        \<not> (safe_to_retry f \<and> mf_attempts f < fp_max_attempts p)
        \<and> \<not> (takeover_eligible p f \<and> fp_backup p \<noteq> None \<and> fp_backup_capabilities p \<noteq> None))"
  (is "?retry \<and> ?failover \<and> ?refused \<and> ?abort")
proof (intro conjI)
  show ?retry by (auto simp: decide_Retry_iff safe_to_retry_def)
  show ?failover by (auto simp: decide_Failover_iff failover_or_abort_cases)
  show ?refused by (auto simp: decide_Refused_iff failover_or_abort_cases)
  show ?abort
    by (cases "mf_kind f")
      (auto simp: decide_def takeover_eligible_def safe_to_retry_def failover_or_abort_def Let_def
        split: option.splits)
qed

text \<open>
  failures of quality, permission, size or by request of the user never switch the model
  and are never retried, and neither is a failure after output reached the user.
\<close>

theorem quality_failures_abort:
  assumes "mf_kind f \<in> {Semantic, Authentication, ContextOverflow, Cancelled}
           \<or> mf_partial_output_emitted f"
  shows "decide p f = Abort"
  using assms fop.reissue_availability [of p f] fop.reissue_uncommitted [of p f]
    decide_Refused_iff [of p f] takeover_eligible_def [of p f]
  by (cases "decide p f") auto

theorem quality_failures_abort_witness:
  "decide (policy_with_backup (new_model_ref ''b'' ''m'') (text_only 9000) default_policy)
     (with_partial_output True (new_failure Transport PreRequest ''reset'')) = Abort"
  by (rule quality_failures_abort) (simp add: rupi_defs Let_def)

end
