(* ===== verification/Json.thy ===== *)
theory Json
  imports Rupi_Prelude Complex_Main
begin

text \<open>
  The JSON values the program passes around (\<open>serde_json::Value\<close>): a number is a
  non-negative integer, a negative integer or a finite float (whose value is rational), an
  object is its list of entries in key order. Parsing text into a value is not code of the
  repository; where a component parses, the parser is an argument of the definition.
\<close>

datatype json_num = PosInt nat | NegInt int | Float rat

datatype json =
  JNull | JBool bool | JNum json_num | JStr string | JArr "json list"
| JObj "(string \<times> json) list"

fun is_null :: "json \<Rightarrow> bool" where
  "is_null JNull = True" | "is_null _ = False"

fun is_boolean :: "json \<Rightarrow> bool" where
  "is_boolean (JBool _) = True" | "is_boolean _ = False"

fun is_number :: "json \<Rightarrow> bool" where
  "is_number (JNum _) = True" | "is_number _ = False"

fun is_string :: "json \<Rightarrow> bool" where
  "is_string (JStr _) = True" | "is_string _ = False"

fun is_array :: "json \<Rightarrow> bool" where
  "is_array (JArr _) = True" | "is_array _ = False"

fun is_object :: "json \<Rightarrow> bool" where
  "is_object (JObj _) = True" | "is_object _ = False"

fun as_u64 :: "json \<Rightarrow> u64 option" where
  "as_u64 (JNum (PosInt n)) = Some n" | "as_u64 _ = None"

fun as_i64 :: "json \<Rightarrow> int option" where
  "as_i64 (JNum (PosInt n)) = (if n < 2 ^ 63 then Some (int n) else None)"
| "as_i64 (JNum (NegInt i)) = Some i"
| "as_i64 _ = None"

fun as_str :: "json \<Rightarrow> string option" where
  "as_str (JStr s) = Some s" | "as_str _ = None"

fun as_array :: "json \<Rightarrow> json list option" where
  "as_array (JArr xs) = Some xs" | "as_array _ = None"

fun as_object :: "json \<Rightarrow> (string \<times> json) list option" where
  "as_object (JObj fs) = Some fs" | "as_object _ = None"

text \<open>\<open>Value::get\<close> with a string key: \<open>None\<close> unless the value is an object with the key.\<close>

fun jget :: "json \<Rightarrow> string \<Rightarrow> json option" where
  "jget (JObj fs) k = map_of fs k" | "jget _ k = None"

lemma as_str_Some [simp]: "as_str v = Some s \<longleftrightarrow> v = JStr s"
  by (cases v) auto

lemma as_array_Some [simp]: "as_array v = Some xs \<longleftrightarrow> v = JArr xs"
  by (cases v) auto

lemma as_object_Some [simp]: "as_object v = Some fs \<longleftrightarrow> v = JObj fs"
  by (cases v) auto

lemma as_u64_Some [simp]: "as_u64 v = Some n \<longleftrightarrow> v = JNum (PosInt n)"
  by (cases v rule: as_u64.cases) auto

lemma jget_Some: "jget v k = Some x \<longleftrightarrow> (\<exists>fs. v = JObj fs \<and> map_of fs k = Some x)"
  by (cases v) auto

lemma map_of_size_less:
  "map_of fs k = Some x \<Longrightarrow> size x < size_list (size_prod (\<lambda>_. 0) size) fs"
  by (induction fs) (auto split: if_splits)

lemma size_jget: "jget v k = Some x \<Longrightarrow> size x < size v"
  by (auto simp: jget_Some dest: map_of_size_less)

end
