(* ===== verification/Sha256.thy ===== *)
theory Sha256
  imports Rupi_Prelude
begin

text \<open>
  \<open>crates/rupi-core/src/hash.rs\<close>: the SHA-256 used for content addressing, on 32-bit machine
  words as the source has it, and the shape of the digests and of their hexadecimal form.
\<close>

unbundle bit_operations_syntax

section \<open>Constants\<close>

text \<open>The tables \<open>K\<close> and \<open>H0\<close>, written in decimal.\<close>

definition sha_k :: "32 word list" where
  "sha_k =
    [1116352408, 1899447441, 3049323471, 3921009573, 961987163, 1508970993, 2453635748,
     2870763221, 3624381080, 310598401, 607225278, 1426881987, 1925078388, 2162078206,
     2614888103, 3248222580, 3835390401, 4022224774, 264347078, 604807628, 770255983,
     1249150122, 1555081692, 1996064986, 2554220882, 2821834349, 2952996808, 3210313671,
     3336571891, 3584528711, 113926993, 338241895, 666307205, 773529912, 1294757372,
     1396182291, 1695183700, 1986661051, 2177026350, 2456956037, 2730485921, 2820302411,
     3259730800, 3345764771, 3516065817, 3600352804, 4094571909, 275423344, 430227734,
     506948616, 659060556, 883997877, 958139571, 1322822218, 1537002063, 1747873779,
     1955562222, 2024104815, 2227730452, 2361852424, 2428436474, 2756734187, 3204031479,
     3329325298]"

definition sha_h0 :: "32 word list" where
  "sha_h0 =
    [1779033703, 3144134277, 1013904242, 2773480762, 1359893119, 2600822924, 528734635,
     1541459225]"

section \<open>Padding\<close>

text \<open>The loop \<open>while message.len() % 64 != 56\<close>.\<close>

function pad_zeros :: "char list \<Rightarrow> char list" where
  "pad_zeros m = (if length m mod 64 = 56 then m else pad_zeros (m @ [CHR 0x00]))"
  by pat_completeness auto

lemma pad_measure: "n mod 64 \<noteq> 56 \<Longrightarrow> (120 - Suc n mod 64) mod 64 < (120 - n mod 64) mod (64::nat)"
proof -
  define r where "r = n mod 64"
  have r: "r < 64" by (simp add: r_def)
  have step: "Suc n mod 64 = (if r = 63 then 0 else Suc r)"
    by (simp add: mod_Suc r_def)
  assume "n mod 64 \<noteq> 56"
  then consider "r < 56" | "56 < r" "r < 63" | "r = 63"
    using r r_def by fastforce
  then show ?thesis
  proof cases
    case 1
    then have "(120 - r) mod 64 = 56 - r" "(120 - Suc r) mod 64 = 55 - r"
      using le_mod_geq [of 64 "120 - r"] le_mod_geq [of 64 "120 - Suc r"] by auto
    then show ?thesis
      using 1 unfolding step r_def [symmetric] by simp
  next
    case 2
    then show ?thesis
      unfolding step r_def [symmetric] by simp
  next
    case 3
    then show ?thesis
      unfolding step r_def [symmetric] by simp
  qed
qed

termination pad_zeros
  by (relation "measure (\<lambda>m. (120 - length m mod 64) mod 64)") (auto simp: pad_measure)

declare pad_zeros.simps [simp del]

lemma pad_zeros_length: "length (pad_zeros m) mod 64 = 56"
  by (induction m rule: pad_zeros.induct) (subst pad_zeros.simps, simp)

lemma pad_zeros_prefix: "prefix m (pad_zeros m)"
proof (induction m rule: pad_zeros.induct)
  case (1 m)
  show ?case
  proof (cases "length m mod 64 = 56")
    case False
    then have "prefix (m @ [CHR 0x00]) (pad_zeros m)"
      using 1 by (subst pad_zeros.simps) simp
    then show ?thesis
      using append_prefixD by blast
  qed (simp add: pad_zeros.simps)
qed

definition be_bytes64 :: "64 word \<Rightarrow> char list" where
  "be_bytes64 w = map (\<lambda>i. char_of (unat (take_bit 8 (drop_bit (8 * i) w)))) [7, 6, 5, 4, 3, 2, 1, 0]"

definition be_bytes32 :: "32 word \<Rightarrow> char list" where
  "be_bytes32 w = map (\<lambda>i. char_of (unat (take_bit 8 (drop_bit (8 * i) w)))) [3, 2, 1, 0]"

fun from_be_bytes32 :: "char list \<Rightarrow> 32 word" where
  "from_be_bytes32 bs = fold (\<lambda>b w. push_bit 8 w OR of_nat (byte b)) bs 0"

definition padded_message :: "char list \<Rightarrow> char list" where
  "padded_message input =
     (let bit_len = of_nat (length input) * (8 :: 64 word)
      in pad_zeros (input @ [CHR 0x80]) @ be_bytes64 bit_len)"

function chunks_of :: "nat \<Rightarrow> 'a list \<Rightarrow> 'a list list" where
  "chunks_of n xs = (if n = 0 \<or> xs = [] then [] else take n xs # chunks_of n (drop n xs))"
  by pat_completeness auto

termination chunks_of
  by (relation "measure (\<lambda>(n, xs). length xs)") auto

declare chunks_of.simps [simp del]

lemma chunks_Nil [simp]: "chunks_of n [] = []"
  by (subst chunks_of.simps) simp

lemma chunks_step: "0 < n \<Longrightarrow> xs \<noteq> [] \<Longrightarrow> chunks_of n xs = take n xs # chunks_of n (drop n xs)"
  by (subst chunks_of.simps) simp

lemma concat_chunks: "0 < n \<Longrightarrow> concat (chunks_of n xs) = xs"
proof (induction n xs rule: chunks_of.induct)
  case (1 n xs)
  then show ?case
    by (cases "xs = []") (simp_all add: chunks_step [of n xs])
qed

lemma chunks_full: "0 < n \<Longrightarrow> length xs = k * n \<Longrightarrow> \<forall>c \<in> set (chunks_of n xs). length c = n"
proof (induction k arbitrary: xs)
  case (Suc k)
  have "xs \<noteq> []"
    using Suc.prems by auto
  then have "chunks_of n xs = take n xs # chunks_of n (drop n xs)"
    using Suc.prems(1) by (rule chunks_step [rotated])
  moreover have "length (drop n xs) = k * n" "length (take n xs) = n"
    using Suc.prems by simp_all
  moreover have "\<forall>c \<in> set (chunks_of n (drop n xs)). length c = n"
    using Suc.prems(1) calculation(2) by (rule Suc.IH)
  ultimately show ?case
    by (metis set_ConsD)
qed simp

section \<open>The compression function\<close>

definition schedule_step :: "nat \<Rightarrow> 32 word list \<Rightarrow> 32 word list" where
  "schedule_step i w =
     (let s0 = word_rotr 7 (w ! (i - 15)) XOR word_rotr 18 (w ! (i - 15)) XOR drop_bit 3 (w ! (i - 15));
          s1 = word_rotr 17 (w ! (i - 2)) XOR word_rotr 19 (w ! (i - 2)) XOR drop_bit 10 (w ! (i - 2))
      in w[i := w ! (i - 16) + s0 + w ! (i - 7) + s1])"

definition message_schedule :: "char list \<Rightarrow> 32 word list" where
  "message_schedule blk =
     fold schedule_step [16..<64]
       (take 64 (map from_be_bytes32 (take 16 (chunks_of 4 blk)) @ replicate 64 0))"

record sha_regs =
  reg_a :: "32 word"
  reg_b :: "32 word"
  reg_c :: "32 word"
  reg_d :: "32 word"
  reg_e :: "32 word"
  reg_f :: "32 word"
  reg_g :: "32 word"
  reg_h :: "32 word"

definition sha_round :: "32 word list \<Rightarrow> nat \<Rightarrow> sha_regs \<Rightarrow> sha_regs" where
  "sha_round w i r =
     (let e = reg_e r; a = reg_a r;
          s1 = word_rotr 6 e XOR word_rotr 11 e XOR word_rotr 25 e;
          ch = (e AND reg_f r) XOR (NOT e AND reg_g r);
          temp1 = reg_h r + s1 + ch + sha_k ! i + w ! i;
          s0 = word_rotr 2 a XOR word_rotr 13 a XOR word_rotr 22 a;
          maj = (a AND reg_b r) XOR (a AND reg_c r) XOR (reg_b r AND reg_c r);
          temp2 = s0 + maj
      in \<lparr> reg_a = temp1 + temp2, reg_b = a, reg_c = reg_b r, reg_d = reg_c r, reg_e = reg_d r + temp1, reg_f = e,
           reg_g = reg_f r, reg_h = reg_g r \<rparr>)"

definition sha_block :: "char list \<Rightarrow> 32 word list \<Rightarrow> 32 word list" where
  "sha_block blk h =
     (let w = message_schedule blk;
          r = fold (sha_round w) [0..<64]
                \<lparr> reg_a = h ! 0, reg_b = h ! 1, reg_c = h ! 2, reg_d = h ! 3, reg_e = h ! 4, reg_f = h ! 5,
                  reg_g = h ! 6, reg_h = h ! 7 \<rparr>
      in [h ! 0 + reg_a r, h ! 1 + reg_b r, h ! 2 + reg_c r, h ! 3 + reg_d r,
          h ! 4 + reg_e r, h ! 5 + reg_f r, h ! 6 + reg_g r, h ! 7 + reg_h r])"

definition sha256 :: "char list \<Rightarrow> char list" where
  "sha256 input =
     concat (map be_bytes32 (fold sha_block (chunks_of 64 (padded_message input)) sha_h0))"

definition hex_digit :: "nat \<Rightarrow> char" where
  "hex_digit n = (if n < 10 then char_of (48 + n) else char_of (87 + n))"

definition hex_byte :: "char \<Rightarrow> string" where
  "hex_byte c = [hex_digit (byte c div 16), hex_digit (byte c mod 16)]"

definition sha256_hex :: "char list \<Rightarrow> string" where
  "sha256_hex input = concat (map hex_byte (sha256 input))"

section \<open>Shape of the digest\<close>

lemma padded_message_blocks: "64 dvd length (padded_message input)"
  using pad_zeros_length [of "input @ [CHR 0x80]"]
  by (simp add: padded_message_def be_bytes64_def Let_def dvd_eq_mod_eq_0) presburger

lemma padded_message_full_blocks: "\<forall>b \<in> set (chunks_of 64 (padded_message input)). length b = 64"
  using padded_message_blocks [of input]
  by (elim dvdE, intro chunks_full [where k = "length (padded_message input) div 64"]) simp_all

lemma padded_message_prefix: "prefix (input @ [CHR 0x80]) (padded_message input)"
  by (simp add: padded_message_def Let_def pad_zeros_prefix prefix_prefix)

lemma length_message_schedule [simp]: "length (message_schedule blk) = 64"
proof -
  have "length (fold schedule_step is w) = length w" for "is" w
    by (induction "is" arbitrary: w) (simp_all add: schedule_step_def Let_def)
  then show ?thesis
    by (simp add: message_schedule_def del: upt_rec_numeral)
qed

lemma length_sha_fold: "length h = 8 \<Longrightarrow> length (fold sha_block bs h) = 8"
  by (induction bs arbitrary: h) (simp_all add: sha_block_def Let_def)

lemma length_sha256 [simp]: "length (sha256 input) = 32"
proof -
  have "length (fold sha_block (chunks_of 64 (padded_message input)) sha_h0) = 8"
    by (rule length_sha_fold) (simp add: sha_h0_def)
  moreover have "length (concat (map be_bytes32 ws)) = 4 * length ws" for ws
    by (induction ws) (simp_all add: be_bytes32_def)
  ultimately show ?thesis
    by (simp add: sha256_def)
qed

definition is_lower_hex :: "char \<Rightarrow> bool" where
  "is_lower_hex c \<longleftrightarrow> (48 \<le> byte c \<and> byte c \<le> 57) \<or> (97 \<le> byte c \<and> byte c \<le> 102)"

lemma hex_digit_lower: "n < 16 \<Longrightarrow> is_lower_hex (hex_digit n)"
  by (auto simp: is_lower_hex_def hex_digit_def byte_def)

lemma length_sha256_hex [simp]: "length (sha256_hex input) = 64"
proof -
  have "length (concat (map hex_byte bs)) = 2 * length bs" for bs
    by (induction bs) (simp_all add: hex_byte_def)
  then show ?thesis
    by (simp add: sha256_hex_def)
qed

lemma sha256_hex_lower: "list_all is_lower_hex (sha256_hex input)"
proof -
  have "byte c < 256" for c
    by (cases c) (simp add: byte_def)
  then have "list_all is_lower_hex (hex_byte c)" for c
    by (simp add: hex_byte_def hex_digit_lower less_mult_imp_div_less)
  then have "list_all is_lower_hex (concat (map hex_byte bs))" for bs
    by (induction bs) simp_all
  then show ?thesis
    by (simp add: sha256_hex_def)
qed

end
