(* ===== verification/Blob_Ref.thy ===== *)
theory Blob_Ref
  imports Sha256
begin

text \<open>
  \<open>crates/rupi-core/src/trace.rs\<close> (content-addressed references) and
  \<open>crates/rupi-store/src/blob.rs\<close> (the payload store and the parser of durable references).
  The file tree below the blob directory is a map from \<open>(shard, file name)\<close> to bytes; I/O errors
  are not modelled. The Deflate codec is a library and stays a parameter.
\<close>

section \<open>References\<close>

datatype blob_compression = NoCompression | Deflate

fun compression_suffix :: "blob_compression \<Rightarrow> string option" where
  "compression_suffix NoCompression = None"
| "compression_suffix Deflate = Some ''deflate''"

definition compression_from_suffix :: "string option \<Rightarrow> blob_compression option" where
  "compression_from_suffix s =
     (case s of
        None \<Rightarrow> Some NoCompression
      | Some t \<Rightarrow> if t = ''deflate'' then Some Deflate else None)"

record blob_ref =
  br_hash :: string
  br_size :: u64
  br_content_type :: "string option"
  br_compression :: blob_compression

definition blob_for_bytes :: "char list \<Rightarrow> string option \<Rightarrow> blob_ref" where
  "blob_for_bytes bytes content_type =
     \<lparr> br_hash = sha256_hex bytes, br_size = length bytes, br_content_type = content_type,
       br_compression = NoCompression \<rparr>"

definition blob_with_compression :: "blob_compression \<Rightarrow> blob_ref \<Rightarrow> blob_ref" where
  "blob_with_compression c b = b\<lparr>br_compression := c\<rparr>"

definition short_hash :: "blob_ref \<Rightarrow> string" where
  "short_hash b = take_chars 12 (br_hash b)"

definition is_hexdigit :: "char \<Rightarrow> bool" where
  "is_hexdigit c \<longleftrightarrow>
     (48 \<le> byte c \<and> byte c \<le> 57) \<or> (65 \<le> byte c \<and> byte c \<le> 70) \<or> (97 \<le> byte c \<and> byte c \<le> 102)"

definition blob_well_formed :: "blob_ref \<Rightarrow> bool" where
  "blob_well_formed b \<longleftrightarrow> length (br_hash b) = 64 \<and> list_all is_hexdigit (br_hash b)"

definition blob_suffix :: "blob_compression \<Rightarrow> string" where
  "blob_suffix c = (case compression_suffix c of None \<Rightarrow> [] | Some s \<Rightarrow> ''.'' @ s)"

definition blob_relative_path :: "blob_ref \<Rightarrow> string" where
  "blob_relative_path b =
     (if \<not> blob_well_formed b then ''blobs/invalid/invalid''
      else ''blobs/'' @ take 2 (br_hash b) @ ''/'' @ br_hash b @ blob_suffix (br_compression b))"

definition blob_recovery_ref :: "blob_ref \<Rightarrow> string" where
  "blob_recovery_ref b = blob_relative_path b @ '':'' @ short_hash b"

section \<open>Parsing a durable reference\<close>

datatype blob_error = BlobInvalid string | BlobMissing string

definition strip_prefix :: "string \<Rightarrow> string \<Rightarrow> string option" where
  "strip_prefix p s = (if prefix p s then Some (drop (length p) s) else None)"

definition rsplit_once :: "char \<Rightarrow> string \<Rightarrow> (string \<times> string) option" where
  "rsplit_once d s =
     (case split_once d (rev s) of None \<Rightarrow> None | Some (a, b) \<Rightarrow> Some (rev b, rev a))"

definition parse_blob_relative :: "string \<Rightarrow> blob_error + (string \<times> string) \<times> blob_compression" where
  "parse_blob_relative reference =
     (case strip_prefix ''blobs/'' reference of
        None \<Rightarrow> Inl (BlobInvalid reference)
      | Some rest \<Rightarrow>
         (case split_once (CHR ''/'') rest of
            None \<Rightarrow> Inl (BlobInvalid reference)
          | Some (shard, filename) \<Rightarrow>
             (if CHR ''/'' \<in> set filename \<or> contains_str reference ''..''
              then Inl (BlobInvalid reference)
              else
                (let (hash, suffix) =
                   (case rsplit_once (CHR ''.'') filename of
                      None \<Rightarrow> (filename, None) | Some (h, t) \<Rightarrow> (h, Some t))
                 in case compression_from_suffix suffix of
                      None \<Rightarrow> Inl (BlobInvalid reference)
                    | Some compression \<Rightarrow>
                       (if length hash \<noteq> 64 \<or> \<not> list_all is_hexdigit hash \<or> length shard \<noteq> 2
                           \<or> \<not> prefix shard hash
                        then Inl (BlobInvalid reference)
                        else Inr ((shard, filename), compression))))))"

section \<open>Reading and writing payloads\<close>

type_synonym blob_fs = "string \<times> string \<Rightarrow> char list option"
type_synonym codec = "(char list \<Rightarrow> char list) \<times> (char list \<Rightarrow> char list option)"

definition blob_path :: "blob_ref \<Rightarrow> string \<times> string" where
  "blob_path b =
     (case split_once (CHR ''/'') (drop (length ''blobs/'') (blob_relative_path b)) of
        None \<Rightarrow> ([], []) | Some p \<Rightarrow> p)"

definition blob_encode :: "codec \<Rightarrow> char list \<Rightarrow> blob_compression \<Rightarrow> char list" where
  "blob_encode z bytes c = (case c of NoCompression \<Rightarrow> bytes | Deflate \<Rightarrow> fst z bytes)"

definition blob_decode :: "codec \<Rightarrow> char list \<Rightarrow> blob_compression \<Rightarrow> char list option" where
  "blob_decode z bytes c = (case c of NoCompression \<Rightarrow> Some bytes | Deflate \<Rightarrow> snd z bytes)"

definition reference_for :: "codec \<Rightarrow> blob_compression \<Rightarrow> char list \<Rightarrow> string option \<Rightarrow> blob_ref" where
  "reference_for z preferred bytes content_type =
     (let raw = blob_for_bytes bytes content_type
      in if preferred = Deflate \<and> length (fst z bytes) < length bytes
         then blob_with_compression Deflate raw else raw)"

definition blob_verify :: "codec \<Rightarrow> blob_fs \<Rightarrow> blob_ref \<Rightarrow> bool" where
  "blob_verify z fs b =
     (case fs (blob_path b) of
        None \<Rightarrow> False
      | Some stored \<Rightarrow>
         (case blob_decode z stored (br_compression b) of
            None \<Rightarrow> False
          | Some bytes \<Rightarrow> sha256_hex bytes = br_hash b \<and> length bytes = br_size b))"

text \<open>\<open>put\<close>: the temporary file is verified before it is renamed to its final place.\<close>

definition blob_put ::
  "codec \<Rightarrow> blob_compression \<Rightarrow> char list \<Rightarrow> string option \<Rightarrow> blob_fs \<Rightarrow> blob_error + blob_fs \<times> blob_ref" where
  "blob_put z preferred bytes content_type fs =
     (let b = reference_for z preferred bytes content_type;
          encoded = blob_encode z bytes (br_compression b)
      in if blob_verify z fs b then Inr (fs, b)
         else case blob_decode z encoded (br_compression b) of
                None \<Rightarrow> Inl (BlobInvalid (br_hash b))
              | Some decoded \<Rightarrow>
                  if sha256_hex decoded \<noteq> br_hash b \<or> length decoded \<noteq> br_size b
                  then Inl (BlobInvalid (br_hash b))
                  else Inr (fs(blob_path b \<mapsto> encoded), b))"

definition blob_remove :: "blob_ref \<Rightarrow> blob_fs \<Rightarrow> blob_fs" where
  "blob_remove b fs = fs(blob_path b := None)"

definition get_relative :: "codec \<Rightarrow> blob_fs \<Rightarrow> string \<Rightarrow> blob_error + char list" where
  "get_relative z fs reference =
     bind_res (parse_blob_relative reference)
       (\<lambda>(path, compression).
          case fs path of
            None \<Rightarrow> Inl (BlobMissing reference)
          | Some stored \<Rightarrow> ok_or (blob_decode z stored compression) (BlobInvalid reference))"

definition strip_suffix_or_self :: "string \<Rightarrow> string \<Rightarrow> string" where
  "strip_suffix_or_self t s = (if suffix t s then take (length s - length t) s else s)"

definition get_relative_verified :: "codec \<Rightarrow> blob_fs \<Rightarrow> string \<Rightarrow> blob_error + char list" where
  "get_relative_verified z fs reference =
     bind_res (get_relative z fs reference)
       (\<lambda>bytes.
          let filename = (case rsplit_once (CHR ''/'') reference of None \<Rightarrow> reference | Some (_, f) \<Rightarrow> f);
              hash = strip_suffix_or_self ''.deflate'' filename
          in if length hash \<noteq> 64 \<or> sha256_hex bytes \<noteq> hash then Inl (BlobInvalid reference)
             else Inr bytes)"

definition durable_name :: "string \<times> string \<Rightarrow> string" where
  "durable_name p = ''blobs/'' @ fst p @ ''/'' @ snd p"

definition prune_unreferenced :: "(string \<times> string) list \<Rightarrow> string list \<Rightarrow> blob_fs \<Rightarrow> blob_fs" where
  "prune_unreferenced files referenced fs =
     fold (\<lambda>p fs. if durable_name p \<in> set referenced
                    \<or> contains_str (fst p @ ''/'' @ snd p) ''.part-''
                  then fs else fs(p := None)) files fs"

section \<open>Parsing and printing agree\<close>

lemma hexdigit_not_punct:
  assumes "list_all is_hexdigit h"
  shows "CHR ''/'' \<notin> set h" "CHR ''.'' \<notin> set h"
  using assms by (auto simp: list_all_iff is_hexdigit_def byte_def)

lemma split_once_append: "d \<notin> set a \<Longrightarrow> split_once d (a @ d # b) = Some (a, b)"
  by (induction a) auto

lemma split_once_absent: "d \<notin> set a \<Longrightarrow> split_once d a = None"
  by (simp add: split_once_None)

lemma rsplit_once_append: "d \<notin> set b \<Longrightarrow> rsplit_once d (a @ d # b) = Some (a, b)"
  by (simp add: rsplit_once_def split_once_append)

lemma rsplit_once_absent: "d \<notin> set a \<Longrightarrow> rsplit_once d a = None"
  by (simp add: rsplit_once_def split_once_absent)

lemma hash_take2:
  assumes "length h = 64" "list_all is_hexdigit h"
  shows "length (take 2 h) = 2" "prefix (take 2 h) h" "CHR ''/'' \<notin> set (take 2 h)"
  using assms hexdigit_not_punct(1) [OF assms(2)] by (auto simp: take_is_prefix dest: in_set_takeD)

lemma blob_path_well_formed:
  assumes "blob_well_formed b"
  shows "blob_path b = (take 2 (br_hash b), br_hash b @ blob_suffix (br_compression b))"
  using assms hash_take2 [of "br_hash b"]
  by (simp add: blob_path_def blob_relative_path_def blob_well_formed_def split_once_append)

lemma no_double_dot:
  assumes "count_list s x < 2"
  shows "\<not> sublist [x, x] s"
proof
  assume "sublist [x, x] s"
  then obtain a b where "s = a @ [x, x] @ b"
    by (auto simp: sublist_def)
  with assms show False
    by simp
qed

lemma relative_path_no_dots:
  assumes "blob_well_formed b"
  shows "\<not> contains_str (blob_relative_path b) ''..''"
proof -
  have h: "CHR ''.'' \<notin> set (br_hash b)" "CHR ''.'' \<notin> set (take 2 (br_hash b))"
    using assms hexdigit_not_punct(2) [of "br_hash b"]
    by (auto simp: blob_well_formed_def dest: in_set_takeD)
  then have "count_list (blob_relative_path b) (CHR ''.'') < 2"
    using assms by (cases "br_compression b")
      (simp_all add: blob_relative_path_def blob_suffix_def count_list_0_iff [THEN iffD2])
  then show ?thesis
    using no_double_dot by (simp add: contains_str_sublist)
qed

lemma parse_printed:
  assumes "blob_well_formed b"
  shows "parse_blob_relative (blob_relative_path b) = Inr (blob_path b, br_compression b)"
proof -
  have wf: "length (br_hash b) = 64" "list_all is_hexdigit (br_hash b)"
    using assms by (simp_all add: blob_well_formed_def)
  note dots = relative_path_no_dots [OF assms, unfolded blob_relative_path_def]
  show ?thesis
    using assms wf hash_take2 [OF wf] dots hexdigit_not_punct [OF wf(2)]
    by (cases "br_compression b")
      (simp_all add: parse_blob_relative_def strip_prefix_def blob_path_well_formed
        blob_relative_path_def split_once_append rsplit_once_append rsplit_once_absent
        blob_suffix_def compression_from_suffix_def)
qed

lemma lower_hex_is_hex: "is_lower_hex c \<Longrightarrow> is_hexdigit c"
  by (auto simp: is_lower_hex_def is_hexdigit_def)

lemma for_bytes_well_formed [simp]: "blob_well_formed (blob_for_bytes bytes ct)"
  using sha256_hex_lower [of bytes]
  by (auto simp: blob_well_formed_def blob_for_bytes_def list_all_iff intro: lower_hex_is_hex)

lemma reference_for_well_formed [simp]: "blob_well_formed (reference_for z p bytes ct)"
  using for_bytes_well_formed [of bytes ct]
  by (auto simp: reference_for_def Let_def blob_with_compression_def blob_well_formed_def)

lemma reference_for_claims:
  "br_hash (reference_for z p bytes ct) = sha256_hex bytes"
  "br_size (reference_for z p bytes ct) = length bytes"
  by (simp_all add: reference_for_def Let_def blob_with_compression_def blob_for_bytes_def)

text \<open>A reference that came from outside is only ever joined inside the store.\<close>

lemma parse_confined:
  assumes "parse_blob_relative r = Inr ((shard, filename), c)"
  shows "r = durable_name (shard, filename)" "CHR ''/'' \<notin> set shard" "CHR ''/'' \<notin> set filename"
    "\<not> sublist ''..'' r" "length shard = 2"
  using assms
  by (auto simp: parse_blob_relative_def Let_def strip_prefix_def durable_name_def split_once_Some
      contains_str_sublist prefix_def split: option.splits if_splits prod.splits)

section \<open>What a stored payload guarantees\<close>

lemma verify_reads_back:
  assumes "blob_verify z fs b" "blob_well_formed b"
  shows "\<exists>out. get_relative_verified z fs (blob_relative_path b) = Inr out
           \<and> sha256_hex out = br_hash b \<and> length out = br_size b"
proof -
  obtain stored out where stored: "fs (blob_path b) = Some stored"
    and out: "blob_decode z stored (br_compression b) = Some out"
    and claims: "sha256_hex out = br_hash b" "length out = br_size b"
    using assms(1) by (auto simp: blob_verify_def split: option.splits)
  have wf: "length (br_hash b) = 64" "list_all is_hexdigit (br_hash b)"
    using assms(2) by (simp_all add: blob_well_formed_def)
  have get: "get_relative z fs (blob_relative_path b) = Inr out"
    by (simp add: get_relative_def parse_printed [OF assms(2)] stored out)
  have slash: "CHR ''/'' \<notin> set (br_hash b @ blob_suffix (br_compression b))"
    using hexdigit_not_punct(1) [OF wf(2)]
    by (cases "br_compression b") (simp_all add: blob_suffix_def)
  have path: "blob_relative_path b =
      (''blobs/'' @ take 2 (br_hash b)) @ CHR ''/'' # (br_hash b @ blob_suffix (br_compression b))"
    using assms(2) by (simp add: blob_relative_path_def)
  have name: "rsplit_once (CHR ''/'') (blob_relative_path b)
       = Some (''blobs/'' @ take 2 (br_hash b), br_hash b @ blob_suffix (br_compression b))"
    unfolding path by (rule rsplit_once_append [OF slash])
  have "\<not> suffix ''.deflate'' (br_hash b)"
    using hexdigit_not_punct(2) [OF wf(2)] by (auto simp: suffix_def)
  then have "strip_suffix_or_self ''.deflate'' (br_hash b @ blob_suffix (br_compression b)) = br_hash b"
    by (cases "br_compression b") (simp_all add: strip_suffix_or_self_def blob_suffix_def suffix_def)
  then show ?thesis
    using get name claims wf by (simp add: get_relative_verified_def)
qed

lemma put_verifies:
  assumes "blob_put z p bytes ct fs = Inr (fs', b)"
  shows "blob_verify z fs' b" "b = reference_for z p bytes ct"
  using assms
  by (auto simp: blob_put_def Let_def blob_verify_def split: if_splits option.splits)

text \<open>C33:
  a payload that was stored is readable through the text of its durable reference: whatever the
  codec and whatever was in the store before, a successful \<open>put\<close> returns a reference whose
  relative path passes the path check, and the bytes read back have the digest and the length
  of the bytes that were stored.\<close>

theorem stored_payload_reads_back:
  assumes "blob_put z p bytes ct fs = Inr (fs', b)"
  shows "\<exists>out. get_relative_verified z fs' (blob_relative_path b) = Inr out
           \<and> sha256_hex out = sha256_hex bytes \<and> length out = length bytes"
  using verify_reads_back [OF put_verifies(1) [OF assms]] put_verifies(2) [OF assms]
    reference_for_claims [of z p bytes ct] by simp

lemma put_new:
  assumes "fs (blob_path (reference_for z NoCompression bytes ct)) = None"
  shows "\<exists>fs' b. blob_put z NoCompression bytes ct fs = Inr (fs', b)"
proof -
  have raw: "br_compression (reference_for z NoCompression bytes ct) = NoCompression"
    by (simp add: reference_for_def Let_def blob_for_bytes_def)
  have "\<not> blob_verify z fs (reference_for z NoCompression bytes ct)"
    using assms by (simp add: blob_verify_def)
  then show ?thesis
    by (simp add: blob_put_def Let_def raw blob_encode_def blob_decode_def reference_for_claims)
qed

theorem stored_payload_reads_back_witness:
  "\<exists>fs' b out. blob_put (id, Some) NoCompression ''payload'' None Map.empty = Inr (fs', b)
     \<and> get_relative_verified (id, Some) fs' (blob_relative_path b) = Inr out
     \<and> sha256_hex out = sha256_hex ''payload''"
  using put_new [of Map.empty "(id, Some)" "''payload''" None] stored_payload_reads_back
  by (metis (no_types, lifting))

lemma prune_keeps_referenced:
  "durable_name p \<in> set referenced \<Longrightarrow> prune_unreferenced files referenced fs p = fs p"
  unfolding prune_unreferenced_def
  by (induction files arbitrary: fs) (auto simp: fun_upd_other)

lemma prune_only_removes: "prune_unreferenced files referenced fs p \<in> {fs p, None}"
  unfolding prune_unreferenced_def
proof (induction files arbitrary: fs)
  case (Cons q files)
  define step where "step = (if durable_name q \<in> set referenced
    \<or> contains_str (fst q @ ''/'' @ snd q) ''.part-'' then fs else fs(q := None))"
  have "step p \<in> {fs p, None}"
    by (simp add: step_def)
  with Cons.IH [of step] show ?case
    by (auto simp: step_def simp del: contains_str.simps)
qed simp

end
