(* ===== verification/Tool_Lifecycle.thy ===== *)
theory Tool_Lifecycle
  imports Json Blob_Ref
begin

text \<open>
  \<open>crates/rupi-core/src/tool.rs\<close>: the durable lifecycle of a tool call, the decision whether an
  interrupted call may run again, outcomes, harness errors and the state they imply.
\<close>

section \<open>Lifecycle states\<close>

datatype tool_execution_state = Requested | Started | Succeeded | Failed | Unknown

fun tool_state_as_str :: "tool_execution_state \<Rightarrow> string" where
  "tool_state_as_str Requested = ''requested''"
| "tool_state_as_str Started = ''started''"
| "tool_state_as_str Succeeded = ''succeeded''"
| "tool_state_as_str Failed = ''failed''"
| "tool_state_as_str Unknown = ''unknown''"

definition is_terminal :: "tool_execution_state \<Rightarrow> bool" where
  "is_terminal s \<longleftrightarrow> s \<in> {Succeeded, Failed, Unknown}"

definition has_committed_result :: "tool_execution_state \<Rightarrow> bool" where
  "has_committed_result s \<longleftrightarrow> s \<in> {Succeeded, Failed}"

definition side_effect_uncertain :: "tool_execution_state \<Rightarrow> bool" where
  "side_effect_uncertain s \<longleftrightarrow> s \<in> {Started, Unknown}"

datatype replay_decision = Replay | ReconcileFirst | Never

record tool_metadata =
  tm_name :: string
  tm_description :: string
  tm_read_only :: bool
  tm_idempotent :: bool

definition read_only_metadata :: "string \<Rightarrow> string \<Rightarrow> tool_metadata" where
  "read_only_metadata n d =
     \<lparr> tm_name = n, tm_description = d, tm_read_only = True, tm_idempotent = True \<rparr>"

definition mutating_metadata :: "string \<Rightarrow> string \<Rightarrow> bool \<Rightarrow> tool_metadata" where
  "mutating_metadata n d idem =
     \<lparr> tm_name = n, tm_description = d, tm_read_only = False, tm_idempotent = idem \<rparr>"

fun replay_decision_of :: "tool_execution_state \<Rightarrow> tool_metadata \<Rightarrow> replay_decision" where
  "replay_decision_of Succeeded m = Never"
| "replay_decision_of Failed m = Replay"
| "replay_decision_of s m = (if tm_read_only m then Replay else ReconcileFirst)"

text \<open>
  An abstract reading of the decision: what is known about the side effect of the call.
\<close>

datatype effect_knowledge = EffectCommitted | NoEffect | EffectUncertain

definition knowledge :: "tool_execution_state \<Rightarrow> tool_metadata \<Rightarrow> effect_knowledge" where
  "knowledge s m =
     (if s = Succeeded then EffectCommitted
      else if s = Failed \<or> tm_read_only m then NoEffect
      else EffectUncertain)"

fun decision_for :: "effect_knowledge \<Rightarrow> replay_decision" where
  "decision_for EffectCommitted = Never"
| "decision_for NoEffect = Replay"
| "decision_for EffectUncertain = ReconcileFirst"

lemma replay_decision_knowledge: "replay_decision_of s m = decision_for (knowledge s m)"
  by (cases s) (simp_all add: knowledge_def)

section \<open>Reconciliation\<close>

datatype reconciliation_status =
  Committed (rs_details: string) | Unmodified (rs_details: string)
| Diverged (rs_details: string) | RequiresManualInspection (rs_details: string)

definition reconciliation_is_committed :: "reconciliation_status \<Rightarrow> bool" where
  "reconciliation_is_committed r = (case r of Committed _ \<Rightarrow> True | _ \<Rightarrow> False)"

definition reconciliation_is_unmodified :: "reconciliation_status \<Rightarrow> bool" where
  "reconciliation_is_unmodified r = (case r of Unmodified _ \<Rightarrow> True | _ \<Rightarrow> False)"

definition can_safe_replay :: "reconciliation_status \<Rightarrow> tool_metadata \<Rightarrow> bool" where
  "can_safe_replay r m \<longleftrightarrow> reconciliation_is_unmodified r \<and> tm_idempotent m"

section \<open>Requests, outcomes and errors\<close>

record tool_request =
  tr_call_id :: string
  tr_name :: string
  tr_arguments :: json

record tool_outcome =
  to_state :: tool_execution_state
  to_text :: string
  to_is_error :: bool
  to_reduced :: bool
  to_blob :: "blob_ref option"
  to_status :: "int option"

definition outcome_succeeded :: "string \<Rightarrow> tool_outcome" where
  "outcome_succeeded t =
     \<lparr> to_state = Succeeded, to_text = t, to_is_error = False, to_reduced = False,
       to_blob = None, to_status = None \<rparr>"

definition outcome_failed :: "string \<Rightarrow> tool_outcome" where
  "outcome_failed t =
     \<lparr> to_state = Failed, to_text = t, to_is_error = True, to_reduced = False,
       to_blob = None, to_status = None \<rparr>"

definition outcome_unknown :: "string \<Rightarrow> tool_outcome" where
  "outcome_unknown t =
     \<lparr> to_state = Unknown, to_text = t, to_is_error = True, to_reduced = False,
       to_blob = None, to_status = None \<rparr>"

definition outcome_with_blob :: "blob_ref \<Rightarrow> tool_outcome \<Rightarrow> tool_outcome" where
  "outcome_with_blob b t = t\<lparr>to_blob := Some b, to_reduced := True\<rparr>"

definition outcome_with_status :: "int \<Rightarrow> tool_outcome \<Rightarrow> tool_outcome" where
  "outcome_with_status s t = t\<lparr>to_status := Some s\<rparr>"

record tool_call_block =
  tc_id :: string
  tc_name :: string
  tc_arguments :: json

record tool_result_block =
  tb_id :: string
  tb_name :: string
  tb_state :: tool_execution_state
  tb_text :: string
  tb_is_error :: bool
  tb_reduced :: bool

definition to_block :: "string \<Rightarrow> string \<Rightarrow> tool_outcome \<Rightarrow> tool_result_block" where
  "to_block call_id name out =
     \<lparr> tb_id = call_id, tb_name = name, tb_state = to_state out, tb_text = to_text out,
       tb_is_error = to_is_error out, tb_reduced = to_reduced out \<rparr>"

record tool_error =
  te_message :: string
  te_started :: bool

definition new_tool_error :: "string \<Rightarrow> tool_error" where
  "new_tool_error m = \<lparr> te_message = m, te_started = False \<rparr>"

definition tool_error_after_start :: "string \<Rightarrow> tool_error" where
  "tool_error_after_start m = \<lparr> te_message = m, te_started = True \<rparr>"

definition implied_state :: "tool_error \<Rightarrow> tool_metadata \<Rightarrow> tool_execution_state" where
  "implied_state e m = (if te_started e \<and> \<not> tm_read_only m then Unknown else Failed)"

text \<open>The default \<open>Tool::reconcile\<close>.\<close>

definition default_reconcile :: "tool_metadata \<Rightarrow> reconciliation_status" where
  "default_reconcile m =
     (if tm_read_only m
      then Unmodified ''read-only tool produces no observable side effects''
      else RequiresManualInspection
        ''automatic side-effect reconciliation is not supported for this tool'')"

lemmas outcome_defs [rupi_defs] =
  outcome_succeeded_def outcome_failed_def outcome_unknown_def outcome_with_blob_def
  outcome_with_status_def to_block_def

lemma implied_state_terminal: "is_terminal (implied_state e m)"
  by (simp add: implied_state_def is_terminal_def)

lemma implied_state_not_Started [simp]: "implied_state e m \<noteq> Started"
  by (simp add: implied_state_def)

section \<open>Properties\<close>

text \<open>
  what may happen to a call found in a given lifecycle state. It runs again without a
  check exactly when it left no effect behind (it failed before any effect, or it only reads
  and did not already succeed); a succeeded call never runs again; and the state a harness
  error implies is one that leads to reconciliation exactly for a mutating tool that started.
\<close>

theorem replay_policy_exact:
  "(replay_decision_of s m = Replay \<longleftrightarrow> knowledge s m = NoEffect)
   \<and> (replay_decision_of s m = Never \<longleftrightarrow> s = Succeeded)
   \<and> (replay_decision_of s m = ReconcileFirst \<longleftrightarrow>
        \<not> tm_read_only m \<and> s \<in> {Requested, Started, Unknown})
   \<and> replay_decision_of (implied_state e m) m =
        (if te_started e \<and> \<not> tm_read_only m then ReconcileFirst else Replay)"
  by (cases s) (simp_all add: knowledge_def implied_state_def)

end
