(* ===== verification/Messages.thy ===== *)
theory Messages
  imports Capability Tool_Lifecycle
begin

text \<open>
  \<open>crates/rupi-core/src/message.rs\<close>: the canonical message representation every other
  component reads: roles, content blocks and the projections of a message.
\<close>

datatype role = System | User | Assistant | Tool_Role

fun role_as_str :: "role \<Rightarrow> string" where
  "role_as_str System = ''system''"
| "role_as_str User = ''user''"
| "role_as_str Assistant = ''assistant''"
| "role_as_str Tool_Role = ''tool''"

datatype content_block =
  TextBlock string
| ImageBlock (image_mime: string) (image_data: string)
| ReasoningBlock reasoning_chunk
| ToolCallB tool_call_block
| ToolResultB tool_result_block

fun plain_text :: "content_block \<Rightarrow> string option" where
  "plain_text (TextBlock t) = Some t"
| "plain_text _ = None"

record message =
  msg_role :: role
  msg_content :: "content_block list"

definition new_message :: "role \<Rightarrow> content_block list \<Rightarrow> message" where
  "new_message r c = \<lparr> msg_role = r, msg_content = c \<rparr>"

definition system_message :: "string \<Rightarrow> message" where
  "system_message t = new_message System [TextBlock t]"

definition user_message :: "string \<Rightarrow> message" where
  "user_message t = new_message User [TextBlock t]"

definition assistant_message :: "string \<Rightarrow> message" where
  "assistant_message t = new_message Assistant [TextBlock t]"

definition message_text :: "message \<Rightarrow> string" where
  "message_text m = concat (List.map_filter plain_text (msg_content m))"

fun block_call :: "content_block \<Rightarrow> tool_call_block option" where
  "block_call (ToolCallB c) = Some c"
| "block_call _ = None"

fun block_result :: "content_block \<Rightarrow> tool_result_block option" where
  "block_result (ToolResultB r) = Some r"
| "block_result _ = None"

fun block_reasoning :: "content_block \<Rightarrow> reasoning_chunk option" where
  "block_reasoning (ReasoningBlock c) = Some c"
| "block_reasoning _ = None"

definition tool_calls :: "message \<Rightarrow> tool_call_block list" where
  "tool_calls m = List.map_filter block_call (msg_content m)"

definition message_reasoning :: "message \<Rightarrow> reasoning_chunk list" where
  "message_reasoning m = List.map_filter block_reasoning (msg_content m)"

definition message_is_empty :: "message \<Rightarrow> bool" where
  "message_is_empty m \<longleftrightarrow>
     msg_content m = []
     \<or> list_all (\<lambda>b. case b of TextBlock t \<Rightarrow> t = [] | _ \<Rightarrow> False) (msg_content m)"

lemmas message_defs [rupi_defs] =
  new_message_def system_message_def user_message_def assistant_message_def

lemma set_tool_calls: "c \<in> set (tool_calls m) \<longleftrightarrow> ToolCallB c \<in> set (msg_content m)"
  by (auto simp: tool_calls_def List.map_filter_def split: option.splits)
    (metis block_call.elims option.distinct(1) option.inject,
     metis (mono_tags, lifting) block_call.simps(1) comp_apply image_eqI mem_Collect_eq option.distinct(1) option.sel)

end
