(* ===== verification/Provider_Contract.thy ===== *)
theory Provider_Contract
  imports Messages
begin

text \<open>
  \<open>crates/rupi-core/src/provider.rs\<close>: the vocabulary between a provider adapter and the
  runtime: the response limits, requests, usage reports, streamed events and the event
  collector.
\<close>

section \<open>Limits of one response\<close>

definition max_response_text_bytes :: usize where "max_response_text_bytes = 16 * 1024 * 1024"
definition max_response_reasoning_bytes :: usize where "max_response_reasoning_bytes = 8 * 1024 * 1024"
definition max_response_events :: usize where "max_response_events = 65536"
definition max_response_tool_calls :: usize where "max_response_tool_calls = 128"
definition max_tool_name_bytes :: usize where "max_tool_name_bytes = 256"
definition max_tool_id_bytes :: usize where "max_tool_id_bytes = 256"
definition max_tool_argument_bytes_per_call :: usize where
  "max_tool_argument_bytes_per_call = 1024 * 1024"
definition max_tool_argument_bytes_total :: usize where
  "max_tool_argument_bytes_total = 8 * 1024 * 1024"

section \<open>Requests\<close>

datatype thinking_level = ThinkOff | ThinkMinimal | ThinkLow | ThinkMedium | ThinkHigh | ThinkXhigh

fun thinking_as_str :: "thinking_level \<Rightarrow> string" where
  "thinking_as_str ThinkOff = ''off''"
| "thinking_as_str ThinkMinimal = ''minimal''"
| "thinking_as_str ThinkLow = ''low''"
| "thinking_as_str ThinkMedium = ''medium''"
| "thinking_as_str ThinkHigh = ''high''"
| "thinking_as_str ThinkXhigh = ''xhigh''"

definition parse_thinking :: "string \<Rightarrow> thinking_level option" where
  "parse_thinking value =
     (let v = to_ascii_lowercase (trim value)
      in if v \<in> {''off'', ''none''} then Some ThinkOff
         else if v = ''minimal'' then Some ThinkMinimal
         else if v = ''low'' then Some ThinkLow
         else if v \<in> {''medium'', ''mid''} then Some ThinkMedium
         else if v = ''high'' then Some ThinkHigh
         else if v \<in> {''xhigh'', ''max''} then Some ThinkXhigh
         else None)"

datatype tool_choice = ChoiceAuto | ChoiceNone | ChoiceRequired | ChoiceSpecific string

datatype sampling_strictness = Prefer | Require

text \<open>\<open>ToolSamplingConstraint\<close> has the single variant \<open>JsonSchema\<close>, which carries its strictness.\<close>

record tool_spec =
  ts_name :: string
  ts_description :: string
  ts_parameters :: json
  ts_sampling :: "sampling_strictness option"

record model_request =
  rq_model :: model_ref
  rq_capabilities :: model_capabilities
  rq_system :: "string option"
  rq_messages :: "message list"
  rq_tools :: "tool_spec list"
  rq_tool_choice :: tool_choice
  rq_desired_output_tokens :: "u64 option"
  rq_max_output_tokens :: "u64 option"
  rq_temperature :: "rat option"
  rq_thinking :: thinking_level
  rq_stop :: "string list"

definition new_request :: "model_ref \<Rightarrow> model_capabilities \<Rightarrow> message list \<Rightarrow> model_request" where
  "new_request m c ms =
     \<lparr> rq_model = m, rq_capabilities = c, rq_system = None, rq_messages = ms, rq_tools = [],
       rq_tool_choice = ChoiceAuto, rq_desired_output_tokens = cap_max_output_tokens c,
       rq_max_output_tokens = cap_max_output_tokens c, rq_temperature = None,
       rq_thinking = ThinkMedium, rq_stop = [] \<rparr>"

definition request_with_system :: "string \<Rightarrow> model_request \<Rightarrow> model_request" where
  "request_with_system s r = r\<lparr>rq_system := Some s\<rparr>"

definition request_with_tools :: "tool_spec list \<Rightarrow> model_request \<Rightarrow> model_request" where
  "request_with_tools ts r = r\<lparr>rq_tools := ts\<rparr>"

definition request_with_tool_choice :: "tool_choice \<Rightarrow> model_request \<Rightarrow> model_request" where
  "request_with_tool_choice c r = r\<lparr>rq_tool_choice := c\<rparr>"

definition request_with_thinking :: "thinking_level \<Rightarrow> model_request \<Rightarrow> model_request" where
  "request_with_thinking l r = r\<lparr>rq_thinking := l\<rparr>"

definition request_with_output_budget ::
    "u64 option \<Rightarrow> u64 option \<Rightarrow> model_request \<Rightarrow> model_request" where
  "request_with_output_budget desired effective r =
     r\<lparr>rq_desired_output_tokens := desired, rq_max_output_tokens := effective\<rparr>"

text \<open>
  The estimate reads the length of serialized JSON; the serializer is an argument.
\<close>

definition request_estimate_tokens ::
    "(json \<Rightarrow> nat) \<Rightarrow> (content_block \<Rightarrow> nat) \<Rightarrow> model_request \<Rightarrow> u64" where
  "request_estimate_tokens json_len block_len r =
     (length (unwrap_or [] (rq_system r))
      + sum_list (map (\<lambda>t. length (ts_name t) + length (ts_description t) + json_len (ts_parameters t))
          (rq_tools r))
      + sum_list (map (\<lambda>m. sum_list (map block_len (msg_content m))) (rq_messages r))) div 4 + 1"

section \<open>Usage\<close>

record completion_usage =
  us_input_tokens :: "u64 option"
  us_uncached_input_tokens :: "u64 option"
  us_logical_prompt_tokens :: "u64 option"
  us_cache_read_tokens :: "u64 option"
  us_cache_write_tokens :: "u64 option"
  us_output_tokens :: "u64 option"
  us_provider_total_tokens :: "u64 option"
  us_finish_reason :: "string option"
  us_certainty :: completion_certainty

definition unknown_usage :: completion_usage where
  "unknown_usage =
     \<lparr> us_input_tokens = None, us_uncached_input_tokens = None, us_logical_prompt_tokens = None,
       us_cache_read_tokens = None, us_cache_write_tokens = None, us_output_tokens = None,
       us_provider_total_tokens = None, us_finish_reason = None, us_certainty = Certain \<rparr>"

definition unfinished_usage :: completion_usage where
  "unfinished_usage = unknown_usage\<lparr>us_certainty := Unknown_Completion\<rparr>"

definition usage_is_certain :: "completion_usage \<Rightarrow> bool" where
  "usage_is_certain u \<longleftrightarrow> us_certainty u = Certain"

definition stopped_at_output_limit :: "completion_usage \<Rightarrow> bool" where
  "stopped_at_output_limit u \<longleftrightarrow> us_finish_reason u \<in> {Some ''length'', Some ''max_tokens''}"

section \<open>Events and the collector\<close>

datatype provider_event =
  ReasoningDelta string reasoning_provenance
| TextDelta string
| ToolCallEvent tool_call_block
| ToolCallRejected (rejected_id: string) (rejected_name: string) (rejected_reason: string)

fun event_text :: "provider_event \<Rightarrow> string option" where
  "event_text (TextDelta t) = Some t"
| "event_text _ = None"

definition collector_text :: "provider_event list \<Rightarrow> string" where
  "collector_text events = concat (List.map_filter event_text events)"

text \<open>One entry per provenance claim, in the order the claims first arrive.\<close>

fun add_reasoning ::
    "reasoning_provenance \<Rightarrow> string \<Rightarrow> (reasoning_provenance \<times> string) list
      \<Rightarrow> (reasoning_provenance \<times> string) list" where
  "add_reasoning p t [] = [(p, t)]"
| "add_reasoning p t ((q, s) # out) =
     (if q = p then (q, s @ t) # out else (q, s) # add_reasoning p t out)"

fun collect_reasoning ::
    "provider_event \<Rightarrow> (reasoning_provenance \<times> string) list
      \<Rightarrow> (reasoning_provenance \<times> string) list" where
  "collect_reasoning (ReasoningDelta t p) out = add_reasoning p t out"
| "collect_reasoning _ out = out"

definition collector_reasoning :: "provider_event list \<Rightarrow> (reasoning_provenance \<times> string) list" where
  "collector_reasoning events = fold collect_reasoning events []"

section \<open>The collector never merges two claims\<close>

fun event_reasoning :: "reasoning_provenance \<Rightarrow> provider_event \<Rightarrow> string" where
  "event_reasoning p (ReasoningDelta t q) = (if q = p then t else [])"
| "event_reasoning p _ = []"

lemma map_of_add_reasoning:
  "map_of (add_reasoning p t out) q =
     (if q = p then Some (unwrap_or [] (map_of out p) @ t) else map_of out q)"
  by (induction p t out rule: add_reasoning.induct) auto

lemma fst_add_reasoning:
  "map fst (add_reasoning p t out) = (if p \<in> fst ` set out then map fst out else map fst out @ [p])"
  by (induction p t out rule: add_reasoning.induct) auto

lemma distinct_add_reasoning: "distinct (map fst out) \<Longrightarrow> distinct (map fst (add_reasoning p t out))"
  by (auto simp: fst_add_reasoning)

lemma distinct_collect_reasoning:
  "distinct (map fst out) \<Longrightarrow> distinct (map fst (collect_reasoning e out))"
  by (cases e) (simp_all add: distinct_add_reasoning)

lemma fold_collect_reasoning:
  "distinct (map fst out) \<Longrightarrow>
     distinct (map fst (fold collect_reasoning events out))
     \<and> unwrap_or [] (map_of (fold collect_reasoning events out) p) =
         unwrap_or [] (map_of out p) @ concat (map (event_reasoning p) events)"
proof (induction events arbitrary: out)
  case Nil
  then show ?case by simp
next
  case (Cons e events)
  have "distinct (map fst (collect_reasoning e out))"
    using Cons.prems by (rule distinct_collect_reasoning)
  from Cons.IH [OF this] show ?case
    by (cases e) (auto simp: map_of_add_reasoning)
qed

end
