(* ===== verification/Argument_Schema.thy ===== *)
theory Argument_Schema
  imports Json
begin

text \<open>
  \<open>validate_arguments\<close> and \<open>validate_schema_value\<close> of
  \<open>crates/rupi-tools/src/registry.rs\<close>: the JSON Schema subset enforced before a tool runs.
\<close>

section \<open>The validator\<close>

definition kind_matches :: "string \<Rightarrow> json \<Rightarrow> bool" where
  "kind_matches kind v =
     (if kind = ''null'' then is_null v
      else if kind = ''boolean'' then is_boolean v
      else if kind = ''object'' then is_object v
      else if kind = ''array'' then is_array v
      else if kind = ''number'' then is_number v
      else if kind = ''integer'' then as_i64 v \<noteq> None \<or> as_u64 v \<noteq> None
      else if kind = ''string'' then is_string v
      else True)"

definition check_type :: "string \<Rightarrow> string \<Rightarrow> json \<Rightarrow> json \<Rightarrow> string option" where
  "check_type tool path v schema =
     (case Option.bind (jget schema ''type'') as_str of
        None \<Rightarrow> None
      | Some kind \<Rightarrow>
          (if kind_matches kind v then None
           else Some (CHR 0x27 # tool @ [CHR 0x27] @ '' argument '' @ CHR 0x27 # path
             @ [CHR 0x27] @ '' must be '' @ kind)))"

definition check_enum :: "string \<Rightarrow> string \<Rightarrow> json \<Rightarrow> json \<Rightarrow> string option" where
  "check_enum tool path v schema =
     (case Option.bind (jget schema ''enum'') as_array of
        None \<Rightarrow> None
      | Some choices \<Rightarrow>
          (if v \<in> set choices then None
           else Some (CHR 0x27 # tool @ [CHR 0x27] @ '' argument '' @ CHR 0x27 # path
             @ [CHR 0x27] @ '' is not an allowed value'')))"

definition required_keys :: "json \<Rightarrow> string list" where
  "required_keys schema =
     (case Option.bind (jget schema ''required'') as_array of
        None \<Rightarrow> []
      | Some ks \<Rightarrow> List.map_filter as_str ks)"

definition check_required :: "string \<Rightarrow> string \<Rightarrow> (string \<times> json) list \<Rightarrow> json \<Rightarrow> string option" where
  "check_required tool path fields schema =
     find_map (\<lambda>key.
        if map_of fields key \<noteq> None then None
        else Some (CHR 0x27 # tool @ [CHR 0x27] @ '' is missing required argument ''
          @ CHR 0x27 # (if path = ''arguments'' then key else path @ ''.'' @ key) @ [CHR 0x27]))
       (required_keys schema)"

datatype child_rule = CheckAgainst json | RejectKey | AcceptAny

definition child_rule_of :: "json \<Rightarrow> string \<Rightarrow> child_rule" where
  "child_rule_of schema key =
     (case Option.bind (Option.bind (jget schema ''properties'') as_object) (\<lambda>ps. map_of ps key) of
        Some child \<Rightarrow> CheckAgainst child
      | None \<Rightarrow>
          (case jget schema ''additionalProperties'' of
             Some (JBool False) \<Rightarrow> RejectKey
           | Some (JObj fs) \<Rightarrow> CheckAgainst (JObj fs)
           | _ \<Rightarrow> AcceptAny))"

text \<open>
  The three loops of the source: over the value itself, over the entries of an object and over
  the elements of an array. \<open>None\<close> is \<open>Ok(())\<close>, \<open>Some\<close> is the error message.
\<close>

fun validate_schema_value :: "string \<Rightarrow> string \<Rightarrow> json \<Rightarrow> json \<Rightarrow> string option"
and validate_fields :: "string \<Rightarrow> string \<Rightarrow> (string \<times> json) list \<Rightarrow> json \<Rightarrow> string option"
and validate_items :: "string \<Rightarrow> string \<Rightarrow> nat \<Rightarrow> json list \<Rightarrow> json \<Rightarrow> string option" where
  "validate_schema_value tool path v schema =
     or_else (check_type tool path v schema)
     (or_else (check_enum tool path v schema)
      (case v of
         JObj fields \<Rightarrow>
           or_else (check_required tool path fields schema) (validate_fields tool path fields schema)
       | JArr xs \<Rightarrow>
           (case jget schema ''items'' of
              None \<Rightarrow> None
            | Some items \<Rightarrow> validate_items tool path 0 xs items)
       | _ \<Rightarrow> None))"
| "validate_fields tool path [] schema = None"
| "validate_fields tool path ((key, child) # fields) schema =
     or_else
       (case child_rule_of schema key of
          CheckAgainst s \<Rightarrow> validate_schema_value tool (path @ ''.'' @ key) child s
        | RejectKey \<Rightarrow>
            Some (CHR 0x27 # tool @ [CHR 0x27] @ '' does not accept argument ''
              @ CHR 0x27 # (path @ ''.'' @ key) @ [CHR 0x27])
        | AcceptAny \<Rightarrow> None)
       (validate_fields tool path fields schema)"
| "validate_items tool path i [] items = None"
| "validate_items tool path i (x # xs) items =
     or_else (validate_schema_value tool (path @ ''['' @ show_nat i @ '']'') x items)
       (validate_items tool path (Suc i) xs items)"

declare validate_schema_value.simps [simp del]

definition validate_arguments :: "string \<Rightarrow> json \<Rightarrow> json \<Rightarrow> string option" where
  "validate_arguments tool arguments schema =
     (if \<not> is_object arguments then Some (CHR 0x27 # tool @ [CHR 0x27] @ '' arguments must be a JSON object'')
      else validate_schema_value tool ''arguments'' arguments schema)"

section \<open>What acceptance means\<close>

text \<open>
  The specification: conformance of a value to the enforced schema subset, with no error
  messages, paths or evaluation order. It is a rule-based relation over the schema keywords.
\<close>

inductive conforms :: "json \<Rightarrow> json \<Rightarrow> bool" where
  conforms_rule:
    "\<lbrakk> \<And>kind. jget schema ''type'' = Some (JStr kind) \<Longrightarrow> kind_matches kind v;
       \<And>choices. jget schema ''enum'' = Some (JArr choices) \<Longrightarrow> v \<in> set choices;
       \<And>fields key. v = JObj fields \<Longrightarrow> key \<in> set (required_keys schema) \<Longrightarrow> key \<in> fst ` set fields;
       \<And>fields key child. v = JObj fields \<Longrightarrow> (key, child) \<in> set fields \<Longrightarrow>
          child_rule_of schema key \<noteq> RejectKey;
       \<And>fields key child s. v = JObj fields \<Longrightarrow> (key, child) \<in> set fields \<Longrightarrow>
          child_rule_of schema key = CheckAgainst s \<Longrightarrow> conforms child s;
       \<And>xs x items. v = JArr xs \<Longrightarrow> jget schema ''items'' = Some items \<Longrightarrow> x \<in> set xs \<Longrightarrow>
          conforms x items \<rbrakk>
     \<Longrightarrow> conforms v schema"

lemma or_else_None [simp]: "or_else x y = None \<longleftrightarrow> x = None \<and> y = None"
  by (cases x) auto

lemma check_type_None:
  "check_type t p v schema = None \<longleftrightarrow>
     (\<forall>kind. jget schema ''type'' = Some (JStr kind) \<longrightarrow> kind_matches kind v)"
  by (cases "jget schema ''type''") (auto simp: check_type_def split: option.splits)

lemma check_enum_None:
  "check_enum t p v schema = None \<longleftrightarrow>
     (\<forall>choices. jget schema ''enum'' = Some (JArr choices) \<longrightarrow> v \<in> set choices)"
  by (cases "jget schema ''enum''") (auto simp: check_enum_def split: option.splits)

lemma check_required_None:
  "check_required t p fields schema = None \<longleftrightarrow> set (required_keys schema) \<subseteq> fst ` set fields"
  by (auto simp: check_required_def find_map_None map_of_eq_None_iff)

lemma validate_fields_None:
  "validate_fields t p fields schema = None \<longleftrightarrow>
     (\<forall>(key, child) \<in> set fields. child_rule_of schema key \<noteq> RejectKey
        \<and> (\<forall>s. child_rule_of schema key = CheckAgainst s \<longrightarrow>
             validate_schema_value t (p @ ''.'' @ key) child s = None))"
  by (induction fields) (auto split: child_rule.splits)

lemma validate_items_None:
  "validate_items t p i xs items = None \<longleftrightarrow>
     (\<forall>j < length xs. validate_schema_value t (p @ ''['' @ show_nat (i + j) @ '']'') (xs ! j) items = None)"
proof (induction xs arbitrary: i)
  case Nil
  show ?case by simp
next
  case (Cons x xs)
  show ?case
    by (simp only: list.size(4) All_less_Suc2 add_Suc_right add_0_right One_nat_def)
      (simp add: Cons.IH)
qed

lemma validate_value_None:
  "validate_schema_value t p v schema = None \<longleftrightarrow>
     check_type t p v schema = None \<and> check_enum t p v schema = None
     \<and> (\<forall>fields. v = JObj fields \<longrightarrow>
          check_required t p fields schema = None \<and> validate_fields t p fields schema = None)
     \<and> (\<forall>xs items. v = JArr xs \<longrightarrow> jget schema ''items'' = Some items \<longrightarrow>
          validate_items t p 0 xs items = None)"
  by (subst validate_schema_value.simps) (auto split: json.splits option.splits)

lemma size_field_less: "(key, child) \<in> set fields \<Longrightarrow> size child < size (JObj fields)"
  by (induction fields) auto

lemma size_item_less: "x \<in> set xs \<Longrightarrow> size x < size (JArr xs)"
  by (induction xs) auto

text \<open>Acceptance does not depend on the tool name or on the path used in messages.\<close>

lemma validate_sound: "validate_schema_value t p v schema = None \<Longrightarrow> conforms v schema"
proof (induction v arbitrary: p schema rule: measure_induct_rule [of size])
  case (less v)
  note accepted = less.prems [unfolded validate_value_None]
  show ?case
  proof (rule conforms_rule)
    fix fields key child s
    assume v: "v = JObj fields" and mem: "(key, child) \<in> set fields"
      and rule: "child_rule_of schema key = CheckAgainst s"
    from accepted v have "validate_fields t p fields schema = None" by blast
    with mem rule have "validate_schema_value t (p @ ''.'' @ key) child s = None"
      unfolding validate_fields_None by fast
    with size_field_less [OF mem] show "conforms child s"
      by (auto intro: less.IH simp: v)
  next
    fix xs x items
    assume v: "v = JArr xs" and items: "jget schema ''items'' = Some items" and mem: "x \<in> set xs"
    from accepted v items have "validate_items t p 0 xs items = None" by blast
    with mem obtain q where "validate_schema_value t q x items = None"
      unfolding validate_items_None in_set_conv_nth by blast
    with size_item_less [OF mem] show "conforms x items"
      by (auto intro: less.IH simp: v)
  qed (use accepted in \<open>auto simp: check_type_None check_enum_None check_required_None
      validate_fields_None\<close>)
qed

inductive_cases conformsE: "conforms v schema"

lemma validate_complete: "conforms v schema \<Longrightarrow> validate_schema_value t p v schema = None"
proof (induction arbitrary: p rule: conforms.induct)
  case (conforms_rule schema v)
  have "check_required t p fields schema = None" if "v = JObj fields" for fields
    using conforms_rule.hyps(3) [OF that] by (auto simp: check_required_None)
  moreover have "validate_fields t p fields schema = None" if "v = JObj fields" for fields
    using conforms_rule.hyps(4) [OF that] conforms_rule.IH(1) [OF that]
    by (auto simp: validate_fields_None)
  moreover have "validate_items t p 0 xs items = None"
    if "v = JArr xs" "jget schema ''items'' = Some items" for xs items
    using conforms_rule.IH(2) [OF that] by (auto simp: validate_items_None)
  ultimately show ?case
    using conforms_rule.hyps(1,2)
    by (auto simp: validate_value_None check_type_None check_enum_None)
qed

lemma validate_iff_conforms: "validate_schema_value t p v schema = None \<longleftrightarrow> conforms v schema"
  using validate_sound validate_complete by blast

section \<open>Properties\<close>

text \<open>
  C34: the argument validator accepts exactly the objects that conform to the enforced part of
  JSON Schema: types, enumerations, required keys, properties, additional properties and items,
  at every depth.
\<close>

theorem validator_exact:
  "validate_arguments tool v schema = None \<longleftrightarrow> is_object v \<and> conforms v schema"
  by (simp add: validate_arguments_def validate_iff_conforms)

end
