(* ===== verification/Output_Reduction.thy ===== *)
theory Output_Reduction
  imports Rupi_Prelude
begin

text \<open>
  \<open>crates/rupi-tools/src/reduce.rs\<close>: a tool output at or above its byte budget becomes a head,
  a notice and a tail, cut at character boundaries. The two subtractions on \<open>usize\<close> are
  modelled for both build profiles: \<open>checks\<close> says whether overflow checks are compiled in.
\<close>

section \<open>Character boundaries\<close>

definition is_char_boundary :: "string \<Rightarrow> nat \<Rightarrow> bool" where
  "is_char_boundary text i \<longleftrightarrow>
     i = 0 \<or> i = length text
     \<or> (i < length text \<and> \<not> (128 \<le> byte (text ! i) \<and> byte (text ! i) < 192))"

fun floor_loop :: "string \<Rightarrow> nat \<Rightarrow> nat" where
  "floor_loop text 0 = 0"
| "floor_loop text (Suc c) = (if is_char_boundary text (Suc c) then Suc c else floor_loop text c)"

definition floor_char_boundary :: "string \<Rightarrow> nat \<Rightarrow> nat" where
  "floor_char_boundary text index =
     (if length text \<le> index then length text else floor_loop text index)"

function ceil_loop :: "string \<Rightarrow> nat \<Rightarrow> nat" where
  "ceil_loop text c =
     (if c < length text \<and> \<not> is_char_boundary text c then ceil_loop text (Suc c) else c)"
  by pat_completeness auto
termination
  by (relation "measure (\<lambda>(text, c). length text - c)") auto

declare ceil_loop.simps [simp del]

definition ceil_char_boundary :: "string \<Rightarrow> nat \<Rightarrow> nat" where
  "ceil_char_boundary text index =
     (if length text \<le> index then length text else ceil_loop text index)"

lemma floor_loop_le: "floor_loop text c \<le> c"
  by (induction c) auto

lemma floor_loop_boundary: "is_char_boundary text (floor_loop text c)"
  by (induction c) (auto simp: is_char_boundary_def)

lemma floor_char_boundary_le: "floor_char_boundary text i \<le> i"
  by (simp add: floor_char_boundary_def floor_loop_le)

lemma floor_char_boundary_len: "floor_char_boundary text i \<le> length text"
  using floor_loop_le [of "text" i] by (simp add: floor_char_boundary_def)

lemma floor_char_boundary_ok: "is_char_boundary text (floor_char_boundary text i)"
  by (simp add: floor_char_boundary_def floor_loop_boundary) (simp add: is_char_boundary_def)

lemma ceil_loop_bounds:
  "c \<le> length t \<Longrightarrow> c \<le> ceil_loop t c \<and> ceil_loop t c \<le> length t
     \<and> is_char_boundary t (ceil_loop t c)"
proof (induction t c rule: ceil_loop.induct)
  case (1 t c)
  show ?case
  proof (cases "c < length t \<and> \<not> is_char_boundary t c")
    case True
    with "1.IH" show ?thesis by (auto simp: ceil_loop.simps [of t c])
  next
    case False
    with "1.prems" show ?thesis
      by (auto simp: ceil_loop.simps [of t c] is_char_boundary_def)
  qed
qed

lemma ceil_char_boundary_bounds:
  "i \<le> length text \<Longrightarrow> i \<le> ceil_char_boundary text i"
  "ceil_char_boundary text i \<le> length text"
  "is_char_boundary text (ceil_char_boundary text i)"
  using ceil_loop_bounds [of i "text"]
  by (auto simp: ceil_char_boundary_def is_char_boundary_def)

section \<open>The reducer\<close>

record reduction =
  red_text :: string
  red_full :: string
  red_full_bytes :: u64
  red_elided_bytes :: u64
  red_budget :: u64

definition min_useful :: nat where "min_useful = 1024"

definition max_useful :: nat where "max_useful = 65536"

definition notice :: "nat \<Rightarrow> nat \<Rightarrow> string" where
  "notice elided full_bytes =
     [CHR 0x0A, CHR 0x0A] @ ''[... '' @ show_nat elided @ '' bytes elided from ''
     @ show_nat full_bytes
     @ '' bytes of tool output; the full output is archived, read it by path or re-run with a filter ...]''
     @ [CHR 0x0A, CHR 0x0A]"

definition reduce_budget :: "u64 \<Rightarrow> nat" where
  "reduce_budget max_bytes = clamp max_bytes min_useful max_useful"

definition head_len :: "nat \<Rightarrow> nat" where "head_len budget = budget * 3 div 5"

definition tail_len :: "nat \<Rightarrow> nat" where "tail_len budget = budget - head_len budget"

definition reduce :: "bool \<Rightarrow> string \<Rightarrow> u64 \<Rightarrow> panic + reduction option" where
  "reduce checks text max_bytes =
     (let full_bytes = length text
      in if full_bytes < max_bytes then Inr None
         else let budget = reduce_budget max_bytes;
                  head = floor_char_boundary text (head_len budget)
              in bind_res (usize_sub checks (length text) (tail_len budget)) (\<lambda>start.
                   let tail_start = ceil_char_boundary text start
                   in bind_res (usize_sub checks tail_start head) (\<lambda>elided.
                        Inr (Some \<lparr> red_text = take head text @ notice elided full_bytes
                                      @ drop tail_start text,
                                    red_full = text, red_full_bytes = full_bytes,
                                    red_elided_bytes = elided, red_budget = max_bytes \<rparr>))))"

lemma budget_range: "min_useful \<le> reduce_budget m \<and> reduce_budget m \<le> max_useful"
  by (simp add: reduce_budget_def clamp_ge clamp_le min_useful_def max_useful_def)

lemma budget_le: "min_useful \<le> m \<Longrightarrow> reduce_budget m \<le> m"
  by (auto simp: reduce_budget_def clamp_def min_useful_def max_useful_def)

lemma head_tail_len: "head_len b + tail_len b = b"
proof -
  have "head_len b \<le> b" by (simp add: head_len_def)
  then show ?thesis by (simp add: tail_len_def)
qed

lemma reduce_None_iff: "reduce checks text m = Inr None \<longleftrightarrow> length text < m"
  by (auto simp: reduce_def Let_def)

text \<open>With room for the budget both subtractions are exact, in either build.\<close>

lemma reduce_fits:
  assumes "m \<le> length text" and "reduce_budget m \<le> length text"
  defines "head \<equiv> floor_char_boundary text (head_len (reduce_budget m))"
    and "tail_start \<equiv> ceil_char_boundary text (length text - tail_len (reduce_budget m))"
  shows "reduce checks text m =
           Inr (Some \<lparr> red_text = take head text @ notice (tail_start - head) (length text)
                         @ drop tail_start text,
                       red_full = text, red_full_bytes = length text,
                       red_elided_bytes = tail_start - head, red_budget = m \<rparr>)"
    and "head \<le> tail_start" and "tail_start \<le> length text"
    and "head + (length text - tail_start) \<le> reduce_budget m"
proof -
  let ?b = "reduce_budget m"
  have t: "tail_len ?b \<le> length text" using assms(2) head_tail_len [of ?b] by linarith
  have start: "length text - tail_len ?b \<le> tail_start"
    unfolding tail_start_def by (rule ceil_char_boundary_bounds) simp
  have head: "head \<le> head_len ?b" unfolding head_def by (rule floor_char_boundary_le)
  have "head_len ?b \<le> length text - tail_len ?b"
    using assms(2) head_tail_len [of ?b] by linarith
  with head start show le: "head \<le> tail_start" by linarith
  show len: "tail_start \<le> length text" unfolding tail_start_def by (rule ceil_char_boundary_bounds)
  show "head + (length text - tail_start) \<le> ?b"
    using head start head_tail_len [of ?b] t by linarith
  show "reduce checks text m =
           Inr (Some \<lparr> red_text = take head text @ notice (tail_start - head) (length text)
                         @ drop tail_start text,
                       red_full = text, red_full_bytes = length text,
                       red_elided_bytes = tail_start - head, red_budget = m \<rparr>)"
    using assms(1) t le by (simp add: reduce_def Let_def head_def tail_start_def)
qed

lemma reduce_below_tail:
  assumes "m \<le> length text" and "length text < tail_len (reduce_budget m)"
  shows "reduce True text m = Inl SubtractionOverflow"
  using assms by (simp add: reduce_def Let_def usize_sub_def)

section \<open>Properties\<close>

text \<open>
  An output with room for the budget splits into a head, an elided middle and a tail, all
  cut at character boundaries; the reduced text is head, notice and tail, the head and tail
  together fit the budget, the notice states the number of bytes elided, and the full text is
  handed back unchanged. It holds in both build profiles, with no overflow.
\<close>

theorem reduce_partitions:
  assumes "m \<le> length text" and "reduce_budget m \<le> length text"
  shows "\<exists>head mid tail. text = head @ mid @ tail
     \<and> reduce checks text m =
         Inr (Some \<lparr> red_text = head @ notice (length mid) (length text) @ tail,
                     red_full = text, red_full_bytes = length text,
                     red_elided_bytes = length mid, red_budget = m \<rparr>)
     \<and> length head + length tail \<le> reduce_budget m
     \<and> is_char_boundary text (length head)
     \<and> is_char_boundary text (length head + length mid)"
proof -
  define h where "h = floor_char_boundary text (head_len (reduce_budget m))"
  define t where "t = ceil_char_boundary text (length text - tail_len (reduce_budget m))"
  note fits = reduce_fits [OF assms, folded h_def t_def]
  have parts: "text = take h text @ drop h (take t text) @ drop t text"
    using fits(2) by (metis append.assoc append_take_drop_id min.absorb1 take_take)
  have mid: "length (drop h (take t text)) = t - h" and head: "length (take h text) = h"
    using fits(2,3) by auto
  have "is_char_boundary text h" "is_char_boundary text t"
    by (simp_all add: h_def t_def floor_char_boundary_ok ceil_char_boundary_bounds)
  with parts fits mid head show ?thesis
    by (intro exI [of _ "take h text"] exI [of _ "drop h (take t text)"] exI [of _ "drop t text"])
      simp
qed

theorem reduce_partitions_witness:
  "\<exists>head mid tail. replicate 2000 (CHR ''a'') = head @ mid @ tail
     \<and> reduce True (replicate 2000 (CHR ''a'')) 1024 =
         Inr (Some \<lparr> red_text = head @ notice (length mid) (length (replicate 2000 (CHR ''a''))) @ tail,
                     red_full = replicate 2000 (CHR ''a''),
                     red_full_bytes = length (replicate 2000 (CHR ''a'')),
                     red_elided_bytes = length mid, red_budget = 1024 \<rparr>)
     \<and> length head + length tail \<le> reduce_budget 1024
     \<and> is_char_boundary (replicate 2000 (CHR ''a'')) (length head)
     \<and> is_char_boundary (replicate 2000 (CHR ''a'')) (length head + length mid)"
  by (rule reduce_partitions) (simp_all add: reduce_budget_def clamp_def min_useful_def max_useful_def)

definition is_ascii :: "string \<Rightarrow> bool" where
  "is_ascii text \<longleftrightarrow> list_all (\<lambda>c. byte c < 128) text"

lemma is_ascii_boundary: "is_ascii text \<Longrightarrow> i \<le> length text \<Longrightarrow> is_char_boundary text i"
  unfolding is_ascii_def is_char_boundary_def list_all_length
  by (metis le_neq_implies_less not_le)

lemma floor_ascii: "is_ascii text \<Longrightarrow> floor_char_boundary text i = min i (length text)"
  using is_ascii_boundary [of "text" i] by (cases i) (auto simp: floor_char_boundary_def)

lemma ceil_ascii: "is_ascii text \<Longrightarrow> ceil_char_boundary text i = min i (length text)"
  using is_ascii_boundary [of "text" i]
  by (auto simp: ceil_char_boundary_def ceil_loop.simps [of "text" i])

lemma small_budget: "m < min_useful \<Longrightarrow> head_len (reduce_budget m) = 614 \<and> tail_len (reduce_budget m) = 410"
  by (simp add: reduce_budget_def clamp_def min_useful_def head_len_def tail_len_def)

lemma notice_nonempty: "0 < length (notice e n)"
  by (simp add: notice_def)

text \<open>
  C39: a configured limit below the 1024-byte floor makes the reducer subtract a larger number
  from a smaller one for every ASCII output between the limit and the floor: a build with
  overflow checks panics, and a release build returns a text longer than the output it was to
  shorten.
\<close>

theorem reduce_below_floor:
  assumes "is_ascii text" and "m \<le> length text" and "length text < min_useful"
  shows "reduce True text m = Inl SubtractionOverflow
     \<and> (\<exists>r. reduce False text m = Inr (Some r) \<and> length text < length (red_text r))"
proof -
  have m: "m < min_useful" using assms(2,3) by simp
  note lens = conjunct1 [OF small_budget [OF m]] conjunct2 [OF small_budget [OF m]]
  have big: "length text \<le> length text + (u64_max + 1) - 410"
    by (simp add: u64_max_def)
  have short: "length text < 1024" using assms(3) by (simp add: min_useful_def)
  show ?thesis
  proof (cases "410 \<le> length text")
    case True
    then show ?thesis
      using assms(2) short notice_nonempty
      by (auto simp: reduce_def Let_def lens floor_ascii [OF assms(1)] ceil_ascii [OF assms(1)]
          usize_sub_def min_def not_less)
  next
    case False
    then have "usize_sub True (length text) 410 = Inl SubtractionOverflow"
      and "usize_sub False (length text) 410 = Inr (length text + (u64_max + 1) - 410)"
      by (simp_all add: usize_sub_def)
    with False big assms(2) notice_nonempty show ?thesis
      by (simp add: reduce_def Let_def lens floor_ascii [OF assms(1)] ceil_ascii [OF assms(1)])
  qed
qed

theorem reduce_below_floor_witness:
  "reduce True ''four'' 3 = Inl SubtractionOverflow
   \<and> (\<exists>r. reduce False ''four'' 3 = Inr (Some r) \<and> length ''four'' < length (red_text r))"
  by (rule reduce_below_floor) (simp_all add: is_ascii_def byte_def min_useful_def)

end
