(* ===== verification/Ordered_Table.thy ===== *)
theory Ordered_Table
  imports Rupi_Prelude "HOL-Library.List_Lexorder" "HOL-Library.Char_ord"
begin

text \<open>
  \<open>BTreeMap<K, V>\<close> as an association list in strictly increasing key order. The laws its
  clients rely on are stated as an interface; the sorted list is the implementation.
\<close>

section \<open>The interface\<close>

locale table =
  fixes empty :: "'m"
    and lookup :: "'m \<Rightarrow> 'k \<Rightarrow> 'v option"
    and insert :: "'k \<Rightarrow> 'v \<Rightarrow> 'm \<Rightarrow> 'm"
    and delete :: "'k \<Rightarrow> 'm \<Rightarrow> 'm"
    and invar :: "'m \<Rightarrow> bool"
  assumes lookup_empty: "lookup empty k = None"
    and lookup_insert: "invar m \<Longrightarrow> lookup (insert k v m) = (lookup m)(k \<mapsto> v)"
    and lookup_delete: "invar m \<Longrightarrow> lookup (delete k m) = (lookup m)(k := None)"
    and invar_empty: "invar empty"
    and invar_insert: "invar m \<Longrightarrow> invar (insert k v m)"
    and invar_delete: "invar m \<Longrightarrow> invar (delete k m)"
begin

lemmas table_laws = lookup_empty lookup_insert lookup_delete
  invar_empty invar_insert invar_delete

text \<open>Deleting a list of keys, as a loop over a collected key list does.\<close>

lemma invar_delete_all: "invar m \<Longrightarrow> invar (fold delete ks m)"
  by (induction ks arbitrary: m) (simp_all add: invar_delete)

lemma lookup_delete_all:
  "invar m \<Longrightarrow> lookup (fold delete ks m) k = (if k \<in> set ks then None else lookup m k)"
  by (induction ks arbitrary: m) (auto simp: lookup_delete invar_delete)

lemma insert_overwrites: "invar m \<Longrightarrow> lookup (insert k v (insert k u m)) = lookup (insert k v m)"
  by (simp add: table_laws)

lemma insert_commutes:
  "invar m \<Longrightarrow> k \<noteq> j \<Longrightarrow>
   lookup (insert k v (insert j u m)) = lookup (insert j u (insert k v m))"
  by (simp add: table_laws fun_upd_twist)

lemma delete_insert: "invar m \<Longrightarrow> lookup (delete k (insert k v m)) = lookup (delete k m)"
  by (simp add: table_laws)

end

section \<open>Sorted association lists\<close>

type_synonym ('k, 'v) btree = "('k \<times> 'v) list"

definition bt_ok :: "('k::linorder, 'v) btree \<Rightarrow> bool" where
  "bt_ok m \<longleftrightarrow> sorted_wrt (<) (map fst m)"

fun bt_insert :: "'k::linorder \<Rightarrow> 'v \<Rightarrow> ('k, 'v) btree \<Rightarrow> ('k, 'v) btree" where
  "bt_insert k v [] = [(k, v)]"
| "bt_insert k v ((j, u) # m) =
     (if k < j then (k, v) # (j, u) # m
      else if k = j then (k, v) # m
      else (j, u) # bt_insert k v m)"

definition bt_remove :: "'k \<Rightarrow> ('k, 'v) btree \<Rightarrow> ('k, 'v) btree" where
  "bt_remove k m = filter (\<lambda>(j, _). j \<noteq> k) m"

lemma fst_bt_insert: "fst ` set (bt_insert k v m) = insert k (fst ` set m)"
  by (induction k v m rule: bt_insert.induct) (simp_all add: insert_commute)

lemma bt_ok_Cons: "bt_ok ((k, v) # m) \<longleftrightarrow> (\<forall>j \<in> fst ` set m. k < j) \<and> bt_ok m"
  by (simp add: bt_ok_def)

lemma bt_ok_Nil [simp]: "bt_ok []"
  by (simp add: bt_ok_def)

lemma bt_ok_insert: "bt_ok m \<Longrightarrow> bt_ok (bt_insert k v m)"
  by (induction m) (fastforce simp: bt_ok_Cons fst_bt_insert)+

lemma bt_ok_filter: "bt_ok m \<Longrightarrow> bt_ok (filter P m)"
  by (auto simp: bt_ok_def sorted_wrt_map sorted_wrt_filter)

lemma bt_ok_remove: "bt_ok m \<Longrightarrow> bt_ok (bt_remove k m)"
  by (simp add: bt_remove_def bt_ok_filter)

lemma bt_ok_distinct: "bt_ok m \<Longrightarrow> distinct (map fst m)"
  by (simp add: bt_ok_def strict_sorted_iff)

lemma map_of_bt_insert: "bt_ok m \<Longrightarrow> map_of (bt_insert k v m) = (map_of m)(k \<mapsto> v)"
proof (induction m)
  case Nil
  show ?case by simp
next
  case (Cons e m)
  obtain j u where e: "e = (j, u)" by fastforce
  have "map_of m k = None" if "k < j"
    using Cons.prems that by (auto simp: e bt_ok_Cons map_of_eq_None_iff)
  with Cons show ?case by (auto simp: e bt_ok_Cons fun_upd_twist)
qed

lemma map_of_bt_remove: "map_of (bt_remove k m) = (map_of m)(k := None)"
  by (induction m) (auto simp: bt_remove_def fun_eq_iff)

interpretation bt: table "[] :: ('k::linorder, 'v) btree" map_of bt_insert bt_remove bt_ok
  by unfold_locales
    (simp_all add: map_of_bt_insert map_of_bt_remove bt_ok_insert bt_ok_remove)

lemma bt_insert_existing:
  "bt_ok m \<Longrightarrow> k \<in> fst ` set m \<Longrightarrow> map fst (bt_insert k v m) = map fst m"
proof (induction m)
  case Nil
  then show ?case by simp
next
  case (Cons e m)
  obtain j u where e: "e = (j, u)" by fastforce
  from Cons.prems have "k = j \<or> (j < k \<and> k \<in> fst ` set m)" by (auto simp: e bt_ok_Cons)
  then show ?case
  proof
    assume "k = j"
    then show ?thesis by (simp add: e)
  next
    assume k: "j < k \<and> k \<in> fst ` set m"
    with Cons.prems have "map fst (bt_insert k v m) = map fst m"
      by (intro Cons.IH) (auto simp: e bt_ok_Cons)
    with k show ?thesis by (auto simp: e)
  qed
qed

lemma length_bt_insert_existing:
  "bt_ok m \<Longrightarrow> k \<in> fst ` set m \<Longrightarrow> length (bt_insert k v m) = length m"
  by (metis bt_insert_existing length_map)

lemma length_bt_insert_new: "k \<notin> fst ` set m \<Longrightarrow> length (bt_insert k v m) = Suc (length m)"
  by (induction m) auto

section \<open>Changing a value in place\<close>

text \<open>\<open>get_mut\<close> followed by a change of the value: nothing happens when the key is absent.\<close>

definition bt_update :: "'k \<Rightarrow> ('v \<Rightarrow> 'v) \<Rightarrow> ('k, 'v) btree \<Rightarrow> ('k, 'v) btree" where
  "bt_update k f m = map (\<lambda>(j, v). (j, if j = k then f v else v)) m"

lemma fst_bt_update [simp]: "map fst (bt_update k f m) = map fst m"
  by (simp add: bt_update_def case_prod_beta comp_def)

lemma length_bt_update [simp]: "length (bt_update k f m) = length m"
  by (simp add: bt_update_def)

lemma map_of_bt_update:
  "map_of (bt_update k f m) j = (if j = k then map_option f (map_of m j) else map_of m j)"
  by (induction m) (auto simp: bt_update_def)

lemma bt_ok_update [simp]: "bt_ok (bt_update k f m) = bt_ok m"
  by (simp add: bt_ok_def)

lemma keys_bt_update [simp]: "fst ` set (bt_update k f m) = fst ` set m"
  by (metis fst_bt_update list.set_map)

section \<open>Measures of a table\<close>

definition bt_sum :: "('v \<Rightarrow> nat) \<Rightarrow> ('k, 'v) btree \<Rightarrow> nat" where
  "bt_sum g m = sum_list (map (\<lambda>(_, v). g v) m)"

lemma bt_sum_Nil [simp]: "bt_sum g [] = 0"
  by (simp add: bt_sum_def)

lemma bt_sum_update_same: "(\<And>v. g (f v) = g v) \<Longrightarrow> bt_sum g (bt_update k f m) = bt_sum g m"
  by (induction m) (auto simp: bt_sum_def bt_update_def)

lemma bt_update_absent: "k \<notin> fst ` set m \<Longrightarrow> bt_update k f m = m"
  by (induction m) (auto simp: bt_update_def)

lemma bt_sum_update:
  "distinct (map fst m) \<Longrightarrow> map_of m k = Some v \<Longrightarrow>
     bt_sum g (bt_update k f m) + g v = bt_sum g m + g (f v)"
proof (induction m)
  case Nil
  then show ?case by simp
next
  case (Cons e m)
  obtain j u where e: "e = (j, u)" by fastforce
  show ?case
  proof (cases "j = k")
    case True
    with Cons.prems have "bt_update k f m = m" by (intro bt_update_absent) (auto simp: e)
    with True Cons.prems show ?thesis by (simp add: e bt_sum_def bt_update_def)
  next
    case False
    with Cons show ?thesis by (simp add: e bt_sum_def bt_update_def)
  qed
qed

lemma bt_sum_insert_new:
  "k \<notin> fst ` set m \<Longrightarrow> bt_sum g (bt_insert k v m) = bt_sum g m + g v"
  by (induction k v m rule: bt_insert.induct) (auto simp: bt_sum_def)

lemma snd_bt_insert_subset: "snd ` set (bt_insert k v m) \<subseteq> insert v (snd ` set m)"
  by (induction k v m rule: bt_insert.induct) auto

lemma bt_update_values:
  "v \<in> snd ` set (bt_update k f m) \<Longrightarrow> v \<in> snd ` set m \<or> (\<exists>u. (k, u) \<in> set m \<and> v = f u)"
  by (auto simp: bt_update_def split: if_splits) (force simp: image_iff)+

end
