(* ===== verification/Tool_Registry.thy ===== *)
theory Tool_Registry
  imports Provider_Contract Argument_Schema Output_Reduction Ordered_Table
begin

text \<open>
  \<open>crates/rupi-tools/src/registry.rs\<close>: the set of tools, the policy that decides whether a
  call may run, the single execution path, and the coercion of a tool's claimed state.

  Everything a call can change or observe outside the registry is a world of type \<open>'w\<close>: the
  tool itself, the approval gate, the start observer and the cancellation token act on it. The
  registry behind its lock is a value; the operations that take the write lock return it updated.
\<close>

section \<open>Tools and the registry\<close>

record 'w tool =
  t_metadata :: tool_metadata
  t_schema :: json
  t_preflight :: "tool_request \<Rightarrow> 'w \<Rightarrow> tool_error option"
  t_execute :: "tool_request \<Rightarrow> 'w \<Rightarrow> (tool_error + tool_outcome) \<times> 'w"
  t_reconcile :: "tool_request \<Rightarrow> 'w \<Rightarrow> tool_error + reconciliation_status"

record 'w registered_tool =
  rt_tool :: "'w tool"
  rt_metadata :: tool_metadata
  rt_schema :: json
  rt_sampling :: "sampling_strictness option"

definition new_registered :: "'w tool \<Rightarrow> sampling_strictness option \<Rightarrow> 'w registered_tool" where
  "new_registered tool sampling =
     \<lparr> rt_tool = tool, rt_metadata = t_metadata tool, rt_schema = t_schema tool,
       rt_sampling = sampling \<rparr>"

datatype default_gate = GateDeny | GateAllow

record 'w registry =
  reg_max_output_bytes :: u64
  reg_tools :: "(string, 'w registered_tool) btree"
  reg_allow :: "string list"
  reg_deny :: "string list"
  reg_default_gate :: default_gate
  reg_configuration_error :: "string option"

definition register_with_sampling ::
    "'w tool \<Rightarrow> sampling_strictness option \<Rightarrow> 'w registry \<Rightarrow> 'w registry" where
  "register_with_sampling tool sampling reg =
     (let registered = new_registered tool sampling; name = tm_name (rt_metadata registered)
      in reg\<lparr>reg_tools := bt_insert name registered (reg_tools reg)\<rparr>)"

definition register_tool :: "'w tool \<Rightarrow> 'w registry \<Rightarrow> 'w registry" where
  "register_tool tool reg = register_with_sampling tool None reg"

definition unregister_shared :: "string \<Rightarrow> 'w registry \<Rightarrow> bool \<times> 'w registry" where
  "unregister_shared name reg =
     (map_of (reg_tools reg) name \<noteq> None, reg\<lparr>reg_tools := bt_remove name (reg_tools reg)\<rparr>)"

definition unregister_prefix :: "string \<Rightarrow> 'w registry \<Rightarrow> nat \<times> 'w registry" where
  "unregister_prefix pre reg =
     (let matching = filter (prefix pre) (map fst (reg_tools reg))
      in (length matching, reg\<lparr>reg_tools := fold bt_remove matching (reg_tools reg)\<rparr>))"

definition auto_approves_mutating :: "'w registry \<Rightarrow> bool" where
  "auto_approves_mutating reg \<longleftrightarrow> reg_default_gate reg = GateAllow"

definition is_allowed :: "'w registry \<Rightarrow> string \<Rightarrow> bool" where
  "is_allowed reg name =
     (if list_ex (\<lambda>d. d = name) (reg_deny reg) then False
      else if reg_allow reg = [] then True
      else list_ex (\<lambda>a. a = name) (reg_allow reg))"

definition allowed_names :: "'w registry \<Rightarrow> string list" where
  "allowed_names reg = filter (is_allowed reg) (map fst (reg_tools reg))"

definition tool_spec_of :: "'w registered_tool \<Rightarrow> tool_spec" where
  "tool_spec_of t =
     \<lparr> ts_name = tm_name (rt_metadata t), ts_description = tm_description (rt_metadata t),
       ts_parameters = rt_schema t, ts_sampling = rt_sampling t \<rparr>"

definition registry_specs :: "'w registry \<Rightarrow> tool_spec list" where
  "registry_specs reg =
     map (\<lambda>(_, t). tool_spec_of t) (filter (\<lambda>(name, _). is_allowed reg name) (reg_tools reg))"

definition allowed_metadata :: "'w registry \<Rightarrow> tool_metadata list" where
  "allowed_metadata reg =
     map (\<lambda>(_, t). rt_metadata t) (filter (\<lambda>(name, _). is_allowed reg name) (reg_tools reg))"

definition metadata_for :: "'w registry \<Rightarrow> string \<Rightarrow> tool_metadata option" where
  "metadata_for reg name = map_option rt_metadata (map_of (reg_tools reg) name)"

definition has_mutating_tools :: "'w registry \<Rightarrow> bool" where
  "has_mutating_tools reg =
     list_ex (\<lambda>(name, t). is_allowed reg name \<and> \<not> tm_read_only (rt_metadata t)) (reg_tools reg)"

definition reconcile_with_risk ::
    "'w registry \<Rightarrow> tool_request \<Rightarrow> bool option \<Rightarrow> 'w \<Rightarrow> tool_error + reconciliation_status" where
  "reconcile_with_risk reg request expected_read_only w =
     (case reg_configuration_error reg of
        Some e \<Rightarrow> Inl (new_tool_error (''tool registry configuration is invalid: '' @ e))
      | None \<Rightarrow>
          (case map_of (reg_tools reg) (tr_name request) of
             None \<Rightarrow> Inl (new_tool_error (''unknown tool '' @ [CHR 0x27] @ tr_name request @ [CHR 0x27]))
           | Some tool \<Rightarrow>
               (case expected_read_only of
                  Some expected \<Rightarrow>
                    (if tm_read_only (rt_metadata tool) \<noteq> expected
                     then Inl (new_tool_error (''tool '' @ [CHR 0x27] @ tr_name request @ [CHR 0x27]
                       @ '' risk metadata changed since the interrupted request''))
                     else t_reconcile (rt_tool tool) request w)
                | None \<Rightarrow> t_reconcile (rt_tool tool) request w)))"

text \<open>
  The registry invariant: the table is a map in key order and every entry sits under the name
  its metadata declares.
\<close>

definition registry_ok :: "'w registry \<Rightarrow> bool" where
  "registry_ok reg \<longleftrightarrow>
     bt_ok (reg_tools reg)
     \<and> (\<forall>name t. map_of (reg_tools reg) name = Some t \<longrightarrow> tm_name (rt_metadata t) = name)"

lemma register_ok [inv_intros]: "registry_ok reg \<Longrightarrow> registry_ok (register_with_sampling t s reg)"
  by (auto simp: registry_ok_def register_with_sampling_def Let_def bt.table_laws)

lemma unregister_ok [inv_intros]: "registry_ok reg \<Longrightarrow> registry_ok (snd (unregister_shared n reg))"
  by (auto simp: registry_ok_def unregister_shared_def bt.table_laws)

lemma unregister_prefix_ok [inv_intros]:
  "registry_ok reg \<Longrightarrow> registry_ok (snd (unregister_prefix pre reg))"
  by (auto simp: registry_ok_def unregister_prefix_def Let_def bt.invar_delete_all
      bt.lookup_delete_all split: if_splits)

lemma unregister_prefix_lookup:
  assumes "registry_ok reg"
  shows "map_of (reg_tools (snd (unregister_prefix pre reg))) name =
     (if prefix pre name then None else map_of (reg_tools reg) name)"
  using assms
  by (auto simp: registry_ok_def unregister_prefix_def Let_def bt.lookup_delete_all
      map_of_eq_None_iff)

section \<open>Approval gates\<close>

datatype approval = Allow | Deny string | Ask string

type_synonym 'w gate = "tool_metadata \<Rightarrow> json \<Rightarrow> 'w \<Rightarrow> approval \<times> 'w"

definition auto_approve :: "'w gate" where
  "auto_approve m args w = (Allow, w)"

definition deny_mutating :: "'w gate" where
  "deny_mutating m args w =
     (Deny (CHR 0x27 # tm_name m @ CHR 0x27 # '' is mutating and approval is required. Nothing was changed. Grant this tool by name under tool.allow_mutating, or run a surface that can ask.''), w)"

definition deny_all :: "'w gate" where
  "deny_all m args w =
     (Deny (CHR 0x27 # tm_name m @ CHR 0x27 # '' changes state and mutating tools are not approved by policy''), w)"

definition refusal_of :: "approval \<Rightarrow> string option" where
  "refusal_of a = (case a of Allow \<Rightarrow> None | Deny r \<Rightarrow> Some r | Ask r \<Rightarrow> Some r)"

section \<open>The execution path\<close>

record executed =
  ex_request :: tool_request
  ex_outcome :: tool_outcome
  ex_state :: tool_execution_state
  ex_started :: bool
  ex_refusal :: "string option"
  ex_full_output :: "string option"
  ex_cancelled :: bool

definition refused :: "tool_request \<Rightarrow> string \<Rightarrow> executed" where
  "refused request reason =
     \<lparr> ex_request = request, ex_outcome = outcome_failed reason, ex_state = Failed,
       ex_started = False, ex_refusal = Some reason, ex_full_output = None,
       ex_cancelled = False \<rparr>"

definition cancelled_before_start :: "tool_request \<Rightarrow> executed" where
  "cancelled_before_start request =
     \<lparr> ex_request = request,
       ex_outcome = outcome_failed (CHR 0x27 # tr_name request
         @ CHR 0x27 # '' not executed: the turn was cancelled before it started''),
       ex_state = Requested, ex_started = False,
       ex_refusal = Some ''cancelled before execution'', ex_full_output = None,
       ex_cancelled = True \<rparr>"

definition coerce_state ::
    "tool_execution_state \<Rightarrow> tool_metadata \<Rightarrow> bool \<Rightarrow> tool_execution_state" where
  "coerce_state claimed m cancelled =
     (case claimed of
        Requested \<Rightarrow> Unknown
      | Started \<Rightarrow> Unknown
      | Succeeded \<Rightarrow> (if cancelled \<and> \<not> tm_read_only m then Unknown else Succeeded)
      | other \<Rightarrow> other)"

fun join :: "string \<Rightarrow> string list \<Rightarrow> string" where
  "join sep [] = []"
| "join sep [x] = x"
| "join sep (x # y # xs) = x @ sep @ join sep (y # xs)"

definition unknown_tool :: "string \<Rightarrow> string list \<Rightarrow> string" where
  "unknown_tool name available =
     ''unknown tool '' @ CHR 0x27 # name @ CHR 0x27 # ''; available: ''
     @ (if available = [] then ''none'' else join '', '' available)"

datatype dispatch_error = SinkError string | Panicked panic

text \<open>The decision made before any tool code: \<open>Inl\<close> a refusal, \<open>Inr\<close> the tool to run.\<close>

definition clear_call ::
    "'w registry \<Rightarrow> tool_request \<Rightarrow> 'w gate \<Rightarrow> ('w \<Rightarrow> bool) \<Rightarrow> 'w
      \<Rightarrow> (executed + 'w registered_tool) \<times> 'w" where
  "clear_call reg request gate cancelled w =
     (case reg_configuration_error reg of
        Some e \<Rightarrow> (Inl (refused request (''tool registry configuration is invalid: '' @ e)), w)
      | None \<Rightarrow>
     if cancelled w then (Inl (cancelled_before_start request), w)
     else case map_of (reg_tools reg) (tr_name request) of
        None \<Rightarrow> (Inl (refused request (unknown_tool (tr_name request) (allowed_names reg))), w)
      | Some tool \<Rightarrow>
     if \<not> is_allowed reg (tm_name (rt_metadata tool))
     then (Inl (refused request
            (''tool '' @ CHR 0x27 # tm_name (rt_metadata tool) @ CHR 0x27 # '' is denied by policy'')), w)
     else case validate_arguments (tm_name (rt_metadata tool)) (tr_arguments request) (rt_schema tool) of
        Some message \<Rightarrow> (Inl (refused request message), w)
      | None \<Rightarrow>
     (case t_preflight (rt_tool tool) request w of
        Some e \<Rightarrow> (Inl (refused request (te_message e)), w)
      | None \<Rightarrow>
     if tm_read_only (rt_metadata tool) then (Inr tool, w)
     else case gate (rt_metadata tool) (tr_arguments request) w of
        (answer, w') \<Rightarrow>
          (case refusal_of answer of
             Some reason \<Rightarrow> (Inl (refused request reason), w')
           | None \<Rightarrow> (Inr tool, w'))))"

text \<open>What becomes of the result the tool returned.\<close>

definition settle_outcome ::
    "bool \<Rightarrow> u64 \<Rightarrow> tool_request \<Rightarrow> tool_metadata \<Rightarrow> bool \<Rightarrow> bool \<Rightarrow> tool_outcome
      \<Rightarrow> dispatch_error + executed" where
  "settle_outcome checks max_bytes request m interrupted cancelled out =
     (case reduce checks (to_text out) max_bytes of
        Inl p \<Rightarrow> Inl (Panicked p)
      | Inr reduction \<Rightarrow>
          (let out1 = (case reduction of
                         None \<Rightarrow> out
                       | Some r \<Rightarrow> out\<lparr>to_text := red_text r, to_reduced := True\<rparr>);
               full_output = map_option red_full reduction;
               state = coerce_state (to_state out1) m interrupted;
               out2 = (if state \<noteq> to_state out1
                       then out1\<lparr>to_state := state, to_is_error := True,
                                 to_text := to_text out1
                                   @ '' [completion was not observed before cancellation or deadline]''\<rparr>
                       else out1)
           in Inr \<lparr> ex_request = request, ex_outcome = out2, ex_state = state, ex_started = True,
                    ex_refusal = None, ex_full_output = full_output, ex_cancelled = cancelled \<rparr>))"

definition settle_error ::
    "tool_request \<Rightarrow> tool_metadata \<Rightarrow> bool \<Rightarrow> bool \<Rightarrow> tool_error \<Rightarrow> executed" where
  "settle_error request m interrupted cancelled e =
     (let implied = implied_state e m;
          state = (if interrupted \<and> implied = Started then Unknown else implied)
      in \<lparr> ex_request = request,
           ex_outcome = \<lparr> to_state = state, to_text = te_message e, to_is_error = True,
                          to_reduced = False, to_blob = None, to_status = None \<rparr>,
           ex_state = state, ex_started = te_started e, ex_refusal = Some (te_message e),
           ex_full_output = None, ex_cancelled = cancelled \<rparr>)"

text \<open>
  \<open>cancelled\<close> reads the cancellation token and \<open>expired\<close> the deadline of the execution
  context; \<open>on_started\<close> records the start and may fail.
\<close>

record 'w dispatch_env =
  de_overflow_checks :: bool
  de_cancelled :: "'w \<Rightarrow> bool"
  de_expired :: "'w \<Rightarrow> bool"
  de_on_started :: "'w \<Rightarrow> string option \<times> 'w"

definition dispatch ::
    "'w dispatch_env \<Rightarrow> 'w registry \<Rightarrow> tool_request \<Rightarrow> 'w gate \<Rightarrow> 'w
      \<Rightarrow> (dispatch_error + executed) \<times> 'w" where
  "dispatch env reg request gate w0 =
     (case clear_call reg request gate (de_cancelled env) w0 of
        (Inl refusal, w1) \<Rightarrow> (Inr refusal, w1)
      | (Inr tool, w1) \<Rightarrow>
          (case de_on_started env w1 of
             (Some e, w2) \<Rightarrow> (Inl (SinkError e), w2)
           | (None, w2) \<Rightarrow>
               (case t_execute (rt_tool tool) request w2 of
                  (Inr out, w3) \<Rightarrow>
                    (settle_outcome (de_overflow_checks env) (reg_max_output_bytes reg) request
                       (rt_metadata tool) (de_cancelled env w3 \<or> de_expired env w3)
                       (de_cancelled env w3) out, w3)
                | (Inl e, w3) \<Rightarrow>
                    (Inr (settle_error request (rt_metadata tool)
                       (de_cancelled env w3 \<or> de_expired env w3) (de_cancelled env w3) e), w3))))"

definition execute_observed ::
    "'w dispatch_env \<Rightarrow> 'w registry \<Rightarrow> tool_request \<Rightarrow> 'w \<Rightarrow> (dispatch_error + executed) \<times> 'w" where
  "execute_observed env reg request w =
     (case reg_default_gate reg of
        GateAllow \<Rightarrow> dispatch env reg request auto_approve w
      | GateDeny \<Rightarrow> dispatch env reg request deny_mutating w)"

section \<open>Facts about clearance and settlement\<close>

text \<open>The conditions under which tool code may run.\<close>

definition cleared ::
    "'w registry \<Rightarrow> tool_request \<Rightarrow> 'w gate \<Rightarrow> ('w \<Rightarrow> bool) \<Rightarrow> 'w \<Rightarrow> 'w registered_tool \<Rightarrow> bool" where
  "cleared reg request gate cancelled w tool \<longleftrightarrow>
     reg_configuration_error reg = None \<and> \<not> cancelled w
     \<and> map_of (reg_tools reg) (tr_name request) = Some tool
     \<and> is_allowed reg (tm_name (rt_metadata tool))
     \<and> is_object (tr_arguments request) \<and> conforms (tr_arguments request) (rt_schema tool)
     \<and> t_preflight (rt_tool tool) request w = None
     \<and> (tm_read_only (rt_metadata tool)
        \<or> fst (gate (rt_metadata tool) (tr_arguments request) w) = Allow)"

lemma validate_arguments_None:
  "validate_arguments n v s = None \<longleftrightarrow> is_object v \<and> conforms v s"
  by (simp add: validate_arguments_def validate_iff_conforms)

lemma cleared_alt:
  "cleared reg request gate cancelled w tool \<longleftrightarrow>
     reg_configuration_error reg = None \<and> \<not> cancelled w
     \<and> map_of (reg_tools reg) (tr_name request) = Some tool
     \<and> is_allowed reg (tm_name (rt_metadata tool))
     \<and> validate_arguments (tm_name (rt_metadata tool)) (tr_arguments request) (rt_schema tool) = None
     \<and> t_preflight (rt_tool tool) request w = None
     \<and> (tm_read_only (rt_metadata tool)
        \<or> fst (gate (rt_metadata tool) (tr_arguments request) w) = Allow)"
  by (auto simp: cleared_def validate_arguments_None)

lemma refusal_of_Allow [simp]: "refusal_of Allow = None"
  by (simp add: refusal_of_def)

lemma refusal_of_None [simp]: "refusal_of a = None \<longleftrightarrow> a = Allow"
  by (cases a) (simp_all add: refusal_of_def)

lemma refusal_of_Some: "refusal_of a = Some r \<Longrightarrow> a \<noteq> Allow"
  by (auto simp: refusal_of_def)

lemma clear_call_Inr:
  "clear_call reg request gate cancelled w = (Inr tool, w') \<longleftrightarrow>
     cleared reg request gate cancelled w tool
     \<and> w' = (if tm_read_only (rt_metadata tool) then w
             else snd (gate (rt_metadata tool) (tr_arguments request) w))"
  by (auto simp: clear_call_def cleared_alt split: option.splits prod.splits if_splits)

lemma clear_call_Inl:
  "clear_call reg request gate cancelled w = (Inl ex, w') \<Longrightarrow>
     \<not> ex_started ex \<and> ex_request ex = request \<and> ex_refusal ex \<noteq> None
     \<and> (\<forall>tool. \<not> cleared reg request gate cancelled w tool)"
  by (auto simp: clear_call_def cleared_alt refused_def cancelled_before_start_def
      dest: refusal_of_Some split: option.splits prod.splits if_splits)

lemma coerce_state_terminal: "is_terminal (coerce_state s m c)"
  by (cases s) (simp_all add: coerce_state_def is_terminal_def)

lemma coerce_state_interrupted:
  "c \<Longrightarrow> \<not> tm_read_only m \<Longrightarrow> coerce_state s m c \<noteq> Succeeded"
  by (cases s) (simp_all add: coerce_state_def)

lemma coerce_state_fixed:
  "is_terminal s \<Longrightarrow> \<not> c \<or> tm_read_only m \<Longrightarrow> coerce_state s m c = s"
  by (cases s) (auto simp: coerce_state_def is_terminal_def)

lemma settle_outcome_Inr:
  assumes "settle_outcome checks n request m i c out = Inr ex"
  shows "ex_state ex = coerce_state (to_state out) m i" and "ex_started ex"
    and "to_state (ex_outcome ex) = ex_state ex"
    and "n \<le> length (to_text out) \<longleftrightarrow> ex_full_output ex = Some (to_text out)"
    and "ex_request ex = request"
  using assms reduce_None_iff [of checks "to_text out" n]
  by (auto simp: settle_outcome_def Let_def reduce_def bind_res_Inr split: sum.splits option.splits
      if_splits)

lemma settle_error_facts:
  "is_terminal (ex_state (settle_error request m i c e))"
  "to_state (ex_outcome (settle_error request m i c e)) = ex_state (settle_error request m i c e)"
  "ex_state (settle_error request m i c e) \<noteq> Succeeded"
  by (auto simp: settle_error_def Let_def implied_state_def is_terminal_def)

lemma clear_call_snd:
  "snd (clear_call reg request gate cancelled w)
     \<in> insert w (range (\<lambda>m. snd (gate m (tr_arguments request) w)))"
  unfolding clear_call_def split_def by (simp split: option.split)

lemma clear_call_world:
  "clear_call reg request gate cancelled w = (answer, w') \<Longrightarrow>
     w' = w \<or> (\<exists>m. w' = snd (gate m (tr_arguments request) w))"
  using clear_call_snd [of reg request gate cancelled w] by auto

lemma dispatch_uncleared:
  assumes "\<And>tool. \<not> cleared reg request gate (de_cancelled env) w tool"
  shows "\<exists>ex w'. dispatch env reg request gate w = (Inr ex, w')
    \<and> ex_request ex = request \<and> \<not> ex_started ex \<and> ex_refusal ex \<noteq> None
    \<and> (w' = w \<or> (\<exists>m. w' = snd (gate m (tr_arguments request) w)))"
proof (cases "clear_call reg request gate (de_cancelled env) w")
  case (Pair answer w')
  have "answer \<noteq> Inr tool" for tool
    using assms [of tool] Pair by (auto simp: clear_call_Inr)
  then obtain ex where ex: "answer = Inl ex" by (cases answer) auto
  show ?thesis
    using clear_call_Inl [OF Pair [unfolded ex]] clear_call_world [OF Pair]
    by (simp add: dispatch_def Pair ex)
qed

section \<open>A concrete registry\<close>

text \<open>
  A registry with one tool over a world that counts: a run adds one, a recorded start adds ten.
\<close>

definition probe_tool :: "bool \<Rightarrow> nat tool" where
  "probe_tool read_only =
     \<lparr> t_metadata = \<lparr> tm_name = ''probe'', tm_description = ''counts its runs'',
                       tm_read_only = read_only, tm_idempotent = read_only \<rparr>,
       t_schema = JObj [(''type'', JStr ''object'')], t_preflight = (\<lambda>_ _. None),
       t_execute = (\<lambda>_ w. (Inr (outcome_succeeded ''ok''), Suc w)),
       t_reconcile = (\<lambda>_ _. Inr (Unmodified ''nothing to undo'')) \<rparr>"

definition probe_registry :: "bool \<Rightarrow> nat registry" where
  "probe_registry read_only = register_tool (probe_tool read_only)
     \<lparr> reg_max_output_bytes = 8192, reg_tools = [], reg_allow = [], reg_deny = [],
       reg_default_gate = GateDeny, reg_configuration_error = None \<rparr>"

definition probe_request :: tool_request where
  "probe_request = \<lparr> tr_call_id = ''c1'', tr_name = ''probe'', tr_arguments = JObj [] \<rparr>"

definition probe_env :: "nat dispatch_env" where
  "probe_env =
     \<lparr> de_overflow_checks = True, de_cancelled = (\<lambda>_. False), de_expired = (\<lambda>_. False),
       de_on_started = (\<lambda>w. (None, w + 10)) \<rparr>"

lemmas probe_defs = probe_tool_def probe_registry_def probe_request_def probe_env_def
  register_tool_def register_with_sampling_def new_registered_def

lemma cleared_lookup:
  "cleared reg request gate cancelled w tool \<Longrightarrow> map_of (reg_tools reg) (tr_name request) = Some tool"
  by (simp only: cleared_def)

lemma cleared_gate:
  "cleared reg request gate cancelled w tool \<Longrightarrow> \<not> tm_read_only (rt_metadata tool) \<Longrightarrow>
     fst (gate (rt_metadata tool) (tr_arguments request) w) = Allow"
  by (simp add: cleared_def)

lemma probe_registry_ok: "registry_ok (probe_registry b)"
  by (simp add: registry_ok_def probe_defs Let_def bt_ok_def)

lemma probe_lookup:
  "map_of (reg_tools (probe_registry b)) ''probe'' = Some (new_registered (probe_tool b) None)"
  by (simp add: probe_defs Let_def)

lemma probe_name: "tr_name probe_request = ''probe''"
  by (simp add: probe_request_def)

lemma probe_mutating: "\<not> tm_read_only (rt_metadata (new_registered (probe_tool False) None))"
  by (simp add: new_registered_def probe_tool_def)

lemma probe_runs:
  "\<exists>ex. dispatch probe_env (probe_registry True) probe_request deny_mutating 0 = (Inr ex, 11) \<and> ex_started ex"
proof -
  have "clear_call (probe_registry True) probe_request deny_mutating (de_cancelled probe_env) 0
     = (Inr (new_registered (probe_tool True) None), 0)"
    by (simp add: clear_call_Inr cleared_alt probe_defs Let_def is_allowed_def validate_arguments_def
      validate_schema_value.simps check_type_def check_enum_def kind_matches_def check_required_def
      required_keys_def)
  then show ?thesis
    by (simp add: dispatch_def probe_defs Let_def settle_outcome_def reduce_def outcome_succeeded_def)
qed

section \<open>Properties\<close>

text \<open>
  registering a tool, removing one and removing a whole prefix keep the registry a map in
  key order with every tool under the name it declares; removing a prefix removes exactly the
  names that have it.
\<close>

theorem registry_operations_ok:
  assumes "registry_ok reg"
  shows "registry_ok (register_with_sampling tool sampling reg)
    \<and> registry_ok (snd (unregister_shared name reg))
    \<and> registry_ok (snd (unregister_prefix pre reg))
    \<and> map_of (reg_tools (snd (unregister_prefix pre reg))) =
        (\<lambda>n. if prefix pre n then None else map_of (reg_tools reg) n)"
  using assms by (auto intro: inv_intros simp: unregister_prefix_lookup)

theorem registry_operations_ok_witness:
  "registry_ok (register_with_sampling (probe_tool False) (Some Require) (probe_registry True))
    \<and> registry_ok (snd (unregister_shared ''probe'' (probe_registry True)))
    \<and> registry_ok (snd (unregister_prefix ''pr'' (probe_registry True)))
    \<and> map_of (reg_tools (snd (unregister_prefix ''pr'' (probe_registry True)))) =
        (\<lambda>n. if prefix ''pr'' n then None else map_of (reg_tools (probe_registry True)) n)"
  by (rule registry_operations_ok [OF probe_registry_ok])

text \<open>
  C27: a call that is not cleared (the registry is misconfigured, the turn is cancelled, the
  tool is unknown or denied, the arguments do not conform, preflight refuses, or the approval
  gate does not allow it) is answered with a refusal, runs no tool code and records no start:
  at most the gate itself was consulted.
\<close>

theorem uncleared_call_runs_nothing:
  assumes "\<And>tool. \<not> cleared reg request gate (de_cancelled env) w tool"
  shows "\<exists>ex w'. dispatch env reg request gate w = (Inr ex, w')
    \<and> ex_request ex = request \<and> \<not> ex_started ex \<and> ex_refusal ex \<noteq> None
    \<and> (w' = w \<or> (\<exists>m. w' = snd (gate m (tr_arguments request) w)))"
  using dispatch_uncleared [OF assms] by blast

theorem uncleared_call_runs_nothing_witness:
  "\<exists>ex w'. dispatch probe_env (probe_registry False) probe_request deny_all 0 = (Inr ex, w')
    \<and> ex_request ex = probe_request \<and> \<not> ex_started ex \<and> ex_refusal ex \<noteq> None
    \<and> (w' = 0 \<or> (\<exists>m. w' = snd (deny_all m (tr_arguments probe_request) 0)))"
proof (rule uncleared_call_runs_nothing)
  show "\<not> cleared (probe_registry False) probe_request deny_all (de_cancelled probe_env) 0 tool" for tool
  proof
    assume c: "cleared (probe_registry False) probe_request deny_all (de_cancelled probe_env) 0 tool"
    from cleared_lookup [OF c] have "Some tool = Some (new_registered (probe_tool False) None)"
      unfolding probe_name probe_lookup by (rule sym)
    then have tool: "tool = new_registered (probe_tool False) None" by (rule option.inject [THEN iffD1])
    have "\<not> tm_read_only (rt_metadata tool)" unfolding tool by (rule probe_mutating)
    from cleared_gate [OF c this] show False by (simp add: deny_all_def)
  qed
qed

text \<open>
  C28: when the execution path reports a started call, the call was cleared, its start was
  recorded before the tool ran, and the tool ran exactly once, on the world the record left.
\<close>

theorem started_call_was_cleared_and_recorded:
  assumes "dispatch env reg request gate w = (Inr ex, w')" and "ex_started ex"
  shows "\<exists>tool w1 w2. cleared reg request gate (de_cancelled env) w tool
    \<and> w1 = (if tm_read_only (rt_metadata tool) then w
            else snd (gate (rt_metadata tool) (tr_arguments request) w))
    \<and> de_on_started env w1 = (None, w2)
    \<and> w' = snd (t_execute (rt_tool tool) request w2)"
proof (cases "clear_call reg request gate (de_cancelled env) w")
  case (Pair answer w1)
  show ?thesis
  proof (cases answer)
    case (Inl refusal)
    with Pair assms clear_call_Inl [of reg request gate "de_cancelled env" w refusal w1]
    show ?thesis by (simp add: dispatch_def)
  next
    case (Inr tool)
    with Pair assms(1) have "\<exists>w2. de_on_started env w1 = (None, w2)
        \<and> w' = snd (t_execute (rt_tool tool) request w2)"
      by (auto simp: dispatch_def split: option.splits prod.splits sum.splits)
    with Pair [unfolded Inr clear_call_Inr] show ?thesis by blast
  qed
qed

theorem started_call_was_cleared_and_recorded_witness:
  "\<exists>tool w1 w2. cleared (probe_registry True) probe_request deny_mutating (de_cancelled probe_env) 0 tool
    \<and> w1 = (if tm_read_only (rt_metadata tool) then 0
            else snd (deny_mutating (rt_metadata tool) (tr_arguments probe_request) 0))
    \<and> de_on_started probe_env w1 = (None, w2)
    \<and> 11 = snd (t_execute (rt_tool tool) probe_request w2)"
proof -
  from probe_runs obtain ex where "dispatch probe_env (probe_registry True) probe_request
      deny_mutating 0 = (Inr ex, 11)" and "ex_started ex" by blast
  then show ?thesis by (rule started_call_was_cleared_and_recorded)
qed

text \<open>
  The state reported for a call and the state recorded in its outcome agree and are final,
  unless the call was cancelled before it started; and a mutating tool whose run was cut by a
  cancellation or a deadline is never reported as a success.
\<close>

theorem settled_state_sound:
  assumes "dispatch env reg request gate w = (Inr ex, w')" and "ex_started ex"
  shows "is_terminal (ex_state ex) \<and> to_state (ex_outcome ex) = ex_state ex
    \<and> (ex_state ex = Succeeded \<longrightarrow>
         (\<exists>tool. map_of (reg_tools reg) (tr_name request) = Some tool
            \<and> (tm_read_only (rt_metadata tool)
                \<or> (\<not> de_cancelled env w' \<and> \<not> de_expired env w'))))"
proof (cases "clear_call reg request gate (de_cancelled env) w")
  case (Pair answer w1)
  show ?thesis
  proof (cases answer)
    case (Inl refusal)
    with Pair assms clear_call_Inl [of reg request gate "de_cancelled env" w refusal w1]
    show ?thesis by (simp add: dispatch_def)
  next
    case (Inr tool)
    obtain w2 r where run: "t_execute (rt_tool tool) request w2 = (r, w')"
      and result: "(\<exists>e. r = Inl e \<and> ex = settle_error request (rt_metadata tool)
            (de_cancelled env w' \<or> de_expired env w') (de_cancelled env w') e)
        \<or> (\<exists>out. r = Inr out \<and> settle_outcome (de_overflow_checks env) (reg_max_output_bytes reg)
            request (rt_metadata tool) (de_cancelled env w' \<or> de_expired env w')
            (de_cancelled env w') out = Inr ex)"
      using assms(1) Pair Inr
      by (auto simp: dispatch_def split: option.splits prod.splits sum.splits)
    have found: "map_of (reg_tools reg) (tr_name request) = Some tool"
      using Pair [unfolded Inr clear_call_Inr] by (simp add: cleared_def)
    from result show ?thesis
    proof (elim disjE exE conjE)
      fix e assume "ex = settle_error request (rt_metadata tool)
            (de_cancelled env w' \<or> de_expired env w') (de_cancelled env w') e"
      then show ?thesis by (simp add: settle_error_facts)
    next
      fix out assume out: "settle_outcome (de_overflow_checks env) (reg_max_output_bytes reg)
            request (rt_metadata tool) (de_cancelled env w' \<or> de_expired env w')
            (de_cancelled env w') out = Inr ex"
      show ?thesis
        using settle_outcome_Inr [OF out] found coerce_state_interrupted
        by (auto simp: coerce_state_terminal)
    qed
  qed
qed

theorem settled_state_sound_witness:
  "\<exists>ex::executed. is_terminal (ex_state ex) \<and> to_state (ex_outcome ex) = ex_state ex"
proof -
  from probe_runs obtain ex where run: "dispatch probe_env (probe_registry True) probe_request
      deny_mutating 0 = (Inr ex, 11)" and started: "ex_started ex" by blast
  show ?thesis using settled_state_sound [OF run started] by blast
qed

text \<open>
  under the default policy no mutating tool runs: a call to one, whatever else it says, is
  answered without touching the world.
\<close>

theorem default_policy_runs_no_mutation:
  assumes "reg_default_gate reg = GateDeny"
    and "map_of (reg_tools reg) (tr_name request) = Some tool"
    and "\<not> tm_read_only (rt_metadata tool)"
  shows "\<exists>ex. execute_observed env reg request w = (Inr ex, w) \<and> \<not> ex_started ex
    \<and> ex_refusal ex \<noteq> None"
proof -
  have uncleared: "\<not> cleared reg request deny_mutating (de_cancelled env) w t" for t
    using assms(2,3) by (auto simp: cleared_def deny_mutating_def)
  from dispatch_uncleared [of reg request deny_mutating env w, OF uncleared]
  show ?thesis using assms(1) by (auto simp: execute_observed_def deny_mutating_def)
qed

theorem default_policy_runs_no_mutation_witness:
  "\<exists>ex. execute_observed probe_env (probe_registry False) probe_request 0 = (Inr ex, 0)
    \<and> \<not> ex_started ex \<and> ex_refusal ex \<noteq> None"
proof (rule default_policy_runs_no_mutation)
  show "map_of (reg_tools (probe_registry False)) (tr_name probe_request) =
      Some (new_registered (probe_tool False) None)"
    using probe_lookup by (simp add: probe_request_def)
  show "reg_default_gate (probe_registry False) = GateDeny"
    by (simp add: probe_defs Let_def)
qed (rule probe_mutating)

end
