(* ===== verification/F64.thy ===== *)
theory F64
  imports Rupi_Prelude Complex_Main "HOL-Library.Log_Nat"
begin

text \<open>
  IEEE 754 binary64 arithmetic on the values the program uses: finite numbers in the normal
  range. Such a number is a rational; an operation is the exact rational operation followed by
  rounding to the nearest value with a 53-bit significand, ties to even. Overflow, subnormal
  numbers, infinities and NaN do not occur for the operands of the source (token counts,
  milliseconds, fractions between 0.05 and 1.5) and are outside the model.
\<close>

section \<open>Rounding\<close>

definition round_half_even :: "rat \<Rightarrow> int" where
  "round_half_even y =
     (let n = \<lfloor>y\<rfloor>; r = y - of_int n
      in if r < 1 / 2 then n else if 1 / 2 < r then n + 1 else if even n then n else n + 1)"

definition ilog2 :: "rat \<Rightarrow> int" where
  "ilog2 x =
     (let (p, q) = quotient_of x; d = int (floorlog 2 (nat p)) - int (floorlog 2 (nat q))
      in if 2 powi d \<le> x then d else d - 1)"

definition round_pos :: "rat \<Rightarrow> rat" where
  "round_pos x = (let e = ilog2 x - 52 in of_int (round_half_even (x * 2 powi (- e))) * 2 powi e)"

definition f64_round :: "rat \<Rightarrow> rat" where
  "f64_round x = (if x = 0 then 0 else if x < 0 then - round_pos (- x) else round_pos x)"

section \<open>Operations\<close>

definition fadd :: "rat \<Rightarrow> rat \<Rightarrow> rat" where "fadd a b = f64_round (a + b)"
definition fsub :: "rat \<Rightarrow> rat \<Rightarrow> rat" where "fsub a b = f64_round (a - b)"
definition fmul :: "rat \<Rightarrow> rat \<Rightarrow> rat" where "fmul a b = f64_round (a * b)"
definition fdiv :: "rat \<Rightarrow> rat \<Rightarrow> rat" where "fdiv a b = f64_round (a / b)"

text \<open>\<open>n as f64\<close> and \<open>x as u64\<close>: the latter truncates and saturates.\<close>

definition u64_to_f64 :: "u64 \<Rightarrow> rat" where "u64_to_f64 n = f64_round (of_nat n)"

definition f64_to_u64 :: "rat \<Rightarrow> u64" where
  "f64_to_u64 x = (if x \<le> 0 then 0 else min u64_max (nat \<lfloor>x\<rfloor>))"

section \<open>Rounding is monotone and exact on small integers\<close>

lemma round_half_even_bounds: "\<lfloor>y\<rfloor> \<le> round_half_even y \<and> round_half_even y \<le> \<lfloor>y\<rfloor> + 1"
  by (simp add: round_half_even_def Let_def)

lemma round_half_even_of_int [simp]: "round_half_even (of_int n) = n"
  by (simp add: round_half_even_def)

lemma round_half_even_mono: "y \<le> z \<Longrightarrow> round_half_even y \<le> round_half_even z"
proof (cases "\<lfloor>y\<rfloor> = \<lfloor>z\<rfloor>")
  case True
  assume "y \<le> z"
  with True show ?thesis by (auto simp: round_half_even_def Let_def)
next
  case False
  assume "y \<le> z"
  then have "\<lfloor>y\<rfloor> \<le> \<lfloor>z\<rfloor>" by (rule floor_mono)
  with False have "\<lfloor>y\<rfloor> + 1 \<le> \<lfloor>z\<rfloor>" by simp
  with round_half_even_bounds [of y] round_half_even_bounds [of z] show ?thesis by linarith
qed

lemma pow_le_of_int: "0 < p \<Longrightarrow> 2 ^ k \<le> nat p \<Longrightarrow> (2::rat) ^ k \<le> of_int p"
  by (metis nat_0_le of_int_of_nat_eq of_nat_le_iff of_nat_numeral of_nat_power order_less_imp_le)

lemma pow_gt_of_int: "0 < p \<Longrightarrow> nat p < 2 ^ k \<Longrightarrow> of_int p < (2::rat) ^ k"
  by (metis nat_0_le of_int_of_nat_eq of_nat_less_iff of_nat_numeral of_nat_power order_less_imp_le)

lemma ilog2_bounds:
  assumes "0 < x"
  shows "2 powi (ilog2 x) \<le> x" and "x < 2 powi (ilog2 x + 1)"
proof -
  obtain p q where pq: "quotient_of x = (p, q)" by fastforce
  have q: "0 < q" using quotient_of_denom_pos [OF pq] .
  have x: "x = of_int p / of_int q" using quotient_of_div [OF pq] .
  with assms q have p: "0 < p" by (simp add: zero_less_divide_iff)
  define a b where "a = floorlog 2 (nat p)" and "b = floorlog 2 (nat q)"
  define d where "d = int a - int b"
  have fl: "2 ^ (floorlog 2 n - 1) \<le> n \<and> n < 2 ^ floorlog 2 n \<and> 0 < floorlog 2 n"
    if "0 < n" for n :: nat
    using floorlog_bounds [of n 2] that by (auto simp: floorlog_def)
  have P: "(2::rat) ^ (a - 1) \<le> of_int p" "of_int p < (2::rat) ^ a" "0 < a"
    using fl [of "nat p"] p pow_le_of_int pow_gt_of_int by (simp_all add: a_def)
  have Q: "(2::rat) ^ (b - 1) \<le> of_int q" "of_int q < (2::rat) ^ b" "0 < b"
    using fl [of "nat q"] q pow_le_of_int pow_gt_of_int by (simp_all add: b_def)
  have pow: "(2::rat) powi (int m - int n) = 2 ^ m / 2 ^ n" for m n
    by (simp add: power_int_diff)
  have upper: "x < 2 powi (d + 1)"
  proof -
    have "x * 2 ^ (b - 1) \<le> x * of_int q" using Q(1) assms by (intro mult_left_mono) auto
    also have "\<dots> < 2 ^ a" using P(2) q by (simp add: x)
    finally have "x < 2 ^ a / 2 ^ (b - 1)" by (simp add: field_simps)
    moreover have "d + 1 = int a - int (b - 1)" using Q(3) by (simp add: d_def of_nat_diff)
    ultimately show ?thesis by (simp only: pow)
  qed
  have lower: "2 powi (d - 1) \<le> x"
  proof -
    have "2 ^ (a - 1) \<le> x * of_int q" using P(1) q by (simp add: x)
    also have "\<dots> \<le> x * 2 ^ b" using Q(2) assms by (intro mult_left_mono) auto
    finally have "2 ^ (a - 1) / 2 ^ b \<le> x" by (simp add: field_simps)
    moreover have "d - 1 = int (a - 1) - int b" using P(3) by (simp add: d_def of_nat_diff)
    ultimately show ?thesis by (simp only: pow)
  qed
  have e: "ilog2 x = (if 2 powi d \<le> x then d else d - 1)"
    by (simp add: ilog2_def pq d_def a_def b_def)
  show "2 powi (ilog2 x) \<le> x" and "x < 2 powi (ilog2 x + 1)"
    using lower upper by (auto simp: e)
qed

lemma powi_mono: "m \<le> n \<Longrightarrow> (2::rat) powi m \<le> 2 powi n"
  by (rule power_int_increasing) simp_all

lemma ilog2_mono:
  assumes "0 < x" and "x \<le> y"
  shows "ilog2 x \<le> ilog2 y"
proof (rule ccontr)
  assume "\<not> ilog2 x \<le> ilog2 y"
  then have "(2::rat) powi (ilog2 y + 1) \<le> 2 powi (ilog2 x)" by (intro powi_mono) simp
  with ilog2_bounds(1) [of x] ilog2_bounds(2) [of y] assms show False by linarith
qed

lemma scaled_bounds:
  assumes "0 < x"
  defines "e \<equiv> ilog2 x - 52"
  shows "2 ^ 52 \<le> x * 2 powi (- e)" and "x * 2 powi (- e) < 2 ^ 53"
proof -
  have "(2::rat) powi (ilog2 x) = 2 ^ 52 * 2 powi e"
    by (simp add: e_def power_int_diff)
  moreover have "(2::rat) powi (ilog2 x + 1) = 2 ^ 53 * 2 powi e"
    by (simp add: e_def power_int_diff power_int_add)
  moreover have "(0::rat) < 2 powi e" by simp
  ultimately show "2 ^ 52 \<le> x * 2 powi (- e)" and "x * 2 powi (- e) < 2 ^ 53"
    using ilog2_bounds [OF assms(1)] by (simp_all add: power_int_minus field_simps)
qed

lemma round_pos_bounds:
  assumes "0 < x"
  shows "2 powi (ilog2 x) \<le> round_pos x" and "round_pos x \<le> 2 powi (ilog2 x + 1)"
proof -
  define e where "e = ilog2 x - 52"
  define n where "n = round_half_even (x * 2 powi (- e))"
  note s = scaled_bounds [OF assms, folded e_def]
  have "round_half_even (of_int (2 ^ 52)) \<le> n" and "n \<le> round_half_even (of_int (2 ^ 53))"
    unfolding n_def using s by (intro round_half_even_mono; simp)+
  then have n: "2 ^ 52 \<le> n" "n \<le> 2 ^ 53" by (simp_all only: round_half_even_of_int)
  have r: "round_pos x = of_int n * 2 powi e" by (simp add: round_pos_def e_def n_def Let_def)
  have lo: "(2::rat) powi (ilog2 x) = of_int (2 ^ 52) * 2 powi e"
    by (simp add: e_def power_int_diff)
  have hi: "(2::rat) powi (ilog2 x + 1) = of_int (2 ^ 53) * 2 powi e"
    by (simp add: e_def power_int_diff power_int_add)
  show "2 powi (ilog2 x) \<le> round_pos x" and "round_pos x \<le> 2 powi (ilog2 x + 1)"
    unfolding r lo hi using n by (intro mult_right_mono; simp only: of_int_le_iff; simp)+
qed

lemma round_pos_mono:
  assumes "0 < x" and "x \<le> y"
  shows "round_pos x \<le> round_pos y"
proof (cases "ilog2 x = ilog2 y")
  case True
  have "x * 2 powi (- (ilog2 y - 52)) \<le> y * 2 powi (- (ilog2 y - 52))"
    using assms(2) by (intro mult_right_mono) auto
  then show ?thesis
    unfolding round_pos_def Let_def True by (intro mult_right_mono) (auto intro: round_half_even_mono)
next
  case False
  with ilog2_mono [OF assms] have "ilog2 x + 1 \<le> ilog2 y" by simp
  then have "(2::rat) powi (ilog2 x + 1) \<le> 2 powi (ilog2 y)" by (rule powi_mono)
  with round_pos_bounds(2) [of x] round_pos_bounds(1) [of y] assms show ?thesis by linarith
qed

lemma f64_round_nonneg: "0 \<le> x \<Longrightarrow> 0 \<le> f64_round x"
  using round_pos_bounds(1) [of x] order_trans [of 0 "2 powi (ilog2 x)" "round_pos x"]
  by (auto simp: f64_round_def)

lemma f64_round_mono: "0 \<le> x \<Longrightarrow> x \<le> y \<Longrightarrow> f64_round x \<le> f64_round y"
  using round_pos_mono [of x y] f64_round_nonneg [of y] by (auto simp: f64_round_def)

lemma f64_round_nat:
  assumes "n \<le> 2 ^ 53"
  shows "f64_round (of_nat n) = of_nat n"
proof (cases "n = 0")
  case True
  then show ?thesis by (simp add: f64_round_def)
next
  case False
  define x :: rat where "x = of_nat n"
  define e where "e = ilog2 x - 52"
  have x: "0 < x" using False by (simp add: x_def)
  have "(2::rat) powi (ilog2 x) \<le> 2 ^ 53"
  proof -
    have "x \<le> of_nat (2 ^ 53)" unfolding x_def using assms by (simp only: of_nat_le_iff)
    with ilog2_bounds(1) [OF x] show ?thesis by simp
  qed
  then have "ilog2 x \<le> 53"
    using power_int_strict_increasing [of 53 "ilog2 x" "2::rat"] by (cases "ilog2 x \<le> 53") auto
  then have e: "e \<le> 1" by (simp add: e_def)
  have rp: "round_pos x = of_int (round_half_even (x * 2 powi (- e))) * 2 powi e"
    by (simp only: round_pos_def e_def Let_def)
  have "round_pos x = x"
  proof (cases "e \<le> 0")
    case True
    then obtain k where k: "- e = int k" by (metis nonneg_int_cases neg_0_le_iff_le)
    have "x * 2 powi (- e) = of_int (int (n * 2 ^ k))" by (simp add: x_def k)
    then have "round_half_even (x * 2 powi (- e)) = int (n * 2 ^ k)"
      by (simp only: round_half_even_of_int)
    moreover have "(2::rat) powi e = inverse (2 ^ k)"
      using k by (metis minus_minus power_int_minus power_int_of_nat)
    ultimately show ?thesis by (simp only: rp) (simp add: x_def)
  next
    case False
    with e have e1: "e = 1" by simp
    then have "ilog2 x = 53" by (simp add: e_def)
    with ilog2_bounds(1) [OF x] have "2 ^ 53 \<le> x" by simp
    then have "of_nat (2 ^ 53) \<le> (of_nat n :: rat)" by (simp add: x_def)
    then have "n = 2 ^ 53" using assms by (simp only: of_nat_le_iff)
    then have "x = 2 ^ 53" by (simp add: x_def)
    then have "x * 2 powi (- e) = of_int (2 ^ 52)" by (simp add: e1 power_int_minus)
    then have "round_half_even (x * 2 powi (- e)) = 2 ^ 52" by (simp only: round_half_even_of_int)
    with rp have "round_pos x = of_int (2 ^ 52) * 2 powi e" by simp
    then show ?thesis by (simp add: e1 \<open>x = 2 ^ 53\<close>)
  qed
  then show ?thesis using x by (simp add: f64_round_def x_def [symmetric])
qed

lemma u64_to_f64_exact [simp]: "n \<le> 2 ^ 53 \<Longrightarrow> u64_to_f64 n = of_nat n"
  by (simp add: u64_to_f64_def f64_round_nat)

lemma f64_to_u64_mono: "x \<le> y \<Longrightarrow> f64_to_u64 x \<le> f64_to_u64 y"
  by (auto simp: f64_to_u64_def min_def intro!: nat_mono floor_mono)
    (meson floor_mono nat_mono order_trans)+

lemma f64_to_u64_le: "x \<le> of_nat n \<Longrightarrow> f64_to_u64 x \<le> n"
  by (auto simp: f64_to_u64_def min_def floor_le_iff nat_le_iff) linarith+

text \<open>Scaling an exactly represented count by a factor of at most one never increases it.\<close>

lemma scaled_count_le:
  assumes "n \<le> 2 ^ 53" and "0 \<le> s" and "s \<le> 1"
  shows "f64_to_u64 (fmul (u64_to_f64 n) s) \<le> n"
proof (rule f64_to_u64_le)
  have "of_nat n * s \<le> (of_nat n :: rat)" using assms by (simp add: mult_left_le)
  then have "f64_round (of_nat n * s) \<le> f64_round (of_nat n)"
    using assms by (intro f64_round_mono) auto
  then show "fmul (u64_to_f64 n) s \<le> of_nat n"
    using assms(1) by (simp add: fmul_def f64_round_nat)
qed

end
