(* ===== verification/Context_Policy.thy ===== *)
theory Context_Policy
  imports Capability F64 Ordered_Table
begin

text \<open>
  \<open>crates/rupi-core/src/context.rs\<close>: context levels, the thresholds a profile derives for a
  window, overrides and their normalization, the built-in policy's decision ladder, capsules
  and external context references. Token counts are \<open>u64\<close>; the fractions are \<open>f64\<close>.
\<close>

section \<open>Levels, states and actions\<close>

datatype context_level = L0Payload | L1Ordinary | L2Phase | L3Checkpoint

fun level_as_str :: "context_level \<Rightarrow> string" where
  "level_as_str L0Payload = ''L0 payload reduction''"
| "level_as_str L1Ordinary = ''L1 ordinary compaction''"
| "level_as_str L2Phase = ''L2 phase compaction''"
| "level_as_str L3Checkpoint = ''L3 checkpoint/reset''"

definition requires_safe_boundary :: "context_level \<Rightarrow> bool" where
  "requires_safe_boundary l \<longleftrightarrow> l \<in> {L1Ordinary, L2Phase, L3Checkpoint}"

datatype reduction_reason =
  OversizedToolOutput u64 | RecentTargetExceeded u64 | ExternalContextTooLarge u64 | UserRequested

record context_state =
  cs_window :: u64
  cs_model :: "model_ref option"
  cs_estimated_tokens :: u64
  cs_measured_tokens :: "u64 option"
  cs_recent_tokens :: u64
  cs_working_messages :: u32
  cs_context_epoch :: u32
  cs_at_safe_boundary :: bool
  cs_since_last_compaction_ms :: u64
  cs_overflow_observed :: bool

definition effective_tokens :: "context_state \<Rightarrow> u64" where
  "effective_tokens s = unwrap_or (cs_estimated_tokens s) (cs_measured_tokens s)"

definition zero_state :: "u64 \<Rightarrow> context_state" where
  "zero_state window =
     \<lparr> cs_window = window, cs_model = None, cs_estimated_tokens = 0, cs_measured_tokens = None,
       cs_recent_tokens = 0, cs_working_messages = 0, cs_context_epoch = 0,
       cs_at_safe_boundary = True, cs_since_last_compaction_ms = 0,
       cs_overflow_observed = False \<rparr>"

datatype context_action =
  Keep
| Warn u64 u64
| ReducePayload reduction_reason
| Compact context_level string u64
| SuggestCheckpoint string
| Refuse string

definition is_actionable :: "context_action \<Rightarrow> bool" where
  "is_actionable a \<longleftrightarrow> a \<noteq> Keep"

record context_decision =
  cd_action :: context_action
  cd_tokens :: u64
  cd_level :: "context_level option"

section \<open>Profiles and thresholds\<close>

datatype context_profile = Aggressive | Balanced | Relaxed

fun profile_as_str :: "context_profile \<Rightarrow> string" where
  "profile_as_str Aggressive = ''aggressive''"
| "profile_as_str Balanced = ''balanced''"
| "profile_as_str Relaxed = ''relaxed''"

definition parse_profile :: "string \<Rightarrow> context_profile option" where
  "parse_profile value =
     (let v = to_ascii_lowercase (trim value)
      in if v = ''aggressive'' then Some Aggressive
         else if v = ''balanced'' then Some Balanced
         else if v = ''relaxed'' then Some Relaxed
         else None)"

record profile_fractions =
  pf_warn :: rat
  pf_reduce :: rat
  pf_compact :: rat
  pf_recent_target :: rat
  pf_working_cap_tokens :: u64

text \<open>A decimal literal denotes the nearest \<open>f64\<close>.\<close>

abbreviation lit :: "rat \<Rightarrow> rat" where
  "lit \<equiv> f64_round"

fun fractions :: "context_profile \<Rightarrow> profile_fractions" where
  "fractions Aggressive =
     \<lparr> pf_warn = lit (45/100), pf_reduce = lit (55/100), pf_compact = lit (65/100),
       pf_recent_target = lit (15/100), pf_working_cap_tokens = 32000 \<rparr>"
| "fractions Balanced =
     \<lparr> pf_warn = lit (60/100), pf_reduce = lit (70/100), pf_compact = lit (80/100),
       pf_recent_target = lit (25/100), pf_working_cap_tokens = 64000 \<rparr>"
| "fractions Relaxed =
     \<lparr> pf_warn = lit (75/100), pf_reduce = lit (82/100), pf_compact = lit (90/100),
       pf_recent_target = lit (35/100), pf_working_cap_tokens = 96000 \<rparr>"

definition constrained_window_tokens :: u64 where
  "constrained_window_tokens = 64000"

definition large_window_tokens :: u64 where
  "large_window_tokens = 192000"

record context_thresholds =
  warn_tokens :: u64
  reduce_tokens :: u64
  compact_tokens :: u64
  checkpoint_tokens :: u64
  recent_target_tokens :: u64

definition normalized_for_window :: "u64 \<Rightarrow> context_thresholds \<Rightarrow> context_thresholds" where
  "normalized_for_window window t =
     (if window < 3
      then \<lparr> warn_tokens = 0, reduce_tokens = 0, compact_tokens = 0, checkpoint_tokens = 0,
             recent_target_tokens = 0 \<rparr>
      else let compact = clamp (compact_tokens t) 1 (window - 2);
               reduce = min (reduce_tokens t) compact;
               warn = min (warn_tokens t) reduce
           in \<lparr> warn_tokens = warn, reduce_tokens = reduce, compact_tokens = compact,
                checkpoint_tokens = clamp (checkpoint_tokens t) (compact + 1) (window - 1),
                recent_target_tokens = min (recent_target_tokens t) (compact - 1) \<rparr>)"

definition raw_for_profile :: "context_profile \<Rightarrow> u64 \<Rightarrow> context_thresholds" where
  "raw_for_profile profile window =
     (let f = fractions profile;
          effective_window = u64_to_f64 (min window large_window_tokens);
          constrained = window \<le> constrained_window_tokens;
          compact_fraction = fsub (pf_compact f) (if constrained then lit (5/100) else 0);
          compact = min (fmul effective_window compact_fraction) (u64_to_f64 (pf_working_cap_tokens f));
          scaled = (\<lambda>fraction.
            f64_to_u64 (fmul compact (clamp (fdiv fraction (pf_compact f)) (lit (5/100)) (lit (3/2)))))
      in \<lparr> warn_tokens = scaled (pf_warn f), reduce_tokens = scaled (pf_reduce f),
           compact_tokens = f64_to_u64 compact,
           checkpoint_tokens = f64_to_u64 compact + max (f64_to_u64 compact div 10) 4096,
           recent_target_tokens =
             f64_to_u64 (fmul (min effective_window (u64_to_f64 (pf_working_cap_tokens f)))
               (pf_recent_target f)) \<rparr>)"

definition for_profile :: "context_profile \<Rightarrow> u64 \<Rightarrow> context_thresholds" where
  "for_profile profile window = normalized_for_window window (raw_for_profile profile window)"

record context_overrides =
  ov_warn_tokens :: "u64 option"
  ov_reduce_tokens :: "u64 option"
  ov_compact_tokens :: "u64 option"
  ov_checkpoint_tokens :: "u64 option"
  ov_recent_target_tokens :: "u64 option"

definition no_overrides :: context_overrides where
  "no_overrides =
     \<lparr> ov_warn_tokens = None, ov_reduce_tokens = None, ov_compact_tokens = None,
       ov_checkpoint_tokens = None, ov_recent_target_tokens = None \<rparr>"

definition with_overrides ::
    "context_overrides \<Rightarrow> u64 \<Rightarrow> context_thresholds \<Rightarrow> context_thresholds \<times> bool" where
  "with_overrides ov window t =
     (let requested =
            \<lparr> warn_tokens = unwrap_or (warn_tokens t) (ov_warn_tokens ov),
              reduce_tokens = unwrap_or (reduce_tokens t) (ov_reduce_tokens ov),
              compact_tokens = unwrap_or (compact_tokens t) (ov_compact_tokens ov),
              checkpoint_tokens = unwrap_or (checkpoint_tokens t) (ov_checkpoint_tokens ov),
              recent_target_tokens = unwrap_or (recent_target_tokens t) (ov_recent_target_tokens ov) \<rparr>;
          normalized = normalized_for_window window requested
      in (normalized, normalized \<noteq> requested))"

fun compaction_cooldown_ms :: "context_level \<Rightarrow> u64" where
  "compaction_cooldown_ms L0Payload = 0"
| "compaction_cooldown_ms L1Ordinary = 30000"
| "compaction_cooldown_ms L2Phase = 60000"
| "compaction_cooldown_ms L3Checkpoint = 120000"

subsection \<open>The threshold ladder\<close>

definition ladder :: "u64 \<Rightarrow> context_thresholds \<Rightarrow> bool" where
  "ladder window t \<longleftrightarrow>
     warn_tokens t \<le> reduce_tokens t \<and> reduce_tokens t \<le> compact_tokens t
     \<and> compact_tokens t < checkpoint_tokens t \<and> checkpoint_tokens t < window
     \<and> recent_target_tokens t < compact_tokens t"

lemma normalized_eq:
  assumes "3 \<le> window" and "c = clamp (compact_tokens t) 1 (window - 2)"
  shows "normalized_for_window window t =
     \<lparr> warn_tokens = min (warn_tokens t) (min (reduce_tokens t) c),
       reduce_tokens = min (reduce_tokens t) c, compact_tokens = c,
       checkpoint_tokens = clamp (checkpoint_tokens t) (c + 1) (window - 1),
       recent_target_tokens = min (recent_target_tokens t) (c - 1) \<rparr>"
  using assms(1) unfolding normalized_for_window_def Let_def assms(2) [symmetric] by simp

lemma normalized_ladder: "3 \<le> window \<Longrightarrow> ladder window (normalized_for_window window t)"
proof -
  assume w: "3 \<le> window"
  define c where "c = clamp (compact_tokens t) 1 (window - 2)"
  have c: "1 \<le> c" "c \<le> window - 2"
    unfolding c_def using w by (auto intro: clamp_ge clamp_le)
  then have "c + 1 \<le> clamp (checkpoint_tokens t) (c + 1) (window - 1)"
    and "clamp (checkpoint_tokens t) (c + 1) (window - 1) \<le> window - 1"
    using w by (auto intro!: clamp_ge clamp_le)
  with c w show ?thesis
    by (auto simp: ladder_def normalized_eq [OF w c_def])
qed

lemma normalized_fixed:
  assumes "ladder window t"
  shows "normalized_for_window window t = t"
proof -
  have w: "3 \<le> window" using assms by (auto simp: ladder_def)
  have c: "compact_tokens t = clamp (compact_tokens t) 1 (window - 2)"
    using assms by (subst clamp_id) (auto simp: ladder_def)
  have k: "clamp (checkpoint_tokens t) (compact_tokens t + 1) (window - 1) = checkpoint_tokens t"
    using assms by (intro clamp_id) (auto simp: ladder_def)
  have m: "min (recent_target_tokens t) (compact_tokens t - 1) = recent_target_tokens t"
    and m2: "min (reduce_tokens t) (compact_tokens t) = reduce_tokens t"
    and m3: "min (warn_tokens t) (reduce_tokens t) = warn_tokens t"
    using assms by (auto simp: ladder_def)
  show ?thesis
    unfolding normalized_eq [OF w c] k m m2 m3 by simp
qed

lemma normalized_idem:
  "normalized_for_window window (normalized_for_window window t) = normalized_for_window window t"
proof (cases "3 \<le> window")
  case True
  then show ?thesis by (rule normalized_fixed [OF normalized_ladder])
next
  case False
  then show ?thesis by (simp add: normalized_for_window_def)
qed

section \<open>The built-in policy\<close>

record profile_policy =
  pp_profile :: context_profile
  pp_thresholds :: context_thresholds
  pp_overrides :: context_overrides
  pp_reference_window :: u64

definition new_policy :: "context_profile \<Rightarrow> u64 \<Rightarrow> profile_policy" where
  "new_policy profile window =
     \<lparr> pp_profile = profile, pp_thresholds = for_profile profile window,
       pp_overrides = no_overrides, pp_reference_window = window \<rparr>"

definition policy_with_overrides :: "context_overrides \<Rightarrow> profile_policy \<Rightarrow> profile_policy" where
  "policy_with_overrides ov p = p\<lparr>pp_overrides := ov\<rparr>"

definition base_thresholds_for_window :: "profile_policy \<Rightarrow> u64 \<Rightarrow> context_thresholds" where
  "base_thresholds_for_window p window =
     (if window = pp_reference_window p then pp_thresholds p
      else for_profile (pp_profile p) window)"

definition thresholds_with_status :: "profile_policy \<Rightarrow> u64 \<Rightarrow> context_thresholds \<times> bool" where
  "thresholds_with_status p window =
     with_overrides (pp_overrides p) window (base_thresholds_for_window p window)"

definition thresholds_for_window :: "profile_policy \<Rightarrow> u64 \<Rightarrow> context_thresholds" where
  "thresholds_for_window p window = fst (thresholds_with_status p window)"

definition configuration_warning :: "profile_policy \<Rightarrow> context_state \<Rightarrow> string option" where
  "configuration_warning p s =
     (if cs_window s < 3
      then Some (''active context window '' @ show_nat (cs_window s)
             @ '' is too small to form an ordered threshold ladder'')
      else let (t, adjusted) = thresholds_with_status p (cs_window s)
           in if adjusted
              then Some (''context overrides were clamped for the active '' @ show_nat (cs_window s)
                @ ''-token window (warn '' @ show_nat (warn_tokens t)
                @ '', reduce '' @ show_nat (reduce_tokens t)
                @ '', compact '' @ show_nat (compact_tokens t)
                @ '', checkpoint '' @ show_nat (checkpoint_tokens t)
                @ '', recent target '' @ show_nat (recent_target_tokens t) @ '')'')
              else None)"

definition decision :: "context_action \<Rightarrow> u64 \<Rightarrow> context_level option \<Rightarrow> context_decision" where
  "decision a tokens level = \<lparr> cd_action = a, cd_tokens = tokens, cd_level = level \<rparr>"

definition evaluate :: "profile_policy \<Rightarrow> context_state \<Rightarrow> context_decision" where
  "evaluate p s =
     (let tokens = effective_tokens s
      in if cs_window s < 3
         then decision (Refuse ''active context window is too small to form valid policy thresholds'')
                tokens None
         else let t = thresholds_for_window p (cs_window s)
      in if cs_overflow_observed s then
           (if compact_tokens t < tokens \<and> cs_at_safe_boundary s
            then decision (Compact L1Ordinary ''provider reported context overflow''
                   (recent_target_tokens t)) tokens (Some L1Ordinary)
            else decision (Refuse (''request exceeds the active context window ('' @ show_nat tokens
                   @ '' > '' @ show_nat (compact_tokens t) @ '' tokens); compact before continuing''))
                   tokens None)
         else if checkpoint_tokens t \<le> tokens then
           (if cs_at_safe_boundary s
               \<and> compaction_cooldown_ms L3Checkpoint \<le> cs_since_last_compaction_ms s
            then decision (SuggestCheckpoint (''working context at '' @ show_nat tokens @ '' of ''
                   @ show_nat (checkpoint_tokens t) @ '' tokens'')) tokens (Some L3Checkpoint)
            else decision (Warn tokens (checkpoint_tokens t)) tokens None)
         else if compact_tokens t \<le> tokens then
           (if cs_at_safe_boundary s
               \<and> compaction_cooldown_ms L1Ordinary \<le> cs_since_last_compaction_ms s
            then decision (Compact L1Ordinary (''context '' @ show_nat tokens
                   @ '' exceeds compact threshold '' @ show_nat (compact_tokens t))
                   (recent_target_tokens t)) tokens (Some L1Ordinary)
            else decision (Warn tokens (compact_tokens t)) tokens None)
         else if reduce_tokens t \<le> tokens \<or> recent_target_tokens t < cs_recent_tokens s then
           decision (ReducePayload (RecentTargetExceeded (recent_target_tokens t)))
             tokens (Some L0Payload)
         else if warn_tokens t \<le> tokens then
           decision (Warn tokens (warn_tokens t)) tokens None
         else decision Keep tokens None)"

lemma decision_sel [simp]:
  "cd_action (decision a n l) = a" "cd_tokens (decision a n l) = n" "cd_level (decision a n l) = l"
  by (simp_all add: decision_def)

lemma policy_ladder: "3 \<le> w \<Longrightarrow> ladder w (thresholds_for_window p w)"
  by (simp add: thresholds_for_window_def thresholds_with_status_def with_overrides_def Let_def
      normalized_ladder)

lemma status_iff_outside_ladder:
  assumes "3 \<le> window"
  shows "snd (with_overrides ov window t) = False \<longleftrightarrow>
     (fst (with_overrides ov window t) =
        \<lparr> warn_tokens = unwrap_or (warn_tokens t) (ov_warn_tokens ov),
          reduce_tokens = unwrap_or (reduce_tokens t) (ov_reduce_tokens ov),
          compact_tokens = unwrap_or (compact_tokens t) (ov_compact_tokens ov),
          checkpoint_tokens = unwrap_or (checkpoint_tokens t) (ov_checkpoint_tokens ov),
          recent_target_tokens = unwrap_or (recent_target_tokens t) (ov_recent_target_tokens ov) \<rparr>)"
  by (auto simp: with_overrides_def Let_def)

section \<open>The contract of a context policy\<close>

text \<open>
  The trait \<open>ContextPolicy\<close> with what its documentation promises the runtime: a structural
  action is recommended only where history may be rewritten, compaction has a target below
  the current size, and the decision carries the tokens it was taken on.
\<close>

locale context_policy =
  fixes evaluate_policy :: "context_state \<Rightarrow> context_decision"
  assumes reports_tokens: "cd_tokens (evaluate_policy s) = effective_tokens s"
    and compact_at_boundary:
      "cd_action (evaluate_policy s) = Compact l r n \<Longrightarrow> cs_at_safe_boundary s"
    and checkpoint_at_boundary:
      "cd_action (evaluate_policy s) = SuggestCheckpoint r \<Longrightarrow> cs_at_safe_boundary s"
    and compact_shrinks:
      "cd_action (evaluate_policy s) = Compact l r n \<Longrightarrow> n < effective_tokens s"
    and structural_level:
      "cd_level (evaluate_policy s) = Some l \<Longrightarrow> requires_safe_boundary l \<Longrightarrow>
       (\<exists>r n. cd_action (evaluate_policy s) = Compact l r n)
       \<or> (\<exists>r. cd_action (evaluate_policy s) = SuggestCheckpoint r)"
begin

lemma structural_only_at_boundary:
  "cd_level (evaluate_policy s) = Some l \<Longrightarrow> requires_safe_boundary l \<Longrightarrow> cs_at_safe_boundary s"
  using structural_level compact_at_boundary checkpoint_at_boundary by blast

text \<open>Compacting to the target strictly reduces the measured size, so it cannot repeat forever.\<close>

lemma compaction_progress:
  assumes "cd_action (evaluate_policy s) = Compact l r n"
    and "cs_measured_tokens s' = Some n"
  shows "effective_tokens s' < effective_tokens s"
  using compact_shrinks [OF assms(1)] assms(2) by (simp add: effective_tokens_def)

end

interpretation profile: context_policy "evaluate p" for p :: profile_policy
proof unfold_locales
  fix s l r n
  show "cd_tokens (evaluate p s) = effective_tokens s"
    by (simp add: evaluate_def Let_def)
  show "cs_at_safe_boundary s" if "cd_action (evaluate p s) = Compact l r n"
    using that by (auto simp: evaluate_def Let_def split: if_splits)
  show "cs_at_safe_boundary s" if "cd_action (evaluate p s) = SuggestCheckpoint r"
    using that by (auto simp: evaluate_def Let_def split: if_splits)
  show "n < effective_tokens s" if "cd_action (evaluate p s) = Compact l r n"
    using that policy_ladder [of "cs_window s" p]
    by (auto simp: evaluate_def Let_def ladder_def split: if_splits)
  show "(\<exists>r n. cd_action (evaluate p s) = Compact l r n)
       \<or> (\<exists>r. cd_action (evaluate p s) = SuggestCheckpoint r)"
    if "cd_level (evaluate p s) = Some l" and "requires_safe_boundary l"
    using that by (auto simp: evaluate_def Let_def requires_safe_boundary_def split: if_splits)
qed

section \<open>Large windows\<close>

lemma raw_compact_le: "compact_tokens (raw_for_profile profile window) \<le> pf_working_cap_tokens (fractions profile)"
proof -
  have "pf_working_cap_tokens (fractions profile) \<le> 2 ^ 53" by (cases profile) simp_all
  then show ?thesis
    unfolding raw_for_profile_def Let_def
    by (simp only: context_thresholds.select_convs u64_to_f64_exact)
      (rule f64_to_u64_le, rule min.cobounded2)
qed

lemma raw_checkpoint: "checkpoint_tokens (raw_for_profile profile window) =
    compact_tokens (raw_for_profile profile window)
    + max (compact_tokens (raw_for_profile profile window) div 10) 4096"
  by (simp only: raw_for_profile_def Let_def context_thresholds.select_convs)

lemma working_cap_le: "pf_working_cap_tokens (fractions profile) \<le> 96000"
  by (cases profile) simp_all

lemma raw_large: "large_window_tokens \<le> w \<Longrightarrow> raw_for_profile p w = raw_for_profile p large_window_tokens"
proof -
  assume w: "large_window_tokens \<le> w"
  then have "min w large_window_tokens = min large_window_tokens large_window_tokens"
    and "(w \<le> constrained_window_tokens) = (large_window_tokens \<le> constrained_window_tokens)"
    by (simp_all add: large_window_tokens_def constrained_window_tokens_def)
  then show ?thesis unfolding raw_for_profile_def by (simp only: Let_def)
qed

lemma normalized_window_irrelevant:
  assumes "compact_tokens t \<le> 96000" and "checkpoint_tokens t \<le> 105600"
    and "192000 \<le> w" and "192000 \<le> v"
  shows "normalized_for_window w t = normalized_for_window v t"
  using assms unfolding normalized_for_window_def Let_def clamp_def by simp

section \<open>Properties\<close>

text \<open>A policy with a plain ladder, and a state in its window with a given size.\<close>

definition plain_policy :: profile_policy where
  "plain_policy =
     \<lparr> pp_profile = Balanced,
       pp_thresholds = \<lparr> warn_tokens = 100, reduce_tokens = 200, compact_tokens = 300,
                         checkpoint_tokens = 400, recent_target_tokens = 50 \<rparr>,
       pp_overrides = no_overrides, pp_reference_window = 1000 \<rparr>"

definition plain_state :: "u64 \<Rightarrow> context_state" where
  "plain_state tokens =
     (zero_state 1000)\<lparr>cs_estimated_tokens := tokens, cs_since_last_compaction_ms := 200000\<rparr>"

lemma plain_thresholds: "thresholds_for_window plain_policy 1000 = pp_thresholds plain_policy"
  by (simp add: thresholds_for_window_def thresholds_with_status_def with_overrides_def Let_def
      base_thresholds_for_window_def plain_policy_def no_overrides_def normalized_for_window_def
      clamp_def)

lemmas plain_defs = plain_state_def zero_state_def effective_tokens_def

lemma plain_compacts:
  "\<exists>r. cd_action (evaluate plain_policy (plain_state 350)) = Compact L1Ordinary r 50"
  "cd_level (evaluate plain_policy (plain_state 350)) = Some L1Ordinary"
  by (simp_all add: evaluate_def Let_def plain_defs plain_thresholds) (simp_all add: plain_policy_def)

text \<open>The thresholds the overrides ask for, before normalization.\<close>

definition requested_thresholds :: "context_overrides \<Rightarrow> context_thresholds \<Rightarrow> context_thresholds" where
  "requested_thresholds ov t =
     \<lparr> warn_tokens = unwrap_or (warn_tokens t) (ov_warn_tokens ov),
       reduce_tokens = unwrap_or (reduce_tokens t) (ov_reduce_tokens ov),
       compact_tokens = unwrap_or (compact_tokens t) (ov_compact_tokens ov),
       checkpoint_tokens = unwrap_or (checkpoint_tokens t) (ov_checkpoint_tokens ov),
       recent_target_tokens = unwrap_or (recent_target_tokens t) (ov_recent_target_tokens ov) \<rparr>"

lemma with_overrides_exact:
  assumes "3 \<le> window"
  shows "with_overrides ov window t =
    (normalized_for_window window (requested_thresholds ov t),
     \<not> ladder window (requested_thresholds ov t))"
  using normalized_fixed [of window "requested_thresholds ov t"]
    normalized_ladder [OF assms, of "requested_thresholds ov t"]
  by (auto simp: with_overrides_def Let_def requested_thresholds_def)

text \<open>
  Whatever the profile, the overrides and the window (of at least three tokens), the
  thresholds in force form the ordered ladder warn, reduce, compact, checkpoint below the
  window, with the recent target below compaction; a requested ladder is used as it is, and the
  adjustment is reported exactly when the request is not a ladder.
\<close>

theorem thresholds_form_ladder:
  fixes p :: profile_policy
  assumes "3 \<le> window"
  defines "requested \<equiv> requested_thresholds (pp_overrides p) (base_thresholds_for_window p window)"
  shows "ladder window (thresholds_for_window p window)
    \<and> (snd (thresholds_with_status p window) \<longleftrightarrow> \<not> ladder window requested)
    \<and> (ladder window requested \<longrightarrow> thresholds_for_window p window = requested)"
  using policy_ladder [OF assms(1)] normalized_fixed [of window requested]
  by (simp add: thresholds_for_window_def thresholds_with_status_def with_overrides_exact [OF assms(1)]
      requested_def)

theorem thresholds_form_ladder_witness:
  "ladder 1000 (thresholds_for_window plain_policy 1000)
    \<and> thresholds_for_window plain_policy 1000 =
        requested_thresholds (pp_overrides plain_policy) (base_thresholds_for_window plain_policy 1000)"
proof -
  have "ladder 1000 (requested_thresholds (pp_overrides plain_policy)
      (base_thresholds_for_window plain_policy 1000))"
    by (simp add: ladder_def requested_thresholds_def base_thresholds_for_window_def plain_policy_def
        no_overrides_def)
  then show ?thesis using thresholds_form_ladder [of 1000 plain_policy] by simp
qed

text \<open>
  C27: a profile derives the same thresholds for every window of at least 192000 tokens, so the
  working context of a session does not grow with the advertised window.
\<close>

theorem large_windows_share_thresholds:
  assumes "large_window_tokens \<le> w" and "large_window_tokens \<le> v"
  shows "for_profile profile w = for_profile profile v"
proof -
  let ?t = "raw_for_profile profile large_window_tokens"
  have c: "compact_tokens ?t \<le> 96000"
    using raw_compact_le working_cap_le by (rule order_trans)
  then have k: "checkpoint_tokens ?t \<le> 105600" unfolding raw_checkpoint by linarith
  show ?thesis
    unfolding for_profile_def raw_large [OF assms(1)] raw_large [OF assms(2)]
    using assms by (intro normalized_window_irrelevant [OF c k]) (simp_all add: large_window_tokens_def)
qed

theorem large_windows_share_thresholds_witness:
  "for_profile Relaxed 200000 = for_profile Relaxed 1000000"
  by (rule large_windows_share_thresholds) (simp_all add: large_window_tokens_def)

text \<open>
  C37: the built-in policy recommends an action that rewrites history only at a safe boundary,
  and, unless the provider reported an overflow, only after the cooldown of the action's level.
\<close>

theorem structural_actions_guarded:
  assumes "cd_level (evaluate p s) = Some l" and "requires_safe_boundary l"
  shows "cs_at_safe_boundary s
    \<and> (cs_overflow_observed s \<or> compaction_cooldown_ms l \<le> cs_since_last_compaction_ms s)"
proof
  show "cs_at_safe_boundary s" using assms by (rule profile.structural_only_at_boundary)
  show "cs_overflow_observed s \<or> compaction_cooldown_ms l \<le> cs_since_last_compaction_ms s"
    using assms by (auto simp: evaluate_def Let_def requires_safe_boundary_def split: if_splits)
qed

theorem structural_actions_guarded_witness:
  "cs_at_safe_boundary (plain_state 350)
    \<and> (cs_overflow_observed (plain_state 350)
       \<or> compaction_cooldown_ms L1Ordinary \<le> cs_since_last_compaction_ms (plain_state 350))"
  by (rule structural_actions_guarded [OF plain_compacts(2)]) (simp add: requires_safe_boundary_def)

text \<open>
  C36: a recommended compaction makes progress: its target is below the present size, and a
  state in the same window at or below the target, with no overflow reported, is not asked to
  compact or to checkpoint again.
\<close>

theorem compaction_settles:
  assumes "cd_action (evaluate p s) = Compact l r n"
    and "cs_window s' = cs_window s" and "effective_tokens s' \<le> n" and "\<not> cs_overflow_observed s'"
  shows "n < effective_tokens s
    \<and> (\<forall>l r m. cd_action (evaluate p s') \<noteq> Compact l r m)
    \<and> (\<forall>r. cd_action (evaluate p s') \<noteq> SuggestCheckpoint r)"
proof -
  have w: "3 \<le> cs_window s" and n: "n = recent_target_tokens (thresholds_for_window p (cs_window s))"
    using assms(1) by (auto simp: evaluate_def Let_def split: if_splits)
  with assms(2-) policy_ladder [OF w, of p]
  have "effective_tokens s' < compact_tokens (thresholds_for_window p (cs_window s'))"
    and "effective_tokens s' < checkpoint_tokens (thresholds_for_window p (cs_window s'))"
    by (auto simp: ladder_def)
  then show ?thesis
    using profile.compact_shrinks [OF assms(1)] assms(4) by (auto simp: evaluate_def Let_def)
qed

theorem compaction_settles_witness:
  "50 < effective_tokens (plain_state 350)
    \<and> (\<forall>l r m. cd_action (evaluate plain_policy (plain_state 40)) \<noteq> Compact l r m)
    \<and> (\<forall>r. cd_action (evaluate plain_policy (plain_state 40)) \<noteq> SuggestCheckpoint r)"
proof -
  from plain_compacts(1) obtain r
    where r: "cd_action (evaluate plain_policy (plain_state 350)) = Compact L1Ordinary r 50" by blast
  show ?thesis by (rule compaction_settles [OF r]) (simp_all add: plain_defs)
qed

text \<open>How strongly a decision asks for a smaller context.\<close>

fun severity :: "context_action \<Rightarrow> nat" where
  "severity Keep = 0"
| "severity (Warn _ _) = 1"
| "severity (ReducePayload _) = 2"
| "severity (Compact _ _ _) = 3"
| "severity (SuggestCheckpoint _) = 4"
| "severity (Refuse _) = 5"

text \<open>
  C26: with every level's cooldown elapsed and at a safe boundary, more measured tokens never
  lead to a weaker recommendation.
\<close>

theorem pressure_is_monotone:
  assumes "3 \<le> cs_window s" and "cs_at_safe_boundary s" and "\<not> cs_overflow_observed s"
    and "compaction_cooldown_ms L3Checkpoint \<le> cs_since_last_compaction_ms s" and "n \<le> m"
  shows "severity (cd_action (evaluate p (s\<lparr>cs_measured_tokens := Some n\<rparr>)))
       \<le> severity (cd_action (evaluate p (s\<lparr>cs_measured_tokens := Some m\<rparr>)))"
  using assms policy_ladder [OF assms(1), of p]
  by (simp add: evaluate_def Let_def effective_tokens_def ladder_def)

theorem pressure_is_monotone_witness:
  "severity (cd_action (evaluate plain_policy ((plain_state 0)\<lparr>cs_measured_tokens := Some 150\<rparr>)))
   \<le> severity (cd_action (evaluate plain_policy ((plain_state 0)\<lparr>cs_measured_tokens := Some 450\<rparr>)))"
  by (rule pressure_is_monotone) (simp_all add: plain_defs)

end
