(* ===== verification/Adaptive_Context.thy ===== *)
theory Adaptive_Context
  imports Context_Policy
begin

text \<open>
  \<open>crates/rupi-experiments/src/context.rs\<close>: latency samples, the knee detector and the
  adaptive context policy, which may only lower the thresholds of the built-in policy.
\<close>

section \<open>Samples and the knee detector\<close>

record latency_sample =
  ls_tokens :: u64
  ls_first_delta_ms :: u64
  ls_duration_ms :: u64
  ls_model :: "string option"

record knee_point =
  kp_tokens :: u64
  kp_slope_before :: rat
  kp_slope_after :: rat
  kp_acceleration_ratio :: rat

record knee_detector =
  kd_samples :: "latency_sample list"
  kd_min_samples :: usize
  kd_ratio_threshold :: rat

definition default_detector :: knee_detector where
  "default_detector =
     \<lparr> kd_samples = [], kd_min_samples = 4, kd_ratio_threshold = f64_round (18/10) \<rparr>"

definition add_sample :: "latency_sample \<Rightarrow> knee_detector \<Rightarrow> knee_detector" where
  "add_sample s d = d\<lparr>kd_samples := kd_samples d @ [s]\<rparr>"

text \<open>\<open>(a + b) / 2\<close> on \<open>u64\<close>; the release profile wraps.\<close>

definition average_u64 :: "u64 \<Rightarrow> u64 \<Rightarrow> u64" where
  "average_u64 a b = ((a + b) mod (u64_max + 1)) div 2"

text \<open>
  The deduplication loop. The accumulator is the output so far, last element first, so that
  \<open>last_mut\<close> is its head.
\<close>

fun dedup_loop :: "latency_sample list \<Rightarrow> latency_sample list \<Rightarrow> latency_sample list" where
  "dedup_loop acc [] = rev acc"
| "dedup_loop [] (s # ss) = dedup_loop [s] ss"
| "dedup_loop (l # acc) (s # ss) =
     (if ls_tokens l = ls_tokens s
      then dedup_loop (l\<lparr>ls_first_delta_ms := average_u64 (ls_first_delta_ms l) (ls_first_delta_ms s),
                         ls_duration_ms := average_u64 (ls_duration_ms l) (ls_duration_ms s)\<rparr> # acc) ss
      else dedup_loop (s # l # acc) ss)"

fun segment_slopes :: "latency_sample list \<Rightarrow> (u64 \<times> rat) list" where
  "segment_slopes (a # b # ss) =
     (let d_tokens = ls_tokens b - ls_tokens a;
          rest = segment_slopes (b # ss)
      in if d_tokens = 0 then rest
         else (let d_ms = fsub (u64_to_f64 (ls_first_delta_ms b)) (u64_to_f64 (ls_first_delta_ms a));
                   slope = fmul (fdiv d_ms (u64_to_f64 d_tokens)) 1000
               in (ls_tokens b, slope) # rest))"
| "segment_slopes _ = []"

definition slope_before_at :: "(u64 \<times> rat) list \<Rightarrow> nat \<Rightarrow> rat" where
  "slope_before_at slopes i =
     max (fdiv (foldl fadd 0 (map snd (take i slopes))) (u64_to_f64 i)) (f64_round (1/100))"

text \<open>One round of the search loop at index \<open>i\<close> on the state \<open>(max_ratio, best_knee)\<close>.\<close>

definition knee_step ::
    "(u64 \<times> rat) list \<Rightarrow> nat \<Rightarrow> rat \<times> knee_point option \<Rightarrow> rat \<times> knee_point option" where
  "knee_step slopes i st =
     (let slope_before = slope_before_at slopes i; slope_after = snd (slopes ! i)
      in if slope_after \<le> slope_before then st
         else let ratio = fdiv slope_after slope_before
              in if fst st \<le> ratio
                 then (ratio, Some \<lparr> kp_tokens = fst (slopes ! (i - 1)), kp_slope_before = slope_before,
                                     kp_slope_after = slope_after, kp_acceleration_ratio = ratio \<rparr>)
                 else st)"

definition detect_knee_for_model :: "string option \<Rightarrow> knee_detector \<Rightarrow> knee_point option" where
  "detect_knee_for_model model d =
     (let samples = filter (\<lambda>s. ls_model s = model) (kd_samples d)
      in if length samples < kd_min_samples d then None
         else let deduped = dedup_loop [] (sort_key ls_tokens samples)
      in if length deduped < kd_min_samples d then None
         else let slopes = segment_slopes deduped
      in if length slopes < 2 then None
         else snd (fold (knee_step slopes) [1..<length slopes] (kd_ratio_threshold d, None)))"

definition detect_knee :: "knee_detector \<Rightarrow> knee_point option" where
  "detect_knee d =
     (case kd_samples d of
        [] \<Rightarrow> None
      | s # _ \<Rightarrow>
          (if list_ex (\<lambda>x. ls_model x \<noteq> ls_model s) (kd_samples d) then None
           else detect_knee_for_model (ls_model s) d))"

section \<open>The adaptive policy\<close>

definition cap_thresholds :: "context_thresholds \<Rightarrow> knee_point \<Rightarrow> context_thresholds" where
  "cap_thresholds t knee =
     (if compact_tokens t \<le> kp_tokens knee then t
      else let cap = kp_tokens knee;
               scale = fdiv (u64_to_f64 cap) (u64_to_f64 (compact_tokens t))
           in \<lparr> warn_tokens = f64_to_u64 (fmul (u64_to_f64 (warn_tokens t)) scale),
                reduce_tokens = f64_to_u64 (fmul (u64_to_f64 (reduce_tokens t)) scale),
                compact_tokens = cap,
                checkpoint_tokens = min (checkpoint_tokens t) (sat_add u64_max cap (max (cap div 10) 2048)),
                recent_target_tokens =
                  f64_to_u64 (fmul (u64_to_f64 (recent_target_tokens t)) scale) \<rparr>)"

record adaptive_policy =
  ap_base :: profile_policy
  ap_thresholds :: context_thresholds
  ap_knee :: "knee_point option"
  ap_knee_model :: "string option"
  ap_enabled :: bool

definition new_adaptive :: "context_profile \<Rightarrow> u64 \<Rightarrow> bool \<Rightarrow> adaptive_policy" where
  "new_adaptive profile window enabled =
     (let base = new_policy profile window
      in \<lparr> ap_base = base, ap_thresholds = pp_thresholds base, ap_knee = None,
           ap_knee_model = None, ap_enabled = enabled \<rparr>)"

definition apply_knee :: "knee_point \<Rightarrow> adaptive_policy \<Rightarrow> adaptive_policy" where
  "apply_knee knee p =
     (let window = pp_reference_window (ap_base p)
      in p\<lparr>ap_knee := Some knee,
           ap_thresholds := normalized_for_window window
             (cap_thresholds (thresholds_for_window (ap_base p) window) knee)\<rparr>)"

definition adaptive_with_overrides :: "context_overrides \<Rightarrow> adaptive_policy \<Rightarrow> adaptive_policy" where
  "adaptive_with_overrides ov p =
     (let base = policy_with_overrides ov (ap_base p);
          p1 = p\<lparr>ap_base := base,
                 ap_thresholds := thresholds_for_window base (pp_reference_window base)\<rparr>
      in case ap_knee p1 of None \<Rightarrow> p1 | Some knee \<Rightarrow> apply_knee knee p1)"

definition with_detector :: "knee_detector \<Rightarrow> adaptive_policy \<Rightarrow> adaptive_policy" where
  "with_detector d p =
     (if \<not> ap_enabled p then p
      else case kd_samples d of
        [] \<Rightarrow> p
      | s # _ \<Rightarrow>
          (if list_ex (\<lambda>x. ls_model x \<noteq> ls_model s) (kd_samples d) then p
           else case detect_knee_for_model (ls_model s) d of
             None \<Rightarrow> p
           | Some knee \<Rightarrow> apply_knee knee (p\<lparr>ap_knee_model := ls_model s\<rparr>)))"

definition with_detector_for_model ::
    "knee_detector \<Rightarrow> model_ref \<Rightarrow> adaptive_policy \<Rightarrow> adaptive_policy" where
  "with_detector_for_model d m p =
     (if \<not> ap_enabled p then p
      else case detect_knee_for_model (Some (as_key m)) d of
        None \<Rightarrow> p
      | Some knee \<Rightarrow> apply_knee knee (p\<lparr>ap_knee_model := Some (as_key m)\<rparr>))"

definition effective_thresholds :: "adaptive_policy \<Rightarrow> context_thresholds" where
  "effective_thresholds p =
     (if ap_enabled p \<and> ap_knee p \<noteq> None then ap_thresholds p
      else thresholds_for_window (ap_base p) (pp_reference_window (ap_base p)))"

definition active_thresholds :: "adaptive_policy \<Rightarrow> context_state \<Rightarrow> context_thresholds" where
  "active_thresholds p s =
     (let static = thresholds_for_window (ap_base p) (cs_window s)
      in case ap_knee p of
           Some knee \<Rightarrow>
             (if map_option as_key (cs_model s) = ap_knee_model p \<and> ap_enabled p
              then normalized_for_window (cs_window s) (cap_thresholds static knee)
              else static)
         | None \<Rightarrow> static)"

definition adaptive_evaluate :: "adaptive_policy \<Rightarrow> context_state \<Rightarrow> context_decision" where
  "adaptive_evaluate p s =
     (let tokens = effective_tokens s
      in if cs_window s < 3
         then decision (Refuse ''active context window is too small to form valid policy thresholds'')
                tokens None
         else let t = active_thresholds p s;
                  reduce_payload = decision (ReducePayload (RecentTargetExceeded (recent_target_tokens t)))
                    tokens (Some L0Payload)
      in if cs_overflow_observed s then
           decision (Compact L1Ordinary ''uncommitted context overflow; compacting pre-turn history''
             (recent_target_tokens t)) tokens (Some L1Ordinary)
         else if checkpoint_tokens t \<le> tokens then
           (if cs_at_safe_boundary s
            then decision (SuggestCheckpoint (''context tokens ('' @ show_nat tokens
                   @ '') exceeded checkpoint threshold ('' @ show_nat (checkpoint_tokens t) @ '')''))
                   tokens (Some L3Checkpoint)
            else reduce_payload)
         else if compact_tokens t \<le> tokens then
           (if cs_at_safe_boundary s
            then decision (Compact L1Ordinary (''context tokens ('' @ show_nat tokens
                   @ '') exceeded compact threshold ('' @ show_nat (compact_tokens t) @ '')'')
                   (recent_target_tokens t)) tokens (Some L1Ordinary)
            else reduce_payload)
         else if reduce_tokens t \<le> tokens then reduce_payload
         else if warn_tokens t \<le> tokens then decision (Warn tokens (warn_tokens t)) tokens None
         else decision Keep tokens None)"

section \<open>Adaptation only lowers\<close>

definition thresholds_le :: "context_thresholds \<Rightarrow> context_thresholds \<Rightarrow> bool" where
  "thresholds_le t u \<longleftrightarrow>
     warn_tokens t \<le> warn_tokens u \<and> reduce_tokens t \<le> reduce_tokens u
     \<and> compact_tokens t \<le> compact_tokens u \<and> checkpoint_tokens t \<le> checkpoint_tokens u
     \<and> recent_target_tokens t \<le> recent_target_tokens u"

lemma fdiv_unit:
  assumes "a \<le> b" and "b \<le> 2 ^ 53"
  shows "0 \<le> fdiv (u64_to_f64 a) (u64_to_f64 b) \<and> fdiv (u64_to_f64 a) (u64_to_f64 b) \<le> 1"
proof -
  have "(of_nat a / of_nat b :: rat) \<le> 1" using assms(1) by (cases "b = 0") simp_all
  then have "f64_round (of_nat a / of_nat b) \<le> f64_round (of_nat 1)"
    by (intro f64_round_mono) auto
  moreover have "f64_round (of_nat 1) = 1" by (subst f64_round_nat) simp_all
  ultimately show ?thesis
    using assms by (simp add: fdiv_def f64_round_nonneg)
qed

lemma cap_le_static:
  assumes "ladder window t" and "window \<le> 2 ^ 53"
  shows "thresholds_le (cap_thresholds t knee) t"
proof (cases "compact_tokens t \<le> kp_tokens knee")
  case True
  then show ?thesis by (simp add: cap_thresholds_def thresholds_le_def)
next
  case False
  have small: "compact_tokens t \<le> 2 ^ 53" "warn_tokens t \<le> 2 ^ 53" "reduce_tokens t \<le> 2 ^ 53"
    "recent_target_tokens t \<le> 2 ^ 53"
    using assms by (auto simp: ladder_def)
  have s: "0 \<le> fdiv (u64_to_f64 (kp_tokens knee)) (u64_to_f64 (compact_tokens t))
      \<and> fdiv (u64_to_f64 (kp_tokens knee)) (u64_to_f64 (compact_tokens t)) \<le> 1"
    using False small(1) by (intro fdiv_unit) auto
  show ?thesis
    unfolding cap_thresholds_def thresholds_le_def Let_def
    using False s small by (simp add: scaled_count_le del: u64_to_f64_exact)
qed

lemma normalized_le:
  assumes "ladder window u" and "thresholds_le t u"
  shows "thresholds_le (normalized_for_window window t) u"
proof -
  have w: "3 \<le> window" using assms(1) by (auto simp: ladder_def)
  define c where "c = clamp (compact_tokens t) 1 (window - 2)"
  have c: "c \<le> compact_tokens u"
    unfolding c_def using assms by (auto simp: clamp_def ladder_def thresholds_le_def)
  then have "clamp (checkpoint_tokens t) (c + 1) (window - 1) \<le> checkpoint_tokens u"
    using assms by (auto simp: clamp_def ladder_def thresholds_le_def)
  with c assms show ?thesis
    by (auto simp: thresholds_le_def normalized_eq [OF w c_def])
qed

lemma thresholds_le_refl [simp]: "thresholds_le t t"
  by (simp add: thresholds_le_def)

lemma active_le_static:
  assumes "3 \<le> cs_window s" and "cs_window s \<le> 2 ^ 53"
  shows "thresholds_le (active_thresholds p s) (thresholds_for_window (ap_base p) (cs_window s))"
proof -
  note static = policy_ladder [OF assms(1), of "ap_base p"]
  show ?thesis
    using normalized_le [OF static cap_le_static [OF static assms(2)]]
    by (simp add: active_thresholds_def Let_def split: option.split)
qed

lemma active_ladder: "3 \<le> cs_window s \<Longrightarrow> ladder (cs_window s) (active_thresholds p s)"
  by (auto simp: active_thresholds_def Let_def normalized_ladder policy_ladder split: option.split)

text \<open>
  Away from an observed overflow the adaptive policy meets the contract of a context policy;
  the overflow branch does not, as a theorem of the root theory shows.
\<close>

interpretation adaptive: context_policy
  "\<lambda>s. adaptive_evaluate p (s\<lparr>cs_overflow_observed := False\<rparr>)" for p :: adaptive_policy
proof unfold_locales
  fix s :: context_state and l r n
  let ?s = "s\<lparr>cs_overflow_observed := False\<rparr>"
  show "cd_tokens (adaptive_evaluate p ?s) = effective_tokens s"
    by (simp add: adaptive_evaluate_def effective_tokens_def Let_def)
  show "cs_at_safe_boundary s" if "cd_action (adaptive_evaluate p ?s) = Compact l r n"
    using that by (auto simp: adaptive_evaluate_def Let_def split: if_splits)
  show "cs_at_safe_boundary s" if "cd_action (adaptive_evaluate p ?s) = SuggestCheckpoint r"
    using that by (auto simp: adaptive_evaluate_def Let_def split: if_splits)
  show "n < effective_tokens s" if "cd_action (adaptive_evaluate p ?s) = Compact l r n"
    using that active_ladder [of ?s p]
    by (auto simp: adaptive_evaluate_def Let_def ladder_def effective_tokens_def split: if_splits)
  show "(\<exists>r n. cd_action (adaptive_evaluate p ?s) = Compact l r n)
       \<or> (\<exists>r. cd_action (adaptive_evaluate p ?s) = SuggestCheckpoint r)"
    if "cd_level (adaptive_evaluate p ?s) = Some l" and "requires_safe_boundary l"
    using that by (auto simp: adaptive_evaluate_def Let_def requires_safe_boundary_def split: if_splits)
qed

section \<open>Properties\<close>

text \<open>
  the adaptive policy only ever lowers the working thresholds: for a window of at most
  \<open>2 ^ 53\<close> tokens (where the conversion to floating point is exact) each threshold in force is
  at most the built-in policy's, and together they are an ordered ladder below the window.
\<close>

theorem adaptation_only_lowers:
  assumes "3 \<le> cs_window s" and "cs_window s \<le> 2 ^ 53"
  shows "thresholds_le (active_thresholds p s) (thresholds_for_window (ap_base p) (cs_window s))
    \<and> ladder (cs_window s) (active_thresholds p s)"
  using active_le_static [OF assms] active_ladder [OF assms(1)] by blast

theorem adaptation_only_lowers_witness:
  "thresholds_le
     (active_thresholds (apply_knee \<lparr> kp_tokens = 200, kp_slope_before = 1, kp_slope_after = 3,
         kp_acceleration_ratio = 3 \<rparr> (new_adaptive Balanced 1000 True)) (plain_state 350))
     (thresholds_for_window (ap_base (apply_knee \<lparr> kp_tokens = 200, kp_slope_before = 1,
         kp_slope_after = 3, kp_acceleration_ratio = 3 \<rparr> (new_adaptive Balanced 1000 True)))
       (cs_window (plain_state 350)))
    \<and> ladder (cs_window (plain_state 350))
     (active_thresholds (apply_knee \<lparr> kp_tokens = 200, kp_slope_before = 1, kp_slope_after = 3,
         kp_acceleration_ratio = 3 \<rparr> (new_adaptive Balanced 1000 True)) (plain_state 350))"
  by (rule adaptation_only_lowers) (simp_all add: plain_defs)



end
