(* ===== verification/Context_Capsule.thy ===== *)
theory Context_Capsule
  imports Context_Policy
begin

text \<open>
  The rest of \<open>crates/rupi-core/src/context.rs\<close>: the structured capsule of a checkpoint and
  the references to external context.
\<close>

section \<open>Capsules\<close>

abbreviation nl :: string where
  "nl \<equiv> [CHR 0x0A]"

record capsule_decision =
  dec_decision :: string
  dec_rationale :: string

record capsule_artifact =
  art_path :: string
  art_note :: string

record context_capsule =
  cap_version :: u32
  cap_objective :: string
  cap_completed_work :: "string list"
  cap_decisions :: "capsule_decision list"
  cap_constraints :: "string list"
  cap_current_state :: string
  cap_artifacts :: "capsule_artifact list"
  cap_unresolved :: "string list"
  cap_next_actions :: "string list"

definition capsule_schema_version :: u32 where
  "capsule_schema_version = 1"

definition new_capsule :: "string \<Rightarrow> context_capsule" where
  "new_capsule objective =
     \<lparr> cap_version = capsule_schema_version, cap_objective = objective, cap_completed_work = [],
       cap_decisions = [], cap_constraints = [], cap_current_state = [], cap_artifacts = [],
       cap_unresolved = [], cap_next_actions = [] \<rparr>"

text \<open>One list section: a title line and one bullet line per item, nothing when empty.\<close>

definition bullet_section :: "string \<Rightarrow> string list \<Rightarrow> string" where
  "bullet_section title items =
     (if items = [] then []
      else title @ '':'' @ nl @ concat (map (\<lambda>i. ''  - '' @ i @ nl) items))"

definition format_capsule :: "context_capsule \<Rightarrow> string" where
  "format_capsule c =
     ''[Session Checkpoint Capsule]'' @ nl
     @ ''objective: '' @ trim (cap_objective c) @ nl
     @ bullet_section ''completed'' (map trim (cap_completed_work c))
     @ bullet_section ''decisions''
         (map (\<lambda>d. trim (dec_decision d) @ '': '' @ trim (dec_rationale d)) (cap_decisions c))
     @ bullet_section ''constraints'' (map trim (cap_constraints c))
     @ (if trim (cap_current_state c) = [] then []
        else ''current_state: '' @ trim (cap_current_state c) @ nl)
     @ bullet_section ''important_artifacts''
         (map (\<lambda>a. trim (art_path a) @ '': '' @ trim (art_note a)) (cap_artifacts c))
     @ bullet_section ''unresolved'' (map trim (cap_unresolved c))
     @ bullet_section ''next_actions'' (map trim (cap_next_actions c))
     @ ''[/Session Checkpoint Capsule]''"

lemma sublist_concat: "x \<in> set xs \<Longrightarrow> sublist x (concat xs)"
  by (metis concat.simps(2) concat_append split_list sublist_appendI)

lemma bullet_section_item: "i \<in> set items \<Longrightarrow> sublist (''  - '' @ i @ nl) (bullet_section title items)"
proof -
  assume i: "i \<in> set items"
  then have "sublist (''  - '' @ i @ nl) (concat (map (\<lambda>i. ''  - '' @ i @ nl) items))"
    by (intro sublist_concat) auto
  then have "sublist (''  - '' @ i @ nl)
      ((title @ '':'' @ nl) @ concat (map (\<lambda>i. ''  - '' @ i @ nl) items))"
    by (meson sublist_append_leftI sublist_order.order_trans)
  with i show ?thesis by (auto simp: bullet_section_def)
qed

section \<open>External context\<close>

record external_source =
  es_provider :: string
  es_resource_id :: string
  es_provenance :: string

definition display_source :: "external_source \<Rightarrow> string" where
  "display_source s = es_provenance s @ '':'' @ es_provider s @ '':'' @ es_resource_id s"

record external_ref =
  er_provider :: string
  er_resource_id :: string
  er_citation :: "string option"
  er_provenance :: string
  er_metadata :: "(string, string) btree"

record external_item =
  ei_source :: external_source
  ei_citation :: "string option"
  ei_text :: string
  ei_inline :: bool
  ei_metadata :: "(string, string) btree"

definition ref_source :: "external_ref \<Rightarrow> external_source" where
  "ref_source r =
     \<lparr> es_provider = er_provider r, es_resource_id = er_resource_id r,
       es_provenance = er_provenance r \<rparr>"

definition ref_with_metadata_value :: "string \<Rightarrow> string \<Rightarrow> external_ref \<Rightarrow> external_ref" where
  "ref_with_metadata_value k v r = r\<lparr>er_metadata := bt_insert k v (er_metadata r)\<rparr>"

definition item_inline :: "external_source \<Rightarrow> string \<Rightarrow> string option \<Rightarrow> external_item" where
  "item_inline source t citation =
     \<lparr> ei_source = source, ei_citation = citation, ei_text = t, ei_inline = True,
       ei_metadata = [] \<rparr>"

definition item_reference :: "external_source \<Rightarrow> string option \<Rightarrow> external_item" where
  "item_reference source citation =
     \<lparr> ei_source = source, ei_citation = citation, ei_text = [], ei_inline = False,
       ei_metadata = [] \<rparr>"

definition external_ref_of :: "external_item \<Rightarrow> external_ref" where
  "external_ref_of i =
     \<lparr> er_provider = es_provider (ei_source i), er_resource_id = es_resource_id (ei_source i),
       er_citation = ei_citation i, er_provenance = es_provenance (ei_source i),
       er_metadata = ei_metadata i \<rparr>"

definition compact_to_reference :: "external_item \<Rightarrow> external_item" where
  "compact_to_reference i =
     \<lparr> ei_source = ei_source i, ei_citation = ei_citation i, ei_text = [], ei_inline = False,
       ei_metadata = ei_metadata i \<rparr>"

definition rehydrate :: "external_ref \<Rightarrow> string \<Rightarrow> external_item" where
  "rehydrate r t =
     \<lparr> ei_source = ref_source r, ei_citation = er_citation r, ei_text = t, ei_inline = True,
       ei_metadata = er_metadata r \<rparr>"

definition format_item :: "external_item \<Rightarrow> string" where
  "format_item i =
     (if ei_inline i then
        (case ei_citation i of
           Some cit \<Rightarrow> ''[External context from '' @ display_source (ei_source i) @ '' ('' @ cit @ '')]''
             @ nl @ ei_text i @ nl @ ''[/External context]''
         | None \<Rightarrow> ''[External context from '' @ display_source (ei_source i) @ '']''
             @ nl @ ei_text i @ nl @ ''[/External context]'')
      else
        (case ei_citation i of
           Some cit \<Rightarrow> ''[External context reference: '' @ display_source (ei_source i)
             @ '' (citation: '' @ cit @ '')]''
         | None \<Rightarrow> ''[External context reference: '' @ display_source (ei_source i) @ '']''))"

lemmas external_defs [rupi_defs] =
  item_inline_def item_reference_def external_ref_of_def compact_to_reference_def rehydrate_def
  ref_source_def

lemma ref_of_compacted [simp]: "external_ref_of (compact_to_reference i) = external_ref_of i"
  by (simp add: rupi_defs)

lemma rehydrate_ref: "rehydrate (external_ref_of i) t = i\<lparr>ei_text := t, ei_inline := True\<rparr>"
  by (cases i) (simp add: rupi_defs)

section \<open>Properties\<close>

text \<open>
  external context survives compaction: an inline item turned into a reference and filled
  again with its text is the item it was, with its source, citation and metadata; the compacted
  form carries no text, and its durable reference is the one of the inline item.
\<close>

theorem compacted_item_rehydrates:
  "rehydrate (external_ref_of (compact_to_reference i)) (ei_text i) = i\<lparr>ei_inline := True\<rparr>
    \<and> ei_text (compact_to_reference i) = [] \<and> \<not> ei_inline (compact_to_reference i)
    \<and> external_ref_of (compact_to_reference i) = external_ref_of i"
  by (simp add: rehydrate_ref) (simp add: rupi_defs)

end
