(* ===== verification/Stream_Decoder.thy ===== *)
theory Stream_Decoder
  imports Provider_Contract Ordered_Table
begin

text \<open>
  \<open>crates/rupi-provider/src/decode.rs\<close>: the decoder of one provider response. A step works
  on the decoder and on the log of the events handed to the sink so far, and returns either a
  stop (a typed failure, or the panic of an \<open>expect\<close> whose condition does not hold) or a
  value; both leave the decoder and the log as they are at that point. Fresh internal call ids
  and the JSON parser are arguments.
\<close>

section \<open>State\<close>

datatype stream_end = DoneSentinel | EndedWithoutSentinel | CompleteBody

record tool_builder =
  tbl_id :: "string option"
  tbl_internal_id :: string
  tbl_name :: string
  tbl_arguments :: string
  tbl_correlation_error :: "string option"

definition new_builder :: "string \<Rightarrow> tool_builder" where
  "new_builder internal =
     \<lparr> tbl_id = None, tbl_internal_id = internal, tbl_name = [], tbl_arguments = [],
       tbl_correlation_error = None \<rparr>"

record decoder =
  dc_exposure :: reasoning_exposure
  dc_strict_tool_schemas :: "(string, json) btree"
  dc_tools :: "(u64, tool_builder) btree"
  dc_tool_indices :: "(u64 \<times> u64) list"
  dc_tool_ids :: "(string \<times> u64) list"
  dc_next_tool_slot :: u64
  dc_finish_reason :: "string option"
  dc_logical_prompt_tokens :: "u64 option"
  dc_cache_read_tokens :: "u64 option"
  dc_cache_write_tokens :: "u64 option"
  dc_provider_total_tokens :: "u64 option"
  dc_output_tokens :: "u64 option"
  dc_emitted_output :: bool
  dc_response_events :: usize
  dc_text_bytes :: usize
  dc_reasoning_bytes :: usize
  dc_tool_argument_bytes :: usize

definition new_decoder :: "reasoning_exposure \<Rightarrow> decoder" where
  "new_decoder exposure =
     \<lparr> dc_exposure = exposure, dc_strict_tool_schemas = [], dc_tools = [], dc_tool_indices = [],
       dc_tool_ids = [], dc_next_tool_slot = 0, dc_finish_reason = None,
       dc_logical_prompt_tokens = None, dc_cache_read_tokens = None, dc_cache_write_tokens = None,
       dc_provider_total_tokens = None, dc_output_tokens = None, dc_emitted_output = False,
       dc_response_events = 0, dc_text_bytes = 0, dc_reasoning_bytes = 0,
       dc_tool_argument_bytes = 0 \<rparr>"

definition with_strict_tool_schemas :: "(string, json) btree \<Rightarrow> decoder \<Rightarrow> decoder" where
  "with_strict_tool_schemas schemas d = d\<lparr>dc_strict_tool_schemas := schemas\<rparr>"

definition decoder_provenance :: "decoder \<Rightarrow> reasoning_provenance option" where
  "decoder_provenance d = implied_provenance (dc_exposure d)"

section \<open>Steps\<close>

datatype decode_stop = StopFailure model_failure | StopPanic

type_synonym dstate = "decoder \<times> provider_event list"
type_synonym 'a dstep = "dstate \<Rightarrow> (decode_stop + 'a) \<times> dstate"

definition d_return :: "'a \<Rightarrow> 'a dstep" where
  "d_return a s = (Inr a, s)"

definition d_stop :: "decode_stop \<Rightarrow> 'a dstep" where
  "d_stop e s = (Inl e, s)"

definition d_bind :: "'a dstep \<Rightarrow> ('a \<Rightarrow> 'b dstep) \<Rightarrow> 'b dstep" where
  "d_bind m f s = (case m s of (Inl e, s') \<Rightarrow> (Inl e, s') | (Inr a, s') \<Rightarrow> f a s')"

definition d_then :: "'a dstep \<Rightarrow> 'b dstep \<Rightarrow> 'b dstep" where
  "d_then m n = d_bind m (\<lambda>_. n)"

definition d_get :: "decoder dstep" where
  "d_get s = (Inr (fst s), s)"

definition d_modify :: "(decoder \<Rightarrow> decoder) \<Rightarrow> unit dstep" where
  "d_modify f s = (Inr (), (f (fst s), snd s))"

definition d_emit :: "provider_event \<Rightarrow> unit dstep" where
  "d_emit e s = (Inr (), (fst s, snd s @ [e]))"

definition d_when :: "bool \<Rightarrow> unit dstep \<Rightarrow> unit dstep" where
  "d_when b m = (if b then m else d_return ())"

fun d_each :: "('x \<Rightarrow> unit dstep) \<Rightarrow> 'x list \<Rightarrow> unit dstep" where
  "d_each f [] = d_return ()"
| "d_each f (x # xs) = d_then (f x) (d_each f xs)"

lemmas step_defs = d_return_def d_stop_def d_bind_def d_then_def d_get_def d_modify_def
  d_emit_def d_when_def

section \<open>Failures of the decoder\<close>

definition decode_failure :: "string \<Rightarrow> model_failure" where
  "decode_failure message = new_failure Protocol Normalizing message"

definition response_limit_failure :: "decoder \<Rightarrow> string \<Rightarrow> model_failure" where
  "response_limit_failure d message =
     with_partial_output (dc_emitted_output d) (decode_failure message)"

definition limit_stop :: "string \<Rightarrow> 'a dstep" where
  "limit_stop message = d_bind d_get (\<lambda>d. d_stop (StopFailure (response_limit_failure d message)))"

definition account_response_event :: "unit dstep" where
  "account_response_event =
     d_bind d_get (\<lambda>d.
       if max_response_events \<le> dc_response_events d
       then limit_stop (''provider response exceeded the '' @ show_nat max_response_events
              @ ''-event aggregate limit'')
       else d_modify (\<lambda>d. d\<lparr>dc_response_events := dc_response_events d + 1\<rparr>))"

section \<open>Correlation of tool-call fragments\<close>

definition provider_tool_id :: "json \<Rightarrow> string option" where
  "provider_tool_id call =
     (case Option.bind (jget call ''id'') as_str of
        None \<Rightarrow> None
      | Some i \<Rightarrow> (if trim i = [] then None else Some i))"

definition add_correlation_error :: "string \<Rightarrow> tool_builder \<Rightarrow> tool_builder" where
  "add_correlation_error reason b =
     (case tbl_correlation_error b of
        Some existing \<Rightarrow>
          (if contains_str existing reason then b
           else b\<lparr>tbl_correlation_error := Some (existing @ ''; '' @ reason)\<rparr>)
      | None \<Rightarrow> b\<lparr>tbl_correlation_error := Some reason\<rparr>)"

definition mark_correlation_error :: "u64 \<Rightarrow> string \<Rightarrow> unit dstep" where
  "mark_correlation_error slot reason =
     d_modify (\<lambda>d. d\<lparr>dc_tools := bt_update slot (add_correlation_error reason) (dc_tools d)\<rparr>)"

definition mark_all :: "u64 list \<Rightarrow> string \<Rightarrow> unit dstep" where
  "mark_all slots reason = d_each (\<lambda>slot. mark_correlation_error slot reason) slots"

definition indexed_slot :: "decoder \<Rightarrow> u64 \<Rightarrow> bool" where
  "indexed_slot d slot \<longleftrightarrow> list_ex (\<lambda>(_, s). s = slot) (dc_tool_indices d)"

definition uncorrelated_tool_slots :: "decoder \<Rightarrow> u64 list" where
  "uncorrelated_tool_slots d =
     map fst (filter (\<lambda>(slot, b). tbl_id b = None \<and> \<not> indexed_slot d slot) (dc_tools d))"

definition open_keyed_tool_slots :: "decoder \<Rightarrow> u64 list" where
  "open_keyed_tool_slots d =
     map fst (filter (\<lambda>(slot, b). (tbl_id b \<noteq> None \<or> indexed_slot d slot)
                        \<and> tbl_correlation_error b = None) (dc_tools d))"

definition unique_keyed_open_slot :: "decoder \<Rightarrow> u64 option" where
  "unique_keyed_open_slot d =
     (case open_keyed_tool_slots d of [only] \<Rightarrow> Some only | _ \<Rightarrow> None)"

definition new_tool_slot :: "(u64 \<Rightarrow> string) \<Rightarrow> u64 dstep" where
  "new_tool_slot fresh =
     d_bind d_get (\<lambda>d.
       if max_response_tool_calls \<le> length (dc_tools d)
       then limit_stop (''provider response exceeded the '' @ show_nat max_response_tool_calls
              @ ''-tool-call limit'')
       else case checked_add u64_max (dc_next_tool_slot d) 1 of
              None \<Rightarrow> d_stop (StopFailure (decode_failure ''tool-call slot count is exhausted''))
            | Some next \<Rightarrow>
                d_then (d_modify (\<lambda>d. d\<lparr>dc_next_tool_slot := next,
                          dc_tools := bt_insert (dc_next_tool_slot d)
                            (new_builder (fresh (dc_next_tool_slot d))) (dc_tools d)\<rparr>))
                  (d_return (dc_next_tool_slot d)))"

text \<open>A new slot that joins the slots in \<open>others\<close> in an ambiguity, when there are any.\<close>

definition ambiguous_slot :: "(u64 \<Rightarrow> string) \<Rightarrow> u64 list \<Rightarrow> string \<Rightarrow> u64 dstep" where
  "ambiguous_slot fresh others reason =
     d_bind (new_tool_slot fresh) (\<lambda>slot.
       d_then (d_when (others \<noteq> [])
                (d_then (mark_all others reason) (mark_correlation_error slot reason)))
         (d_return slot))"

definition unsafe_reason :: string where
  "unsafe_reason = ''tool-call fragments could not be safely correlated by index or id''"

definition select_slot ::
    "(u64 \<Rightarrow> string) \<Rightarrow> u64 option \<Rightarrow> string option \<Rightarrow> bool \<Rightarrow> u64 option \<Rightarrow> decoder \<Rightarrow> u64 dstep" where
  "select_slot fresh provider_index provider_id uncorrelated_batch singleton d =
     (let index_slot = Option.bind provider_index (map_of (dc_tool_indices d));
          id_slot = Option.bind provider_id (map_of (dc_tool_ids d));
          uncorrelated = uncorrelated_tool_slots d
      in case (index_slot, id_slot) of
           (Some s, Some t) \<Rightarrow>
             (if s \<noteq> t
              then let reason = ''tool-call index and id point to different fragments''
                   in d_then (mark_correlation_error s reason)
                        (d_then (mark_correlation_error t reason) (d_return s))
              else d_return s)
         | (Some s, None) \<Rightarrow> d_return s
         | (None, Some t) \<Rightarrow>
             (if provider_index \<noteq> None
                 \<and> list_ex (\<lambda>(i, s). s = t \<and> Some i \<noteq> provider_index) (dc_tool_indices d)
              then d_bind (new_tool_slot fresh) (\<lambda>slot.
                     let reason = ''one provider tool-call id was associated with multiple indexes''
                     in d_then (mark_correlation_error t reason)
                          (d_then (mark_correlation_error slot reason) (d_return slot)))
              else d_return t)
         | (None, None) \<Rightarrow>
             (if provider_index \<noteq> None \<or> provider_id \<noteq> None then
                (if length (dc_tools d) = 1 \<and> length uncorrelated = 1
                 then d_then (mark_correlation_error (hd uncorrelated)
                               ''provider index or id arrived after uncorrelated fragments'')
                        (d_return (hd uncorrelated))
                 else ambiguous_slot fresh uncorrelated unsafe_reason)
              else if uncorrelated_batch then
                d_bind (new_tool_slot fresh) (\<lambda>slot.
                  let reason = ''multiple tool fragments in one chunk had neither an index nor an id''
                  in d_bind d_get (\<lambda>d'.
                       d_then (mark_all (open_keyed_tool_slots d') reason)
                         (d_then (mark_correlation_error slot reason) (d_return slot))))
              else case singleton of
                     Some s \<Rightarrow> d_return s
                   | None \<Rightarrow> ambiguous_slot fresh (open_keyed_tool_slots d) unsafe_reason))"

text \<open>\<open>get\<close> or \<open>get_mut\<close> followed by \<open>expect\<close>: a missing slot panics.\<close>

definition d_builder :: "u64 \<Rightarrow> tool_builder dstep" where
  "d_builder slot =
     d_bind d_get (\<lambda>d. case map_of (dc_tools d) slot of
                          None \<Rightarrow> d_stop StopPanic | Some b \<Rightarrow> d_return b)"

definition d_update_builder :: "u64 \<Rightarrow> (tool_builder \<Rightarrow> tool_builder) \<Rightarrow> unit dstep" where
  "d_update_builder slot f =
     d_then (d_builder slot) (d_modify (\<lambda>d. d\<lparr>dc_tools := bt_update slot f (dc_tools d)\<rparr>))"

text \<open>\<open>entry(k).or_insert(v)\<close> of a hash map.\<close>

definition or_insert :: "'k \<Rightarrow> 'v \<Rightarrow> ('k \<times> 'v) list \<Rightarrow> ('k \<times> 'v) list" where
  "or_insert k v m = (if map_of m k = None then (k, v) # m else m)"

definition append_name :: "u64 \<Rightarrow> string \<Rightarrow> unit dstep" where
  "append_name slot name =
     d_bind (d_builder slot) (\<lambda>b.
       if max_tool_name_bytes < sat_add usize_max (length (tbl_name b)) (length name)
       then mark_correlation_error slot ''tool name exceeded the response limit''
       else d_update_builder slot (\<lambda>b. b\<lparr>tbl_name := tbl_name b @ name\<rparr>))"

definition append_arguments :: "u64 \<Rightarrow> string \<Rightarrow> unit dstep" where
  "append_arguments slot arguments =
     d_bind (d_builder slot) (\<lambda>b. d_bind d_get (\<lambda>d.
       let call_bytes = sat_add usize_max (length (tbl_arguments b)) (length arguments);
           total_bytes = sat_add usize_max (dc_tool_argument_bytes d) (length arguments)
       in if max_tool_argument_bytes_per_call < call_bytes
          then mark_correlation_error slot ''tool arguments exceeded the per-call byte limit''
          else if max_tool_argument_bytes_total < total_bytes
          then mark_correlation_error slot ''tool arguments exceeded the aggregate byte limit''
          else d_then (d_update_builder slot (\<lambda>b. b\<lparr>tbl_arguments := tbl_arguments b @ arguments\<rparr>))
                 (d_modify (\<lambda>d. d\<lparr>dc_tool_argument_bytes := total_bytes\<rparr>))))"

definition record_identity ::
    "u64 \<Rightarrow> u64 option \<Rightarrow> string option \<Rightarrow> unit dstep" where
  "record_identity slot provider_index provider_id =
     d_then
       (case provider_index of
          None \<Rightarrow> d_return ()
        | Some i \<Rightarrow> d_modify (\<lambda>d. d\<lparr>dc_tool_indices := or_insert i slot (dc_tool_indices d)\<rparr>))
       (case provider_id of
          None \<Rightarrow> d_return ()
        | Some pid \<Rightarrow>
            d_bind d_get (\<lambda>d.
              d_then
                (d_when (case Option.bind (map_of (dc_tools d) slot) tbl_id of
                           None \<Rightarrow> False | Some existing \<Rightarrow> existing \<noteq> pid)
                  (mark_correlation_error slot ''one provider index carried multiple tool-call ids''))
                (d_then (d_modify (\<lambda>d. d\<lparr>dc_tool_ids := or_insert pid slot (dc_tool_ids d)\<rparr>))
                  (d_update_builder slot (\<lambda>b. b\<lparr>tbl_id := Some pid\<rparr>)))))"

definition append_function :: "u64 \<Rightarrow> json \<Rightarrow> unit dstep" where
  "append_function slot call =
     (case jget call ''function'' of
        None \<Rightarrow> d_return ()
      | Some function \<Rightarrow>
          d_then
            (case Option.bind (jget function ''name'') as_str of
               None \<Rightarrow> d_return () | Some name \<Rightarrow> append_name slot name)
            (case Option.bind (jget function ''arguments'') as_str of
               None \<Rightarrow> d_return () | Some arguments \<Rightarrow> append_arguments slot arguments))"

definition accumulate_tool :: "(u64 \<Rightarrow> string) \<Rightarrow> json \<Rightarrow> bool \<Rightarrow> unit dstep" where
  "accumulate_tool fresh call uncorrelated_batch =
     d_then account_response_event
       (d_bind d_get (\<lambda>d.
          let provider_index = Option.bind (jget call ''index'') as_u64;
              raw_provider_id = provider_tool_id call;
              oversized_id = (case raw_provider_id of
                                None \<Rightarrow> False | Some i \<Rightarrow> max_tool_id_bytes < length i);
              provider_id = (if oversized_id then None else raw_provider_id);
              singleton = (if provider_index = None \<and> provider_id = None \<and> \<not> uncorrelated_batch
                           then unique_keyed_open_slot d else None)
          in d_bind (select_slot fresh provider_index provider_id uncorrelated_batch singleton d)
               (\<lambda>slot.
                 d_then (d_when oversized_id (mark_correlation_error slot
                           ''provider tool-call id exceeded the response limit''))
                 (d_then (record_identity slot provider_index provider_id)
                 (d_then (d_when (provider_index = None \<and> provider_id = None \<and> singleton = None
                                    \<and> \<not> oversized_id)
                           (mark_correlation_error slot
                             ''tool-call fragment had neither a provider index nor a provider id''))
                 (append_function slot call))))))"

section \<open>A chunk\<close>

definition reasoning_text :: "json \<Rightarrow> string option" where
  "reasoning_text delta =
     find_map (\<lambda>field. Option.bind (jget delta field) as_str)
       [''reasoning_content'', ''reasoning'', ''reasoning_text'']"

definition part_text :: "json \<Rightarrow> string" where
  "part_text part = unwrap_or [] (Option.bind (jget part ''text'') as_str)"

definition content_text :: "json \<Rightarrow> string option" where
  "content_text delta =
     (case jget delta ''content'' of
        Some (JStr t) \<Rightarrow> Some t
      | Some (JArr parts) \<Rightarrow>
          (let joined = concat (map part_text parts) in if joined = [] then None else Some joined)
      | _ \<Rightarrow> None)"

definition get_u64 :: "json \<Rightarrow> string \<Rightarrow> u64 option" where
  "get_u64 v k = Option.bind (jget v k) as_u64"

definition read_usage :: "json \<Rightarrow> decoder \<Rightarrow> decoder" where
  "read_usage usage d =
     (let details = or_else (jget usage ''prompt_tokens_details'') (jget usage ''input_tokens_details'')
      in d\<lparr>dc_logical_prompt_tokens :=
             or_else (Option.bind (or_else (jget usage ''prompt_tokens'') (jget usage ''input_tokens'')) as_u64)
               (dc_logical_prompt_tokens d),
           dc_cache_read_tokens :=
             or_else
               (or_else
                 (Option.bind details (\<lambda>x. or_else (get_u64 x ''cached_tokens'') (get_u64 x ''cache_read_tokens'')))
                 (find_map (get_u64 usage)
                   [''prompt_cache_hit_tokens'', ''cached_tokens'', ''cache_read_tokens'']))
               (dc_cache_read_tokens d),
           dc_cache_write_tokens :=
             or_else
               (Option.bind
                 (or_else (Option.bind details (\<lambda>x. jget x ''cache_write_tokens''))
                   (jget usage ''cache_write_tokens'')) as_u64)
               (dc_cache_write_tokens d),
           dc_provider_total_tokens :=
             or_else (get_u64 usage ''total_tokens'') (dc_provider_total_tokens d),
           dc_output_tokens :=
             or_else (Option.bind (or_else (jget usage ''completion_tokens'') (jget usage ''output_tokens'')) as_u64)
               (dc_output_tokens d)\<rparr>)"

definition emit_reasoning :: "json \<Rightarrow> unit dstep" where
  "emit_reasoning delta =
     d_bind d_get (\<lambda>d.
       case (reasoning_text delta, decoder_provenance d) of
         (Some reasoning, Some provenance) \<Rightarrow>
           d_when (reasoning \<noteq> [])
             (d_then account_response_event
               (d_bind d_get (\<lambda>d.
                  if max_response_reasoning_bytes < sat_add usize_max (dc_reasoning_bytes d) (length reasoning)
                  then limit_stop (''provider response exceeded the '' @ show_nat max_response_reasoning_bytes
                         @ ''-byte aggregate reasoning limit'')
                  else d_then (d_modify (\<lambda>d. d\<lparr>dc_reasoning_bytes := dc_reasoning_bytes d + length reasoning\<rparr>))
                         (d_then (d_emit (ReasoningDelta reasoning provenance))
                           (d_modify (\<lambda>d. d\<lparr>dc_emitted_output := True\<rparr>))))))
       | _ \<Rightarrow> d_return ())"

definition emit_text :: "json \<Rightarrow> unit dstep" where
  "emit_text delta =
     (case content_text delta of
        None \<Rightarrow> d_return ()
      | Some t \<Rightarrow>
          d_when (t \<noteq> [])
            (d_then account_response_event
              (d_bind d_get (\<lambda>d.
                 if max_response_text_bytes < sat_add usize_max (dc_text_bytes d) (length t)
                 then limit_stop (''provider response exceeded the '' @ show_nat max_response_text_bytes
                        @ ''-byte aggregate text limit'')
                 else d_then (d_modify (\<lambda>d. d\<lparr>dc_text_bytes := dc_text_bytes d + length t\<rparr>))
                        (d_then (d_emit (TextDelta t))
                          (d_modify (\<lambda>d. d\<lparr>dc_emitted_output := True\<rparr>)))))))"

definition uncorrelated_fragment :: "json \<Rightarrow> bool" where
  "uncorrelated_fragment call \<longleftrightarrow>
     Option.bind (jget call ''index'') as_u64 = None \<and> provider_tool_id call = None"

definition accumulate_calls :: "(u64 \<Rightarrow> string) \<Rightarrow> json \<Rightarrow> unit dstep" where
  "accumulate_calls fresh delta =
     (case Option.bind (jget delta ''tool_calls'') as_array of
        None \<Rightarrow> d_return ()
      | Some calls \<Rightarrow>
          (let uncorrelated_count = length (filter uncorrelated_fragment calls)
           in d_each (\<lambda>call. accumulate_tool fresh call (1 < uncorrelated_count)) calls))"

definition decode_choice :: "(u64 \<Rightarrow> string) \<Rightarrow> json \<Rightarrow> unit dstep" where
  "decode_choice fresh choice =
     (let delta = unwrap_or JNull (or_else (jget choice ''delta'') (jget choice ''message''))
      in d_then
           (case Option.bind (jget choice ''finish_reason'') as_str of
              None \<Rightarrow> d_return ()
            | Some finish \<Rightarrow> d_modify (\<lambda>d. d\<lparr>dc_finish_reason := Some finish\<rparr>))
           (d_then (emit_reasoning delta)
             (d_then (emit_text delta) (accumulate_calls fresh delta))))"

definition decode_chunk :: "(u64 \<Rightarrow> string) \<Rightarrow> json \<Rightarrow> unit dstep" where
  "decode_chunk fresh chunk =
     d_then
       (case jget chunk ''usage'' of
          None \<Rightarrow> d_return ()
        | Some usage \<Rightarrow> d_when (\<not> is_null usage) (d_modify (read_usage usage)))
       (case Option.bind (jget chunk ''choices'') as_array of
          None \<Rightarrow> d_return ()
        | Some choices \<Rightarrow> d_each (decode_choice fresh) choices)"

text \<open>A whole stream: the chunks in order, up to the first stop.\<close>

definition decode_stream :: "(u64 \<Rightarrow> string) \<Rightarrow> json list \<Rightarrow> unit dstep" where
  "decode_stream fresh chunks = d_each (decode_chunk fresh) chunks"

section \<open>The end of the stream\<close>

text \<open>
  \<open>restore_omitted_optional_arguments\<close>: an object loses its null entries for properties the
  schema does not require, and the remaining entries with a property schema are restored
  against it; an array restores every element. A \<open>serde_json\<close> object has unique keys.
\<close>

definition schema_properties :: "json \<Rightarrow> (string \<times> json) list option" where
  "schema_properties schema = Option.bind (jget schema ''properties'') as_object"

definition omitted_optional :: "json \<Rightarrow> (string \<times> json) list \<Rightarrow> string \<times> json \<Rightarrow> bool" where
  "omitted_optional schema properties entry \<longleftrightarrow>
     is_null (snd entry) \<and> map_of properties (fst entry) \<noteq> None
     \<and> fst entry \<notin> set (unwrap_or [] (map_option (List.map_filter as_str)
           (Option.bind (jget schema ''required'') as_array)))"

fun restore_omitted :: "json \<Rightarrow> json \<Rightarrow> json"
and restore_fields :: "(string \<times> json) list \<Rightarrow> json \<Rightarrow> (string \<times> json) list \<Rightarrow> (string \<times> json) list"
and restore_items :: "json list \<Rightarrow> json \<Rightarrow> json list" where
  "restore_omitted value schema =
     (case value of
        JObj fs \<Rightarrow>
          (case schema_properties schema of
             None \<Rightarrow> value
           | Some properties \<Rightarrow> JObj (restore_fields fs schema properties))
      | JArr xs \<Rightarrow>
          (case jget schema ''items'' of None \<Rightarrow> value | Some items \<Rightarrow> JArr (restore_items xs items))
      | _ \<Rightarrow> value)"
| "restore_fields [] schema properties = []"
| "restore_fields ((key, child) # fs) schema properties =
     (let rest = restore_fields fs schema properties
      in if omitted_optional schema properties (key, child) then rest
         else (key, case map_of properties key of
                      None \<Rightarrow> child | Some s \<Rightarrow> restore_omitted child s) # rest)"
| "restore_items [] items = []"
| "restore_items (x # xs) items = restore_omitted x items # restore_items xs items"

declare restore_omitted.simps [simp del]

definition call_id :: "tool_builder \<Rightarrow> string" where
  "call_id b =
     (case tbl_id b of
        Some i \<Rightarrow> (if trim i = [] then tbl_internal_id b else i)
      | None \<Rightarrow> tbl_internal_id b)"

definition decode_arguments ::
    "(string \<Rightarrow> string + json) \<Rightarrow> (string, json) btree \<Rightarrow> tool_builder \<Rightarrow> json \<times> string option" where
  "decode_arguments parse schemas b =
     (let (arguments, argument_error) =
            (if trim (tbl_arguments b) = [] then (JObj [], None)
             else case parse (tbl_arguments b) of
                    Inr v \<Rightarrow> (if is_object v then (v, None)
                              else (JObj [], Some ''tool arguments must be a JSON object''))
                  | Inl e \<Rightarrow> (JObj [], Some (''tool arguments are not valid JSON: '' @ e)))
      in if argument_error = None
         then (case map_of schemas (tbl_name b) of
                 None \<Rightarrow> (arguments, None)
               | Some schema \<Rightarrow> (restore_omitted arguments schema, None))
         else (arguments, argument_error))"

definition decoded_event ::
    "(string \<Rightarrow> string + json) \<Rightarrow> (string, json) btree \<Rightarrow> tool_builder \<Rightarrow> provider_event" where
  "decoded_event parse schemas b =
     (let (arguments, argument_error) = decode_arguments parse schemas b;
          reason = (case (tbl_correlation_error b, argument_error) of
                      (Some c, Some a) \<Rightarrow> Some (c @ ''; '' @ a)
                    | (Some c, None) \<Rightarrow> Some c
                    | (None, Some a) \<Rightarrow> Some a
                    | (None, None) \<Rightarrow> None)
      in case reason of
           Some r \<Rightarrow> ToolCallRejected (call_id b) (tbl_name b) r
         | None \<Rightarrow> ToolCallEvent \<lparr> tc_id = call_id b, tc_name = tbl_name b, tc_arguments = arguments \<rparr>)"

fun decode_batch ::
    "(string \<Rightarrow> string + json) \<Rightarrow> (string, json) btree \<Rightarrow> string list \<Rightarrow> tool_builder list
      \<Rightarrow> model_failure + provider_event list" where
  "decode_batch parse schemas ids [] = Inr []"
| "decode_batch parse schemas ids (b # bs) =
     (if call_id b \<in> set ids
      then Inl (decode_failure (''duplicate tool call id '' @ call_id b @ '' in one provider response''))
      else case decode_batch parse schemas (call_id b # ids) bs of
             Inl f \<Rightarrow> Inl f
           | Inr events \<Rightarrow> Inr (decoded_event parse schemas b # events))"

definition completion_of :: "decoder \<Rightarrow> bool \<Rightarrow> stream_end \<Rightarrow> model_failure + completion_certainty" where
  "completion_of d produced_a_call e =
     (case e of
        CompleteBody \<Rightarrow> Inr Certain
      | DoneSentinel \<Rightarrow>
          (if dc_finish_reason d \<noteq> None \<or> dc_emitted_output d \<or> produced_a_call then Inr Certain
           else Inl (decode_failure ''stream ended without a finish reason and without any output''))
      | EndedWithoutSentinel \<Rightarrow>
          (if dc_finish_reason d \<noteq> None then Inr Certain
           else if dc_emitted_output d \<or> produced_a_call then Inr Unknown_Completion
           else Inl ((new_failure Transport Streaming
                       ''stream ended before the provider reported completion'')
                     \<lparr>mf_partial_output_emitted := False\<rparr>)))"

definition final_usage :: "decoder \<Rightarrow> completion_certainty \<Rightarrow> completion_usage" where
  "final_usage d certainty =
     \<lparr> us_input_tokens = dc_logical_prompt_tokens d,
       us_uncached_input_tokens =
         map_option (\<lambda>logical. logical - unwrap_or 0 (dc_cache_read_tokens d)
                       - unwrap_or 0 (dc_cache_write_tokens d)) (dc_logical_prompt_tokens d),
       us_logical_prompt_tokens = dc_logical_prompt_tokens d,
       us_cache_read_tokens = dc_cache_read_tokens d,
       us_cache_write_tokens = dc_cache_write_tokens d,
       us_output_tokens = dc_output_tokens d,
       us_provider_total_tokens =
         or_else (dc_provider_total_tokens d)
           (case (dc_logical_prompt_tokens d, dc_output_tokens d) of
              (Some logical, Some output) \<Rightarrow> Some (sat_add u64_max logical output)
            | _ \<Rightarrow> None),
       us_finish_reason = dc_finish_reason d, us_certainty = certainty \<rparr>"

text \<open>The answer of \<open>finish\<close> together with the events it emits.\<close>

definition decode_finish ::
    "(string \<Rightarrow> string + json) \<Rightarrow> stream_end \<Rightarrow> decoder
      \<Rightarrow> (model_failure + completion_usage) \<times> provider_event list" where
  "decode_finish parse e d =
     (case decode_batch parse (dc_strict_tool_schemas d) [] (map snd (dc_tools d)) of
        Inl f \<Rightarrow> (Inl f, [])
      | Inr events \<Rightarrow>
          (case completion_of d (dc_tools d \<noteq> []) e of
             Inl f \<Rightarrow> (Inl f, events)
           | Inr certainty \<Rightarrow> (Inr (final_usage d certainty), events)))"

section \<open>A calculus of steps\<close>

text \<open>
  A step started in \<open>P\<close> ends with a value in \<open>R\<close>, or stops in \<open>E\<close>.
\<close>

definition dspec ::
    "(dstate \<Rightarrow> bool) \<Rightarrow> 'a dstep \<Rightarrow> ('a \<Rightarrow> dstate \<Rightarrow> bool) \<Rightarrow> (decode_stop \<Rightarrow> dstate \<Rightarrow> bool) \<Rightarrow> bool" where
  "dspec P m R E \<longleftrightarrow>
     (\<forall>s. P s \<longrightarrow> (case m s of (Inl e, s') \<Rightarrow> E e s' | (Inr a, s') \<Rightarrow> R a s'))"

lemma dspec_weaken: "dspec P m R E \<Longrightarrow> (\<And>s. Q s \<Longrightarrow> P s) \<Longrightarrow> dspec Q m R E"
  by (simp add: dspec_def)

lemma dspec_strengthen: "dspec P m R E \<Longrightarrow> (\<And>a s. R a s \<Longrightarrow> T a s) \<Longrightarrow> dspec P m T E"
  by (fastforce simp: dspec_def split: sum.splits prod.splits)

lemma dspec_return: "(\<And>s. P s \<Longrightarrow> R a s) \<Longrightarrow> dspec P (d_return a) R E"
  by (simp add: dspec_def d_return_def)

lemma dspec_bind: "dspec P m R E \<Longrightarrow> (\<And>a. dspec (R a) (f a) T E) \<Longrightarrow> dspec P (d_bind m f) T E"
  unfolding dspec_def d_bind_def by (fastforce split: sum.splits prod.splits)

lemma dspec_then: "dspec P m (\<lambda>_. Q) E \<Longrightarrow> dspec Q n T E \<Longrightarrow> dspec P (d_then m n) T E"
  unfolding d_then_def by (rule dspec_bind)

lemma dspec_get: "(\<And>d. dspec (\<lambda>s. P s \<and> fst s = d) (f d) T E) \<Longrightarrow> dspec P (d_bind d_get f) T E"
  by (simp add: dspec_def d_bind_def d_get_def)

lemma dspec_modify: "(\<And>d l. P (d, l) \<Longrightarrow> R () (f d, l)) \<Longrightarrow> dspec P (d_modify f) R E"
  by (simp add: dspec_def d_modify_def)

lemma dspec_when: "(b \<Longrightarrow> dspec P m (\<lambda>_. P) E) \<Longrightarrow> dspec P (d_when b m) (\<lambda>_. P) E"
  by (simp add: d_when_def dspec_def d_return_def)

lemma dspec_each: "(\<And>x. x \<in> set xs \<Longrightarrow> dspec P (f x) (\<lambda>_. P) E) \<Longrightarrow> dspec P (d_each f xs) (\<lambda>_. P) E"
  by (induction xs) (auto intro: dspec_return dspec_then)

lemma dspec_skip: "dspec P (d_return ()) (\<lambda>_. P) E"
  by (rule dspec_return)

lemma dspec_seq:
  "dspec P m (\<lambda>_. P) E \<Longrightarrow> dspec P n (\<lambda>_. P) E \<Longrightarrow> dspec P (d_then m n) (\<lambda>_. P) E"
  by (rule dspec_then)

lemma dspec_if:
  "(b \<Longrightarrow> dspec P m R E) \<Longrightarrow> (\<not> b \<Longrightarrow> dspec P n R E) \<Longrightarrow> dspec P (if b then m else n) R E"
  by simp

section \<open>The invariant of the decoder\<close>

fun text_len :: "provider_event \<Rightarrow> nat" where
  "text_len (TextDelta t) = length t" | "text_len _ = 0"

fun reasoning_len :: "provider_event \<Rightarrow> nat" where
  "reasoning_len (ReasoningDelta t _) = length t" | "reasoning_len _ = 0"

text \<open>The events a decoder may hand over before the end of the stream.\<close>

fun streamable :: "reasoning_exposure \<Rightarrow> provider_event \<Rightarrow> bool" where
  "streamable x (TextDelta t) \<longleftrightarrow> t \<noteq> []"
| "streamable x (ReasoningDelta t p) \<longleftrightarrow> t \<noteq> [] \<and> implied_provenance x = Some p"
| "streamable x _ \<longleftrightarrow> False"

definition builder_ok :: "tool_builder \<Rightarrow> bool" where
  "builder_ok b \<longleftrightarrow>
     length (tbl_name b) \<le> max_tool_name_bytes
     \<and> length (tbl_arguments b) \<le> max_tool_argument_bytes_per_call
     \<and> (case tbl_id b of None \<Rightarrow> True | Some i \<Rightarrow> trim i \<noteq> [] \<and> length i \<le> max_tool_id_bytes)"

definition tables_ok :: "decoder \<Rightarrow> bool" where
  "tables_ok d \<longleftrightarrow>
     bt_ok (dc_tools d) \<and> dc_next_tool_slot d = length (dc_tools d)
     \<and> length (dc_tools d) \<le> max_response_tool_calls
     \<and> (\<forall>k \<in> fst ` set (dc_tools d). k < dc_next_tool_slot d)
     \<and> snd ` set (dc_tool_indices d) \<subseteq> fst ` set (dc_tools d)
     \<and> snd ` set (dc_tool_ids d) \<subseteq> fst ` set (dc_tools d)
     \<and> (\<forall>b \<in> snd ` set (dc_tools d). builder_ok b)
     \<and> bt_sum (\<lambda>b. length (tbl_arguments b)) (dc_tools d) = dc_tool_argument_bytes d
     \<and> dc_tool_argument_bytes d \<le> max_tool_argument_bytes_total"

definition log_ok :: "decoder \<Rightarrow> provider_event list \<Rightarrow> bool" where
  "log_ok d l \<longleftrightarrow>
     (dc_emitted_output d \<longleftrightarrow> l \<noteq> []) \<and> list_all (streamable (dc_exposure d)) l
     \<and> sum_list (map text_len l) = dc_text_bytes d \<and> dc_text_bytes d \<le> max_response_text_bytes
     \<and> sum_list (map reasoning_len l) = dc_reasoning_bytes d
     \<and> dc_reasoning_bytes d \<le> max_response_reasoning_bytes
     \<and> dc_response_events d \<le> max_response_events"

text \<open>The invariant, together with a set of slots that are allocated and an exposure.\<close>

definition dec_ok :: "reasoning_exposure \<Rightarrow> u64 set \<Rightarrow> dstate \<Rightarrow> bool" where
  "dec_ok x A s \<longleftrightarrow>
     tables_ok (fst s) \<and> log_ok (fst s) (snd s) \<and> dc_exposure (fst s) = x
     \<and> A \<subseteq> fst ` set (dc_tools (fst s))"

text \<open>Every stop is a protocol failure that says truthfully whether output was handed over.\<close>

definition stop_ok :: "reasoning_exposure \<Rightarrow> decode_stop \<Rightarrow> dstate \<Rightarrow> bool" where
  "stop_ok x e s \<longleftrightarrow>
     dec_ok x {} s
     \<and> (case e of StopPanic \<Rightarrow> False
        | StopFailure f \<Rightarrow> mf_kind f = Protocol \<and> (mf_partial_output_emitted f \<longleftrightarrow> snd s \<noteq> []))"

lemma dec_ok_new: "dec_ok x {} (new_decoder x, [])"
  by (simp add: dec_ok_def tables_ok_def log_ok_def new_decoder_def)

lemma dec_ok_subset: "dec_ok x A s \<Longrightarrow> B \<subseteq> A \<Longrightarrow> dec_ok x B s"
  by (auto simp: dec_ok_def)

lemma limit_stop_spec: "dspec (dec_ok x A) (limit_stop m) R (stop_ok x)"
  by (auto simp: dspec_def limit_stop_def step_defs stop_ok_def response_limit_failure_def
      decode_failure_def rupi_defs Let_def dec_ok_def log_ok_def)

lemma dec_ok_tables:
  assumes "dec_ok x A (d, l)" and "tables_ok d'"
    and "dc_exposure d' = dc_exposure d" "dc_emitted_output d' = dc_emitted_output d"
    and "dc_text_bytes d' = dc_text_bytes d" "dc_reasoning_bytes d' = dc_reasoning_bytes d"
    and "dc_response_events d' = dc_response_events d" and "B \<subseteq> fst ` set (dc_tools d')"
  shows "dec_ok x B (d', l)"
  using assms by (auto simp: dec_ok_def log_ok_def)

lemma account_spec: "dspec (dec_ok x A) account_response_event (\<lambda>_. dec_ok x A) (stop_ok x)"
  unfolding account_response_event_def
  by (intro dspec_get dspec_if dspec_weaken [OF limit_stop_spec] dspec_modify)
    (auto simp: dec_ok_def log_ok_def tables_ok_def)

lemma builder_ok_error [simp]: "builder_ok (add_correlation_error r b) = builder_ok b"
  by (simp add: builder_ok_def add_correlation_error_def split: option.split)

lemma arguments_error [simp]: "tbl_arguments (add_correlation_error r b) = tbl_arguments b"
  by (simp add: add_correlation_error_def split: option.split)

lemma tables_ok_update:
  assumes "tables_ok d" and "\<And>b. (k, b) \<in> set (dc_tools d) \<Longrightarrow> builder_ok b \<Longrightarrow> builder_ok (f b)"
    and "bt_sum (\<lambda>b. length (tbl_arguments b)) (bt_update k f (dc_tools d)) = n"
    and "n \<le> max_tool_argument_bytes_total"
  shows "tables_ok (d\<lparr>dc_tools := bt_update k f (dc_tools d), dc_tool_argument_bytes := n\<rparr>)"
proof -
  have old: "builder_ok b" if "(j, b) \<in> set (dc_tools d)" for j b
    using assms(1) that by (force simp: tables_ok_def)
  have "builder_ok b" if "b \<in> snd ` set (bt_update k f (dc_tools d))" for b
    using bt_update_values [OF that] old assms(2) by auto
  then show ?thesis using assms(1,3,4) by (auto simp: tables_ok_def)
qed

lemma mark_spec: "dspec (dec_ok x A) (mark_correlation_error k r) (\<lambda>_. dec_ok x A) (stop_ok x)"
  unfolding mark_correlation_error_def
proof (rule dspec_modify)
  fix d l assume ok: "dec_ok x A (d, l)"
  have s: "bt_sum (\<lambda>b. length (tbl_arguments b)) (bt_update k (add_correlation_error r) (dc_tools d))
      = dc_tool_argument_bytes d" "dc_tool_argument_bytes d \<le> max_tool_argument_bytes_total"
    using ok by (auto simp: dec_ok_def tables_ok_def bt_sum_update_same)
  have "tables_ok (d\<lparr>dc_tools := bt_update k (add_correlation_error r) (dc_tools d),
      dc_tool_argument_bytes := dc_tool_argument_bytes d\<rparr>)"
    by (rule tables_ok_update) (use ok s in \<open>auto simp: dec_ok_def\<close>)
  then have "tables_ok (d\<lparr>dc_tools := bt_update k (add_correlation_error r) (dc_tools d)\<rparr>)"
    by simp
  then show "dec_ok x A (d\<lparr>dc_tools := bt_update k (add_correlation_error r) (dc_tools d)\<rparr>, l)"
    by (rule dec_ok_tables [OF ok]) (use ok in \<open>auto simp: dec_ok_def\<close>)
qed

lemma mark_all_spec: "dspec (dec_ok x A) (mark_all ks r) (\<lambda>_. dec_ok x A) (stop_ok x)"
  unfolding mark_all_def by (intro dspec_each mark_spec)

lemma new_builder_ok: "builder_ok (new_builder i)"
  by (simp add: builder_ok_def new_builder_def)

lemma tables_ok_new_slot:
  assumes "tables_ok d" and "length (dc_tools d) < max_response_tool_calls"
  shows "tables_ok (d\<lparr>dc_next_tool_slot := Suc (dc_next_tool_slot d),
     dc_tools := bt_insert (dc_next_tool_slot d) (new_builder i) (dc_tools d)\<rparr>)"
proof -
  let ?k = "dc_next_tool_slot d"
  have k: "?k \<notin> fst ` set (dc_tools d)" using assms(1) by (force simp: tables_ok_def)
  have "builder_ok b" if "b \<in> snd ` set (bt_insert ?k (new_builder i) (dc_tools d))" for b
  proof -
    have "b = new_builder i \<or> b \<in> snd ` set (dc_tools d)"
      using that snd_bt_insert_subset [of ?k "new_builder i" "dc_tools d"] by blast
    then show ?thesis using assms(1) new_builder_ok by (auto simp: tables_ok_def)
  qed
  moreover have "bt_sum (\<lambda>b. length (tbl_arguments b)) (bt_insert ?k (new_builder i) (dc_tools d)) =
      bt_sum (\<lambda>b. length (tbl_arguments b)) (dc_tools d)"
    by (simp add: bt_sum_insert_new [OF k] new_builder_def)
  ultimately show ?thesis
    using assms k by (auto simp: tables_ok_def bt_ok_insert length_bt_insert_new fst_bt_insert)
qed

lemma new_slot_spec:
  "dspec (dec_ok x A) (new_tool_slot fresh) (\<lambda>slot. dec_ok x (insert slot A)) (stop_ok x)"
proof -
  have "dspec (\<lambda>s. dec_ok x A s \<and> fst s = d)
     (d_then (d_modify (\<lambda>d. d\<lparr>dc_next_tool_slot := nxt,
                dc_tools := bt_insert (dc_next_tool_slot d)
                   (new_builder (fresh (dc_next_tool_slot d))) (dc_tools d)\<rparr>))
        (d_return (dc_next_tool_slot d)))
     (\<lambda>slot. dec_ok x (insert slot A)) (stop_ok x)"
    if n: "nxt = dc_next_tool_slot d + 1" and room: "\<not> max_response_tool_calls \<le> length (dc_tools d)"
    for d nxt
    unfolding dspec_def step_defs n
    using tables_ok_new_slot [of d "fresh (dc_next_tool_slot d)"] room
    by (auto simp: dec_ok_def log_ok_def fst_bt_insert)
  moreover have "dspec (\<lambda>s. dec_ok x A s \<and> fst s = d)
      (d_stop (StopFailure (decode_failure m))) R (stop_ok x)"
    if "checked_add u64_max (dc_next_tool_slot d) 1 = None" for d R and m :: string
    using that
    by (auto simp: dspec_def dec_ok_def tables_ok_def max_response_tool_calls_def u64_max_def)
  ultimately show ?thesis
    unfolding new_tool_slot_def
    by (auto intro!: dspec_get dspec_weaken [OF limit_stop_spec] split: option.split)
qed

lemma ambiguous_spec:
  "dspec (dec_ok x A) (ambiguous_slot fresh others r) (\<lambda>slot. dec_ok x (insert slot A)) (stop_ok x)"
  unfolding ambiguous_slot_def
  by (intro dspec_bind [OF new_slot_spec] dspec_then [OF dspec_when] dspec_then [OF mark_all_spec]
      mark_spec dspec_return)

lemma dec_ok_index:
  assumes "dec_ok x A s" and "Option.bind i (map_of (dc_tool_indices (fst s))) = Some k"
  shows "dec_ok x (insert k A) s"
proof -
  obtain j where "map_of (dc_tool_indices (fst s)) j = Some k"
    using assms(2) by (cases i) auto
  then have "k \<in> snd ` set (dc_tool_indices (fst s))" by (force dest: map_of_SomeD)
  then show ?thesis using assms(1) by (auto simp: dec_ok_def tables_ok_def)
qed

lemma dec_ok_identity:
  assumes "dec_ok x A s" and "Option.bind i (map_of (dc_tool_ids (fst s))) = Some k"
  shows "dec_ok x (insert k A) s"
proof -
  obtain j where "map_of (dc_tool_ids (fst s)) j = Some k"
    using assms(2) by (cases i) auto
  then have "k \<in> snd ` set (dc_tool_ids (fst s))" by (force dest: map_of_SomeD)
  then show ?thesis using assms(1) by (auto simp: dec_ok_def tables_ok_def)
qed

lemma slots_allocated:
  "set (uncorrelated_tool_slots d) \<subseteq> fst ` set (dc_tools d)"
  "set (open_keyed_tool_slots d) \<subseteq> fst ` set (dc_tools d)"
  "unique_keyed_open_slot d = Some k \<Longrightarrow> k \<in> fst ` set (dc_tools d)"
proof -
  show "set (uncorrelated_tool_slots d) \<subseteq> fst ` set (dc_tools d)"
    by (force simp: uncorrelated_tool_slots_def)
  show keyed: "set (open_keyed_tool_slots d) \<subseteq> fst ` set (dc_tools d)"
    by (force simp: open_keyed_tool_slots_def)
  show "unique_keyed_open_slot d = Some k \<Longrightarrow> k \<in> fst ` set (dc_tools d)"
    using keyed by (auto simp: unique_keyed_open_slot_def split: list.splits)
qed

lemma return_allocated:
  "(\<And>s. P s \<Longrightarrow> dec_ok x (insert k A) s) \<Longrightarrow>
     dspec P (d_return k) (\<lambda>slot. dec_ok x (insert slot A)) E"
  by (rule dspec_return)

lemma mark_return:
  assumes "\<And>s. P s \<Longrightarrow> dec_ok x (insert k A) s"
  shows "dspec P (d_then (mark_correlation_error j r) (d_return k))
           (\<lambda>slot. dec_ok x (insert slot A)) (stop_ok x)"
  by (rule dspec_weaken [of "dec_ok x (insert k A)", OF _ assms])
    (intro dspec_then [OF mark_spec] dspec_return)

lemma new_slot_marked:
  "dspec (dec_ok x A)
     (d_bind (new_tool_slot fresh) (\<lambda>slot.
        d_then (mark_correlation_error t r) (d_then (mark_correlation_error slot r) (d_return slot))))
     (\<lambda>slot. dec_ok x (insert slot A)) (stop_ok x)"
  by (intro dspec_bind [OF new_slot_spec] dspec_then [OF mark_spec] dspec_return)

lemma new_slot_batch:
  "dspec (dec_ok x A)
     (d_bind (new_tool_slot fresh) (\<lambda>slot. d_bind d_get (\<lambda>d'.
        d_then (mark_all (open_keyed_tool_slots d') r)
          (d_then (mark_correlation_error slot r) (d_return slot)))))
     (\<lambda>slot. dec_ok x (insert slot A)) (stop_ok x)"
proof (rule dspec_bind [OF new_slot_spec], rule dspec_get)
  fix slot d
  have "dspec (dec_ok x (insert slot A))
      (d_then (mark_all (open_keyed_tool_slots d) r)
        (d_then (mark_correlation_error slot r) (d_return slot)))
      (\<lambda>slot. dec_ok x (insert slot A)) (stop_ok x)"
    by (intro dspec_then [OF mark_all_spec] dspec_then [OF mark_spec] dspec_return)
  then show "dspec (\<lambda>s. dec_ok x (insert slot A) s \<and> fst s = d)
      (d_then (mark_all (open_keyed_tool_slots d) r)
        (d_then (mark_correlation_error slot r) (d_return slot)))
      (\<lambda>slot. dec_ok x (insert slot A)) (stop_ok x)"
    by (rule dspec_weaken) simp
qed

lemma select_spec:
  assumes "\<And>k. singleton = Some k \<Longrightarrow> k \<in> fst ` set (dc_tools d)"
  shows "dspec (\<lambda>s. dec_ok x A s \<and> fst s = d) (select_slot fresh i pid batch singleton d)
           (\<lambda>slot. dec_ok x (insert slot A)) (stop_ok x)"
proof -
  let ?P = "\<lambda>s. dec_ok x A s \<and> fst s = d"
  have index: "?P s \<Longrightarrow> dec_ok x (insert k A) s"
    if "Option.bind i (map_of (dc_tool_indices d)) = Some k" for k s
    using dec_ok_index that by blast
  have ident: "?P s \<Longrightarrow> dec_ok x (insert k A) s"
    if "Option.bind pid (map_of (dc_tool_ids d)) = Some k" for k s
    using dec_ok_identity that by blast
  have sing: "?P s \<Longrightarrow> dec_ok x (insert k A) s" if "singleton = Some k" for k s
    using assms [OF that] by (auto simp: dec_ok_def)
  have only: "?P s \<Longrightarrow> dec_ok x (insert (hd (uncorrelated_tool_slots d)) A) s"
    if "length (uncorrelated_tool_slots d) = 1" for s
  proof -
    have "hd (uncorrelated_tool_slots d) \<in> set (uncorrelated_tool_slots d)"
      using that by (intro hd_in_set) auto
    then show "?P s \<Longrightarrow> dec_ok x (insert (hd (uncorrelated_tool_slots d)) A) s"
      using slots_allocated(1) [of d] by (auto simp: dec_ok_def)
  qed
  have both: "dspec ?P (d_then (mark_correlation_error k r)
      (d_then (mark_correlation_error j r) (d_return k))) (\<lambda>slot. dec_ok x (insert slot A)) (stop_ok x)"
    if "Option.bind i (map_of (dc_tool_indices d)) = Some k" for k j r
    by (rule dspec_weaken [of "dec_ok x (insert k A)", OF _ index [OF that]])
      (intro dspec_then [OF mark_spec] dspec_return)
  have amb: "dspec ?P (ambiguous_slot fresh ks r) (\<lambda>slot. dec_ok x (insert slot A)) (stop_ok x)" for ks r
    by (rule dspec_weaken [OF ambiguous_spec]) simp
  have marked: "dspec ?P (d_bind (new_tool_slot fresh) (\<lambda>slot.
        d_then (mark_correlation_error t r) (d_then (mark_correlation_error slot r) (d_return slot))))
      (\<lambda>slot. dec_ok x (insert slot A)) (stop_ok x)" for t r
    by (rule dspec_weaken [OF new_slot_marked]) simp
  have batched: "dspec ?P (d_bind (new_tool_slot fresh) (\<lambda>slot. d_bind d_get (\<lambda>d'.
        d_then (mark_all (open_keyed_tool_slots d') r)
          (d_then (mark_correlation_error slot r) (d_return slot)))))
      (\<lambda>slot. dec_ok x (insert slot A)) (stop_ok x)" for r
    by (rule dspec_weaken [OF new_slot_batch]) simp
  show ?thesis
  proof (cases "Option.bind i (map_of (dc_tool_indices d))")
    case (Some k)
    show ?thesis
      by (cases "Option.bind pid (map_of (dc_tool_ids d))")
        (auto simp add: select_slot_def Let_def Some both [OF Some] return_allocated [OF index [OF Some]])
  next
    case none: None
    show ?thesis
    proof (cases "Option.bind pid (map_of (dc_tool_ids d))")
      case (Some k)
      show ?thesis
        by (simp add: select_slot_def Let_def none Some marked return_allocated [OF ident [OF Some]])
    next
      case None
      show ?thesis
        unfolding select_slot_def Let_def none None prod.case option.case
        by (intro dspec_if amb batched mark_return only)
          (cases singleton; simp add: amb return_allocated [OF sing])+
    qed
  qed
qed

lemma builder_spec:
  "k \<in> A \<Longrightarrow> dspec (dec_ok x A) (d_builder k)
     (\<lambda>b s. dec_ok x A s \<and> map_of (dc_tools (fst s)) k = Some b) E"
  by (auto simp: dspec_def d_builder_def step_defs dec_ok_def map_of_eq_None_iff
      split: option.splits)

text \<open>Changing one allocated builder, and the argument total with it.\<close>

lemma update_builder_ok:
  assumes ok: "dec_ok x A (d, l)" and b: "map_of (dc_tools d) k = Some b"
    and good: "builder_ok b \<Longrightarrow> builder_ok (f b)"
    and total: "n + length (tbl_arguments b) = dc_tool_argument_bytes d + length (tbl_arguments (f b))"
    and le: "n \<le> max_tool_argument_bytes_total"
  shows "dec_ok x A (d\<lparr>dc_tools := bt_update k f (dc_tools d), dc_tool_argument_bytes := n\<rparr>, l)"
proof -
  have t: "tables_ok d" using ok by (simp add: dec_ok_def)
  then have dist: "distinct (map fst (dc_tools d))" by (simp add: tables_ok_def bt_ok_distinct)
  have "bt_sum (\<lambda>b. length (tbl_arguments b)) (bt_update k f (dc_tools d)) = n"
    using bt_sum_update [OF dist b, of "\<lambda>b. length (tbl_arguments b)" f] total t
    by (simp add: tables_ok_def)
  moreover have "c = b" if "(k, c) \<in> set (dc_tools d)" for c
    using that b dist by (metis map_of_is_SomeI option.inject)
  ultimately have "tables_ok (d\<lparr>dc_tools := bt_update k f (dc_tools d), dc_tool_argument_bytes := n\<rparr>)"
    using t good le by (intro tables_ok_update) auto
  then show ?thesis
    by (rule dec_ok_tables [OF ok]) (use ok in \<open>auto simp: dec_ok_def\<close>)
qed

lemma append_name_spec:
  assumes "k \<in> A"
  shows "dspec (dec_ok x A) (append_name k name) (\<lambda>_. dec_ok x A) (stop_ok x)"
  unfolding append_name_def
proof (intro dspec_bind [OF builder_spec [OF assms]] dspec_if)
  fix b :: tool_builder
  show "dspec (\<lambda>s. dec_ok x A s \<and> map_of (dc_tools (fst s)) k = Some b)
      (mark_correlation_error k ''tool name exceeded the response limit'') (\<lambda>_. dec_ok x A) (stop_ok x)"
    by (rule dspec_weaken [OF mark_spec]) simp
next
  fix b :: tool_builder
  let ?f = "\<lambda>b. b\<lparr>tbl_name := tbl_name b @ name\<rparr>"
  assume room: "\<not> max_tool_name_bytes < sat_add usize_max (length (tbl_name b)) (length name)"
  have step: "dec_ok x A (d\<lparr>dc_tools := bt_update k ?f (dc_tools d)\<rparr>, l)"
    if "dec_ok x A (d, l)" and "map_of (dc_tools d) k = Some b" for d l
  proof -
    have "builder_ok b \<Longrightarrow> builder_ok (?f b)"
      using room by (auto simp: builder_ok_def sat_add_def max_tool_name_bytes_def u64_max_def)
    then have "dec_ok x A (d\<lparr>dc_tools := bt_update k ?f (dc_tools d),
        dc_tool_argument_bytes := dc_tool_argument_bytes d\<rparr>, l)"
      using that by (intro update_builder_ok [of x A d l k b]) (auto simp: dec_ok_def tables_ok_def)
    then show ?thesis by simp
  qed
  show "dspec (\<lambda>s. dec_ok x A s \<and> map_of (dc_tools (fst s)) k = Some b)
      (d_update_builder k ?f) (\<lambda>_. dec_ok x A) (stop_ok x)"
    by (auto simp: dspec_def d_update_builder_def d_builder_def step_defs step)
qed

lemma append_arguments_spec:
  assumes "k \<in> A"
  shows "dspec (dec_ok x A) (append_arguments k args) (\<lambda>_. dec_ok x A) (stop_ok x)"
  unfolding append_arguments_def Let_def
proof (intro dspec_bind [OF builder_spec [OF assms]] dspec_get dspec_if)
  fix b :: tool_builder and d
  let ?P = "\<lambda>s. (dec_ok x A s \<and> map_of (dc_tools (fst s)) k = Some b) \<and> fst s = d"
  show "dspec ?P (mark_correlation_error k r) (\<lambda>_. dec_ok x A) (stop_ok x)" for r
    by (rule dspec_weaken [OF mark_spec]) simp
  show "dspec ?P (mark_correlation_error k r) (\<lambda>_. dec_ok x A) (stop_ok x)" for r
    by (rule dspec_weaken [OF mark_spec]) simp
  let ?f = "\<lambda>b. b\<lparr>tbl_arguments := tbl_arguments b @ args\<rparr>"
  let ?n = "sat_add usize_max (dc_tool_argument_bytes d) (length args)"
  assume room: "\<not> max_tool_argument_bytes_per_call
        < sat_add usize_max (length (tbl_arguments b)) (length args)"
    and total: "\<not> max_tool_argument_bytes_total < ?n"
  have n: "?n = dc_tool_argument_bytes d + length args"
    using total by (auto simp: sat_add_def max_tool_argument_bytes_total_def u64_max_def)
  have step: "dec_ok x A (d\<lparr>dc_tools := bt_update k ?f (dc_tools d), dc_tool_argument_bytes := ?n\<rparr>, l)"
    if "dec_ok x A (d, l)" and "map_of (dc_tools d) k = Some b" for l
    using total room n
    by (intro update_builder_ok [OF that])
      (auto simp: builder_ok_def sat_add_def max_tool_argument_bytes_per_call_def u64_max_def)
  show "dspec ?P (d_then (d_update_builder k ?f) (d_modify (\<lambda>d. d\<lparr>dc_tool_argument_bytes := ?n\<rparr>)))
      (\<lambda>_. dec_ok x A) (stop_ok x)"
    by (auto simp: dspec_def d_update_builder_def d_builder_def step_defs step)
qed

lemma record_identity_spec:
  assumes "k \<in> A" and "\<And>p. pid = Some p \<Longrightarrow> trim p \<noteq> [] \<and> length p \<le> max_tool_id_bytes"
  shows "dspec (dec_ok x A) (record_identity k i pid) (\<lambda>_. dec_ok x A) (stop_ok x)"
proof -
  have index: "dspec (dec_ok x A) (d_modify (\<lambda>d. d\<lparr>dc_tool_indices := or_insert j k (dc_tool_indices d)\<rparr>))
      (\<lambda>_. dec_ok x A) (stop_ok x)" for j
    using assms(1) by (intro dspec_modify) (auto simp: dec_ok_def tables_ok_def log_ok_def or_insert_def)
  have ident: "dspec (dec_ok x A) (d_modify (\<lambda>d. d\<lparr>dc_tool_ids := or_insert p k (dc_tool_ids d)\<rparr>))
      (\<lambda>_. dec_ok x A) (stop_ok x)" for p
    using assms(1) by (intro dspec_modify) (auto simp: dec_ok_def tables_ok_def log_ok_def or_insert_def)
  have name: "dspec (dec_ok x A) (d_update_builder k (\<lambda>b. b\<lparr>tbl_id := Some p\<rparr>)) (\<lambda>_. dec_ok x A) (stop_ok x)"
    if "pid = Some p" for p
    unfolding d_update_builder_def d_then_def
  proof (rule dspec_bind [OF builder_spec [OF assms(1)]], rule dspec_modify)
    fix b d l
    let ?f = "\<lambda>b. b\<lparr>tbl_id := Some p\<rparr>"
    assume s: "dec_ok x A (d, l) \<and> map_of (dc_tools (fst (d, l))) k = Some b"
    then have "dec_ok x A (d\<lparr>dc_tools := bt_update k ?f (dc_tools d),
        dc_tool_argument_bytes := dc_tool_argument_bytes d\<rparr>, l)"
      using assms(2) [OF that]
      by (intro update_builder_ok [of x A d l k b]) (auto simp: builder_ok_def dec_ok_def tables_ok_def)
    then show "dec_ok x A (d\<lparr>dc_tools := bt_update k ?f (dc_tools d)\<rparr>, l)" by simp
  qed
  have some: "dspec (dec_ok x A)
      (d_bind d_get (\<lambda>d. d_then (d_when (c d) (mark_correlation_error k r))
         (d_then (d_modify (\<lambda>d. d\<lparr>dc_tool_ids := or_insert p k (dc_tool_ids d)\<rparr>))
           (d_update_builder k (\<lambda>b. b\<lparr>tbl_id := Some p\<rparr>)))))
      (\<lambda>_. dec_ok x A) (stop_ok x)" if "pid = Some p" for p c r
    by (rule dspec_get, rule dspec_weaken [of "dec_ok x A"])
      (intro dspec_then [OF dspec_when [OF mark_spec]] dspec_then [OF ident] name [OF that], simp)
  show ?thesis
    unfolding record_identity_def
    by (cases i; cases pid) (simp_all add: dspec_seq dspec_skip some index)
qed

lemma append_function_spec:
  assumes "k \<in> A"
  shows "dspec (dec_ok x A) (append_function k call) (\<lambda>_. dec_ok x A) (stop_ok x)"
  unfolding append_function_def
  by (auto split: option.split
      intro!: dspec_seq dspec_skip append_name_spec [OF assms] append_arguments_spec [OF assms])

lemma accumulate_spec:
  "dspec (dec_ok x {}) (accumulate_tool fresh call batch) (\<lambda>_. dec_ok x {}) (stop_ok x)"
  unfolding accumulate_tool_def Let_def
proof (rule dspec_then [OF account_spec], rule dspec_get, rule dspec_bind [OF select_spec])
  fix d :: decoder and k
  let ?i = "Option.bind (jget call ''index'') as_u64" and ?raw = "provider_tool_id call"
  let ?over = "case ?raw of None \<Rightarrow> False | Some i \<Rightarrow> max_tool_id_bytes < length i"
  let ?pid = "if ?over then None else ?raw"
  show "k \<in> fst ` set (dc_tools d)"
    if "(if ?i = None \<and> ?pid = None \<and> \<not> batch then unique_keyed_open_slot d else None) = Some k"
    using that by (auto intro: slots_allocated split: if_splits)
  show "dspec (dec_ok x (insert k {}))
     (d_then (d_when ?over (mark_correlation_error k ''provider tool-call id exceeded the response limit''))
       (d_then (record_identity k ?i ?pid)
         (d_then (d_when (?i = None \<and> ?pid = None
              \<and> (if ?i = None \<and> ?pid = None \<and> \<not> batch then unique_keyed_open_slot d else None) = None
              \<and> \<not> ?over)
            (mark_correlation_error k ''tool-call fragment had neither a provider index nor a provider id''))
           (append_function k call))))
     (\<lambda>_. dec_ok x {}) (stop_ok x)"
  proof (rule dspec_strengthen [of _ _ "\<lambda>_. dec_ok x (insert k {})"])
    have "dspec (dec_ok x (insert k {})) (record_identity k ?i ?pid) (\<lambda>_. dec_ok x (insert k {})) (stop_ok x)"
      by (rule record_identity_spec)
        (auto simp: provider_tool_id_def split: option.splits if_splits)
    then show "dspec (dec_ok x (insert k {}))
     (d_then (d_when ?over (mark_correlation_error k ''provider tool-call id exceeded the response limit''))
       (d_then (record_identity k ?i ?pid)
         (d_then (d_when (?i = None \<and> ?pid = None
              \<and> (if ?i = None \<and> ?pid = None \<and> \<not> batch then unique_keyed_open_slot d else None) = None
              \<and> \<not> ?over)
            (mark_correlation_error k ''tool-call fragment had neither a provider index nor a provider id''))
           (append_function k call))))
     (\<lambda>_. dec_ok x (insert k {})) (stop_ok x)"
      by (intro dspec_seq dspec_when mark_spec append_function_spec) simp_all
  qed (auto simp: dec_ok_def)
qed

lemma log_ok_reasoning:
  assumes "log_ok d l" and "implied_provenance (dc_exposure d) = Some p" and "t \<noteq> []"
    and "dc_reasoning_bytes d + length t \<le> max_response_reasoning_bytes"
  shows "log_ok (d\<lparr>dc_reasoning_bytes := dc_reasoning_bytes d + length t, dc_emitted_output := True\<rparr>)
           (l @ [ReasoningDelta t p])"
  using assms by (auto simp: log_ok_def)

lemma log_ok_text:
  assumes "log_ok d l" and "t \<noteq> []" and "dc_text_bytes d + length t \<le> max_response_text_bytes"
  shows "log_ok (d\<lparr>dc_text_bytes := dc_text_bytes d + length t, dc_emitted_output := True\<rparr>)
           (l @ [TextDelta t])"
  using assms by (auto simp: log_ok_def)

lemma emit_reasoning_spec:
  "dspec (dec_ok x {}) (emit_reasoning delta) (\<lambda>_. dec_ok x {}) (stop_ok x)"
proof -
  have emit: "dspec (dec_ok x {})
      (d_then account_response_event (d_bind d_get (\<lambda>d.
         if max_response_reasoning_bytes < sat_add usize_max (dc_reasoning_bytes d) (length t)
         then limit_stop m
         else d_then (d_modify (\<lambda>d. d\<lparr>dc_reasoning_bytes := dc_reasoning_bytes d + length t\<rparr>))
                (d_then (d_emit (ReasoningDelta t p)) (d_modify (\<lambda>d. d\<lparr>dc_emitted_output := True\<rparr>))))))
      (\<lambda>_. dec_ok x {}) (stop_ok x)"
    if t: "t \<noteq> []" and p: "implied_provenance x = Some p" for t p m
  proof (rule dspec_then [OF account_spec], rule dspec_get, rule dspec_if)
    fix d :: decoder
    let ?P = "\<lambda>s. dec_ok x {} s \<and> fst s = d"
    show "dspec ?P (limit_stop m) (\<lambda>_. dec_ok x {}) (stop_ok x)"
      by (rule dspec_weaken [OF limit_stop_spec [of x "{}"]]) simp
    assume "\<not> max_response_reasoning_bytes < sat_add usize_max (dc_reasoning_bytes d) (length t)"
    then have room: "dc_reasoning_bytes d + length t \<le> max_response_reasoning_bytes"
      by (auto simp: sat_add_def max_response_reasoning_bytes_def u64_max_def)
    show "dspec ?P (d_then (d_modify (\<lambda>d. d\<lparr>dc_reasoning_bytes := dc_reasoning_bytes d + length t\<rparr>))
        (d_then (d_emit (ReasoningDelta t p)) (d_modify (\<lambda>d. d\<lparr>dc_emitted_output := True\<rparr>))))
        (\<lambda>_. dec_ok x {}) (stop_ok x)"
      using log_ok_reasoning [OF _ _ t room] p
      by (auto simp: dspec_def step_defs dec_ok_def tables_ok_def)
  qed
  show ?thesis
    unfolding emit_reasoning_def
  proof (rule dspec_get)
    fix d :: decoder
    let ?P = "\<lambda>s. dec_ok x {} s \<and> fst s = d"
    show "dspec ?P (case (reasoning_text delta, decoder_provenance d) of
         (Some reasoning, Some provenance) \<Rightarrow>
           d_when (reasoning \<noteq> [])
             (d_then account_response_event
               (d_bind d_get (\<lambda>d.
                  if max_response_reasoning_bytes < sat_add usize_max (dc_reasoning_bytes d) (length reasoning)
                  then limit_stop (''provider response exceeded the '' @ show_nat max_response_reasoning_bytes
                         @ ''-byte aggregate reasoning limit'')
                  else d_then (d_modify (\<lambda>d. d\<lparr>dc_reasoning_bytes := dc_reasoning_bytes d + length reasoning\<rparr>))
                         (d_then (d_emit (ReasoningDelta reasoning provenance))
                           (d_modify (\<lambda>d. d\<lparr>dc_emitted_output := True\<rparr>))))))
       | _ \<Rightarrow> d_return ()) (\<lambda>_. dec_ok x {}) (stop_ok x)"
    proof (cases "dc_exposure d = x")
      case True
      then have "decoder_provenance d = implied_provenance x" by (simp add: decoder_provenance_def)
      then show ?thesis
        by (intro dspec_weaken [of "dec_ok x {}" _ _ _ ?P])
          (auto split: option.split intro: dspec_skip dspec_when emit)
    next
      case False
      then show ?thesis by (auto simp: dspec_def dec_ok_def)
    qed
  qed
qed

lemma emit_text_spec: "dspec (dec_ok x {}) (emit_text delta) (\<lambda>_. dec_ok x {}) (stop_ok x)"
proof -
  have emit: "dspec (dec_ok x {})
      (d_then account_response_event (d_bind d_get (\<lambda>d.
         if max_response_text_bytes < sat_add usize_max (dc_text_bytes d) (length t)
         then limit_stop m
         else d_then (d_modify (\<lambda>d. d\<lparr>dc_text_bytes := dc_text_bytes d + length t\<rparr>))
                (d_then (d_emit (TextDelta t)) (d_modify (\<lambda>d. d\<lparr>dc_emitted_output := True\<rparr>))))))
      (\<lambda>_. dec_ok x {}) (stop_ok x)"
    if t: "t \<noteq> []" for t m
  proof (rule dspec_then [OF account_spec], rule dspec_get, rule dspec_if)
    fix d :: decoder
    let ?P = "\<lambda>s. dec_ok x {} s \<and> fst s = d"
    show "dspec ?P (limit_stop m) (\<lambda>_. dec_ok x {}) (stop_ok x)"
      by (rule dspec_weaken [OF limit_stop_spec [of x "{}"]]) simp
    assume "\<not> max_response_text_bytes < sat_add usize_max (dc_text_bytes d) (length t)"
    then have room: "dc_text_bytes d + length t \<le> max_response_text_bytes"
      by (auto simp: sat_add_def max_response_text_bytes_def u64_max_def)
    show "dspec ?P (d_then (d_modify (\<lambda>d. d\<lparr>dc_text_bytes := dc_text_bytes d + length t\<rparr>))
        (d_then (d_emit (TextDelta t)) (d_modify (\<lambda>d. d\<lparr>dc_emitted_output := True\<rparr>))))
        (\<lambda>_. dec_ok x {}) (stop_ok x)"
      using log_ok_text [OF _ t room]
      by (auto simp: dspec_def step_defs dec_ok_def tables_ok_def)
  qed
  show ?thesis
    unfolding emit_text_def
    by (auto split: option.split intro: dspec_skip dspec_when emit)
qed

lemma decode_choice_spec:
  "dspec (dec_ok x {}) (decode_choice fresh choice) (\<lambda>_. dec_ok x {}) (stop_ok x)"
proof -
  have finish: "dspec (dec_ok x {}) (d_modify (\<lambda>d. d\<lparr>dc_finish_reason := Some r\<rparr>))
      (\<lambda>_. dec_ok x {}) (stop_ok x)" for r
    by (rule dspec_modify) (auto simp: dec_ok_def log_ok_def tables_ok_def)
  have calls: "dspec (dec_ok x {}) (accumulate_calls fresh delta) (\<lambda>_. dec_ok x {}) (stop_ok x)" for delta
    unfolding accumulate_calls_def Let_def
    by (auto split: option.split intro: dspec_skip dspec_each accumulate_spec)
  show ?thesis
    unfolding decode_choice_def Let_def
    by (intro dspec_seq emit_reasoning_spec emit_text_spec calls)
      (auto split: option.split intro: dspec_skip finish)
qed

lemma decode_stream_spec:
  "dspec (dec_ok x {}) (decode_stream fresh chunks) (\<lambda>_. dec_ok x {}) (stop_ok x)"
proof -
  have usage: "dspec (dec_ok x {}) (d_modify (read_usage u)) (\<lambda>_. dec_ok x {}) (stop_ok x)" for u
    by (rule dspec_modify)
      (auto simp: read_usage_def Let_def dec_ok_def log_ok_def tables_ok_def)
  have "dspec (dec_ok x {}) (decode_chunk fresh c) (\<lambda>_. dec_ok x {}) (stop_ok x)" for c
    unfolding decode_chunk_def
    by (intro dspec_seq)
      (auto split: option.split intro: dspec_skip dspec_when usage dspec_each decode_choice_spec)
  then show ?thesis unfolding decode_stream_def by (rule dspec_each)
qed

lemma decode_stream_ok:
  assumes "decode_stream fresh chunks (new_decoder x, []) = (r, s)"
  shows "case r of Inl e \<Rightarrow> stop_ok x e s | Inr _ \<Rightarrow> dec_ok x {} s"
  using decode_stream_spec [of x fresh chunks, unfolded dspec_def] dec_ok_new [of x] assms
  by (fastforce split: sum.splits)

section \<open>Facts about the end of the stream\<close>

lemma decode_batch_Inr:
  "decode_batch parse schemas ids bs = Inr events \<longleftrightarrow>
     events = map (decoded_event parse schemas) bs
     \<and> distinct (map call_id bs) \<and> set ids \<inter> call_id ` set bs = {}"
proof (induction bs arbitrary: ids events)
  case Nil
  show ?case by auto
next
  case (Cons b bs)
  show ?case
  proof (cases "decode_batch parse schemas (call_id b # ids) bs")
    case (Inl f)
    with Cons.IH [of "call_id b # ids" "map (decoded_event parse schemas) bs"] show ?thesis by auto
  next
    case (Inr tail)
    with Cons.IH [of "call_id b # ids" tail] show ?thesis by auto
  qed
qed

lemma decode_batch_Inl:
  "decode_batch parse schemas ids bs = Inl f \<Longrightarrow> mf_kind f = Protocol \<and> \<not> mf_partial_output_emitted f"
  by (induction bs arbitrary: ids)
    (auto simp: decode_failure_def new_failure_def split: sum.splits if_splits)

lemma restore_omitted_object: "is_object v \<Longrightarrow> is_object (restore_omitted v schema)"
  by (cases v) (auto simp: restore_omitted.simps split: option.split)

lemma decode_arguments_object: "is_object (fst (decode_arguments parse schemas b))"
  by (auto simp: decode_arguments_def Let_def restore_omitted_object split: sum.split option.split)

lemma decoded_event_cases:
  "decoded_event parse schemas b =
     ToolCallEvent \<lparr> tc_id = call_id b, tc_name = tbl_name b,
       tc_arguments = fst (decode_arguments parse schemas b) \<rparr>
   \<and> tbl_correlation_error b = None \<and> snd (decode_arguments parse schemas b) = None
   \<or> (\<exists>r. decoded_event parse schemas b = ToolCallRejected (call_id b) (tbl_name b) r)"
  by (cases "decode_arguments parse schemas b")
    (auto simp: decoded_event_def split: option.splits)

fun event_call_id :: "provider_event \<Rightarrow> string option" where
  "event_call_id (ToolCallEvent c) = Some (tc_id c)"
| "event_call_id (ToolCallRejected i _ _) = Some i"
| "event_call_id _ = None"

lemma event_call_id_decoded [simp]: "event_call_id (decoded_event parse schemas b) = Some (call_id b)"
  using decoded_event_cases [of parse schemas b] by auto

text \<open>A single text chunk of a given size, and a decoder that holds one finished call.\<close>

definition text_chunk :: "nat \<Rightarrow> json" where
  "text_chunk n =
     JObj [(''choices'', JArr [JObj [(''delta'', JObj [(''content'', JStr (replicate n (CHR ''a'')))])]])]"

lemma text_chunk_overflows:
  assumes "max_response_text_bytes < n"
  shows "\<exists>e d. decode_stream fresh [text_chunk n] (new_decoder x, []) = (Inl e, (d, []))"
proof -
  have "max_response_text_bytes < sat_add usize_max 0 n"
    using assms by (simp add: sat_add_def max_response_text_bytes_def u64_max_def)
  moreover have "replicate n (CHR ''a'') \<noteq> []" using assms by simp
  ultimately show ?thesis
    by (simp add: decode_stream_def decode_chunk_def text_chunk_def decode_choice_def
        emit_reasoning_def reasoning_text_def emit_text_def content_text_def limit_stop_def
        account_response_event_def new_decoder_def max_response_events_def step_defs)
qed

definition finished_decoder :: decoder where
  "finished_decoder =
     (new_decoder ExposureNone)
       \<lparr>dc_tools := [(0, (new_builder ''local'')\<lparr>tbl_id := Some ''c1'', tbl_name := ''read''\<rparr>)],
         dc_next_tool_slot := 1\<rparr>"

section \<open>Properties\<close>



text \<open>
  At every point of every stream the decoder holds and has handed over no more than the
  response limits allow: text, reasoning, events, tool calls, argument bytes per call and in
  total, name and id lengths; and every event handed over before the end is non-empty text or
  reasoning with the provenance the endpoint declared, so none when it declared none.
\<close>

theorem decoder_respects_limits:
  assumes "decode_stream fresh chunks (new_decoder exposure, []) = (r, (d, sent))"
  shows "sum_list (map text_len sent) \<le> max_response_text_bytes
    \<and> sum_list (map reasoning_len sent) \<le> max_response_reasoning_bytes
    \<and> length (dc_tools d) \<le> max_response_tool_calls
    \<and> bt_sum (\<lambda>b. length (tbl_arguments b)) (dc_tools d) \<le> max_tool_argument_bytes_total
    \<and> (\<forall>b \<in> snd ` set (dc_tools d). builder_ok b)
    \<and> list_all (streamable exposure) sent"
proof -
  have "dec_ok exposure {} (d, sent)"
    using decode_stream_ok [OF assms] by (cases r) (auto simp: stop_ok_def)
  then show ?thesis by (auto simp: dec_ok_def tables_ok_def log_ok_def)
qed

theorem decoder_respects_limits_witness:
  "\<exists>r d. decode_stream (\<lambda>_. ''local'') [text_chunk 16777217] (new_decoder ExposureNone, []) = (r, (d, []))
     \<and> length (dc_tools d) \<le> max_response_tool_calls"
proof -
  have "max_response_text_bytes < 16777217" by (simp add: max_response_text_bytes_def)
  from text_chunk_overflows [OF this] obtain e d
    where run: "decode_stream (\<lambda>_. ''local'') [text_chunk 16777217] (new_decoder ExposureNone, [])
       = (Inl e, (d, []))" by blast
  from decoder_respects_limits [OF run] run show ?thesis by blast
qed

text \<open>
  C16: the end of a response is all or nothing. When it fails no tool call is emitted; when it
  succeeds every accumulated call is emitted once, in slot order, under distinct ids, and a
  call handed out for execution has an object as its arguments and no correlation error.
\<close>

theorem finish_is_atomic:
  assumes "decode_finish parse e d = (r, events)"
  shows "case r of
      Inl f \<Rightarrow> events = [] \<and> \<not> mf_partial_output_emitted f
    | Inr usage \<Rightarrow>
        map event_call_id events = map (\<lambda>b. Some (call_id b)) (map snd (dc_tools d))
        \<and> distinct (map event_call_id events)
        \<and> (\<forall>b c. (b, ToolCallEvent c) \<in> set (zip (map snd (dc_tools d)) events) \<longrightarrow>
             is_object (tc_arguments c) \<and> tbl_correlation_error b = None)"
proof (cases "decode_batch parse (dc_strict_tool_schemas d) [] (map snd (dc_tools d))")
  case (Inl f)
  with assms decode_batch_Inl [OF Inl] show ?thesis by (auto simp: decode_finish_def)
next
  case (Inr decoded)
  let ?bs = "map snd (dc_tools d)" and ?ev = "decoded_event parse (dc_strict_tool_schemas d)"
  from Inr have ev: "decoded = map ?ev ?bs" and dist: "distinct (map call_id ?bs)"
    by (simp_all only: decode_batch_Inr)
  have one: "is_object (tc_arguments c) \<and> tbl_correlation_error b = None" if "ToolCallEvent c = ?ev b" for b c
    using decoded_event_cases [of parse "dc_strict_tool_schemas d" b] that decode_arguments_object
    by auto
  show ?thesis
  proof (cases "completion_of d (dc_tools d \<noteq> []) e")
    case (Inl f)
    then have "dc_tools d = []" and "\<not> mf_partial_output_emitted f"
      by (auto simp: completion_of_def decode_failure_def new_failure_def split: stream_end.splits if_splits)
    with assms Inr Inl ev show ?thesis by (auto simp: decode_finish_def)
  next
    case inr: (Inr c)
    have "distinct (map (\<lambda>b. Some (call_id b)) ?bs)"
      using dist by (simp add: distinct_map inj_on_def)
    moreover have "map event_call_id (map ?ev ?bs) = map (\<lambda>b. Some (call_id b)) ?bs"
      by (simp del: map_map add: list.map_comp comp_def)
    moreover have "events = map ?ev ?bs" and "\<exists>u. r = Inr u"
      using assms Inr inr ev by (auto simp: decode_finish_def)
    moreover have "is_object (tc_arguments c) \<and> tbl_correlation_error b = None"
      if "(b, ToolCallEvent c) \<in> set (zip ?bs (map ?ev ?bs))" for b c
    proof -
      from that have "ToolCallEvent c = ?ev b" by (auto simp: set_zip)
      then show ?thesis by (rule one)
    qed
    ultimately show ?thesis by (auto simp del: map_map)
  qed
qed

theorem finish_is_atomic_witness:
  "\<exists>usage events. decode_finish (\<lambda>_. Inl ''unused'') CompleteBody finished_decoder = (Inr usage, events)
     \<and> map event_call_id events = [Some ''c1''] \<and> distinct (map event_call_id events)"
proof -
  have "trim [] = []" and "trim ''c1'' = ''c1''" by code_simp+
  then obtain usage events
    where run: "decode_finish (\<lambda>_. Inl ''unused'') CompleteBody finished_decoder = (Inr usage, events)"
      and id: "map (\<lambda>b. Some (call_id b)) (map snd (dc_tools finished_decoder)) = [Some ''c1'']"
    by (simp add: decode_finish_def finished_decoder_def new_decoder_def new_builder_def
        completion_of_def call_id_def)
  from finish_is_atomic [OF run] run id show ?thesis by auto
qed

text \<open>
  C38: a response is reported as complete only with evidence: a parsed body, a finish reason, or
  the end sentinel after some output. A stream that closes early with output is reported as
  unfinished, and one that closes early with nothing is a transport failure that is a
  candidate for a takeover but, being past the request boundary, not for a retry.
\<close>

theorem completion_needs_evidence:
  "(completion_of d called e = Inr Certain \<longleftrightarrow>
      e = CompleteBody \<or> (\<exists>reason. dc_finish_reason d = Some reason)
      \<or> e = DoneSentinel \<and> (dc_emitted_output d \<or> called))
   \<and> (completion_of d called e = Inr Unknown_Completion \<longleftrightarrow>
        e = EndedWithoutSentinel \<and> dc_finish_reason d = None \<and> (dc_emitted_output d \<or> called))
   \<and> (case completion_of d called EndedWithoutSentinel of
        Inl f \<Rightarrow> is_retryable (mf_kind f) \<and> is_failover_candidate (mf_kind f) \<and> \<not> safe_to_retry f
      | Inr _ \<Rightarrow> True)"
  by (cases e) (auto simp: completion_of_def safe_to_retry_def new_failure_def)

end
