(* ===== verification/Fragment_Assembly.thy ===== *)
theory Fragment_Assembly
  imports Stream_Decoder
begin

text \<open>
  What the correlation of \<open>decode.rs\<close> is for: the fragments of several tool calls, interleaved
  in any order and keyed by index (with the provider id on some of them), are put together
  into one call per index, each with its own name and arguments in arrival order.
\<close>

section \<open>Keyed fragments\<close>

record fragment =
  fr_index :: u64
  fr_id :: "string option"
  fr_name :: string
  fr_arguments :: string

definition fragment_json :: "fragment \<Rightarrow> json" where
  "fragment_json f =
     JObj ((''index'', JNum (PosInt (fr_index f)))
       # (case fr_id f of None \<Rightarrow> [] | Some p \<Rightarrow> [(''id'', JStr p)])
       @ [(''function'', JObj [(''name'', JStr (fr_name f)), (''arguments'', JStr (fr_arguments f))])])"

definition gather :: "(fragment \<Rightarrow> string) \<Rightarrow> u64 \<Rightarrow> fragment list \<Rightarrow> string" where
  "gather g i fs = concat (map g (filter (\<lambda>f. fr_index f = i) fs))"

definition indices :: "fragment list \<Rightarrow> u64 set" where
  "indices fs = fr_index ` set fs"

text \<open>
  The streams considered: ids are usable and name the index they come with, one id per index;
  the total sizes stay within the limits of a response.
\<close>

definition keyed_stream :: "(u64 \<Rightarrow> string) \<Rightarrow> fragment list \<Rightarrow> bool" where
  "keyed_stream idof fs \<longleftrightarrow>
     list_all (\<lambda>f. fr_id f = None \<or> fr_id f = Some (idof (fr_index f))) fs
     \<and> list_all (\<lambda>f. trim (idof (fr_index f)) \<noteq> [] \<and> length (idof (fr_index f)) \<le> max_tool_id_bytes) fs
     \<and> inj_on idof (indices fs)
     \<and> length fs \<le> max_response_events
     \<and> card (indices fs) \<le> max_response_tool_calls
     \<and> sum_list (map (\<lambda>f. length (fr_name f)) fs) \<le> max_tool_name_bytes
     \<and> sum_list (map (\<lambda>f. length (fr_arguments f)) fs) \<le> max_tool_argument_bytes_per_call"

lemma fragment_json_get [simp]:
  "jget (fragment_json f) ''index'' = Some (JNum (PosInt (fr_index f)))"
  "jget (fragment_json f) ''id'' = map_option JStr (fr_id f)"
  "jget (fragment_json f) ''function'' =
     Some (JObj [(''name'', JStr (fr_name f)), (''arguments'', JStr (fr_arguments f))])"
  by (auto simp: fragment_json_def split: option.split)

section \<open>The effect of one fragment on its slot\<close>

definition extend_builder :: "fragment \<Rightarrow> tool_builder \<Rightarrow> tool_builder" where
  "extend_builder f b =
     b\<lparr>tbl_id := or_else (fr_id f) (tbl_id b), tbl_name := tbl_name b @ fr_name f,
       tbl_arguments := tbl_arguments b @ fr_arguments f\<rparr>"

definition extend_slot :: "u64 \<Rightarrow> fragment \<Rightarrow> decoder \<Rightarrow> decoder" where
  "extend_slot k f d =
     d\<lparr>dc_tool_indices := or_insert (fr_index f) k (dc_tool_indices d),
       dc_tool_ids := (case fr_id f of None \<Rightarrow> dc_tool_ids d | Some p \<Rightarrow> or_insert p k (dc_tool_ids d)),
       dc_tools := bt_update k (extend_builder f) (dc_tools d),
       dc_tool_argument_bytes := dc_tool_argument_bytes d + length (fr_arguments f)\<rparr>"

lemma bt_update_comp: "bt_update k f (bt_update k g m) = bt_update k (\<lambda>v. f (g v)) m"
  by (simp add: bt_update_def comp_def case_prod_beta cong: map_cong)

lemma record_identity_run:
  assumes "map_of (dc_tools d) k = Some b"
    and "fr_id f = None \<or> tbl_id b = None \<or> tbl_id b = fr_id f"
  shows "record_identity k (Some (fr_index f)) (fr_id f) (d, l) =
     (Inr (), d\<lparr>dc_tool_indices := or_insert (fr_index f) k (dc_tool_indices d),
       dc_tool_ids := (case fr_id f of None \<Rightarrow> dc_tool_ids d | Some p \<Rightarrow> or_insert p k (dc_tool_ids d)),
       dc_tools := (case fr_id f of None \<Rightarrow> dc_tools d
                     | Some p \<Rightarrow> bt_update k (\<lambda>b. b\<lparr>tbl_id := Some p\<rparr>) (dc_tools d))\<rparr>, l)"
  using assms
  by (auto simp: record_identity_def d_update_builder_def d_builder_def step_defs split: option.split)

lemma append_function_run:
  assumes "map_of (dc_tools d) k = Some b"
    and "length (tbl_name b) + length (fr_name f) \<le> max_tool_name_bytes"
    and "length (tbl_arguments b) + length (fr_arguments f) \<le> max_tool_argument_bytes_per_call"
    and "dc_tool_argument_bytes d + length (fr_arguments f) \<le> max_tool_argument_bytes_total"
  shows "append_function k (fragment_json f) (d, l) =
     (Inr (), d\<lparr>dc_tools := bt_update k (\<lambda>b. b\<lparr>tbl_name := tbl_name b @ fr_name f,
                   tbl_arguments := tbl_arguments b @ fr_arguments f\<rparr>) (dc_tools d),
                dc_tool_argument_bytes := dc_tool_argument_bytes d + length (fr_arguments f)\<rparr>, l)"
proof -
  note sat = sat_add_exact [where mx = usize_max]
  have small: "max_tool_name_bytes \<le> usize_max" "max_tool_argument_bytes_per_call \<le> usize_max"
    "max_tool_argument_bytes_total \<le> usize_max"
    by (simp_all add: max_tool_name_bytes_def max_tool_argument_bytes_per_call_def
        max_tool_argument_bytes_total_def u64_max_def)
  have name: "append_name k (fr_name f) (d, l) =
     (Inr (), d\<lparr>dc_tools := bt_update k (\<lambda>b. b\<lparr>tbl_name := tbl_name b @ fr_name f\<rparr>) (dc_tools d)\<rparr>, l)"
    using assms(1,2) small(1)
    by (simp add: append_name_def d_update_builder_def d_builder_def step_defs sat)
  show ?thesis
    using assms small
    by (simp add: append_function_def d_then_def d_bind_def name append_arguments_def
        d_update_builder_def d_builder_def step_defs sat map_of_bt_update bt_update_comp Let_def)
qed

lemma extend_builder_split:
  "extend_builder f b = (case fr_id f of None \<Rightarrow> b | Some p \<Rightarrow> b\<lparr>tbl_id := Some p\<rparr>)
     \<lparr>tbl_name := tbl_name b @ fr_name f, tbl_arguments := tbl_arguments b @ fr_arguments f\<rparr>"
  by (simp add: extend_builder_def split: option.split)

lemma extend_run:
  assumes "map_of (dc_tools d) k = Some b"
    and "fr_id f = None \<or> tbl_id b = None \<or> tbl_id b = fr_id f"
    and "length (tbl_name b) + length (fr_name f) \<le> max_tool_name_bytes"
    and "length (tbl_arguments b) + length (fr_arguments f) \<le> max_tool_argument_bytes_per_call"
    and "dc_tool_argument_bytes d + length (fr_arguments f) \<le> max_tool_argument_bytes_total"
  shows "d_then (record_identity k (Some (fr_index f)) (fr_id f)) (append_function k (fragment_json f)) (d, l)
     = (Inr (), extend_slot k f d, l)"
proof (cases "fr_id f")
  case None
  have "extend_builder f = (\<lambda>b. b\<lparr>tbl_name := tbl_name b @ fr_name f,
      tbl_arguments := tbl_arguments b @ fr_arguments f\<rparr>)"
    by (simp add: extend_builder_split None fun_eq_iff)
  then show ?thesis
    unfolding d_then_def d_bind_def record_identity_run [OF assms(1,2)]
    using assms by (simp add: append_function_run None extend_slot_def)
next
  case (Some p)
  have "(\<lambda>b. b\<lparr>tbl_id := Some p, tbl_name := tbl_name b @ fr_name f,
      tbl_arguments := tbl_arguments b @ fr_arguments f\<rparr>) = extend_builder f"
    by (simp add: extend_builder_split Some fun_eq_iff)
  then show ?thesis
    unfolding d_then_def d_bind_def record_identity_run [OF assms(1,2)]
    using assms(1,3-)
    by (simp add: append_function_run [where b = "b\<lparr>tbl_id := Some p\<rparr>"] Some extend_slot_def
        map_of_bt_update bt_update_comp)
qed

section \<open>The invariant of the assembly\<close>

definition seen_id :: "(u64 \<Rightarrow> string) \<Rightarrow> u64 \<Rightarrow> fragment list \<Rightarrow> string option" where
  "seen_id idof i fs =
     (if list_ex (\<lambda>f. fr_index f = i \<and> fr_id f \<noteq> None) fs then Some (idof i) else None)"

definition assembled_builder :: "(u64 \<Rightarrow> string) \<Rightarrow> fragment list \<Rightarrow> u64 \<Rightarrow> tool_builder \<Rightarrow> bool" where
  "assembled_builder idof fs i b \<longleftrightarrow>
     tbl_id b = seen_id idof i fs \<and> tbl_name b = gather fr_name i fs
     \<and> tbl_arguments b = gather fr_arguments i fs \<and> tbl_correlation_error b = None"

definition assembled :: "(u64 \<Rightarrow> string) \<Rightarrow> fragment list \<Rightarrow> decoder \<Rightarrow> bool" where
  "assembled idof fs d \<longleftrightarrow>
     tables_ok d
     \<and> dc_response_events d = length fs
     \<and> dc_tool_argument_bytes d = sum_list (map (\<lambda>f. length (fr_arguments f)) fs)
     \<and> dom (map_of (dc_tool_indices d)) = indices fs
     \<and> inj_on (map_of (dc_tool_indices d)) (indices fs)
     \<and> fst ` set (dc_tools d) \<subseteq> snd ` set (dc_tool_indices d)
     \<and> length (dc_tools d) = card (indices fs)
     \<and> (\<forall>i s. map_of (dc_tool_indices d) i = Some s \<longrightarrow>
          (\<exists>b. map_of (dc_tools d) s = Some b \<and> assembled_builder idof fs i b))
     \<and> (\<forall>p s. map_of (dc_tool_ids d) p = Some s \<longrightarrow>
          (\<exists>i. map_of (dc_tool_indices d) i = Some s \<and> p = idof i))"

lemma assembled_new: "assembled idof [] (new_decoder x)"
  by (simp add: assembled_def new_decoder_def tables_ok_def indices_def)

lemma assembled_no_uncorrelated: "assembled idof fs d \<Longrightarrow> uncorrelated_tool_slots d = []"
proof -
  assume "assembled idof fs d"
  then have *: "indexed_slot d k" if "(k, b) \<in> set (dc_tools d)" for k b
    using that unfolding assembled_def indexed_slot_def list_ex_iff by fastforce
  show ?thesis
    unfolding uncorrelated_tool_slots_def
    by (auto simp: filter_empty_conv dest: *)
qed

lemma gather_append: "gather g i (fs @ [f]) = gather g i fs @ (if fr_index f = i then g f else [])"
  by (simp add: gather_def)

lemma seen_id_append:
  "fr_id f = None \<or> fr_id f = Some (idof (fr_index f)) \<Longrightarrow>
   seen_id idof i (fs @ [f]) =
     (if fr_index f = i then or_else (fr_id f) (seen_id idof i fs) else seen_id idof i fs)"
  by (cases "fr_id f") (auto simp: seen_id_def)

lemma gather_le: "length (gather g i fs) \<le> sum_list (map (\<lambda>f. length (g f)) fs)"
  by (induction fs) (auto simp: gather_def)

text \<open>The decoder after the fragment's slot \<open>k\<close> is known or allocated, and the event counted.\<close>

definition after_slot :: "(u64 \<Rightarrow> string) \<Rightarrow> fragment \<Rightarrow> decoder \<Rightarrow> u64 \<times> decoder" where
  "after_slot fresh f d =
     (case map_of (dc_tool_indices d) (fr_index f) of
        Some k \<Rightarrow> (k, d)
      | None \<Rightarrow> (dc_next_tool_slot d,
                 d\<lparr>dc_next_tool_slot := Suc (dc_next_tool_slot d),
                   dc_tools := bt_insert (dc_next_tool_slot d)
                     (new_builder (fresh (dc_next_tool_slot d))) (dc_tools d)\<rparr>))"

lemma select_run:
  assumes "assembled idof fs d" and "keyed_stream idof (fs @ [f])"
  shows "select_slot fresh (Some (fr_index f)) (fr_id f) batch None (d\<lparr>dc_response_events := n\<rparr>)
           (d\<lparr>dc_response_events := n\<rparr>, l)
       = (Inr (fst (after_slot fresh f d)), (snd (after_slot fresh f d))\<lparr>dc_response_events := n\<rparr>, l)"
proof -
  let ?i = "fr_index f" and ?d = "d\<lparr>dc_response_events := n\<rparr>"
  have id: "fr_id f = None \<or> fr_id f = Some (idof ?i)" and inj: "inj_on idof (indices (fs @ [f]))"
    using assms(2) by (auto simp: keyed_stream_def)
  have ids: "map_of (dc_tool_indices d) ?i = Some s" if "Option.bind (fr_id f) (map_of (dc_tool_ids d)) = Some s" for s
  proof -
    from that id have "map_of (dc_tool_ids d) (idof ?i) = Some s" by (auto simp: bind_eq_Some_conv)
    then obtain j where j: "map_of (dc_tool_indices d) j = Some s" "idof ?i = idof j"
      using assms(1) unfolding assembled_def by blast
    from j(1) have "j \<in> indices fs" using assms(1) by (auto simp: assembled_def)
    then have "j = ?i" using inj j(2) by (auto simp: indices_def inj_on_def)
    with j show ?thesis by simp
  qed
  show ?thesis
  proof (cases "map_of (dc_tool_indices d) ?i")
    case (Some k)
    then show ?thesis
      using ids by (auto simp: select_slot_def after_slot_def Let_def step_defs split: option.split)
  next
    case None
    with ids have no_id: "Option.bind (fr_id f) (map_of (dc_tool_ids d)) = None"
      by (cases "Option.bind (fr_id f) (map_of (dc_tool_ids d))") auto
    have unc: "uncorrelated_tool_slots ?d = []"
      using assembled_no_uncorrelated [OF assms(1)]
      by (simp add: uncorrelated_tool_slots_def indexed_slot_def)
    have new: "?i \<notin> indices fs" using None assms(1) by (auto simp: assembled_def domIff)
    have "card (indices (fs @ [f])) = Suc (card (indices fs))"
      using new by (simp add: indices_def)
    then have room: "length (dc_tools d) < max_response_tool_calls"
      using assms by (simp add: assembled_def keyed_stream_def)
    moreover have "dc_next_tool_slot d = length (dc_tools d)"
      using assms(1) by (simp add: assembled_def tables_ok_def)
    ultimately have next_ok: "checked_add u64_max (dc_next_tool_slot d) 1 = Some (Suc (dc_next_tool_slot d))"
      by (simp add: max_response_tool_calls_def u64_max_def)
    show ?thesis
      using None no_id unc room next_ok
      by (simp add: select_slot_def after_slot_def Let_def ambiguous_slot_def new_tool_slot_def
          step_defs checked_add_def)
  qed
qed

lemma map_of_or_insert:
  "map_of (or_insert k v m) j = (if j = k \<and> map_of m k = None then Some v else map_of m j)"
  by (auto simp: or_insert_def)

lemma set_or_insert: "snd ` set (or_insert k v m) \<subseteq> insert v (snd ` set m)"
  "snd ` set m \<subseteq> snd ` set (or_insert k v m)"
  by (auto simp: or_insert_def)

text \<open>The slot of the fragment before it is extended: its builder holds what came before.\<close>

lemma after_slot_builder:
  assumes "assembled idof fs d" and "after_slot fresh f d = (k, d')"
  shows "\<exists>b. map_of (dc_tools d') k = Some b \<and> assembled_builder idof fs (fr_index f) b"
proof (cases "map_of (dc_tool_indices d) (fr_index f)")
  case (Some s)
  with assms show ?thesis by (auto simp: after_slot_def assembled_def)
next
  case None
  then have "fr_index f \<notin> indices fs" using assms(1) by (auto simp: assembled_def domIff)
  then have "filter (\<lambda>g. fr_index g = fr_index f) fs = []" and "seen_id idof (fr_index f) fs = None"
    by (auto simp: indices_def filter_empty_conv seen_id_def list_ex_iff) (metis image_eqI)+
  then have "assembled_builder idof fs (fr_index f) (new_builder i)" for i
    by (simp add: assembled_builder_def gather_def new_builder_def)
  moreover have "bt_ok (dc_tools d)" using assms(1) by (simp add: assembled_def tables_ok_def)
  ultimately show ?thesis
    using assms(2) None by (auto simp: after_slot_def map_of_bt_insert)
qed

lemma after_slot_tables:
  assumes "assembled idof fs d" and "keyed_stream idof (fs @ [f])" and "after_slot fresh f d = (k, d')"
  shows "tables_ok d'" and "dc_tool_indices d' = dc_tool_indices d" and "dc_tool_ids d' = dc_tool_ids d"
    and "dc_tool_argument_bytes d' = dc_tool_argument_bytes d"
    and "length (dc_tools d') = card (indices (fs @ [f]))"
    and "fst ` set (dc_tools d') = insert k (fst ` set (dc_tools d))"
    and "\<And>s. s \<noteq> k \<Longrightarrow> map_of (dc_tools d') s = map_of (dc_tools d) s"
    and "map_of (dc_tool_indices d) (fr_index f) = None \<Longrightarrow> k \<notin> fst ` set (dc_tools d)"
    and "map_of (dc_tool_indices d) (fr_index f) \<noteq> None \<Longrightarrow> map_of (dc_tool_indices d) (fr_index f) = Some k"
proof -
  have t: "tables_ok d" and len: "length (dc_tools d) = card (indices fs)"
    and dom: "dom (map_of (dc_tool_indices d)) = indices fs"
    using assms(1) by (auto simp: assembled_def)
  have ok: "bt_ok (dc_tools d)" using t by (simp add: tables_ok_def)
  have fresh_slot: "dc_next_tool_slot d \<notin> fst ` set (dc_tools d)" using t by (force simp: tables_ok_def)
  have idx: "indices (fs @ [f]) = insert (fr_index f) (indices fs)" by (simp add: indices_def)
  have known: "k \<in> fst ` set (dc_tools d)" if "map_of (dc_tool_indices d) (fr_index f) = Some k"
    using that assms(1) unfolding assembled_def by (metis domI dom_map_of_conv_image_fst)
  have room: "length (dc_tools d) < max_response_tool_calls"
    if "map_of (dc_tool_indices d) (fr_index f) = None"
  proof -
    have "fr_index f \<notin> indices fs" using that dom by (auto simp: domIff)
    then have "card (indices (fs @ [f])) = Suc (card (indices fs))" by (simp add: indices_def)
    then show ?thesis using assms(2) len by (simp add: keyed_stream_def)
  qed
  note eq = assms(3) [unfolded after_slot_def]
  show "tables_ok d'"
    using eq t tables_ok_new_slot [OF t room] by (auto split: option.splits)
  show "dc_tool_indices d' = dc_tool_indices d" "dc_tool_ids d' = dc_tool_ids d"
    "dc_tool_argument_bytes d' = dc_tool_argument_bytes d"
    using eq by (auto split: option.splits)
  show "length (dc_tools d') = card (indices (fs @ [f]))"
  proof (cases "map_of (dc_tool_indices d) (fr_index f)")
    case None
    then have "fr_index f \<notin> indices fs" using dom by (auto simp: domIff)
    then have "card (indices (fs @ [f])) = Suc (card (indices fs))" by (simp add: indices_def)
    with None eq len fresh_slot show ?thesis by (auto simp: length_bt_insert_new)
  next
    case (Some s)
    then have "fr_index f \<in> indices fs" using dom by auto
    then have "indices (fs @ [f]) = indices fs" using idx by auto
    with Some eq len show ?thesis by auto
  qed
  show "fst ` set (dc_tools d') = insert k (fst ` set (dc_tools d))"
    using eq known
    by (cases "map_of (dc_tool_indices d) (fr_index f)")
      (clarsimp simp: fst_bt_insert insert_absorb simp del: set_map)+
  show "s \<noteq> k \<Longrightarrow> map_of (dc_tools d') s = map_of (dc_tools d) s" for s
    using eq ok by (auto simp: map_of_bt_insert split: option.splits)
  show "map_of (dc_tool_indices d) (fr_index f) = None \<Longrightarrow> k \<notin> fst ` set (dc_tools d)"
    using eq fresh_slot by (auto split: option.splits)
  show "map_of (dc_tool_indices d) (fr_index f) \<noteq> None \<Longrightarrow> map_of (dc_tool_indices d) (fr_index f) = Some k"
    using eq by (auto split: option.splits)
qed

lemma extended_tables_ok:
  assumes t: "tables_ok d" and b: "map_of (dc_tools d) k = Some b"
    and name: "length (tbl_name b) + length (fr_name f) \<le> max_tool_name_bytes"
    and args: "length (tbl_arguments b) + length (fr_arguments f) \<le> max_tool_argument_bytes_per_call"
    and total: "dc_tool_argument_bytes d + length (fr_arguments f) \<le> max_tool_argument_bytes_total"
    and id: "\<And>p. fr_id f = Some p \<Longrightarrow> trim p \<noteq> [] \<and> length p \<le> max_tool_id_bytes"
  shows "tables_ok (extend_slot k f d)"
proof -
  have dist: "distinct (map fst (dc_tools d))" using t by (simp add: tables_ok_def bt_ok_distinct)
  have k: "k \<in> fst ` set (dc_tools d)" using b by (force dest: map_of_SomeD)
  have "tables_ok (d\<lparr>dc_tools := bt_update k (extend_builder f) (dc_tools d),
      dc_tool_argument_bytes := dc_tool_argument_bytes d + length (fr_arguments f)\<rparr>)"
  proof (rule tables_ok_update [OF t _ _ total])
    fix c assume c: "(k, c) \<in> set (dc_tools d)" and ok: "builder_ok c"
    have "c = b" using c b dist by (metis map_of_is_SomeI option.inject)
    then show "builder_ok (extend_builder f c)"
      using ok name args id
      by (cases "fr_id f") (auto simp: builder_ok_def extend_builder_def split: option.splits)
  next
    show "bt_sum (\<lambda>b. length (tbl_arguments b)) (bt_update k (extend_builder f) (dc_tools d)) =
        dc_tool_argument_bytes d + length (fr_arguments f)"
      using bt_sum_update [OF dist b, of "\<lambda>b. length (tbl_arguments b)" "extend_builder f"] t
      by (simp add: tables_ok_def extend_builder_def)
  qed
  then show ?thesis
    using k set_or_insert(1) [of "fr_index f" k "dc_tool_indices d"]
    by (auto simp: tables_ok_def extend_slot_def or_insert_def split: option.splits)
qed

lemma assembled_builder_extend:
  assumes "assembled_builder idof fs (fr_index f) b"
    and "fr_id f = None \<or> fr_id f = Some (idof (fr_index f))"
  shows "assembled_builder idof (fs @ [f]) (fr_index f) (extend_builder f b)"
  using assms by (simp add: assembled_builder_def extend_builder_def gather_append seen_id_append)

lemma assembled_builder_other:
  assumes "assembled_builder idof fs i b" and "i \<noteq> fr_index f"
    and "fr_id f = None \<or> fr_id f = Some (idof (fr_index f))"
  shows "assembled_builder idof (fs @ [f]) i b"
  using assms by (auto simp: assembled_builder_def gather_append seen_id_append)

lemma assembled_extend:
  assumes a: "assembled idof fs d" and ks: "keyed_stream idof (fs @ [f])"
    and after: "after_slot fresh f d = (k, d')"
  shows "assembled idof (fs @ [f]) ((extend_slot k f d')\<lparr>dc_response_events := Suc (length fs)\<rparr>)"
    (is "assembled _ _ ?e")
proof -
  let ?i = "fr_index f" and ?ix = "map_of (dc_tool_indices d)"
  note tab = after_slot_tables [OF a ks after]
  have id: "fr_id f = None \<or> fr_id f = Some (idof ?i)"
    and idok: "trim (idof ?i) \<noteq> [] \<and> length (idof ?i) \<le> max_tool_id_bytes"
    and name: "sum_list (map (\<lambda>f. length (fr_name f)) (fs @ [f])) \<le> max_tool_name_bytes"
    and args: "sum_list (map (\<lambda>f. length (fr_arguments f)) (fs @ [f])) \<le> max_tool_argument_bytes_per_call"
    using ks by (auto simp: keyed_stream_def)
  obtain b where b: "map_of (dc_tools d') k = Some b" and ab: "assembled_builder idof fs ?i b"
    using after_slot_builder [OF a after] by blast
  have bytes: "dc_tool_argument_bytes d' = sum_list (map (\<lambda>f. length (fr_arguments f)) fs)"
    and dom: "dom ?ix = indices fs" and inj: "inj_on ?ix (indices fs)"
    and keys: "fst ` set (dc_tools d) \<subseteq> snd ` set (dc_tool_indices d)"
    and builders: "\<And>i s. ?ix i = Some s \<Longrightarrow>
       \<exists>b. map_of (dc_tools d) s = Some b \<and> assembled_builder idof fs i b"
    and ids: "\<And>p s. map_of (dc_tool_ids d) p = Some s \<Longrightarrow> \<exists>i. ?ix i = Some s \<and> p = idof i"
    using a tab(4) by (auto simp: assembled_def)
  have "tables_ok (extend_slot k f d')"
    using tab(1) b
  proof (rule extended_tables_ok)
    show "length (tbl_name b) + length (fr_name f) \<le> max_tool_name_bytes"
      using ab name gather_le [of fr_name ?i fs] by (simp add: assembled_builder_def)
    show "length (tbl_arguments b) + length (fr_arguments f) \<le> max_tool_argument_bytes_per_call"
      using ab args gather_le [of fr_arguments ?i fs] by (simp add: assembled_builder_def)
    show "dc_tool_argument_bytes d' + length (fr_arguments f) \<le> max_tool_argument_bytes_total"
      using args bytes
      by (simp add: max_tool_argument_bytes_per_call_def max_tool_argument_bytes_total_def)
  qed (use id idok in auto)
  then have 1: "tables_ok ?e" by (auto simp: tables_ok_def)
  have ix0: "map_of (dc_tool_indices (extend_slot k f d')) = ?ix(?i \<mapsto> k)"
    using tab(2,9) by (auto simp: extend_slot_def map_of_or_insert fun_eq_iff)
  then have ix: "map_of (dc_tool_indices ?e) = ?ix(?i \<mapsto> k)" by simp
  have idx: "indices (fs @ [f]) = insert ?i (indices fs)" by (simp add: indices_def)
  have other: "s \<noteq> k" if "?ix i = Some s" "i \<noteq> ?i" for i s
  proof
    assume "s = k"
    have s: "s \<in> fst ` set (dc_tools d)" using builders [OF that(1)] by (force dest: map_of_SomeD)
    with \<open>s = k\<close> tab(8,9) have "?ix ?i = Some k" by blast
    with that \<open>s = k\<close> inj dom show False by (metis domI inj_onD)
  qed
  have 2: "dom (map_of (dc_tool_indices ?e)) = indices (fs @ [f])"
    unfolding ix idx using dom by auto
  have 3: "inj_on (map_of (dc_tool_indices ?e)) (indices (fs @ [f]))"
    unfolding ix idx
  proof (rule inj_onI)
    fix i j
    assume ij: "i \<in> insert ?i (indices fs)" "j \<in> insert ?i (indices fs)"
      and eq: "(?ix(?i \<mapsto> k)) i = (?ix(?i \<mapsto> k)) j"
    show "i = j"
    proof (cases "i = ?i \<or> j = ?i")
      case True
      then show ?thesis using eq ij other dom by (auto split: if_splits) (metis domD)+
    next
      case False
      with eq ij inj show ?thesis by (auto dest: inj_onD)
    qed
  qed
  have "k \<in> snd ` set (dc_tool_indices ?e)"
    using ix by (metis fun_upd_same image_eqI map_of_SomeD snd_conv)
  then have 4: "fst ` set (dc_tools ?e) \<subseteq> snd ` set (dc_tool_indices ?e)"
    using keys tab(2,6) set_or_insert(2) [of "dc_tool_indices d" ?i k]
    by (auto simp: extend_slot_def simp del: set_map)
  have tools: "map_of (dc_tools (extend_slot k f d')) s =
      (if s = k then map_option (extend_builder f) (map_of (dc_tools d') s) else map_of (dc_tools d') s)" for s
    by (simp add: extend_slot_def map_of_bt_update)
  have 5: "\<exists>b. map_of (dc_tools ?e) s = Some b \<and> assembled_builder idof (fs @ [f]) i b"
    if "map_of (dc_tool_indices ?e) i = Some s" for i s
  proof (cases "i = ?i")
    case True
    with that have "s = k" by (simp add: ix0)
    with True b assembled_builder_extend [OF ab id] show ?thesis by (simp add: tools)
  next
    case False
    with that have old: "?ix i = Some s" by (simp add: ix0)
    from builders [OF old] obtain c where c: "map_of (dc_tools d) s = Some c"
      and ac: "assembled_builder idof fs i c" by blast
    from assembled_builder_other [OF ac False id] c other [OF old False] tab(7) [of s]
    show ?thesis by (simp add: tools)
  qed
  have 6: "\<exists>i. map_of (dc_tool_indices ?e) i = Some s \<and> p = idof i"
    if "map_of (dc_tool_ids ?e) p = Some s" for p s
  proof (cases "map_of (dc_tool_ids d) p = Some s")
    case True
    from ids [OF this] obtain i where i: "?ix i = Some s" "p = idof i" by blast
    then have "(?ix(?i \<mapsto> k)) i = Some s" using tab(9) by auto
    with i show ?thesis unfolding ix by blast
  next
    case False
    with that tab(3) id have "p = idof ?i" "s = k"
      by (auto simp: extend_slot_def map_of_or_insert split: option.splits if_splits)
    then show ?thesis by (auto simp: ix0)
  qed
  have 7: "length (dc_tools ?e) = card (indices (fs @ [f]))"
    using tab(5) by (simp add: extend_slot_def)
  have 8: "dc_tool_argument_bytes ?e = sum_list (map (\<lambda>f. length (fr_arguments f)) (fs @ [f]))"
    using bytes by (simp add: extend_slot_def)
  show ?thesis
    unfolding assembled_def using 1 2 3 4 5 6 7 8 by simp
qed

lemma d_then_skip: "d_then (d_return ()) m = m"
  by (simp add: fun_eq_iff step_defs)

lemma accumulate_run:
  assumes a: "assembled idof fs d" and ks: "keyed_stream idof (fs @ [f])"
  shows "\<exists>d'. accumulate_tool fresh (fragment_json f) batch (d, l) = (Inr (), d', l)
           \<and> assembled idof (fs @ [f]) d'"
proof -
  obtain k d1 where after: "after_slot fresh f d = (k, d1)" by fastforce
  let ?n = "Suc (length fs)"
  let ?d1 = "d1\<lparr>dc_response_events := ?n\<rparr>"
  have id: "fr_id f = None \<or> fr_id f = Some (idof (fr_index f))"
    and idok: "trim (idof (fr_index f)) \<noteq> [] \<and> length (idof (fr_index f)) \<le> max_tool_id_bytes"
    and events: "length (fs @ [f]) \<le> max_response_events"
    and name: "sum_list (map (\<lambda>f. length (fr_name f)) (fs @ [f])) \<le> max_tool_name_bytes"
    and args: "sum_list (map (\<lambda>f. length (fr_arguments f)) (fs @ [f])) \<le> max_tool_argument_bytes_per_call"
    using ks by (auto simp: keyed_stream_def)
  have ev: "dc_response_events d = length fs"
    and bytes: "dc_tool_argument_bytes d = sum_list (map (\<lambda>f. length (fr_arguments f)) fs)"
    using a by (auto simp: assembled_def)
  obtain b where b: "map_of (dc_tools d1) k = Some b" and ab: "assembled_builder idof fs (fr_index f) b"
    using after_slot_builder [OF a after] by blast
  have pid: "provider_tool_id (fragment_json f) = fr_id f"
    using id idok by (auto simp: provider_tool_id_def)
  have small: "\<not> (case fr_id f of None \<Rightarrow> False | Some i \<Rightarrow> max_tool_id_bytes < length i)"
    using id idok by (auto split: option.split)
  have account: "account_response_event (d, l) = (Inr (), d\<lparr>dc_response_events := ?n\<rparr>, l)"
    using events ev by (simp add: account_response_event_def step_defs)
  have select: "select_slot fresh (Some (fr_index f)) (fr_id f) batch None (d\<lparr>dc_response_events := ?n\<rparr>)
      (d\<lparr>dc_response_events := ?n\<rparr>, l) = (Inr k, ?d1, l)"
    using select_run [OF a ks, of fresh batch ?n l] after by simp
  have run: "d_then (record_identity k (Some (fr_index f)) (fr_id f)) (append_function k (fragment_json f))
      (?d1, l) = (Inr (), extend_slot k f ?d1, l)"
  proof (rule extend_run)
    show "map_of (dc_tools ?d1) k = Some b" by (simp add: b)
    show "fr_id f = None \<or> tbl_id b = None \<or> tbl_id b = fr_id f"
      using ab id by (auto simp: assembled_builder_def seen_id_def)
    show "length (tbl_name b) + length (fr_name f) \<le> max_tool_name_bytes"
      using ab name gather_le [of fr_name "fr_index f" fs] by (simp add: assembled_builder_def)
    show "length (tbl_arguments b) + length (fr_arguments f) \<le> max_tool_argument_bytes_per_call"
      using ab args gather_le [of fr_arguments "fr_index f" fs] by (simp add: assembled_builder_def)
    show "dc_tool_argument_bytes ?d1 + length (fr_arguments f) \<le> max_tool_argument_bytes_total"
      using args bytes after_slot_tables(4) [OF a ks after]
      by (simp add: max_tool_argument_bytes_per_call_def max_tool_argument_bytes_total_def)
  qed
  have "accumulate_tool fresh (fragment_json f) batch =
      d_then account_response_event (d_bind d_get (\<lambda>d.
        d_bind (select_slot fresh (Some (fr_index f)) (fr_id f) batch None d) (\<lambda>slot.
          d_then (record_identity slot (Some (fr_index f)) (fr_id f))
            (append_function slot (fragment_json f)))))"
    by (simp add: accumulate_tool_def Let_def pid small d_when_def d_then_skip)
  then have "accumulate_tool fresh (fragment_json f) batch (d, l) = (Inr (), extend_slot k f ?d1, l)"
    using run by (simp add: d_then_def [of account_response_event] d_bind_def d_get_def account select)
  moreover have "extend_slot k f ?d1 = (extend_slot k f d1)\<lparr>dc_response_events := ?n\<rparr>"
    by (cases "fr_id f") (simp_all add: extend_slot_def)
  ultimately show ?thesis using assembled_extend [OF a ks after] by auto
qed

lemma indices_mono: "set fs \<subseteq> set gs \<Longrightarrow> indices fs \<subseteq> indices gs"
  by (auto simp: indices_def)

lemma keyed_stream_prefix: "keyed_stream idof (fs @ gs) \<Longrightarrow> keyed_stream idof fs"
proof -
  assume ks: "keyed_stream idof (fs @ gs)"
  have sub: "indices fs \<subseteq> indices (fs @ gs)" by (rule indices_mono) simp
  then have "card (indices fs) \<le> card (indices (fs @ gs))"
    by (intro card_mono) (simp_all add: indices_def)
  with ks sub show ?thesis
    by (auto simp: keyed_stream_def intro: inj_on_subset)
qed

lemma accumulate_all:
  "assembled idof fs d \<Longrightarrow> keyed_stream idof (fs @ gs) \<Longrightarrow>
     \<exists>d'. d_each (\<lambda>c. accumulate_tool fresh c batch) (map fragment_json gs) (d, l) = (Inr (), d', l)
       \<and> assembled idof (fs @ gs) d'"
proof (induction gs arbitrary: fs d)
  case Nil
  then show ?case by (auto simp: d_return_def)
next
  case (Cons g gs)
  have "keyed_stream idof (fs @ [g])" using Cons.prems(2) keyed_stream_prefix [of idof "fs @ [g]" gs] by simp
  from accumulate_run [OF Cons.prems(1) this]
  obtain d1 where d1: "accumulate_tool fresh (fragment_json g) batch (d, l) = (Inr (), d1, l)"
    and a1: "assembled idof (fs @ [g]) d1" by blast
  from Cons.IH [OF a1] Cons.prems(2) show ?case
    by (simp add: d_then_def d_bind_def d1)
qed

section \<open>Whole streams\<close>

definition fragment_chunk :: "fragment list \<Rightarrow> json" where
  "fragment_chunk fs =
     JObj [(''choices'', JArr [JObj [(''delta'', JObj [(''tool_calls'', JArr (map fragment_json fs))])]])]"

lemma fragment_chunk_run:
  assumes "assembled idof fs d" and "keyed_stream idof (fs @ gs)"
  shows "\<exists>d'. decode_chunk fresh (fragment_chunk gs) (d, l) = (Inr (), d', l) \<and> assembled idof (fs @ gs) d'"
proof -
  obtain d' where d': "d_each (\<lambda>c. accumulate_tool fresh c
        (1 < length (filter uncorrelated_fragment (map fragment_json gs)))) (map fragment_json gs) (d, l)
      = (Inr (), d', l)" and a: "assembled idof (fs @ gs) d'"
    using accumulate_all [OF assms] by blast
  then show ?thesis
    by (simp add: decode_chunk_def fragment_chunk_def decode_choice_def emit_reasoning_def
        reasoning_text_def emit_text_def content_text_def accumulate_calls_def Let_def
        d_then_def d_bind_def d_get_def d_return_def)
qed

lemma fragment_stream_run:
  "assembled idof fs d \<Longrightarrow> keyed_stream idof (fs @ concat gss) \<Longrightarrow>
     \<exists>d'. decode_stream fresh (map fragment_chunk gss) (d, l) = (Inr (), d', l)
       \<and> assembled idof (fs @ concat gss) d'"
  unfolding decode_stream_def
proof (induction gss arbitrary: fs d)
  case Nil
  then show ?case by (auto simp: d_return_def)
next
  case (Cons gs gss)
  have "keyed_stream idof (fs @ gs)"
    using Cons.prems(2) keyed_stream_prefix [of idof "fs @ gs" "concat gss"] by simp
  from fragment_chunk_run [OF Cons.prems(1) this]
  obtain d1 where d1: "decode_chunk fresh (fragment_chunk gs) (d, l) = (Inr (), d1, l)"
    and a1: "assembled idof (fs @ gs) d1" by blast
  from Cons.IH [OF a1] Cons.prems(2) show ?case
    by (simp add: d_then_def d_bind_def d1)
qed

section \<open>Properties\<close>

text \<open>
  C15: the fragments of several tool calls, interleaved in any order and cut into chunks in any
  way, are accepted and reassembled: one call per index, whose name and arguments are the
  fragments of that index in arrival order, with its provider id and no correlation error.
\<close>

theorem keyed_fragments_reassemble:
  assumes "keyed_stream idof (concat fss)"
  shows "\<exists>d. decode_stream fresh (map fragment_chunk fss) (new_decoder exposure, []) = (Inr (), (d, []))
    \<and> length (dc_tools d) = card (indices (concat fss))
    \<and> (\<forall>i \<in> indices (concat fss). \<exists>slot b. map_of (dc_tool_indices d) i = Some slot
         \<and> map_of (dc_tools d) slot = Some b
         \<and> tbl_name b = gather fr_name i (concat fss)
         \<and> tbl_arguments b = gather fr_arguments i (concat fss)
         \<and> tbl_id b = seen_id idof i (concat fss)
         \<and> tbl_correlation_error b = None)"
proof -
  obtain d where run: "decode_stream fresh (map fragment_chunk fss) (new_decoder exposure, []) = (Inr (), d, [])"
    and a: "assembled idof (concat fss) d"
    using fragment_stream_run [OF assembled_new [of idof exposure], of fss fresh "[]"] assms by auto
  have all: "\<exists>slot b. map_of (dc_tool_indices d) i = Some slot \<and> map_of (dc_tools d) slot = Some b
      \<and> assembled_builder idof (concat fss) i b" if "i \<in> indices (concat fss)" for i
  proof -
    from a have "dom (map_of (dc_tool_indices d)) = indices (concat fss)"
      by (simp only: assembled_def)
    with that obtain slot where "map_of (dc_tool_indices d) i = Some slot" by blast
    with a show ?thesis unfolding assembled_def by blast
  qed
  have "length (dc_tools d) = card (indices (concat fss))"
    using a by (simp only: assembled_def)
  with run all [unfolded assembled_builder_def] show ?thesis by blast
qed

text \<open>Two interleaved calls, the second with an id on its first fragment only.\<close>

definition two_calls :: "fragment list list" where
  "two_calls =
     [[\<lparr> fr_index = 0, fr_id = None, fr_name = ''read'', fr_arguments = ''ab'' \<rparr>,
       \<lparr> fr_index = 7, fr_id = Some ''call'', fr_name = ''edit'', fr_arguments = ''xy'' \<rparr>],
      [\<lparr> fr_index = 7, fr_id = None, fr_name = [], fr_arguments = ''z'' \<rparr>,
       \<lparr> fr_index = 0, fr_id = None, fr_name = [], fr_arguments = ''c'' \<rparr>]]"

definition two_ids :: "u64 \<Rightarrow> string" where
  "two_ids i = (if i = 7 then ''call'' else ''none'')"

lemma two_calls_keyed: "keyed_stream two_ids (concat two_calls)"
proof -
  have "trim ''call'' = ''call''" "trim ''none'' = ''none''" by code_simp+
  moreover have "indices (concat two_calls) = {0, 7}" by (auto simp: indices_def two_calls_def)
  moreover have "inj_on two_ids {0, 7}" by (simp add: two_ids_def)
  ultimately show ?thesis
    by (simp add: keyed_stream_def max_tool_id_bytes_def max_response_events_def
        max_response_tool_calls_def max_tool_name_bytes_def max_tool_argument_bytes_per_call_def)
      (simp add: two_calls_def two_ids_def)
qed

theorem keyed_fragments_reassemble_witness:
  "\<exists>d slot b. decode_stream (\<lambda>_. ''local'') (map fragment_chunk two_calls)
       (new_decoder ExposureNone, []) = (Inr (), (d, []))
     \<and> length (dc_tools d) = card (indices (concat two_calls))
     \<and> map_of (dc_tools d) slot = Some b \<and> tbl_name b = gather fr_name 7 (concat two_calls)
     \<and> tbl_arguments b = gather fr_arguments 7 (concat two_calls)"
proof -
  have "7 \<in> indices (concat two_calls)" by (simp add: indices_def two_calls_def)
  then show ?thesis
    using keyed_fragments_reassemble [OF two_calls_keyed, of "\<lambda>_. ''local''" ExposureNone] by blast
qed

end
