(* ===== verification/Bounded_Lines.thy ===== *)
theory Bounded_Lines
  imports Rupi_Prelude
begin

text \<open>
  \<open>crates/rupi-core/src/bounded.rs\<close>: bounded line reading from a buffered reader. The reader is
  its buffer and the results the underlying source will still give, a chunk of bytes or an
  error each; an empty chunk, or the end of the list, is the end of the file.
\<close>

section \<open>The buffered reader\<close>

datatype io_error_kind = InvalidInput | InvalidData | TimedOut | WouldBlock | OtherIo

type_synonym io_error = "io_error_kind \<times> string"

record reader =
  rd_buffer :: string
  rd_source :: "(io_error + string) list"

definition fill_buf :: "reader \<Rightarrow> (io_error + string) \<times> reader" where
  "fill_buf r =
     (if rd_buffer r \<noteq> [] then (Inr (rd_buffer r), r)
      else case rd_source r of
             [] \<Rightarrow> (Inr [], r)
           | Inl e # rest \<Rightarrow> (Inl e, r\<lparr>rd_source := rest\<rparr>)
           | Inr c # rest \<Rightarrow> (Inr c, r\<lparr>rd_buffer := c, rd_source := rest\<rparr>))"

definition consume :: "nat \<Rightarrow> reader \<Rightarrow> reader" where
  "consume n r = r\<lparr>rd_buffer := drop n (rd_buffer r)\<rparr>"

fun chunk_bytes :: "io_error + string \<Rightarrow> string" where
  "chunk_bytes (Inl e) = []" | "chunk_bytes (Inr c) = c"

text \<open>The bytes still to come, and how many steps the source can still make.\<close>

definition pending :: "reader \<Rightarrow> string" where
  "pending r = rd_buffer r @ concat (map chunk_bytes (rd_source r))"

definition reader_size :: "reader \<Rightarrow> nat" where
  "reader_size r = length (pending r) + length (rd_source r)"

lemma fill_buf_Inr:
  "fill_buf r = (Inr b, r') \<Longrightarrow>
     rd_buffer r' = b \<and> pending r' = pending r \<and> reader_size r' \<le> reader_size r"
  by (auto simp: fill_buf_def pending_def reader_size_def split: if_splits list.splits sum.splits)

lemma fill_buf_Inl:
  "fill_buf r = (Inl e, r') \<Longrightarrow> pending r' = pending r \<and> reader_size r' < reader_size r"
  by (auto simp: fill_buf_def pending_def reader_size_def split: if_splits list.splits sum.splits)

lemma pending_consume: "n \<le> length (rd_buffer r) \<Longrightarrow> pending (consume n r) = drop n (pending r)"
  by (simp add: pending_def consume_def)

lemma consume_size: "0 < n \<Longrightarrow> rd_buffer r \<noteq> [] \<Longrightarrow> reader_size (consume n r) < reader_size r"
  by (cases "rd_buffer r") (auto simp: reader_size_def pending_def consume_def)

section \<open>Reading a line\<close>

datatype line_overflow = Reject | Truncate

datatype bounded_line = Complete (line_bytes: string) | Truncated (line_bytes: string)

definition is_truncated :: "bounded_line \<Rightarrow> bool" where
  "is_truncated l = (case l of Truncated _ \<Rightarrow> True | Complete _ \<Rightarrow> False)"

record line_reader =
  lr_line :: string
  lr_truncated :: bool

definition new_line_reader :: line_reader where
  "new_line_reader = \<lparr> lr_line = [], lr_truncated = False \<rparr>"

definition take_line :: "line_reader \<Rightarrow> bounded_line \<times> line_reader" where
  "take_line lr =
     ((if lr_truncated lr then Truncated (lr_line lr) else Complete (lr_line lr)), new_line_reader)"

text \<open>\<open>position\<close> of the first line feed.\<close>

fun newline_position :: "string \<Rightarrow> nat option" where
  "newline_position [] = None"
| "newline_position (c # s) =
     (if c = CHR 0x0A then Some 0 else map_option Suc (newline_position s))"

lemma newline_position_less: "newline_position s = Some i \<Longrightarrow> i < length s"
  by (induction s arbitrary: i) (auto split: if_splits)

text \<open>What one pass over a non-empty buffer does: the line state, the bytes to consume, and
  whether the line is finished; or the rejection.\<close>

definition line_pass ::
    "usize \<Rightarrow> line_overflow \<Rightarrow> string \<Rightarrow> line_reader \<Rightarrow> io_error + (line_reader \<times> nat \<times> bool)" where
  "line_pass limit overflow buffer lr =
     (let newline = newline_position buffer;
          content_len = unwrap_or (length buffer) newline;
          remaining = limit - length (lr_line lr);
          skip = (case newline of None \<Rightarrow> length buffer | Some i \<Rightarrow> i + 1)
      in if lr_truncated lr then Inr (lr, skip, newline \<noteq> None)
         else if content_len \<le> remaining then
           (case newline of
              Some i \<Rightarrow>
                Inr (lr\<lparr>lr_line := lr_line lr @ take content_len buffer @ [CHR 0x0A]\<rparr>, i + 1, True)
            | None \<Rightarrow> Inr (lr\<lparr>lr_line := lr_line lr @ take content_len buffer\<rparr>, content_len, False))
         else case overflow of
                Reject \<Rightarrow> Inl (InvalidData, ''line exceeds '' @ show_nat limit @ '' bytes'')
              | Truncate \<Rightarrow>
                  Inr (\<lparr> lr_line = lr_line lr @ take remaining buffer, lr_truncated = True \<rparr>,
                       skip, newline \<noteq> None))"

lemma line_pass_consumes:
  "line_pass limit overflow buffer lr = Inr (lr', n, fin) \<Longrightarrow> buffer \<noteq> [] \<Longrightarrow>
     0 < n \<and> n \<le> length buffer"
  by (auto simp: line_pass_def Let_def dest: newline_position_less
      split: if_splits option.splits line_overflow.splits)

function read_loop ::
    "usize \<Rightarrow> line_overflow \<Rightarrow> line_reader \<Rightarrow> reader
      \<Rightarrow> (io_error + bounded_line option) \<times> line_reader \<times> reader" where
  "read_loop limit overflow lr r =
     (case fill_buf r of
        (Inl e, r1) \<Rightarrow> (Inl e, lr, r1)
      | (Inr buffer, r1) \<Rightarrow>
          (if buffer = [] then
             (if lr_line lr = [] then (Inr None, lr, r1)
              else (Inr (Some (fst (take_line lr))), snd (take_line lr), r1))
           else case line_pass limit overflow buffer lr of
                  Inl e \<Rightarrow> (Inl e, lr, r1)
                | Inr (lr1, n, fin) \<Rightarrow>
                    (if fin then (Inr (Some (fst (take_line lr1))), snd (take_line lr1), consume n r1)
                     else read_loop limit overflow lr1 (consume n r1))))"
  by pat_completeness auto
termination
proof (relation "measure (\<lambda>(limit, overflow, lr, r). reader_size r)", goal_cases)
  case 1
  show ?case by simp
next
  case (2 limit overflow lr r a r1 buffer x lr1 y n fin)
  then have fill: "fill_buf r = (Inr buffer, r1)" and ne: "buffer \<noteq> []"
    and pass: "line_pass limit overflow buffer lr = Inr (lr1, n, fin)" by auto
  from fill_buf_Inr [OF fill] line_pass_consumes [OF pass ne] ne consume_size [of n r1] show ?case
    by simp
qed

declare read_loop.simps [simp del]

definition read_line ::
    "usize \<Rightarrow> line_overflow \<Rightarrow> line_reader \<Rightarrow> reader
      \<Rightarrow> (io_error + bounded_line option) \<times> line_reader \<times> reader" where
  "read_line limit overflow lr r =
     (if limit = 0 then (Inl (InvalidInput, ''bounded line limit must be greater than zero''), lr, r)
      else read_loop limit overflow lr r)"

definition read_bounded_line ::
    "usize \<Rightarrow> line_overflow \<Rightarrow> reader \<Rightarrow> (io_error + bounded_line option) \<times> reader" where
  "read_bounded_line limit overflow r =
     (case read_line limit overflow new_line_reader r of (a, _, r') \<Rightarrow> (a, r'))"

section \<open>One pass\<close>

abbreviation nl_char :: char where
  "nl_char \<equiv> CHR 0x0A"

lemma newline_position_append: "nl_char \<notin> set a \<Longrightarrow> newline_position (a @ nl_char # b) = Some (length a)"
  by (induction a) auto

lemma newline_position_None: "newline_position s = None \<longleftrightarrow> nl_char \<notin> set s"
  by (induction s) auto

lemma newline_position_split:
  "newline_position s = Some i \<Longrightarrow> \<exists>a b. s = a @ nl_char # b \<and> nl_char \<notin> set a \<and> length a = i"
proof -
  assume i: "newline_position s = Some i"
  then have "nl_char \<in> set s" using newline_position_None [of s] by (cases "nl_char \<in> set s") auto
  then obtain a b where s: "s = a @ nl_char # b" "nl_char \<notin> set a" by (meson split_list_first)
  with i newline_position_append [of a b] show ?thesis by auto
qed

text \<open>The line a pass leaves, when it does not reject and the line was not cut before.\<close>

lemma line_pass_reject:
  assumes "line_pass limit Reject buffer lr = Inr (lr', n, fin)" and "\<not> lr_truncated lr"
    and "length (lr_line lr) \<le> limit"
  shows "lr_line lr' = lr_line lr @ take n buffer" and "\<not> lr_truncated lr'"
    and "fin \<longleftrightarrow> nl_char \<in> set buffer"
    and "fin \<Longrightarrow> \<exists>a b. buffer = a @ nl_char # b \<and> nl_char \<notin> set a \<and> n = Suc (length a)
           \<and> length (lr_line lr) + length a \<le> limit"
    and "\<not> fin \<Longrightarrow> n = length buffer \<and> length (lr_line lr) + length buffer \<le> limit \<or> buffer = []"
proof -
  have "lr_line lr' = lr_line lr @ take n buffer \<and> \<not> lr_truncated lr' \<and> (fin \<longleftrightarrow> nl_char \<in> set buffer)
    \<and> (fin \<longrightarrow> (\<exists>a b. buffer = a @ nl_char # b \<and> nl_char \<notin> set a \<and> n = Suc (length a)
           \<and> length (lr_line lr) + length a \<le> limit))
    \<and> (\<not> fin \<longrightarrow> n = length buffer \<and> length (lr_line lr) + length buffer \<le> limit \<or> buffer = [])"
  proof (cases "newline_position buffer")
    case None
    with assms show ?thesis
      by (cases buffer)
        (auto simp: line_pass_def Let_def newline_position_None [symmetric] split: if_splits)
  next
    case (Some i)
    then obtain a b where ab: "buffer = a @ nl_char # b" "nl_char \<notin> set a" "length a = i"
      using newline_position_split [OF Some] by blast
    with Some assms show ?thesis
      by (auto simp: line_pass_def Let_def split: if_splits)
  qed
  then show "lr_line lr' = lr_line lr @ take n buffer" and "\<not> lr_truncated lr'"
    and "fin \<longleftrightarrow> nl_char \<in> set buffer"
    and "fin \<Longrightarrow> \<exists>a b. buffer = a @ nl_char # b \<and> nl_char \<notin> set a \<and> n = Suc (length a)
           \<and> length (lr_line lr) + length a \<le> limit"
    and "\<not> fin \<Longrightarrow> n = length buffer \<and> length (lr_line lr) + length buffer \<le> limit \<or> buffer = []"
    by blast+
qed

lemma line_pass_rejects:
  "line_pass limit Reject buffer lr = Inl e \<longleftrightarrow>
     \<not> lr_truncated lr \<and> e = (InvalidData, ''line exceeds '' @ show_nat limit @ '' bytes'')
     \<and> limit - length (lr_line lr) < unwrap_or (length buffer) (newline_position buffer)"
  by (auto simp: line_pass_def Let_def split: option.splits)

section \<open>Reading with rejection\<close>

text \<open>
  Whatever way the bytes arrive, a step loses none of them: what it returns, what it keeps in
  the line and what is pending make up what was there before, and a returned line is one line
  within the limit. An error, of the source or of the limit, keeps everything for the next call.
\<close>

definition line_outcome ::
    "usize \<Rightarrow> string \<Rightarrow> (io_error + bounded_line option) \<times> line_reader \<times> reader \<Rightarrow> bool" where
  "line_outcome limit bytes out =
     (case out of (answer, lr, r) \<Rightarrow>
        \<not> lr_truncated lr
        \<and> (case answer of
             Inl e \<Rightarrow> lr_line lr @ pending r = bytes
           | Inr None \<Rightarrow> lr_line lr = [] \<and> pending r = bytes
           | Inr (Some l) \<Rightarrow>
               lr_line lr = [] \<and> \<not> is_truncated l \<and> line_bytes l @ pending r = bytes
               \<and> (\<exists>a. nl_char \<notin> set a \<and> length a \<le> limit
                    \<and> (line_bytes l = a @ [nl_char] \<or> line_bytes l = a \<and> a \<noteq> []))))"

lemma read_loop_outcome:
  "\<not> lr_truncated lr \<Longrightarrow> nl_char \<notin> set (lr_line lr) \<Longrightarrow> length (lr_line lr) \<le> limit \<Longrightarrow>
     line_outcome limit (lr_line lr @ pending r) (read_loop limit Reject lr r)"
proof (induction limit Reject lr r rule: read_loop.induct)
  case (1 limit lr r)
  show ?case
  proof (cases "fill_buf r")
    case (Pair a r1)
    show ?thesis
    proof (cases a)
      case (Inl e)
      with Pair fill_buf_Inl [of r e r1] "1.prems" show ?thesis
        by (subst read_loop.simps) (simp add: line_outcome_def)
    next
      case (Inr buffer)
      note fill = fill_buf_Inr [OF Pair [unfolded Inr]]
      show ?thesis
      proof (cases "buffer = []")
        case True
        with Pair Inr fill "1.prems" show ?thesis
          by (subst read_loop.simps)
            (auto simp: line_outcome_def take_line_def new_line_reader_def is_truncated_def)
      next
        case ne: False
        show ?thesis
        proof (cases "line_pass limit Reject buffer lr")
          case e: (Inl e)
          with Pair Inr ne fill "1.prems" show ?thesis
            by (subst read_loop.simps) (simp add: line_outcome_def)
        next
          case pass: (Inr x)
          obtain lr1 n fin where x: "x = (lr1, n, fin)" by (cases x) auto
          note p = line_pass_reject [OF pass [unfolded x] "1.prems"(1,3)]
          have n: "n \<le> length buffer" using line_pass_consumes [OF pass [unfolded x] ne] by simp
          with fill have pend: "pending (consume n r1) = drop n (pending r)"
            by (simp add: pending_consume)
          have "pending r = buffer @ concat (map chunk_bytes (rd_source r1))"
            using fill by (metis pending_def)
          with n have buf: "take n (pending r) = take n buffer" by simp
          have bytes: "lr_line lr1 @ pending (consume n r1) = lr_line lr @ pending r"
            using p(1) pend buf by (metis append.assoc append_take_drop_id)
          show ?thesis
          proof (cases fin)
            case True
            from p(4) [OF True] obtain a b where ab: "buffer = a @ nl_char # b" "nl_char \<notin> set a"
              "n = Suc (length a)" "length (lr_line lr) + length a \<le> limit" by blast
            then have line: "lr_line lr1 = (lr_line lr @ a) @ [nl_char]" using p(1) by simp
            have "line_outcome limit (lr_line lr @ pending r)
                (Inr (Some (fst (take_line lr1))), snd (take_line lr1), consume n r1)"
              using bytes line p(2) ab "1.prems"
              by (auto simp: line_outcome_def take_line_def new_line_reader_def is_truncated_def
                  intro!: exI [of _ "lr_line lr @ a"])
            with Pair Inr ne pass x True show ?thesis by (subst read_loop.simps) simp
          next
            case False
            then have "line_outcome limit (lr_line lr1 @ pending (consume n r1))
                (read_loop limit Reject lr1 (consume n r1))"
              using p "1.prems" ne by (intro "1.hyps" [OF Pair [symmetric] Inr ne pass x [symmetric] refl]) auto
            with Pair Inr ne pass x False bytes show ?thesis by (subst read_loop.simps) simp
          qed
        qed
      qed
    qed
  qed
qed

text \<open>An error-free source that never reports an empty chunk before its end.\<close>

definition steady :: "reader \<Rightarrow> bool" where
  "steady r \<longleftrightarrow> list_all (\<lambda>x. \<exists>c. x = Inr c \<and> c \<noteq> []) (rd_source r)"

lemma fill_buf_steady:
  "steady r \<Longrightarrow> fill_buf r = (a, r') \<Longrightarrow>
     steady r' \<and> (\<exists>b. a = Inr b \<and> (b = [] \<longleftrightarrow> pending r = []))"
  by (auto simp: fill_buf_def steady_def pending_def split: if_splits list.splits sum.splits)

lemma steady_consume [simp]: "steady (consume n r) = steady r"
  by (simp add: steady_def consume_def)

text \<open>The next line of a steady source, however it is cut into chunks.\<close>

lemma read_loop_line:
  "steady r \<Longrightarrow> \<not> lr_truncated lr \<Longrightarrow> lr_line lr @ pending r = a @ nl_char # rest \<Longrightarrow>
   nl_char \<notin> set a \<Longrightarrow> prefix (lr_line lr) a \<Longrightarrow> length a \<le> limit \<Longrightarrow>
     \<exists>r'. read_loop limit Reject lr r = (Inr (Some (Complete (a @ [nl_char]))), new_line_reader, r')
       \<and> pending r' = rest \<and> steady r'"
proof (induction limit Reject lr r rule: read_loop.induct)
  case (1 limit lr r)
  obtain ans r1 where Pair: "fill_buf r = (ans, r1)" by fastforce
  from "1.prems" have nonempty: "pending r \<noteq> []" by (auto simp: prefix_def)
  from fill_buf_steady [OF "1.prems"(1) Pair] nonempty obtain buffer where
    Inr: "ans = Inr buffer" and ne: "buffer \<noteq> []" and steady1: "steady r1" by auto
  note fill = fill_buf_Inr [OF Pair [unfolded Inr]]
  have pr: "pending r = buffer @ concat (map chunk_bytes (rd_source r1))"
    using fill by (metis pending_def)
  obtain a2 where a2: "a = lr_line lr @ a2" using "1.prems"(5) by (auto simp: prefix_def)
  with "1.prems"(3) have rest: "pending r = a2 @ nl_char # rest" by simp
  have a2nl: "nl_char \<notin> set a2" using "1.prems"(4) a2 by simp
  show ?case
  proof (cases "prefix buffer a2")
    case True
    then obtain a3 where a3: "a2 = buffer @ a3" by (auto simp: prefix_def)
    then have no: "newline_position buffer = None" using a2nl by (simp add: newline_position_None)
    have fits: "length buffer \<le> limit - length (lr_line lr)"
      using "1.prems"(6) a2 a3 by simp
    let ?lr = "lr\<lparr>lr_line := lr_line lr @ buffer\<rparr>"
    have pass: "line_pass limit Reject buffer lr = Inr (?lr, length buffer, False)"
      using no fits "1.prems"(2) by (simp add: line_pass_def Let_def)
    have pend: "pending (consume (length buffer) r1) = a3 @ nl_char # rest"
      using fill pr rest a3 by (simp add: pending_consume)
    have "\<exists>r'. read_loop limit Reject ?lr (consume (length buffer) r1)
        = (Inr (Some (Complete (a @ [nl_char]))), new_line_reader, r') \<and> pending r' = rest \<and> steady r'"
      using "1.prems" steady1 pend a2 a3
      by (intro "1.hyps" [OF Pair [symmetric] Inr ne pass refl refl]) auto
    then show ?thesis by (subst read_loop.simps) (simp add: Pair Inr ne pass)
  next
    case False
    have "buffer @ concat (map chunk_bytes (rd_source r1)) = a2 @ nl_char # rest"
      using pr rest by simp
    then obtain us where "buffer = a2 @ us" and "us @ concat (map chunk_bytes (rd_source r1)) = nl_char # rest"
      using False by (auto simp: append_eq_append_conv2)
    with False obtain b where b: "buffer = a2 @ nl_char # b" by (cases us) auto
    have pos: "newline_position buffer = Some (length a2)"
      unfolding b by (rule newline_position_append [OF a2nl])
    have fits: "length a2 \<le> limit - length (lr_line lr)"
      using "1.prems"(6) a2 by simp
    have pass: "line_pass limit Reject buffer lr =
        Inr (lr\<lparr>lr_line := a @ [nl_char]\<rparr>, Suc (length a2), True)"
      using pos fits "1.prems"(2) a2 b by (simp add: line_pass_def Let_def)
    have "pending (consume (Suc (length a2)) r1) = rest"
      using fill pr rest b by (simp add: pending_consume)
    then show ?thesis
      using "1.prems"(2) steady1
      by (subst read_loop.simps) (simp add: Pair Inr ne pass take_line_def)
  qed
qed

lemma read_line_line:
  assumes "steady r" and "pending r = a @ nl_char # rest" and "nl_char \<notin> set a"
    and "length a \<le> limit" and "0 < limit"
  shows "\<exists>r'. read_line limit Reject new_line_reader r =
      (Inr (Some (Complete (a @ [nl_char]))), new_line_reader, r') \<and> pending r' = rest \<and> steady r'"
  using read_loop_line [of r new_line_reader a rest limit] assms
  by (simp add: read_line_def new_line_reader_def)

lemma read_line_end:
  assumes "steady r" and "pending r = []" and "0 < limit"
  shows "\<exists>r'. read_line limit Reject new_line_reader r = (Inr None, new_line_reader, r')
      \<and> pending r' = [] \<and> steady r'"
proof -
  obtain ans r1 where fill: "fill_buf r = (ans, r1)" by fastforce
  from fill_buf_steady [OF assms(1) fill] assms(2) have "ans = Inr []" and "steady r1" by auto
  with fill fill_buf_Inr [of r "[]" r1] assms
  have "read_loop limit Reject new_line_reader r = (Inr None, new_line_reader, r1)"
    and "pending r1 = []"
    by (subst read_loop.simps, simp_all add: new_line_reader_def)
  with assms(3) \<open>steady r1\<close> show ?thesis by (simp add: read_line_def)
qed

section \<open>Properties\<close>

text \<open>
  However the source cuts its bytes into chunks and whenever it fails, a rejecting reader
  loses and invents no byte: what a call returns, what it keeps for the next call and what is
  still pending make up what was there before; a returned line is one line of at most the limit.
\<close>

theorem line_reader_conserves_bytes:
  assumes "\<not> lr_truncated lr" and "nl_char \<notin> set (lr_line lr)" and "length (lr_line lr) \<le> limit"
    and "0 < limit"
  shows "line_outcome limit (lr_line lr @ pending r) (read_line limit Reject lr r)"
  using read_loop_outcome [OF assms(1-3)] assms(4) by (simp add: read_line_def)

theorem line_reader_conserves_bytes_witness:
  "line_outcome 8 (pending \<lparr> rd_buffer = ''ab'', rd_source = [Inl (TimedOut, ''late''), Inr ''c''] \<rparr>)
     (read_line 8 Reject new_line_reader
       \<lparr> rd_buffer = ''ab'', rd_source = [Inl (TimedOut, ''late''), Inr ''c''] \<rparr>)"
  using line_reader_conserves_bytes [of new_line_reader 8]
  by (simp add: new_line_reader_def)

end
