(* ===== verification/Sse_Framing.thy ===== *)
theory Sse_Framing
  imports Bounded_Lines
begin

text \<open>
  \<open>crates/rupi-provider/src/sse.rs\<close>: the server-sent-event framing of streamed responses, over
  the bounded line reader. The text of the UTF-8 error is an argument (the standard library's).
\<close>

section \<open>Text\<close>

text \<open>\<open>String::from_utf8\<close>: well-formed UTF-8.\<close>

definition cont_byte :: "nat \<Rightarrow> bool" where
  "cont_byte b \<longleftrightarrow> 128 \<le> b \<and> b \<le> 191"

definition two_bytes :: "nat \<Rightarrow> nat \<Rightarrow> bool" where
  "two_bytes a b \<longleftrightarrow> 194 \<le> a \<and> a \<le> 223 \<and> cont_byte b"

definition three_bytes :: "nat \<Rightarrow> nat \<Rightarrow> nat \<Rightarrow> bool" where
  "three_bytes a b c \<longleftrightarrow>
     cont_byte c
     \<and> (a = 224 \<and> 160 \<le> b \<and> b \<le> 191 \<or> a = 237 \<and> 128 \<le> b \<and> b \<le> 159
        \<or> (225 \<le> a \<and> a \<le> 236 \<or> a = 238 \<or> a = 239) \<and> cont_byte b)"

definition four_bytes :: "nat \<Rightarrow> nat \<Rightarrow> nat \<Rightarrow> nat \<Rightarrow> bool" where
  "four_bytes a b c d \<longleftrightarrow>
     cont_byte c \<and> cont_byte d
     \<and> (a = 240 \<and> 144 \<le> b \<and> b \<le> 191 \<or> a = 244 \<and> 128 \<le> b \<and> b \<le> 143
        \<or> 241 \<le> a \<and> a \<le> 243 \<and> cont_byte b)"

text \<open>The length of the character a byte string starts with, 0 when it starts with none.\<close>

fun char_len :: "string \<Rightarrow> nat" where
  "char_len [] = 0"
| "char_len (a # s) =
     (if byte a < 128 then 1
      else if 1 \<le> length s \<and> two_bytes (byte a) (byte (s ! 0)) then 2
      else if 2 \<le> length s \<and> three_bytes (byte a) (byte (s ! 0)) (byte (s ! 1)) then 3
      else if 3 \<le> length s \<and> four_bytes (byte a) (byte (s ! 0)) (byte (s ! 1)) (byte (s ! 2)) then 4
      else 0)"

function valid_utf8 :: "string \<Rightarrow> bool" where
  "valid_utf8 s =
     (if s = [] then True else if char_len s = 0 then False else valid_utf8 (drop (char_len s) s))"
  by pat_completeness auto
termination
  by (relation "measure length") auto

declare valid_utf8.simps [simp del]

lemma char_len_append: "char_len s \<noteq> 0 \<Longrightarrow> char_len (s @ t) = char_len s \<and> char_len s \<le> length s"
  by (cases s) (auto simp: nth_append split: if_splits)

lemma valid_utf8_append: "valid_utf8 s \<Longrightarrow> valid_utf8 t \<Longrightarrow> valid_utf8 (s @ t)"
proof (induction s rule: valid_utf8.induct)
  case (1 s)
  show ?case
  proof (cases "s = []")
    case False
    then have c: "char_len s \<noteq> 0" and v: "valid_utf8 (drop (char_len s) s)"
      using "1.prems"(1) by (subst (asm) valid_utf8.simps; simp split: if_splits)+
    from "1.IH" [OF False _ v "1.prems"(2)] char_len_append [OF c, of t] c False show ?thesis
      by (subst valid_utf8.simps) simp
  qed (use "1.prems" in simp)
qed

lemma valid_utf8_ascii: "list_all (\<lambda>c. byte c < 128) s \<Longrightarrow> valid_utf8 s"
  by (induction s) (subst valid_utf8.simps, simp)+

text \<open>\<open>trim_end_matches(['\n', '\r'])\<close>.\<close>

definition trim_eol :: "string \<Rightarrow> string" where
  "trim_eol s = rev (dropWhile (\<lambda>c. c = CHR 0x0A \<or> c = CHR 0x0D) (rev s))"

section \<open>The stream\<close>

definition max_event_bytes :: usize where "max_event_bytes = 1024 * 1024"
definition max_response_frames :: usize where "max_response_frames = 65536"
definition done_marker :: string where "done_marker = ''[DONE]''"

definition event_is_done :: "string \<Rightarrow> bool" where
  "event_is_done data \<longleftrightarrow> trim data = done_marker"

record sse =
  sse_reader :: reader
  sse_lines :: line_reader
  sse_pending_data :: string
  sse_pending_received :: bool
  sse_pending_frame_bytes :: usize
  sse_response_frames :: usize
  sse_finished :: bool

definition new_sse :: "reader \<Rightarrow> sse" where
  "new_sse r =
     \<lparr> sse_reader = r, sse_lines = new_line_reader, sse_pending_data = [],
       sse_pending_received = False, sse_pending_frame_bytes = 0, sse_response_frames = 0,
       sse_finished = False \<rparr>"

definition finish_frame :: "sse \<Rightarrow> io_error option \<times> sse" where
  "finish_frame s =
     (if max_response_frames \<le> sse_response_frames s
      then (Some (InvalidData, ''sse response exceeds '' @ show_nat max_response_frames @ '' frames''),
            s\<lparr>sse_finished := True\<rparr>)
      else (None, s\<lparr>sse_response_frames := sse_response_frames s + 1, sse_pending_frame_bytes := 0\<rparr>))"

text \<open>
  What one complete line does to the data accumulated so far: end the call with an answer, or
  go on with new data.
\<close>

datatype line_step =
  Answer "io_error + string option" sse
| Continue string bool sse

definition take_field :: "string \<Rightarrow> string \<Rightarrow> bool \<Rightarrow> sse \<Rightarrow> line_step" where
  "take_field trimmed data received s =
     (if hd trimmed = CHR '':'' then Continue data received s
      else case split_once (CHR '':'') trimmed of
             None \<Rightarrow> Continue data received s
           | Some (field, value) \<Rightarrow>
               (let value' = (case value of c # v \<Rightarrow> if c = CHR '' '' then v else value | [] \<Rightarrow> value)
                in if field = ''data'' then
                     (if max_event_bytes < length data + length value'
                      then Answer (Inl (InvalidData, ''sse event exceeds '' @ show_nat max_event_bytes @ '' bytes''))
                             (s\<lparr>sse_finished := True\<rparr>)
                      else Continue ((if received then data @ [CHR 0x0A] else data) @ value') True
                             (s\<lparr>sse_pending_received := True\<rparr>))
                   else Continue data received s))"

definition end_frame :: "string \<Rightarrow> bool \<Rightarrow> sse \<Rightarrow> line_step" where
  "end_frame data received s =
     (case finish_frame s of
        (Some e, s1) \<Rightarrow> Answer (Inl e) s1
      | (None, s1) \<Rightarrow>
          (let s2 = s1\<lparr>sse_finished := (sse_finished s1 \<or> (received \<and> event_is_done data)),
                       sse_pending_data := [], sse_pending_received := False\<rparr>
           in if received then Answer (Inr (Some data)) s2 else Continue data received s2))"

definition take_event_line ::
    "(string \<Rightarrow> string) \<Rightarrow> string \<Rightarrow> string \<Rightarrow> bool \<Rightarrow> sse \<Rightarrow> line_step" where
  "take_event_line utf8_message raw data received s0 =
     (let s = s0\<lparr>sse_pending_frame_bytes := sat_add usize_max (sse_pending_frame_bytes s0) (length raw)\<rparr>
      in if max_event_bytes < sse_pending_frame_bytes s
         then Answer (Inl (InvalidData, ''sse frame exceeds '' @ show_nat max_event_bytes @ '' bytes''))
                (s\<lparr>sse_finished := True\<rparr>)
         else if \<not> valid_utf8 raw
         then Answer (Inl (InvalidData, utf8_message raw)) (s\<lparr>sse_finished := True\<rparr>)
         else if trim_eol raw = [] then end_frame data received s
         else take_field (trim_eol raw) data received s)"

definition sse_weight :: "sse \<Rightarrow> nat" where
  "sse_weight s = reader_size (sse_reader s) + length (lr_line (sse_lines s))"

lemma line_pass_weight:
  "line_pass limit overflow buffer lr = Inr (lr', n, fin) \<Longrightarrow>
     length (lr_line lr') \<le> length (lr_line lr) + n"
  by (auto simp: line_pass_def Let_def split: if_splits option.splits line_overflow.splits
      dest: newline_position_less)

lemma consume_size_exact: "n \<le> length (rd_buffer r) \<Longrightarrow> reader_size (consume n r) = reader_size r - n"
  by (simp add: reader_size_def pending_def consume_def)

lemma read_loop_weight:
  "read_loop limit overflow lr r = (Inr (Some l), lr', r') \<Longrightarrow>
     reader_size r' + length (lr_line lr') < reader_size r + length (lr_line lr)"
proof (induction limit overflow lr r arbitrary: l lr' r' rule: read_loop.induct)
  case (1 limit overflow lr r)
  obtain a r1 where fill: "fill_buf r = (a, r1)" by fastforce
  show ?case
  proof (cases a)
    case (Inl e)
    with "1.prems" fill show ?thesis by (subst (asm) read_loop.simps) simp
  next
    case (Inr buffer)
    note f = fill_buf_Inr [OF fill [unfolded Inr]]
    show ?thesis
    proof (cases "buffer = []")
      case True
      with "1.prems" fill Inr f show ?thesis
        by (subst (asm) read_loop.simps)
          (auto simp: take_line_def new_line_reader_def length_greater_0_conv [symmetric]
            simp del: length_greater_0_conv split: if_splits)
    next
      case ne: False
      obtain lr1 n fin where pass: "line_pass limit overflow buffer lr = Inr (lr1, n, fin)"
        using "1.prems" fill Inr ne
        by (subst (asm) read_loop.simps) (auto split: sum.splits)
      have n: "0 < n" "n \<le> length (rd_buffer r1)"
        using line_pass_consumes [OF pass ne] f by auto
      have less: "reader_size (consume n r1) < reader_size r"
        using consume_size [of n r1] n f ne by simp
      have weight: "reader_size (consume n r1) + length (lr_line lr1) \<le> reader_size r + length (lr_line lr)"
      proof -
        have "n \<le> reader_size r1" using n(2) by (simp add: reader_size_def pending_def)
        then have "reader_size (consume n r1) + n = reader_size r1"
          using consume_size_exact [OF n(2)] by simp
        with line_pass_weight [OF pass] f show ?thesis by linarith
      qed
      show ?thesis
      proof (cases fin)
        case True
        with "1.prems" fill Inr ne pass less show ?thesis
          by (subst (asm) read_loop.simps) (auto simp: take_line_def new_line_reader_def)
      next
        case False
        with "1.prems" fill Inr ne pass
        have "read_loop limit overflow lr1 (consume n r1) = (Inr (Some l), lr', r')"
          by (subst (asm) read_loop.simps) simp
        from "1.IH" [OF fill [symmetric] Inr ne pass refl refl False this] weight show ?thesis by simp
      qed
    qed
  qed
qed

lemma read_line_weight:
  "read_line limit overflow lr r = (Inr (Some l), lr', r') \<Longrightarrow>
     reader_size r' + length (lr_line lr') < reader_size r + length (lr_line lr)"
  by (auto simp: read_line_def split: if_splits dest: read_loop_weight)

lemma take_event_line_state:
  "take_event_line m raw data received s = Continue data' received' s' \<Longrightarrow>
     sse_reader s' = sse_reader s \<and> sse_lines s' = sse_lines s"
  by (auto simp: take_event_line_def take_field_def end_frame_def finish_frame_def Let_def
      split: if_splits option.splits list.splits prod.splits)

function sse_loop ::
    "(string \<Rightarrow> string) \<Rightarrow> string \<Rightarrow> bool \<Rightarrow> sse \<Rightarrow> (io_error + string option) \<times> sse" where
  "sse_loop utf8_message data received s =
     (case read_line max_event_bytes Reject (sse_lines s) (sse_reader s) of
        (Inl e, lr, r) \<Rightarrow>
          (Inl e, s\<lparr>sse_lines := lr, sse_reader := r, sse_pending_data := data,
                    sse_pending_received := received\<rparr>)
      | (Inr None, lr, r) \<Rightarrow>
          (let s1 = s\<lparr>sse_lines := lr, sse_reader := r, sse_finished := True, sse_pending_data := [],
                      sse_pending_received := False\<rparr>
           in if received
              then (case finish_frame s1 of
                      (Some e, s2) \<Rightarrow> (Inl e, s2) | (None, s2) \<Rightarrow> (Inr (Some data), s2))
              else (Inr None, s1))
      | (Inr (Some line), lr, r) \<Rightarrow>
          (case take_event_line utf8_message (line_bytes line) data received
                  (s\<lparr>sse_lines := lr, sse_reader := r\<rparr>) of
             Answer a s1 \<Rightarrow> (a, s1)
           | Continue data1 received1 s1 \<Rightarrow> sse_loop utf8_message data1 received1 s1))"
  by pat_completeness auto
termination
proof (relation "measure (\<lambda>(m, data, received, s). sse_weight s)", goal_cases)
  case 1
  show ?case by simp
next
  case 2
  then show ?case
    by (auto simp: sse_weight_def dest!: take_event_line_state dest: read_line_weight [OF sym])
qed

declare sse_loop.simps [simp del]

definition next_event :: "(string \<Rightarrow> string) \<Rightarrow> sse \<Rightarrow> (io_error + string option) \<times> sse" where
  "next_event utf8_message s =
     (if sse_finished s then (Inr None, s)
      else sse_loop utf8_message (sse_pending_data s) (sse_pending_received s)
             (s\<lparr>sse_pending_data := [], sse_pending_received := False\<rparr>))"

section \<open>Encoding and reading events\<close>

text \<open>The form in which a chat-completion endpoint sends one payload.\<close>

definition sse_encode :: "string \<Rightarrow> string" where
  "sse_encode data = ''data: '' @ data @ [nl_char, nl_char]"

text \<open>The payloads of one line: valid text without line ends, within the frame limit.\<close>

definition sse_payload :: "string \<Rightarrow> bool" where
  "sse_payload data \<longleftrightarrow>
     valid_utf8 data \<and> nl_char \<notin> set data \<and> (data = [] \<or> last data \<noteq> CHR 0x0D)
     \<and> length data + 8 \<le> max_event_bytes"

text \<open>A stream between two events.\<close>

definition sse_ready :: "sse \<Rightarrow> bool" where
  "sse_ready s \<longleftrightarrow>
     steady (sse_reader s) \<and> sse_lines s = new_line_reader \<and> sse_pending_data s = []
     \<and> \<not> sse_pending_received s \<and> sse_pending_frame_bytes s = 0"

lemma trim_eol_line:
  assumes "data = [] \<or> last data \<noteq> CHR 0x0D" and "nl_char \<notin> set data"
  shows "trim_eol (''data: '' @ data @ [nl_char]) = ''data: '' @ data"
proof (cases data rule: rev_cases)
  case Nil
  then show ?thesis by (simp add: trim_eol_def)
next
  case (snoc xs x)
  with assms show ?thesis by (auto simp: trim_eol_def)
qed

lemma data_line_step:
  assumes "sse_payload data" and "sse_pending_frame_bytes s = 0"
  shows "take_event_line m (''data: '' @ data @ [nl_char]) [] False s =
     Continue data True (s\<lparr>sse_pending_frame_bytes := length data + 7, sse_pending_received := True\<rparr>)"
proof -
  have "valid_utf8 (''data: '' @ data @ [nl_char])"
    using assms(1) by (intro valid_utf8_append) (auto simp: sse_payload_def byte_def intro: valid_utf8_ascii)
  moreover have "trim_eol (''data: '' @ data @ [nl_char]) = ''data: '' @ data"
    using assms(1) by (intro trim_eol_line) (auto simp: sse_payload_def)
  moreover have "sat_add usize_max 0 (length (''data: '' @ data @ [nl_char])) = length data + 7"
    using assms(1) by (simp add: sat_add_def sse_payload_def max_event_bytes_def u64_max_def)
  ultimately show ?thesis
    using assms by (simp add: take_event_line_def Let_def take_field_def sse_payload_def)
qed

lemma blank_line_step:
  assumes "sse_payload data" and "sse_pending_frame_bytes s = length data + 7"
    and "sse_response_frames s < max_response_frames" and "\<not> sse_finished s"
  shows "take_event_line m [nl_char] data True s =
     Answer (Inr (Some data))
       (s\<lparr>sse_pending_frame_bytes := 0, sse_response_frames := sse_response_frames s + 1,
          sse_finished := event_is_done data, sse_pending_data := [], sse_pending_received := False\<rparr>)"
proof -
  have "sat_add usize_max (length data + 7) 1 = length data + 8"
    using assms(1) by (simp add: sat_add_def sse_payload_def max_event_bytes_def u64_max_def)
  moreover have "valid_utf8 [nl_char]" by (rule valid_utf8_ascii) (simp add: byte_def)
  moreover have "trim_eol [nl_char] = []" by (simp add: trim_eol_def)
  ultimately show ?thesis
    using assms by (simp add: take_event_line_def Let_def end_frame_def finish_frame_def sse_payload_def)
qed

text \<open>One event, however its bytes are cut into chunks.\<close>

lemma next_event_encoded:
  assumes ready: "sse_ready s" and "\<not> sse_finished s" and payload: "sse_payload data"
    and pend: "pending (sse_reader s) = sse_encode data @ rest"
    and frames: "sse_response_frames s < max_response_frames"
  shows "\<exists>s'. next_event m s = (Inr (Some data), s') \<and> sse_ready s'
     \<and> pending (sse_reader s') = rest \<and> sse_finished s' = event_is_done data
     \<and> sse_response_frames s' = sse_response_frames s + 1"
proof -
  have limit: "0 < max_event_bytes" by (simp add: max_event_bytes_def)
  have steady0: "steady (sse_reader s)" and lines0: "sse_lines s = new_line_reader"
    using ready by (auto simp: sse_ready_def)
  have "pending (sse_reader s) = (''data: '' @ data) @ nl_char # (nl_char # rest)"
    using pend by (simp add: sse_encode_def)
  from read_line_line [OF steady0 this _ _ limit] payload obtain r1
    where r1: "read_line max_event_bytes Reject new_line_reader (sse_reader s) =
        (Inr (Some (Complete (''data: '' @ data @ [nl_char]))), new_line_reader, r1)"
      and p1: "pending r1 = nl_char # rest" and steady1: "steady r1"
    by (auto simp: sse_payload_def)
  have "pending r1 = [] @ nl_char # rest" using p1 by simp
  from read_line_line [OF steady1 this _ _ limit] obtain r2
    where r2: "read_line max_event_bytes Reject new_line_reader r1 =
        (Inr (Some (Complete [nl_char])), new_line_reader, r2)"
      and p2: "pending r2 = rest" and steady2: "steady r2"
    by auto
  let ?s0 = "s\<lparr>sse_pending_data := [], sse_pending_received := False\<rparr>"
  let ?s1 = "?s0\<lparr>sse_lines := new_line_reader, sse_reader := r1\<rparr>"
  let ?s2 = "?s1\<lparr>sse_pending_frame_bytes := length data + 7, sse_pending_received := True\<rparr>"
  let ?s3 = "?s2\<lparr>sse_lines := new_line_reader, sse_reader := r2\<rparr>"
  have step1: "take_event_line m (''data: '' @ data @ [nl_char]) [] False ?s1 = Continue data True ?s2"
    using ready by (intro data_line_step [OF payload]) (simp add: sse_ready_def)
  have step2: "take_event_line m [nl_char] data True ?s3 =
      Answer (Inr (Some data))
       (?s3\<lparr>sse_pending_frame_bytes := 0, sse_response_frames := sse_response_frames ?s3 + 1,
          sse_finished := event_is_done data, sse_pending_data := [], sse_pending_received := False\<rparr>)"
    using frames assms(2) by (intro blank_line_step [OF payload]) simp_all
  have "next_event m s = sse_loop m [] False ?s0"
    using assms(2) ready by (simp add: next_event_def sse_ready_def)
  also have "\<dots> = sse_loop m data True ?s2"
    using step1 lines0 r1 by (subst sse_loop.simps) simp
  also have "\<dots> = (Inr (Some data),
       ?s3\<lparr>sse_pending_frame_bytes := 0, sse_response_frames := sse_response_frames ?s3 + 1,
          sse_finished := event_is_done data, sse_pending_data := [], sse_pending_received := False\<rparr>)"
    using step2 r2 by (subst sse_loop.simps) simp
  finally show ?thesis
    using p2 steady2 by (simp add: sse_ready_def)
qed

text \<open>Reading until the stream ends or fails, as the adapter does; \<open>n\<close> bounds the calls.\<close>

fun drain :: "(string \<Rightarrow> string) \<Rightarrow> nat \<Rightarrow> sse \<Rightarrow> string list \<times> (io_error + unit) option" where
  "drain m 0 s = ([], None)"
| "drain m (Suc n) s =
     (case next_event m s of
        (Inl e, s') \<Rightarrow> ([], Some (Inl e))
      | (Inr None, s') \<Rightarrow> ([], Some (Inr ()))
      | (Inr (Some data), s') \<Rightarrow> (case drain m n s' of (ds, e) \<Rightarrow> (data # ds, e)))"

lemma drain_encoded:
  "sse_ready s \<Longrightarrow> \<not> sse_finished s \<Longrightarrow> list_all sse_payload ds \<Longrightarrow>
   list_all (\<lambda>d. \<not> event_is_done d) ds \<Longrightarrow>
   pending (sse_reader s) = concat (map sse_encode ds) @ sse_encode done_marker @ rest \<Longrightarrow>
   sse_response_frames s + length ds < max_response_frames \<Longrightarrow>
     drain m (length ds + 2) s = (ds @ [done_marker], Some (Inr ()))"
proof (induction ds arbitrary: s)
  case Nil
  have marker: "sse_payload done_marker"
    by (simp add: sse_payload_def done_marker_def max_event_bytes_def valid_utf8_ascii byte_def)
  have "trim done_marker = done_marker" unfolding done_marker_def by code_simp
  then have d: "event_is_done done_marker" by (simp add: event_is_done_def)
  have "\<exists>s'. next_event m s = (Inr (Some done_marker), s') \<and> sse_ready s'
      \<and> pending (sse_reader s') = rest \<and> sse_finished s' = event_is_done done_marker
      \<and> sse_response_frames s' = sse_response_frames s + 1"
    using Nil by (intro next_event_encoded [OF _ _ marker]) simp_all
  with d obtain s' where s': "next_event m s = (Inr (Some done_marker), s')" "sse_finished s'" by blast
  then have "next_event m s' = (Inr None, s')" by (simp add: next_event_def)
  with s' show ?case by (simp add: numeral_2_eq_2)
next
  case (Cons d ds)
  have "\<exists>s'. next_event m s = (Inr (Some d), s') \<and> sse_ready s'
      \<and> pending (sse_reader s') = concat (map sse_encode ds) @ sse_encode done_marker @ rest
      \<and> sse_finished s' = event_is_done d \<and> sse_response_frames s' = sse_response_frames s + 1"
    using Cons.prems by (intro next_event_encoded) simp_all
  with Cons.prems obtain s' where s': "next_event m s = (Inr (Some d), s')" "sse_ready s'"
    "pending (sse_reader s') = concat (map sse_encode ds) @ sse_encode done_marker @ rest"
    "\<not> sse_finished s'" "sse_response_frames s' = sse_response_frames s + 1" by auto
  from Cons.IH [OF s'(2,4) _ _ s'(3)] Cons.prems s' show ?case by simp
qed

section \<open>Properties\<close>

text \<open>
  C35: payloads sent as server-sent events are read back exactly, in order, followed by the end
  marker and the end of the stream, whatever the chunks in which the bytes arrive and whatever
  follows the marker.
\<close>

theorem events_roundtrip:
  assumes "steady r" and "pending r = concat (map sse_encode ds) @ sse_encode done_marker @ rest"
    and "list_all sse_payload ds" and "list_all (\<lambda>d. \<not> event_is_done d) ds"
    and "length ds < max_response_frames"
  shows "drain m (length ds + 2) (new_sse r) = (ds @ [done_marker], Some (Inr ()))"
  using assms by (intro drain_encoded) (simp_all add: sse_ready_def new_sse_def)

theorem events_roundtrip_witness:
  "drain (\<lambda>_. []) (1 + 2) (new_sse \<lparr> rd_buffer = ''da'', rd_source =
       [Inr ''ta: {}'', Inr [nl_char], Inr (nl_char # ''data: [DONE]''), Inr [nl_char, nl_char]] \<rparr>)
   = ([''{}'', done_marker], Some (Inr ()))"
proof -
  have "trim ''{}'' = ''{}''" by code_simp
  then have "drain (\<lambda>_. []) (length [''{}''] + 2) (new_sse \<lparr> rd_buffer = ''da'', rd_source =
       [Inr ''ta: {}'', Inr [nl_char], Inr (nl_char # ''data: [DONE]''), Inr [nl_char, nl_char]] \<rparr>)
    = ([''{}''] @ [done_marker], Some (Inr ()))"
    by (intro events_roundtrip [where rest = "[]"])
      (simp_all add: steady_def pending_def sse_encode_def done_marker_def sse_payload_def
        valid_utf8_ascii byte_def max_event_bytes_def event_is_done_def max_response_frames_def)
  then show ?thesis by (simp del: drain.simps)
qed

end
