(* ===== verification/Provider_Failures.thy ===== *)
theory Provider_Failures
  imports Json F64 Failover_Policy Bounded_Lines
begin

text \<open>
  The failure half of \<open>crates/rupi-provider/src/decode.rs\<close>: what an HTTP error, a transport
  error, a read error and a cancellation become. The JSON parser and the parser of decimal
  numbers are arguments, and so is the Unicode test whether a line has an alphanumeric
  character; lower-casing is ASCII, which decides the two ASCII patterns as Unicode
  lower-casing does.
\<close>

section \<open>Text of a failure\<close>

definition max_error_body_bytes :: usize where
  "max_error_body_bytes = 64 * 1024"

definition ellipsis :: string where
  "ellipsis = map char_of [226, 128, 166 :: nat]"

definition truncate_chars :: "string \<Rightarrow> nat \<Rightarrow> string" where
  "truncate_chars text max_chars =
     (let count = char_count text
      in if count \<le> max_chars then text
         else take_chars max_chars text @ ellipsis @ ''('' @ show_nat (count - max_chars)
                @ '' chars truncated)'')"

definition summarize :: "(string \<Rightarrow> bool) \<Rightarrow> string \<Rightarrow> string" where
  "summarize has_alnum text =
     (let first_line = unwrap_or [] (find (\<lambda>l. l \<noteq> [] \<and> has_alnum l) (map trim (str_lines text)))
      in truncate_chars first_line 240)"

definition timed_out :: "string \<Rightarrow> bool" where
  "timed_out text =
     (let lower = to_ascii_lowercase text
      in contains_str lower ''timed out'' \<or> contains_str lower ''timeout'')"

definition message_at :: "json \<Rightarrow> string list \<Rightarrow> string option" where
  "message_at value path =
     (case foldl (\<lambda>cursor key. Option.bind cursor (\<lambda>node. jget node key)) (Some value) path of
        Some (JStr message) \<Rightarrow> (if trim message = [] then None else Some message)
      | _ \<Rightarrow> None)"

definition error_message :: "(string \<Rightarrow> string + json) \<Rightarrow> string \<Rightarrow> string" where
  "error_message parse body =
     (let from_json =
            (case parse body of
               Inl _ \<Rightarrow> None
             | Inr value \<Rightarrow>
                 find_map (message_at value)
                   [[''error'', ''message''], [''message''], [''error'', ''msg''], [''detail'']])
      in case from_json of
           Some message \<Rightarrow> message
         | None \<Rightarrow> (if trim body = [] then ''<empty body>'' else trim body))"

definition body_retry_after :: "json \<Rightarrow> u64 option" where
  "body_retry_after value =
     Option.bind
       (or_else (Option.bind (jget value ''error'') (\<lambda>e. jget e ''retry_after''))
         (jget value ''retry_after'')) as_u64"

text \<open>
  Milliseconds, from the header (a number of seconds, a product of floats that saturates) or the body (whole
  seconds, whose multiplication wraps in the release profile).
\<close>

definition retry_after_ms ::
    "(string \<Rightarrow> rat option) \<Rightarrow> (string \<Rightarrow> string + json) \<Rightarrow> string option \<Rightarrow> string \<Rightarrow> u64 option" where
  "retry_after_ms parse_f64 parse header body =
     (case Option.bind header (\<lambda>value. parse_f64 (trim value)) of
        Some seconds \<Rightarrow>
          (if 0 \<le> seconds then Some (f64_to_u64 (fmul seconds 1000))
           else map_option (\<lambda>v. v * 1000 mod (u64_max + 1))
                  (case parse body of Inl _ \<Rightarrow> None | Inr value \<Rightarrow> body_retry_after value))
      | None \<Rightarrow>
          map_option (\<lambda>v. v * 1000 mod (u64_max + 1))
            (case parse body of Inl _ \<Rightarrow> None | Inr value \<Rightarrow> body_retry_after value))"

section \<open>Failures\<close>

definition http_failure ::
    "(string \<Rightarrow> bool) \<Rightarrow> (string \<Rightarrow> rat option) \<Rightarrow> (string \<Rightarrow> string + json)
      \<Rightarrow> u16 \<Rightarrow> string \<Rightarrow> string option \<Rightarrow> failure_phase \<Rightarrow> model_failure" where
  "http_failure has_alnum parse_f64 parse status body retry_after phase =
     (let message = error_message parse body;
          kind = classify_http status message;
          replay_safety =
            (if status = 429 \<or> (500 \<le> status \<and> status \<le> 599) \<or> phase = PreRequest
             then Safe else AmbiguousPostBoundary)
      in with_detail (truncate_chars body (max_error_body_bytes div 4))
           (with_replay_safety replay_safety
             (with_retry_after_ms (unwrap_or 0 (retry_after_ms parse_f64 parse retry_after body))
               (with_status status (new_failure kind phase (summarize has_alnum message))))))"

definition transport_failure :: "(string \<Rightarrow> bool) \<Rightarrow> string \<Rightarrow> failure_phase \<Rightarrow> model_failure" where
  "transport_failure has_alnum text phase =
     new_failure (if timed_out text then Timeout else Transport) phase (summarize has_alnum text)"

definition stream_failure :: "(string \<Rightarrow> bool) \<Rightarrow> io_error \<Rightarrow> bool \<Rightarrow> model_failure" where
  "stream_failure has_alnum error emitted_output =
     (let failure = transport_failure has_alnum (snd error) Streaming;
          failure' = (if fst error \<in> {TimedOut, WouldBlock} then failure\<lparr>mf_kind := Timeout\<rparr> else failure)
      in with_partial_output emitted_output failure')"

definition sse_framing_failure :: "io_error \<Rightarrow> bool \<Rightarrow> model_failure" where
  "sse_framing_failure error emitted_output =
     with_partial_output emitted_output (new_failure Protocol Normalizing (snd error))"

definition cancelled_failure :: "bool \<Rightarrow> model_failure" where
  "cancelled_failure emitted_output =
     with_partial_output emitted_output
       (new_failure Cancelled (if emitted_output then Streaming else PreRequest) ''cancelled by request'')"

definition check_cancel :: "bool \<Rightarrow> bool \<Rightarrow> model_failure option" where
  "check_cancel cancelled emitted_output =
     (if cancelled then Some (cancelled_failure emitted_output) else None)"

lemma length_truncate: "char_count text \<le> n \<Longrightarrow> truncate_chars text n = text"
  by (simp add: truncate_chars_def)

lemma http_failure_fields:
  "mf_kind (http_failure u f p status body hdr phase) = classify_http status (error_message p body)"
  "mf_replay_safety (http_failure u f p status body hdr phase) =
     (if status = 429 \<or> (500 \<le> status \<and> status \<le> 599) \<or> phase = PreRequest
      then Safe else AmbiguousPostBoundary)"
  "\<not> mf_partial_output_emitted (http_failure u f p status body hdr phase)"
  "mf_attempts (http_failure u f p status body hdr phase) = 0"
  by (simp_all add: http_failure_def Let_def rupi_defs)

lemma classify_retryable:
  "is_retryable (classify_http status message) \<longleftrightarrow>
      \<not> looks_like_context_overflow message
      \<and> (status \<in> {404, 408, 410, 429} \<or> (500 \<le> status \<and> status \<le> 599))"
  by (simp add: classify_http_def)

section \<open>Properties\<close>

text \<open>
  An HTTP error answered to a sent request is retried within the attempt bound exactly when
  its status is 429 or a server error and its message does not describe a context overflow; a
  read error in the middle of a stream and a cancellation are never retried.
\<close>

theorem provider_errors_retried:
  "((\<exists>n. decide policy (with_attempts attempts
        (http_failure has_alnum parse_f64 parse status body header WaitingForResponse))
      = Retry attempts n) \<longleftrightarrow>
     attempts < fp_max_attempts policy
     \<and> \<not> looks_like_context_overflow (error_message parse body)
     \<and> (status = 429 \<or> (500 \<le> status \<and> status \<le> 599)))
   \<and> \<not> safe_to_retry (stream_failure has_alnum error emitted)
   \<and> decide policy (cancelled_failure emitted) = Abort"
proof (intro conjI)
  let ?f = "http_failure has_alnum parse_f64 parse status body header WaitingForResponse"
  have "mf_kind (with_attempts attempts ?f) = mf_kind ?f"
    and "mf_replay_safety (with_attempts attempts ?f) = mf_replay_safety ?f"
    and "mf_partial_output_emitted (with_attempts attempts ?f) = mf_partial_output_emitted ?f"
    and "mf_attempts (with_attempts attempts ?f) = attempts"
    by (simp_all add: with_attempts_def)
  then show "(\<exists>n. decide policy (with_attempts attempts ?f) = Retry attempts n) \<longleftrightarrow>
     attempts < fp_max_attempts policy
     \<and> \<not> looks_like_context_overflow (error_message parse body)
     \<and> (status = 429 \<or> (500 \<le> status \<and> status \<le> 599))"
    by (auto simp: decide_Retry_iff safe_to_retry_def http_failure_fields classify_retryable)
  show "\<not> safe_to_retry (stream_failure has_alnum error emitted)"
    by (simp add: safe_to_retry_def stream_failure_def transport_failure_def rupi_defs Let_def)
  show "decide policy (cancelled_failure emitted) = Abort"
    by (simp add: decide_def cancelled_failure_def rupi_defs Let_def)
qed

end
