(* ===== verification/Events.thy ===== *)
theory Events
  imports Messages Context_Capsule
begin

text \<open>
  \<open>crates/rupi-core/src/event.rs\<close> and the journal line of \<open>crates/rupi-core/src/trace.rs\<close>:
  the typed runtime events, their identity metadata, and the line a trace journal holds. The
  identifiers of \<open>crates/rupi-core/src/ids.rs\<close> are newtypes over strings; a sequence number is a
  \<open>u64\<close>. Serialization is not modelled.
\<close>

type_synonym session_id = string
type_synonym turn_id = string
type_synonym event_id = string
type_synonym tool_call_id = string
type_synonym checkpoint_id = string
type_synonym trace_id = string
type_synonym span_id = string
type_synonym event_seq = u64

section \<open>Metadata\<close>

definition event_schema_version :: u32 where
  "event_schema_version = 1"

record event_meta =
  em_event_id :: event_id
  em_session_id :: session_id
  em_turn_id :: "turn_id option"
  em_seq :: "event_seq option"
  em_timestamp_ms :: u64
  em_model_epoch :: "u32 option"
  em_model :: "model_ref option"
  em_tool_call_id :: "tool_call_id option"
  em_parent_event_id :: "event_id option"
  em_trace_id :: trace_id
  em_span_id :: span_id

text \<open>The minted identifiers and the clock reading are arguments.\<close>

definition new_meta :: "event_id \<Rightarrow> span_id \<Rightarrow> u64 \<Rightarrow> session_id \<Rightarrow> trace_id \<Rightarrow> event_meta" where
  "new_meta event_id spn now session trace =
     \<lparr> em_event_id = event_id, em_session_id = session, em_turn_id = None, em_seq = None,
       em_timestamp_ms = now, em_model_epoch = None, em_model = None, em_tool_call_id = None,
       em_parent_event_id = None, em_trace_id = trace, em_span_id = spn \<rparr>"

definition meta_with_turn :: "turn_id \<Rightarrow> event_meta \<Rightarrow> event_meta" where
  "meta_with_turn t m = m\<lparr>em_turn_id := Some t\<rparr>"

definition meta_with_epoch :: "u32 \<Rightarrow> model_ref \<Rightarrow> event_meta \<Rightarrow> event_meta" where
  "meta_with_epoch e r m = m\<lparr>em_model_epoch := Some e, em_model := Some r\<rparr>"

definition meta_with_tool_call :: "tool_call_id \<Rightarrow> event_meta \<Rightarrow> event_meta" where
  "meta_with_tool_call c m = m\<lparr>em_tool_call_id := Some c\<rparr>"

definition meta_with_parent :: "event_id \<Rightarrow> event_meta \<Rightarrow> event_meta" where
  "meta_with_parent p m = m\<lparr>em_parent_event_id := Some p\<rparr>"

section \<open>Event payloads\<close>

datatype session_end_reason =
  UserExit | Restart | Fatal (fatal_message: string) | Interrupted (interrupted_message: string)

datatype turn_status =
  TurnDone | TurnCancelled | TurnBudgetExhausted | TurnFailed model_failure_kind

datatype diagnostic_level = InfoLevel | WarnLevel | ErrorLevel

record session_started =
  ss_working_dir :: string
  ss_model :: model_ref
  ss_capabilities :: model_capabilities
  ss_resumed :: bool

record user_message_event =
  um_text :: string
  um_attachments :: u32

record model_request_started =
  mrs_epoch :: u32
  mrs_model :: model_ref
  mrs_message_count :: u32
  mrs_context_tokens_est :: u64
  mrs_tools_exposed :: u32

record reasoning_delta_event =
  rde_text :: string
  rde_provenance :: reasoning_provenance
  rde_chunk_index :: u32

record assistant_delta =
  ad_text :: string
  ad_chunk_index :: u32

record model_request_completed =
  mrc_epoch :: u32
  mrc_model :: model_ref
  mrc_finish_reason :: "string option"
  mrc_input_tokens :: "u64 option"
  mrc_uncached_input_tokens :: "u64 option"
  mrc_logical_prompt_tokens :: "u64 option"
  mrc_cache_read_tokens :: "u64 option"
  mrc_cache_write_tokens :: "u64 option"
  mrc_output_tokens :: "u64 option"
  mrc_provider_total_tokens :: "u64 option"
  mrc_duration_ms :: u64
  mrc_tool_calls :: u32
  mrc_reasoning_provenance :: "reasoning_provenance option"
  mrc_first_delta_ms :: "u64 option"

record model_retry_event =
  mre_attempt :: u32
  mre_max_attempts :: u32
  mre_kind :: model_failure_kind
  mre_retry_after_ms :: "u64 option"
  mre_will_failover :: bool

record model_failover_event =
  mfe_from :: model_ref
  mfe_to :: model_ref
  mfe_kind :: model_failure_kind
  mfe_gaps :: "capability_gap list"
  mfe_compacted :: bool

record model_epoch_started =
  mes_epoch :: u32
  mes_model :: model_ref
  mes_reason :: epoch_reason
  mes_capabilities :: model_capabilities

record tool_requested =
  trq_call_id :: tool_call_id
  trq_name :: string
  trq_arguments :: json
  trq_read_only :: bool

record tool_started =
  tst_call_id :: tool_call_id
  tst_name :: string

record tool_completed =
  tcm_call_id :: tool_call_id
  tcm_name :: string
  tcm_state :: tool_execution_state
  tcm_duration_ms :: u64
  tcm_status :: "int option"
  tcm_reduced :: bool
  tcm_blob :: "blob_ref option"
  tcm_visible_bytes :: u64

record tool_failed =
  tfl_call_id :: tool_call_id
  tfl_name :: string
  tfl_message :: string
  tfl_duration_ms :: u64
  tfl_status :: "int option"

record tool_unknown =
  tun_call_id :: tool_call_id
  tun_name :: string
  tun_why :: string
  tun_mutating :: bool

record external_context_retrieved =
  ecr_source :: external_source
  ecr_citation :: "string option"
  ecr_bytes :: u64
  ecr_inline :: bool
  ecr_metadata :: "(string, string) btree"

record context_reduced =
  crd_reason :: reduction_reason
  crd_original_bytes :: u64
  crd_visible_bytes :: u64
  crd_removed_messages :: u32
  crd_retained_messages :: u32
  crd_blob :: "blob_ref option"
  crd_recovery_ref :: "string option"
  crd_tool_call_id :: "tool_call_id option"

record compaction_started =
  ccs_level :: context_level
  ccs_reason :: string

record compaction_completed =
  ccc_level :: context_level
  ccc_removed_messages :: u32
  ccc_retained_messages :: u32
  ccc_context_epoch :: u32

record compaction_epoch =
  cce_context_epoch :: u32
  cce_replaces_from :: event_seq
  cce_replaces_through :: event_seq
  cce_summary :: "blob_ref option"

record checkpoint_created =
  ckc_checkpoint_id :: checkpoint_id
  ckc_capsule_version :: u32
  ckc_summarized_events :: u64
  ckc_path :: string
  ckc_context_epoch :: u32

record turn_completed =
  tcd_status :: turn_status
  tcd_duration_ms :: u64

record diagnostic_event =
  dg_level :: diagnostic_level
  dg_message :: string

section \<open>The event union\<close>

datatype agent_event =
  SessionStartedEv session_started
| UserMessageEv user_message_event
| ModelRequestStartedEv model_request_started
| ReasoningDeltaEv reasoning_delta_event
| AssistantDeltaEv assistant_delta
| ModelRequestCompletedEv model_request_completed
| ModelRetryEv model_retry_event
| ModelFailoverEv model_failover_event
| ModelEpochStartedEv model_epoch_started
| ToolRequestedEv tool_requested
| ToolStartedEv tool_started
| ToolCompletedEv tool_completed
| ToolFailedEv tool_failed
| ToolUnknownEv tool_unknown
| ExternalContextEv external_context_retrieved
| ContextReducedEv context_reduced
| CompactionStartedEv compaction_started
| CompactionCompletedEv compaction_completed
| ContextSummaryEv
| CompactionEpochEv compaction_epoch
| CheckpointCreatedEv checkpoint_created
| TurnCompletedEv turn_completed
| DiagnosticEv diagnostic_event
| SessionEndedEv session_end_reason

fun event_kind :: "agent_event \<Rightarrow> string" where
  "event_kind (SessionStartedEv _) = ''session_started''"
| "event_kind (UserMessageEv _) = ''user_message''"
| "event_kind (ModelRequestStartedEv _) = ''model_request_started''"
| "event_kind (ReasoningDeltaEv _) = ''reasoning_delta''"
| "event_kind (AssistantDeltaEv _) = ''assistant_delta''"
| "event_kind (ModelRequestCompletedEv _) = ''model_request_completed''"
| "event_kind (ModelRetryEv _) = ''model_retry''"
| "event_kind (ModelFailoverEv _) = ''model_failover''"
| "event_kind (ModelEpochStartedEv _) = ''model_epoch_started''"
| "event_kind (ToolRequestedEv _) = ''tool_requested''"
| "event_kind (ToolStartedEv _) = ''tool_started''"
| "event_kind (ToolCompletedEv _) = ''tool_completed''"
| "event_kind (ToolFailedEv _) = ''tool_failed''"
| "event_kind (ToolUnknownEv _) = ''tool_unknown''"
| "event_kind (ExternalContextEv _) = ''external_context_retrieved''"
| "event_kind (ContextReducedEv _) = ''context_reduced''"
| "event_kind ContextSummaryEv = ''context_summary''"
| "event_kind (CompactionStartedEv _) = ''context_compaction_started''"
| "event_kind (CompactionEpochEv _) = ''context_compaction_epoch''"
| "event_kind (CompactionCompletedEv _) = ''context_compaction_completed''"
| "event_kind (CheckpointCreatedEv _) = ''checkpoint_created''"
| "event_kind (TurnCompletedEv _) = ''turn_completed''"
| "event_kind (DiagnosticEv _) = ''diagnostic''"
| "event_kind (SessionEndedEv _) = ''session_ended''"

record event_envelope =
  ee_v :: u32
  ee_meta :: event_meta
  ee_event :: agent_event

definition new_envelope :: "event_meta \<Rightarrow> agent_event \<Rightarrow> event_envelope" where
  "new_envelope m e = \<lparr> ee_v = event_schema_version, ee_meta = m, ee_event = e \<rparr>"

record attributed_message =
  am_envelope :: event_envelope
  am_message :: message

section \<open>Journal lines\<close>

record externalized_field =
  xf_field :: string
  xf_reference :: string
  xf_bytes :: u64
  xf_inline :: u64

record trace_entry =
  tn_envelope :: event_envelope
  tn_redactions :: u32
  tn_raw_payload :: bool
  tn_raw_ref :: "string option"
  tn_externalized :: "externalized_field list"

abbreviation entry_meta :: "trace_entry \<Rightarrow> event_meta" where
  "entry_meta e \<equiv> ee_meta (tn_envelope e)"

abbreviation entry_event :: "trace_entry \<Rightarrow> agent_event" where
  "entry_event e \<equiv> ee_event (tn_envelope e)"

abbreviation entry_id :: "trace_entry \<Rightarrow> event_id" where
  "entry_id e \<equiv> em_event_id (entry_meta e)"

abbreviation entry_seq :: "trace_entry \<Rightarrow> event_seq option" where
  "entry_seq e \<equiv> em_seq (entry_meta e)"

abbreviation entry_turn :: "trace_entry \<Rightarrow> turn_id option" where
  "entry_turn e \<equiv> em_turn_id (entry_meta e)"

definition plain_entry :: "event_envelope \<Rightarrow> trace_entry" where
  "plain_entry env =
     \<lparr> tn_envelope = env, tn_redactions = 0, tn_raw_payload = False, tn_raw_ref = None,
       tn_externalized = [] \<rparr>"

section \<open>Compaction epochs\<close>

definition first_compaction_epoch :: u32 where
  "first_compaction_epoch = 1"

text \<open>The highest recorded ordinal of the scan; the successor wraps at the width of \<open>u32\<close>.\<close>

fun higher_epoch :: "agent_event \<Rightarrow> u32 option \<Rightarrow> u32 option" where
  "higher_epoch (CompactionEpochEv r) highest =
     Some (case highest of None \<Rightarrow> cce_context_epoch r | Some h \<Rightarrow> max h (cce_context_epoch r))"
| "higher_epoch _ highest = highest"

definition next_context_epoch :: "agent_event list \<Rightarrow> u32" where
  "next_context_epoch events =
     (case fold higher_epoch events None of
        None \<Rightarrow> first_compaction_epoch
      | Some h \<Rightarrow> (h + 1) mod (u32_max + 1))"

definition recorded_epochs :: "agent_event list \<Rightarrow> u32 set" where
  "recorded_epochs events = {cce_context_epoch r | r. CompactionEpochEv r \<in> set events}"

lemma higher_epoch_fold:
  "fold higher_epoch events start =
     (case start of
        None \<Rightarrow> if recorded_epochs events = {} then None else Some (Max (recorded_epochs events))
      | Some h \<Rightarrow> Some (Max (insert h (recorded_epochs events))))"
proof (induction events arbitrary: start)
  case Nil
  show ?case by (simp add: recorded_epochs_def split: option.split)
next
  case (Cons e events)
  have fin: "finite (recorded_epochs events)"
  proof -
    have "recorded_epochs events
        \<subseteq> (\<lambda>e. case e of CompactionEpochEv r \<Rightarrow> cce_context_epoch r | _ \<Rightarrow> 0) ` set events"
      by (force simp: recorded_epochs_def)
    then show ?thesis
      using finite_subset by blast
  qed
  show ?case
  proof (cases "\<exists>r. e = CompactionEpochEv r")
    case True
    then obtain r where e: "e = CompactionEpochEv r" by blast
    have ins: "recorded_epochs (CompactionEpochEv r # events)
        = insert (cce_context_epoch r) (recorded_epochs events)"
      by (auto simp: recorded_epochs_def)
    have max_out: "Max (insert (max a b) S) = Max (insert a (insert b S))" if "finite S" for a b and S :: "nat set"
      using that by (cases "S = {}") (simp_all add: max.assoc max.commute max.left_commute)
    show ?thesis
      using fin by (cases start) (simp_all add: Cons.IH ins e max_out)
  next
    case False
    then have "recorded_epochs (e # events) = recorded_epochs events"
      by (auto simp: recorded_epochs_def)
    moreover have "higher_epoch e start = start"
      using False by (cases e) auto
    ultimately show ?thesis
      by (cases start) (simp_all add: Cons.IH)
  qed
qed

lemma next_context_epoch_fresh:
  assumes "\<forall>k \<in> recorded_epochs events. k < u32_max" "k \<in> recorded_epochs events"
  shows "k < next_context_epoch events"
proof -
  have fin: "finite (recorded_epochs events)"
    using assms(1) by (meson bounded_nat_set_is_finite)
  let ?m = "Max (recorded_epochs events)"
  have "fold higher_epoch events None = Some ?m"
    using assms(2) by (auto simp: higher_epoch_fold)
  moreover have "?m < u32_max" "k \<le> ?m"
    using fin assms by (auto intro: Max_ge Max_in)
  ultimately show ?thesis
    by (simp add: next_context_epoch_def)
qed

end
