(* ===== verification/Tool_Trace.thy ===== *)
theory Tool_Trace
  imports Events
begin

text \<open>
  The durable tool lifecycle of \<open>crates/rupi-store/src/store.rs\<close>: the scan of the canonical trace
  (\<open>scan_tool_lifecycles\<close>), the requests that never started, the calls a crash interrupted, and
  the events recovery appends for requests that never started. Every \<open>StoreError::Invalid\<close> is an
  error value; an \<open>expect\<close> or an \<open>unreachable!\<close> is the error \<open>ScanPanic\<close>.
\<close>

section \<open>Pending calls\<close>

datatype scan_error =
  LifecycleInvalid event_id string
| RequestNeverStarted tool_call_id
| ScanPanic

record pending_tool =
  pt_request :: trace_entry
  pt_started :: bool
  pt_started_event_id :: "event_id option"

type_synonym pending_table = "(event_id, pending_tool) btree"

text \<open>\<open>let AgentEvent::ToolRequested(requested) = ... else unreachable!\<close>.\<close>

fun requested_event :: "agent_event \<Rightarrow> tool_requested option" where
  "requested_event (ToolRequestedEv r) = Some r"
| "requested_event _ = None"

definition requests_call :: "tool_call_id \<Rightarrow> pending_tool \<Rightarrow> bool" where
  "requests_call call_id c =
     (case requested_event (entry_event (pt_request c)) of
        None \<Rightarrow> False | Some r \<Rightarrow> trq_call_id r = call_id)"

definition resolve_pending_tool ::
  "pending_table \<Rightarrow> trace_entry \<Rightarrow> tool_call_id \<Rightarrow> string + event_id" where
  "resolve_pending_tool pending entry call_id =
     (case em_parent_event_id (entry_meta entry) of
        Some parent \<Rightarrow>
         (if map_of pending parent \<noteq> None then Inr parent
          else case find (\<lambda>(_, c). pt_started_event_id c = Some parent) pending of
                 Some (event_id, _) \<Rightarrow> Inr event_id
               | None \<Rightarrow> Inl ''tool lifecycle parent does not identify a pending request'')
      | None \<Rightarrow>
         (case filter (\<lambda>(_, c). requests_call call_id c) pending of
            [] \<Rightarrow> Inl ''tool lifecycle has no matching request''
          | [(event_id, _)] \<Rightarrow> Inr event_id
          | _ \<Rightarrow> Inl ''parentless tool lifecycle is ambiguous for this call id''))"

definition call_metadata_matches :: "trace_entry \<Rightarrow> tool_call_id \<Rightarrow> bool" where
  "call_metadata_matches entry call_id =
     (case em_tool_call_id (entry_meta entry) of None \<Rightarrow> True | Some m \<Rightarrow> m = call_id)"

text \<open>
  The comparison every lifecycle edge makes with its request: the same call, the same name and
  the same turn, epoch and model.
\<close>

definition agrees_with_request ::
  "trace_entry \<Rightarrow> tool_call_id \<Rightarrow> string \<Rightarrow> trace_entry \<Rightarrow> tool_requested \<Rightarrow> bool" where
  "agrees_with_request entry call_id name request requested \<longleftrightarrow>
     call_id = trq_call_id requested \<and> name = trq_name requested
     \<and> call_metadata_matches entry call_id
     \<and> em_turn_id (entry_meta request) = em_turn_id (entry_meta entry)
     \<and> em_model_epoch (entry_meta request) = em_model_epoch (entry_meta entry)
     \<and> em_model (entry_meta request) = em_model (entry_meta entry)"

section \<open>The scan\<close>

type_synonym scan_state = "pending_table \<times> event_id list"

definition scan_requested :: "trace_entry \<Rightarrow> tool_requested \<Rightarrow> scan_state \<Rightarrow> scan_error + scan_state" where
  "scan_requested entry requested s =
     (let (pending, ordered) = s; event_id = entry_id entry
      in if entry_turn entry = None \<or> trq_call_id requested = []
            \<or> \<not> call_metadata_matches entry (trq_call_id requested)
         then Inl (LifecycleInvalid event_id ''tool request has no turn or call identity'')
         else if map_of pending event_id \<noteq> None
         then Inl (LifecycleInvalid event_id ''duplicate tool request event identity'')
         else Inr (bt_insert event_id
                     \<lparr> pt_request = entry, pt_started = False, pt_started_event_id = None \<rparr> pending,
                   ordered @ [event_id]))"

text \<open>Resolving an edge, with the record it must find and the request that record must hold.\<close>

definition resolved_call ::
  "pending_table \<Rightarrow> trace_entry \<Rightarrow> tool_call_id \<Rightarrow> scan_error + event_id \<times> pending_tool \<times> tool_requested" where
  "resolved_call pending entry call_id =
     (case resolve_pending_tool pending entry call_id of
        Inl detail \<Rightarrow> Inl (LifecycleInvalid (entry_id entry) detail)
      | Inr request_id \<Rightarrow>
         (case map_of pending request_id of
            None \<Rightarrow> Inl ScanPanic
          | Some c \<Rightarrow>
             (case requested_event (entry_event (pt_request c)) of
                None \<Rightarrow> Inl ScanPanic
              | Some requested \<Rightarrow> Inr (request_id, c, requested))))"

definition scan_started :: "trace_entry \<Rightarrow> tool_started \<Rightarrow> scan_state \<Rightarrow> scan_error + scan_state" where
  "scan_started entry started s =
     (let (pending, ordered) = s
      in bind_res (resolved_call pending entry (tst_call_id started))
        (\<lambda>(request_id, c, requested).
           if pt_started c then Inl (LifecycleInvalid (entry_id entry) ''duplicate tool start'')
           else if (case em_parent_event_id (entry_meta entry) of
                      None \<Rightarrow> False | Some parent \<Rightarrow> parent \<noteq> request_id)
                   \<or> \<not> agrees_with_request entry (tst_call_id started) (tst_name started)
                         (pt_request c) requested
           then Inl (LifecycleInvalid (entry_id entry) ''tool start disagrees with its request'')
           else Inr (bt_update request_id
                       (\<lambda>c. c\<lparr>pt_started := True, pt_started_event_id := Some (entry_id entry)\<rparr>)
                       pending, ordered)))"

definition scan_completed :: "trace_entry \<Rightarrow> tool_completed \<Rightarrow> scan_state \<Rightarrow> scan_error + scan_state" where
  "scan_completed entry completed s =
     (let (pending, ordered) = s
      in bind_res (resolved_call pending entry (tcm_call_id completed))
        (\<lambda>(request_id, c, requested).
           if \<not> pt_started c
           then Inl (LifecycleInvalid (entry_id entry) ''tool completed before it started'')
           else if \<not> agrees_with_request entry (tcm_call_id completed) (tcm_name completed)
                      (pt_request c) requested
           then Inl (LifecycleInvalid (entry_id entry) ''tool completion disagrees with its request'')
           else if tcm_state completed \<noteq> Succeeded
           then Inl (LifecycleInvalid (entry_id entry) ''tool completed with a non-success state'')
           else Inr (bt_remove request_id pending, ordered)))"

definition scan_failed :: "trace_entry \<Rightarrow> tool_failed \<Rightarrow> scan_state \<Rightarrow> scan_error + scan_state" where
  "scan_failed entry failed s =
     (let (pending, ordered) = s
      in bind_res (resolved_call pending entry (tfl_call_id failed))
        (\<lambda>(request_id, c, requested).
           if \<not> agrees_with_request entry (tfl_call_id failed) (tfl_name failed)
                 (pt_request c) requested
           then Inl (LifecycleInvalid (entry_id entry) ''tool failure disagrees with its request'')
           else Inr (bt_remove request_id pending, ordered)))"

definition scan_unknown :: "trace_entry \<Rightarrow> tool_unknown \<Rightarrow> scan_state \<Rightarrow> scan_error + scan_state" where
  "scan_unknown entry unknown s =
     (let (pending, ordered) = s
      in bind_res (resolved_call pending entry (tun_call_id unknown))
        (\<lambda>(request_id, c, requested).
           if tun_mutating unknown = trq_read_only requested
              \<or> \<not> agrees_with_request entry (tun_call_id unknown) (tun_name unknown)
                    (pt_request c) requested
           then Inl (LifecycleInvalid (entry_id entry) ''tool unknown result disagrees with its request'')
           else Inr (bt_remove request_id pending, ordered)))"

definition scan_entry :: "trace_entry \<Rightarrow> scan_state \<Rightarrow> scan_error + scan_state" where
  "scan_entry entry s =
     (case entry_event entry of
        ToolRequestedEv r \<Rightarrow> scan_requested entry r s
      | ToolStartedEv t \<Rightarrow> scan_started entry t s
      | ToolCompletedEv c \<Rightarrow> scan_completed entry c s
      | ToolFailedEv f \<Rightarrow> scan_failed entry f s
      | ToolUnknownEv u \<Rightarrow> scan_unknown entry u s
      | _ \<Rightarrow> Inr s)"

text \<open>\<open>ordered.into_iter().filter_map(|event_id| pending.remove(&event_id))\<close>.\<close>

fun in_request_order :: "event_id list \<Rightarrow> pending_table \<Rightarrow> pending_tool list" where
  "in_request_order [] pending = []"
| "in_request_order (i # is) pending =
     (case map_of pending i of
        None \<Rightarrow> in_request_order is pending
      | Some c \<Rightarrow> c # in_request_order is (bt_remove i pending))"

definition scan_tool_lifecycles :: "trace_entry list \<Rightarrow> scan_error + pending_tool list" where
  "scan_tool_lifecycles entries =
     bind_res (fold_res scan_entry entries ([], []))
       (\<lambda>(pending, ordered). Inr (in_request_order ordered pending))"

definition unstarted_tool_requests :: "trace_entry list \<Rightarrow> scan_error + trace_entry list" where
  "unstarted_tool_requests entries =
     bind_res (scan_tool_lifecycles entries)
       (\<lambda>pending. Inr (map pt_request (filter (\<lambda>c. \<not> pt_started c) pending)))"

record interrupted_tool_call =
  it_request :: tool_request
  it_state :: tool_execution_state
  it_read_only :: bool
  it_turn_id :: "turn_id option"
  it_epoch :: "u32 option"
  it_model :: "model_ref option"
  it_request_event_id :: "event_id option"
  it_started_event_id :: "event_id option"

definition interrupted_of :: "pending_tool \<Rightarrow> scan_error + interrupted_tool_call" where
  "interrupted_of c =
     (case requested_event (entry_event (pt_request c)) of
        None \<Rightarrow> Inl ScanPanic
      | Some r \<Rightarrow>
         (if \<not> pt_started c then Inl (RequestNeverStarted (trq_call_id r))
          else Inr \<lparr> it_request = \<lparr> tr_call_id = trq_call_id r, tr_name = trq_name r,
                                   tr_arguments = trq_arguments r \<rparr>,
                     it_state = Started, it_read_only = trq_read_only r,
                     it_turn_id = entry_turn (pt_request c),
                     it_epoch = em_model_epoch (entry_meta (pt_request c)),
                     it_model = em_model (entry_meta (pt_request c)),
                     it_request_event_id = Some (entry_id (pt_request c)),
                     it_started_event_id = pt_started_event_id c \<rparr>))"

fun all_interrupted :: "pending_tool list \<Rightarrow> scan_error + interrupted_tool_call list" where
  "all_interrupted [] = Inr []"
| "all_interrupted (c # cs) =
     bind_res (interrupted_of c) (\<lambda>i. bind_res (all_interrupted cs) (\<lambda>is. Inr (i # is)))"

definition interrupted_tool_calls :: "trace_entry list \<Rightarrow> scan_error + interrupted_tool_call list" where
  "interrupted_tool_calls entries = bind_res (scan_tool_lifecycles entries) all_interrupted"

section \<open>Recovery of requests that never started\<close>

type_synonym minted = "event_id \<times> span_id \<times> u64"

definition closing_failure ::
  "session_id \<Rightarrow> minted \<Rightarrow> trace_entry \<Rightarrow> scan_error + event_envelope \<times> message" where
  "closing_failure session m entry =
     (case requested_event (entry_event entry) of
        None \<Rightarrow> Inl ScanPanic
      | Some requested \<Rightarrow>
         (let (event_id, spn, now) = m;
              details = ''tool request '' @ [CHR 0x27] @ trq_name requested
                @ [CHR 0x27] @ '' was interrupted before execution; no side effect was observed'';
              meta = (new_meta event_id spn now session (em_trace_id (entry_meta entry)))
                \<lparr>em_turn_id := entry_turn entry,
                 em_model_epoch := em_model_epoch (entry_meta entry),
                 em_model := em_model (entry_meta entry),
                 em_tool_call_id := Some (trq_call_id requested),
                 em_parent_event_id := Some (entry_id entry)\<rparr>;
              envelope = new_envelope meta
                (ToolFailedEv \<lparr> tfl_call_id = trq_call_id requested, tfl_name = trq_name requested,
                   tfl_message = details, tfl_duration_ms = 0, tfl_status = None \<rparr>);
              message = new_message Tool_Role
                [ToolResultB \<lparr> tb_id = trq_call_id requested, tb_name = trq_name requested,
                   tb_state = Failed, tb_text = details, tb_is_error = True, tb_reduced = False \<rparr>]
          in Inr (envelope, message)))"

fun close_all ::
  "session_id \<Rightarrow> minted list \<Rightarrow> trace_entry list \<Rightarrow> scan_error + (event_envelope \<times> message) list" where
  "close_all session ms [] = Inr []"
| "close_all session ms (e # es) =
     bind_res (closing_failure session (hd ms) e)
       (\<lambda>c. bind_res (close_all session (tl ms) es) (\<lambda>cs. Inr (c # cs)))"

definition recover_unstarted_tool_requests ::
  "session_id \<Rightarrow> minted list \<Rightarrow> trace_entry list \<Rightarrow> scan_error + (event_envelope \<times> message) list" where
  "recover_unstarted_tool_requests session ms entries =
     bind_res (unstarted_tool_requests entries) (close_all session ms)"

section \<open>The table stays well formed\<close>

definition call_ok :: "event_id \<Rightarrow> pending_tool \<Rightarrow> bool" where
  "call_ok k c \<longleftrightarrow>
     entry_id (pt_request c) = k \<and> entry_turn (pt_request c) \<noteq> None
     \<and> (\<exists>r. requested_event (entry_event (pt_request c)) = Some r)
     \<and> (pt_started c \<longleftrightarrow> pt_started_event_id c \<noteq> None)"

definition scan_ok :: "scan_state \<Rightarrow> bool" where
  "scan_ok s \<longleftrightarrow>
     bt_ok (fst s) \<and> (\<forall>k c. map_of (fst s) k = Some c \<longrightarrow> call_ok k c)
     \<and> fst ` set (fst s) \<subseteq> set (snd s)"

lemma requested_event_Some [simp]: "requested_event e = Some r \<longleftrightarrow> e = ToolRequestedEv r"
  by (cases e) auto

lemma resolve_in_table:
  assumes "resolve_pending_tool pending entry call_id = Inr k"
  shows "map_of pending k \<noteq> None"
proof -
  have found: "\<exists>d. map_of pending k = Some d" if "(k, c) \<in> set pending" for c
    using that by (metis eq_fst_iff image_eqI map_of_eq_None_iff not_None_eq)
  show ?thesis
  proof (cases "em_parent_event_id (entry_meta entry)")
    case None
    then obtain c where "filter (\<lambda>(_, c). requests_call call_id c) pending = [(k, c)]"
      using assms by (auto simp: resolve_pending_tool_def split: list.splits prod.splits)
    then have "(k, c) \<in> set pending"
      by (metis filter_is_subset list.set_intros(1) subsetD)
    then show ?thesis using found by blast
  next
    case (Some parent)
    then show ?thesis
      using assms by (auto simp: resolve_pending_tool_def find_Some_iff
          split: if_splits option.splits dest!: nth_mem intro: found)
  qed
qed

lemma resolved_call_no_panic:
  assumes "scan_ok (pending, ordered)"
  shows "resolved_call pending entry call_id \<noteq> Inl ScanPanic"
  using assms resolve_in_table [of pending entry call_id]
  by (fastforce simp: resolved_call_def scan_ok_def call_ok_def split: sum.splits option.splits)

lemma resolved_call_Inr:
  assumes "resolved_call pending entry call_id = Inr (k, c, r)"
  shows "map_of pending k = Some c" "entry_event (pt_request c) = ToolRequestedEv r"
    "resolve_pending_tool pending entry call_id = Inr k"
  using assms by (auto simp: resolved_call_def split: sum.splits option.splits)

lemmas scan_event_defs =
  scan_requested_def scan_started_def scan_completed_def scan_failed_def scan_unknown_def

lemma scan_ok_insert:
  assumes "scan_ok (p, ord)" "call_ok k c"
  shows "scan_ok (bt_insert k c p, ord @ [k])"
  using assms by (auto simp: scan_ok_def bt_ok_insert map_of_bt_insert fst_bt_insert)

lemma scan_ok_update:
  assumes "scan_ok (p, ord)" "\<And>c. call_ok k c \<Longrightarrow> call_ok k (f c)"
  shows "scan_ok (bt_update k f p, ord)"
  using assms by (auto simp: scan_ok_def map_of_bt_update split: if_splits)

lemma bt_remove_member: "x \<in> set (bt_remove k p) \<Longrightarrow> x \<in> set p"
  by (auto simp: bt_remove_def)

lemma scan_ok_remove:
  assumes "scan_ok (p, ord)"
  shows "scan_ok (bt_remove k p, ord)"
  using assms
  by (force simp: scan_ok_def bt_ok_remove map_of_bt_remove split: if_splits dest: bt_remove_member)

lemma scan_entry_ok:
  assumes "scan_ok s" "scan_entry e s = Inr s'"
  shows "scan_ok s'"
proof -
  obtain p ord where s: "s = (p, ord)" by (cases s)
  show ?thesis
    using assms
    by (auto simp: s scan_entry_def scan_event_defs Let_def call_ok_def
        intro!: scan_ok_insert scan_ok_update scan_ok_remove
        split: agent_event.splits if_splits prod.splits)
qed

lemma scan_entry_no_panic:
  assumes "scan_ok s"
  shows "scan_entry e s \<noteq> Inl ScanPanic"
proof -
  obtain p ord where s: "s = (p, ord)" by (cases s)
  have "resolved_call p e c \<noteq> Inl ScanPanic" for c
    using assms resolved_call_no_panic by (simp add: s)
  then show ?thesis
    by (auto simp: s scan_entry_def scan_event_defs Let_def bind_res_Inl_iff
        split: agent_event.splits if_splits)
qed

lemma scan_ok_start [simp]: "scan_ok ([], [])"
  by (simp add: scan_ok_def)

lemma scan_all_ok: "fold_res scan_entry es ([], []) = Inr s \<Longrightarrow> scan_ok s"
  by (rule fold_res_invariant [where I = scan_ok]) (auto intro: scan_entry_ok)

section \<open>Collecting the open calls\<close>

lemma in_request_order_subset: "c \<in> set (in_request_order is p) \<Longrightarrow> \<exists>k. map_of p k = Some c"
proof (induction "is" p rule: in_request_order.induct)
  case (2 i "is" p)
  then show ?case
    by (cases "map_of p i") (auto simp: map_of_bt_remove split: if_splits)
qed simp

lemma in_request_order_complete:
  assumes "bt_ok p" "fst ` set p \<subseteq> set is" "map_of p k = Some c"
  shows "c \<in> set (in_request_order is p)"
  using assms
proof (induction "is" p rule: in_request_order.induct)
  case (1 p)
  then show ?case by (auto dest: map_of_SomeD)
next
  case (2 i "is" p)
  show ?case
  proof (cases "map_of p i")
    case None
    then have "i \<notin> fst ` set p"
      by (simp add: map_of_eq_None_iff)
    then have "c \<in> set (in_request_order is p)"
      using None 2 by auto
    then show ?thesis
      using None by simp
  next
    case (Some d)
    have sub: "fst ` set (bt_remove i p) \<subseteq> set is"
      using "2.prems"(2) by (auto simp: bt_remove_def)
    show ?thesis
    proof (cases "k = i")
      case True
      then show ?thesis using Some "2.prems"(3) by simp
    next
      case False
      then have "map_of (bt_remove i p) k = Some c"
        using "2.prems"(3) by (simp add: map_of_bt_remove)
      then show ?thesis
        using "2.IH"(2) [OF Some bt_ok_remove [OF "2.prems"(1)] sub] Some by simp
    qed
  qed
qed

lemma length_bt_remove:
  assumes "bt_ok p" "map_of p k = Some c"
  shows "length p = Suc (length (bt_remove k p))"
proof -
  have "card (set p) = length p" "card (set (bt_remove k p)) = length (bt_remove k p)"
    using bt_ok_distinct [OF assms(1)] bt_ok_distinct [OF bt_ok_remove [OF assms(1), of k]]
    by (simp_all add: distinct_card distinct_map)
  moreover have "set (bt_remove k p) = set p - {(k, c)}"
    using assms bt_ok_distinct [OF assms(1)]
    by (auto simp: bt_remove_def dest!: map_of_SomeD dest: eq_key_imp_eq_value)
  moreover have "(k, c) \<in> set p"
    using assms(2) by (rule map_of_SomeD)
  ultimately show ?thesis
    by (metis List.finite_set card_Suc_Diff1)
qed

lemma in_request_order_length:
  assumes "bt_ok p" "fst ` set p \<subseteq> set is"
  shows "length (in_request_order is p) = length p"
  using assms
proof (induction "is" p rule: in_request_order.induct)
  case (2 i "is" p)
  show ?case
  proof (cases "map_of p i")
    case None
    then have "i \<notin> fst ` set p"
      by (simp add: map_of_eq_None_iff)
    then show ?thesis
      using None 2 by auto
  next
    case (Some d)
    have "fst ` set (bt_remove i p) \<subseteq> set is"
      using "2.prems"(2) by (auto simp: bt_remove_def)
    then show ?thesis
      using "2.IH"(2) [OF Some bt_ok_remove [OF "2.prems"(1)]] Some
        length_bt_remove [OF "2.prems"(1) Some] by simp
  qed
qed simp

text \<open>The calls the scan returns are exactly the entries of its final table.\<close>

lemma scan_result:
  assumes "scan_tool_lifecycles es = Inr calls"
  obtains p ord where "fold_res scan_entry es ([], []) = Inr (p, ord)" "scan_ok (p, ord)"
    "calls = in_request_order ord p" "length calls = length p"
    "\<And>c. c \<in> set calls \<longleftrightarrow> (\<exists>k. map_of p k = Some c)"
proof -
  obtain p ord where f: "fold_res scan_entry es ([], []) = Inr (p, ord)"
    and c: "calls = in_request_order ord p"
    using assms by (auto simp: scan_tool_lifecycles_def)
  have ok: "scan_ok (p, ord)"
    using f by (rule scan_all_ok)
  then have "length calls = length p"
    by (simp add: c in_request_order_length scan_ok_def)
  moreover have "d \<in> set calls \<longleftrightarrow> (\<exists>k. map_of p k = Some d)" for d
    using ok in_request_order_subset [of d ord p] in_request_order_complete [of p ord]
    by (auto simp: c scan_ok_def)
  ultimately show ?thesis
    using that f ok c by blast
qed

lemma scan_result_call_ok:
  assumes "scan_tool_lifecycles es = Inr calls" "c \<in> set calls"
  shows "call_ok (entry_id (pt_request c)) c"
proof -
  obtain p ord where ok: "scan_ok (p, ord)"
    and mem: "\<And>c. c \<in> set calls \<longleftrightarrow> (\<exists>k. map_of p k = Some c)"
    using scan_result [OF assms(1)] by metis
  then obtain k where "map_of p k = Some c"
    using assms(2) by blast
  then have "call_ok k c"
    using ok by (simp add: scan_ok_def)
  then show ?thesis
    by (simp add: call_ok_def)
qed

section \<open>No branch the code calls unreachable is reached\<close>

lemma scan_no_panic: "scan_tool_lifecycles es \<noteq> Inl ScanPanic"
proof -
  have "fold_res scan_entry es ([], []) \<noteq> Inl ScanPanic"
    by (rule fold_res_no_error [where I = scan_ok]) (auto intro: scan_entry_ok dest: scan_entry_no_panic)
  then show ?thesis
    by (auto simp: scan_tool_lifecycles_def bind_res_Inl_iff split: prod.splits)
qed

lemma all_interrupted_no_panic:
  "(\<And>c. c \<in> set cs \<Longrightarrow> call_ok (entry_id (pt_request c)) c) \<Longrightarrow> all_interrupted cs \<noteq> Inl ScanPanic"
proof (induction cs)
  case (Cons c cs)
  then have "interrupted_of c \<noteq> Inl ScanPanic"
    by (auto simp: interrupted_of_def call_ok_def split: option.splits)
  with Cons show ?case
    by (auto simp: bind_res_Inl_iff)
qed simp

lemma close_all_no_panic:
  "(\<And>e. e \<in> set es \<Longrightarrow> \<exists>r. entry_event e = ToolRequestedEv r) \<Longrightarrow> \<exists>cs. close_all session ms es = Inr cs"
proof (induction es arbitrary: ms)
  case (Cons e es)
  then obtain r where "entry_event e = ToolRequestedEv r"
    by (meson list.set_intros(1))
  then have "\<exists>c. closing_failure session (hd ms) e = Inr c"
    by (auto simp: closing_failure_def Let_def split: prod.splits)
  with Cons show ?case
    by fastforce
qed simp

text \<open>C32:
  the scan and everything built on it are total on every trace: whatever the journal holds, no
  \<open>expect\<close> and no \<open>unreachable!\<close> of the scan, of the list of interrupted calls or of the recovery
  of requests that never started can fail; a damaged trace is always a reported error.\<close>

theorem recovery_scan_total:
  "interrupted_tool_calls es \<noteq> Inl ScanPanic
   \<and> unstarted_tool_requests es \<noteq> Inl ScanPanic
   \<and> recover_unstarted_tool_requests session ms es \<noteq> Inl ScanPanic"
proof (cases "scan_tool_lifecycles es")
  case (Inl e)
  then show ?thesis
    using scan_no_panic [of es]
    by (simp add: interrupted_tool_calls_def unstarted_tool_requests_def
        recover_unstarted_tool_requests_def)
next
  case (Inr calls)
  have ok: "call_ok (entry_id (pt_request c)) c" if "c \<in> set calls" for c
    using scan_result_call_ok [OF Inr that] .
  let ?open = "map pt_request (filter (\<lambda>c. \<not> pt_started c) calls)"
  have "\<exists>cs. close_all session ms ?open = Inr cs"
    by (rule close_all_no_panic) (auto dest!: ok simp: call_ok_def)
  moreover have "all_interrupted calls \<noteq> Inl ScanPanic"
    by (rule all_interrupted_no_panic) (rule ok)
  ultimately show ?thesis
    by (auto simp: Inr interrupted_tool_calls_def unstarted_tool_requests_def
        recover_unstarted_tool_requests_def)
qed

section \<open>Every request is accounted for\<close>

fun is_request :: "agent_event \<Rightarrow> bool" where
  "is_request (ToolRequestedEv _) = True"
| "is_request _ = False"

fun is_terminal_event :: "agent_event \<Rightarrow> bool" where
  "is_terminal_event (ToolCompletedEv _) = True"
| "is_terminal_event (ToolFailedEv _) = True"
| "is_terminal_event (ToolUnknownEv _) = True"
| "is_terminal_event _ = False"

definition request_count :: "trace_entry list \<Rightarrow> nat" where
  "request_count es = length (filter (\<lambda>e. is_request (entry_event e)) es)"

definition terminal_count :: "trace_entry list \<Rightarrow> nat" where
  "terminal_count es = length (filter (\<lambda>e. is_terminal_event (entry_event e)) es)"

lemma length_bt_insert_fresh:
  "map_of p k = None \<Longrightarrow> length (bt_insert k c p) = Suc (length p)"
  by (simp add: length_bt_insert_new map_of_eq_None_iff)

lemma scan_entry_count:
  assumes "scan_ok s" "scan_entry e s = Inr s'"
  shows "length (fst s) + request_count [e] = length (fst s') + terminal_count [e]"
proof -
  obtain p ord where s: "s = (p, ord)" by (cases s)
  have p: "bt_ok p"
    using assms(1) by (simp add: s scan_ok_def)
  show ?thesis
    using assms(2)
    by (cases "entry_event e")
      (auto simp: s scan_entry_def scan_event_defs Let_def request_count_def terminal_count_def
        length_bt_insert_fresh split: if_splits
        dest!: resolved_call_Inr(1) dest: length_bt_remove [OF p])
qed

lemma count_append [simp]:
  "request_count (xs @ ys) = request_count xs + request_count ys"
  "terminal_count (xs @ ys) = terminal_count xs + terminal_count ys"
  by (simp_all add: request_count_def terminal_count_def)

lemma scan_count:
  "fold_res scan_entry es ([], []) = Inr s \<Longrightarrow> request_count es = length (fst s) + terminal_count es"
proof (induction es arbitrary: s rule: rev_induct)
  case Nil
  then show ?case by (auto simp: request_count_def terminal_count_def)
next
  case (snoc e es)
  then obtain t where t: "fold_res scan_entry es ([], []) = Inr t" "scan_entry e t = Inr s"
    by (auto simp: fold_res_append)
  then show ?case
    using snoc.IH [OF t(1)] scan_entry_count [OF scan_all_ok [OF t(1)] t(2)] by simp
qed


section \<open>A committed result was requested and started\<close>

definition starts_call :: "trace_entry \<Rightarrow> pending_tool \<Rightarrow> bool" where
  "starts_call s c \<longleftrightarrow>
     (\<exists>t r. entry_event s = ToolStartedEv t \<and> entry_event (pt_request c) = ToolRequestedEv r
        \<and> agrees_with_request s (tst_call_id t) (tst_name t) (pt_request c) r)"

definition history_ok :: "trace_entry list \<Rightarrow> scan_state \<Rightarrow> bool" where
  "history_ok past s \<longleftrightarrow>
     (\<forall>k c. map_of (fst s) k = Some c \<longrightarrow>
        pt_request c \<in> set past \<and> (pt_started c \<longrightarrow> (\<exists>e \<in> set past. starts_call e c)))"

lemma starts_call_cong [simp]:
  "starts_call e (c\<lparr>pt_started := b, pt_started_event_id := i\<rparr>) = starts_call e c"
  by (simp add: starts_call_def)

lemma history_ok_more: "history_ok past s \<Longrightarrow> history_ok (past @ [e]) s"
  by (auto simp: history_ok_def)

lemma history_ok_step:
  assumes "scan_ok s" "history_ok past s" "scan_entry e s = Inr s'"
  shows "history_ok (past @ [e]) s'"
proof -
  obtain p ord where s: "s = (p, ord)" by (cases s)
  have p: "bt_ok p"
    using assms(1) by (simp add: s scan_ok_def)
  have remove: "history_ok (past @ [e]) (bt_remove k p, ord)" for k
    using assms(2) by (auto simp: s history_ok_def map_of_bt_remove)
  show ?thesis
  proof (cases "entry_event e")
    case (ToolRequestedEv r)
    then show ?thesis
      using assms(2,3) p
      by (auto simp: s scan_entry_def scan_requested_def Let_def history_ok_def map_of_bt_insert
          split: if_splits) blast
  next
    case (ToolStartedEv t)
    then obtain k c r where res: "resolved_call p e (tst_call_id t) = Inr (k, c, r)"
      and agree: "agrees_with_request e (tst_call_id t) (tst_name t) (pt_request c) r"
      and s': "s' = (bt_update k (\<lambda>c. c\<lparr>pt_started := True, pt_started_event_id := Some (entry_id e)\<rparr>) p, ord)"
      using assms(3) by (auto simp: s scan_entry_def scan_started_def Let_def split: if_splits)
    have "starts_call e c"
      using ToolStartedEv agree resolved_call_Inr(2) [OF res] by (auto simp: starts_call_def)
    then show ?thesis
      using assms(2) resolved_call_Inr(1) [OF res]
      by (auto simp: s s' history_ok_def map_of_bt_update)
  qed (use assms(2,3) remove history_ok_more in
      \<open>auto simp: s scan_entry_def scan_event_defs Let_def split: if_splits\<close>)
qed

lemma scan_history: "fold_res scan_entry es ([], []) = Inr s \<Longrightarrow> history_ok es s"
proof (induction es arbitrary: s rule: rev_induct)
  case Nil
  then show ?case by (auto simp: history_ok_def)
next
  case (snoc e es)
  then obtain t where t: "fold_res scan_entry es ([], []) = Inr t" "scan_entry e t = Inr s"
    by (auto simp: fold_res_append)
  then show ?case
    using history_ok_step [OF scan_all_ok [OF t(1)] snoc.IH [OF t(1)] t(2)] by simp
qed

text \<open>C31:
  no result without its causes: where the scan accepts a \<open>ToolCompleted\<close>, the trace before it
  holds a \<open>ToolRequested\<close> and a \<open>ToolStarted\<close> of the same call id, name and turn, and the state
  it commits is \<open>Succeeded\<close>.\<close>

theorem completed_call_was_requested_and_started:
  assumes "scan_tool_lifecycles (past @ e # rest) = Inr calls"
    and "entry_event e = ToolCompletedEv d"
  shows "\<exists>q r s t. q \<in> set past \<and> entry_event q = ToolRequestedEv r
     \<and> s \<in> set past \<and> entry_event s = ToolStartedEv t
     \<and> trq_call_id r = tcm_call_id d \<and> tst_call_id t = tcm_call_id d
     \<and> trq_name r = tcm_name d \<and> tst_name t = tcm_name d
     \<and> entry_turn q = entry_turn e \<and> entry_turn s = entry_turn e
     \<and> tcm_state d = Succeeded"
proof -
  obtain u where u: "fold_res scan_entry (past @ e # rest) ([], []) = Inr u"
    using assms(1) by (auto simp: scan_tool_lifecycles_def)
  obtain p ord v where p: "fold_res scan_entry past ([], []) = Inr (p, ord)"
    and v: "scan_entry e (p, ord) = Inr v"
    using fold_res_split [OF u] by (metis surj_pair)
  obtain k c r where res: "resolved_call p e (tcm_call_id d) = Inr (k, c, r)"
    and st: "pt_started c" "tcm_state d = Succeeded"
    and agree: "agrees_with_request e (tcm_call_id d) (tcm_name d) (pt_request c) r"
    using v assms(2) by (auto simp: scan_entry_def scan_completed_def Let_def split: if_splits)
  note found = resolved_call_Inr [OF res]
  obtain s where s: "s \<in> set past" "starts_call s c" and q: "pt_request c \<in> set past"
    using scan_history [OF p] found(1) st(1) by (auto simp: history_ok_def)
  then obtain t where t: "entry_event s = ToolStartedEv t"
    "agrees_with_request s (tst_call_id t) (tst_name t) (pt_request c) r"
    using found(2) by (auto simp: starts_call_def)
  show ?thesis
    using q found(2) s(1) t agree st(2) by (auto simp: agrees_with_request_def)
qed

section \<open>Recovery heals the trace\<close>

definition pending_id :: "pending_tool \<Rightarrow> event_id" where
  "pending_id c = entry_id (pt_request c)"

lemma scan_ok_pending_id:
  "scan_ok (p, ord) \<Longrightarrow> map_of p k = Some c \<Longrightarrow> pending_id c = k"
  by (auto simp: scan_ok_def call_ok_def pending_id_def)

text \<open>One recovered event closes its request.\<close>

lemma scan_closing_failure:
  assumes "scan_ok (p, ord)" "map_of p (pending_id c) = Some c"
    and "closing_failure session m (pt_request c) = Inr (env, msg)"
  shows "scan_entry (plain_entry env) (p, ord) = Inr (bt_remove (pending_id c) p, ord)"
proof -
  have "call_ok (pending_id c) c"
    using assms(1,2) by (simp add: scan_ok_def)
  then obtain r where r: "entry_event (pt_request c) = ToolRequestedEv r"
    by (auto simp: call_ok_def)
  obtain i sp now where m: "m = (i, sp, now)" by (cases m)
  have parent: "em_parent_event_id (ee_meta env) = Some (pending_id c)"
    and ev: "\<exists>f. ee_event env = ToolFailedEv f \<and> tfl_call_id f = trq_call_id r
               \<and> tfl_name f = trq_name r"
    and ctx: "em_turn_id (ee_meta env) = entry_turn (pt_request c)"
      "em_model_epoch (ee_meta env) = em_model_epoch (entry_meta (pt_request c))"
      "em_model (ee_meta env) = em_model (entry_meta (pt_request c))"
      "em_tool_call_id (ee_meta env) = Some (trq_call_id r)"
    using assms(3) by (auto simp: closing_failure_def r m Let_def new_envelope_def pending_id_def)
  obtain f where f: "ee_event env = ToolFailedEv f" "tfl_call_id f = trq_call_id r"
    "tfl_name f = trq_name r"
    using ev by blast
  have "resolved_call p (plain_entry env) (tfl_call_id f) = Inr (pending_id c, c, r)"
    by (simp add: resolved_call_def resolve_pending_tool_def plain_entry_def parent assms(2) r)
  then show ?thesis
    by (simp add: scan_entry_def scan_failed_def f plain_entry_def agrees_with_request_def
        call_metadata_matches_def ctx)
qed

lemma scan_closing_failures:
  assumes "scan_ok (p, ord)" "distinct (map pending_id cs)"
    and "\<And>c. c \<in> set cs \<Longrightarrow> map_of p (pending_id c) = Some c"
    and "close_all session ms (map pt_request cs) = Inr made"
  shows "fold_res scan_entry (map (\<lambda>x. plain_entry (fst x)) made) (p, ord)
           = Inr (fold (\<lambda>c. bt_remove (pending_id c)) cs p, ord)"
  using assms
proof (induction cs arbitrary: p ms made)
  case (Cons c cs)
  obtain env msg rest where first: "closing_failure session (hd ms) (pt_request c) = Inr (env, msg)"
    and rest: "close_all session (tl ms) (map pt_request cs) = Inr rest"
    and made: "made = (env, msg) # rest"
    using Cons.prems(4) by auto
  have step: "scan_entry (plain_entry env) (p, ord) = Inr (bt_remove (pending_id c) p, ord)"
    using Cons.prems(1,3) first by (intro scan_closing_failure) auto
  have "fold_res scan_entry (map (\<lambda>x. plain_entry (fst x)) rest) (bt_remove (pending_id c) p, ord)
      = Inr (fold (\<lambda>c. bt_remove (pending_id c)) cs (bt_remove (pending_id c) p), ord)"
  proof (rule Cons.IH [OF scan_ok_remove [OF Cons.prems(1)] _ _ rest])
    show "distinct (map pending_id cs)"
      using Cons.prems(2) by simp
    show "map_of (bt_remove (pending_id c) p) (pending_id d) = Some d" if "d \<in> set cs" for d
    proof -
      have "pending_id d \<noteq> pending_id c"
        using Cons.prems(2) that by (metis distinct.simps(2) image_eqI list.set_map list.simps(9))
      then show ?thesis
        using Cons.prems(3) [of d] that by (simp add: map_of_bt_remove)
    qed
  qed
  then show ?case
    by (simp add: made step)
qed simp

lemma map_of_remove_all:
  "map_of (fold (\<lambda>c. bt_remove (pending_id c)) cs p) k
     = (if k \<in> pending_id ` set cs then None else map_of p k)"
  by (induction cs arbitrary: p) (auto simp: map_of_bt_remove)

lemma all_interrupted_started:
  "(\<And>c. c \<in> set cs \<Longrightarrow> pt_started c \<and> call_ok (pending_id c) c) \<Longrightarrow> \<exists>is. all_interrupted cs = Inr is"
proof (induction cs)
  case (Cons c cs)
  then have "\<exists>i. interrupted_of c = Inr i"
    by (auto simp: interrupted_of_def call_ok_def split: option.splits)
  with Cons show ?case by fastforce
qed simp

lemma in_request_order_distinct:
  "scan_ok (p, ord) \<Longrightarrow> distinct (map pending_id (in_request_order is p))"
proof (induction "is" p rule: in_request_order.induct)
  case (2 i "is" p)
  show ?case
  proof (cases "map_of p i")
    case (Some c)
    have id: "pending_id c = i"
      using "2.prems" Some by (rule scan_ok_pending_id)
    have "pending_id d \<noteq> i" if d: "d \<in> set (in_request_order is (bt_remove i p))" for d
    proof -
      obtain k where "map_of (bt_remove i p) k = Some d"
        using in_request_order_subset [OF d] by blast
      then have "map_of p k = Some d" "k \<noteq> i"
        by (auto simp: map_of_bt_remove split: if_splits)
      then show ?thesis
        using scan_ok_pending_id [OF "2.prems"] by blast
    qed
    then have "i \<notin> pending_id ` set (in_request_order is (bt_remove i p))"
      by blast
    then show ?thesis
      using "2.IH"(2) [OF Some scan_ok_remove [OF "2.prems"]] Some id by simp
  qed (use 2 in simp)
qed simp

text \<open>Recovery is sound and complete for requests that never started: when the events it produces
  are appended, the new trace is accepted, holds no unstarted request any more, and the calls
  that had started are still reported as interrupted.\<close>

theorem recovery_closes_unstarted_requests:
  assumes "scan_tool_lifecycles es = Inr calls"
    and "recover_unstarted_tool_requests session ms es = Inr made"
  shows "\<exists>is. interrupted_tool_calls (es @ map (\<lambda>x. plain_entry (fst x)) made) = Inr is
     \<and> length is = length (filter pt_started calls)
     \<and> unstarted_tool_requests (es @ map (\<lambda>x. plain_entry (fst x)) made) = Inr []"
proof -
  obtain p ord where f: "fold_res scan_entry es ([], []) = Inr (p, ord)" and ok: "scan_ok (p, ord)"
    and calls: "calls = in_request_order ord p"
    and mem: "\<And>c. c \<in> set calls \<longleftrightarrow> (\<exists>k. map_of p k = Some c)"
    using scan_result [OF assms(1)] by metis
  have at_id: "map_of p (pending_id c) = Some c" if "c \<in> set calls" for c
    using that mem scan_ok_pending_id [OF ok] by metis
  let ?open = "filter (\<lambda>c. \<not> pt_started c) calls"
  define q where "q = fold (\<lambda>c. bt_remove (pending_id c)) ?open p"
  let ?trace = "es @ map (\<lambda>x. plain_entry (fst x)) made"
  have dist: "distinct (map pending_id calls)"
    unfolding calls using ok by (rule in_request_order_distinct)
  have made: "close_all session ms (map pt_request ?open) = Inr made"
    using assms by (simp add: recover_unstarted_tool_requests_def unstarted_tool_requests_def)
  have final: "fold_res scan_entry ?trace ([], []) = Inr (q, ord)"
    using scan_closing_failures [OF ok _ _ made] dist at_id
    by (simp add: fold_res_append f q_def distinct_map_filter)
  obtain calls' where calls': "scan_tool_lifecycles ?trace = Inr calls'"
    using final by (simp add: scan_tool_lifecycles_def)
  have left: "c \<in> set calls' \<longleftrightarrow> c \<in> set calls \<and> pt_started c" for c
  proof -
    have "c \<in> set calls' \<longleftrightarrow> (\<exists>k. map_of q k = Some c)"
      using scan_result [OF calls'] final by (metis Inr_inject prod.inject)
    also have "\<dots> \<longleftrightarrow> (\<exists>k. k \<notin> pending_id ` set ?open \<and> map_of p k = Some c)"
      by (auto simp: q_def map_of_remove_all)
    also have "\<dots> \<longleftrightarrow> c \<in> set calls \<and> pt_started c"
      using at_id mem scan_ok_pending_id [OF ok] by (auto simp: image_iff) (metis option.inject)+
    finally show ?thesis .
  qed
  have dist': "distinct calls'"
    using in_request_order_distinct [OF scan_all_ok [OF final]] final calls'
    by (auto simp: scan_tool_lifecycles_def distinct_map)
  have len: "length calls' = length (filter pt_started calls)"
  proof -
    have "set calls' = set (filter pt_started calls)"
      using left by auto
    moreover have "distinct (filter pt_started calls)"
      using dist by (simp add: distinct_map)
    ultimately show ?thesis
      using dist' by (metis distinct_card)
  qed
  obtain js where js: "all_interrupted calls' = Inr js"
    using all_interrupted_started [of calls'] left scan_result_call_ok [OF calls']
    by (auto simp: pending_id_def)
  moreover have "length js = length calls'"
    using js by (induction calls' arbitrary: js) auto
  ultimately show ?thesis
    using calls' len left
    by (simp add: interrupted_tool_calls_def unstarted_tool_requests_def filter_empty_conv)
qed

section \<open>A sample trace\<close>

definition sample_entry :: "event_id \<Rightarrow> event_id option \<Rightarrow> agent_event \<Rightarrow> trace_entry" where
  "sample_entry i parent e =
     plain_entry (new_envelope
       ((new_meta i ''span'' 0 ''session'' ''trace'')
          \<lparr>em_turn_id := Some ''turn'', em_parent_event_id := parent\<rparr>) e)"

definition sample_request :: "event_id \<Rightarrow> tool_call_id \<Rightarrow> trace_entry" where
  "sample_request i c =
     sample_entry i None (ToolRequestedEv
       \<lparr> trq_call_id = c, trq_name = ''read'', trq_arguments = JNull, trq_read_only = True \<rparr>)"

definition sample_start :: trace_entry where
  "sample_start =
     sample_entry ''s1'' (Some ''r1'') (ToolStartedEv \<lparr> tst_call_id = ''c1'', tst_name = ''read'' \<rparr>)"

definition sample_result :: tool_completed where
  "sample_result =
     \<lparr> tcm_call_id = ''c1'', tcm_name = ''read'', tcm_state = Succeeded, tcm_duration_ms = 1,
       tcm_status = None, tcm_reduced = False, tcm_blob = None, tcm_visible_bytes = 0 \<rparr>"

definition sample_done :: trace_entry where
  "sample_done = sample_entry ''d1'' (Some ''s1'') (ToolCompletedEv sample_result)"

definition sample_trace :: "trace_entry list" where
  "sample_trace = [sample_request ''r1'' ''c1'', sample_start, sample_done, sample_request ''r2'' ''c2'']"

definition sample_open :: pending_tool where
  "sample_open =
     \<lparr> pt_request = sample_request ''r2'' ''c2'', pt_started = False, pt_started_event_id = None \<rparr>"

lemma sample_scan: "scan_tool_lifecycles sample_trace = Inr [sample_open]"
  by code_simp

lemma sample_recovery:
  "\<exists>made. recover_unstarted_tool_requests ''session'' [(''x1'', ''span'', 5)] sample_trace = Inr made"
  by (simp add: recover_unstarted_tool_requests_def unstarted_tool_requests_def sample_scan
      sample_open_def sample_request_def sample_entry_def plain_entry_def new_envelope_def
      closing_failure_def Let_def)


theorem completed_call_was_requested_and_started_witness:
  "\<exists>q r. q \<in> set [sample_request ''r1'' ''c1'', sample_start]
     \<and> entry_event q = ToolRequestedEv r \<and> trq_call_id r = ''c1''"
  using completed_call_was_requested_and_started
    [of "[sample_request ''r1'' ''c1'', sample_start]" sample_done "[sample_request ''r2'' ''c2'']"
      "[sample_open]" sample_result] sample_scan
  by (auto simp: sample_trace_def sample_done_def sample_entry_def plain_entry_def
      new_envelope_def sample_result_def)

theorem recovery_closes_unstarted_requests_witness:
  "\<exists>made is. recover_unstarted_tool_requests ''session'' [(''x1'', ''span'', 5)] sample_trace = Inr made
     \<and> interrupted_tool_calls (sample_trace @ map (\<lambda>x. plain_entry (fst x)) made) = Inr is
     \<and> length is = 0
     \<and> unstarted_tool_requests (sample_trace @ map (\<lambda>x. plain_entry (fst x)) made) = Inr []"
  using sample_recovery recovery_closes_unstarted_requests [OF sample_scan]
  by (fastforce simp: sample_open_def)

end
