(* ===== verification/Request_Trace.thy ===== *)
theory Request_Trace
  imports Tool_Trace
begin

text \<open>
  The durable lifecycle of model requests in \<open>crates/rupi-store/src/store.rs\<close>: the inspection of
  the trace (\<open>inspect_model_request_lifecycles\<close>), its validation, and the closing events
  \<open>recover_abandoned_model_requests\<close> appends for requests a crash left open.
\<close>

section \<open>Inspection\<close>

datatype request_trace_error =
  StartWithoutTurn
| StartMetadataDisagrees
| OverlappingRequests
| CompletionWithoutTurn
| CompletionMetadataDisagrees
| CompletionWithoutStart
| IncompleteRequest
| RequestPanic

type_synonym request_key = "turn_id option \<times> u32 \<times> model_ref"

record open_model_request =
  omr_key :: request_key
  omr_start :: trace_entry

definition metadata_disagrees :: "event_meta \<Rightarrow> u32 \<Rightarrow> model_ref \<Rightarrow> bool" where
  "metadata_disagrees m epoch model \<longleftrightarrow>
     (case em_model_epoch m of None \<Rightarrow> False | Some e \<Rightarrow> e \<noteq> epoch)
     \<or> (case em_model m of None \<Rightarrow> False | Some r \<Rightarrow> r \<noteq> model)"

text \<open>\<open>open.iter().rposition(...)\<close> followed by \<open>open.remove(index)\<close>.\<close>

definition remove_last :: "('a \<Rightarrow> bool) \<Rightarrow> 'a list \<Rightarrow> 'a list option" where
  "remove_last P xs =
     (case List.extract P (rev xs) of None \<Rightarrow> None | Some (ys, _, zs) \<Rightarrow> Some (rev zs @ rev ys))"

definition inspect_entry ::
  "trace_entry \<Rightarrow> open_model_request list \<Rightarrow> request_trace_error + open_model_request list" where
  "inspect_entry entry opn =
     (case entry_event entry of
        ModelRequestStartedEv started \<Rightarrow>
         (if entry_turn entry = None then Inl StartWithoutTurn
          else if metadata_disagrees (entry_meta entry) (mrs_epoch started) (mrs_model started)
          then Inl StartMetadataDisagrees
          else let key = (entry_turn entry, mrs_epoch started, mrs_model started)
               in if list_ex (\<lambda>c. omr_key c = key) opn then Inl OverlappingRequests
                  else Inr (opn @ [\<lparr> omr_key = key, omr_start = entry \<rparr>]))
      | ModelRequestCompletedEv completed \<Rightarrow>
         (if entry_turn entry = None then Inl CompletionWithoutTurn
          else if metadata_disagrees (entry_meta entry) (mrc_epoch completed) (mrc_model completed)
          then Inl CompletionMetadataDisagrees
          else let key = (entry_turn entry, mrc_epoch completed, mrc_model completed)
               in ok_or (remove_last (\<lambda>c. omr_key c = key) opn) CompletionWithoutStart)
      | _ \<Rightarrow> Inr opn)"

definition inspect_model_requests :: "trace_entry list \<Rightarrow> request_trace_error + trace_entry list" where
  "inspect_model_requests entries =
     bind_res (fold_res inspect_entry entries []) (\<lambda>opn. Inr (map omr_start opn))"

definition validate_model_requests :: "trace_entry list \<Rightarrow> request_trace_error + unit" where
  "validate_model_requests entries =
     bind_res (inspect_model_requests entries)
       (\<lambda>starts. if starts = [] then Inr () else Inl IncompleteRequest)"

section \<open>Closing abandoned requests\<close>

fun started_request :: "agent_event \<Rightarrow> model_request_started option" where
  "started_request (ModelRequestStartedEv s) = Some s"
| "started_request _ = None"

definition abandoned_completion :: "model_request_started \<Rightarrow> model_request_completed" where
  "abandoned_completion started =
     \<lparr> mrc_epoch = mrs_epoch started, mrc_model = mrs_model started,
       mrc_finish_reason = Some ''abandoned'', mrc_input_tokens = None,
       mrc_uncached_input_tokens = None, mrc_logical_prompt_tokens = None,
       mrc_cache_read_tokens = None, mrc_cache_write_tokens = None, mrc_output_tokens = None,
       mrc_provider_total_tokens = None, mrc_duration_ms = 0, mrc_tool_calls = 0,
       mrc_reasoning_provenance = None, mrc_first_delta_ms = None \<rparr>"

text \<open>The completion and the diagnostic emitted for one open start.\<close>

definition abandon_request ::
  "session_id \<Rightarrow> minted \<Rightarrow> minted \<Rightarrow> trace_entry \<Rightarrow> request_trace_error + event_envelope list" where
  "abandon_request session m1 m2 start =
     (case started_request (entry_event start) of
        None \<Rightarrow> Inl RequestPanic
      | Some started \<Rightarrow>
         (let (i1, sp1, now1) = m1; (i2, sp2, now2) = m2;
              completion_meta = (new_meta i1 sp1 now1 session (em_trace_id (entry_meta start)))
                \<lparr>em_turn_id := entry_turn start, em_model_epoch := Some (mrs_epoch started),
                 em_model := Some (mrs_model started), em_parent_event_id := Some (entry_id start)\<rparr>;
              completion = new_envelope completion_meta
                (ModelRequestCompletedEv (abandoned_completion started));
              diagnostic_meta = (new_meta i2 sp2 now2 session (em_trace_id (entry_meta start)))
                \<lparr>em_turn_id := entry_turn start, em_model_epoch := Some (mrs_epoch started),
                 em_model := Some (mrs_model started), em_parent_event_id := Some i1\<rparr>;
              diagnostic = new_envelope diagnostic_meta
                (DiagnosticEv \<lparr> dg_level = WarnLevel, dg_message =
                   ''model request '' @ entry_id start
                   @ '' was interrupted before completion; partial output remains canonical and was not restored into model context'' \<rparr>)
          in Inr [completion, diagnostic]))"

fun abandon_all ::
  "session_id \<Rightarrow> (minted \<times> minted) list \<Rightarrow> trace_entry list \<Rightarrow> request_trace_error + event_envelope list" where
  "abandon_all session ms [] = Inr []"
| "abandon_all session ms (start # starts) =
     bind_res (abandon_request session (fst (hd ms)) (snd (hd ms)) start)
       (\<lambda>es. bind_res (abandon_all session (tl ms) starts) (\<lambda>rest. Inr (es @ rest)))"

definition recover_abandoned_model_requests ::
  "session_id \<Rightarrow> (minted \<times> minted) list \<Rightarrow> trace_entry list \<Rightarrow> request_trace_error + event_envelope list" where
  "recover_abandoned_model_requests session ms entries =
     bind_res (inspect_model_requests entries) (abandon_all session ms)"

section \<open>The open requests have distinct keys\<close>

definition open_ok :: "open_model_request list \<Rightarrow> bool" where
  "open_ok opn \<longleftrightarrow>
     distinct (map omr_key opn)
     \<and> (\<forall>c \<in> set opn. \<exists>s. entry_event (omr_start c) = ModelRequestStartedEv s
          \<and> entry_turn (omr_start c) \<noteq> None
          \<and> omr_key c = (entry_turn (omr_start c), mrs_epoch s, mrs_model s))"

lemma open_ok_Nil [simp]: "open_ok []"
  by (simp add: open_ok_def)

lemma remove_last_Some:
  assumes "remove_last P xs = Some ys"
  shows "\<exists>as x bs. xs = as @ x # bs \<and> P x \<and> ys = as @ bs"
proof -
  obtain us x vs where "List.extract P (rev xs) = Some (us, x, vs)" and ys: "ys = rev vs @ rev us"
    using assms by (auto simp: remove_last_def split: option.splits)
  then have "rev xs = us @ x # vs" "P x"
    by (simp_all add: List.extract_Some_iff)
  then have "xs = rev vs @ x # rev us"
    by (metis append.assoc append_Cons append_Nil rev.simps(2) rev_append rev_rev_ident)
  then show ?thesis
    using \<open>P x\<close> ys by blast
qed

lemma remove_last_first:
  assumes "P x" "\<forall>y \<in> set xs. \<not> P y"
  shows "remove_last P (x # xs) = Some xs"
proof -
  have "List.extract P (rev xs @ [x]) = Some (rev xs, x, [])"
    using assms by (simp add: List.extract_Some_iff)
  then show ?thesis
    by (simp add: remove_last_def)
qed

lemma inspect_entry_ok:
  assumes "open_ok opn" "inspect_entry e opn = Inr opn'"
  shows "open_ok opn'"
proof (cases "entry_event e")
  case (ModelRequestStartedEv s)
  then show ?thesis
    using assms
    by (fastforce simp: inspect_entry_def open_ok_def Let_def list_ex_iff image_iff split: if_splits)
next
  case (ModelRequestCompletedEv c)
  then obtain as x bs where "opn = as @ x # bs" "opn' = as @ bs"
    using assms(2) by (auto simp: inspect_entry_def Let_def split: if_splits dest!: remove_last_Some)
  then show ?thesis
    using assms(1) by (auto simp: open_ok_def)
qed (use assms in \<open>auto simp: inspect_entry_def\<close>)

lemma inspect_all_ok: "fold_res inspect_entry es [] = Inr opn \<Longrightarrow> open_ok opn"
  by (rule fold_res_invariant [where I = open_ok]) (auto intro: inspect_entry_ok)

lemma inspect_result:
  assumes "inspect_model_requests es = Inr starts"
  obtains opn where "fold_res inspect_entry es [] = Inr opn" "open_ok opn" "starts = map omr_start opn"
  using assms inspect_all_ok by (auto simp: inspect_model_requests_def)

section \<open>Recovery closes every open request\<close>

lemma abandon_closes_first:
  assumes "open_ok (c # opn)" "abandon_request session m1 m2 (omr_start c) = Inr es"
  shows "fold_res inspect_entry (map plain_entry es) (c # opn) = Inr opn"
proof -
  obtain s where s: "entry_event (omr_start c) = ModelRequestStartedEv s"
    "entry_turn (omr_start c) \<noteq> None" "omr_key c = (entry_turn (omr_start c), mrs_epoch s, mrs_model s)"
    using assms(1) by (auto simp: open_ok_def)
  obtain i1 sp1 n1 i2 sp2 n2 where m: "m1 = (i1, sp1, n1)" "m2 = (i2, sp2, n2)"
    by (cases m1, cases m2)
  have "omr_key c \<notin> omr_key ` set opn"
    using assms(1) by (simp add: open_ok_def)
  then have "\<forall>d \<in> set opn. omr_key d \<noteq> omr_key c"
    by (metis imageI)
  then have "remove_last (\<lambda>d. omr_key d = omr_key c) (c # opn) = Some opn"
    by (intro remove_last_first) auto
  then show ?thesis
    using assms(2) s
    by (auto simp: abandon_request_def m Let_def inspect_entry_def plain_entry_def new_envelope_def
        metadata_disagrees_def abandoned_completion_def)
qed

lemma abandon_all_closes:
  "open_ok opn \<Longrightarrow> abandon_all session ms (map omr_start opn) = Inr es \<Longrightarrow>
     fold_res inspect_entry (map plain_entry es) opn = Inr []"
proof (induction opn arbitrary: ms es)
  case (Cons c opn)
  obtain e1 e2 where e: "abandon_request session (fst (hd ms)) (snd (hd ms)) (omr_start c) = Inr e1"
    "abandon_all session (tl ms) (map omr_start opn) = Inr e2" "es = e1 @ e2"
    using Cons.prems(2) by auto
  have "open_ok opn"
    using Cons.prems(1) by (simp add: open_ok_def)
  then show ?case
    using Cons.IH [OF _ e(2)] abandon_closes_first [OF Cons.prems(1) e(1)]
    by (simp add: e(3) fold_res_append)
qed simp

lemma abandon_all_total:
  "open_ok opn \<Longrightarrow> \<exists>es. abandon_all session ms (map omr_start opn) = Inr es"
proof (induction opn arbitrary: ms)
  case (Cons c opn)
  have "open_ok opn" and "\<exists>s. entry_event (omr_start c) = ModelRequestStartedEv s"
    using Cons.prems by (auto simp: open_ok_def)
  then have "\<exists>es. abandon_request session (fst (hd ms)) (snd (hd ms)) (omr_start c) = Inr es"
    by (auto simp: abandon_request_def Let_def split: prod.splits)
  then show ?case
    using Cons.IH [OF \<open>open_ok opn\<close>, of "tl ms"] by fastforce
qed simp

text \<open>A trace whose model-request lifecycles are consistent is always repairable: recovery produces
  its closing events without a panic, and the trace with these events appended passes the
  validation a resume demands. No request is sent again.\<close>

theorem abandoned_requests_are_closed:
  assumes "inspect_model_requests es = Inr starts"
  shows "\<exists>added. recover_abandoned_model_requests session ms es = Inr added
     \<and> validate_model_requests (es @ map plain_entry added) = Inr ()"
proof -
  obtain opn where opn: "fold_res inspect_entry es [] = Inr opn" "open_ok opn" "starts = map omr_start opn"
    using inspect_result [OF assms] .
  obtain added where added: "abandon_all session ms (map omr_start opn) = Inr added"
    using abandon_all_total [OF opn(2)] by blast
  then show ?thesis
    using abandon_all_closes [OF opn(2) added] assms opn
    by (simp add: recover_abandoned_model_requests_def validate_model_requests_def
        inspect_model_requests_def fold_res_append)
qed

definition sample_model :: model_ref where
  "sample_model = \<lparr> mr_provider = ''p'', mr_model = ''m'' \<rparr>"

definition sample_model_start :: trace_entry where
  "sample_model_start =
     sample_entry ''m1'' None (ModelRequestStartedEv
       \<lparr> mrs_epoch = 0, mrs_model = sample_model, mrs_message_count = 1,
         mrs_context_tokens_est = 10, mrs_tools_exposed = 0 \<rparr>)"

lemma sample_inspect: "inspect_model_requests [sample_model_start] = Inr [sample_model_start]"
  by code_simp

theorem abandoned_requests_are_closed_witness:
  "\<exists>added. recover_abandoned_model_requests ''session'' [] [sample_model_start] = Inr added
     \<and> validate_model_requests ([sample_model_start] @ map plain_entry added) = Inr ()"
  using abandoned_requests_are_closed [OF sample_inspect] by blast

end
