(* ===== verification/Compaction_Trace.thy ===== *)
theory Compaction_Trace
  imports Tool_Trace
begin

text \<open>
  The durable compaction and checkpoint lifecycles of \<open>crates/rupi-store/src/store.rs\<close>: the
  validators of a resume, the search for lifecycles a crash left open, the staged events an abort
  hides, and the events recovery appends to settle an open compaction or checkpoint.
\<close>

section \<open>Errors\<close>

datatype compaction_error =
  CheckpointStartWithoutBarrier
| AmbiguousCompaction
| CompletionWithoutCompaction
| CompletionMismatch
| InvalidCompletion
| CompletionWithoutSequence
| IncompleteSummaryBoundaries u32
| InvalidCanonicalBounds u32
| SummaryWithoutSequence
| EpochWithoutSequence u32
| CompactionOutOfOrder u32
| IncompleteCompaction
| MultipleStagedSummaries
| InvalidStagedEpoch
| AbortWithoutStart
| AbortOfUnabortable
| AbortAfterCompletion
| CompactionPanic

datatype checkpoint_error =
  RepeatedCheckpoint checkpoint_id
| OverlappingCheckpoints
| ReusedCheckpointEpoch u32
| CheckpointCompletionWithoutStart
| CheckpointCompletionMismatch
| CheckpointCountMismatch u32
| CheckpointWithoutCompletion
| RemovedExceedsPrefix
| CheckpointCountExhausted

section \<open>Abort markers\<close>

definition compaction_abort_message :: "event_id \<Rightarrow> string" where
  "compaction_abort_message start =
     ''recovered aborted context compaction '' @ start @ ''; staged summary was not published''"

definition is_compaction_abort :: "trace_entry \<Rightarrow> event_id \<Rightarrow> bool" where
  "is_compaction_abort entry start \<longleftrightarrow>
     em_parent_event_id (entry_meta entry) = Some start
     \<and> (case entry_event entry of
           DiagnosticEv d \<Rightarrow> dg_message d = compaction_abort_message start | _ \<Rightarrow> False)"

text \<open>\<open>entries.iter().skip(start + 1).take(index.saturating_sub(start + 1))\<close>.\<close>

definition between :: "nat \<Rightarrow> nat \<Rightarrow> trace_entry list \<Rightarrow> trace_entry list" where
  "between start index entries = take (index - (start + 1)) (drop (start + 1) entries)"

definition staged_summaries :: "turn_id option \<Rightarrow> trace_entry list \<Rightarrow> trace_entry list" where
  "staged_summaries turn es = filter (\<lambda>c. entry_turn c = turn \<and> entry_event c = ContextSummaryEv) es"

fun epoch_of :: "agent_event \<Rightarrow> compaction_epoch option" where
  "epoch_of (CompactionEpochEv r) = Some r"
| "epoch_of _ = None"

definition epochs_numbered :: "turn_id option \<Rightarrow> u32 \<Rightarrow> trace_entry list \<Rightarrow> compaction_epoch list" where
  "epochs_numbered turn n es =
     List.map_filter
       (\<lambda>c. case epoch_of (entry_event c) of
              None \<Rightarrow> None
            | Some r \<Rightarrow> if entry_turn c = turn \<and> cce_context_epoch r = n then Some r else None) es"

definition epoch_sequence :: "u32 \<Rightarrow> trace_entry list \<Rightarrow> event_seq option" where
  "epoch_sequence n es =
     find_map
       (\<lambda>c. case epoch_of (entry_event c) of
              None \<Rightarrow> None
            | Some r \<Rightarrow> if cce_context_epoch r = n then entry_seq c else None) es"

section \<open>Validation of compactions\<close>

record open_compaction =
  oc_index :: nat
  oc_level :: context_level
  oc_turn_id :: "turn_id option"

definition check_completion ::
  "trace_entry list \<Rightarrow> nat \<Rightarrow> trace_entry \<Rightarrow> open_compaction \<Rightarrow> compaction_completed \<Rightarrow> compaction_error + unit" where
  "check_completion entries index entry start done =
     (let staged = between (oc_index start) index entries;
          summary = staged_summaries (oc_turn_id start) staged;
          n = ccc_context_epoch done;
          epochs = epochs_numbered (oc_turn_id start) n staged
      in if oc_level start \<noteq> ccc_level done \<or> oc_turn_id start \<noteq> entry_turn entry
         then Inl CompletionMismatch
         else if n = 0 \<or> ccc_removed_messages done = 0 then Inl InvalidCompletion
         else bind_res (ok_or (entry_seq entry) CompletionWithoutSequence) (\<lambda>completion_seq.
           if length summary \<noteq> 1 \<or> length epochs \<noteq> 1 then Inl (IncompleteSummaryBoundaries n)
           else if cce_replaces_from (hd epochs) = 0
                   \<or> cce_replaces_from (hd epochs) > cce_replaces_through (hd epochs)
           then Inl (InvalidCanonicalBounds n)
           else bind_res (ok_or (entry_seq (hd summary)) SummaryWithoutSequence) (\<lambda>summary_seq.
             bind_res (ok_or (epoch_sequence n staged) (EpochWithoutSequence n)) (\<lambda>epoch_seq.
               if summary_seq < epoch_seq \<and> epoch_seq < completion_seq then Inr ()
               else Inl (CompactionOutOfOrder n)))))"

definition compaction_step ::
  "trace_entry list \<Rightarrow> nat \<times> trace_entry \<Rightarrow> open_compaction option \<Rightarrow> compaction_error + open_compaction option" where
  "compaction_step entries = (\<lambda>(index, entry) opn.
     (case entry_event entry of
        CompactionStartedEv started \<Rightarrow>
         (if ccs_level started = L3Checkpoint then Inl CheckpointStartWithoutBarrier
          else if ccs_level started = L0Payload \<or> opn \<noteq> None then Inl AmbiguousCompaction
          else Inr (Some \<lparr> oc_index = index, oc_level = ccs_level started,
                          oc_turn_id = entry_turn entry \<rparr>))
      | CompactionCompletedEv done \<Rightarrow>
         (if ccc_level done = L3Checkpoint then Inr opn
          else case opn of
                 None \<Rightarrow> Inl CompletionWithoutCompaction
               | Some start \<Rightarrow>
                   bind_res (check_completion entries index entry start done) (\<lambda>_. Inr None))
      | DiagnosticEv _ \<Rightarrow>
         (case opn of
            None \<Rightarrow> Inr None
          | Some start \<Rightarrow>
              if is_compaction_abort entry (entry_id (entries ! oc_index start)) then Inr None
              else Inr opn)
      | _ \<Rightarrow> Inr opn))"

definition scan_compactions :: "trace_entry list \<Rightarrow> compaction_error + open_compaction option" where
  "scan_compactions entries =
     fold_res (compaction_step entries) (List.enumerate 0 entries) None"

definition validate_compactions :: "trace_entry list \<Rightarrow> compaction_error + unit" where
  "validate_compactions entries =
     bind_res (scan_compactions entries)
       (\<lambda>opn. if opn = None then Inr () else Inl IncompleteCompaction)"

section \<open>Finding what a crash left open\<close>

fun started_level :: "agent_event \<Rightarrow> context_level option" where
  "started_level (CompactionStartedEv s) = Some (ccs_level s)"
| "started_level _ = None"

definition incomplete_step ::
  "trace_entry list \<Rightarrow> nat \<times> trace_entry \<Rightarrow> nat option \<Rightarrow> compaction_error + nat option" where
  "incomplete_step entries = (\<lambda>(index, entry) opn.
     (case entry_event entry of
        CompactionStartedEv started \<Rightarrow>
         (if ccs_level started \<notin> {L1Ordinary, L2Phase} \<or> opn \<noteq> None then Inl AmbiguousCompaction
          else Inr (Some index))
      | CompactionCompletedEv done \<Rightarrow>
         (if ccc_level done = L3Checkpoint then Inr opn
          else case opn of
                 None \<Rightarrow> Inl CompletionWithoutCompaction
               | Some start \<Rightarrow>
                  (case started_level (entry_event (entries ! start)) of
                     None \<Rightarrow> Inl CompactionPanic
                   | Some level \<Rightarrow>
                      if level \<noteq> ccc_level done \<or> entry_turn (entries ! start) \<noteq> entry_turn entry
                      then Inl CompletionMismatch else Inr None))
      | DiagnosticEv _ \<Rightarrow>
         (case opn of
            None \<Rightarrow> Inr None
          | Some start \<Rightarrow>
              if is_compaction_abort entry (entry_id (entries ! start)) then Inr None else Inr opn)
      | _ \<Rightarrow> Inr opn))"

definition bad_staged_epoch :: "turn_id option \<Rightarrow> trace_entry \<Rightarrow> bool" where
  "bad_staged_epoch turn entry \<longleftrightarrow>
     entry_turn entry = turn
     \<and> (case epoch_of (entry_event entry) of
           None \<Rightarrow> False
         | Some r \<Rightarrow> cce_context_epoch r = 0 \<or> cce_replaces_from r = 0
                     \<or> cce_replaces_from r > cce_replaces_through r)"

type_synonym staged_start = "trace_entry \<times> event_id option"

definition first_id :: "trace_entry list \<Rightarrow> event_id option" where
  "first_id es = (case es of [] \<Rightarrow> None | e # _ \<Rightarrow> Some (entry_id e))"

definition find_incomplete_compactions :: "trace_entry list \<Rightarrow> compaction_error + staged_start list" where
  "find_incomplete_compactions entries =
     bind_res (fold_res (incomplete_step entries) (List.enumerate 0 entries) None)
       (\<lambda>opn. case opn of
          None \<Rightarrow> Inr []
        | Some start_index \<Rightarrow>
            (let start = entries ! start_index;
                 tail = drop (start_index + 1) entries;
                 summaries = staged_summaries (entry_turn start) tail
             in if length summaries > 1 then Inl MultipleStagedSummaries
                else if list_ex (bad_staged_epoch (entry_turn start)) tail then Inl InvalidStagedEpoch
                else Inr [(start, first_id summaries)]))"

fun completes_ordinary :: "agent_event \<Rightarrow> bool" where
  "completes_ordinary (CompactionCompletedEv c) \<longleftrightarrow> ccc_level c \<noteq> L3Checkpoint"
| "completes_ordinary _ = False"

text \<open>The last position of a prefix that satisfies a predicate, \<open>rposition\<close>.\<close>

definition rposition :: "('a \<Rightarrow> bool) \<Rightarrow> 'a list \<Rightarrow> nat option" where
  "rposition P xs =
     (case filter (\<lambda>(i, x). P x) (rev (List.enumerate 0 xs)) of [] \<Rightarrow> None | (i, _) # _ \<Rightarrow> Some i)"

definition aborted_step ::
  "trace_entry list \<Rightarrow> nat \<times> trace_entry \<Rightarrow> staged_start list \<Rightarrow> compaction_error + staged_start list" where
  "aborted_step entries = (\<lambda>(index, entry) found.
     (case (entry_event entry, em_parent_event_id (entry_meta entry)) of
        (DiagnosticEv d, Some start_id) \<Rightarrow>
         (if dg_message d \<noteq> compaction_abort_message start_id then Inr found
          else case rposition (\<lambda>c. entry_id c = start_id \<and> started_level (entry_event c) \<noteq> None)
                      (take index entries) of
                 None \<Rightarrow> Inl AbortWithoutStart
               | Some start_index \<Rightarrow>
                  (let start = entries ! start_index;
                       staged = between start_index index entries;
                       summaries = staged_summaries (entry_turn start) staged
                   in case started_level (entry_event start) of
                        None \<Rightarrow> Inl CompactionPanic
                      | Some level \<Rightarrow>
                         (if level \<notin> {L1Ordinary, L2Phase} then Inl AbortOfUnabortable
                          else if list_ex (\<lambda>c. completes_ordinary (entry_event c)) staged
                          then Inl AbortAfterCompletion
                          else if length summaries > 1 then Inl MultipleStagedSummaries
                          else Inr (found @ [(start, first_id summaries)]))))
      | _ \<Rightarrow> Inr found))"

definition find_aborted_compactions :: "trace_entry list \<Rightarrow> compaction_error + staged_start list" where
  "find_aborted_compactions entries =
     fold_res (aborted_step entries) (List.enumerate 0 entries) []"

definition staged_event :: "agent_event \<Rightarrow> bool" where
  "staged_event e \<longleftrightarrow> e = ContextSummaryEv \<or> epoch_of e \<noteq> None"

definition ignored_step ::
  "trace_entry list \<Rightarrow> nat \<times> trace_entry \<Rightarrow> nat option \<times> event_id list \<Rightarrow> nat option \<times> event_id list" where
  "ignored_step entries = (\<lambda>(index, entry) (opn, ignored).
     (case entry_event entry of
        CompactionStartedEv started \<Rightarrow>
         (if ccs_level started \<in> {L1Ordinary, L2Phase} then (Some index, ignored) else (opn, ignored))
      | DiagnosticEv _ \<Rightarrow>
         (case opn of
            None \<Rightarrow> (opn, ignored)
          | Some start \<Rightarrow>
              if is_compaction_abort entry (entry_id (entries ! start))
              then (None, ignored @ map entry_id
                     (filter (\<lambda>c. staged_event (entry_event c)) (between start index entries)))
              else (opn, ignored))
      | CompactionCompletedEv done \<Rightarrow>
         (if ccc_level done \<noteq> L3Checkpoint then (None, ignored) else (opn, ignored))
      | _ \<Rightarrow> (opn, ignored)))"

definition aborted_compaction_event_ids :: "trace_entry list \<Rightarrow> event_id list" where
  "aborted_compaction_event_ids entries =
     snd (fold (ignored_step entries) (List.enumerate 0 entries) (None, []))"

text \<open>The diagnostic that settles an open compaction.\<close>

definition abort_diagnostic :: "session_id \<Rightarrow> minted \<Rightarrow> trace_entry \<Rightarrow> event_envelope" where
  "abort_diagnostic session m start =
     (let (i, sp, now) = m;
          meta = (new_meta i sp now session (em_trace_id (entry_meta start)))
            \<lparr>em_turn_id := entry_turn start, em_model_epoch := em_model_epoch (entry_meta start),
             em_model := em_model (entry_meta start), em_parent_event_id := Some (entry_id start)\<rparr>
      in new_envelope meta
           (DiagnosticEv \<lparr> dg_level = WarnLevel,
              dg_message = compaction_abort_message (entry_id start) \<rparr>))"

text \<open>The start of every candidate that has no abort marker in the trace yet.\<close>

definition missing_aborts ::
  "session_id \<Rightarrow> minted \<Rightarrow> trace_entry list \<Rightarrow> staged_start list \<Rightarrow> event_envelope list" where
  "missing_aborts session m entries candidates =
     map (\<lambda>(start, _). abort_diagnostic session m start)
       (filter (\<lambda>(start, _). \<not> list_ex (\<lambda>e. is_compaction_abort e (entry_id start)) entries) candidates)"

section \<open>Checkpoints\<close>

record checkpoint_scan =
  ck_epochs :: "u32 list"
  ck_ids :: "checkpoint_id list"
  ck_pending :: "(u32 \<times> turn_id option \<times> u64) option"

definition checkpoint_step :: "trace_entry \<Rightarrow> checkpoint_scan \<Rightarrow> checkpoint_error + checkpoint_scan" where
  "checkpoint_step entry s =
     (case entry_event entry of
        CheckpointCreatedEv created \<Rightarrow>
         (if ckc_checkpoint_id created \<in> set (ck_ids s)
          then Inl (RepeatedCheckpoint (ckc_checkpoint_id created))
          else if ck_pending s \<noteq> None then Inl OverlappingCheckpoints
          else let s' = s\<lparr>ck_ids := ckc_checkpoint_id created # ck_ids s\<rparr>
               in if ckc_context_epoch created = 0 then Inr s'
                  else if ckc_context_epoch created \<in> set (ck_epochs s)
                  then Inl (ReusedCheckpointEpoch (ckc_context_epoch created))
                  else Inr (s'\<lparr>ck_epochs := ckc_context_epoch created # ck_epochs s,
                              ck_pending := Some (ckc_context_epoch created, entry_turn entry,
                                                  ckc_summarized_events created)\<rparr>))
      | CompactionCompletedEv done \<Rightarrow>
         (if ccc_level done = L3Checkpoint \<and> ccc_context_epoch done > 0 then
            (case ck_pending s of
               None \<Rightarrow> Inl CheckpointCompletionWithoutStart
             | Some (epoch, turn, summarized) \<Rightarrow>
                (if epoch \<noteq> ccc_context_epoch done \<or> turn \<noteq> entry_turn entry
                 then Inl CheckpointCompletionMismatch
                 else if ccc_removed_messages done \<noteq> summarized
                 then Inl (CheckpointCountMismatch (ccc_context_epoch done))
                 else Inr (s\<lparr>ck_pending := None\<rparr>)))
          else Inr s)
      | _ \<Rightarrow> Inr s)"

definition checkpoint_start :: checkpoint_scan where
  "checkpoint_start = \<lparr> ck_epochs = [], ck_ids = [], ck_pending = None \<rparr>"

definition scan_checkpoints :: "trace_entry list \<Rightarrow> checkpoint_error + checkpoint_scan" where
  "scan_checkpoints entries = fold_res checkpoint_step entries checkpoint_start"

definition validate_checkpoints :: "trace_entry list \<Rightarrow> checkpoint_error + unit" where
  "validate_checkpoints entries =
     bind_res (scan_checkpoints entries)
       (\<lambda>s. if ck_pending s = None then Inr () else Inl CheckpointWithoutCompletion)"

record incomplete_checkpoint =
  ic_entry :: trace_entry
  ic_created :: checkpoint_created

record checkpoint_search =
  cx_pending :: "incomplete_checkpoint option"
  cx_ids :: "checkpoint_id list"
  cx_epochs :: "u32 list"

definition checkpoint_search_step ::
  "trace_entry \<Rightarrow> checkpoint_search \<Rightarrow> checkpoint_error + checkpoint_search" where
  "checkpoint_search_step entry s =
     (case entry_event entry of
        CheckpointCreatedEv created \<Rightarrow>
         (if ckc_context_epoch created > 0 then
            (if ckc_checkpoint_id created \<in> set (cx_ids s)
                \<or> ckc_context_epoch created \<in> set (cx_epochs s) \<or> cx_pending s \<noteq> None
             then Inl OverlappingCheckpoints
             else Inr (s\<lparr>cx_ids := ckc_checkpoint_id created # cx_ids s,
                         cx_epochs := ckc_context_epoch created # cx_epochs s,
                         cx_pending := Some \<lparr> ic_entry = entry, ic_created = created \<rparr>\<rparr>))
          else if ckc_checkpoint_id created \<in> set (cx_ids s)
          then Inl (RepeatedCheckpoint (ckc_checkpoint_id created))
          else Inr (s\<lparr>cx_ids := ckc_checkpoint_id created # cx_ids s\<rparr>))
      | CompactionCompletedEv done \<Rightarrow>
         (if ccc_level done = L3Checkpoint \<and> ccc_context_epoch done > 0 then
            (case cx_pending s of
               None \<Rightarrow> Inl CheckpointCompletionWithoutStart
             | Some boundary \<Rightarrow>
                (if ckc_context_epoch (ic_created boundary) \<noteq> ccc_context_epoch done
                    \<or> entry_turn (ic_entry boundary) \<noteq> entry_turn entry
                    \<or> ccc_removed_messages done \<noteq> ckc_summarized_events (ic_created boundary)
                 then Inl CheckpointCompletionMismatch
                 else Inr (s\<lparr>cx_pending := None\<rparr>)))
          else Inr s)
      | _ \<Rightarrow> Inr s)"

definition find_incomplete_checkpoints :: "trace_entry list \<Rightarrow> checkpoint_error + incomplete_checkpoint list" where
  "find_incomplete_checkpoints entries =
     bind_res (fold_res checkpoint_search_step entries \<lparr> cx_pending = None, cx_ids = [], cx_epochs = [] \<rparr>)
       (\<lambda>s. Inr (case cx_pending s of None \<Rightarrow> [] | Some b \<Rightarrow> [b]))"

text \<open>
  The completion recovery synthesizes for an open checkpoint; \<open>pre_barrier\<close> is the number of
  messages the session log restores before its barrier.
\<close>

definition checkpoint_completion ::
  "session_id \<Rightarrow> minted \<Rightarrow> nat \<Rightarrow> incomplete_checkpoint \<Rightarrow> checkpoint_error + event_envelope" where
  "checkpoint_completion session m pre_barrier boundary =
     (let removed = ckc_summarized_events (ic_created boundary)
      in if removed > pre_barrier then Inl RemovedExceedsPrefix
         else bind_res (ok_or (checked_add usize_max (pre_barrier - removed) 1) CheckpointCountExhausted)
           (\<lambda>retained.
              if retained > u32_max \<or> removed > u32_max then Inl CheckpointCountExhausted
              else let (i, sp, now) = m;
                       entry = ic_entry boundary;
                       meta = (new_meta i sp now session (em_trace_id (entry_meta entry)))
                         \<lparr>em_turn_id := entry_turn entry,
                          em_model_epoch := em_model_epoch (entry_meta entry),
                          em_model := em_model (entry_meta entry),
                          em_parent_event_id := Some (entry_id entry)\<rparr>
                   in Inr (new_envelope meta (CompactionCompletedEv
                        \<lparr> ccc_level = L3Checkpoint, ccc_removed_messages = removed,
                          ccc_retained_messages = retained,
                          ccc_context_epoch = ckc_context_epoch (ic_created boundary) \<rparr>))))"

text \<open>
  \<open>char::is_control\<close> on UTF-8 bytes: the characters below 32, 127 and U+0080 to U+009F, whose
  encodings are \<open>C2 80\<close> to \<open>C2 9F\<close>.
\<close>

fun has_control :: "string \<Rightarrow> bool" where
  "has_control [] \<longleftrightarrow> False"
| "has_control (b # s) \<longleftrightarrow>
     byte b < 32 \<or> byte b = 127
     \<or> (byte b = 194 \<and> (case s of [] \<Rightarrow> False | c # _ \<Rightarrow> 128 \<le> byte c \<and> byte c \<le> 159))
     \<or> has_control s"

definition valid_checkpoint_id :: "checkpoint_id \<Rightarrow> bool" where
  "valid_checkpoint_id v \<longleftrightarrow>
     v \<noteq> [] \<and> v \<noteq> ''.'' \<and> v \<noteq> ''..'' \<and> CHR ''/'' \<notin> set v \<and> CHR 0x5C \<notin> set v
     \<and> \<not> has_control v"

section \<open>A scan does not look ahead\<close>

lemma between_append: "i \<le> length xs \<Longrightarrow> between s i (xs @ ys) = between s i xs"
  by (simp add: between_def)

lemma compaction_step_prefix:
  assumes "i \<le> length xs" "\<forall>c. opn = Some c \<longrightarrow> oc_index c < i"
  shows "compaction_step (xs @ ys) (i, e) opn = compaction_step xs (i, e) opn"
  using assms
  by (cases opn) (auto simp: compaction_step_def check_completion_def between_append nth_append
      split: agent_event.split)

lemma compaction_step_index:
  assumes "compaction_step es (i, e) opn = Inr opn'" "\<forall>c. opn = Some c \<longrightarrow> oc_index c < i"
  shows "\<forall>c. opn' = Some c \<longrightarrow> oc_index c < Suc i"
  using assms
  by (auto simp: compaction_step_def less_Suc_eq split: agent_event.splits if_splits option.splits)

lemma compaction_fold_prefix:
  assumes "k + length zs \<le> length xs" "\<forall>c. opn = Some c \<longrightarrow> oc_index c < k"
  shows "fold_res (compaction_step (xs @ ys)) (List.enumerate k zs) opn
           = fold_res (compaction_step xs) (List.enumerate k zs) opn"
  using assms
proof (induction zs arbitrary: k opn)
  case (Cons z zs)
  have step: "compaction_step (xs @ ys) (k, z) opn = compaction_step xs (k, z) opn"
    using Cons.prems by (intro compaction_step_prefix) auto
  show ?case
  proof (cases "compaction_step xs (k, z) opn")
    case (Inr opn')
    then have "\<forall>c. opn' = Some c \<longrightarrow> oc_index c < Suc k"
      using compaction_step_index Cons.prems(2) by blast
    then show ?thesis
      using Cons.IH [of "Suc k" opn'] Cons.prems(1) by (simp add: step Inr)
  qed (simp add: step)
qed simp

lemma bind_fold_Nil [simp]: "bind_res x (fold_res f []) = x"
  by (cases x) simp_all

lemma scan_compactions_snoc:
  "scan_compactions (es @ [e])
     = bind_res (scan_compactions es) (compaction_step (es @ [e]) (length es, e))"
  using compaction_fold_prefix [of 0 es es None "[e]"]
  by (cases "scan_compactions es")
    (simp_all add: scan_compactions_def enumerate_append_eq fold_res_append)

section \<open>The scans agree on what is open\<close>

lemma open_agrees_step:
  assumes "compaction_step es (i, e) opn = Inr opn'"
    and "incomplete_step es (i, e) (map_option oc_index opn) = Inr o'"
  shows "o' = map_option oc_index opn'"
  using assms
  by (cases opn) (auto simp: compaction_step_def incomplete_step_def
      split: agent_event.splits if_splits option.splits)

lemma open_agrees:
  "fold_res (compaction_step es) zs opn = Inr opn' \<Longrightarrow>
   fold_res (incomplete_step es) zs (map_option oc_index opn) = Inr o' \<Longrightarrow>
   o' = map_option oc_index opn'"
proof (induction zs arbitrary: opn)
  case (Cons z zs)
  obtain t where t: "compaction_step es z opn = Inr t" "fold_res (compaction_step es) zs t = Inr opn'"
    using Cons.prems(1) by auto
  obtain u where u: "incomplete_step es z (map_option oc_index opn) = Inr u"
    "fold_res (incomplete_step es) zs u = Inr o'"
    using Cons.prems(2) by auto
  have "u = map_option oc_index t"
    using t(1) u(1) open_agrees_step by (metis surj_pair)
  then show ?case
    using Cons.IH t(2) u(2) by blast
qed simp

lemma ignored_agrees_step:
  assumes "incomplete_step es (i, e) opn = Inr o'"
  shows "fst (ignored_step es (i, e) (opn, ids)) = o'"
  using assms
  by (auto simp: incomplete_step_def ignored_step_def
      split: agent_event.splits if_splits option.splits)

lemma ignored_agrees:
  "fold_res (incomplete_step es) zs opn = Inr o' \<Longrightarrow>
     fst (fold (ignored_step es) zs (opn, ids)) = o'"
proof (induction zs arbitrary: opn ids)
  case (Cons z zs)
  obtain u where u: "incomplete_step es z opn = Inr u" "fold_res (incomplete_step es) zs u = Inr o'"
    using Cons.prems by auto
  obtain ids' where "ignored_step es z (opn, ids) = (u, ids')"
    using u(1) ignored_agrees_step by (metis surj_pair prod.collapse)
  then show ?case
    using Cons.IH [OF u(2)] by simp
qed simp

lemma incomplete_step_prefix:
  assumes "i \<le> length xs" "\<forall>s. opn = Some s \<longrightarrow> s < i"
  shows "incomplete_step (xs @ ys) (i, e) opn = incomplete_step xs (i, e) opn"
proof (cases opn)
  case (Some s)
  then have "(xs @ ys) ! s = xs ! s"
    using assms by (simp add: nth_append)
  then show ?thesis
    by (simp add: incomplete_step_def Some split: agent_event.split option.split)
qed (simp add: incomplete_step_def split: agent_event.split)

lemma incomplete_step_index:
  assumes "incomplete_step es (i, e) opn = Inr opn'" "\<forall>s. opn = Some s \<longrightarrow> s < i"
  shows "\<forall>s. opn' = Some s \<longrightarrow> s < Suc i"
  using assms
  by (auto simp: incomplete_step_def less_Suc_eq split: agent_event.splits if_splits option.splits)

lemma incomplete_fold_prefix:
  assumes "k + length zs \<le> length xs" "\<forall>s. opn = Some s \<longrightarrow> s < k"
  shows "fold_res (incomplete_step (xs @ ys)) (List.enumerate k zs) opn
           = fold_res (incomplete_step xs) (List.enumerate k zs) opn"
  using assms
proof (induction zs arbitrary: k opn)
  case (Cons z zs)
  have step: "incomplete_step (xs @ ys) (k, z) opn = incomplete_step xs (k, z) opn"
    using Cons.prems by (intro incomplete_step_prefix) auto
  show ?case
  proof (cases "incomplete_step xs (k, z) opn")
    case (Inr opn')
    then have "\<forall>s. opn' = Some s \<longrightarrow> s < Suc k"
      using incomplete_step_index Cons.prems(2) by blast
    then show ?thesis
      using Cons.IH [of "Suc k" opn'] Cons.prems(1) by (simp add: step Inr)
  qed (simp add: step)
qed simp

lemma incomplete_index_bound:
  assumes "fold_res (incomplete_step es) (List.enumerate 0 es) None = Inr (Some s)"
  shows "s < length es"
proof -
  have "\<forall>s. opn' = Some s \<longrightarrow> s < k + length zs"
    if "fold_res (incomplete_step es) (List.enumerate k zs) opn = Inr opn'"
      "\<forall>s. opn = Some s \<longrightarrow> s < k" for k zs opn opn'
    using that
  proof (induction zs arbitrary: k opn)
    case (Cons z zs)
    obtain u where "incomplete_step es (k, z) opn = Inr u"
      "fold_res (incomplete_step es) (List.enumerate (Suc k) zs) u = Inr opn'"
      using Cons.prems(1) by auto
    then show ?case
      using Cons.IH [of "Suc k" u] incomplete_step_index [OF _ Cons.prems(2)] by auto
  qed simp
  from this [OF assms] show ?thesis
    by simp
qed

section \<open>An aborted compaction is settled\<close>

lemma incomplete_result:
  assumes "find_incomplete_compactions es = Inr [(start, sid)]"
  obtains s where "fold_res (incomplete_step es) (List.enumerate 0 es) None = Inr (Some s)"
    "s < length es" "start = es ! s"
    "sid = first_id (staged_summaries (entry_turn start) (drop (s + 1) es))"
  using assms incomplete_index_bound
  by (auto simp: find_incomplete_compactions_def Let_def split: option.splits if_splits)

lemma abort_diagnostic_aborts:
  "is_compaction_abort (plain_entry (abort_diagnostic session m start)) (entry_id start)"
  by (simp add: is_compaction_abort_def plain_entry_def abort_diagnostic_def new_envelope_def
      Let_def split: prod.split)

lemma abort_diagnostic_event:
  "\<exists>d. entry_event (plain_entry (abort_diagnostic session m start)) = DiagnosticEv d"
  by (simp add: plain_entry_def abort_diagnostic_def new_envelope_def Let_def split: prod.split)

lemma first_id_member: "first_id es = Some i \<Longrightarrow> \<exists>e \<in> set es. entry_id e = i"
  by (cases es) (auto simp: first_id_def)

lemma abort_hides_staged:
  assumes "fold_res (incomplete_step es) (List.enumerate 0 es) None = Inr (Some s)" "s < length es"
    and "e \<in> set (drop (s + 1) es)" "staged_event (entry_event e)"
    and "is_compaction_abort a (entry_id (es ! s))"
  shows "entry_id e \<in> set (aborted_compaction_event_ids (es @ [a]))"
proof -
  let ?es = "es @ [a]"
  have "fold_res (incomplete_step ?es) (List.enumerate 0 es) None = Inr (Some s)"
    using incomplete_fold_prefix [of 0 es es None "[a]"] assms(1) by simp
  then have "fst (fold (ignored_step ?es) (List.enumerate 0 es) (None, [])) = Some s"
    by (rule ignored_agrees)
  then obtain ids where ids: "fold (ignored_step ?es) (List.enumerate 0 es) (None, []) = (Some s, ids)"
    by (metis prod.collapse)
  have start: "?es ! s = es ! s"
    using assms(2) by (simp add: nth_append)
  have mid: "between s (length es) ?es = drop (s + 1) es"
    using assms(2) by (simp add: between_def)
  obtain d where d: "entry_event a = DiagnosticEv d"
    using assms(5) by (auto simp: is_compaction_abort_def split: agent_event.splits)
  have "ignored_step ?es (length es, a) (Some s, ids)
      = (None, ids @ map entry_id (filter (\<lambda>c. staged_event (entry_event c)) (drop (s + 1) es)))"
    using assms(5) unfolding ignored_step_def by (simp add: d start mid)
  then show ?thesis
    using assms(3,4) by (simp add: aborted_compaction_event_ids_def enumerate_append_eq ids)
qed

lemma abort_settles:
  assumes "scan_compactions es = Inr opn"
    and "find_incomplete_compactions es = Inr [(start, sid)]"
    and "is_compaction_abort a (entry_id start)"
  shows "validate_compactions (es @ [a]) = Inr ()
     \<and> set_option sid
         \<subseteq> set (aborted_compaction_event_ids (es @ [a]))"
proof
  obtain s where s: "fold_res (incomplete_step es) (List.enumerate 0 es) None = Inr (Some s)"
    "s < length es" "start = es ! s"
    "sid = first_id (staged_summaries (entry_turn start) (drop (s + 1) es))"
    using incomplete_result [OF assms(2)] .
  have "Some s = map_option oc_index opn"
    using open_agrees [of es "List.enumerate 0 es" None opn "Some s"] assms(1) s(1)
    by (simp add: scan_compactions_def)
  then obtain c where c: "opn = Some c" "oc_index c = s"
    by (cases opn) auto
  obtain d where d: "entry_event a = DiagnosticEv d"
    using assms(3) by (auto simp: is_compaction_abort_def split: agent_event.splits)
  have "compaction_step (es @ [a]) (length es, a) opn = Inr None"
    using assms(3) s(2,3)
    by (simp add: compaction_step_def c d nth_append)
  then show "validate_compactions (es @ [a]) = Inr ()"
    by (simp add: validate_compactions_def scan_compactions_snoc assms(1))
  show "set_option sid \<subseteq> set (aborted_compaction_event_ids (es @ [a]))"
  proof (cases sid)
    case (Some i)
    then obtain e where e: "e \<in> set (staged_summaries (entry_turn start) (drop (s + 1) es))"
      "entry_id e = i"
      using s(4) first_id_member by metis
    then have "e \<in> set (drop (s + 1) es)" "staged_event (entry_event e)"
      by (auto simp: staged_summaries_def staged_event_def)
    then have "entry_id e \<in> set (aborted_compaction_event_ids (es @ [a]))"
      using abort_hides_staged [OF s(1,2)] assms(3) s(3) by metis
    then show ?thesis
      using Some e(2) by simp
  qed simp
qed

text \<open>
  An interrupted compaction can always be settled: if the completed compactions of a trace are
  consistent and one compaction is open, then with the abort diagnostic recovery appends, the
  trace passes validation, and the summary that was staged for the lost compaction is among the
  events the resumed session ignores.\<close>

theorem interrupted_compaction_is_settled:
  assumes "scan_compactions es = Inr opn"
    and "find_incomplete_compactions es = Inr [(start, sid)]"
  shows "validate_compactions (es @ [plain_entry (abort_diagnostic session m start)]) = Inr ()
     \<and> set_option sid
         \<subseteq> set (aborted_compaction_event_ids (es @ [plain_entry (abort_diagnostic session m start)]))"
  using abort_settles [OF assms abort_diagnostic_aborts] .

section \<open>An interrupted checkpoint is settled\<close>

definition pending_view :: "incomplete_checkpoint option \<Rightarrow> (u32 \<times> turn_id option \<times> u64) option" where
  "pending_view = map_option
     (\<lambda>b. (ckc_context_epoch (ic_created b), entry_turn (ic_entry b), ckc_summarized_events (ic_created b)))"

definition search_ok :: "checkpoint_search \<Rightarrow> bool" where
  "search_ok s \<longleftrightarrow> (\<forall>b. cx_pending s = Some b \<longrightarrow> ckc_context_epoch (ic_created b) > 0)"

lemma checkpoint_agrees_step:
  assumes "checkpoint_step e s = Inr s'" "checkpoint_search_step e t = Inr t'"
    and "ck_pending s = pending_view (cx_pending t)" "search_ok t"
  shows "ck_pending s' = pending_view (cx_pending t') \<and> search_ok t'"
  using assms
  by (cases "entry_event e")
    (auto simp: checkpoint_step_def checkpoint_search_step_def pending_view_def search_ok_def Let_def
      split: if_splits option.splits)

lemma checkpoint_agrees:
  assumes "fold_res checkpoint_step es s = Inr s'" "fold_res checkpoint_search_step es t = Inr t'"
    and "ck_pending s = pending_view (cx_pending t)" "search_ok t"
  shows "ck_pending s' = pending_view (cx_pending t') \<and> search_ok t'"
  using assms
proof (induction es arbitrary: s t)
  case (Cons e es)
  obtain u v where "checkpoint_step e s = Inr u" "fold_res checkpoint_step es u = Inr s'"
    "checkpoint_search_step e t = Inr v" "fold_res checkpoint_search_step es v = Inr t'"
    using Cons.prems(1,2) by auto
  then show ?case
    using Cons.IH [of u v] checkpoint_agrees_step [of e s u t v] Cons.prems(3,4) by blast
qed simp

text \<open>An interrupted checkpoint can be settled: if the checkpoint lifecycles of a trace are
  consistent and one checkpoint lacks its completion, then with the completion recovery
  synthesizes, the trace passes validation.\<close>

theorem interrupted_checkpoint_is_settled:
  assumes "scan_checkpoints es = Inr s"
    and "find_incomplete_checkpoints es = Inr [boundary]"
    and "checkpoint_completion session m pre_barrier boundary = Inr env"
  shows "validate_checkpoints (es @ [plain_entry env]) = Inr ()"
proof -
  let ?start = "\<lparr> cx_pending = None, cx_ids = [], cx_epochs = [] \<rparr>"
  obtain t where t: "fold_res checkpoint_search_step es ?start = Inr t" "cx_pending t = Some boundary"
    using assms(2) by (auto simp: find_incomplete_checkpoints_def split: option.splits)
  have "ck_pending s = pending_view (cx_pending t) \<and> search_ok t"
    using checkpoint_agrees [OF assms(1)[unfolded scan_checkpoints_def] t(1)]
    by (simp add: checkpoint_start_def pending_view_def search_ok_def)
  then have pend: "ck_pending s = pending_view (Some boundary)"
    and pos: "ckc_context_epoch (ic_created boundary) > 0"
    using t(2) by (auto simp: search_ok_def)
  have "checkpoint_step (plain_entry env) s = Inr (s\<lparr>ck_pending := None\<rparr>)"
    using assms(3) pend pos
    by (auto simp: checkpoint_completion_def checkpoint_step_def pending_view_def Let_def
        new_envelope_def plain_entry_def split: if_splits prod.splits)
  then show ?thesis
    using assms(1) by (simp add: validate_checkpoints_def scan_checkpoints_def fold_res_append)
qed

section \<open>Samples\<close>

definition sample_compaction :: "trace_entry list" where
  "sample_compaction =
     [sample_entry ''k1'' None (CompactionStartedEv \<lparr> ccs_level = L1Ordinary, ccs_reason = ''full'' \<rparr>),
      sample_entry ''k2'' None ContextSummaryEv]"

lemma sample_compaction_scan:
  "scan_compactions sample_compaction
     = Inr (Some \<lparr> oc_index = 0, oc_level = L1Ordinary, oc_turn_id = Some ''turn'' \<rparr>)"
  by code_simp

lemma sample_compaction_open:
  "find_incomplete_compactions sample_compaction = Inr [(hd sample_compaction, Some ''k2'')]"
  by code_simp

theorem interrupted_compaction_is_settled_witness:
  "validate_compactions
      (sample_compaction @ [plain_entry (abort_diagnostic ''session'' (''k3'', ''span'', 0) (hd sample_compaction))])
     = Inr ()"
  using interrupted_compaction_is_settled [OF sample_compaction_scan sample_compaction_open] by blast

definition sample_checkpoint :: checkpoint_created where
  "sample_checkpoint =
     \<lparr> ckc_checkpoint_id = ''c'', ckc_capsule_version = 1, ckc_summarized_events = 2,
       ckc_path = ''checkpoints/c.json'', ckc_context_epoch = 1 \<rparr>"

definition sample_checkpoint_entry :: trace_entry where
  "sample_checkpoint_entry = sample_entry ''k1'' None (CheckpointCreatedEv sample_checkpoint)"

lemma sample_checkpoint_scan:
  "scan_checkpoints [sample_checkpoint_entry]
     = Inr \<lparr> ck_epochs = [1], ck_ids = [''c''], ck_pending = Some (1, Some ''turn'', 2) \<rparr>"
  by code_simp

lemma sample_checkpoint_open:
  "find_incomplete_checkpoints [sample_checkpoint_entry]
     = Inr [\<lparr> ic_entry = sample_checkpoint_entry, ic_created = sample_checkpoint \<rparr>]"
  by code_simp

theorem interrupted_checkpoint_is_settled_witness:
  "\<exists>env. checkpoint_completion ''session'' (''k2'', ''span'', 0) 3
       \<lparr> ic_entry = sample_checkpoint_entry, ic_created = sample_checkpoint \<rparr> = Inr env
     \<and> validate_checkpoints ([sample_checkpoint_entry] @ [plain_entry env]) = Inr ()"
proof -
  have "\<exists>env. checkpoint_completion ''session'' (''k2'', ''span'', 0) 3
       \<lparr> ic_entry = sample_checkpoint_entry, ic_created = sample_checkpoint \<rparr> = Inr env"
    by (simp add: checkpoint_completion_def sample_checkpoint_def checked_add_def u64_max_def
        u32_max_def Let_def)
  then show ?thesis
    using interrupted_checkpoint_is_settled [OF sample_checkpoint_scan sample_checkpoint_open] by blast
qed

end
