(* ===== verification/Trace_Integrity.thy ===== *)
theory Trace_Integrity
  imports Events Sse_Framing
begin

text \<open>
  The integrity pass of \<open>crates/rupi-store/src/store.rs\<close> over a whole trace: identity and
  sequence of every line (\<open>validate_trace_integrity\<close>), proved equivalent to its declarative
  meaning, and the payload references of every line (\<open>validate_trace_payloads\<close>).
\<close>

section \<open>Identity, order and causality\<close>

datatype integrity_fault =
  UnsupportedVersion u32 | ForeignSession | IncompleteIdentity | MissingSequence
| NonContiguous | InvalidParent event_id | DuplicateEvent

type_synonym integrity_error = "event_id \<times> integrity_fault"

definition identity_incomplete :: "event_meta \<Rightarrow> bool" where
  "identity_incomplete m \<longleftrightarrow>
     em_event_id m = [] \<or> em_trace_id m = [] \<or> em_span_id m = []
     \<or> em_turn_id m = Some [] \<or> em_parent_event_id m = Some []"

definition out_of_sequence :: "event_seq option \<Rightarrow> event_seq \<Rightarrow> bool" where
  "out_of_sequence prior seq \<longleftrightarrow>
     seq = 0 \<or> (case prior of None \<Rightarrow> False
                | Some previous \<Rightarrow> seq \<le> previous \<or> checked_add u64_max previous 1 \<noteq> Some seq)"

definition bad_parent :: "event_id list \<Rightarrow> event_meta \<Rightarrow> event_id option" where
  "bad_parent seen m =
     (case em_parent_event_id m of
        None \<Rightarrow> None
      | Some p \<Rightarrow> if p = em_event_id m \<or> p \<notin> set seen then Some p else None)"

definition integrity_step ::
  "session_id \<Rightarrow> trace_entry \<Rightarrow> event_seq option \<times> event_id list
     \<Rightarrow> integrity_error + event_seq option \<times> event_id list" where
  "integrity_step session entry s =
     (let (prior, seen) = s; m = entry_meta entry; i = em_event_id m
      in if ee_v (tn_envelope entry) \<noteq> event_schema_version
         then Inl (i, UnsupportedVersion (ee_v (tn_envelope entry)))
         else if em_session_id m \<noteq> session then Inl (i, ForeignSession)
         else if identity_incomplete m then Inl (i, IncompleteIdentity)
         else case em_seq m of
                None \<Rightarrow> Inl (i, MissingSequence)
              | Some seq \<Rightarrow>
                 (if out_of_sequence prior seq then Inl (i, NonContiguous)
                  else case bad_parent seen m of
                         Some p \<Rightarrow> Inl (i, InvalidParent p)
                       | None \<Rightarrow>
                           if i \<in> set seen then Inl (i, DuplicateEvent)
                           else Inr (Some seq, seen @ [i])))"

definition validate_trace_integrity :: "session_id \<Rightarrow> trace_entry list \<Rightarrow> integrity_error + unit" where
  "validate_trace_integrity session entries =
     bind_res (fold_res (integrity_step session) entries (None, [])) (\<lambda>_. Inr ())"

section \<open>What an accepted trace is\<close>

definition entry_identified :: "session_id \<Rightarrow> trace_entry \<Rightarrow> bool" where
  "entry_identified session e \<longleftrightarrow>
     ee_v (tn_envelope e) = event_schema_version \<and> em_session_id (entry_meta e) = session
     \<and> \<not> identity_incomplete (entry_meta e)"

definition causal :: "trace_entry list \<Rightarrow> bool" where
  "causal es \<longleftrightarrow>
     (\<forall>past e rest p. es = past @ e # rest \<longrightarrow> em_parent_event_id (entry_meta e) = Some p \<longrightarrow>
        p \<in> set (map entry_id past))"

text \<open>The sequence numbers count up by one from a positive number and do not pass \<open>u64::MAX\<close>.\<close>

definition contiguous :: "trace_entry list \<Rightarrow> bool" where
  "contiguous es \<longleftrightarrow>
     (\<exists>n. 1 \<le> n \<and> map entry_seq es = map Some [n..<n + length es]
        \<and> (length es \<le> 1 \<or> n + length es \<le> u64_max + 1))"

definition trace_integral :: "session_id \<Rightarrow> trace_entry list \<Rightarrow> bool" where
  "trace_integral session es \<longleftrightarrow>
     list_all (entry_identified session) es \<and> contiguous es
     \<and> distinct (map entry_id es) \<and> causal es"

lemma causal_Nil [simp]: "causal []"
  by (simp add: causal_def)

lemma causal_snoc:
  "causal (es @ [e]) \<longleftrightarrow>
     causal es \<and> (\<forall>p. em_parent_event_id (entry_meta e) = Some p \<longrightarrow> p \<in> set (map entry_id es))"
proof
  assume c: "causal (es @ [e])"
  have "causal es"
    unfolding causal_def
  proof (intro allI impI)
    fix past f rest p
    assume "es = past @ f # rest" "em_parent_event_id (entry_meta f) = Some p"
    then have "es @ [e] = past @ f # (rest @ [e])" "em_parent_event_id (entry_meta f) = Some p"
      by simp_all
    then show "p \<in> set (map entry_id past)"
      using c unfolding causal_def by blast
  qed
  moreover have "p \<in> set (map entry_id es)" if "em_parent_event_id (entry_meta e) = Some p" for p
    using c that unfolding causal_def by blast
  ultimately show "causal es \<and> (\<forall>p. em_parent_event_id (entry_meta e) = Some p \<longrightarrow> p \<in> set (map entry_id es))"
    by blast
next
  assume c: "causal es \<and> (\<forall>p. em_parent_event_id (entry_meta e) = Some p \<longrightarrow> p \<in> set (map entry_id es))"
  show "causal (es @ [e])"
    unfolding causal_def
  proof (intro allI impI)
    fix past f rest p
    assume split: "es @ [e] = past @ f # rest" and p: "em_parent_event_id (entry_meta f) = Some p"
    show "p \<in> set (map entry_id past)"
    proof (cases rest rule: rev_cases)
      case Nil
      then show ?thesis using split p c by simp
    next
      case (snoc rest' g)
      then have "es = past @ f # rest'"
        using split by (metis append.assoc append_Cons butlast_snoc)
      then show ?thesis using c p unfolding causal_def by blast
    qed
  qed
qed

lemma contiguous_snoc:
  "contiguous (es @ [e]) \<longleftrightarrow>
     contiguous es \<and> (\<exists>seq. entry_seq e = Some seq
       \<and> \<not> out_of_sequence (if es = [] then None else entry_seq (last es)) seq)"
  (is "?l \<longleftrightarrow> ?r")
proof
  assume ?l
  then obtain n where n: "1 \<le> n" "map entry_seq (es @ [e]) = map Some [n..<n + Suc (length es)]"
    "length es = 0 \<or> n + Suc (length es) \<le> u64_max + 1"
    by (auto simp: contiguous_def)
  then have es: "map entry_seq es = map Some [n..<n + length es]" "entry_seq e = Some (n + length es)"
    by simp_all
  have "contiguous es"
    using n es unfolding contiguous_def by (intro exI [of _ n]) auto
  moreover have "entry_seq (last es) = Some (n + length es - 1)" if "es \<noteq> []"
  proof -
    have "entry_seq (last es) = last (map entry_seq es)"
      using that by (simp add: last_map)
    also have "\<dots> = Some (n + length es - 1)"
      using that es(1) by (simp add: last_map last_upt)
    finally show ?thesis .
  qed
  ultimately show ?r
    using n es(2) by (cases "es = []") (auto simp: out_of_sequence_def checked_add_def)
next
  assume r: ?r
  then obtain seq where seq: "entry_seq e = Some seq"
    "\<not> out_of_sequence (if es = [] then None else entry_seq (last es)) seq"
    by blast
  show ?l
  proof (cases "es = []")
    case True
    then show ?thesis
      using seq unfolding contiguous_def by (intro exI [of _ seq]) (auto simp: out_of_sequence_def)
  next
    case False
    obtain n where n: "1 \<le> n" "map entry_seq es = map Some [n..<n + length es]"
      using r by (auto simp: contiguous_def)
    have "entry_seq (last es) = last (map entry_seq es)"
      using False by (simp add: last_map)
    also have "\<dots> = Some (n + length es - 1)"
      using False n(2) by (simp add: last_map last_upt)
    finally have "seq = n + length es \<and> n + length es \<le> u64_max"
      using seq(2) False n(1) by (auto simp: out_of_sequence_def checked_add_def split: if_splits)
    then show ?thesis
      using n seq(1) unfolding contiguous_def by (intro exI [of _ n]) auto
  qed
qed

lemma integral_snoc:
  "trace_integral session (es @ [e]) \<longleftrightarrow>
     trace_integral session es
     \<and> (\<exists>s. integrity_step session e (if es = [] then None else entry_seq (last es), map entry_id es) = Inr s)"
  by (auto simp: trace_integral_def causal_snoc contiguous_snoc integrity_step_def Let_def
      entry_identified_def bad_parent_def split: option.splits if_splits)

lemma integrity_step_result:
  "integrity_step session e (prior, seen) = Inr s \<Longrightarrow> s = (entry_seq e, seen @ [entry_id e])"
  by (auto simp: integrity_step_def Let_def split: if_splits option.splits)

lemma integrity_fold:
  "fold_res (integrity_step session) es (None, []) = Inr s \<longleftrightarrow>
     trace_integral session es
     \<and> s = (if es = [] then None else entry_seq (last es), map entry_id es)"
proof (induction es arbitrary: s rule: rev_induct)
  case Nil
  show ?case by (auto simp: trace_integral_def contiguous_def)
next
  case (snoc e es)
  show ?case
    by (auto simp: fold_res_append snoc.IH integral_snoc dest: integrity_step_result
        split: if_splits)
qed

text \<open>
  The integrity pass accepts a trace exactly when every line carries the supported schema
  version, the session and a complete identity, the sequence numbers are contiguous and positive,
  the event ids are distinct, and every causal parent is an earlier event.\<close>

theorem trace_integrity_exact:
  "validate_trace_integrity session es = Inr () \<longleftrightarrow> trace_integral session es"
  by (auto simp: validate_trace_integrity_def integrity_fold)

section \<open>Payload references\<close>

datatype payload_fault =
  EmptyExternalField | UnreadableExternalField string | WrongExternalField string
| InvalidSummaryBlob | RecoveryWithoutBlob | MissingReductionBlob
| MalformedReductionBlob | UnverifiedReductionBlob | MismatchedRecoveryRef | InvalidResultBlob

definition check_external ::
  "codec \<Rightarrow> blob_fs \<Rightarrow> externalized_field \<Rightarrow> payload_fault + unit" where
  "check_external z fs f =
     (if xf_bytes f = 0 then Inl EmptyExternalField
      else case get_relative_verified z fs (xf_reference f) of
             Inl _ \<Rightarrow> Inl (UnreadableExternalField (xf_field f))
           | Inr bytes \<Rightarrow>
               if length bytes \<noteq> xf_bytes f \<or> \<not> valid_utf8 bytes
               then Inl (WrongExternalField (xf_field f)) else Inr ())"

definition check_blob :: "codec \<Rightarrow> blob_fs \<Rightarrow> payload_fault \<Rightarrow> blob_ref option \<Rightarrow> payload_fault + unit" where
  "check_blob z fs fault b =
     (case b of
        None \<Rightarrow> Inr ()
      | Some blob \<Rightarrow>
          if \<not> blob_well_formed blob \<or> \<not> blob_verify z fs blob then Inl fault else Inr ())"

definition check_reduction :: "codec \<Rightarrow> blob_fs \<Rightarrow> context_reduced \<Rightarrow> payload_fault + unit" where
  "check_reduction z fs r =
     (if crd_blob r = None \<and> crd_recovery_ref r \<noteq> None then Inl RecoveryWithoutBlob
      else if crd_removed_messages r > 0 \<and> crd_blob r = None then Inl MissingReductionBlob
      else case crd_blob r of
             None \<Rightarrow> Inr ()
           | Some blob \<Rightarrow>
              (if \<not> blob_well_formed blob then Inl MalformedReductionBlob
               else if \<not> blob_verify z fs blob then Inl UnverifiedReductionBlob
               else if crd_recovery_ref r \<noteq> Some (blob_recovery_ref blob)
               then Inl MismatchedRecoveryRef else Inr ()))"

definition check_payload :: "codec \<Rightarrow> blob_fs \<Rightarrow> agent_event \<Rightarrow> payload_fault + unit" where
  "check_payload z fs e =
     (case e of
        CompactionEpochEv r \<Rightarrow> check_blob z fs InvalidSummaryBlob (cce_summary r)
      | ContextReducedEv r \<Rightarrow> check_reduction z fs r
      | ToolCompletedEv c \<Rightarrow> check_blob z fs InvalidResultBlob (tcm_blob c)
      | _ \<Rightarrow> Inr ())"

definition payload_step ::
  "codec \<Rightarrow> blob_fs \<Rightarrow> trace_entry \<Rightarrow> unit \<Rightarrow> payload_fault + unit" where
  "payload_step z fs entry u =
     bind_res (fold_res (\<lambda>f _. check_external z fs f) (tn_externalized entry) ())
       (\<lambda>_. check_payload z fs (entry_event entry))"

definition validate_trace_payloads ::
  "codec \<Rightarrow> blob_fs \<Rightarrow> trace_entry list \<Rightarrow> payload_fault + unit" where
  "validate_trace_payloads z fs entries = fold_res (payload_step z fs) entries ()"

lemma fold_unit_all:
  "fold_res (\<lambda>x (_ :: unit). f x) xs u = Inr v \<longleftrightarrow> list_all (\<lambda>x. f x = Inr ()) xs"
  by (induction xs arbitrary: u) auto

lemma payload_step_all:
  "payload_step z fs e () = Inr () \<longleftrightarrow>
     list_all (\<lambda>f. check_external z fs f = Inr ()) (tn_externalized e)
     \<and> check_payload z fs (entry_event e) = Inr ()"
  by (simp add: payload_step_def fold_unit_all)

lemma validated_payload:
  assumes "validate_trace_payloads z fs es = Inr ()" "e \<in> set es"
  shows "payload_step z fs e () = Inr ()"
  using assms unfolding validate_trace_payloads_def by (induction es) auto

text \<open>
  Nothing a validated trace points at is lost: each externalized field of an accepted trace can
  be read back from the blob store with the recorded length, and each evicted history range has
  a verified blob that its recovery reference names.\<close>

theorem validated_references_resolve:
  assumes "validate_trace_payloads z fs es = Inr ()" "e \<in> set es" "f \<in> set (tn_externalized e)"
  shows "\<exists>bytes. get_relative_verified z fs (xf_reference f) = Inr bytes
     \<and> length bytes = xf_bytes f \<and> 0 < length bytes \<and> valid_utf8 bytes"
proof -
  have "check_external z fs f = Inr ()"
    using validated_payload [OF assms(1,2)] assms(3) by (simp add: payload_step_all list_all_iff)
  then show ?thesis
    by (auto simp: check_external_def split: if_splits sum.splits)
qed

lemma validated_reduction:
  assumes "validate_trace_payloads z fs es = Inr ()" "e \<in> set es"
    and "entry_event e = ContextReducedEv r" "crd_removed_messages r > 0"
  shows "\<exists>b. crd_blob r = Some b \<and> blob_verify z fs b \<and> crd_recovery_ref r = Some (blob_recovery_ref b)"
proof -
  have "check_reduction z fs r = Inr ()"
    using validated_payload [OF assms(1,2)] assms(3) by (simp add: payload_step_all check_payload_def)
  then show ?thesis
    using assms(4) by (auto simp: check_reduction_def split: if_splits option.splits)
qed

definition sample_external_entry :: trace_entry where
  "sample_external_entry =
     (plain_entry (new_envelope (new_meta ''e1'' ''span'' 0 ''session'' ''trace'') ContextSummaryEv))
       \<lparr>tn_externalized :=
          [\<lparr> xf_field = ''text'',
             xf_reference = blob_relative_path (reference_for (id, Some) NoCompression ''payload'' None),
             xf_bytes = 7, xf_inline = 0 \<rparr>]\<rparr>"

lemma sample_external_valid:
  "\<exists>fs. validate_trace_payloads (id, Some) fs [sample_external_entry] = Inr ()"
proof -
  let ?b = "reference_for (id, Some) NoCompression ''payload'' None"
  have raw: "br_compression ?b = NoCompression"
    by (simp add: reference_for_def Let_def blob_for_bytes_def)
  let ?fs = "[blob_path ?b \<mapsto> ''payload'']"
  have v: "blob_verify (id, Some) ?fs ?b"
    by (simp add: blob_verify_def blob_decode_def raw reference_for_claims)
  have "get_relative (id, Some) ?fs (blob_relative_path ?b) = Inr ''payload''"
    by (simp add: get_relative_def parse_printed raw blob_decode_def)
  then have "get_relative_verified (id, Some) ?fs (blob_relative_path ?b) = Inr ''payload''"
    using verify_reads_back [OF v reference_for_well_formed]
    by (auto simp: get_relative_verified_def Let_def split: if_splits)
  moreover have "valid_utf8 ''payload''"
    by code_simp
  ultimately show ?thesis
    by (intro exI [of _ ?fs])
      (simp add: validate_trace_payloads_def payload_step_def sample_external_entry_def
        check_external_def check_payload_def plain_entry_def new_envelope_def)
qed

theorem validated_references_resolve_witness:
  "\<exists>fs bytes. get_relative_verified (id, Some) fs
      (xf_reference (hd (tn_externalized sample_external_entry))) = Inr bytes \<and> length bytes = 7"
proof -
  obtain fs where fs: "validate_trace_payloads (id, Some) fs [sample_external_entry] = Inr ()"
    using sample_external_valid by blast
  show ?thesis
    using validated_references_resolve [OF fs, of sample_external_entry
        "hd (tn_externalized sample_external_entry)"]
    by (auto simp: sample_external_entry_def)
qed

end
