(* ===== verification/Session_Log.thy ===== *)
theory Session_Log
  imports Events
begin

text \<open>
  \<open>crates/rupi-core/src/session.rs\<close> and \<open>crates/rupi-store/src/session_log.rs\<close>: the semantic
  records of a session log, the validation of its header and schema, its summary, and the
  reconstruction of the model-visible window from its records (\<open>restore_from_report\<close>). The log
  is the list of its decoded records; the error texts are named by constructors.
\<close>

section \<open>Records\<close>

definition session_schema_version :: u32 where
  "session_schema_version = 3"

record session_header =
  sh_session_id :: session_id
  sh_version :: u32
  sh_started_at_ms :: u64
  sh_working_dir :: string
  sh_model :: model_ref
  sh_parent_session :: "session_id option"
  sh_branched_from_event :: "event_id option"
  sh_imported_from :: "string option"

record session_message =
  sm_turn_id :: turn_id
  sm_role :: role
  sm_message :: message
  sm_epoch :: u32
  sm_model :: model_ref
  sm_event_id :: event_id
  sm_seq :: "event_seq option"
  sm_external_context :: "external_ref option"

record session_epoch_record =
  se_epoch :: u32
  se_model :: model_ref
  se_reason :: epoch_reason

record session_compaction_record =
  sc_context_epoch :: u32
  sc_level :: context_level
  sc_removed_messages :: u32
  sc_retained_from :: u32
  sc_retained_messages :: u32
  sc_summary_present :: bool
  sc_replaces_from :: "event_seq option"
  sc_replaces_through :: "event_seq option"
  sc_aborted :: bool
  sc_start_event_id :: "event_id option"
  sc_summary_event_id :: "event_id option"

record session_reduction_record =
  sr_event_id :: event_id
  sr_seq :: "event_seq option"
  sr_reason :: reduction_reason
  sr_removed_messages :: u32
  sr_retained_messages :: u32

record session_checkpoint_record =
  sk_checkpoint_id :: checkpoint_id
  sk_capsule_version :: u32
  sk_context_epoch :: u32
  sk_capsule_path :: string
  sk_capsule :: context_capsule

datatype session_record =
  HeaderRec session_header
| MessageRec session_message
| EpochRec session_epoch_record
| CompactionRec session_compaction_record
| CheckpointRec session_checkpoint_record
| ReductionRec session_reduction_record

record session_summary =
  su_session_id :: session_id
  su_started_at_ms :: u64
  su_working_dir :: string
  su_model :: model_ref
  su_messages :: u32
  su_last_model :: "model_ref option"
  su_last_turn_preview :: "string option"
  su_closed :: bool

definition summary_from_header :: "session_header \<Rightarrow> session_summary" where
  "summary_from_header h =
     \<lparr> su_session_id = sh_session_id h, su_started_at_ms = sh_started_at_ms h,
       su_working_dir = sh_working_dir h, su_model = sh_model h, su_messages = 0,
       su_last_model = None, su_last_turn_preview = None, su_closed = False \<rparr>"

section \<open>Errors\<close>

datatype log_error =
  BadVersion u32
| BadSessionId
| ReductionBeforeVersion2
| SummarizedExhausted
| DuplicateSemanticEvent event_id
| ZeroSequence event_id
| NonMonotonicSequence event_id
| InvalidAbortMarker
| InvalidReplacementBounds u32
| NonMonotonicCompaction u32
| ReusedContextEpoch u32
| CheckpointWithoutBarrier u32
| CheckpointClaimsSummary u32
| CheckpointRemovesTooMuch u32
| RetainedExhausted
| WrongRetainedCount u32
| SummaryMissing u32
| RetainsTooMuch u32
| WrongRemovedCount u32
| DuplicateBarrier checkpoint_id
| ReusedBarrierEpoch u32
| LegacyBarrierAfterEpoch
| BarrierWithoutCompletion
| ZeroWidthReduction event_id
| ReductionTooWide event_id
| ReductionOmitsCheckpoint event_id
| ReductionMismatch event_id
| SecondHeader
| SummaryCountExhausted

section \<open>Header and schema\<close>

definition session_id_char :: "char \<Rightarrow> bool" where
  "session_id_char c \<longleftrightarrow>
     (97 \<le> byte c \<and> byte c \<le> 122) \<or> (48 \<le> byte c \<and> byte c \<le> 57) \<or> c = CHR ''-'' \<or> c = CHR ''_''"

definition is_session_id :: "string \<Rightarrow> bool" where
  "is_session_id s \<longleftrightarrow> s \<noteq> [] \<and> length s \<le> 64 \<and> list_all session_id_char s"

definition validate_header :: "session_header \<Rightarrow> log_error + unit" where
  "validate_header h =
     (if sh_version h = 0 \<or> sh_version h > session_schema_version then Inl (BadVersion (sh_version h))
      else if is_session_id (sh_session_id h) then Inr () else Inl BadSessionId)"

fun is_reduction_record :: "session_record \<Rightarrow> bool" where
  "is_reduction_record (ReductionRec _) = True"
| "is_reduction_record _ = False"

definition validate_record_schema :: "session_record list \<Rightarrow> log_error + unit" where
  "validate_record_schema rs =
     (case rs of
        HeaderRec h # _ \<Rightarrow>
          bind_res (validate_header h)
            (\<lambda>_. if sh_version h < 2 \<and> list_ex is_reduction_record rs
                 then Inl ReductionBeforeVersion2 else Inr ())
      | _ \<Rightarrow> Inr ())"

section \<open>Summary\<close>

text \<open>The preview ends in the three bytes of U+2026.\<close>

definition preview_of :: "string \<Rightarrow> nat \<Rightarrow> string option" where
  "preview_of txt max_chars =
     (let trimmed = trim txt
      in if trimmed = [] then None
         else Some (take_chars max_chars trimmed
                @ (if char_count trimmed > max_chars
                   then [CHR 0xE2, CHR 0x80, CHR 0xA6] else [])))"

definition summary_step ::
  "nat \<Rightarrow> session_record \<Rightarrow> u32 \<times> model_ref option \<times> string option
     \<Rightarrow> log_error + u32 \<times> model_ref option \<times> string option" where
  "summary_step preview_chars r s =
     (let (messages, last_model, preview) = s
      in case r of
           MessageRec m \<Rightarrow>
             bind_res (ok_or (checked_add u32_max messages 1) SummaryCountExhausted)
               (\<lambda>n. Inr (n, last_model,
                  if sm_role m = User then preview_of (message_text (sm_message m)) preview_chars
                  else preview))
         | EpochRec e \<Rightarrow> Inr (messages, Some (se_model e), preview)
         | _ \<Rightarrow> Inr s)"

definition summary_report :: "nat \<Rightarrow> bool \<Rightarrow> session_header \<Rightarrow> session_record list \<Rightarrow> log_error + session_summary" where
  "summary_report preview_chars ended h rs =
     bind_res (fold_res (summary_step preview_chars) rs (0, None, None))
       (\<lambda>(messages, last_model, preview).
          Inr ((summary_from_header h)
            \<lparr>su_messages := messages, su_last_model := or_else last_model (Some (sh_model h)),
             su_last_turn_preview := preview, su_closed := ended\<rparr>))"

text \<open>\<open>trace_ends_the_session\<close> over the decoded tail of the trace.\<close>

definition trace_ends_the_session :: "trace_entry list \<Rightarrow> bool" where
  "trace_ends_the_session tail =
     unwrap_or False
       (fold (\<lambda>e latest. case entry_event e of
                SessionStartedEv _ \<Rightarrow> Some False | SessionEndedEv _ \<Rightarrow> Some True | _ \<Rightarrow> latest)
          tail None)"

section \<open>Reconstruction\<close>

definition keep_max :: "event_seq option \<Rightarrow> event_seq \<Rightarrow> event_seq option" where
  "keep_max current candidate =
     (case current of None \<Rightarrow> Some candidate
      | Some e \<Rightarrow> if candidate \<le> e then current else Some candidate)"

record restore_state =
  rs_messages :: "session_message list"
  rs_epochs :: "session_epoch_record list"
  rs_compactions :: "session_compaction_record list"
  rs_reductions :: "session_reduction_record list"
  rs_checkpoint :: "context_capsule option"
  rs_checkpoint_seq :: "event_seq option"
  rs_pre_barrier :: "session_message list option"
  rs_context_epoch :: u32
  rs_summarized :: nat
  rs_last_seq :: "event_seq option"
  rs_last_message_seq :: "event_seq option"
  rs_last_reduction_seq :: "event_seq option"
  rs_last_compaction_epoch :: "u32 option"
  rs_last_context_epoch :: "u32 option"
  rs_last_checkpoint_epoch :: "u32 option"
  rs_checkpoint_ids :: "checkpoint_id list"
  rs_event_ids :: "event_id list"

definition restore_start :: restore_state where
  "restore_start =
     \<lparr> rs_messages = [], rs_epochs = [], rs_compactions = [], rs_reductions = [],
       rs_checkpoint = None, rs_checkpoint_seq = None, rs_pre_barrier = None, rs_context_epoch = 0,
       rs_summarized = 0, rs_last_seq = None, rs_last_message_seq = None,
       rs_last_reduction_seq = None, rs_last_compaction_epoch = None, rs_last_context_epoch = None,
       rs_last_checkpoint_epoch = None, rs_checkpoint_ids = [], rs_event_ids = [] \<rparr>"

definition at_most :: "nat \<Rightarrow> nat option \<Rightarrow> bool" where
  "at_most n bound \<longleftrightarrow> (case bound of None \<Rightarrow> False | Some b \<Rightarrow> n \<le> b)"

text \<open>The sequence checks messages and reductions share.\<close>

definition check_sequence :: "event_id \<Rightarrow> event_seq option \<Rightarrow> restore_state \<Rightarrow> log_error + unit" where
  "check_sequence event_id sq s =
     (case sq of
        None \<Rightarrow> Inr ()
      | Some n \<Rightarrow>
         (if n = 0 then Inl (ZeroSequence event_id)
          else if at_most n (rs_last_message_seq s) \<or> at_most n (rs_last_reduction_seq s)
          then Inl (NonMonotonicSequence event_id) else Inr ()))"

definition add_summarized :: "nat \<Rightarrow> restore_state \<Rightarrow> log_error + restore_state" where
  "add_summarized n s =
     bind_res (ok_or (checked_add usize_max (rs_summarized s) n) SummarizedExhausted)
       (\<lambda>t. Inr (s\<lparr>rs_summarized := t\<rparr>))"

text \<open>A message or the end of the log closes a barrier that has no L3 completion.\<close>

definition close_legacy_barrier :: "restore_state \<Rightarrow> log_error + restore_state" where
  "close_legacy_barrier s =
     (case rs_pre_barrier s of
        None \<Rightarrow> Inr s
      | Some pre \<Rightarrow> add_summarized (length pre) (s\<lparr>rs_pre_barrier := None\<rparr>))"

definition restore_message :: "session_message \<Rightarrow> restore_state \<Rightarrow> log_error + restore_state" where
  "restore_message m s =
     bind_res (close_legacy_barrier s) (\<lambda>s.
       if sm_event_id m \<in> set (rs_event_ids s) then Inl (DuplicateSemanticEvent (sm_event_id m))
       else bind_res (check_sequence (sm_event_id m) (sm_seq m) s) (\<lambda>_.
         let s = s\<lparr>rs_event_ids := sm_event_id m # rs_event_ids s\<rparr>;
             s = (case sm_seq m of
                    None \<Rightarrow> s
                  | Some n \<Rightarrow> s\<lparr>rs_last_message_seq := Some n,
                               rs_last_seq := keep_max (rs_last_seq s) n\<rparr>)
         in Inr (s\<lparr>rs_messages := rs_messages s @ [m]\<rparr>)))"

definition restore_aborted :: "session_compaction_record \<Rightarrow> restore_state \<Rightarrow> log_error + restore_state" where
  "restore_aborted c s =
     (if sc_level c = L3Checkpoint \<or> sc_removed_messages c \<noteq> 0 \<or> sc_summary_present c
         \<or> sc_replaces_from c \<noteq> None \<or> sc_replaces_through c \<noteq> None
      then Inl InvalidAbortMarker
      else Inr (s\<lparr>rs_messages := (case sc_summary_event_id c of
                    None \<Rightarrow> rs_messages s
                  | Some i \<Rightarrow> filter (\<lambda>m. sm_event_id m \<noteq> i) (rs_messages s)),
                 rs_compactions := rs_compactions s @ [c]\<rparr>))"

definition valid_bounds :: "session_compaction_record \<Rightarrow> bool" where
  "valid_bounds c \<longleftrightarrow>
     (case (sc_replaces_from c, sc_replaces_through c) of
        (None, None) \<Rightarrow> True
      | (Some a, Some b) \<Rightarrow> 0 < a \<and> a \<le> b
      | _ \<Rightarrow> False)"

text \<open>The L3 completion decides how much of the window before the barrier survives.\<close>

definition restore_checkpoint_close :: "session_compaction_record \<Rightarrow> restore_state \<Rightarrow> log_error + restore_state" where
  "restore_checkpoint_close c s =
     (if sc_level c \<noteq> L3Checkpoint then Inr s
      else case rs_pre_barrier s of
             None \<Rightarrow> Inl (CheckpointWithoutBarrier (sc_context_epoch c))
           | Some pre \<Rightarrow>
              (if sc_summary_present c then Inl (CheckpointClaimsSummary (sc_context_epoch c))
               else if sc_removed_messages c > length pre
               then Inl (CheckpointRemovesTooMuch (sc_context_epoch c))
               else bind_res (ok_or (checked_add usize_max (length pre - sc_removed_messages c) 1)
                               RetainedExhausted)
                 (\<lambda>expected.
                    if sc_retained_messages c \<noteq> expected
                    then Inl (WrongRetainedCount (sc_context_epoch c))
                    else bind_res (add_summarized (sc_removed_messages c) (s\<lparr>rs_pre_barrier := None\<rparr>))
                      (\<lambda>s. Inr (s\<lparr>rs_messages := drop (sc_removed_messages c) pre\<rparr>)))))"

text \<open>A summary stands in for the messages before the retained tail.\<close>

definition restore_summary :: "session_compaction_record \<Rightarrow> restore_state \<Rightarrow> log_error + restore_state" where
  "restore_summary c s =
     (if \<not> sc_summary_present c then Inr s
      else if rs_messages s = [] then Inl (SummaryMissing (sc_context_epoch c))
      else let summary = last (rs_messages s);
               rest = butlast (rs_messages s);
               available = length rest;
               retained = sc_retained_messages c
           in if retained > available then Inl (RetainsTooMuch (sc_context_epoch c))
              else if sc_removed_messages c \<noteq> available - retained
              then Inl (WrongRemovedCount (sc_context_epoch c))
              else Inr (s\<lparr>rs_messages := summary # drop (available - retained) rest\<rparr>))"

definition restore_compaction :: "session_compaction_record \<Rightarrow> restore_state \<Rightarrow> log_error + restore_state" where
  "restore_compaction c s =
     (let n = sc_context_epoch c
      in if sc_aborted c then restore_aborted c s
         else if \<not> valid_bounds c then Inl (InvalidReplacementBounds n)
         else if n = 0 \<or> at_most n (rs_last_compaction_epoch s) then Inl (NonMonotonicCompaction n)
         else if \<not> (sc_level c = L3Checkpoint \<and> rs_last_checkpoint_epoch s = Some n)
                 \<and> at_most n (rs_last_context_epoch s)
         then Inl (ReusedContextEpoch n)
         else bind_res
           (restore_checkpoint_close c
              (s\<lparr>rs_last_compaction_epoch := Some n,
                 rs_last_context_epoch :=
                   Some (case rs_last_context_epoch s of None \<Rightarrow> n | Some p \<Rightarrow> max p n),
                 rs_context_epoch := max (rs_context_epoch s) n\<rparr>))
           (\<lambda>s. restore_summary c (s\<lparr>rs_compactions := rs_compactions s @ [c]\<rparr>)))"

definition restore_barrier :: "session_checkpoint_record \<Rightarrow> restore_state \<Rightarrow> log_error + restore_state" where
  "restore_barrier b s =
     (let n = sk_context_epoch b
      in if sk_checkpoint_id b \<in> set (rs_checkpoint_ids s) then Inl (DuplicateBarrier (sk_checkpoint_id b))
         else if n > 0 \<and> at_most n (rs_last_context_epoch s) then Inl (ReusedBarrierEpoch n)
         else if n = 0 \<and> rs_last_context_epoch s \<noteq> None then Inl LegacyBarrierAfterEpoch
         else if rs_pre_barrier s \<noteq> None then Inl BarrierWithoutCompletion
         else let s = (if n > 0 then s\<lparr>rs_last_context_epoch := Some n,
                                       rs_last_checkpoint_epoch := Some n\<rparr> else s)
              in Inr (s\<lparr>rs_checkpoint_ids := sk_checkpoint_id b # rs_checkpoint_ids s,
                        rs_pre_barrier := Some (rs_messages s),
                        rs_checkpoint := Some (sk_capsule b),
                        rs_checkpoint_seq := rs_last_seq s,
                        rs_context_epoch := max (rs_context_epoch s) n,
                        rs_messages := []\<rparr>))"

definition restore_reduction :: "session_reduction_record \<Rightarrow> restore_state \<Rightarrow> log_error + restore_state" where
  "restore_reduction r s =
     (let i = sr_event_id r; removed = sr_removed_messages r
      in if removed = 0 then Inl (ZeroWidthReduction i)
         else if i \<in> set (rs_event_ids s) then Inl (DuplicateSemanticEvent i)
         else bind_res (check_sequence i (sr_seq r) s) (\<lambda>_.
           let s = s\<lparr>rs_event_ids := i # rs_event_ids s\<rparr>;
               s = (case sr_seq r of
                      None \<Rightarrow> s
                    | Some n \<Rightarrow> s\<lparr>rs_last_reduction_seq := Some n,
                                 rs_last_seq := keep_max (rs_last_seq s) n\<rparr>)
           in if removed > length (rs_messages s) then Inl (ReductionTooWide i)
              else bind_res
                (if rs_checkpoint s = None then Inr (sr_retained_messages r)
                 else if sr_retained_messages r = 0 then Inl (ReductionOmitsCheckpoint i)
                 else Inr (sr_retained_messages r - 1))
                (\<lambda>projected.
                   if projected \<noteq> length (rs_messages s) - removed then Inl (ReductionMismatch i)
                   else Inr (s\<lparr>rs_reductions := rs_reductions s @ [r],
                             rs_messages := drop removed (rs_messages s)\<rparr>))))"

definition restore_record :: "session_record \<Rightarrow> restore_state \<Rightarrow> log_error + restore_state" where
  "restore_record r s =
     (case r of
        MessageRec m \<Rightarrow> restore_message m s
      | EpochRec e \<Rightarrow> Inr (s\<lparr>rs_epochs := rs_epochs s @ [e]\<rparr>)
      | CompactionRec c \<Rightarrow> restore_compaction c s
      | CheckpointRec b \<Rightarrow> restore_barrier b s
      | ReductionRec d \<Rightarrow> restore_reduction d s
      | HeaderRec _ \<Rightarrow> Inl SecondHeader)"

record restored_session =
  rd_header :: session_header
  rd_messages :: "session_message list"
  rd_checkpoint :: "context_capsule option"
  rd_checkpoint_seq :: "event_seq option"
  rd_epochs :: "session_epoch_record list"
  rd_compactions :: "session_compaction_record list"
  rd_reductions :: "session_reduction_record list"
  rd_context_epoch :: u32
  rd_summarized_messages :: nat
  rd_last_seq :: "event_seq option"
  rd_malformed_records :: nat
  rd_total_records :: nat

definition restore_from_report ::
  "session_header \<Rightarrow> session_record list \<Rightarrow> nat \<Rightarrow> log_error + restored_session" where
  "restore_from_report h items malformed =
     bind_res (fold_res restore_record (drop 1 items) restore_start) (\<lambda>s.
     bind_res (close_legacy_barrier s) (\<lambda>s.
       Inr \<lparr> rd_header = h, rd_messages = rs_messages s, rd_checkpoint = rs_checkpoint s,
             rd_checkpoint_seq = rs_checkpoint_seq s, rd_epochs = rs_epochs s,
             rd_compactions = rs_compactions s, rd_reductions = rs_reductions s,
             rd_context_epoch = rs_context_epoch s, rd_summarized_messages = rs_summarized s,
             rd_last_seq = rs_last_seq s, rd_malformed_records = malformed,
             rd_total_records = length items \<rparr>))"

section \<open>Every logged message is accounted for\<close>

fun is_message_record :: "session_record \<Rightarrow> bool" where
  "is_message_record (MessageRec _) = True"
| "is_message_record _ = False"

fun is_aborted_record :: "session_record \<Rightarrow> bool" where
  "is_aborted_record (CompactionRec c) = sc_aborted c"
| "is_aborted_record _ = False"

definition logged_messages :: "session_record list \<Rightarrow> nat" where
  "logged_messages rs = length (filter is_message_record rs)"

definition aborted_markers :: "session_record list \<Rightarrow> nat" where
  "aborted_markers rs = length (filter is_aborted_record rs)"

text \<open>Messages that left the window through an eviction or through a summary.\<close>

definition evicted_messages :: "restore_state \<Rightarrow> nat" where
  "evicted_messages s = (\<Sum>r \<leftarrow> rs_reductions s. sr_removed_messages r)"

definition folded_messages :: "restore_state \<Rightarrow> nat" where
  "folded_messages s = (\<Sum>c \<leftarrow> rs_compactions s. if sc_summary_present c then sc_removed_messages c else 0)"

definition window_size :: "restore_state \<Rightarrow> nat" where
  "window_size s = length (rs_messages s) + (case rs_pre_barrier s of None \<Rightarrow> 0 | Some p \<Rightarrow> length p)"

definition accounted :: "restore_state \<Rightarrow> nat" where
  "accounted s = window_size s + rs_summarized s + evicted_messages s + folded_messages s"

definition window_ok :: "restore_state \<Rightarrow> bool" where
  "window_ok s \<longleftrightarrow>
     (let window = rs_messages s @ (case rs_pre_barrier s of None \<Rightarrow> [] | Some p \<Rightarrow> p)
      in distinct (map sm_event_id window) \<and> (\<forall>m \<in> set window. sm_event_id m \<in> set (rs_event_ids s)))
     \<and> (rs_pre_barrier s \<noteq> None \<longrightarrow> rs_messages s = [])"

lemmas account_defs = accounted_def window_size_def evicted_messages_def folded_messages_def

lemma close_barrier_accounted:
  assumes "close_legacy_barrier s = Inr t" "window_ok s"
  shows "accounted t = accounted s \<and> window_ok t \<and> rs_pre_barrier t = None
    \<and> rs_messages t = rs_messages s \<and> rs_event_ids t = rs_event_ids s"
  using assms
  by (auto simp: close_legacy_barrier_def add_summarized_def account_defs window_ok_def
      split: option.splits)

lemma restore_message_accounted:
  assumes "restore_message m s = Inr t" "window_ok s"
  shows "accounted t = accounted s + 1 \<and> window_ok t"
proof -
  obtain u where u: "close_legacy_barrier s = Inr u"
    using assms(1) by (auto simp: restore_message_def)
  note c = close_barrier_accounted [OF u assms(2)]
  have "accounted t = accounted u + 1 \<and> window_ok t"
  proof (cases "sm_seq m")
    case None
    then show ?thesis
      using assms(1) u c
      by (auto simp: restore_message_def Let_def account_defs window_ok_def split: if_splits)
  next
    case (Some a)
    then show ?thesis
      using assms(1) u c
      by (auto simp: restore_message_def Let_def account_defs window_ok_def split: if_splits)
  qed
  then show ?thesis
    using c by simp
qed

lemma length_filter_id:
  "distinct (map f xs) \<Longrightarrow> length xs \<le> Suc (length (filter (\<lambda>x. f x \<noteq> i) xs))"
proof (induction xs)
  case (Cons x xs)
  have "filter (\<lambda>y. f y \<noteq> i) xs = xs" if "f x = i"
    using Cons.prems that by (auto simp: filter_id_conv image_iff)
  then show ?case
    using Cons by auto
qed simp

lemma distinct_map_drop:
  "distinct (map f xs) \<Longrightarrow> distinct (map f (drop n xs))"
  by (simp add: drop_map [symmetric])

text \<open>Dropping from the window keeps it well formed.\<close>

lemma window_ok_sub:
  assumes "window_ok s" "distinct (map sm_event_id (rs_messages t))"
    and "set (rs_messages t) \<subseteq> set (rs_messages s)"
    and "rs_pre_barrier t = rs_pre_barrier s" "set (rs_event_ids s) \<subseteq> set (rs_event_ids t)"
  shows "window_ok t"
proof (cases "rs_pre_barrier s")
  case None
  then show ?thesis
    using assms by (fastforce simp: window_ok_def Let_def)
next
  case (Some p)
  then have "rs_messages t = []"
    using assms(1,3) by (simp add: window_ok_def)
  then show ?thesis
    using assms Some by (fastforce simp: window_ok_def Let_def)
qed

lemma window_distinct:
  "window_ok s \<Longrightarrow> distinct (map sm_event_id (rs_messages s))"
  by (simp add: window_ok_def Let_def)

lemma restore_aborted_accounted:
  assumes "restore_aborted c s = Inr t" "window_ok s"
  shows "accounted t \<le> accounted s \<and> accounted s \<le> accounted t + 1 \<and> window_ok t"
proof -
  define ms where "ms = (case sc_summary_event_id c of None \<Rightarrow> rs_messages s
    | Some i \<Rightarrow> filter (\<lambda>m. sm_event_id m \<noteq> i) (rs_messages s))"
  have t: "t = s\<lparr>rs_messages := ms, rs_compactions := rs_compactions s @ [c]\<rparr>"
    and no: "\<not> sc_summary_present c"
    using assms(1) by (auto simp: restore_aborted_def ms_def split: if_splits)
  have "length ms \<le> length (rs_messages s)" "length (rs_messages s) \<le> Suc (length ms)"
    "distinct (map sm_event_id ms)" "set ms \<subseteq> set (rs_messages s)"
    using window_distinct [OF assms(2)] length_filter_id [of sm_event_id "rs_messages s"]
    by (auto simp: ms_def distinct_map_filter split: option.splits)
  moreover have "window_ok t"
    by (rule window_ok_sub [OF assms(2)]) (use calculation t in auto)
  ultimately show ?thesis
    using no by (simp add: t account_defs)
qed

lemma restore_checkpoint_close_accounted:
  assumes "restore_checkpoint_close c s = Inr t" "window_ok s"
  shows "accounted t = accounted s \<and> window_ok t \<and> rs_compactions t = rs_compactions s
    \<and> (sc_level c = L3Checkpoint \<longrightarrow> \<not> sc_summary_present c)"
proof (cases "sc_level c = L3Checkpoint")
  case True
  then obtain pre where pre: "rs_pre_barrier s = Some pre"
    and le: "sc_removed_messages c \<le> length pre" and no: "\<not> sc_summary_present c"
    and t: "t = s\<lparr>rs_pre_barrier := None, rs_summarized := rs_summarized s + sc_removed_messages c,
      rs_messages := drop (sc_removed_messages c) pre\<rparr>"
    using assms(1)
    by (auto simp: restore_checkpoint_close_def add_summarized_def split: if_splits option.splits)
  have "rs_messages s = []" "distinct (map sm_event_id pre)"
    "\<forall>m \<in> set pre. sm_event_id m \<in> set (rs_event_ids s)"
    using assms(2) pre by (auto simp: window_ok_def Let_def)
  then show ?thesis
    using pre le no
    by (auto simp: t account_defs window_ok_def Let_def distinct_map_drop dest: in_set_dropD)
qed (use assms in \<open>auto simp: restore_checkpoint_close_def\<close>)

lemma restore_summary_accounted:
  assumes "restore_summary c (s\<lparr>rs_compactions := rs_compactions s @ [c]\<rparr>) = Inr t" "window_ok s"
  shows "accounted t = accounted s \<and> window_ok t"
proof (cases "sc_summary_present c")
  case True
  define rest where "rest = butlast (rs_messages s)"
  define k where "k = length rest - sc_retained_messages c"
  have ne: "rs_messages s \<noteq> []" and keep: "sc_retained_messages c \<le> length rest"
    and removed: "sc_removed_messages c = k"
    and t: "t = s\<lparr>rs_compactions := rs_compactions s @ [c],
      rs_messages := List.last (rs_messages s) # drop k rest\<rparr>"
    using assms(1) True by (auto simp: restore_summary_def Let_def rest_def k_def split: if_splits)
  have split: "rs_messages s = rest @ [List.last (rs_messages s)]"
    using ne by (simp add: rest_def)
  have pre: "rs_pre_barrier s = None"
    using assms(2) ne by (auto simp: window_ok_def)
  have "distinct (map sm_event_id (rest @ [List.last (rs_messages s)]))"
    using window_distinct [OF assms(2)] split by simp
  then have d: "distinct (map sm_event_id (rs_messages t))"
    by (auto simp: t distinct_map_drop dest: in_set_dropD)
  have sub: "set (rs_messages t) \<subseteq> set (rs_messages s)"
    using in_set_dropD [of _ k rest] ne by (auto simp: t rest_def dest: in_set_butlastD)
  have "window_ok t"
    by (rule window_ok_sub [OF assms(2) d sub]) (simp_all add: t)
  moreover have "length (rs_messages s) = Suc (length rest)"
    using ne by (simp add: rest_def)
  then have "accounted t = accounted s"
    using keep removed True by (simp add: t account_defs k_def pre)
  ultimately show ?thesis
    by simp
next
  case False
  then have "t = s\<lparr>rs_compactions := rs_compactions s @ [c]\<rparr>"
    using assms(1) by (simp add: restore_summary_def)
  then show ?thesis
    using False assms(2) by (simp add: account_defs window_ok_def)
qed

lemma restore_compaction_accounted:
  assumes "restore_compaction c s = Inr t" "window_ok s"
  shows "accounted t \<le> accounted s
    \<and> accounted s \<le> accounted t + (if sc_aborted c then 1 else 0) \<and> window_ok t"
proof (cases "sc_aborted c")
  case True
  then show ?thesis
    using assms restore_aborted_accounted [of c s t] by (simp add: restore_compaction_def Let_def)
next
  case False
  define s' where "s' = s\<lparr>rs_last_compaction_epoch := Some (sc_context_epoch c),
    rs_last_context_epoch := Some (case rs_last_context_epoch s of None \<Rightarrow> sc_context_epoch c
      | Some p \<Rightarrow> max p (sc_context_epoch c)),
    rs_context_epoch := max (rs_context_epoch s) (sc_context_epoch c)\<rparr>"
  have s': "accounted s' = accounted s" "window_ok s'"
    using assms(2) by (simp_all add: s'_def account_defs window_ok_def)
  obtain u where u: "restore_checkpoint_close c s' = Inr u"
    and t: "restore_summary c (u\<lparr>rs_compactions := rs_compactions u @ [c]\<rparr>) = Inr t"
    using assms(1) False unfolding restore_compaction_def Let_def s'_def [symmetric]
    by (auto split: if_splits)
  show ?thesis
    using restore_summary_accounted [OF t] restore_checkpoint_close_accounted [OF u s'(2)] s'(1)
    by simp
qed

lemma restore_reduction_accounted:
  assumes "restore_reduction r s = Inr t" "window_ok s"
  shows "accounted t = accounted s \<and> window_ok t"
proof -
  have t: "rs_messages t = drop (sr_removed_messages r) (rs_messages s)"
    "rs_pre_barrier t = rs_pre_barrier s" "rs_event_ids t = sr_event_id r # rs_event_ids s"
    "rs_reductions t = rs_reductions s @ [r]" "rs_compactions t = rs_compactions s"
    "rs_summarized t = rs_summarized s"
    and le: "sr_removed_messages r \<le> length (rs_messages s)"
    using assms(1)
    by (auto simp: restore_reduction_def Let_def split: if_splits option.splits)
  have "window_ok t"
    by (rule window_ok_sub [OF assms(2)])
      (use window_distinct [OF assms(2)] in \<open>auto simp: t distinct_map_drop dest: in_set_dropD\<close>)
  then show ?thesis
    using le by (simp add: account_defs t)
qed

lemma restore_record_accounted:
  assumes "restore_record r s = Inr t" "window_ok s"
  shows "accounted t \<le> accounted s + logged_messages [r]
    \<and> accounted s + logged_messages [r] \<le> accounted t + aborted_markers [r] \<and> window_ok t"
proof (cases r)
  case (MessageRec m)
  then show ?thesis
    using restore_message_accounted [of m s t] assms
    by (simp add: restore_record_def logged_messages_def)
next
  case (CompactionRec c)
  then show ?thesis
    using restore_compaction_accounted [of c s t] assms
    by (auto simp: restore_record_def logged_messages_def aborted_markers_def split: if_splits)
next
  case (ReductionRec d)
  then show ?thesis
    using restore_reduction_accounted [of d s t] assms
    by (simp add: restore_record_def logged_messages_def)
next
  case (CheckpointRec b)
  then show ?thesis
    using assms
    by (auto simp: restore_record_def restore_barrier_def Let_def logged_messages_def account_defs
        window_ok_def split: if_splits)
next
  case (EpochRec e)
  then have "t = s\<lparr>rs_epochs := rs_epochs s @ [e]\<rparr>"
    using assms(1) by (simp add: restore_record_def)
  then show ?thesis
    using EpochRec assms(2) by (simp add: logged_messages_def account_defs window_ok_def)
qed (use assms in \<open>simp add: restore_record_def\<close>)

lemma log_count_append [simp]:
  "logged_messages (xs @ ys) = logged_messages xs + logged_messages ys"
  "aborted_markers (xs @ ys) = aborted_markers xs + aborted_markers ys"
  by (simp_all add: logged_messages_def aborted_markers_def)

lemma restore_fold_accounted:
  "fold_res restore_record rs restore_start = Inr s \<Longrightarrow>
     accounted s \<le> logged_messages rs \<and> logged_messages rs \<le> accounted s + aborted_markers rs
     \<and> window_ok s"
proof (induction rs arbitrary: s rule: rev_induct)
  case Nil
  then show ?case
    by (auto simp: restore_start_def account_defs window_ok_def logged_messages_def)
next
  case (snoc r rs)
  then obtain t where t: "fold_res restore_record rs restore_start = Inr t" "restore_record r t = Inr s"
    by (auto simp: fold_res_append)
  then show ?case
    using snoc.IH [OF t(1)] restore_record_accounted [OF t(2)] by auto
qed

section \<open>A sample log\<close>

definition sample_log_model :: model_ref where
  "sample_log_model = \<lparr> mr_provider = ''local'', mr_model = ''model'' \<rparr>"

definition sample_header :: session_header where
  "sample_header =
     \<lparr> sh_session_id = ''session'', sh_version = 3, sh_started_at_ms = 1, sh_working_dir = ''/'',
       sh_model = sample_log_model, sh_parent_session = None, sh_branched_from_event = None,
       sh_imported_from = None \<rparr>"

definition sample_message :: "event_id \<Rightarrow> event_seq \<Rightarrow> session_message" where
  "sample_message i n =
     \<lparr> sm_turn_id = ''turn'', sm_role = User, sm_message = user_message i, sm_epoch = 0,
       sm_model = sample_log_model, sm_event_id = i, sm_seq = Some n, sm_external_context = None \<rparr>"

definition sample_summary_close :: session_compaction_record where
  "sample_summary_close =
     \<lparr> sc_context_epoch = 1, sc_level = L1Ordinary, sc_removed_messages = 2, sc_retained_from = 0,
       sc_retained_messages = 1, sc_summary_present = True, sc_replaces_from = Some 1,
       sc_replaces_through = Some 2, sc_aborted = False, sc_start_event_id = None,
       sc_summary_event_id = None \<rparr>"

definition sample_log :: "session_record list" where
  "sample_log =
     [HeaderRec sample_header, MessageRec (sample_message ''a'' 1), MessageRec (sample_message ''b'' 2),
      MessageRec (sample_message ''c'' 3), MessageRec (sample_message ''s'' 6),
      CompactionRec sample_summary_close]"

lemma sample_log_restores:
  "case restore_from_report sample_header sample_log 0 of
     Inl _ \<Rightarrow> False
   | Inr d \<Rightarrow> rd_messages d = [sample_message ''s'' 6, sample_message ''c'' 3]"
  by code_simp


end
