(* ===== verification/Projection_Wal.thy ===== *)
theory Projection_Wal
  imports Session_Log
begin

text \<open>
  \<open>crates/rupi-store/src/projection.rs\<close>: the write-ahead intents that tie a canonical trace event
  to its semantic record. The log is the list of its decoded lines; \<open>read_pending\<close> replays it.
  The byte bounds of lines and of the file need the serialized form and are not modelled.
\<close>

section \<open>Entries\<close>

datatype wal_event_kind = WalCompactionStarted | WalRequestCompleted bool | WalOther

datatype message_recovery = InlineRecovery message | BlobRecovery blob_ref

record wal_prepare =
  wp_event_id :: event_id
  wp_turn_id :: "turn_id option"
  wp_model_epoch :: "u32 option"
  wp_kind :: wal_event_kind
  wp_recovery :: "message_recovery option"

fun wal_kind_of :: "agent_event \<Rightarrow> wal_event_kind" where
  "wal_kind_of (CompactionStartedEv _) = WalCompactionStarted"
| "wal_kind_of (ModelRequestCompletedEv c) = WalRequestCompleted (mrc_finish_reason c \<noteq> None)"
| "wal_kind_of _ = WalOther"

definition wal_prepare_of :: "event_envelope \<Rightarrow> wal_prepare" where
  "wal_prepare_of env =
     \<lparr> wp_event_id = em_event_id (ee_meta env), wp_turn_id = em_turn_id (ee_meta env),
       wp_model_epoch = em_model_epoch (ee_meta env), wp_kind = wal_kind_of (ee_event env),
       wp_recovery = None \<rparr>"

datatype wal_entry =
  PrepareEntry event_id wal_prepare
| RecoveryEntry event_id message_recovery
| ProjectionEntry event_id session_record
| CommitEntry event_id

record pending_projection =
  pp_tx_id :: event_id
  pp_envelope :: wal_prepare
  pp_record :: "session_record option"

datatype wal_error =
  WalTooManyEntries
| WalReusedTransaction event_id
| WalPrepareMismatch event_id
| WalDuplicateRecovery event_id
| WalRecoveryWithoutPrepare event_id
| WalHeaderProjection
| WalDuplicateProjection event_id
| WalProjectionWithoutPrepare
| WalCommitWithoutPrepare
| WalNoTransaction event_id
| WalRecoveryPresent event_id

definition max_wal_entries :: usize where
  "max_wal_entries = 16 * 1024"

section \<open>Replay\<close>

type_synonym wal_state = "(event_id, pending_projection) btree \<times> event_id list"

fun is_header_record :: "session_record \<Rightarrow> bool" where
  "is_header_record (HeaderRec _) = True"
| "is_header_record _ = False"

fun wal_step :: "wal_entry \<Rightarrow> wal_state \<Rightarrow> wal_error + wal_state" where
  "wal_step (PrepareEntry tx p) (pending, seen) =
     (if tx \<in> set seen \<or> map_of pending tx \<noteq> None then Inl (WalReusedTransaction tx)
      else if wp_event_id p \<noteq> tx then Inl (WalPrepareMismatch tx)
      else Inr (bt_insert tx \<lparr> pp_tx_id = tx, pp_envelope = p, pp_record = None \<rparr> pending, tx # seen))"
| "wal_step (RecoveryEntry tx r) (pending, seen) =
     (case map_of pending tx of
        None \<Rightarrow> Inl (WalRecoveryWithoutPrepare tx)
      | Some intent \<Rightarrow>
         (if wp_recovery (pp_envelope intent) \<noteq> None then Inl (WalDuplicateRecovery tx)
          else Inr (bt_insert tx
                 (intent\<lparr>pp_envelope := (pp_envelope intent)\<lparr>wp_recovery := Some r\<rparr>\<rparr>) pending, seen)))"
| "wal_step (ProjectionEntry tx r) (pending, seen) =
     (if is_header_record r then Inl WalHeaderProjection
      else case map_of pending tx of
             None \<Rightarrow> Inl WalProjectionWithoutPrepare
           | Some intent \<Rightarrow>
              (if pp_record intent \<noteq> None then Inl (WalDuplicateProjection tx)
               else Inr (bt_insert tx (intent\<lparr>pp_record := Some r\<rparr>) pending, seen)))"
| "wal_step (CommitEntry tx) (pending, seen) =
     (if map_of pending tx = None then Inl WalCommitWithoutPrepare
      else Inr (bt_remove tx pending, seen))"

definition read_pending :: "wal_entry list \<Rightarrow> wal_error + pending_projection list" where
  "read_pending entries =
     (if length entries > max_wal_entries then Inl WalTooManyEntries
      else bind_res (fold_res wal_step entries ([], [])) (\<lambda>(pending, _). Inr (map snd pending)))"

definition find_pending :: "event_id \<Rightarrow> pending_projection list \<Rightarrow> pending_projection option" where
  "find_pending tx pending = List.find (\<lambda>i. pp_tx_id i = tx) pending"

section \<open>Well-formed logs\<close>

text \<open>Pending intents sit under their own transaction id and name the event of that id.\<close>

definition wal_ok :: "wal_state \<Rightarrow> bool" where
  "wal_ok s \<longleftrightarrow> bt_ok (fst s) \<and> fst ` set (fst s) \<subseteq> set (snd s)
     \<and> (\<forall>(k, i) \<in> set (fst s). pp_tx_id i = k \<and> wp_event_id (pp_envelope i) = k
          \<and> (\<forall>r. pp_record i = Some r \<longrightarrow> \<not> is_header_record r))"

lemma set_bt_insert:
  "bt_ok m \<Longrightarrow> set (bt_insert k v m) = insert (k, v) {e \<in> set m. fst e \<noteq> k}"
proof (induction m)
  case Nil
  show ?case by simp
next
  case (Cons e m)
  obtain j u where e: "e = (j, u)" by fastforce
  show ?case
    using Cons by (auto simp: e bt_ok_Cons)
qed

lemma wal_step_ok:
  assumes "wal_step e s = Inr t" "wal_ok s"
  shows "wal_ok t"
proof (cases s)
  case (Pair pending seen)
  have bt: "bt_ok pending" and sub: "fst ` set pending \<subseteq> set seen"
    using assms(2) by (auto simp: wal_ok_def Pair)
  show ?thesis
  proof (cases e)
    case (PrepareEntry tx p)
    then show ?thesis
      using assms bt sub
      by (fastforce simp: wal_ok_def Pair set_bt_insert bt_ok_insert fst_bt_insert split: if_splits)
  next
    case (RecoveryEntry tx r)
    then obtain i where i: "map_of pending tx = Some i"
      and t: "t = (bt_insert tx (i\<lparr>pp_envelope := (pp_envelope i)\<lparr>wp_recovery := Some r\<rparr>\<rparr>) pending, seen)"
      using assms(1) by (auto simp: Pair split: option.splits if_splits)
    have "(tx, i) \<in> set pending"
      using i by (rule map_of_SomeD)
    then show ?thesis
      using assms(2) bt sub
      by (fastforce simp: t wal_ok_def Pair set_bt_insert bt_ok_insert fst_bt_insert)
  next
    case (ProjectionEntry tx r)
    then obtain i where i: "map_of pending tx = Some i" and r: "\<not> is_header_record r"
      and t: "t = (bt_insert tx (i\<lparr>pp_record := Some r\<rparr>) pending, seen)"
      using assms(1) by (auto simp: Pair split: option.splits if_splits)
    have "(tx, i) \<in> set pending"
      using i by (rule map_of_SomeD)
    then show ?thesis
      using assms(2) bt sub r
      by (fastforce simp: t wal_ok_def Pair set_bt_insert bt_ok_insert fst_bt_insert)
  next
    case (CommitEntry tx)
    then have t: "t = (bt_remove tx pending, seen)"
      using assms(1) by (auto simp: Pair split: if_splits)
    then show ?thesis
      using assms(2) bt sub by (auto simp: wal_ok_def Pair bt_ok_remove) (auto simp: bt_remove_def)
  qed
qed

lemma wal_fold_ok:
  "fold_res wal_step entries ([], []) = Inr s \<Longrightarrow> wal_ok s"
  by (erule fold_res_invariant) (auto intro: wal_step_ok simp: wal_ok_def [of "([], [])"])

end
