(* ===== verification/Session_Store.thy ===== *)
theory Session_Store
  imports Projection_Wal Compaction_Trace
begin

text \<open>
  \<open>crates/rupi-store/src/store.rs\<close>: the writes of an open session. An operation is the list of
  durable writes it issues in order, with its result; a crash is a prefix of that list. Redaction,
  serialization, field externalization and the size bounds of lines are parameters
  (\<open>store_env\<close>), because they rest on the JSON form of the records. The two delta events are
  buffered by the journal and may be lost by a crash; they carry no projection and are treated
  as written here.
\<close>

section \<open>Durable state and operations on it\<close>

record durable =
  du_trace :: "trace_entry list"
  du_records :: "session_record list"
  du_wal :: "wal_entry list"
  du_blobs :: blob_fs

datatype disk_write =
  TraceAppend trace_entry
| LogAppend session_record
| WalAppend wal_entry
| WalClear
| BlobWrite "string \<times> string" "char list"
| BlobErase "string \<times> string"

fun apply_write :: "disk_write \<Rightarrow> durable \<Rightarrow> durable" where
  "apply_write (TraceAppend e) d = d\<lparr>du_trace := du_trace d @ [e]\<rparr>"
| "apply_write (LogAppend r) d = d\<lparr>du_records := du_records d @ [r]\<rparr>"
| "apply_write (WalAppend e) d = d\<lparr>du_wal := du_wal d @ [e]\<rparr>"
| "apply_write WalClear d = d\<lparr>du_wal := []\<rparr>"
| "apply_write (BlobWrite p b) d = d\<lparr>du_blobs := (du_blobs d)(p \<mapsto> b)\<rparr>"
| "apply_write (BlobErase p) d = d\<lparr>du_blobs := (du_blobs d)(p := None)\<rparr>"

definition apply_writes :: "disk_write list \<Rightarrow> durable \<Rightarrow> durable" where
  "apply_writes ws d = fold apply_write ws d"

datatype store_error =
  WalFailed wal_error
| BlobFailed blob_error
| CompactionFailed compaction_error
| CheckpointFailed checkpoint_error
| RestoreFailed log_error
| SequenceExhausted
| LineTooLong
| RecordTooLong
| RecordCountExhausted
| WalLineTooLong
| ProjectionTooLong event_id
| MissingTurn
| MissingEpoch
| MissingModel
| MissingSequence event_id
| HeaderAgain
| RecoveryInvalid
| EventChangedType event_id
| ManualRecovery event_id
| NoRequestBoundary
| EpochMissing u32
| EpochAmbiguous u32
| SummaryMissingFor u32
| SummaryAmbiguousFor u32
| SummaryUnprojected u32
| ProjectionWithoutEvent event_id
| IncompleteLifecycle
| NoBarrier checkpoint_id
| NotABarrier
| PendingTransactions
| CapsuleFailed checkpoint_id
| CapsuleTooLarge
| NoPreparedCheckpoint
| CountTooLarge
| EpochExhausted
| ToolPanicked panic
| CannotRebudget u64

type_synonym 'a io = "durable \<Rightarrow> disk_write list \<times> (store_error + 'a)"

definition io_return :: "'a \<Rightarrow> 'a io" where
  "io_return a d = ([], Inr a)"

definition io_fail :: "store_error \<Rightarrow> 'a io" where
  "io_fail e d = ([], Inl e)"

definition io_bind :: "'a io \<Rightarrow> ('a \<Rightarrow> 'b io) \<Rightarrow> 'b io" where
  "io_bind m f d =
     (case m d of
        (ws, Inl e) \<Rightarrow> (ws, Inl e)
      | (ws, Inr a) \<Rightarrow> (let (vs, r) = f a (apply_writes ws d) in (ws @ vs, r)))"

definition io_get :: "durable io" where
  "io_get d = ([], Inr d)"

definition io_write :: "disk_write \<Rightarrow> unit io" where
  "io_write w d = ([w], Inr ())"

fun io_lift :: "('e \<Rightarrow> store_error) \<Rightarrow> 'e + 'a \<Rightarrow> 'a io" where
  "io_lift f (Inl e) = io_fail (f e)"
| "io_lift f (Inr a) = io_return a"

text \<open>Runs the handler on an error, whose own failure is ignored, and passes the error on.\<close>

definition io_on_error :: "'a io \<Rightarrow> unit io \<Rightarrow> 'a io" where
  "io_on_error m h d =
     (case m d of
        (ws, Inl e) \<Rightarrow> (ws @ fst (h (apply_writes ws d)), Inl e)
      | r \<Rightarrow> r)"

fun io_for :: "'a list \<Rightarrow> ('a \<Rightarrow> unit io) \<Rightarrow> unit io" where
  "io_for [] f = io_return ()"
| "io_for (x # xs) f = io_bind (f x) (\<lambda>_. io_for xs f)"

text \<open>The state after a completed operation, and every state a crash can leave behind.\<close>

definition run_io :: "'a io \<Rightarrow> durable \<Rightarrow> durable" where
  "run_io m d = apply_writes (fst (m d)) d"

definition crash_states :: "'a io \<Rightarrow> durable \<Rightarrow> durable set" where
  "crash_states m d = {apply_writes (take k (fst (m d))) d | k. k \<le> length (fst (m d))}"

section \<open>The environment\<close>

record store_env =
  sv_session_id :: session_id
  sv_inline_threshold :: u64
  sv_codec :: codec
  sv_compression :: blob_compression
  sv_redact_message :: "message \<Rightarrow> message"
  sv_redact_record :: "session_record \<Rightarrow> session_record"
  sv_encode_message :: "message \<Rightarrow> char list"
  sv_decode_message :: "char list \<Rightarrow> message option"
  sv_line :: "trace_entry \<Rightarrow> trace_entry option"
  sv_record_fits :: "session_record \<Rightarrow> bool"
  sv_wal_fits :: "wal_entry \<Rightarrow> bool"
  sv_rehydrate :: "trace_entry \<Rightarrow> agent_event"
  sv_read_capsule :: "checkpoint_id \<Rightarrow> context_capsule option"
  sv_store_capsule :: "context_capsule \<Rightarrow> context_capsule option"
  sv_redact_payload :: "char list \<Rightarrow> char list"
  sv_encode_messages :: "message list \<Rightarrow> char list"
  sv_mint :: "nat \<Rightarrow> minted"

section \<open>The intent log\<close>

fun wal_redact_recovery :: "store_env \<Rightarrow> message_recovery \<Rightarrow> message_recovery" where
  "wal_redact_recovery env (InlineRecovery m) = InlineRecovery (sv_redact_message env m)"
| "wal_redact_recovery env (BlobRecovery b) = BlobRecovery b"

fun wal_redact :: "store_env \<Rightarrow> wal_entry \<Rightarrow> wal_entry" where
  "wal_redact env (PrepareEntry tx p) =
     PrepareEntry tx (p\<lparr>wp_recovery := map_option (wal_redact_recovery env) (wp_recovery p)\<rparr>)"
| "wal_redact env (RecoveryEntry tx r) = RecoveryEntry tx (wal_redact_recovery env r)"
| "wal_redact env (ProjectionEntry tx r) = ProjectionEntry tx (sv_redact_record env r)"
| "wal_redact env (CommitEntry tx) = CommitEntry tx"

definition wal_append :: "store_env \<Rightarrow> wal_entry \<Rightarrow> unit io" where
  "wal_append env e =
     (if sv_wal_fits env (wal_redact env e) then io_write (WalAppend (wal_redact env e))
      else io_fail WalLineTooLong)"

definition wal_pending :: "pending_projection list io" where
  "wal_pending d = io_lift WalFailed (read_pending (du_wal d)) d"

definition wal_prepare_with_recovery ::
  "store_env \<Rightarrow> event_envelope \<Rightarrow> message_recovery option \<Rightarrow> event_id io" where
  "wal_prepare_with_recovery env envelope recovery =
     (let tx = em_event_id (ee_meta envelope)
      in io_bind (wal_append env (PrepareEntry tx ((wal_prepare_of envelope)\<lparr>wp_recovery := recovery\<rparr>)))
           (\<lambda>_. io_return tx))"

definition wal_set_recovery :: "store_env \<Rightarrow> event_id \<Rightarrow> message_recovery \<Rightarrow> unit io" where
  "wal_set_recovery env tx r =
     io_bind wal_pending (\<lambda>pending.
       case find_pending tx pending of
         None \<Rightarrow> io_fail (WalFailed (WalNoTransaction tx))
       | Some intent \<Rightarrow>
          (if wp_recovery (pp_envelope intent) \<noteq> None then io_fail (WalFailed (WalRecoveryPresent tx))
           else wal_append env (RecoveryEntry tx r)))"

definition wal_set_projection :: "store_env \<Rightarrow> event_id \<Rightarrow> session_record \<Rightarrow> unit io" where
  "wal_set_projection env tx r = wal_append env (ProjectionEntry tx r)"

text \<open>A committed log without pending intents is cleared.\<close>

definition wal_commit :: "store_env \<Rightarrow> event_id \<Rightarrow> unit io" where
  "wal_commit env tx =
     io_bind (wal_append env (CommitEntry tx)) (\<lambda>_.
     io_bind wal_pending (\<lambda>pending.
       if pending = [] then io_write WalClear else io_return ()))"

section \<open>The journal and the semantic log\<close>

definition journal_last_seq :: "trace_entry list \<Rightarrow> event_seq option" where
  "journal_last_seq trace = find_map entry_seq (rev trace)"

definition checked_next_seq :: "trace_entry list \<Rightarrow> store_error + event_seq" where
  "checked_next_seq trace =
     (case journal_last_seq trace of
        None \<Rightarrow> Inr 1
      | Some l \<Rightarrow> ok_or (checked_add u64_max l 1) SequenceExhausted)"

definition next_seq :: "trace_entry list \<Rightarrow> event_seq" where
  "next_seq trace = (case checked_next_seq trace of Inl _ \<Rightarrow> u64_max | Inr s \<Rightarrow> s)"

definition with_seq :: "event_seq \<Rightarrow> event_envelope \<Rightarrow> event_envelope" where
  "with_seq s env = env\<lparr>ee_meta := (ee_meta env)\<lparr>em_seq := Some s\<rparr>\<rparr>"

definition journal_append :: "store_env \<Rightarrow> event_envelope \<Rightarrow> event_seq io" where
  "journal_append env envelope =
     io_bind io_get (\<lambda>d.
     io_bind (io_lift id (checked_next_seq (du_trace d))) (\<lambda>s.
       case sv_line env (plain_entry (with_seq s envelope)) of
         None \<Rightarrow> io_fail LineTooLong
       | Some line \<Rightarrow> io_bind (io_write (TraceAppend line)) (\<lambda>_. io_return s)))"

text \<open>The header is the first record of the log, so its count is one above the list.\<close>

definition log_append :: "store_env \<Rightarrow> session_record \<Rightarrow> unit io" where
  "log_append env r =
     (if is_header_record r then io_fail HeaderAgain
      else if \<not> sv_record_fits env (sv_redact_record env r) then io_fail RecordTooLong
      else io_bind io_get (\<lambda>d.
        if checked_add usize_max (length (du_records d) + 1) 1 = None then io_fail RecordCountExhausted
        else io_write (LogAppend (sv_redact_record env r))))"

section \<open>Emitting\<close>

definition session_emit :: "store_env \<Rightarrow> event_envelope \<Rightarrow> event_envelope io" where
  "session_emit env envelope =
     io_bind (journal_append env envelope) (\<lambda>s. io_return (with_seq s envelope))"

fun stamp_projection_seq :: "session_record \<Rightarrow> event_seq \<Rightarrow> session_record" where
  "stamp_projection_seq (ReductionRec r) s = ReductionRec (r\<lparr>sr_seq := Some s\<rparr>)"
| "stamp_projection_seq r s = r"

definition validate_projection_size :: "store_env \<Rightarrow> event_id \<Rightarrow> session_record \<Rightarrow> unit io" where
  "validate_projection_size env tx r =
     (if sv_wal_fits env (wal_redact env (ProjectionEntry tx r)) then io_return ()
      else io_fail (ProjectionTooLong tx))"

definition validate_record_size :: "store_env \<Rightarrow> session_record \<Rightarrow> unit io" where
  "validate_record_size env r =
     (if sv_record_fits env (sv_redact_record env r) then io_return () else io_fail RecordTooLong)"

definition emit_transaction ::
  "store_env \<Rightarrow> event_envelope \<Rightarrow> session_record option \<Rightarrow> bool \<Rightarrow> event_envelope io" where
  "emit_transaction env envelope projection hold =
     io_bind
       (case projection of
          None \<Rightarrow> io_return ()
        | Some r \<Rightarrow> io_bind (validate_projection_size env (em_event_id (ee_meta envelope)) r)
                     (\<lambda>_. validate_record_size env r)) (\<lambda>_.
     io_bind (wal_prepare_with_recovery env envelope None) (\<lambda>tx.
     io_bind (journal_append env envelope) (\<lambda>s.
     io_bind
       (case projection of
          Some r \<Rightarrow>
            (let r = stamp_projection_seq r s
             in io_bind (wal_set_projection env tx r) (\<lambda>_.
                io_bind (log_append env r) (\<lambda>_. wal_commit env tx)))
        | None \<Rightarrow> if hold then io_return () else wal_commit env tx) (\<lambda>_.
     io_return (with_seq s envelope)))))"

fun external_of :: "agent_event \<Rightarrow> external_ref option" where
  "external_of (ExternalContextEv r) =
     Some \<lparr> er_provider = es_provider (ecr_source r), er_resource_id = es_resource_id (ecr_source r),
            er_citation = ecr_citation r, er_provenance = es_provenance (ecr_source r),
            er_metadata = ecr_metadata r \<rparr>"
| "external_of _ = None"

definition message_attribution :: "event_meta \<Rightarrow> store_error + turn_id \<times> u32 \<times> model_ref" where
  "message_attribution m =
     bind_res (ok_or (em_turn_id m) MissingTurn) (\<lambda>turn.
     bind_res (ok_or (em_model_epoch m) MissingEpoch) (\<lambda>epoch.
     bind_res (ok_or (em_model m) MissingModel) (\<lambda>model. Inr (turn, epoch, model))))"

definition message_record ::
  "event_envelope \<Rightarrow> message \<Rightarrow> event_seq \<Rightarrow> store_error + session_message" where
  "message_record envelope m s =
     bind_res (message_attribution (ee_meta envelope)) (\<lambda>(turn, epoch, model).
       Inr \<lparr> sm_turn_id = turn, sm_role = msg_role m, sm_message = m, sm_epoch = epoch,
             sm_model = model, sm_event_id = em_event_id (ee_meta envelope), sm_seq = Some s,
             sm_external_context = external_of (ee_event envelope) \<rparr>)"

definition max_inline_message_bytes :: usize where
  "max_inline_message_bytes = 32 * 1024"

definition fits_inline :: "store_env \<Rightarrow> message \<Rightarrow> bool" where
  "fits_inline env m \<longleftrightarrow>
     length (sv_encode_message env m) \<le> min (sv_inline_threshold env) max_inline_message_bytes"

definition json_type :: string where
  "json_type = ''application/json''"

text \<open>The write of \<open>BlobStore::put\<close>, none when the object is already stored and verified.\<close>

definition put_blob :: "store_env \<Rightarrow> char list \<Rightarrow> string option \<Rightarrow> blob_ref io" where
  "put_blob env bytes content_type =
     io_bind io_get (\<lambda>d.
       case blob_put (sv_codec env) (sv_compression env) bytes content_type (du_blobs d) of
         Inl e \<Rightarrow> io_fail (BlobFailed e)
       | Inr (_, b) \<Rightarrow>
          (if blob_verify (sv_codec env) (du_blobs d) b then io_return b
           else io_bind (io_write (BlobWrite (blob_path b)
                                    (blob_encode (sv_codec env) bytes (br_compression b))))
                  (\<lambda>_. io_return b)))"

text \<open>The payload a recovery needs, and the object to delete when the intent cannot be prepared.\<close>

definition prepare_message_recovery ::
  "store_env \<Rightarrow> message \<Rightarrow> (message_recovery \<times> blob_ref option) io" where
  "prepare_message_recovery env m =
     (let sanitized = sv_redact_message env m; encoded = sv_encode_message env sanitized
      in if fits_inline env sanitized then io_return (InlineRecovery sanitized, None)
         else io_bind io_get (\<lambda>d.
              let planned = reference_for (sv_codec env) (sv_compression env) encoded (Some json_type);
                  existed = blob_verify (sv_codec env) (du_blobs d) planned
              in io_bind (put_blob env encoded (Some json_type)) (\<lambda>b.
                 io_return (BlobRecovery b, if existed then None else Some b))))"

definition remove_unreferenced_blob :: "blob_ref option \<Rightarrow> unit io" where
  "remove_unreferenced_blob cleanup =
     (case cleanup of
        None \<Rightarrow> io_return ()
      | Some b \<Rightarrow> io_bind wal_pending (\<lambda>pending.
          if list_ex (\<lambda>i. wp_recovery (pp_envelope i) = Some (BlobRecovery b)) pending
          then io_return () else io_write (BlobErase (blob_path b))))"

definition emit_new_message :: "store_env \<Rightarrow> event_envelope \<Rightarrow> message \<Rightarrow> event_envelope io" where
  "emit_new_message env envelope m =
     io_bind io_get (\<lambda>d.
     io_bind (io_lift id (message_record envelope m (next_seq (du_trace d)))) (\<lambda>projected.
     io_bind (validate_record_size env (MessageRec projected)) (\<lambda>_.
     io_bind (prepare_message_recovery env m) (\<lambda>(recovery, cleanup).
     io_bind (io_on_error (wal_prepare_with_recovery env envelope (Some recovery))
                (remove_unreferenced_blob cleanup)) (\<lambda>tx.
     io_bind (journal_append env envelope) (\<lambda>s.
     io_bind (io_lift id (message_record (with_seq s envelope) m s)) (\<lambda>r.
     io_bind (log_append env (MessageRec r)) (\<lambda>_.
     io_bind (wal_commit env tx) (\<lambda>_.
     io_return (with_seq s envelope))))))))))"
definition append_message :: "store_env \<Rightarrow> event_envelope \<Rightarrow> message \<Rightarrow> session_message io" where
  "append_message env envelope m =
     (case em_seq (ee_meta envelope) of
        None \<Rightarrow> io_fail (MissingSequence (em_event_id (ee_meta envelope)))
      | Some s \<Rightarrow>
         io_bind (io_lift id (message_record envelope m s)) (\<lambda>r.
         io_bind (log_append env (MessageRec r)) (\<lambda>_. io_return r)))"

text \<open>The held intent a message completes: its own, or a terminal request of its turn and epoch.\<close>

definition intent_for :: "event_meta \<Rightarrow> turn_id \<Rightarrow> u32 \<Rightarrow> pending_projection list \<Rightarrow> pending_projection option" where
  "intent_for meta turn epoch pending =
     or_else (List.find (\<lambda>i. wp_event_id (pp_envelope i) = em_event_id meta) pending)
       (List.find (\<lambda>i. wp_turn_id (pp_envelope i) = Some turn
                      \<and> wp_model_epoch (pp_envelope i) = Some epoch
                      \<and> wp_kind (pp_envelope i) = WalRequestCompleted True) pending)"

definition complete_message :: "store_env \<Rightarrow> attributed_message \<Rightarrow> session_message io" where
  "complete_message env a =
     (let envelope = am_envelope a; m = am_message a; meta = ee_meta envelope
      in io_bind (io_lift id (message_attribution meta)) (\<lambda>(turn, epoch, model).
         io_bind wal_pending (\<lambda>pending.
           case intent_for meta turn epoch pending of
             None \<Rightarrow> append_message env envelope m
           | Some intent \<Rightarrow>
              (case em_seq meta of
                 None \<Rightarrow> io_fail (MissingSequence (em_event_id meta))
               | Some s \<Rightarrow>
                  io_bind (io_lift id (message_record envelope m s)) (\<lambda>r.
                  io_bind (validate_record_size env (MessageRec r)) (\<lambda>_.
                  io_bind
                    (if wp_recovery (pp_envelope intent) = None
                     then io_bind (prepare_message_recovery env m) (\<lambda>(recovery, cleanup).
                            io_on_error (wal_set_recovery env (pp_tx_id intent) recovery)
                              (remove_unreferenced_blob cleanup))
                     else io_return ()) (\<lambda>_.
                  io_bind (log_append env (MessageRec r)) (\<lambda>_.
                  io_bind (wal_commit env (pp_tx_id intent)) (\<lambda>_. io_return r)))))))))"

definition emit_message :: "store_env \<Rightarrow> event_envelope \<Rightarrow> message \<Rightarrow> event_envelope io" where
  "emit_message env envelope m =
     (case em_seq (ee_meta envelope) of
        None \<Rightarrow> emit_new_message env envelope m
      | Some _ \<Rightarrow>
         io_bind (complete_message env \<lparr> am_envelope = envelope, am_message = m \<rparr>)
           (\<lambda>_. io_return envelope))"

definition commit_projection_intent :: "store_env \<Rightarrow> event_id \<Rightarrow> unit io" where
  "commit_projection_intent env i =
     io_bind wal_pending (\<lambda>pending.
       if list_ex (\<lambda>p. pp_tx_id p = i) pending then wal_commit env i else io_return ())"

section \<open>Rebuilding a projection\<close>

definition recover_message :: "store_env \<Rightarrow> blob_fs \<Rightarrow> message_recovery \<Rightarrow> store_error + message" where
  "recover_message env fs recovery =
     (case recovery of
        InlineRecovery m \<Rightarrow> Inr m
      | BlobRecovery b \<Rightarrow>
         (case get_relative_verified (sv_codec env) fs (blob_relative_path b) of
            Inl e \<Rightarrow> Inl (BlobFailed e)
          | Inr bytes \<Rightarrow> ok_or (sv_decode_message env bytes) RecoveryInvalid))"

text \<open>\<open>restore_externalized_event\<close> is the identity on a line whose fields are all inline.\<close>

definition restore_externalized :: "store_env \<Rightarrow> trace_entry \<Rightarrow> agent_event" where
  "restore_externalized env e = (if tn_externalized e = [] then entry_event e else sv_rehydrate env e)"

text \<open>A message rebuilt from its event, at the position of that event.\<close>

definition rebuilt_message :: "event_meta \<Rightarrow> trace_entry \<Rightarrow> message \<Rightarrow> store_error + session_record option" where
  "rebuilt_message meta carrier m =
     bind_res (message_attribution meta) (\<lambda>(turn, epoch, model).
       Inr (Some (MessageRec
         \<lparr> sm_turn_id = turn, sm_role = msg_role m, sm_message = m, sm_epoch = epoch, sm_model = model,
           sm_event_id = entry_id carrier, sm_seq = entry_seq carrier, sm_external_context = None \<rparr>)))"

definition tool_result_message :: "tool_call_id \<Rightarrow> string \<Rightarrow> tool_execution_state \<Rightarrow> string \<Rightarrow> message" where
  "tool_result_message call tool_name state txt =
     new_message Tool_Role
       [ToolResultB \<lparr> tb_id = call, tb_name = tool_name, tb_state = state, tb_text = txt,
                      tb_is_error = True, tb_reduced = False \<rparr>]"

definition same_attempt :: "event_meta \<Rightarrow> trace_entry \<Rightarrow> bool" where
  "same_attempt meta e \<longleftrightarrow>
     entry_turn e = em_turn_id meta \<and> em_model_epoch (entry_meta e) = em_model_epoch meta"

fun is_request_start :: "agent_event \<Rightarrow> bool" where
  "is_request_start (ModelRequestStartedEv _) = True"
| "is_request_start _ = False"

fun is_assistant_delta :: "agent_event \<Rightarrow> bool" where
  "is_assistant_delta (AssistantDeltaEv _) = True"
| "is_assistant_delta _ = False"

text \<open>The sequences of the request boundaries before a completion, and the deltas between.\<close>

definition request_starts :: "event_meta \<Rightarrow> event_seq \<Rightarrow> trace_entry list \<Rightarrow> event_seq list" where
  "request_starts meta before trace =
     List.map_filter (\<lambda>e. case entry_seq e of
         None \<Rightarrow> None
       | Some s \<Rightarrow> if s < before \<and> same_attempt meta e \<and> is_request_start (entry_event e)
                  then Some s else None) trace"

definition attempt_deltas :: "event_meta \<Rightarrow> event_seq \<Rightarrow> event_seq \<Rightarrow> trace_entry list \<Rightarrow> trace_entry list" where
  "attempt_deltas meta after before trace =
     filter (\<lambda>e. case entry_seq e of
         None \<Rightarrow> False
       | Some s \<Rightarrow> after < s \<and> s < before \<and> same_attempt meta e \<and> is_assistant_delta (entry_event e))
       trace"

definition collect_delta ::
  "store_env \<Rightarrow> trace_entry \<Rightarrow> string \<times> trace_entry option \<Rightarrow> store_error + string \<times> trace_entry option" where
  "collect_delta env e s =
     (case restore_externalized env e of
        AssistantDeltaEv delta \<Rightarrow>
          Inr (if ad_text delta = [] then s
               else (fst s @ ad_text delta, or_else (snd s) (Some e)))
      | _ \<Rightarrow> Inl (EventChangedType (entry_id e)))"

definition recover_assistant ::
  "store_env \<Rightarrow> trace_entry \<Rightarrow> trace_entry list \<Rightarrow> model_request_completed \<Rightarrow> store_error + session_record option" where
  "recover_assistant env entry trace c =
     (let meta = entry_meta entry
      in if mrc_finish_reason c = Some ''length'' \<or> mrc_finish_reason c = Some ''max_tokens'' then Inr None
         else if mrc_finish_reason c = Some ''abandoned'' then Inr None
         else if mrc_finish_reason c = None then Inr None
         else if mrc_tool_calls c > 0 then Inl (ManualRecovery (entry_id entry))
         else bind_res (message_attribution meta) (\<lambda>_.
              bind_res (ok_or (entry_seq entry) (MissingSequence (entry_id entry))) (\<lambda>done.
              case request_starts meta done trace of
                [] \<Rightarrow> Inl NoRequestBoundary
              | s # ss \<Rightarrow>
                 bind_res (fold_res (collect_delta env) (attempt_deltas meta (Max (set (s # ss))) done trace)
                             ([], None))
                   (\<lambda>(txt, origin). case origin of
                      None \<Rightarrow> Inr None
                    | Some carrier \<Rightarrow> rebuilt_message meta carrier (assistant_message txt)))))"

definition compaction_record_of ::
  "compaction_completed \<Rightarrow> bool \<Rightarrow> (event_seq \<times> event_seq) option \<Rightarrow> session_compaction_record" where
  "compaction_record_of c present span_of =
     \<lparr> sc_context_epoch = ccc_context_epoch c, sc_level = ccc_level c,
       sc_removed_messages = ccc_removed_messages c, sc_retained_from = 0,
       sc_retained_messages = ccc_retained_messages c, sc_summary_present = present,
       sc_replaces_from = map_option fst span_of, sc_replaces_through = map_option snd span_of,
       sc_aborted = False, sc_start_event_id = None, sc_summary_event_id = None \<rparr>"

text \<open>The epochs and the summaries a completion of the same turn refers to.\<close>

definition epochs_before :: "trace_entry \<Rightarrow> u32 \<Rightarrow> event_seq \<Rightarrow> trace_entry list \<Rightarrow> compaction_epoch list" where
  "epochs_before entry n done trace =
     List.map_filter (\<lambda>e. case (entry_seq e, epoch_of (entry_event e)) of
         (Some s, Some c) \<Rightarrow> if s < done \<and> entry_turn e = entry_turn entry \<and> cce_context_epoch c = n
                             then Some c else None
       | _ \<Rightarrow> None) trace"

definition summaries_between :: "trace_entry \<Rightarrow> event_seq \<Rightarrow> event_seq \<Rightarrow> trace_entry list \<Rightarrow> trace_entry list" where
  "summaries_between entry after done trace =
     filter (\<lambda>e. (case entry_seq e of None \<Rightarrow> False | Some s \<Rightarrow> s < done \<and> s > after)
                 \<and> entry_turn e = entry_turn entry \<and> entry_event e = ContextSummaryEv) trace"

definition projected_message :: "event_id \<Rightarrow> session_record list \<Rightarrow> bool" where
  "projected_message i rs \<longleftrightarrow> list_ex (\<lambda>r. case r of MessageRec m \<Rightarrow> sm_event_id m = i | _ \<Rightarrow> False) rs"

definition recover_compaction ::
  "trace_entry \<Rightarrow> trace_entry list \<Rightarrow> session_record list \<Rightarrow> compaction_completed \<Rightarrow> store_error + session_record option" where
  "recover_compaction entry trace rs c =
     (let n = ccc_context_epoch c
      in if ccc_level c = L3Checkpoint then Inr (Some (CompactionRec (compaction_record_of c False None)))
         else bind_res (ok_or (entry_seq entry) (MissingSequence (entry_id entry))) (\<lambda>done.
           case epochs_before entry n done trace of
             [] \<Rightarrow> Inl (EpochMissing n)
           | [epoch] \<Rightarrow>
              (case summaries_between entry (cce_replaces_through epoch) done trace of
                 [] \<Rightarrow> Inl (SummaryMissingFor n)
               | [summary] \<Rightarrow>
                  (if projected_message (entry_id summary) rs
                   then Inr (Some (CompactionRec (compaction_record_of c True
                          (Some (cce_replaces_from epoch, cce_replaces_through epoch)))))
                   else Inl (SummaryUnprojected n))
               | _ \<Rightarrow> Inl (SummaryAmbiguousFor n))
           | _ \<Rightarrow> Inl (EpochAmbiguous n)))"

definition recover_projection_record ::
  "store_env \<Rightarrow> blob_fs \<Rightarrow> trace_entry \<Rightarrow> trace_entry list \<Rightarrow> session_record list \<Rightarrow> message_recovery option
     \<Rightarrow> store_error + session_record option" where
  "recover_projection_record env fs entry trace rs recovery =
     (case recovery of
        Some r \<Rightarrow>
          bind_res (recover_message env fs r) (\<lambda>m.
          bind_res (ok_or (entry_seq entry) (MissingSequence (entry_id entry))) (\<lambda>s.
          bind_res (message_record (tn_envelope entry) m s) (\<lambda>r. Inr (Some (MessageRec r)))))
      | None \<Rightarrow>
         (case entry_event entry of
            UserMessageEv _ \<Rightarrow>
             (case restore_externalized env entry of
                UserMessageEv u \<Rightarrow> rebuilt_message (entry_meta entry) entry (user_message (um_text u))
              | _ \<Rightarrow> Inl (EventChangedType (entry_id entry)))
          | ExternalContextEv _ \<Rightarrow> Inl (ManualRecovery (entry_id entry))
          | ContextSummaryEv \<Rightarrow> Inl (ManualRecovery (entry_id entry))
          | ToolCompletedEv _ \<Rightarrow> Inl (ManualRecovery (entry_id entry))
          | ToolFailedEv f \<Rightarrow> rebuilt_message (entry_meta entry) entry
              (tool_result_message (tfl_call_id f) (tfl_name f) Failed (tfl_message f))
          | ToolUnknownEv u \<Rightarrow> rebuilt_message (entry_meta entry) entry
              (tool_result_message (tun_call_id u) (tun_name u) Unknown (tun_why u))
          | ModelRequestCompletedEv c \<Rightarrow> recover_assistant env entry trace c
          | ModelEpochStartedEv e \<Rightarrow>
              Inr (Some (EpochRec \<lparr> se_epoch = mes_epoch e, se_model = mes_model e, se_reason = mes_reason e \<rparr>))
          | CompactionCompletedEv c \<Rightarrow> recover_compaction entry trace rs c
          | ContextReducedEv r \<Rightarrow>
             (if crd_removed_messages r > 0
              then Inr (Some (ReductionRec
                     \<lparr> sr_event_id = entry_id entry, sr_seq = entry_seq entry, sr_reason = crd_reason r,
                       sr_removed_messages = crd_removed_messages r,
                       sr_retained_messages = crd_retained_messages r \<rparr>))
              else Inr None)
          | CheckpointCreatedEv c \<Rightarrow>
              bind_res (ok_or (sv_read_capsule env (ckc_checkpoint_id c)) (CapsuleFailed (ckc_checkpoint_id c)))
                (\<lambda>capsule. Inr (Some (CheckpointRec
                   \<lparr> sk_checkpoint_id = ckc_checkpoint_id c, sk_capsule_version = ckc_capsule_version c,
                     sk_context_epoch = ckc_context_epoch c, sk_capsule_path = ckc_path c,
                     sk_capsule = capsule \<rparr>)))
          | _ \<Rightarrow> Inr None))"
section \<open>Recovery of the pending intents\<close>

fun same_projection :: "session_record \<Rightarrow> session_record \<Rightarrow> bool" where
  "same_projection (MessageRec c) (MessageRec r) \<longleftrightarrow> sm_event_id c = sm_event_id r"
| "same_projection (EpochRec c) (EpochRec r) \<longleftrightarrow>
     se_epoch c = se_epoch r \<and> se_model c = se_model r \<and> se_reason c = se_reason r"
| "same_projection (CompactionRec c) (CompactionRec r) \<longleftrightarrow>
     sc_context_epoch c = sc_context_epoch r \<and> sc_level c = sc_level r
     \<and> sc_removed_messages c = sc_removed_messages r
     \<and> sc_retained_messages c = sc_retained_messages r
     \<and> sc_summary_present c = sc_summary_present r
     \<and> sc_replaces_from c = sc_replaces_from r \<and> sc_replaces_through c = sc_replaces_through r"
| "same_projection (CheckpointRec c) (CheckpointRec r) \<longleftrightarrow>
     sk_checkpoint_id c = sk_checkpoint_id r \<and> sk_capsule_version c = sk_capsule_version r
     \<and> sk_context_epoch c = sk_context_epoch r \<and> sk_capsule_path c = sk_capsule_path r"
| "same_projection (ReductionRec c) (ReductionRec r) \<longleftrightarrow> sr_event_id c = sr_event_id r"
| "same_projection _ _ \<longleftrightarrow> False"

definition has_projection_for :: "session_record \<Rightarrow> session_record list \<Rightarrow> bool" where
  "has_projection_for r rs \<longleftrightarrow> list_ex (\<lambda>c. same_projection c r) rs"

definition entry_for :: "event_id \<Rightarrow> trace_entry list \<Rightarrow> trace_entry option" where
  "entry_for i trace = List.find (\<lambda>e. entry_id e = i) trace"

text \<open>A held compaction start is settled by a later completion of its turn or by an abort marker.\<close>

definition start_settled :: "trace_entry \<Rightarrow> trace_entry list \<Rightarrow> bool" where
  "start_settled start trace \<longleftrightarrow>
     list_ex (\<lambda>e. (case entry_seq e of None \<Rightarrow> False | Some s \<Rightarrow> s > unwrap_or 0 (entry_seq start))
        \<and> entry_turn e = entry_turn start \<and> completes_ordinary (entry_event e)) trace
     \<or> list_ex (\<lambda>e. is_compaction_abort e (entry_id start)) trace"

definition project_intent ::
  "store_env \<Rightarrow> trace_entry list \<Rightarrow> pending_projection \<Rightarrow> trace_entry \<Rightarrow> session_record list
     \<Rightarrow> session_record list io" where
  "project_intent env trace intent entry rs =
     io_bind
       (case pp_record intent of
          Some r \<Rightarrow> io_return (Some r)
        | None \<Rightarrow>
           (if projected_message (wp_event_id (pp_envelope intent)) rs then io_return None
            else io_bind io_get (\<lambda>d. io_lift id
                   (recover_projection_record env (du_blobs d) entry trace rs
                      (wp_recovery (pp_envelope intent))))))
       (\<lambda>recovered. case recovered of
          None \<Rightarrow> io_bind (wal_commit env (pp_tx_id intent)) (\<lambda>_. io_return rs)
        | Some r \<Rightarrow>
           io_bind
             (if has_projection_for r rs then io_return rs
              else io_bind (log_append env r) (\<lambda>_. io_return (rs @ [r]))) (\<lambda>rs.
           io_bind (wal_commit env (pp_tx_id intent)) (\<lambda>_. io_return rs)))"

definition settle_intent ::
  "store_env \<Rightarrow> trace_entry list \<Rightarrow> pending_projection \<Rightarrow> session_record list \<Rightarrow> session_record list io" where
  "settle_intent env trace intent rs =
     (case entry_for (wp_event_id (pp_envelope intent)) trace of
        None \<Rightarrow>
         (if (case pp_record intent of None \<Rightarrow> False | Some r \<Rightarrow> has_projection_for r rs)
          then io_fail (ProjectionWithoutEvent (wp_event_id (pp_envelope intent)))
          else io_bind (wal_commit env (pp_tx_id intent)) (\<lambda>_. io_return rs))
      | Some entry \<Rightarrow>
         (if entry_id entry \<in> set (aborted_compaction_event_ids trace)
          then io_bind (wal_commit env (pp_tx_id intent)) (\<lambda>_. io_return rs)
          else if wp_kind (pp_envelope intent) = WalCompactionStarted
          then (if start_settled entry trace
                then io_bind (wal_commit env (pp_tx_id intent)) (\<lambda>_. io_return rs)
                else io_fail IncompleteLifecycle)
          else project_intent env trace intent entry rs))"

fun settle_all ::
  "store_env \<Rightarrow> trace_entry list \<Rightarrow> pending_projection list \<Rightarrow> session_record list \<Rightarrow> unit io" where
  "settle_all env trace [] rs = io_return ()"
| "settle_all env trace (i # is) rs =
     io_bind (settle_intent env trace i rs) (\<lambda>rs. settle_all env trace is rs)"

definition intent_position :: "trace_entry list \<Rightarrow> pending_projection \<Rightarrow> event_seq" where
  "intent_position trace i =
     unwrap_or u64_max
       (case entry_for (wp_event_id (pp_envelope i)) trace of None \<Rightarrow> None | Some e \<Rightarrow> entry_seq e)"

text \<open>The pending intents in the order of their events, each settled once.\<close>

definition settle_intents :: "store_env \<Rightarrow> unit io" where
  "settle_intents env =
     io_bind io_get (\<lambda>d.
     io_bind wal_pending (\<lambda>pending.
       settle_all env (du_trace d) (sort_key (intent_position (du_trace d)) pending) (du_records d)))"

text \<open>A barrier whose projection was interrupted is published before anything else.\<close>

definition publish_barrier ::
  "store_env \<Rightarrow> trace_entry list \<Rightarrow> pending_projection \<Rightarrow> session_record list \<Rightarrow> session_record list io" where
  "publish_barrier env trace intent rs =
     (case entry_for (wp_event_id (pp_envelope intent)) trace of
        None \<Rightarrow> io_return rs
      | Some entry \<Rightarrow>
         (case entry_event entry of
            CheckpointCreatedEv _ \<Rightarrow>
              io_bind
                (case pp_record intent of
                   Some r \<Rightarrow> io_return (Some r)
                 | None \<Rightarrow> io_bind io_get (\<lambda>d. io_lift id
                     (recover_projection_record env (du_blobs d) entry trace rs None)))
                (\<lambda>found. case found of
                   Some (CheckpointRec b) \<Rightarrow>
                     io_bind
                       (if list_ex (\<lambda>r. case r of CheckpointRec c \<Rightarrow> sk_checkpoint_id c = sk_checkpoint_id b
                                        | _ \<Rightarrow> False) rs
                        then io_return rs
                        else io_bind (log_append env (CheckpointRec b))
                               (\<lambda>_. io_return (rs @ [CheckpointRec b])))
                       (\<lambda>rs. io_bind (wal_commit env (pp_tx_id intent)) (\<lambda>_. io_return rs))
                 | _ \<Rightarrow> io_fail NotABarrier)
          | _ \<Rightarrow> io_return rs))"

fun publish_barriers ::
  "store_env \<Rightarrow> trace_entry list \<Rightarrow> pending_projection list \<Rightarrow> session_record list \<Rightarrow> unit io" where
  "publish_barriers env trace [] rs = io_return ()"
| "publish_barriers env trace (i # is) rs =
     io_bind (publish_barrier env trace i rs) (\<lambda>rs. publish_barriers env trace is rs)"

definition recover_pending_checkpoint_barriers :: "store_env \<Rightarrow> unit io" where
  "recover_pending_checkpoint_barriers env =
     io_bind io_get (\<lambda>d. io_bind wal_pending (\<lambda>pending.
       publish_barriers env (du_trace d) pending (du_records d)))"

text \<open>Open compactions are aborted: a diagnostic, a marker, and the commit of their intents.\<close>

definition abort_marker :: "trace_entry \<Rightarrow> event_id option \<Rightarrow> session_compaction_record" where
  "abort_marker start summary =
     \<lparr> sc_context_epoch = 0, sc_level = unwrap_or L0Payload (started_level (entry_event start)),
       sc_removed_messages = 0, sc_retained_from = 0, sc_retained_messages = 0,
       sc_summary_present = False, sc_replaces_from = None, sc_replaces_through = None,
       sc_aborted = True, sc_start_event_id = Some (entry_id start),
       sc_summary_event_id = summary \<rparr>"

definition marker_present :: "event_id \<Rightarrow> session_record list \<Rightarrow> bool" where
  "marker_present start rs \<longleftrightarrow>
     list_ex (\<lambda>r. case r of CompactionRec c \<Rightarrow> sc_aborted c \<and> sc_start_event_id c = Some start
                 | _ \<Rightarrow> False) rs"

definition abort_compaction :: "store_env \<Rightarrow> trace_entry list \<Rightarrow> staged_start \<Rightarrow> unit io" where
  "abort_compaction env trace candidate =
     (let (start, summary) = candidate; i = entry_id start
      in io_bind io_get (\<lambda>d.
         io_bind
           (if list_ex (\<lambda>e. is_compaction_abort e i) trace then io_return ()
            else io_bind (session_emit env
                   (abort_diagnostic (sv_session_id env) (sv_mint env (length (du_trace d))) start))
                   (\<lambda>_. io_return ())) (\<lambda>_.
         io_bind
           (if marker_present i (du_records d) then io_return ()
            else log_append env (CompactionRec (abort_marker start summary))) (\<lambda>_.
         io_bind wal_pending (\<lambda>pending.
           io_for (map pp_tx_id (filter (\<lambda>p. pp_tx_id p = i \<or> Some (pp_tx_id p) = summary) pending))
             (wal_commit env))))))"

definition compaction_candidates :: "trace_entry list \<Rightarrow> compaction_error + staged_start list" where
  "compaction_candidates trace =
     bind_res (find_incomplete_compactions trace) (\<lambda>found.
     bind_res (find_aborted_compactions trace) (\<lambda>aborted.
       Inr (fold (\<lambda>c cs. if entry_id (fst c) \<in> set (map (\<lambda>x. entry_id (fst x)) cs) then cs else cs @ [c])
              aborted found)))"

definition recover_incomplete_compactions :: "store_env \<Rightarrow> unit io" where
  "recover_incomplete_compactions env =
     io_bind io_get (\<lambda>d.
     io_bind (io_lift CompactionFailed (compaction_candidates (du_trace d))) (\<lambda>candidates.
       io_for candidates (abort_compaction env (du_trace d))))"

text \<open>An open checkpoint is completed from the window the log restores before its barrier.\<close>

definition is_barrier_of :: "checkpoint_id \<Rightarrow> session_record \<Rightarrow> bool" where
  "is_barrier_of c r \<longleftrightarrow> (case r of CheckpointRec b \<Rightarrow> sk_checkpoint_id b = c | _ \<Rightarrow> False)"

definition complete_checkpoint ::
  "store_env \<Rightarrow> session_header \<Rightarrow> session_record list \<Rightarrow> incomplete_checkpoint \<Rightarrow> unit io" where
  "complete_checkpoint env h rs boundary =
     (let c = ckc_checkpoint_id (ic_created boundary)
      in if \<not> list_ex (is_barrier_of c) rs then io_fail (NoBarrier c)
         else io_bind (io_lift RestoreFailed
                (restore_from_report h (HeaderRec h # takeWhile (\<lambda>r. \<not> is_barrier_of c r) rs) 0)) (\<lambda>pre.
              io_bind io_get (\<lambda>d.
              io_bind (io_lift CheckpointFailed
                (checkpoint_completion (sv_session_id env) (sv_mint env (length (du_trace d)))
                   (length (rd_messages pre)) boundary)) (\<lambda>completion.
                case ee_event completion of
                  CompactionCompletedEv done \<Rightarrow>
                    io_bind (emit_transaction env completion
                      (Some (CompactionRec (compaction_record_of done False None))) False)
                      (\<lambda>_. io_return ())
                | _ \<Rightarrow> io_return ()))))"

definition recover_incomplete_checkpoints :: "store_env \<Rightarrow> session_header \<Rightarrow> unit io" where
  "recover_incomplete_checkpoints env h =
     io_bind io_get (\<lambda>d.
     io_bind (io_lift CheckpointFailed (find_incomplete_checkpoints (du_trace d))) (\<lambda>open_ones.
       io_for open_ones (complete_checkpoint env h (du_records d))))"

section \<open>Leaving a session\<close>

text \<open>Completed requests without a visible message have nothing to project.\<close>

definition commit_if_empty :: "store_env \<Rightarrow> trace_entry list \<Rightarrow> pending_projection \<Rightarrow> unit io" where
  "commit_if_empty env trace intent =
     (if wp_kind (pp_envelope intent) \<noteq> WalRequestCompleted True then io_return ()
      else case entry_for (wp_event_id (pp_envelope intent)) trace of
             None \<Rightarrow> io_return ()
           | Some entry \<Rightarrow>
              io_bind io_get (\<lambda>d.
              io_bind (io_lift id (recover_projection_record env (du_blobs d) entry trace [] None))
                (\<lambda>r. if r = None then wal_commit env (pp_tx_id intent) else io_return ())))"

definition session_flush :: "store_env \<Rightarrow> unit io" where
  "session_flush env =
     io_bind wal_pending (\<lambda>pending.
     io_bind (io_bind io_get (\<lambda>d. io_for pending (commit_if_empty env (du_trace d)))) (\<lambda>_.
     io_bind wal_pending (\<lambda>pending.
       if pending = [] then io_return () else io_fail PendingTransactions)))"

section \<open>Successful operations\<close>

lemma apply_writes_simps [simp]:
  "apply_writes [] d = d"
  "apply_writes (w # ws) d = apply_writes ws (apply_write w d)"
  "apply_writes (ws @ vs) d = apply_writes vs (apply_writes ws d)"
  by (simp_all add: apply_writes_def)

lemma io_simps [simp]:
  "io_return a d = ([], Inr a)"
  "io_fail e d = ([], Inl e)"
  "io_get d = ([], Inr d)"
  "io_write w d = ([w], Inr ())"
  by (simp_all add: io_return_def io_fail_def io_get_def io_write_def)

lemma io_bind_Inr: "m d = (ws, Inr a) \<Longrightarrow> f a (apply_writes ws d) = (vs, r) \<Longrightarrow> io_bind m f d = (ws @ vs, r)"
  by (simp add: io_bind_def)

lemma io_bind_Inl: "m d = (ws, Inl e) \<Longrightarrow> io_bind m f d = (ws, Inl e)"
  by (simp add: io_bind_def)

lemma io_bind_pure [simp]:
  "io_bind (io_return a) f d = f a d"
  "io_bind io_get f d = f d d"
  "io_bind (io_fail e) f d = ([], Inl e)"
  by (simp_all add: io_bind_def case_prod_beta)

lemma io_bind_success:
  assumes "io_bind m f d = (ws, Inr b)"
  obtains vs a us where "m d = (vs, Inr a)" "f a (apply_writes vs d) = (us, Inr b)" "ws = vs @ us"
  using assms by (auto simp: io_bind_def split: prod.splits sum.splits)

lemma io_lift_success: "io_lift f r d = (ws, Inr a) \<longleftrightarrow> ws = [] \<and> r = Inr a"
  by (cases r) auto

lemma io_on_error_success: "io_on_error m h d = (ws, Inr a) \<longleftrightarrow> m d = (ws, Inr a)"
  by (auto simp: io_on_error_def split: prod.splits sum.splits)

lemma journal_append_success:
  "journal_append env e d = (ws, Inr s) \<longleftrightarrow>
     (\<exists>l. checked_next_seq (du_trace d) = Inr s \<and> sv_line env (plain_entry (with_seq s e)) = Some l
        \<and> ws = [TraceAppend l])"
proof (cases "checked_next_seq (du_trace d)")
  case (Inr n)
  then show ?thesis
    by (auto simp: journal_append_def io_bind_def split: option.splits)
qed (auto simp: journal_append_def io_bind_def)

lemma wal_append_success:
  "wal_append env e d = (ws, Inr u) \<longleftrightarrow> sv_wal_fits env (wal_redact env e) \<and> ws = [WalAppend (wal_redact env e)]"
  by (auto simp: wal_append_def)

lemma log_append_success:
  "log_append env r d = (ws, Inr u) \<longleftrightarrow>
     \<not> is_header_record r \<and> sv_record_fits env (sv_redact_record env r)
     \<and> length (du_records d) + 2 \<le> usize_max
     \<and> ws = [LogAppend (sv_redact_record env r)]"
  by (auto simp: log_append_def)

lemma message_record_Inr:
  "message_record e m s = Inr r \<longleftrightarrow>
     (\<exists>turn epoch model. em_turn_id (ee_meta e) = Some turn \<and> em_model_epoch (ee_meta e) = Some epoch
        \<and> em_model (ee_meta e) = Some model
        \<and> r = \<lparr> sm_turn_id = turn, sm_role = msg_role m, sm_message = m, sm_epoch = epoch,
               sm_model = model, sm_event_id = em_event_id (ee_meta e), sm_seq = Some s,
               sm_external_context = external_of (ee_event e) \<rparr>)"
  by (auto simp: message_record_def message_attribution_def)

end
