(* ===== verification/Crash_Recovery.thy ===== *)
theory Crash_Recovery
  imports Session_Store
begin

text \<open>
  What the intent log of \<open>projection.rs\<close> is for: a crash at any point of a message write, and
  any number of crashes during the recoveries that follow, leave a session in which the event
  and its message are either both durable or both absent.
\<close>

section \<open>Crash safety of a message\<close>

text \<open>
  What the store relies on: a journal line keeps the identity of its event, redaction is
  idempotent and keeps the identity of a message record, a redacted message survives its
  encoding, compression is lossless and a commit line is short enough.
\<close>

definition honest_line :: "store_env \<Rightarrow> bool" where
  "honest_line env \<longleftrightarrow>
     (\<forall>e l. sv_line env e = Some l \<longrightarrow>
        entry_meta l = entry_meta e \<and> staged_event (entry_event l) = staged_event (entry_event e))"

definition honest_redaction :: "store_env \<Rightarrow> bool" where
  "honest_redaction env \<longleftrightarrow>
     (\<forall>m. sv_redact_message env (sv_redact_message env m) = sv_redact_message env m)
     \<and> (\<forall>r. \<exists>q. sv_redact_record env (MessageRec r) = MessageRec q \<and> sm_event_id q = sm_event_id r)
     \<and> (\<forall>e l r m. sv_line env e = Some l \<longrightarrow>
          sv_redact_record env (MessageRec (r\<lparr>sm_role := msg_role (sv_redact_message env m),
            sm_message := sv_redact_message env m, sm_external_context := external_of (entry_event l)\<rparr>))
          = sv_redact_record env (MessageRec (r\<lparr>sm_role := msg_role m, sm_message := m,
            sm_external_context := external_of (entry_event e)\<rparr>)))"

definition honest_codec :: "store_env \<Rightarrow> message \<Rightarrow> bool" where
  "honest_codec env m \<longleftrightarrow>
     sv_decode_message env (sv_encode_message env (sv_redact_message env m)) = Some (sv_redact_message env m)
     \<and> (\<forall>bytes. snd (sv_codec env) (fst (sv_codec env) bytes) = Some bytes)
     \<and> (\<forall>tx. sv_wal_fits env (CommitEntry tx))"

definition honest_env :: "store_env \<Rightarrow> message \<Rightarrow> bool" where
  "honest_env env m \<longleftrightarrow> honest_line env \<and> honest_redaction env \<and> honest_codec env m"

text \<open>No other object with the digest of the payload is in the store.\<close>

definition no_collision :: "store_env \<Rightarrow> char list \<Rightarrow> blob_fs \<Rightarrow> bool" where
  "no_collision env bytes fs \<longleftrightarrow>
     (let b = reference_for (sv_codec env) (sv_compression env) bytes (Some json_type)
      in blob_verify (sv_codec env) fs b
         \<longrightarrow> (case fs (blob_path b) of None \<Rightarrow> False
              | Some stored \<Rightarrow> blob_decode (sv_codec env) stored (br_compression b) = Some bytes))"

lemma stored_exactly:
  assumes "fs (blob_path b) = Some stored" "blob_decode z stored (br_compression b) = Some bytes"
    and "sha256_hex bytes = br_hash b" "length bytes = br_size b" "blob_well_formed b"
  shows "get_relative_verified z fs (blob_relative_path b) = Inr bytes"
proof -
  have "blob_verify z fs b"
    using assms by (simp add: blob_verify_def)
  then obtain out where out: "get_relative_verified z fs (blob_relative_path b) = Inr out"
    using verify_reads_back assms(5) by blast
  then have "get_relative z fs (blob_relative_path b) = Inr out"
    by (auto simp: get_relative_verified_def Let_def split: if_splits)
  moreover have "get_relative z fs (blob_relative_path b) = Inr bytes"
    using assms by (simp add: get_relative_def parse_printed)
  ultimately show ?thesis
    using out by simp
qed

text \<open>The payload prepared for a message is what its recovery reads.\<close>

lemma prepared_payload_readable:
  assumes "prepare_message_recovery env m d = (ws, Inr (recovery, cleanup))"
    and "honest_codec env m" "no_collision env (sv_encode_message env (sv_redact_message env m)) (du_blobs d)"
  shows "(\<exists>fs. apply_writes ws d = d\<lparr>du_blobs := fs\<rparr> \<and> recover_message env fs recovery = Inr (sv_redact_message env m))
    \<and> length ws \<le> 1"
proof -
  define sm where "sm = sv_redact_message env m"
  define bytes where "bytes = sv_encode_message env sm"
  define b where "b = reference_for (sv_codec env) (sv_compression env) bytes (Some json_type)"
  have dec: "sv_decode_message env bytes = Some sm"
    using assms(2) by (simp add: honest_codec_def bytes_def sm_def)
  show ?thesis
  proof (cases "fits_inline env sm")
    case True
    then have "ws = []" "recovery = InlineRecovery sm"
      using assms(1) by (simp_all add: prepare_message_recovery_def Let_def sm_def)
    then show ?thesis
      by (intro conjI exI [of _ "du_blobs d"]) (simp_all add: recover_message_def sm_def)
  next
    case False
    note unfolded = assms(1) [unfolded prepare_message_recovery_def Let_def, folded sm_def, folded bytes_def, folded b_def]
    show ?thesis
    proof (cases "blob_verify (sv_codec env) (du_blobs d) b")
      case True
      then have "ws = []" "recovery = BlobRecovery b"
        using unfolded False
        by (auto simp: put_blob_def blob_put_def Let_def b_def io_bind_def split: if_splits sum.splits)
      moreover obtain stored where "du_blobs d (blob_path b) = Some stored"
        "blob_decode (sv_codec env) stored (br_compression b) = Some bytes"
        using assms(3) True
        by (auto simp: no_collision_def Let_def sm_def bytes_def b_def split: option.splits)
      then have "get_relative_verified (sv_codec env) (du_blobs d) (blob_relative_path b) = Inr bytes"
        by (rule stored_exactly) (simp_all add: b_def reference_for_claims)
      ultimately show ?thesis
        using dec by (intro conjI exI [of _ "du_blobs d"]) (simp_all add: recover_message_def sm_def)
    next
      case False': False
      let ?enc = "blob_encode (sv_codec env) bytes (br_compression b)"
      have "ws = [BlobWrite (blob_path b) ?enc]" "recovery = BlobRecovery b"
        using unfolded False False'
        by (auto simp: put_blob_def blob_put_def Let_def b_def io_bind_def split: if_splits sum.splits option.splits)
      moreover have "blob_decode (sv_codec env) ?enc (br_compression b) = Some bytes"
        using assms(2) by (simp add: blob_decode_def blob_encode_def honest_codec_def split: blob_compression.split)
      then have "get_relative_verified (sv_codec env) ((du_blobs d)(blob_path b \<mapsto> ?enc)) (blob_relative_path b) = Inr bytes"
        by (intro stored_exactly [where stored = ?enc]) (simp_all add: b_def reference_for_claims)
      ultimately show ?thesis
        using dec
        by (intro conjI exI [of _ "(du_blobs d)(blob_path b \<mapsto> ?enc)"]) (simp_all add: recover_message_def sm_def)
    qed
  qed
qed

text \<open>The intent log around one transaction.\<close>

definition wal_quiet :: "wal_entry list \<Rightarrow> event_id \<Rightarrow> bool" where
  "wal_quiet w tx \<longleftrightarrow>
     length w + 2 \<le> max_wal_entries
     \<and> (\<exists>seen. fold_res wal_step w ([], []) = Inr ([], seen) \<and> tx \<notin> set seen)"

lemma wal_quiet_pending:
  assumes "wal_quiet w tx"
  shows "read_pending w = Inr []"
    and "wp_event_id p = tx \<Longrightarrow> read_pending (w @ [PrepareEntry tx p])
      = Inr [\<lparr> pp_tx_id = tx, pp_envelope = p, pp_record = None \<rparr>]"
    and "wp_event_id p = tx \<Longrightarrow> read_pending (w @ [PrepareEntry tx p, CommitEntry tx]) = Inr []"
proof -
  obtain seen where seen: "fold_res wal_step w ([], []) = Inr ([], seen)" "tx \<notin> set seen"
    and len: "length w + 2 \<le> max_wal_entries"
    using assms by (auto simp: wal_quiet_def)
  show "read_pending w = Inr []"
    using seen len by (simp add: read_pending_def del: bind_res_Inr)
  assume p: "wp_event_id p = tx"
  show "read_pending (w @ [PrepareEntry tx p])
      = Inr [\<lparr> pp_tx_id = tx, pp_envelope = p, pp_record = None \<rparr>]"
    using seen len p by (simp add: read_pending_def fold_res_append del: bind_res_Inr)
  show "read_pending (w @ [PrepareEntry tx p, CommitEntry tx]) = Inr []"
    using seen len p by (simp add: read_pending_def fold_res_append bt_remove_def del: bind_res_Inr)
qed
text \<open>Ignored events are staged events of an aborted compaction.\<close>

lemma set_between: "set (between i j es) \<subseteq> set es"
  using set_take_subset set_drop_subset unfolding between_def by (metis subset_trans)

lemma ignored_are_staged:
  "i \<in> set (aborted_compaction_event_ids es) \<Longrightarrow> \<exists>e \<in> set es. entry_id e = i \<and> staged_event (entry_event e)"
proof -
  let ?S = "{entry_id e | e. e \<in> set es \<and> staged_event (entry_event e)}"
  have grow: "snd (ignored_step es x s) = snd s
      \<or> (\<exists>a b. snd (ignored_step es x s)
            = snd s @ map entry_id (filter (\<lambda>c. staged_event (entry_event c)) (between a b es)))" for x s
    by (cases x; cases s; cases "entry_event (snd x)") (auto simp: ignored_step_def split: option.splits)
  have step: "set (snd (ignored_step es x s)) \<subseteq> ?S" if "set (snd s) \<subseteq> ?S" for x s
  proof (rule disjE [OF grow [of x s]])
    assume "snd (ignored_step es x s) = snd s"
    then show ?thesis using that by simp
  next
    assume "\<exists>a b. snd (ignored_step es x s)
        = snd s @ map entry_id (filter (\<lambda>c. staged_event (entry_event c)) (between a b es))"
    then obtain a b where "snd (ignored_step es x s)
        = snd s @ map entry_id (filter (\<lambda>c. staged_event (entry_event c)) (between a b es))"
      by blast
    moreover have "e \<in> set es" if "e \<in> set (between a b es)" for e
      using set_between that by blast
    then have "set (map entry_id (filter (\<lambda>c. staged_event (entry_event c)) (between a b es))) \<subseteq> ?S"
      by auto
    ultimately show ?thesis using that by simp
  qed
  have "set (snd (fold (ignored_step es) xs s)) \<subseteq> ?S" if "set (snd s) \<subseteq> ?S" for xs s
    using that
  proof (induction xs arbitrary: s)
    case (Cons x xs)
    then show ?case using step [OF Cons.prems, of x] by simp
  qed simp
  from this [of "(None, [])"] show "i \<in> set (aborted_compaction_event_ids es) \<Longrightarrow> ?thesis"
    by (auto simp: aborted_compaction_event_ids_def)
qed

text \<open>The events that carry a message, other than the summary staged by a compaction.\<close>

fun carries_message :: "agent_event \<Rightarrow> bool" where
  "carries_message (UserMessageEv _) = True"
| "carries_message (ExternalContextEv _) = True"
| "carries_message (ToolCompletedEv _) = True"
| "carries_message (ToolFailedEv _) = True"
| "carries_message (ToolUnknownEv _) = True"
| "carries_message (ModelRequestCompletedEv _) = True"
| "carries_message _ = False"

lemma carries_message_facts:
  "carries_message e \<Longrightarrow> \<not> staged_event e"
  "carries_message e \<Longrightarrow> wal_kind_of e \<noteq> WalCompactionStarted"
  by (cases e; simp add: staged_event_def)+

text \<open>The states a message write and the recoveries after it pass through.\<close>

record message_write =
  mw_tx :: event_id
  mw_prepare :: wal_prepare
  mw_line :: trace_entry
  mw_record :: session_record
  mw_message :: message

definition payload_ready :: "store_env \<Rightarrow> message_write \<Rightarrow> durable \<Rightarrow> bool" where
  "payload_ready env x c \<longleftrightarrow>
     (case wp_recovery (mw_prepare x) of
        None \<Rightarrow> False
      | Some r \<Rightarrow> recover_message env (du_blobs c) r = Inr (mw_message x))"

definition passes_through :: "store_env \<Rightarrow> durable \<Rightarrow> message_write \<Rightarrow> durable \<Rightarrow> bool" where
  "passes_through env d x c \<longleftrightarrow>
     (let w = du_wal d; p = PrepareEntry (mw_tx x) (mw_prepare x); z = CommitEntry (mw_tx x);
          t = du_trace d; t' = t @ [mw_line x]; r = du_records d; r' = r @ [mw_record x];
          s = (du_wal c, du_trace c, du_records c)
      in s \<in> {(w, t, r), (w @ [p, z], t, r), ([], t, r), (w @ [p], t', r'), (w @ [p, z], t', r'), ([], t', r')}
         \<or> s \<in> {(w @ [p], t, r), (w @ [p], t', r)} \<and> payload_ready env x c)"

text \<open>What the theorem asks of the write: a message event with a fresh identity, and its parts.\<close>

definition message_write_of ::
  "store_env \<Rightarrow> durable \<Rightarrow> event_envelope \<Rightarrow> message \<Rightarrow> message_write \<Rightarrow> bool" where
  "message_write_of env d envelope m x \<longleftrightarrow>
     mw_tx x = em_event_id (ee_meta envelope) \<and> wp_event_id (mw_prepare x) = mw_tx x
     \<and> wp_kind (mw_prepare x) \<noteq> WalCompactionStarted
     \<and> wal_quiet (du_wal d) (mw_tx x) \<and> length (du_records d) + 2 \<le> usize_max
     \<and> entry_for (mw_tx x) (du_trace d) = None \<and> \<not> projected_message (mw_tx x) (du_records d)
     \<and> entry_id (mw_line x) = mw_tx x \<and> \<not> staged_event (entry_event (mw_line x))
     \<and> sv_wal_fits env (CommitEntry (mw_tx x))
     \<and> (\<exists>q. mw_record x = MessageRec q \<and> sm_event_id q = mw_tx x)
     \<and> (\<exists>s r. entry_seq (mw_line x) = Some s
          \<and> message_record (tn_envelope (mw_line x)) (mw_message x) s = Inr r \<and> sm_event_id r = mw_tx x
          \<and> sv_redact_record env (MessageRec r) = mw_record x
          \<and> sv_record_fits env (mw_record x))"

lemma entry_for_append:
  "entry_for i (t @ [e]) = (case entry_for i t of None \<Rightarrow> (if entry_id e = i then Some e else None) | Some x \<Rightarrow> Some x)"
  by (induction t) (auto simp: entry_for_def)

lemma projected_message_append:
  "projected_message i (rs @ [MessageRec q]) \<longleftrightarrow> projected_message i rs \<or> sm_event_id q = i"
  by (simp add: projected_message_def)

lemma has_projection_message:
  "has_projection_for (MessageRec r) rs \<longleftrightarrow> projected_message (sm_event_id r) rs"
  by (auto simp: has_projection_for_def projected_message_def list_ex_iff split: session_record.splits)
    (metis same_projection.simps(1) session_record.exhaust same_projection.simps(6-30))+

lemma not_aborted:
  assumes "entry_for i t = None" "entry_id e = i" "\<not> staged_event (entry_event e)"
  shows "i \<notin> set (aborted_compaction_event_ids (t @ [e]))"
proof
  assume "i \<in> set (aborted_compaction_event_ids (t @ [e]))"
  then obtain x where "x \<in> set (t @ [e])" "entry_id x = i" "staged_event (entry_event x)"
    using ignored_are_staged by blast
  then show False
    using assms by (auto simp: entry_for_def find_None_iff)
qed

lemma commit_writes:
  assumes "sv_wal_fits env (CommitEntry tx)" "read_pending (du_wal c @ [CommitEntry tx]) = Inr []"
  shows "wal_commit env tx c = ([WalAppend (CommitEntry tx), WalClear], Inr ())"
  using assms
  by (simp add: wal_commit_def wal_append_def wal_pending_def io_bind_def)

lemma settle_quiet:
  "read_pending (du_wal c) = Inr [] \<Longrightarrow> settle_intents env c = ([], Inr ())"
  by (simp add: settle_intents_def wal_pending_def io_bind_def)

text \<open>The only pending intent is the message write; its event was written or not, projected or not.\<close>

lemma settle_one:
  assumes x: "message_write_of env d envelope m x"
    and wal: "du_wal c = du_wal d @ [PrepareEntry (mw_tx x) (mw_prepare x)]"
  shows "du_trace c = du_trace d \<Longrightarrow>
      settle_intents env c = ([WalAppend (CommitEntry (mw_tx x)), WalClear], Inr ())"
    and "du_trace c = du_trace d @ [mw_line x] \<Longrightarrow> du_records c = du_records d @ [mw_record x] \<Longrightarrow>
      settle_intents env c = ([WalAppend (CommitEntry (mw_tx x)), WalClear], Inr ())"
    and "du_trace c = du_trace d @ [mw_line x] \<Longrightarrow> du_records c = du_records d \<Longrightarrow> payload_ready env x c \<Longrightarrow>
      settle_intents env c
        = ([LogAppend (mw_record x), WalAppend (CommitEntry (mw_tx x)), WalClear], Inr ())"
proof -
  let ?i = "\<lparr> pp_tx_id = mw_tx x, pp_envelope = mw_prepare x, pp_record = None \<rparr>"
  have p: "wp_event_id (mw_prepare x) = mw_tx x" and kind: "wp_kind (mw_prepare x) \<noteq> WalCompactionStarted"
    and quiet: "wal_quiet (du_wal d) (mw_tx x)" and fit: "sv_wal_fits env (CommitEntry (mw_tx x))"
    and absent: "entry_for (mw_tx x) (du_trace d) = None"
    and unprojected: "\<not> projected_message (mw_tx x) (du_records d)"
    and line: "entry_id (mw_line x) = mw_tx x" "\<not> staged_event (entry_event (mw_line x))"
    using x by (auto simp: message_write_of_def)
  note pending = wal_quiet_pending [OF quiet]
  have read: "read_pending (du_wal c) = Inr [?i]"
    using pending(2) [OF p] wal by simp
  have commit: "wal_commit env (mw_tx x) c' = ([WalAppend (CommitEntry (mw_tx x)), WalClear], Inr ())"
    if "du_wal c' = du_wal c" for c'
    by (rule commit_writes) (use fit pending(3) [OF p] wal that in simp_all)
  have settle: "settle_intents env c = settle_all env (du_trace c) [?i] (du_records c) c"
    using read by (simp add: settle_intents_def wal_pending_def io_bind_def del: settle_all.simps)
  show "settle_intents env c = ([WalAppend (CommitEntry (mw_tx x)), WalClear], Inr ())"
    if "du_trace c = du_trace d"
    using absent commit [of c] that by (simp add: settle settle_intent_def p io_bind_def)
  have found: "entry_for (mw_tx x) (du_trace d @ [mw_line x]) = Some (mw_line x)"
    using absent line(1) by (simp add: entry_for_append)
  have ok: "mw_tx x \<notin> set (aborted_compaction_event_ids (du_trace d @ [mw_line x]))"
    by (rule not_aborted [OF absent line])
  have project: "settle_intents env c
      = io_bind (project_intent env (du_trace c) ?i (mw_line x) (du_records c)) (settle_all env (du_trace c) []) c"
    if "du_trace c = du_trace d @ [mw_line x]"
    using found ok kind line(1) that by (simp add: settle settle_intent_def p)
  show "settle_intents env c = ([WalAppend (CommitEntry (mw_tx x)), WalClear], Inr ())"
    if t: "du_trace c = du_trace d @ [mw_line x]" and r: "du_records c = du_records d @ [mw_record x]"
  proof -
    have "projected_message (mw_tx x) (du_records c)"
      using x r by (auto simp: message_write_of_def projected_message_append)
    then show ?thesis
      using commit [of c] by (simp add: project [OF t] project_intent_def p io_bind_def)
  qed
  show "settle_intents env c
      = ([LogAppend (mw_record x), WalAppend (CommitEntry (mw_tx x)), WalClear], Inr ())"
    if t: "du_trace c = du_trace d @ [mw_line x]" and r: "du_records c = du_records d"
      and ready: "payload_ready env x c"
  proof -
    obtain s q where s: "entry_seq (mw_line x) = Some s"
      and q: "message_record (tn_envelope (mw_line x)) (mw_message x) s = Inr q" "sm_event_id q = mw_tx x"
      and red: "sv_redact_record env (MessageRec q) = mw_record x" and fits: "sv_record_fits env (mw_record x)"
      using x by (auto simp: message_write_of_def)
    have room: "length (du_records d) + 2 \<le> usize_max"
      using x by (simp add: message_write_of_def)
    have "recover_projection_record env (du_blobs c) (mw_line x) (du_trace c) (du_records c)
        (wp_recovery (mw_prepare x)) = Inr (Some (MessageRec q))"
      using ready s q by (auto simp: recover_projection_record_def payload_ready_def split: option.splits)
    moreover have "\<not> has_projection_for (MessageRec q) (du_records c)"
      using unprojected r q(2) by (simp add: has_projection_message)
    ultimately show ?thesis
      using commit [of "c\<lparr>du_records := du_records c @ [mw_record x]\<rparr>"] unprojected r red fits room
      by (simp add: project [OF t] project_intent_def p io_bind_def log_append_def)
  qed
qed


lemma passes_through_cases:
  assumes "message_write_of env d envelope m x" "passes_through env d x c"
  shows "(read_pending (du_wal c) = Inr [] \<and> (du_trace c, du_records c)
           \<in> {(du_trace d, du_records d), (du_trace d @ [mw_line x], du_records d @ [mw_record x])})
    \<or> du_wal c = du_wal d @ [PrepareEntry (mw_tx x) (mw_prepare x)]
      \<and> ((du_trace c, du_records c)
           \<in> {(du_trace d, du_records d), (du_trace d @ [mw_line x], du_records d @ [mw_record x])}
         \<or> (du_trace c, du_records c) = (du_trace d @ [mw_line x], du_records d) \<and> payload_ready env x c)"
proof -
  have quiet: "wal_quiet (du_wal d) (mw_tx x)" and p: "wp_event_id (mw_prepare x) = mw_tx x"
    using assms(1) unfolding message_write_of_def by blast+
  have "read_pending [] = Inr []"
    by (simp add: read_pending_def)
  with wal_quiet_pending(1) [OF quiet] wal_quiet_pending(3) [OF quiet p] assms(2) show ?thesis
    by (auto simp: passes_through_def Let_def)
qed

lemma settle_passes_through:
  assumes x: "message_write_of env d envelope m x" and c: "passes_through env d x c"
  shows "\<exists>ws. settle_intents env c = (ws, Inr ())
    \<and> (\<forall>k \<le> length ws. passes_through env d x (apply_writes (take k ws) c))
    \<and> read_pending (du_wal (apply_writes ws c)) = Inr []
    \<and> du_trace (apply_writes ws c) = du_trace c
    \<and> (du_trace (apply_writes ws c), du_records (apply_writes ws c))
        \<in> {(du_trace d, du_records d), (du_trace d @ [mw_line x], du_records d @ [mw_record x])}"
  using passes_through_cases [OF x c]
proof (elim disjE conjE)
  assume "read_pending (du_wal c) = Inr []"
    and "(du_trace c, du_records c)
           \<in> {(du_trace d, du_records d), (du_trace d @ [mw_line x], du_records d @ [mw_record x])}"
  then show ?thesis
    using settle_quiet [of c env] c by auto
next
  assume wal: "du_wal c = du_wal d @ [PrepareEntry (mw_tx x) (mw_prepare x)]"
    and s: "(du_trace c, du_records c)
           \<in> {(du_trace d, du_records d), (du_trace d @ [mw_line x], du_records d @ [mw_record x])}"
  then have "settle_intents env c = ([WalAppend (CommitEntry (mw_tx x)), WalClear], Inr ())"
    using settle_one(1,2) [OF x wal] by auto
  moreover have "passes_through env d x (apply_writes (take k [WalAppend (CommitEntry (mw_tx x)), WalClear]) c)"
    for k
    using s wal c by (cases k; cases "k - 1") (auto simp: passes_through_def Let_def)
  ultimately show ?thesis
    using s by (auto simp: read_pending_def)
next
  assume wal: "du_wal c = du_wal d @ [PrepareEntry (mw_tx x) (mw_prepare x)]"
    and s: "(du_trace c, du_records c) = (du_trace d @ [mw_line x], du_records d)"
    and ready: "payload_ready env x c"
  then have "settle_intents env c
      = ([LogAppend (mw_record x), WalAppend (CommitEntry (mw_tx x)), WalClear], Inr ())"
    using settle_one(3) [OF x wal] by simp
  moreover have "passes_through env d x
      (apply_writes (take k [LogAppend (mw_record x), WalAppend (CommitEntry (mw_tx x)), WalClear]) c)"
    for k
    using s wal c by (cases k; cases "k - 1"; cases "k - 2") (auto simp: passes_through_def Let_def)
  ultimately show ?thesis
    using s by (auto simp: read_pending_def)
qed
lemma recovered_readable_redacted:
  assumes "recover_message env fs r = Inr m" "sv_redact_message env m = m"
  shows "recover_message env fs (wal_redact_recovery env r) = Inr m"
  using assms by (cases r) (simp_all add: recover_message_def)

text \<open>The writes of a message that is emitted without interruption.\<close>

lemma emit_writes:
  assumes run: "emit_new_message env envelope m d = (ws, Inr done_env)"
    and honest: "honest_env env m" and event: "carries_message (ee_event envelope)"
    and quiet: "wal_quiet (du_wal d) (em_event_id (ee_meta envelope))"
    and fresh: "entry_for (em_event_id (ee_meta envelope)) (du_trace d) = None"
      "\<not> projected_message (em_event_id (ee_meta envelope)) (du_records d)"
    and payload: "no_collision env (sv_encode_message env (sv_redact_message env m)) (du_blobs d)"
  shows "\<exists>ws0 fs x. ws = ws0 @ [WalAppend (PrepareEntry (mw_tx x) (mw_prepare x)),
        TraceAppend (mw_line x), LogAppend (mw_record x), WalAppend (CommitEntry (mw_tx x)), WalClear]
    \<and> length ws0 \<le> 1 \<and> apply_writes ws0 d = d\<lparr>du_blobs := fs\<rparr>
    \<and> payload_ready env x (d\<lparr>du_blobs := fs\<rparr>) \<and> message_write_of env d envelope m x
    \<and> mw_tx x = em_event_id (ee_meta envelope)
    \<and> sv_line env (plain_entry done_env) = Some (mw_line x)
    \<and> (\<exists>q. message_record done_env m (the (em_seq (ee_meta done_env))) = Inr q
          \<and> mw_record x = sv_redact_record env (MessageRec q))"
proof -
  let ?tx = "em_event_id (ee_meta envelope)" and ?sm = "sv_redact_message env m"
  have line: "honest_line env" and red: "honest_redaction env" and codec: "honest_codec env m"
    using honest by (simp_all add: honest_env_def)
  obtain vs recovery cleanup s l q us'
    where prep: "prepare_message_recovery env m d = (vs, Inr (recovery, cleanup))"
      and seq: "checked_next_seq (du_trace (apply_write (WalAppend (PrepareEntry ?tx
        ((wal_prepare_of envelope)\<lparr>wp_recovery := Some (wal_redact_recovery env recovery)\<rparr>))) (apply_writes vs d))) = Inr s"
      and l: "sv_line env (plain_entry (with_seq s envelope)) = Some l"
      and q: "message_record (with_seq s envelope) m s = Inr q"
      and fits: "sv_record_fits env (sv_redact_record env (MessageRec q))"
      and commit: "wal_commit env ?tx (apply_writes [WalAppend (PrepareEntry ?tx
          ((wal_prepare_of envelope)\<lparr>wp_recovery := Some (wal_redact_recovery env recovery)\<rparr>)), TraceAppend l,
        LogAppend (sv_redact_record env (MessageRec q))] (apply_writes vs d)) = (us', Inr ())"
      and room: "length (du_records (apply_writes vs d)) + 2 \<le> usize_max"
      and ws: "ws = vs @ [WalAppend (PrepareEntry ?tx
          ((wal_prepare_of envelope)\<lparr>wp_recovery := Some (wal_redact_recovery env recovery)\<rparr>)), TraceAppend l,
        LogAppend (sv_redact_record env (MessageRec q))] @ us'"
      and fin: "done_env = with_seq s envelope"
    using run unfolding emit_new_message_def
    by (auto elim!: io_bind_success simp: io_lift_success validate_record_size_def io_on_error_success
        journal_append_success wal_append_success log_append_success wal_prepare_with_recovery_def Let_def
        split: if_splits)
  obtain fs where fs: "apply_writes vs d = d\<lparr>du_blobs := fs\<rparr>" and readable: "recover_message env fs recovery = Inr ?sm"
    and short: "length vs \<le> 1"
    using prepared_payload_readable [OF prep codec payload] by auto
  define p where "p = (wal_prepare_of envelope)\<lparr>wp_recovery := Some (wal_redact_recovery env recovery)\<rparr>"
  have p: "wp_event_id p = ?tx" "wp_kind p = wal_kind_of (ee_event envelope)"
    by (simp_all add: p_def wal_prepare_of_def)
  have cfit: "sv_wal_fits env (CommitEntry ?tx)"
    using codec by (simp add: honest_codec_def)
  have "us' = [WalAppend (CommitEntry ?tx), WalClear]"
    using commit commit_writes [OF cfit] wal_quiet_pending(3) [OF quiet p(1)] fs p_def by simp
  define x where "x = \<lparr> mw_tx = ?tx, mw_prepare = p, mw_line = l,
    mw_record = sv_redact_record env (MessageRec q), mw_message = ?sm \<rparr>"
  have meta: "entry_meta l = (ee_meta envelope)\<lparr>em_seq := Some s\<rparr>"
    "staged_event (entry_event l) = staged_event (ee_event envelope)"
    using line l by (auto simp: honest_line_def plain_entry_def with_seq_def)
  obtain turn epoch model where att: "em_turn_id (ee_meta envelope) = Some turn"
    "em_model_epoch (ee_meta envelope) = Some epoch" "em_model (ee_meta envelope) = Some model"
    using q by (auto simp: message_record_Inr with_seq_def)
  define q' where "q' = q\<lparr>sm_role := msg_role ?sm, sm_message := ?sm,
    sm_external_context := external_of (entry_event l)\<rparr>"
  have rec': "message_record (tn_envelope l) ?sm s = Inr q'"
    using q att meta(1) by (auto simp: message_record_Inr q'_def with_seq_def)
  have "sv_redact_record env (MessageRec (r\<lparr>sm_role := msg_role ?sm, sm_message := ?sm,
        sm_external_context := external_of (entry_event l)\<rparr>))
      = sv_redact_record env (MessageRec (r\<lparr>sm_role := msg_role m, sm_message := m,
        sm_external_context := external_of (entry_event (plain_entry (with_seq s envelope)))\<rparr>))" for r
    using red l unfolding honest_redaction_def by blast
  then have "sv_redact_record env (MessageRec q') = sv_redact_record env (MessageRec
      (q\<lparr>sm_role := msg_role m, sm_message := m, sm_external_context := external_of (ee_event envelope)\<rparr>))"
    by (simp add: q'_def plain_entry_def with_seq_def)
  moreover have "q\<lparr>sm_role := msg_role m, sm_message := m, sm_external_context := external_of (ee_event envelope)\<rparr> = q"
    using q by (auto simp: message_record_Inr with_seq_def)
  ultimately have same: "sv_redact_record env (MessageRec q') = sv_redact_record env (MessageRec q)"
    by simp
  have ids: "sm_event_id q = ?tx" "sm_event_id q' = ?tx"
    using q by (auto simp: message_record_Inr with_seq_def q'_def)
  obtain q'' where q'': "sv_redact_record env (MessageRec q) = MessageRec q''" "sm_event_id q'' = ?tx"
    using red ids unfolding honest_redaction_def by metis
  have "message_write_of env d envelope m x"
    using p quiet fresh cfit carries_message_facts [OF event] meta q'' rec' ids same fits room fs
    by (auto simp: message_write_of_def x_def)
  moreover have "payload_ready env x (d\<lparr>du_blobs := fs\<rparr>)"
    using recovered_readable_redacted [OF readable] red
    by (simp add: payload_ready_def x_def p_def honest_redaction_def)
  ultimately show ?thesis
    using ws fs short p_def \<open>us' = _\<close> l q fin
    by (intro exI [of _ vs] exI [of _ fs] exI [of _ x]) (auto simp: x_def with_seq_def)
qed
text \<open>The states left by a crash of the write and by crashes of any number of recoveries.\<close>

inductive after_crashes :: "store_env \<Rightarrow> event_envelope \<Rightarrow> message \<Rightarrow> durable \<Rightarrow> durable \<Rightarrow> bool"
  for env envelope m d where
  write_crashed: "c \<in> crash_states (emit_message env envelope m) d \<Longrightarrow> after_crashes env envelope m d c"
| recovery_crashed: "after_crashes env envelope m d c \<Longrightarrow> c' \<in> crash_states (settle_intents env) c \<Longrightarrow>
    after_crashes env envelope m d c'"

lemma write_passes_through:
  assumes ws: "ws = ws0 @ [WalAppend (PrepareEntry (mw_tx x) (mw_prepare x)),
        TraceAppend (mw_line x), LogAppend (mw_record x), WalAppend (CommitEntry (mw_tx x)), WalClear]"
    and ws0: "length ws0 \<le> 1" "apply_writes ws0 d = d\<lparr>du_blobs := fs\<rparr>"
    and ready: "payload_ready env x (d\<lparr>du_blobs := fs\<rparr>)"
    and k: "k \<le> length ws"
  shows "passes_through env d x (apply_writes (take k ws) d)"
proof (cases "k < length ws0")
  case True
  then have "k = 0"
    using ws0(1) by simp
  then show ?thesis
    by (simp add: passes_through_def Let_def)
next
  case False
  define j where "j = k - length ws0"
  have "take k ws = ws0 @ take j [WalAppend (PrepareEntry (mw_tx x) (mw_prepare x)),
        TraceAppend (mw_line x), LogAppend (mw_record x), WalAppend (CommitEntry (mw_tx x)), WalClear]"
    using False by (simp add: ws j_def)
  moreover have "j \<in> {0, 1, 2, 3, 4, 5}"
    using k False by (auto simp: ws j_def)
  ultimately show ?thesis
    using ws0(2) ready by (elim insertE emptyE) (simp_all add: passes_through_def Let_def payload_ready_def split: option.splits)
qed

text \<open>C4:
  a message and its event are written together or not at all: wherever the write of a message
  is cut off by a crash, and however often the recovery itself is cut off, the next recovery
  completes, leaves no pending intent and does not touch the trace, and the session log then
  holds the message exactly if the trace holds its event; the message is the one that was
  written.\<close>

theorem message_write_is_atomic:
  assumes run: "emit_message env envelope m d = (ws, Inr done_env)" "em_seq (ee_meta envelope) = None"
    and honest: "honest_env env m" and event: "carries_message (ee_event envelope)"
    and quiet: "wal_quiet (du_wal d) (em_event_id (ee_meta envelope))"
    and fresh: "entry_for (em_event_id (ee_meta envelope)) (du_trace d) = None"
      "\<not> projected_message (em_event_id (ee_meta envelope)) (du_records d)"
    and payload: "no_collision env (sv_encode_message env (sv_redact_message env m)) (du_blobs d)"
    and crashed: "after_crashes env envelope m d c"
  shows "snd (settle_intents env c) = Inr ()
    \<and> read_pending (du_wal (run_io (settle_intents env) c)) = Inr []
    \<and> du_trace (run_io (settle_intents env) c) = du_trace c
    \<and> (\<exists>l q. sv_line env (plain_entry done_env) = Some l
         \<and> message_record done_env m (the (em_seq (ee_meta done_env))) = Inr q
         \<and> (du_trace c = du_trace d \<and> du_records (run_io (settle_intents env) c) = du_records d
            \<or> du_trace c = du_trace d @ [l]
              \<and> du_records (run_io (settle_intents env) c)
                  = du_records d @ [sv_redact_record env (MessageRec q)]))"
proof -
  have new: "emit_message env envelope m = emit_new_message env envelope m"
    using run(2) by (simp add: emit_message_def fun_eq_iff)
  obtain ws0 fs x where parts: "ws = ws0 @ [WalAppend (PrepareEntry (mw_tx x) (mw_prepare x)),
        TraceAppend (mw_line x), LogAppend (mw_record x), WalAppend (CommitEntry (mw_tx x)), WalClear]"
      "length ws0 \<le> 1" "apply_writes ws0 d = d\<lparr>du_blobs := fs\<rparr>"
      "payload_ready env x (d\<lparr>du_blobs := fs\<rparr>)"
    and x: "message_write_of env d envelope m x"
    and l: "sv_line env (plain_entry done_env) = Some (mw_line x)"
    and q: "\<exists>q. message_record done_env m (the (em_seq (ee_meta done_env))) = Inr q
          \<and> mw_record x = sv_redact_record env (MessageRec q)"
    using emit_writes [OF run(1) [unfolded new] honest event quiet fresh payload] by blast
  have "passes_through env d x c"
    using crashed
  proof induction
    case (write_crashed c)
    then show ?case
      using write_passes_through [OF parts] run(1) by (auto simp: crash_states_def)
  next
    case (recovery_crashed c c')
    then show ?case
      using settle_passes_through [OF x, of c] by (auto simp: crash_states_def)
  qed
  then show ?thesis
    using settle_passes_through [OF x, of c] l q by (auto simp: run_io_def)
qed

section \<open>A sample write\<close>

definition sample_env :: store_env where
  "sample_env =
     \<lparr> sv_session_id = ''session'', sv_inline_threshold = 4096, sv_codec = (id, Some),
       sv_compression = NoCompression, sv_redact_message = id, sv_redact_record = id,
       sv_encode_message = message_text, sv_decode_message = (\<lambda>t. Some (user_message t)),
       sv_line = Some, sv_record_fits = (\<lambda>_. True), sv_wal_fits = (\<lambda>_. True),
       sv_rehydrate = entry_event, sv_read_capsule = (\<lambda>_. None),
       sv_store_capsule = Some, sv_redact_payload = id, sv_encode_messages = (\<lambda>_. []),
       sv_mint = (\<lambda>_. (''id'', ''span'', 0)) \<rparr>"

definition sample_user_envelope :: event_envelope where
  "sample_user_envelope =
     new_envelope ((new_meta ''u1'' ''span'' 0 ''session'' ''trace'')
         \<lparr>em_turn_id := Some ''turn'', em_model_epoch := Some 0,
          em_model := Some \<lparr> mr_provider = ''local'', mr_model = ''model'' \<rparr>\<rparr>)
       (UserMessageEv \<lparr> um_text = ''hi'', um_attachments = 0 \<rparr>)"

definition empty_session :: durable where
  "empty_session = \<lparr> du_trace = [], du_records = [], du_wal = [], du_blobs = Map.empty \<rparr>"

lemma sample_honest: "honest_env sample_env (user_message t)"
  by (simp add: honest_env_def honest_line_def honest_redaction_def honest_codec_def sample_env_def
      message_text_def user_message_def new_message_def List.map_filter_simps)

lemma sample_quiet: "wal_quiet (du_wal empty_session) tx"
  by (simp add: wal_quiet_def empty_session_def max_wal_entries_def)

lemma sample_steps:
  "prepare_message_recovery sample_env (user_message ''hi'') d = ([], Inr (InlineRecovery (user_message ''hi''), None))"
  "validate_record_size sample_env r d = ([], Inr ())"
  "wal_append sample_env e d = ([WalAppend (wal_redact sample_env e)], Inr ())"
  "is_header_record r = False \<Longrightarrow> du_records d = [] \<Longrightarrow> log_append sample_env r d = ([LogAppend r], Inr ())"
  "journal_last_seq (du_trace d) = None \<Longrightarrow>
     journal_append sample_env envelope d = ([TraceAppend (plain_entry (with_seq 1 envelope))], Inr 1)"
  by (simp_all add: prepare_message_recovery_def validate_record_size_def wal_append_def log_append_def
      journal_append_def checked_next_seq_def io_bind_def sample_env_def fits_inline_def max_inline_message_bytes_def
      message_text_def user_message_def new_message_def List.map_filter_simps u64_max_def)

lemma sample_emit:
  "\<exists>ws done_env. emit_message sample_env sample_user_envelope (user_message ''hi'') empty_session = (ws, Inr done_env)
     \<and> length ws = 5"
  by (simp add: emit_message_def emit_new_message_def sample_user_envelope_def new_envelope_def
      new_meta_def message_record_def message_attribution_def io_bind_def io_on_error_def
      wal_prepare_with_recovery_def sample_steps checked_next_seq_def journal_last_seq_def
      with_seq_def wal_commit_def wal_pending_def empty_session_def wal_prepare_of_def
      read_pending_def max_wal_entries_def bt_remove_def Let_def)

theorem message_write_is_atomic_witness:
  "\<exists>c. c \<in> crash_states (emit_message sample_env sample_user_envelope (user_message ''hi'')) empty_session
     \<and> snd (settle_intents sample_env c) = Inr ()
     \<and> read_pending (du_wal (run_io (settle_intents sample_env) c)) = Inr []
     \<and> du_trace (run_io (settle_intents sample_env) c) = du_trace c"
proof -
  let ?run = "emit_message sample_env sample_user_envelope (user_message ''hi'')"
  obtain ws done_env where run: "?run empty_session = (ws, Inr done_env)" "length ws = 5"
    using sample_emit by blast
  let ?c = "apply_writes (take 2 ws) empty_session"
  have c: "?c \<in> crash_states ?run empty_session"
    using run by (auto simp: crash_states_def intro!: exI [of _ 2])
  have col: "no_collision sample_env bytes (du_blobs empty_session)" for bytes
    by (simp add: no_collision_def Let_def blob_verify_def empty_session_def)
  have ev: "carries_message (ee_event sample_user_envelope)" "em_seq (ee_meta sample_user_envelope) = None"
    by (simp_all add: sample_user_envelope_def new_envelope_def new_meta_def)
  have fresh: "entry_for i (du_trace empty_session) = None" "\<not> projected_message i (du_records empty_session)" for i
    by (simp_all add: entry_for_def projected_message_def empty_session_def)
  show ?thesis
    using message_write_is_atomic [OF run(1) ev(2) sample_honest ev(1) sample_quiet fresh col write_crashed [OF c]] c
    by (intro exI [of _ ?c] conjI) simp_all
qed

end
