(* ===== verification/Store_Trace.thy ===== *)
theory Store_Trace
  imports Session_Store
begin

text \<open>
  \<open>crates/rupi-runtime/src/store_trace.rs\<close>: the runtime's trace over one durable session. It
  decides which events carry a semantic record, remembers what an open compaction or checkpoint
  has staged, and keeps the start of a compaction pending until its completion.
\<close>

record store_trace =
  st_summary_pending :: bool
  st_range :: "(event_seq \<times> event_seq) option"
  st_checkpoint :: "session_checkpoint_record option"
  st_start :: "event_id option"

definition new_store_trace :: store_trace where
  "new_store_trace =
     \<lparr> st_summary_pending = False, st_range = None, st_checkpoint = None, st_start = None \<rparr>"

section \<open>Which record an event carries\<close>

definition completion_record :: "store_trace \<Rightarrow> compaction_completed \<Rightarrow> session_compaction_record" where
  "completion_record st c =
     (let has_summary = st_summary_pending st \<and> ccc_level c \<in> {L1Ordinary, L2Phase}
      in compaction_record_of c has_summary (if has_summary then st_range st else None))"

definition projection_of :: "store_trace \<Rightarrow> event_envelope \<Rightarrow> session_record option" where
  "projection_of st env =
     (case ee_event env of
        ModelEpochStartedEv e \<Rightarrow>
          Some (EpochRec \<lparr> se_epoch = mes_epoch e, se_model = mes_model e, se_reason = mes_reason e \<rparr>)
      | CheckpointCreatedEv _ \<Rightarrow> map_option CheckpointRec (st_checkpoint st)
      | CompactionCompletedEv c \<Rightarrow> Some (CompactionRec (completion_record st c))
      | ContextReducedEv r \<Rightarrow>
         (if crd_removed_messages r > 0
          then Some (ReductionRec
                 \<lparr> sr_event_id = em_event_id (ee_meta env), sr_seq = None, sr_reason = crd_reason r,
                   sr_removed_messages = crd_removed_messages r,
                   sr_retained_messages = crd_retained_messages r \<rparr>)
          else None)
      | _ \<Rightarrow> None)"

fun holds_for_message :: "agent_event \<Rightarrow> bool" where
  "holds_for_message (UserMessageEv _) = True"
| "holds_for_message (ExternalContextEv _) = True"
| "holds_for_message ContextSummaryEv = True"
| "holds_for_message (ToolCompletedEv _) = True"
| "holds_for_message (ToolFailedEv _) = True"
| "holds_for_message (ToolUnknownEv _) = True"
| "holds_for_message (ModelRequestCompletedEv c) \<longleftrightarrow> mrc_finish_reason c \<noteq> None"
| "holds_for_message _ = False"

fun holds_for_compaction :: "agent_event \<Rightarrow> bool" where
  "holds_for_compaction (CompactionStartedEv _) = True"
| "holds_for_compaction _ = False"

fun is_compaction_done :: "agent_event \<Rightarrow> bool" where
  "is_compaction_done (CompactionCompletedEv _) = True"
| "is_compaction_done _ = False"

section \<open>The trace operations\<close>

text \<open>What the trace remembers before and after the durable writes of an event.\<close>

definition note_range :: "agent_event \<Rightarrow> store_trace \<Rightarrow> store_trace" where
  "note_range e st =
     (case e of CompactionEpochEv c \<Rightarrow> st\<lparr>st_range := Some (cce_replaces_from c, cce_replaces_through c)\<rparr>
      | _ \<Rightarrow> st)"

definition after_emit :: "agent_event \<Rightarrow> event_id \<Rightarrow> store_trace \<Rightarrow> store_trace" where
  "after_emit e i st =
     (case e of
        CompactionStartedEv _ \<Rightarrow> st\<lparr>st_start := Some i\<rparr>
      | ContextSummaryEv \<Rightarrow> st\<lparr>st_summary_pending := True\<rparr>
      | CheckpointCreatedEv _ \<Rightarrow> st\<lparr>st_checkpoint := None\<rparr>
      | CompactionCompletedEv _ \<Rightarrow> st\<lparr>st_start := None, st_summary_pending := False, st_range := None\<rparr>
      | _ \<Rightarrow> st)"

definition trace_emit :: "store_env \<Rightarrow> event_envelope \<Rightarrow> store_trace \<Rightarrow> (event_envelope \<times> store_trace) io" where
  "trace_emit env envelope st =
     (let event = ee_event envelope;
          st' = note_range event st;
          projection = projection_of st' envelope;
          hold = holds_for_message event \<or> holds_for_compaction event
      in io_bind
           (if projection \<noteq> None \<or> hold then emit_transaction env envelope projection hold
            else session_emit env envelope) (\<lambda>written.
         io_bind
           (case (is_compaction_done event, st_start st') of
              (True, Some start) \<Rightarrow> commit_projection_intent env start
            | _ \<Rightarrow> io_return ()) (\<lambda>_.
         io_return (written, after_emit event (em_event_id (ee_meta envelope)) st'))))"

definition trace_emit_message ::
  "store_env \<Rightarrow> event_envelope \<Rightarrow> message \<Rightarrow> store_trace \<Rightarrow> (event_envelope \<times> store_trace) io" where
  "trace_emit_message env envelope m st =
     io_bind (emit_message env envelope m) (\<lambda>written.
       io_return (written, if ee_event envelope = ContextSummaryEv then st\<lparr>st_summary_pending := True\<rparr> else st))"

definition trace_put_payload :: "store_env \<Rightarrow> char list \<Rightarrow> blob_ref io" where
  "trace_put_payload env bytes = put_blob env (sv_redact_payload env bytes) None"

text \<open>
  \<open>prepare_checkpoint\<close>: the capsule file is written under a fresh name; the limits on its size
  and on the number of files are part of the parameter \<open>sv_store_capsule\<close>.
\<close>

definition prepare_checkpoint :: "store_env \<Rightarrow> context_capsule \<Rightarrow> session_checkpoint_record io" where
  "prepare_checkpoint env capsule =
     io_bind io_get (\<lambda>d.
       case sv_store_capsule env capsule of
         None \<Rightarrow> io_fail CapsuleTooLarge
       | Some durable_capsule \<Rightarrow>
          (let i = fst (sv_mint env (length (du_trace d)))
           in io_return \<lparr> sk_checkpoint_id = i, sk_capsule_version = cap_version durable_capsule,
                sk_context_epoch = 0, sk_capsule_path = ''checkpoints/'' @ i @ ''.json'',
                sk_capsule = durable_capsule \<rparr>))"

definition trace_create_checkpoint ::
  "store_env \<Rightarrow> context_capsule \<Rightarrow> store_trace \<Rightarrow> ((checkpoint_id \<times> string) \<times> store_trace) io" where
  "trace_create_checkpoint env capsule st =
     io_bind (prepare_checkpoint env capsule) (\<lambda>r.
       io_return ((sk_checkpoint_id r, sk_capsule_path r), st\<lparr>st_checkpoint := Some r\<rparr>))"

definition set_checkpoint_context_epoch :: "u32 \<Rightarrow> store_trace \<Rightarrow> store_trace io" where
  "set_checkpoint_context_epoch n st =
     (case st_checkpoint st of
        None \<Rightarrow> io_fail NoPreparedCheckpoint
      | Some r \<Rightarrow> io_return (st\<lparr>st_checkpoint := Some (r\<lparr>sk_context_epoch := n\<rparr>)\<rparr>))"

end
