(* ===== verification/Live_Context.thy ===== *)
theory Live_Context
  imports Store_Trace
begin

text \<open>
  \<open>crates/rupi-runtime/src/turn.rs\<close>: the live window of a turn loop and the operations that
  rewrite it: appending a message, evicting the oldest turns, replacing a prefix by a summary,
  checkpointing. Each operation writes its events through the trace before it changes the window.
  The request estimate, which depends on the exposed tools and on the provider, is a parameter.
\<close>

record live_context =
  lc_messages :: "message list"
  lc_seqs :: "event_seq option list"
  lc_epoch :: u32
  lc_floor :: nat
  lc_cited_from :: "event_seq option"
  lc_history :: "(event_seq \<times> event_seq) option"
  lc_envelopes :: "event_envelope list"
  lc_trace :: store_trace

text \<open>The identity every event of the loop carries: session, trace, active epoch and its model.\<close>

record loop_identity =
  li_trace_id :: trace_id
  li_model_epoch :: u32
  li_model :: model_ref

definition new_live :: live_context where
  "new_live =
     \<lparr> lc_messages = [], lc_seqs = [], lc_epoch = 0, lc_floor = 0, lc_cited_from = None,
       lc_history = None, lc_envelopes = [], lc_trace = new_store_trace \<rparr>"

type_synonym 'a live_io = "live_context \<Rightarrow> ('a \<times> live_context) io"

section \<open>Emitting\<close>

definition loop_envelope ::
  "store_env \<Rightarrow> loop_identity \<Rightarrow> nat \<Rightarrow> turn_id option \<Rightarrow> agent_event \<Rightarrow> event_envelope" where
  "loop_envelope env li n turn event =
     (let (i, sp, now) = sv_mint env n
      in new_envelope
           ((new_meta i sp now (sv_session_id env) (li_trace_id li))
              \<lparr>em_model_epoch := Some (li_model_epoch li), em_model := Some (li_model li),
               em_turn_id := turn\<rparr>) event)"

definition live_emit ::
  "store_env \<Rightarrow> loop_identity \<Rightarrow> turn_id option \<Rightarrow> agent_event \<Rightarrow> event_envelope live_io" where
  "live_emit env li turn event lc =
     io_bind io_get (\<lambda>d.
     io_bind (trace_emit env (loop_envelope env li (length (du_trace d)) turn event) (lc_trace lc)) (\<lambda>(e, st).
       io_return (e, lc\<lparr>lc_trace := st, lc_envelopes := lc_envelopes lc @ [e]\<rparr>)))"

definition live_emit_message ::
  "store_env \<Rightarrow> loop_identity \<Rightarrow> turn_id option \<Rightarrow> agent_event \<Rightarrow> message \<Rightarrow> event_envelope live_io" where
  "live_emit_message env li turn event m lc =
     io_bind io_get (\<lambda>d.
     io_bind (trace_emit_message env (loop_envelope env li (length (du_trace d)) turn event) m (lc_trace lc))
       (\<lambda>(e, st). io_return (e, lc\<lparr>lc_trace := st, lc_envelopes := lc_envelopes lc @ [e]\<rparr>)))"

definition push_message :: "message \<Rightarrow> event_seq option \<Rightarrow> live_context \<Rightarrow> live_context" where
  "push_message m s lc = lc\<lparr>lc_messages := lc_messages lc @ [m], lc_seqs := lc_seqs lc @ [s]\<rparr>"

text \<open>The way every message of a turn enters the window.\<close>

definition record_message ::
  "store_env \<Rightarrow> loop_identity \<Rightarrow> turn_id \<Rightarrow> agent_event \<Rightarrow> message \<Rightarrow> unit live_io" where
  "record_message env li turn event m lc =
     io_bind (live_emit_message env li (Some turn) event m lc) (\<lambda>(e, lc).
       io_return ((), push_message m (em_seq (ee_meta e)) lc))"

section \<open>Positions\<close>

definition normalize_message_seqs :: "live_context \<Rightarrow> live_context" where
  "normalize_message_seqs lc =
     (let n = length (lc_messages lc); k = length (lc_seqs lc)
      in if k < n then lc\<lparr>lc_seqs := lc_seqs lc @ replicate (n - k) None\<rparr>
         else if k > n then lc\<lparr>lc_seqs := take n (lc_seqs lc)\<rparr> else lc)"

definition first_cited_seq :: "live_context \<Rightarrow> event_seq" where
  "first_cited_seq lc =
     unwrap_or 0 (or_else (lc_cited_from lc)
       (or_else (map_option fst (lc_history lc))
         (map_option (\<lambda>s. if s = 1 then s else 0)
           (find_map (\<lambda>e. em_seq (ee_meta e)) (lc_envelopes lc)))))"

definition next_live_epoch :: "live_context \<Rightarrow> store_error + u32" where
  "next_live_epoch lc = ok_or (checked_add u32_max (lc_epoch lc) 1) EpochExhausted"

definition count_u32 :: "nat \<Rightarrow> store_error + u32" where
  "count_u32 n = (if n \<le> u32_max then Inr n else Inl CountTooLarge)"

text \<open>\<open>Vec::splice\<close> of a range by a list.\<close>

definition splice :: "nat \<Rightarrow> nat \<Rightarrow> 'a list \<Rightarrow> 'a list \<Rightarrow> 'a list" where
  "splice a b new xs = take a xs @ new @ drop b xs"

section \<open>Eviction\<close>

fun is_tool_call :: "content_block \<Rightarrow> bool" where
  "is_tool_call (ToolCallB _) = True"
| "is_tool_call _ = False"

definition safe_eviction_boundary :: "message list \<Rightarrow> nat \<Rightarrow> nat \<Rightarrow> nat \<Rightarrow> bool" where
  "safe_eviction_boundary ms start boundary limit \<longleftrightarrow>
     (if boundary < start \<or> boundary > limit \<or> boundary > length ms then False
      else if boundary = start then True
      else if boundary < length ms \<and> msg_role (ms ! boundary) \<noteq> User then False
      else \<not> list_ex is_tool_call (msg_content (ms ! (boundary - 1))))"

text \<open>The estimate of the request after a number of messages is dropped behind the floor.\<close>

type_synonym estimator = "message list \<Rightarrow> bool \<Rightarrow> u64"

definition estimate_after_eviction :: "estimator \<Rightarrow> message list \<Rightarrow> nat \<Rightarrow> nat \<Rightarrow> bool \<Rightarrow> u64" where
  "estimate_after_eviction est ms start dropped prompt_only =
     est (splice start (max start (min (start + dropped) (length ms))) [] ms) prompt_only"

function desired_drop :: "(nat \<Rightarrow> u64) \<Rightarrow> nat \<Rightarrow> u64 \<Rightarrow> nat \<Rightarrow> nat" where
  "desired_drop est max_drop target desired =
     (if desired < max_drop \<and> est desired > target then desired_drop est max_drop target (desired + 1)
      else desired)"
  by pat_completeness auto
termination
  by (relation "measure (\<lambda>(est, max_drop, target, desired). max_drop - desired)") auto

declare desired_drop.simps [simp del]

definition choose_drop :: "(nat \<Rightarrow> u64) \<Rightarrow> (nat \<Rightarrow> bool) \<Rightarrow> nat \<Rightarrow> u64 \<Rightarrow> nat \<Rightarrow> bool \<Rightarrow> nat" where
  "choose_drop est safe max_drop target desired prompt_only =
     (let below = unwrap_or 0 (List.find safe (rev [0..<desired + 1]))
      in if prompt_only
         then (case List.find (\<lambda>n. safe n \<and> est n \<le> target) [desired..<max_drop + 1] of
                 Some n \<Rightarrow> n | None \<Rightarrow> below)
         else below)"

definition evict_oldest ::
  "store_env \<Rightarrow> loop_identity \<Rightarrow> estimator \<Rightarrow> u64 \<Rightarrow> turn_id \<Rightarrow> nat \<Rightarrow> bool \<Rightarrow> (u32 \<times> nat) live_io" where
  "evict_oldest env li est target turn turn_start prompt_only lc =
     (let lc = normalize_message_seqs lc; ms = lc_messages lc; start = min (lc_floor lc) (length ms);
          limit = min (max (min turn_start (length ms)) start) (length ms);
          after = (\<lambda>n p. estimate_after_eviction est ms start n p);
          before = estimate_after_eviction est ms 0 0 False;
          desired = desired_drop (\<lambda>n. after n prompt_only) (limit - start) target 0;
          dropped = choose_drop (\<lambda>n. after n True)
            (\<lambda>n. safe_eviction_boundary ms start (start + n) limit) (limit - start) target desired prompt_only
      in if dropped = 0 then io_return ((0, turn_start), lc)
         else io_bind (io_lift id (count_u32 dropped)) (\<lambda>removed.
              io_bind (io_lift id (count_u32 (length ms - dropped))) (\<lambda>retained.
              io_bind (trace_put_payload env (sv_encode_messages env (take dropped (drop start ms)))) (\<lambda>blob.
              io_bind (live_emit env li (Some turn) (ContextReducedEv
                \<lparr> crd_reason = RecentTargetExceeded target, crd_original_bytes = before,
                  crd_visible_bytes = after dropped False, crd_removed_messages = removed,
                  crd_retained_messages = retained, crd_blob = Some blob,
                  crd_recovery_ref = Some (blob_recovery_ref blob), crd_tool_call_id = None \<rparr>) lc) (\<lambda>(e, lc).
              io_return ((removed, if turn_start > start then turn_start - dropped else turn_start),
                lc\<lparr>lc_messages := splice start (start + dropped) [] ms,
                   lc_seqs := splice start (start + dropped) [] (lc_seqs lc)\<rparr>))))))"
section \<open>Summaries\<close>

definition first_some :: "'a option list \<Rightarrow> 'a option" where
  "first_some xs = find_map id xs"

text \<open>The positions a compaction cites: those of the first and of the last placed message it replaces.\<close>

definition replaced_range :: "live_context \<Rightarrow> nat \<Rightarrow> nat \<Rightarrow> event_seq \<times> event_seq" where
  "replaced_range lc i j =
     (let seqs = take (j - i) (drop i (lc_seqs lc));
          a = unwrap_or (first_cited_seq lc) (first_some seqs)
      in (a, unwrap_or a (first_some (rev seqs))))"

definition compact_range ::
  "store_env \<Rightarrow> loop_identity \<Rightarrow> turn_id \<Rightarrow> nat \<Rightarrow> string \<Rightarrow> context_level \<Rightarrow> string \<Rightarrow> u32 live_io" where
  "compact_range env li turn prefix_end summary level reason lc =
     (let prefix_end = min prefix_end (length (lc_messages lc));
          lc = normalize_message_seqs lc;
          protected = min (lc_floor lc) (length (lc_messages lc))
      in if prefix_end \<le> protected then io_return (0, lc)
         else io_bind (io_lift id (count_u32 (prefix_end - protected))) (\<lambda>replaced.
              io_bind (io_lift id (count_u32 (length (lc_messages lc) - prefix_end))) (\<lambda>retained.
              let (from, through) = replaced_range lc protected prefix_end
              in io_bind (io_lift id (next_live_epoch lc)) (\<lambda>epoch.
              io_bind (live_emit env li (Some turn)
                (CompactionStartedEv \<lparr> ccs_level = level, ccs_reason = reason \<rparr>) lc) (\<lambda>(_, lc).
              io_bind (live_emit_message env li (Some turn) ContextSummaryEv (user_message summary) lc) (\<lambda>(s, lc).
              io_bind (trace_put_payload env summary) (\<lambda>blob.
              io_bind (live_emit env li (Some turn) (CompactionEpochEv
                \<lparr> cce_context_epoch = epoch, cce_replaces_from = from, cce_replaces_through = through,
                  cce_summary = Some blob \<rparr>) lc) (\<lambda>(_, lc).
              io_bind (live_emit env li (Some turn) (CompactionCompletedEv
                \<lparr> ccc_level = level, ccc_removed_messages = replaced, ccc_retained_messages = retained,
                  ccc_context_epoch = epoch \<rparr>) lc) (\<lambda>(_, lc).
              io_return (replaced,
                lc\<lparr>lc_messages := splice protected prefix_end [user_message summary] (lc_messages lc),
                   lc_seqs := splice protected prefix_end [em_seq (ee_meta s)] (lc_seqs lc),
                   lc_epoch := epoch\<rparr>))))))))))"

definition summarizing_reason :: "nat \<Rightarrow> string" where
  "summarizing_reason n = ''summarizing '' @ show_nat n @ '' oldest messages''"

definition compact_context ::
  "store_env \<Rightarrow> loop_identity \<Rightarrow> turn_id \<Rightarrow> string \<Rightarrow> nat \<Rightarrow> u32 live_io" where
  "compact_context env li turn summary retained lc =
     (let n = length (lc_messages lc);
          kept = (if n = 0 then 0 else min retained (n - 1));
          removed = n - kept
      in compact_range env li turn removed summary L1Ordinary (summarizing_reason removed) lc)"

definition compact_prefix ::
  "store_env \<Rightarrow> loop_identity \<Rightarrow> turn_id \<Rightarrow> nat \<Rightarrow> string \<Rightarrow> u32 live_io" where
  "compact_prefix env li turn prefix_end summary lc =
     (let prefix_end = min prefix_end (length (lc_messages lc))
      in compact_range env li turn prefix_end summary L1Ordinary (summarizing_reason prefix_end) lc)"
text \<open>The printed length of tool arguments is an argument.\<close>

fun block_bytes :: "(json \<Rightarrow> nat) \<Rightarrow> content_block \<Rightarrow> nat" where
  "block_bytes jl (TextBlock t) = length t"
| "block_bytes jl (ReasoningBlock c) = length (rc_text c)"
| "block_bytes jl (ToolCallB c) = length (tc_name c) + jl (tc_arguments c)"
| "block_bytes jl (ToolResultB r) = length (tb_text r)"
| "block_bytes jl (ImageBlock _ dat) = length dat"

definition estimate_message_bytes :: "(json \<Rightarrow> nat) \<Rightarrow> message \<Rightarrow> nat" where
  "estimate_message_bytes jl m = sum_list (map (block_bytes jl) (msg_content m))"

definition estimate_messages :: "(json \<Rightarrow> nat) \<Rightarrow> message list \<Rightarrow> u64" where
  "estimate_messages jl ms = max (sum_list (map (estimate_message_bytes jl) ms) div 4) 1"

text \<open>The number of newest messages that fit the target, at least one.\<close>

function keep_within :: "(message list \<Rightarrow> u64) \<Rightarrow> message list \<Rightarrow> nat \<Rightarrow> u64 \<Rightarrow> nat \<Rightarrow> nat" where
  "keep_within est ms tail_len target kept =
     (if kept < tail_len - 1 then
        (if est (drop (length ms - (kept + 1)) ms) > target then kept
         else keep_within est ms tail_len target (kept + 1))
      else kept)"
  by pat_completeness auto
termination
  by (relation "measure (\<lambda>(est, ms, tail_len, target, kept). tail_len - kept)") auto

declare keep_within.simps [simp del]

type_synonym summarizer = "message list \<Rightarrow> string"

definition compact_with_summary_or ::
  "store_env \<Rightarrow> loop_identity \<Rightarrow> (json \<Rightarrow> nat) \<Rightarrow> summarizer \<Rightarrow> turn_id \<Rightarrow> u64 \<Rightarrow> string option \<Rightarrow> u32 live_io" where
  "compact_with_summary_or env li jl summarize turn target explicit lc =
     (let ms = lc_messages lc; protected = min (lc_floor lc) (length ms);
          tail_len = length ms - protected
      in if tail_len \<le> 1 then io_return (0, lc)
         else let kept = keep_within (estimate_messages jl) ms tail_len target 1;
                  prefix_end = length ms - kept
              in if prefix_end \<le> protected then io_return (0, lc)
                 else compact_context env li turn
                        (unwrap_or (summarize (take (prefix_end - protected) (drop protected ms))) explicit)
                        kept lc)"

text \<open>\<open>recent\<close> states whether the last reduction is less than five seconds old.\<close>

definition deferred_notice :: "string \<Rightarrow> string" where
  "deferred_notice phase =
     ''phase compaction '' @ [CHR 0x27] @ phase @ [CHR 0x27]
     @ '' deferred: cooldown active (use force to override)''"

definition compact_phase ::
  "store_env \<Rightarrow> loop_identity \<Rightarrow> summarizer \<Rightarrow> turn_id \<Rightarrow> string \<Rightarrow> string option \<Rightarrow> bool \<Rightarrow> bool \<Rightarrow> u32 live_io" where
  "compact_phase env li summarize turn phase explicit force recent lc =
     (if length (lc_messages lc) \<le> 1 then io_return (0, lc)
      else if \<not> force \<and> recent
      then io_bind (live_emit env li (Some turn)
             (DiagnosticEv \<lparr> dg_level = InfoLevel, dg_message = deferred_notice phase \<rparr>) lc)
             (\<lambda>(_, lc). io_return (0, lc))
      else let removed = length (lc_messages lc) - 1;
               protected = min (lc_floor lc) (length (lc_messages lc));
               base = unwrap_or (summarize (take (removed - protected) (drop protected (lc_messages lc)))) explicit
           in compact_range env li turn removed (''[Phase Compaction: '' @ phase @ '']'' @ [CHR 0x0A] @ base)
                L2Phase (''semantic phase: '' @ phase) lc)"

definition compact_turn_prefix ::
  "store_env \<Rightarrow> loop_identity \<Rightarrow> summarizer \<Rightarrow> turn_id \<Rightarrow> nat \<Rightarrow> context_level \<Rightarrow> string \<Rightarrow> (u32 \<times> nat) live_io" where
  "compact_turn_prefix env li summarize turn turn_start level reason lc =
     (let ms = lc_messages lc; prefix_end = min turn_start (length ms); protected = min (lc_floor lc) prefix_end
      in if prefix_end \<le> protected then io_return ((0, turn_start), lc)
         else io_bind (compact_range env li turn prefix_end
                (summarize (take (prefix_end - protected) (drop protected ms))) level reason lc) (\<lambda>(removed, lc).
              io_return ((removed, if removed > 0 then lc_floor lc + 1 else turn_start), lc)))"

section \<open>Completed interactions of the active turn\<close>

text \<open>The results of one tool message join the open ones; an uncertain or repeated one refuses.\<close>

fun settle_results :: "tool_result_block list \<Rightarrow> string list \<Rightarrow> string list option" where
  "settle_results [] results = Some results"
| "settle_results (r # rs) results =
     (if tb_state r = Unknown \<or> \<not> is_terminal (tb_state r) then None
      else if tb_id r \<in> set results then None
      else settle_results rs (tb_id r # results))"

fun answer_calls :: "tool_call_block list \<Rightarrow> string list \<Rightarrow> string list option" where
  "answer_calls [] results = Some results"
| "answer_calls (c # cs) results =
     (if tc_id c \<in> set results then answer_calls cs (removeAll (tc_id c) results) else None)"

text \<open>The walk from the end of the candidate prefix towards its start.\<close>

fun walk_cycle :: "message list \<Rightarrow> bool \<Rightarrow> string list \<Rightarrow> bool" where
  "walk_cycle [] saw_tool results \<longleftrightarrow> results = []"
| "walk_cycle (m # ms) saw_tool results \<longleftrightarrow>
     (case msg_role m of
        Tool_Role \<Rightarrow>
         (case settle_results (List.map_filter block_result (msg_content m)) results of
            None \<Rightarrow> False | Some results \<Rightarrow> walk_cycle ms True results)
      | Assistant \<Rightarrow>
         (if tool_calls m = [] then walk_cycle ms saw_tool results
          else if \<not> saw_tool then False
          else case answer_calls (tool_calls m) results of
                 None \<Rightarrow> False | Some results \<Rightarrow> walk_cycle ms saw_tool results)
      | _ \<Rightarrow> walk_cycle ms saw_tool results)"

definition safe_completed_cycle_boundary :: "message list \<Rightarrow> nat \<Rightarrow> nat \<Rightarrow> bool" where
  "safe_completed_cycle_boundary ms start boundary \<longleftrightarrow>
     start < boundary \<and> boundary \<le> length ms \<and> msg_role (ms ! (boundary - 1)) = Tool_Role
     \<and> walk_cycle (rev (take (boundary - start) (drop start ms))) False []"

text \<open>The first candidate that fits, else the last safe one; \<open>tokens\<close> estimates the request.\<close>

fun select_boundary ::
  "(nat \<Rightarrow> bool) \<Rightarrow> (nat \<Rightarrow> string) \<Rightarrow> (nat \<Rightarrow> string \<Rightarrow> u64) \<Rightarrow> u64 \<Rightarrow> nat list \<Rightarrow> (nat \<times> string) option
     \<Rightarrow> (nat \<times> string) option" where
  "select_boundary safe summary tokens target [] selected = selected"
| "select_boundary safe summary tokens target (b # bs) selected =
     (if \<not> safe b then select_boundary safe summary tokens target bs selected
      else let s = summary b
           in if tokens b s \<le> target then Some (b, s)
              else select_boundary safe summary tokens target bs (Some (b, s)))"

definition compact_completed_turn_cycles ::
  "store_env \<Rightarrow> loop_identity \<Rightarrow> summarizer \<Rightarrow> (message list \<Rightarrow> u64) \<Rightarrow> turn_id \<Rightarrow> nat \<Rightarrow> u64 \<Rightarrow> string
     \<Rightarrow> (u32 \<times> nat) live_io" where
  "compact_completed_turn_cycles env li summarize tokens turn turn_start target reason lc =
     (let ms = lc_messages lc; cycle_start = min turn_start (length ms); protected = min (lc_floor lc) (length ms)
      in if cycle_start \<ge> length ms \<or> cycle_start < protected then io_return ((0, turn_start), lc)
         else case select_boundary (safe_completed_cycle_boundary ms cycle_start)
                     (\<lambda>b. summarize (take (b - protected) (drop protected ms)))
                     (\<lambda>b s. tokens (take protected ms @ [user_message s] @ drop b ms)) target
                     [cycle_start + 1..<length ms + 1] None of
                None \<Rightarrow> io_return ((0, turn_start), lc)
              | Some (prefix_end, summary) \<Rightarrow>
                 io_bind (compact_range env li turn prefix_end summary L1Ordinary reason lc) (\<lambda>(replaced, lc).
                 io_return ((replaced, if replaced > 0 then lc_floor lc + 1 else turn_start), lc)))"

section \<open>Checkpoints\<close>

definition checkpoint_event ::
  "checkpoint_id \<times> string \<Rightarrow> context_capsule \<Rightarrow> nat \<Rightarrow> u32 \<Rightarrow> checkpoint_created" where
  "checkpoint_event idp capsule replaced epoch =
     \<lparr> ckc_checkpoint_id = fst idp, ckc_capsule_version = cap_version capsule,
       ckc_summarized_events = replaced, ckc_path = snd idp, ckc_context_epoch = epoch \<rparr>"

definition cited_after :: "event_envelope \<Rightarrow> store_error + event_seq option" where
  "cited_after e =
     (case em_seq (ee_meta e) of
        None \<Rightarrow> Inr None
      | Some s \<Rightarrow> bind_res (ok_or (checked_add u64_max s 1) SequenceExhausted) (\<lambda>n. Inr (Some n)))"

definition live_checkpoint ::
  "store_env \<Rightarrow> loop_identity \<Rightarrow> turn_id \<Rightarrow> context_capsule \<Rightarrow> checkpoint_created live_io" where
  "live_checkpoint env li turn capsule lc =
     (let lc = normalize_message_seqs lc;
          removed = length (lc_messages lc) - min (lc_floor lc) (length (lc_messages lc))
      in io_bind (io_lift id (next_live_epoch lc)) (\<lambda>epoch.
         io_bind (trace_create_checkpoint env capsule (lc_trace lc)) (\<lambda>(idp, st).
         io_bind (set_checkpoint_context_epoch epoch st) (\<lambda>st.
         let event = checkpoint_event idp capsule removed epoch
         in io_bind (live_emit env li (Some turn) (CheckpointCreatedEv event) (lc\<lparr>lc_trace := st\<rparr>)) (\<lambda>(e, lc).
            io_bind (io_lift id (cited_after e)) (\<lambda>cited.
            let lc = lc\<lparr>lc_cited_from := cited, lc_messages := [user_message (format_capsule capsule)],
                        lc_seqs := [None], lc_floor := 1, lc_epoch := epoch\<rparr>
            in io_bind (io_lift id (count_u32 removed)) (\<lambda>count.
               io_bind (live_emit env li (Some turn) (CompactionCompletedEv
                 \<lparr> ccc_level = L3Checkpoint, ccc_removed_messages = count, ccc_retained_messages = 1,
                   ccc_context_epoch = epoch \<rparr>) lc) (\<lambda>(_, lc). io_return (event, lc)))))))))"

definition checkpoint_turn_prefix ::
  "store_env \<Rightarrow> loop_identity \<Rightarrow> turn_id \<Rightarrow> context_capsule \<Rightarrow> nat \<Rightarrow> (checkpoint_created option \<times> nat) live_io" where
  "checkpoint_turn_prefix env li turn capsule turn_start lc =
     (let lc = normalize_message_seqs lc; prefix_end = min turn_start (length (lc_messages lc))
      in if prefix_end = 0 \<or> lc_floor lc > 0 \<and> prefix_end \<le> 1 then io_return ((None, turn_start), lc)
         else let protected = min (lc_floor lc) prefix_end; replaced = prefix_end - protected
         in io_bind (trace_create_checkpoint env capsule (lc_trace lc)) (\<lambda>(idp, st).
            io_bind (io_lift id (next_live_epoch lc)) (\<lambda>epoch.
            io_bind (set_checkpoint_context_epoch epoch st) (\<lambda>st.
            let event = checkpoint_event idp capsule replaced epoch
            in io_bind (live_emit env li (Some turn) (CheckpointCreatedEv event) (lc\<lparr>lc_trace := st\<rparr>)) (\<lambda>(e, lc).
               io_bind (io_lift id (cited_after e)) (\<lambda>cited.
               let lc = lc\<lparr>lc_cited_from := cited\<rparr>
               in io_bind (io_lift id (count_u32 replaced)) (\<lambda>count.
                  io_bind (io_lift id (count_u32 (length (lc_messages lc) - prefix_end + 1))) (\<lambda>retained.
                  io_bind (live_emit env li (Some turn) (CompactionCompletedEv
                    \<lparr> ccc_level = L3Checkpoint, ccc_removed_messages = count,
                      ccc_retained_messages = retained, ccc_context_epoch = epoch \<rparr>) lc) (\<lambda>(_, lc).
                  io_return ((Some event, 1),
                    lc\<lparr>lc_messages := splice 0 prefix_end [user_message (format_capsule capsule)] (lc_messages lc),
                       lc_seqs := splice 0 prefix_end [None] (lc_seqs lc),
                       lc_floor := 1, lc_epoch := epoch\<rparr>))))))))))"

section \<open>Continuing a stored session\<close>

text \<open>The window \<open>continue_state\<close> of \<open>src/run.rs\<close> hands to a new loop: capsule, then messages.\<close>

definition resumed_window :: "restored_session \<Rightarrow> message list \<times> event_seq option list" where
  "resumed_window r =
     (case rd_checkpoint r of
        None \<Rightarrow> (map sm_message (rd_messages r), map sm_seq (rd_messages r))
      | Some capsule \<Rightarrow>
          (user_message (format_capsule capsule) # map sm_message (rd_messages r),
           None # map sm_seq (rd_messages r)))"

text \<open>Its range of cited history, and the live state \<open>with_resume_state\<close> makes of both.\<close>

definition cited_history :: "restored_session \<Rightarrow> store_error + (event_seq \<times> event_seq) option" where
  "cited_history r =
     bind_res
       (case rd_checkpoint_seq r of
          None \<Rightarrow> Inr 1
        | Some s \<Rightarrow> ok_or (checked_add u64_max s 1) SequenceExhausted)
       (\<lambda>cited_first. Inr (map_option (\<lambda>l. (cited_first, l)) (rd_last_seq r)))"

definition resumed_live :: "restored_session \<Rightarrow> store_error + live_context" where
  "resumed_live r =
     bind_res (cited_history r) (\<lambda>history.
       let floor_len = (if rd_checkpoint r = None then 0 else 1)
       in Inr \<lparr> lc_messages = fst (resumed_window r), lc_seqs = snd (resumed_window r),
                lc_epoch = rd_context_epoch r, lc_floor = floor_len,
                lc_cited_from =
                  (if floor_len > 0 then Some (unwrap_or 1 (map_option fst history)) else None),
                lc_history = history, lc_envelopes = [], lc_trace = new_store_trace \<rparr>)"

end
