(* ===== verification/Emission_Effects.thy ===== *)
theory Emission_Effects
  imports Live_Context
begin

text \<open>
  What the emission of an event does to the journal and to the semantic log, for every path of
  \<open>store_trace.rs\<close> and \<open>store.rs\<close>: one line, the record the event carries, nothing else. The intent
  log and the blobs change in between but hold no state of a session.
\<close>

section \<open>Effects on the trace and on the log\<close>

definition same_logs :: "durable \<Rightarrow> durable \<Rightarrow> bool" where
  "same_logs d d' \<longleftrightarrow> du_trace d' = du_trace d \<and> du_records d' = du_records d"

definition quiet_op :: "'a io \<Rightarrow> bool" where
  "quiet_op m \<longleftrightarrow> (\<forall>d. same_logs d (apply_writes (fst (m d)) d))"

lemma quiet_op_pure [simp]:
  "quiet_op (io_return a)" "quiet_op (io_fail e)" "quiet_op io_get" "quiet_op (io_lift f r)"
  by (auto simp: quiet_op_def same_logs_def) (cases r; simp)+

lemma quiet_op_bind:
  "quiet_op m \<Longrightarrow> (\<And>a. quiet_op (f a)) \<Longrightarrow> quiet_op (io_bind m f)"
proof -
  assume m: "quiet_op m" and f: "\<And>a. quiet_op (f a)"
  have "same_logs d (apply_writes (fst (io_bind m f d)) d)" for d
  proof (cases "m d")
    case (Pair ws r)
    have "same_logs d (apply_writes ws d)"
      using m Pair by (metis fst_conv quiet_op_def)
    moreover have "same_logs e (apply_writes (fst (f a e)) e)" for a e
      using f by (simp add: quiet_op_def)
    ultimately show ?thesis
      by (cases r) (simp_all add: io_bind_def Pair case_prod_beta same_logs_def)
  qed
  then show ?thesis
    by (simp add: quiet_op_def)
qed

lemma quiet_op_wal:
  "quiet_op (wal_append env e)" "quiet_op wal_pending" "quiet_op (wal_commit env tx)"
  "quiet_op (wal_prepare_with_recovery env envelope r)" "quiet_op (wal_set_projection env tx p)"
  "quiet_op (commit_projection_intent env tx)"
proof -
  show app: "quiet_op (wal_append env e)" for e
    by (simp add: quiet_op_def same_logs_def wal_append_def)
  show pend: "quiet_op wal_pending"
  proof -
    have "fst (wal_pending d) = []" for d
      by (cases "read_pending (du_wal d)") (simp_all add: wal_pending_def)
    then show ?thesis
      by (simp add: quiet_op_def same_logs_def)
  qed
  show com: "quiet_op (wal_commit env tx)"
    unfolding wal_commit_def
    by (intro quiet_op_bind app pend) (simp add: quiet_op_def same_logs_def)
  show "quiet_op (wal_prepare_with_recovery env envelope r)"
    unfolding wal_prepare_with_recovery_def Let_def by (intro quiet_op_bind app quiet_op_pure)
  show "quiet_op (wal_set_projection env tx p)"
    unfolding wal_set_projection_def by (rule app)
  show "quiet_op (commit_projection_intent env tx)"
    unfolding commit_projection_intent_def by (intro quiet_op_bind pend) (simp add: com)
qed
lemma quiet_op_put_blob: "quiet_op (put_blob env bytes ct)"
  unfolding put_blob_def
  by (intro quiet_op_bind) (auto simp: quiet_op_def same_logs_def io_bind_def split: sum.splits)

lemma quiet_op_payload: "quiet_op (trace_put_payload env bytes)"
  by (simp add: trace_put_payload_def quiet_op_put_blob)

lemma quiet_run:
  "quiet_op m \<Longrightarrow> m d = (ws, r) \<Longrightarrow>
     du_trace (apply_writes ws d) = du_trace d \<and> du_records (apply_writes ws d) = du_records d"
  by (metis fst_conv quiet_op_def same_logs_def)

text \<open>An operation that appended one journal line and the records \<open>rs\<close>.\<close>

definition appended :: "store_env \<Rightarrow> event_envelope \<Rightarrow> event_seq \<Rightarrow> session_record list \<Rightarrow> durable \<Rightarrow> durable \<Rightarrow> bool" where
  "appended env e s rs d d' \<longleftrightarrow>
     checked_next_seq (du_trace d) = Inr s
     \<and> (\<exists>l. sv_line env (plain_entry (with_seq s e)) = Some l \<and> du_trace d' = du_trace d @ [l])
     \<and> du_records d' = du_records d @ map (sv_redact_record env) rs
     \<and> (rs \<noteq> [] \<longrightarrow> length (du_records d) + 2 \<le> usize_max)"

lemma appended_quiet: "appended env e s rs d d' \<Longrightarrow> same_logs d' d'' \<Longrightarrow> appended env e s rs d d''"
  by (simp add: appended_def same_logs_def)

lemma emit_transaction_effect:
  assumes "emit_transaction env e projection hold d = (ws, Inr e')"
  shows "\<exists>s. appended env e s (case projection of None \<Rightarrow> [] | Some r \<Rightarrow> [stamp_projection_seq r s]) d (apply_writes ws d)
    \<and> e' = with_seq s e"
proof -
  obtain w1 w2 tx w3 s w4 where
    w1: "(case projection of None \<Rightarrow> io_return ()
          | Some r \<Rightarrow> io_bind (validate_projection_size env (em_event_id (ee_meta e)) r)
                     (\<lambda>_. validate_record_size env r)) d = (w1, Inr ())"
    and w2: "wal_prepare_with_recovery env e None (apply_writes w1 d) = (w2, Inr tx)"
    and w3: "journal_append env e (apply_writes w2 (apply_writes w1 d)) = (w3, Inr s)"
    and w4: "(case projection of
          Some r \<Rightarrow>
            (let r = stamp_projection_seq r s
             in io_bind (wal_set_projection env tx r) (\<lambda>_.
                io_bind (log_append env r) (\<lambda>_. wal_commit env tx)))
        | None \<Rightarrow> if hold then io_return () else wal_commit env tx)
        (apply_writes w3 (apply_writes w2 (apply_writes w1 d))) = (w4, Inr ())"
    and ws: "ws = w1 @ w2 @ w3 @ w4" and e': "e' = with_seq s e"
    using assms unfolding emit_transaction_def by (auto elim!: io_bind_success)
  have [simp]: "w1 = []"
    using w1 by (auto split: option.splits if_splits elim!: io_bind_success
        simp: validate_projection_size_def validate_record_size_def)
  let ?d2 = "apply_writes w2 d"
  have d2: "du_trace ?d2 = du_trace d" "du_records ?d2 = du_records d"
    using quiet_run [OF quiet_op_wal(4) w2] by simp_all
  obtain l where l: "sv_line env (plain_entry (with_seq s e)) = Some l" "w3 = [TraceAppend l]"
    and seq: "checked_next_seq (du_trace d) = Inr s"
    using w3 d2 by (auto simp: journal_append_success)
  let ?d3 = "apply_writes w3 ?d2"
  show ?thesis
  proof (cases projection)
    case None
    have "quiet_op (if hold then io_return () else wal_commit env tx)"
      by (simp add: quiet_op_wal)
    then have "du_trace (apply_writes w4 ?d3) = du_trace ?d3" "du_records (apply_writes w4 ?d3) = du_records ?d3"
      using quiet_run w4 None by fastforce+
    then show ?thesis
      using l seq d2 None e' by (auto simp: appended_def ws)
  next
    case (Some r)
    let ?r = "stamp_projection_seq r s"
    obtain w5 w6 w7 where w5: "wal_set_projection env tx ?r ?d3 = (w5, Inr ())"
      and w6: "log_append env ?r (apply_writes w5 ?d3) = (w6, Inr ())"
      and w7: "wal_commit env tx (apply_writes w6 (apply_writes w5 ?d3)) = (w7, Inr ())"
      and w4': "w4 = w5 @ w6 @ w7"
      using w4 Some by (auto simp: Let_def elim!: io_bind_success)
    have d5: "du_trace (apply_writes w5 ?d3) = du_trace d @ [l]" "du_records (apply_writes w5 ?d3) = du_records d"
      using quiet_run [OF quiet_op_wal(5) w5] l d2 by simp_all
    have w6': "w6 = [LogAppend (sv_redact_record env ?r)]" "length (du_records d) + 2 \<le> usize_max"
      using w6 d5 by (auto simp: log_append_success)
    show ?thesis
      using quiet_run [OF quiet_op_wal(3) w7] d5 w6' l seq e' Some
      by (auto simp: appended_def ws w4')
  qed
qed

lemma session_emit_effect:
  assumes "session_emit env e d = (ws, Inr e')"
  shows "\<exists>s. appended env e s [] d (apply_writes ws d) \<and> e' = with_seq s e"
  using assms unfolding session_emit_def
  by (auto elim!: io_bind_success simp: journal_append_success appended_def)

lemma trace_emit_effect:
  assumes "trace_emit env e st d = (ws, Inr (e', st'))"
  shows "\<exists>s. appended env e s (case projection_of (note_range (ee_event e) st) e of
      None \<Rightarrow> [] | Some r \<Rightarrow> [stamp_projection_seq r s]) d (apply_writes ws d)
    \<and> e' = with_seq s e \<and> st' = after_emit (ee_event e) (em_event_id (ee_meta e)) (note_range (ee_event e) st)"
proof -
  let ?st = "note_range (ee_event e) st" and ?p = "projection_of (note_range (ee_event e) st) e"
  let ?hold = "holds_for_message (ee_event e) \<or> holds_for_compaction (ee_event e)"
  obtain w1 w2 where
    w1: "(if ?p \<noteq> None \<or> ?hold then emit_transaction env e ?p ?hold else session_emit env e) d = (w1, Inr e')"
    and w2: "(case (is_compaction_done (ee_event e), st_start ?st) of
              (True, Some start) \<Rightarrow> commit_projection_intent env start
            | _ \<Rightarrow> io_return ()) (apply_writes w1 d) = (w2, Inr ())"
    and ws: "ws = w1 @ w2" and st': "st' = after_emit (ee_event e) (em_event_id (ee_meta e)) ?st"
    using assms unfolding trace_emit_def Let_def by (auto elim!: io_bind_success)
  obtain s where s: "appended env e s (case ?p of None \<Rightarrow> [] | Some r \<Rightarrow> [stamp_projection_seq r s]) d (apply_writes w1 d)"
    and e': "e' = with_seq s e"
  proof (cases "?p \<noteq> None \<or> ?hold")
    case True
    then show ?thesis
      using w1 emit_transaction_effect [of env e ?p ?hold d w1 e'] that by auto
  next
    case False
    then show ?thesis
      using w1 session_emit_effect [of env e d w1 e'] that by auto
  qed
  define close where "close = (case (is_compaction_done (ee_event e), st_start ?st) of
              (True, Some start) \<Rightarrow> commit_projection_intent env start
            | _ \<Rightarrow> io_return ())"
  have "quiet_op close"
    by (simp add: close_def quiet_op_wal split: option.split bool.split)
  moreover have "close (apply_writes w1 d) = (w2, Inr ())"
    using w2 by (simp add: close_def)
  ultimately have "same_logs (apply_writes w1 d) (apply_writes ws d)"
    using quiet_run by (simp add: same_logs_def ws)
  then show ?thesis
    using appended_quiet [OF s] e' st' by blast
qed

lemma trace_emit_message_effect:
  assumes "trace_emit_message env e m st d = (ws, Inr (e', st'))" "em_seq (ee_meta e) = None"
  shows "\<exists>s q. appended env e s [MessageRec q] d (apply_writes ws d) \<and> e' = with_seq s e
    \<and> message_record (with_seq s e) m s = Inr q
    \<and> st' = (if ee_event e = ContextSummaryEv then st\<lparr>st_summary_pending := True\<rparr> else st)"
proof -
  have run: "emit_new_message env e m d = (ws, Inr e')"
    and st': "st' = (if ee_event e = ContextSummaryEv then st\<lparr>st_summary_pending := True\<rparr> else st)"
    using assms unfolding trace_emit_message_def emit_message_def by (auto elim!: io_bind_success)
  obtain w1 rec cleanup w2 tx w3 s q w4 w5 where
    w1: "prepare_message_recovery env m d = (w1, Inr (rec, cleanup))"
    and w2: "wal_prepare_with_recovery env e (Some rec) (apply_writes w1 d) = (w2, Inr tx)"
    and w3: "journal_append env e (apply_writes w2 (apply_writes w1 d)) = (w3, Inr s)"
    and q: "message_record (with_seq s e) m s = Inr q"
    and w4: "log_append env (MessageRec q) (apply_writes w3 (apply_writes w2 (apply_writes w1 d))) = (w4, Inr ())"
    and w5: "wal_commit env tx (apply_writes w4 (apply_writes w3 (apply_writes w2 (apply_writes w1 d)))) = (w5, Inr ())"
    and ws: "ws = w1 @ w2 @ w3 @ w4 @ w5" and e': "e' = with_seq s e"
    using run unfolding emit_new_message_def
    by (auto elim!: io_bind_success simp: io_lift_success validate_record_size_def io_on_error_success split: if_splits)
  have "quiet_op (prepare_message_recovery env m)"
    unfolding prepare_message_recovery_def Let_def
    by (simp add: quiet_op_bind quiet_op_put_blob)
  note d1 = quiet_run [OF this w1]
  note d2 = quiet_run [OF quiet_op_wal(4) w2]
  obtain l where l: "sv_line env (plain_entry (with_seq s e)) = Some l" "w3 = [TraceAppend l]"
    and seq: "checked_next_seq (du_trace d) = Inr s"
    using w3 d1 d2 by (auto simp: journal_append_success)
  have "w4 = [LogAppend (sv_redact_record env (MessageRec q))]" "length (du_records d) + 2 \<le> usize_max"
    using w4 d1 d2 l by (auto simp: log_append_success)
  then show ?thesis
    using quiet_run [OF quiet_op_wal(3) w5] d1 d2 l seq q e' st'
    by (auto simp: appended_def ws)
qed

section \<open>Events of the turn loop\<close>

lemma live_emit_effect:
  assumes "live_emit env li turn event lc d = (ws, Inr (e', lc'))"
  shows "\<exists>k. appended env (loop_envelope env li (length (du_trace d)) turn event) k
      (case projection_of (note_range event (lc_trace lc)) (loop_envelope env li (length (du_trace d)) turn event) of
         None \<Rightarrow> [] | Some r \<Rightarrow> [stamp_projection_seq r k]) d (apply_writes ws d)
    \<and> e' = with_seq k (loop_envelope env li (length (du_trace d)) turn event)
    \<and> lc' = lc\<lparr>lc_trace := after_emit event (fst (sv_mint env (length (du_trace d)))) (note_range event (lc_trace lc)),
               lc_envelopes := lc_envelopes lc @ [e']\<rparr>"
proof -
  let ?e = "loop_envelope env li (length (du_trace d)) turn event"
  have e: "ee_event ?e = event" "em_event_id (ee_meta ?e) = fst (sv_mint env (length (du_trace d)))"
    by (simp_all add: loop_envelope_def new_envelope_def new_meta_def case_prod_beta)
  obtain st' where run: "trace_emit env ?e (lc_trace lc) d = (ws, Inr (e', st'))"
    and lc': "lc' = lc\<lparr>lc_trace := st', lc_envelopes := lc_envelopes lc @ [e']\<rparr>"
    using assms unfolding live_emit_def by (auto elim!: io_bind_success)
  show ?thesis
    using trace_emit_effect [OF run] lc' unfolding e by auto
qed

lemma live_emit_message_effect:
  assumes "live_emit_message env li turn event m lc d = (ws, Inr (e', lc'))"
  shows "\<exists>k q. appended env (loop_envelope env li (length (du_trace d)) turn event) k [MessageRec q] d (apply_writes ws d)
    \<and> sm_seq q = Some k \<and> sm_message q = m \<and> sm_event_id q = fst (sv_mint env (length (du_trace d)))
    \<and> em_seq (ee_meta e') = Some k
    \<and> lc' = lc\<lparr>lc_trace := (if event = ContextSummaryEv then (lc_trace lc)\<lparr>st_summary_pending := True\<rparr> else lc_trace lc),
               lc_envelopes := lc_envelopes lc @ [e']\<rparr>"
proof -
  let ?e = "loop_envelope env li (length (du_trace d)) turn event"
  have e: "ee_event ?e = event" "em_event_id (ee_meta ?e) = fst (sv_mint env (length (du_trace d)))"
    "em_seq (ee_meta ?e) = None"
    by (simp_all add: loop_envelope_def new_envelope_def new_meta_def case_prod_beta)
  obtain st' where run: "trace_emit_message env ?e m (lc_trace lc) d = (ws, Inr (e', st'))"
    and lc': "lc' = lc\<lparr>lc_trace := st', lc_envelopes := lc_envelopes lc @ [e']\<rparr>"
    using assms unfolding live_emit_message_def by (auto elim!: io_bind_success)
  obtain k q where k: "appended env ?e k [MessageRec q] d (apply_writes ws d)" "e' = with_seq k ?e"
    and q: "message_record (with_seq k ?e) m k = Inr q"
    and st': "st' = (if event = ContextSummaryEv then (lc_trace lc)\<lparr>st_summary_pending := True\<rparr> else lc_trace lc)"
    using trace_emit_message_effect [OF run e(3)] unfolding e by blast
  have "sm_seq q = Some k \<and> sm_message q = m \<and> sm_event_id q = em_event_id (ee_meta ?e)"
    using q by (auto simp: message_record_Inr with_seq_def)
  moreover have "em_seq (ee_meta e') = Some k"
    by (simp add: k(2) with_seq_def)
  ultimately show ?thesis
    using k(1) lc' unfolding st' e by blast
qed

end
