(* ===== verification/Context_Refinement.thy ===== *)
theory Context_Refinement
  imports Emission_Effects
begin

text \<open>
  The live window and the session log agree: whatever a turn loop does to its window - messages,
  evictions, summaries, checkpoints, a restart - restoring the log gives the window back. The one
  condition, that a summary cites an ordered range, is not met by every sequence of operations;
  the last section holds what a summary with an unordered range does to the log.
\<close>

section \<open>The log side\<close>

text \<open>
  What the store does with a session whose texts contain nothing to redact, and whose journal
  keeps the identity of an event: a record is stored as it is.
\<close>

definition plain_store :: "store_env \<Rightarrow> bool" where
  "plain_store env \<longleftrightarrow>
     (\<forall>r. sv_redact_record env r = r)
     \<and> (\<forall>e l. sv_line env e = Some l \<longrightarrow> entry_meta l = entry_meta e)
     \<and> (\<forall>c c'. sv_store_capsule env c = Some c' \<longrightarrow> c' = c)
     \<and> inj (\<lambda>k. fst (sv_mint env k))"

definition position :: "trace_entry list \<Rightarrow> nat" where
  "position t = unwrap_or 0 (journal_last_seq t)"

lemma checked_next_position: "checked_next_seq t = Inr k \<Longrightarrow> k = position t + 1 \<and> k \<le> u64_max"
  by (auto simp: checked_next_seq_def position_def checked_add_def u64_max_def split: option.splits if_splits)

lemma position_append: "entry_seq l = Some k \<Longrightarrow> position (t @ [l]) = k"
  by (simp add: position_def journal_last_seq_def)

text \<open>A restorable log behind the journal, with the identifiers of the future still unused.\<close>

definition whole_window :: "restore_state \<Rightarrow> session_message list" where
  "whole_window s = rs_messages s @ unwrap_or [] (rs_pre_barrier s)"

definition placed :: "nat \<Rightarrow> session_message \<Rightarrow> bool" where
  "placed p m \<longleftrightarrow> (\<exists>n. sm_seq m = Some n \<and> 0 < n \<and> n \<le> p)"

definition behind :: "nat \<Rightarrow> restore_state \<Rightarrow> bool" where
  "behind p s \<longleftrightarrow>
     unwrap_or 0 (rs_last_message_seq s) \<le> p \<and> unwrap_or 0 (rs_last_reduction_seq s) \<le> p
     \<and> unwrap_or 0 (rs_last_seq s) \<le> p \<and> (\<forall>m \<in> set (whole_window s). placed p m)
     \<and> (case rs_checkpoint_seq s of None \<Rightarrow> True | Some n \<Rightarrow> n < p)"

definition epochs_ordered :: "restore_state \<Rightarrow> bool" where
  "epochs_ordered s \<longleftrightarrow>
     unwrap_or 0 (rs_last_context_epoch s) \<le> rs_context_epoch s
     \<and> unwrap_or 0 (rs_last_compaction_epoch s) \<le> rs_context_epoch s"

definition unused_from :: "store_env \<Rightarrow> nat \<Rightarrow> restore_state \<Rightarrow> bool" where
  "unused_from env n s \<longleftrightarrow>
     (\<forall>k \<ge> n. fst (sv_mint env k) \<notin> set (rs_event_ids s) \<union> set (rs_checkpoint_ids s))"

definition log_state :: "store_env \<Rightarrow> durable \<Rightarrow> restore_state \<Rightarrow> bool" where
  "log_state env d s \<longleftrightarrow>
     fold_res restore_record (du_records d) restore_start = Inr s
     \<and> position (du_trace d) \<le> u64_max \<and> behind (position (du_trace d)) s
     \<and> epochs_ordered s \<and> unused_from env (length (du_trace d)) s"

lemma at_most_iff: "at_most n b \<longleftrightarrow> b \<noteq> None \<and> n \<le> unwrap_or 0 b"
  by (auto simp: at_most_def split: option.split)

lemma appended_facts:
  assumes "appended env e k rs d d'" "plain_store env"
  shows "k = position (du_trace d) + 1" "position (du_trace d') = k" "k \<le> u64_max"
    "length (du_trace d') = Suc (length (du_trace d))" "du_records d' = du_records d @ rs"
proof -
  obtain l where l: "sv_line env (plain_entry (with_seq k e)) = Some l" "du_trace d' = du_trace d @ [l]"
    and k: "checked_next_seq (du_trace d) = Inr k"
    and r: "du_records d' = du_records d @ map (sv_redact_record env) rs"
    using assms(1) by (auto simp: appended_def)
  have "entry_seq l = Some k"
    using assms(2) l(1) by (simp add: plain_store_def plain_entry_def with_seq_def)
  then show "position (du_trace d') = k" "length (du_trace d') = Suc (length (du_trace d))"
    using l(2) by (simp_all add: position_append)
  show "k = position (du_trace d) + 1" "k \<le> u64_max"
    using checked_next_position [OF k] by simp_all
  have "map (sv_redact_record env) rs = rs"
    using assms(2) by (simp add: plain_store_def map_idI)
  then show "du_records d' = du_records d @ rs"
    using r by simp
qed

lemma log_state_later:
  assumes "log_state env d s" "same_logs d d'"
  shows "log_state env d' s"
  using assms by (simp add: log_state_def same_logs_def)

lemma placed_mono: "placed p m \<Longrightarrow> p \<le> q \<Longrightarrow> placed q m"
  by (auto simp: placed_def intro: le_trans)

lemma behind_Suc: "behind p s \<Longrightarrow> behind (Suc p) s"
  by (auto simp: behind_def intro: placed_mono split: option.splits)

lemma unused_Suc: "unused_from env n s \<Longrightarrow> unused_from env (Suc n) s"
  by (auto simp: unused_from_def)

lemma log_state_neutral:
  assumes "log_state env d s" "appended env e k [] d d'" "plain_store env"
  shows "log_state env d' s"
  using assms(1) appended_facts [OF assms(2,3)] by (simp add: log_state_def behind_Suc unused_Suc)

text \<open>Every step of the log is an instance of one lemma: what the record may change.\<close>

lemma log_state_step:
  assumes s: "log_state env d s" and a: "appended env e k [r] d d'" and plain: "plain_store env"
    and r: "restore_record r s = Inr t" and epochs: "epochs_ordered t"
    and seqs: "rs_last_message_seq t \<in> {rs_last_message_seq s, Some k}"
      "rs_last_reduction_seq t \<in> {rs_last_reduction_seq s, Some k}"
      "rs_last_seq t \<in> {rs_last_seq s, keep_max (rs_last_seq s) k}"
      "rs_checkpoint_seq t \<in> {rs_checkpoint_seq s, rs_last_seq s}"
    and window: "\<And>m. m \<in> set (whole_window t) \<Longrightarrow> m \<in> set (whole_window s) \<or> sm_seq m = Some k"
    and ids: "set (rs_event_ids t) \<union> set (rs_checkpoint_ids t)
      \<subseteq> insert (fst (sv_mint env (length (du_trace d)))) (set (rs_event_ids s) \<union> set (rs_checkpoint_ids s))"
  shows "log_state env d' t"
proof -
  note f = appended_facts [OF a plain]
  let ?p = "position (du_trace d)"
  have b: "behind ?p s" and u: "unused_from env (length (du_trace d)) s"
    and fold: "fold_res restore_record (du_records d) restore_start = Inr s"
    using s by (simp_all add: log_state_def)
  have "placed k m" if "m \<in> set (whole_window t)" for m
    using window [OF that]
  proof
    assume "m \<in> set (whole_window s)"
    then show ?thesis
      using b f(1) placed_mono [of ?p m k] by (simp add: behind_def)
  qed (use f(1) in \<open>simp add: placed_def\<close>)
  moreover have "unwrap_or 0 (keep_max (rs_last_seq s) k) \<le> k"
    using b f(1) by (auto simp: keep_max_def behind_def split: option.split)
  moreover have "unwrap_or 0 (rs_last_message_seq t) \<le> k" "unwrap_or 0 (rs_last_reduction_seq t) \<le> k"
    using b seqs(1,2) f(1) by (auto simp: behind_def)
  moreover have "case rs_checkpoint_seq t of None \<Rightarrow> True | Some n \<Rightarrow> n < k"
    using b seqs(4) f(1) by (auto simp: behind_def less_Suc_eq_le split: option.splits)
  moreover have "unwrap_or 0 (rs_last_seq s) \<le> k"
    using b f(1) by (simp add: behind_def)
  ultimately have "behind k t"
    using seqs(3) unfolding behind_def by (elim insertE) auto
  moreover have "unused_from env (Suc (length (du_trace d))) t"
    unfolding unused_from_def
  proof (intro allI impI notI)
    fix j assume j: "Suc (length (du_trace d)) \<le> j"
      "fst (sv_mint env j) \<in> set (rs_event_ids t) \<union> set (rs_checkpoint_ids t)"
    have "fst (sv_mint env j) \<noteq> fst (sv_mint env (length (du_trace d)))"
      using plain j(1) injD [of "\<lambda>k. fst (sv_mint env k)" j "length (du_trace d)"] by (auto simp: plain_store_def)
    then have "fst (sv_mint env j) \<in> set (rs_event_ids s) \<union> set (rs_checkpoint_ids s)"
      using ids j(2) by blast
    then show False
      using u j(1) by (simp add: unused_from_def)
  qed
  ultimately show ?thesis
    using f fold r epochs by (simp add: log_state_def fold_res_append)
qed

lemma log_state_fresh:
  "log_state env d s \<Longrightarrow> fst (sv_mint env (length (du_trace d))) \<notin> set (rs_event_ids s) \<union> set (rs_checkpoint_ids s)"
  by (simp add: log_state_def unused_from_def)

lemma log_state_sequence:
  assumes "log_state env d s" "k = position (du_trace d) + 1"
  shows "check_sequence i (Some k) s = Inr ()"
  using assms by (auto simp: check_sequence_def at_most_iff log_state_def behind_def)

lemma log_state_size:
  assumes "log_state env d s"
  shows "length (rs_messages s) + rs_summarized s \<le> length (du_records d)"
proof -
  have "accounted s \<le> logged_messages (du_records d)"
    using assms restore_fold_accounted by (simp add: log_state_def)
  moreover have "logged_messages (du_records d) \<le> length (du_records d)"
    by (simp add: logged_messages_def)
  ultimately show ?thesis
    by (simp add: accounted_def window_size_def)
qed

section \<open>What each record does to the log\<close>

definition add_message :: "session_message \<Rightarrow> event_seq \<Rightarrow> restore_state \<Rightarrow> restore_state" where
  "add_message m n s = s\<lparr>rs_event_ids := sm_event_id m # rs_event_ids s, rs_last_message_seq := Some n,
     rs_last_seq := keep_max (rs_last_seq s) n, rs_messages := rs_messages s @ [m]\<rparr>"

lemma log_state_message:
  assumes s: "log_state env d s" "rs_pre_barrier s = None"
    and a: "appended env e k [MessageRec m] d d'" and plain: "plain_store env"
    and m: "sm_seq m = Some k" "sm_event_id m = fst (sv_mint env (length (du_trace d)))"
  shows "log_state env d' (add_message m k s)"
proof (rule log_state_step [OF s(1) a plain])
  have "restore_message m s = Inr (add_message m k s)"
    using log_state_fresh [OF s(1)] log_state_sequence [OF s(1) appended_facts(1) [OF a plain]] m s(2)
    by (simp add: restore_message_def close_legacy_barrier_def add_message_def Let_def)
  then show "restore_record (MessageRec m) s = Inr (add_message m k s)"
    by (simp add: restore_record_def)
  show "epochs_ordered (add_message m k s)"
    using s(1) by (simp add: log_state_def epochs_ordered_def add_message_def)
qed (use s m in \<open>auto simp: add_message_def whole_window_def\<close>)

lemma log_state_epoch:
  assumes s: "log_state env d s" and a: "appended env e k [EpochRec r] d d'" and plain: "plain_store env"
  shows "log_state env d' (s\<lparr>rs_epochs := rs_epochs s @ [r]\<rparr>)"
proof (rule log_state_step [OF s a plain])
  show "epochs_ordered (s\<lparr>rs_epochs := rs_epochs s @ [r]\<rparr>)"
    using s by (simp add: log_state_def epochs_ordered_def)
qed (auto simp: whole_window_def restore_record_def)

definition capsule_window :: "context_capsule option \<Rightarrow> message list" where
  "capsule_window c = (case c of None \<Rightarrow> [] | Some x \<Rightarrow> [user_message (format_capsule x)])"

definition drop_oldest :: "session_reduction_record \<Rightarrow> event_seq \<Rightarrow> restore_state \<Rightarrow> restore_state" where
  "drop_oldest r n s = s\<lparr>rs_event_ids := sr_event_id r # rs_event_ids s, rs_last_reduction_seq := Some n,
     rs_last_seq := keep_max (rs_last_seq s) n, rs_reductions := rs_reductions s @ [r],
     rs_messages := drop (sr_removed_messages r) (rs_messages s)\<rparr>"

lemma log_state_reduction:
  assumes s: "log_state env d s" and a: "appended env e k [ReductionRec r] d d'" and plain: "plain_store env"
    and r: "sr_seq r = Some k" "sr_event_id r = fst (sv_mint env (length (du_trace d)))"
      "0 < sr_removed_messages r" "sr_removed_messages r \<le> length (rs_messages s)"
      "sr_retained_messages r
        = length (capsule_window (rs_checkpoint s)) + length (rs_messages s) - sr_removed_messages r"
  shows "log_state env d' (drop_oldest r k s)"
proof (rule log_state_step [OF s a plain])
  have "restore_reduction r s = Inr (drop_oldest r k s)"
    using log_state_fresh [OF s] log_state_sequence [OF s appended_facts(1) [OF a plain]] r
    by (cases "rs_checkpoint s")
      (auto simp: restore_reduction_def drop_oldest_def capsule_window_def Let_def)
  then show "restore_record (ReductionRec r) s = Inr (drop_oldest r k s)"
    by (simp add: restore_record_def)
  show "epochs_ordered (drop_oldest r k s)"
    using s by (simp add: log_state_def epochs_ordered_def drop_oldest_def)
qed (use r in \<open>auto simp: drop_oldest_def whole_window_def dest: in_set_dropD\<close>)

definition fold_summary :: "session_compaction_record \<Rightarrow> restore_state \<Rightarrow> restore_state" where
  "fold_summary c s = s\<lparr>rs_last_compaction_epoch := Some (sc_context_epoch c),
     rs_last_context_epoch := Some (sc_context_epoch c), rs_context_epoch := sc_context_epoch c,
     rs_compactions := rs_compactions s @ [c],
     rs_messages := last (rs_messages s) # drop (sc_removed_messages c) (butlast (rs_messages s))\<rparr>"

lemma next_epoch_fresh:
  assumes "epochs_ordered s" "n = rs_context_epoch s + 1"
  shows "\<not> at_most n (rs_last_context_epoch s)" "\<not> at_most n (rs_last_compaction_epoch s)"
    "max (rs_context_epoch s) n = n"
    "(case rs_last_context_epoch s of None \<Rightarrow> n | Some p \<Rightarrow> max p n) = n"
  using assms by (auto simp: epochs_ordered_def at_most_iff split: option.split)

lemma log_state_summary:
  assumes s: "log_state env d s" and a: "appended env e k [CompactionRec c] d d'" and plain: "plain_store env"
    and c: "\<not> sc_aborted c" "valid_bounds c" "sc_level c \<noteq> L3Checkpoint" "sc_summary_present c"
      "sc_context_epoch c = rs_context_epoch s + 1" "rs_messages s \<noteq> []"
      "sc_retained_messages c + sc_removed_messages c = length (rs_messages s) - 1"
  shows "log_state env d' (fold_summary c s)"
proof (rule log_state_step [OF s a plain])
  have "epochs_ordered s"
    using s by (simp add: log_state_def)
  note fresh = next_epoch_fresh [OF this c(5)]
  have size: "sc_retained_messages c \<le> length (rs_messages s) - Suc 0"
    "length (rs_messages s) - Suc 0 - sc_retained_messages c = sc_removed_messages c"
    and pos: "sc_context_epoch c \<noteq> 0"
    using c(5,7) by simp_all
  have "restore_compaction c s = Inr (fold_summary c s)"
    using c(1-4,6) fresh pos size unfolding restore_compaction_def restore_checkpoint_close_def
    by (simp add: restore_summary_def fold_summary_def Let_def)
  then show "restore_record (CompactionRec c) s = Inr (fold_summary c s)"
    by (simp add: restore_record_def)
  show "epochs_ordered (fold_summary c s)"
    by (simp add: epochs_ordered_def fold_summary_def)
  have "set (last (rs_messages s) # drop (sc_removed_messages c) (butlast (rs_messages s))) \<subseteq> set (rs_messages s)"
    using c(6) by (auto dest: in_set_dropD in_set_butlastD)
  then show "m \<in> set (whole_window s) \<or> sm_seq m = Some k" if "m \<in> set (whole_window (fold_summary c s))" for m
    using that by (auto simp: whole_window_def fold_summary_def)
qed (auto simp: fold_summary_def)

definition barrier_state :: "session_checkpoint_record \<Rightarrow> restore_state \<Rightarrow> restore_state" where
  "barrier_state b s = s\<lparr>rs_last_context_epoch := Some (sk_context_epoch b),
     rs_last_checkpoint_epoch := Some (sk_context_epoch b),
     rs_checkpoint_ids := sk_checkpoint_id b # rs_checkpoint_ids s, rs_pre_barrier := Some (rs_messages s),
     rs_checkpoint := Some (sk_capsule b), rs_checkpoint_seq := rs_last_seq s,
     rs_context_epoch := sk_context_epoch b, rs_messages := []\<rparr>"

lemma log_state_barrier:
  assumes s: "log_state env d s" "rs_pre_barrier s = None"
    and a: "appended env e k [CheckpointRec b] d d'" and plain: "plain_store env"
    and b: "sk_checkpoint_id b = fst (sv_mint env (length (du_trace d)))"
      "sk_context_epoch b = rs_context_epoch s + 1"
  shows "log_state env d' (barrier_state b s)"
proof (rule log_state_step [OF s(1) a plain])
  have "epochs_ordered s"
    using s by (simp add: log_state_def)
  note fresh = next_epoch_fresh [OF this b(2)]
  show "restore_record (CheckpointRec b) s = Inr (barrier_state b s)"
    using log_state_fresh [OF s(1)] fresh b s(2)
    by (simp add: restore_record_def restore_barrier_def barrier_state_def Let_def)
  show "epochs_ordered (barrier_state b s)"
    using s(1) b(2) by (auto simp: log_state_def epochs_ordered_def barrier_state_def)
qed (use s b in \<open>auto simp: barrier_state_def whole_window_def\<close>)

definition close_barrier :: "session_compaction_record \<Rightarrow> session_message list \<Rightarrow> restore_state \<Rightarrow> restore_state" where
  "close_barrier c pre s = s\<lparr>rs_last_compaction_epoch := Some (sc_context_epoch c),
     rs_last_context_epoch := Some (sc_context_epoch c), rs_context_epoch := sc_context_epoch c,
     rs_summarized := rs_summarized s + sc_removed_messages c, rs_pre_barrier := None,
     rs_compactions := rs_compactions s @ [c], rs_messages := drop (sc_removed_messages c) pre\<rparr>"

lemma log_state_close:
  assumes s: "log_state env d s" and a: "appended env e k [CompactionRec c] d d'" and plain: "plain_store env"
    and pre: "rs_pre_barrier s = Some pre" "rs_last_checkpoint_epoch s = Some (rs_context_epoch s)"
      "\<not> at_most (rs_context_epoch s) (rs_last_compaction_epoch s)" "0 < rs_context_epoch s"
      "rs_last_context_epoch s = Some (rs_context_epoch s)"
    and c: "\<not> sc_aborted c" "valid_bounds c" "sc_level c = L3Checkpoint" "\<not> sc_summary_present c"
      "sc_context_epoch c = rs_context_epoch s"
      "sc_removed_messages c \<le> length pre" "sc_retained_messages c = length pre - sc_removed_messages c + 1"
  shows "log_state env d' (close_barrier c pre s)"
proof (rule log_state_step [OF s a plain])
  have "accounted s \<le> logged_messages (du_records d)"
    using s restore_fold_accounted by (simp add: log_state_def)
  moreover have "logged_messages (du_records d) \<le> length (du_records d)"
    by (simp add: logged_messages_def)
  moreover have "length (du_records d) + 2 \<le> usize_max"
    using a by (simp add: appended_def)
  ultimately have "length pre + rs_summarized s + 2 \<le> usize_max"
    using pre(1) by (simp add: accounted_def window_size_def)
  then have "checked_add usize_max (length pre - sc_removed_messages c) 1 = Some (sc_retained_messages c)"
    "checked_add usize_max (rs_summarized s) (sc_removed_messages c) = Some (rs_summarized s + sc_removed_messages c)"
    using c(6,7) by (simp_all add: checked_add_def)
  then have "restore_compaction c s = Inr (close_barrier c pre s)"
    using pre c
    by (simp add: restore_compaction_def restore_checkpoint_close_def restore_summary_def close_barrier_def
        add_summarized_def Let_def)
  then show "restore_record (CompactionRec c) s = Inr (close_barrier c pre s)"
    by (simp add: restore_record_def)
  show "epochs_ordered (close_barrier c pre s)"
    by (simp add: epochs_ordered_def close_barrier_def)
qed (use pre in \<open>auto simp: close_barrier_def whole_window_def dest: in_set_dropD\<close>)

section \<open>The window\<close>

definition shows_window :: "live_context \<Rightarrow> restore_state \<Rightarrow> bool" where
  "shows_window lc s \<longleftrightarrow>
     rs_pre_barrier s = None
     \<and> lc_floor lc = length (capsule_window (rs_checkpoint s))
     \<and> lc_messages lc = capsule_window (rs_checkpoint s) @ map sm_message (rs_messages s)
     \<and> lc_seqs lc = replicate (lc_floor lc) None @ map sm_seq (rs_messages s)
     \<and> lc_epoch lc = rs_context_epoch s
     \<and> \<not> st_summary_pending (lc_trace lc) \<and> st_checkpoint (lc_trace lc) = None"

definition mirrors :: "store_env \<Rightarrow> live_context \<Rightarrow> durable \<Rightarrow> bool" where
  "mirrors env lc d \<longleftrightarrow> (\<exists>s. log_state env d s \<and> shows_window lc s)"

definition same_window :: "live_context \<Rightarrow> live_context \<Rightarrow> bool" where
  "same_window lc lc' \<longleftrightarrow>
     lc_messages lc' = lc_messages lc \<and> lc_seqs lc' = lc_seqs lc
     \<and> lc_epoch lc' = lc_epoch lc \<and> lc_floor lc' = lc_floor lc"

definition same_staging :: "live_context \<Rightarrow> live_context \<Rightarrow> bool" where
  "same_staging lc lc' \<longleftrightarrow>
     st_summary_pending (lc_trace lc') = st_summary_pending (lc_trace lc)
     \<and> st_checkpoint (lc_trace lc') = st_checkpoint (lc_trace lc)"

lemma shows_window_same:
  "shows_window lc s \<Longrightarrow> same_window lc lc' \<Longrightarrow> same_staging lc lc' \<Longrightarrow> shows_window lc' s"
  by (simp add: shows_window_def same_window_def same_staging_def)

text \<open>An event that is neither a record of the semantic log nor the end of something staged.\<close>

fun silent_event :: "agent_event \<Rightarrow> bool" where
  "silent_event (ModelEpochStartedEv _) = False"
| "silent_event (CheckpointCreatedEv _) = False"
| "silent_event (CompactionCompletedEv _) = False"
| "silent_event ContextSummaryEv = False"
| "silent_event (ContextReducedEv r) \<longleftrightarrow> crd_removed_messages r = 0"
| "silent_event _ = True"

lemma silent_projection:
  "silent_event (ee_event e) \<Longrightarrow> projection_of st e = None"
  by (cases "ee_event e") (auto simp: projection_of_def)

lemma silent_staging:
  assumes "silent_event event"
  shows "st_summary_pending (after_emit event i (note_range event st)) = st_summary_pending st"
    "st_checkpoint (after_emit event i (note_range event st)) = st_checkpoint st"
    "st_range (after_emit event i (note_range event st)) = st_range (note_range event st)"
  using assms by (cases event; simp add: after_emit_def note_range_def)+

lemma loop_envelope_facts [simp]:
  "ee_event (loop_envelope env li n turn event) = event"
  "em_event_id (ee_meta (loop_envelope env li n turn event)) = fst (sv_mint env n)"
  by (simp_all add: loop_envelope_def new_envelope_def new_meta_def case_prod_beta)

lemma live_emit_silent:
  assumes run: "live_emit env li turn event lc d = (ws, Inr (e', lc'))" and "silent_event event"
    and "plain_store env" "log_state env d s"
  shows "log_state env (apply_writes ws d) s" "same_window lc lc'" "same_staging lc lc'"
    "st_range (lc_trace lc') = st_range (note_range event (lc_trace lc))"
proof -
  let ?e = "loop_envelope env li (length (du_trace d)) turn event"
  obtain k where k: "appended env ?e k [] d (apply_writes ws d)"
    and lc': "lc' = lc\<lparr>lc_trace := after_emit event (fst (sv_mint env (length (du_trace d)))) (note_range event (lc_trace lc)),
               lc_envelopes := lc_envelopes lc @ [e']\<rparr>"
    using live_emit_effect [OF run] assms(2) by (auto simp: silent_projection)
  show "log_state env (apply_writes ws d) s"
    using log_state_neutral [OF assms(4) k assms(3)] .
  show "same_window lc lc'" "same_staging lc lc'"
    "st_range (lc_trace lc') = st_range (note_range event (lc_trace lc))"
    using silent_staging [OF assms(2)] by (simp_all add: lc' same_window_def same_staging_def)
qed

lemma live_emit_silent_mirrors:
  assumes "live_emit env li turn event lc d = (ws, Inr (e', lc'))" "silent_event event"
    "plain_store env" "mirrors env lc d"
  shows "mirrors env lc' (apply_writes ws d)"
  using assms(4) live_emit_silent [OF assms(1-3)] shows_window_same unfolding mirrors_def by blast

lemma live_emit_epoch_mirrors:
  assumes run: "live_emit env li turn (ModelEpochStartedEv r) lc d = (ws, Inr (e', lc'))"
    and plain: "plain_store env" and "mirrors env lc d"
  shows "mirrors env lc' (apply_writes ws d)"
proof -
  obtain s where s: "log_state env d s" "shows_window lc s"
    using assms(3) by (auto simp: mirrors_def)
  let ?e = "loop_envelope env li (length (du_trace d)) turn (ModelEpochStartedEv r)"
  obtain k q where k: "appended env ?e k [EpochRec q] d (apply_writes ws d)"
    and lc': "lc' = lc\<lparr>lc_trace := lc_trace lc, lc_envelopes := lc_envelopes lc @ [e']\<rparr>"
    using live_emit_effect [OF run] by (auto simp: projection_of_def note_range_def after_emit_def)
  have "shows_window lc' (s\<lparr>rs_epochs := rs_epochs s @ [q]\<rparr>)"
    using s(2) by (simp add: shows_window_def lc')
  then show ?thesis
    using log_state_epoch [OF s(1) k plain] by (auto simp: mirrors_def)
qed

lemma live_emit_message_log:
  assumes run: "live_emit_message env li turn event m lc d = (ws, Inr (e', lc'))"
    and plain: "plain_store env" and s: "log_state env d s" "rs_pre_barrier s = None"
  obtains k q where "log_state env (apply_writes ws d) (add_message q k s)"
    "sm_seq q = Some k" "sm_message q = m" "em_seq (ee_meta e') = Some k" "same_window lc lc'"
    "position (du_trace d) < k" "lc_trace lc' = (if event = ContextSummaryEv then (lc_trace lc)\<lparr>st_summary_pending := True\<rparr> else lc_trace lc)"
proof -
  let ?e = "loop_envelope env li (length (du_trace d)) turn event"
  obtain k q where k: "appended env ?e k [MessageRec q] d (apply_writes ws d)"
    and q: "sm_seq q = Some k" "sm_message q = m" "sm_event_id q = fst (sv_mint env (length (du_trace d)))"
      "em_seq (ee_meta e') = Some k"
    and lc': "lc' = lc\<lparr>lc_trace := (if event = ContextSummaryEv then (lc_trace lc)\<lparr>st_summary_pending := True\<rparr> else lc_trace lc),
               lc_envelopes := lc_envelopes lc @ [e']\<rparr>"
    using live_emit_message_effect [OF run] by blast
  show thesis
    using that [OF log_state_message [OF s k plain q(1,3)] q(1,2,4)] appended_facts(1) [OF k plain]
    by (simp add: lc' same_window_def)
qed

lemma record_message_mirrors:
  assumes run: "record_message env li turn event m lc d = (ws, Inr ((), lc'))"
    and "event \<noteq> ContextSummaryEv" "plain_store env" "mirrors env lc d"
  shows "mirrors env lc' (apply_writes ws d)"
proof -
  obtain s where s: "log_state env d s" "shows_window lc s"
    using assms(4) by (auto simp: mirrors_def)
  obtain e lc1 where e: "live_emit_message env li (Some turn) event m lc d = (ws, Inr (e, lc1))"
    and lc': "lc' = push_message m (em_seq (ee_meta e)) lc1"
    using run unfolding record_message_def by (auto elim!: io_bind_success)
  have "rs_pre_barrier s = None"
    using s(2) by (simp add: shows_window_def)
  then obtain k q where k: "log_state env (apply_writes ws d) (add_message q k s)"
    and q: "sm_seq q = Some k" "sm_message q = m" "em_seq (ee_meta e) = Some k" "same_window lc lc1"
      "lc_trace lc1 = lc_trace lc"
    using live_emit_message_log [OF e assms(3) s(1)] assms(2) by metis
  have "shows_window lc' (add_message q k s)"
    using s(2) q by (simp add: lc' push_message_def shows_window_def same_window_def add_message_def)
  then show ?thesis
    using k by (auto simp: mirrors_def)
qed

section \<open>Eviction\<close>

lemma choose_drop_safe:
  "choose_drop est safe max_drop target desired prompt_only = 0
   \<or> safe (choose_drop est safe max_drop target desired prompt_only)"
proof -
  have found: "safe n" if "List.find p xs = Some n" "\<And>n. p n \<Longrightarrow> safe n" for p n and xs :: "nat list"
    using that by (auto simp: find_Some_iff)
  show ?thesis
    by (auto simp: choose_drop_def Let_def unwrap_or_def split: option.splits dest: found)
qed

lemma normalize_aligned: "length (lc_seqs lc) = length (lc_messages lc) \<Longrightarrow> normalize_message_seqs lc = lc"
  by (simp add: normalize_message_seqs_def Let_def)

lemma shows_window_aligned: "shows_window lc s \<Longrightarrow> length (lc_seqs lc) = length (lc_messages lc)"
  by (simp add: shows_window_def)

lemma count_u32_Inr [simp]: "count_u32 n = Inr k \<longleftrightarrow> n \<le> u32_max \<and> k = n"
  by (auto simp: count_u32_def)

lemma splice_behind:
  "length xs = n \<Longrightarrow> n \<le> m \<Longrightarrow> splice n m new (xs @ ys) = xs @ new @ drop (m - n) ys"
  by (simp add: splice_def)

lemma evict_oldest_mirrors:
  assumes run: "evict_oldest env li est target turn turn_start prompt_only lc d = (ws, Inr ((removed, start'), lc'))"
    and plain: "plain_store env" and "mirrors env lc d"
  shows "mirrors env lc' (apply_writes ws d)"
proof -
  obtain s where s: "log_state env d s" and win: "shows_window lc s"
    using assms(3) by (auto simp: mirrors_def)
  let ?ms = "lc_messages lc"
  have norm: "normalize_message_seqs lc = lc"
    using normalize_aligned [OF shows_window_aligned [OF win]] .
  have floor_le: "min (lc_floor lc) (length ?ms) = lc_floor lc"
    using win by (simp add: shows_window_def)
  define limit where "limit = min (max (min turn_start (length ?ms)) (lc_floor lc)) (length ?ms)"
  define dropped where "dropped = choose_drop (\<lambda>n. estimate_after_eviction est ?ms (lc_floor lc) n True)
      (\<lambda>n. safe_eviction_boundary ?ms (lc_floor lc) (lc_floor lc + n) limit) (limit - lc_floor lc) target
      (desired_drop (\<lambda>n. estimate_after_eviction est ?ms (lc_floor lc) n prompt_only) (limit - lc_floor lc) target 0)
      prompt_only"
  have "dropped = 0 \<or> safe_eviction_boundary ?ms (lc_floor lc) (lc_floor lc + dropped) limit"
    using choose_drop_safe unfolding dropped_def by metis
  then have bound: "lc_floor lc + dropped \<le> length ?ms"
    using floor_le by (auto simp: safe_eviction_boundary_def split: if_splits)
  show ?thesis
  proof (cases "dropped = 0")
    case True
    then have "ws = []" "lc' = lc"
      using run unfolding evict_oldest_def Let_def norm floor_le limit_def [symmetric] dropped_def [symmetric]
      by auto
    then show ?thesis
      using assms(3) by simp
  next
    case False
    define event where "event = (\<lambda>blob. \<lparr> crd_reason = RecentTargetExceeded target,
       crd_original_bytes = estimate_after_eviction est ?ms 0 0 False,
       crd_visible_bytes = estimate_after_eviction est ?ms (lc_floor lc) dropped False,
       crd_removed_messages = dropped, crd_retained_messages = length ?ms - dropped,
       crd_blob = Some blob, crd_recovery_ref = Some (blob_recovery_ref blob), crd_tool_call_id = None \<rparr>)"
    obtain w1 blob w2 e lc1 where
      w1: "trace_put_payload env (sv_encode_messages env (take dropped (drop (lc_floor lc) ?ms))) d = (w1, Inr blob)"
      and w2: "live_emit env li (Some turn) (ContextReducedEv (event blob)) lc (apply_writes w1 d) = (w2, Inr (e, lc1))"
      and ws: "ws = w1 @ w2"
      and lc': "lc' = lc1\<lparr>lc_messages := splice (lc_floor lc) (lc_floor lc + dropped) [] ?ms,
                   lc_seqs := splice (lc_floor lc) (lc_floor lc + dropped) [] (lc_seqs lc1)\<rparr>"
      using run False
      unfolding evict_oldest_def Let_def norm floor_le limit_def [symmetric] dropped_def [symmetric] event_def
      by (auto elim!: io_bind_success simp: io_lift_success)
    let ?d = "apply_writes w1 d"
    have s1: "log_state env ?d s"
      using log_state_later [OF s] quiet_run [OF quiet_op_payload w1] by (simp add: same_logs_def)
    obtain k where k: "appended env (loop_envelope env li (length (du_trace ?d)) (Some turn) (ContextReducedEv (event blob))) k
        [ReductionRec \<lparr> sr_event_id = fst (sv_mint env (length (du_trace ?d))), sr_seq = Some k,
           sr_reason = RecentTargetExceeded target, sr_removed_messages = dropped,
           sr_retained_messages = length ?ms - dropped \<rparr>] ?d (apply_writes w2 ?d)"
      and lc1: "lc1 = lc\<lparr>lc_trace := lc_trace lc, lc_envelopes := lc_envelopes lc @ [e]\<rparr>"
      using live_emit_effect [OF w2] False
      by (auto simp: projection_of_def note_range_def after_emit_def event_def)
    have "log_state env (apply_writes w2 ?d) (drop_oldest \<lparr> sr_event_id = fst (sv_mint env (length (du_trace ?d))), sr_seq = Some k,
           sr_reason = RecentTargetExceeded target, sr_removed_messages = dropped,
           sr_retained_messages = length ?ms - dropped \<rparr> k s)"
      using False bound win by (intro log_state_reduction [OF s1 k plain]) (simp_all add: shows_window_def)
    moreover have "shows_window lc' (drop_oldest \<lparr> sr_event_id = fst (sv_mint env (length (du_trace ?d))), sr_seq = Some k,
           sr_reason = RecentTargetExceeded target, sr_removed_messages = dropped,
           sr_retained_messages = length ?ms - dropped \<rparr> k s)"
      using win by (simp add: shows_window_def lc' lc1 drop_oldest_def splice_behind drop_map)
    ultimately show ?thesis
      by (auto simp: mirrors_def ws)
  qed
qed

section \<open>Summaries\<close>

lemma next_live_epoch_Inr: "next_live_epoch lc = Inr n \<Longrightarrow> n = lc_epoch lc + 1"
  by (auto simp: next_live_epoch_def checked_add_def split: if_splits)

text \<open>
  A summary leaves two records, the message and the completion, and the window it stands for;
  whether the log accepts the completion is left open here.
\<close>

definition summary_record :: "live_context \<Rightarrow> context_level \<Rightarrow> nat \<Rightarrow> session_compaction_record" where
  "summary_record lc level last_one = compaction_record_of
     \<lparr> ccc_level = level, ccc_removed_messages = last_one - lc_floor lc,
       ccc_retained_messages = length (lc_messages lc) - last_one, ccc_context_epoch = lc_epoch lc + 1 \<rparr>
     True (Some (replaced_range lc (lc_floor lc) last_one))"

lemma compact_range_written:
  assumes run: "compact_range env li turn prefix_end summary level reason lc d = (ws, Inr (removed, lc'))"
    and plain: "plain_store env" and s: "log_state env d s" and win: "shows_window lc s"
    and level: "level \<in> {L1Ordinary, L2Phase}"
    and last_one: "last_one = min prefix_end (length (lc_messages lc))" "\<not> last_one \<le> lc_floor lc"
  obtains k q d4 e k5 where "log_state env d4 (add_message q k s)"
    "appended env e k5 [CompactionRec (summary_record lc level last_one)] d4 (apply_writes ws d)"
    "sm_seq q = Some k" "sm_message q = user_message summary" "position (du_trace d) < k"
    "lc_messages lc' = splice (lc_floor lc) last_one [user_message summary] (lc_messages lc)"
    "lc_seqs lc' = splice (lc_floor lc) last_one [Some k] (lc_seqs lc)"
    "lc_epoch lc' = lc_epoch lc + 1" "lc_floor lc' = lc_floor lc"
    "\<not> st_summary_pending (lc_trace lc')" "st_checkpoint (lc_trace lc') = None"
proof -
  let ?ms = "lc_messages lc"
  have norm: "normalize_message_seqs lc = lc"
    using normalize_aligned [OF shows_window_aligned [OF win]] .
  have floor_le: "min (lc_floor lc) (length ?ms) = lc_floor lc"
    using win by (simp add: shows_window_def)
    define a b where "a = fst (replaced_range lc (lc_floor lc) last_one)"
      and "b = snd (replaced_range lc (lc_floor lc) last_one)"
    then have ab: "replaced_range lc (lc_floor lc) last_one = (a, b)"
      by simp
    obtain epoch w1 e1 lc1 w2 e2 lc2 w3 blob w4 e4 lc4 w5 e5 lc5 where
      epoch: "next_live_epoch lc = Inr epoch"
      and w1: "live_emit env li (Some turn) (CompactionStartedEv \<lparr> ccs_level = level, ccs_reason = reason \<rparr>) lc d
        = (w1, Inr (e1, lc1))"
      and w2: "live_emit_message env li (Some turn) ContextSummaryEv (user_message summary) lc1 (apply_writes w1 d)
        = (w2, Inr (e2, lc2))"
      and w3: "trace_put_payload env summary (apply_writes w2 (apply_writes w1 d)) = (w3, Inr blob)"
      and w4: "live_emit env li (Some turn) (CompactionEpochEv
                \<lparr> cce_context_epoch = epoch, cce_replaces_from = a, cce_replaces_through = b,
                  cce_summary = Some blob \<rparr>) lc2 (apply_writes w3 (apply_writes w2 (apply_writes w1 d)))
        = (w4, Inr (e4, lc4))"
      and w5: "live_emit env li (Some turn) (CompactionCompletedEv
                \<lparr> ccc_level = level, ccc_removed_messages = last_one - lc_floor lc,
                  ccc_retained_messages = length ?ms - last_one, ccc_context_epoch = epoch \<rparr>) lc4
                (apply_writes w4 (apply_writes w3 (apply_writes w2 (apply_writes w1 d))))
        = (w5, Inr (e5, lc5))"
      and ws: "ws = w1 @ w2 @ w3 @ w4 @ w5"
      and lc': "lc' = lc5\<lparr>lc_messages := splice (lc_floor lc) last_one [user_message summary] (lc_messages lc5),
                   lc_seqs := splice (lc_floor lc) last_one [em_seq (ee_meta e2)] (lc_seqs lc5),
                   lc_epoch := epoch\<rparr>"
      using run last_one(2) unfolding compact_range_def Let_def norm floor_le last_one(1) [symmetric] ab prod.case if_not_P [OF last_one(2)]
      by (auto elim!: io_bind_success simp: io_lift_success)
    note r1 = live_emit_silent [OF w1 _ plain s, simplified]
    have pre: "rs_pre_barrier s = None"
      using win by (simp add: shows_window_def)
    obtain k q where r2: "log_state env (apply_writes w2 (apply_writes w1 d)) (add_message q k s)"
      and q: "sm_seq q = Some k" "sm_message q = user_message summary" "em_seq (ee_meta e2) = Some k"
      and later: "position (du_trace (apply_writes w1 d)) < k"
      and lc2: "same_window lc1 lc2" "lc_trace lc2 = (lc_trace lc1)\<lparr>st_summary_pending := True\<rparr>"
      by (rule live_emit_message_log [OF w2 plain r1(1) pre]) (rule that; simp)
    have r3: "log_state env (apply_writes w3 (apply_writes w2 (apply_writes w1 d))) (add_message q k s)"
      using log_state_later [OF r2] quiet_run [OF quiet_op_payload w3] by (simp add: same_logs_def)
    note r4 = live_emit_silent [OF w4 _ plain r3, simplified]
    let ?d4 = "apply_writes w4 (apply_writes w3 (apply_writes w2 (apply_writes w1 d)))"
    have staged: "st_summary_pending (lc_trace lc4)" "st_range (lc_trace lc4) = Some (a, b)"
      using r4(3,4) lc2 by (simp_all add: same_staging_def note_range_def)
    have same: "same_window lc lc4" "st_checkpoint (lc_trace lc4) = None"
      using r1(2,3) lc2 r4(2,3) win by (simp_all add: same_window_def same_staging_def shows_window_def)
    have n: "epoch = lc_epoch lc + 1"
      by (rule next_live_epoch_Inr [OF epoch])
    have "completion_record (lc_trace lc4) \<lparr> ccc_level = level, ccc_removed_messages = last_one - lc_floor lc,
                  ccc_retained_messages = length ?ms - last_one, ccc_context_epoch = epoch \<rparr>
        = summary_record lc level last_one"
      using staged level n ab by (auto simp: completion_record_def summary_record_def)
    then obtain k5 where k5: "appended env (loop_envelope env li (length (du_trace ?d4)) (Some turn) (CompactionCompletedEv
                \<lparr> ccc_level = level, ccc_removed_messages = last_one - lc_floor lc,
                  ccc_retained_messages = length ?ms - last_one, ccc_context_epoch = epoch \<rparr>)) k5
        [CompactionRec (summary_record lc level last_one)] ?d4 (apply_writes w5 ?d4)"
      and lc5: "lc5 = lc4\<lparr>lc_trace := (lc_trace lc4)\<lparr>st_start := None, st_summary_pending := False, st_range := None\<rparr>,
          lc_envelopes := lc_envelopes lc4 @ [e5]\<rparr>"
      using live_emit_effect [OF w5] by (auto simp: projection_of_def note_range_def after_emit_def)
    have "position (du_trace d) < k"
      using later live_emit_effect [OF w1] appended_facts(1,2) [OF _ plain] by fastforce
    then show thesis
      using that [OF r4(1) _ q(1,2)] k5 same q(3) n by (simp add: ws lc' lc5 same_window_def)
qed

lemma summary_record_facts:
  assumes "shows_window lc s" "\<not> last_one \<le> lc_floor lc" "last_one \<le> length (lc_messages lc)"
    "level \<in> {L1Ordinary, L2Phase}"
  shows "\<not> sc_aborted (summary_record lc level last_one)" "sc_level (summary_record lc level last_one) \<noteq> L3Checkpoint"
    "sc_summary_present (summary_record lc level last_one)"
    "sc_context_epoch (summary_record lc level last_one) = rs_context_epoch (add_message q k s) + 1"
    "rs_messages (add_message q k s) \<noteq> []"
    "sc_retained_messages (summary_record lc level last_one) + sc_removed_messages (summary_record lc level last_one)
      = length (rs_messages (add_message q k s)) - 1"
    "valid_bounds (summary_record lc level last_one)
      \<longleftrightarrow> (let (a, b) = replaced_range lc (lc_floor lc) last_one in 0 < a \<and> a \<le> b)"
  using assms by (auto simp: summary_record_def compaction_record_of_def add_message_def shows_window_def
      valid_bounds_def case_prod_beta Let_def)

lemma compact_range_mirrors:
  assumes run: "compact_range env li turn prefix_end summary level reason lc d = (ws, Inr (removed, lc'))"
    and plain: "plain_store env" and "mirrors env lc d" and level: "level \<in> {L1Ordinary, L2Phase}"
    and ordered: "replaced_range lc (lc_floor lc) (min prefix_end (length (lc_messages lc))) = (a, b)" "0 < a" "a \<le> b"
  shows "mirrors env lc' (apply_writes ws d)"
proof -
  obtain s where s: "log_state env d s" and win: "shows_window lc s"
    using assms(3) by (auto simp: mirrors_def)
  define last_one where "last_one = min prefix_end (length (lc_messages lc))"
  show ?thesis
  proof (cases "last_one \<le> lc_floor lc")
    case True
    have "normalize_message_seqs lc = lc" "min (lc_floor lc) (length (lc_messages lc)) = lc_floor lc"
      using normalize_aligned [OF shows_window_aligned [OF win]] win by (simp_all add: shows_window_def)
    then have "ws = []" "lc' = lc"
      using run True unfolding compact_range_def Let_def last_one_def by auto
    then show ?thesis
      using assms(3) by simp
  next
    case False
    let ?c = "summary_record lc level last_one"
    obtain k q d4 e k5 where log: "log_state env d4 (add_message q k s)"
      and k5: "appended env e k5 [CompactionRec ?c] d4 (apply_writes ws d)"
      and q: "sm_seq q = Some k" "sm_message q = user_message summary"
      and lc': "lc_messages lc' = splice (lc_floor lc) last_one [user_message summary] (lc_messages lc)"
        "lc_seqs lc' = splice (lc_floor lc) last_one [Some k] (lc_seqs lc)"
        "lc_epoch lc' = lc_epoch lc + 1" "lc_floor lc' = lc_floor lc"
        "\<not> st_summary_pending (lc_trace lc')" "st_checkpoint (lc_trace lc') = None"
      by (rule compact_range_written [OF run plain s win level last_one_def False])
    note facts = summary_record_facts [OF win False _ level]
    have "log_state env (apply_writes ws d) (fold_summary ?c (add_message q k s))"
      using facts ordered by (intro log_state_summary [OF log k5 plain]) (simp_all add: last_one_def)
    moreover have "shows_window lc' (fold_summary ?c (add_message q k s))"
    proof -
      have "length (capsule_window (rs_checkpoint s)) \<le> last_one"
        using False win by (simp add: shows_window_def)
      note cut = splice_behind [OF _ this]
      show ?thesis
        using win lc' q by (simp add: cut shows_window_def fold_summary_def add_message_def summary_record_def
            compaction_record_of_def drop_map)
    qed
    ultimately show ?thesis
      by (auto simp: mirrors_def)
  qed
qed

section \<open>Checkpoints\<close>

text \<open>A barrier and the completion that closes it, from the capsule file to the last record.\<close>

lemma checkpoint_written:
  assumes s: "log_state env d s" and win: "shows_window lc s" and plain: "plain_store env"
    and create: "trace_create_checkpoint env capsule (lc_trace lc) d = (w1, Inr (idp, st1))"
    and set: "set_checkpoint_context_epoch epoch st1 (apply_writes w1 d) = (w2, Inr st2)"
    and epoch: "next_live_epoch lc = Inr epoch" and removed: "removed \<le> length (rs_messages s)"
    and barrier: "live_emit env li (Some turn) (CheckpointCreatedEv (checkpoint_event idp capsule removed epoch))
        (lc\<lparr>lc_trace := st2\<rparr>) (apply_writes w2 (apply_writes w1 d)) = (w3, Inr (e, lc3))"
    and moved: "lc_trace lc4 = lc_trace lc3"
    and close: "live_emit env li (Some turn) (CompactionCompletedEv
          \<lparr> ccc_level = L3Checkpoint, ccc_removed_messages = removed,
            ccc_retained_messages = length (rs_messages s) - removed + 1, ccc_context_epoch = epoch \<rparr>)
        lc4 (apply_writes w3 (apply_writes w2 (apply_writes w1 d))) = (w4, Inr (e4, lc5))"
  obtains t where "log_state env (apply_writes w4 (apply_writes w3 (apply_writes w2 (apply_writes w1 d)))) t"
    "rs_messages t = drop removed (rs_messages s)" "rs_checkpoint t = Some capsule" "rs_context_epoch t = epoch"
    "rs_pre_barrier t = None" "same_window lc lc3" "same_window lc4 lc5"
    "\<not> st_summary_pending (lc_trace lc5)" "st_checkpoint (lc_trace lc5) = None"
proof -
  have n: "epoch = rs_context_epoch s + 1"
    using next_live_epoch_Inr [OF epoch] win by (simp add: shows_window_def)
  obtain durable_capsule where cap: "sv_store_capsule env capsule = Some durable_capsule"
    and w1: "w1 = []" and st1: "st1 = (lc_trace lc)\<lparr>st_checkpoint := Some
        \<lparr> sk_checkpoint_id = fst (sv_mint env (length (du_trace d))), sk_capsule_version = cap_version durable_capsule,
          sk_context_epoch = 0, sk_capsule_path = snd idp, sk_capsule = durable_capsule \<rparr>\<rparr>"
    using create unfolding trace_create_checkpoint_def prepare_checkpoint_def
    by (auto elim!: io_bind_success simp: Let_def split: option.splits)
  have same_cap: "durable_capsule = capsule"
    using plain cap by (simp add: plain_store_def)
  define b where "b = \<lparr> sk_checkpoint_id = fst (sv_mint env (length (du_trace d))), sk_capsule_version = cap_version capsule,
          sk_context_epoch = epoch, sk_capsule_path = snd idp, sk_capsule = capsule \<rparr>"
  have w2: "w2 = []" and st2: "st2 = (lc_trace lc)\<lparr>st_checkpoint := Some b\<rparr>"
    using set by (auto simp: set_checkpoint_context_epoch_def st1 same_cap b_def)
  obtain k where k: "appended env (loop_envelope env li (length (du_trace d)) (Some turn)
        (CheckpointCreatedEv (checkpoint_event idp capsule removed epoch))) k [CheckpointRec b] d (apply_writes w3 d)"
    and lc3: "lc3 = lc\<lparr>lc_trace := (lc_trace lc)\<lparr>st_checkpoint := None\<rparr>, lc_envelopes := lc_envelopes lc @ [e]\<rparr>"
    using live_emit_effect [OF barrier] w1 w2 st2
    by (auto simp: projection_of_def note_range_def after_emit_def)
  have pre: "rs_pre_barrier s = None"
    using win by (simp add: shows_window_def)
  have s3: "log_state env (apply_writes w3 d) (barrier_state b s)"
    using n by (intro log_state_barrier [OF s pre k plain]) (simp_all add: b_def)
  define c where "c = compaction_record_of \<lparr> ccc_level = L3Checkpoint, ccc_removed_messages = removed,
            ccc_retained_messages = length (rs_messages s) - removed + 1, ccc_context_epoch = epoch \<rparr> False None"
  let ?d3 = "apply_writes w3 d"
  obtain k4 where k4: "appended env (loop_envelope env li (length (du_trace ?d3)) (Some turn) (CompactionCompletedEv
          \<lparr> ccc_level = L3Checkpoint, ccc_removed_messages = removed,
            ccc_retained_messages = length (rs_messages s) - removed + 1, ccc_context_epoch = epoch \<rparr>)) k4
        [CompactionRec c] ?d3 (apply_writes w4 ?d3)"
    and lc5: "lc5 = lc4\<lparr>lc_trace := (lc_trace lc3)\<lparr>st_start := None, st_summary_pending := False, st_range := None\<rparr>,
        lc_envelopes := lc_envelopes lc4 @ [e4]\<rparr>"
    using live_emit_effect [OF close] w1 w2 moved
    by (auto simp: projection_of_def note_range_def after_emit_def completion_record_def c_def)
  have ordered: "epochs_ordered s"
    using s by (simp add: log_state_def)
  have closed_log: "log_state env (apply_writes w4 ?d3) (close_barrier c (rs_messages s) (barrier_state b s))"
    by (rule log_state_close [OF s3 k4 plain])
      (use removed n next_epoch_fresh [OF ordered n] in
        \<open>auto simp: barrier_state_def b_def c_def compaction_record_of_def valid_bounds_def\<close>)
  show thesis
    by (rule that [of "close_barrier c (rs_messages s) (barrier_state b s)"])
      (use closed_log in \<open>simp_all add: w1 w2 close_barrier_def barrier_state_def b_def c_def compaction_record_of_def lc3 lc5 same_window_def\<close>)
qed

lemma live_checkpoint_mirrors:
  assumes run: "live_checkpoint env li turn capsule lc d = (ws, Inr (ev, lc'))"
    and plain: "plain_store env" and "mirrors env lc d"
  shows "mirrors env lc' (apply_writes ws d)"
proof -
  obtain s where s: "log_state env d s" and win: "shows_window lc s"
    using assms(3) by (auto simp: mirrors_def)
  let ?n = "length (rs_messages s)"
  have norm: "normalize_message_seqs lc = lc"
    using normalize_aligned [OF shows_window_aligned [OF win]] .
  have n: "length (lc_messages lc) - min (lc_floor lc) (length (lc_messages lc)) = ?n"
    using win by (simp add: shows_window_def)
  obtain epoch w1 idp st1 w2 st2 w3 e lc3 cited w4 e4 lc5 where
    epoch: "next_live_epoch lc = Inr epoch"
    and w1: "trace_create_checkpoint env capsule (lc_trace lc) d = (w1, Inr (idp, st1))"
    and w2: "set_checkpoint_context_epoch epoch st1 (apply_writes w1 d) = (w2, Inr st2)"
    and w3: "live_emit env li (Some turn) (CheckpointCreatedEv (checkpoint_event idp capsule ?n epoch))
        (lc\<lparr>lc_trace := st2\<rparr>) (apply_writes w2 (apply_writes w1 d)) = (w3, Inr (e, lc3))"
    and w4: "live_emit env li (Some turn) (CompactionCompletedEv
          \<lparr> ccc_level = L3Checkpoint, ccc_removed_messages = ?n, ccc_retained_messages = 1,
            ccc_context_epoch = epoch \<rparr>)
        (lc3\<lparr>lc_cited_from := cited, lc_messages := [user_message (format_capsule capsule)],
           lc_seqs := [None], lc_floor := 1, lc_epoch := epoch\<rparr>)
        (apply_writes w3 (apply_writes w2 (apply_writes w1 d))) = (w4, Inr (e4, lc5))"
    and ws: "ws = w1 @ w2 @ w3 @ w4" and lc': "lc' = lc5"
    using run unfolding live_checkpoint_def Let_def norm n
    by (auto elim!: io_bind_success simp: io_lift_success)
  let ?lc4 = "lc3\<lparr>lc_cited_from := cited, lc_messages := [user_message (format_capsule capsule)],
           lc_seqs := [None], lc_floor := 1, lc_epoch := epoch\<rparr>"
  have close: "live_emit env li (Some turn) (CompactionCompletedEv
          \<lparr> ccc_level = L3Checkpoint, ccc_removed_messages = ?n, ccc_retained_messages = ?n - ?n + 1,
            ccc_context_epoch = epoch \<rparr>) ?lc4
        (apply_writes w3 (apply_writes w2 (apply_writes w1 d))) = (w4, Inr (e4, lc5))"
    using w4 by simp
  obtain t where t: "log_state env (apply_writes w4 (apply_writes w3 (apply_writes w2 (apply_writes w1 d)))) t"
    "rs_messages t = drop ?n (rs_messages s)" "rs_checkpoint t = Some capsule" "rs_context_epoch t = epoch"
    "rs_pre_barrier t = None" "same_window ?lc4 lc5"
    "\<not> st_summary_pending (lc_trace lc5)" "st_checkpoint (lc_trace lc5) = None"
    using checkpoint_written [OF s win plain w1 w2 epoch order.refl w3 _ close] by auto
  then have "shows_window lc' t"
    by (simp add: shows_window_def same_window_def lc' capsule_window_def)
  then show ?thesis
    using t(1) by (auto simp: mirrors_def ws)
qed

lemma checkpoint_turn_prefix_mirrors:
  assumes run: "checkpoint_turn_prefix env li turn capsule turn_start lc d = (ws, Inr (ev, lc'))"
    and plain: "plain_store env" and "mirrors env lc d"
  shows "mirrors env lc' (apply_writes ws d)"
proof -
  obtain s where s: "log_state env d s" and win: "shows_window lc s"
    using assms(3) by (auto simp: mirrors_def)
  let ?n = "length (rs_messages s)"
  have norm: "normalize_message_seqs lc = lc"
    using normalize_aligned [OF shows_window_aligned [OF win]] .
  define pe where "pe = min turn_start (length (lc_messages lc))"
  show ?thesis
  proof (cases "pe = 0 \<or> lc_floor lc > 0 \<and> pe \<le> 1")
    case True
    then have "ws = []" "lc' = lc"
      using run unfolding checkpoint_turn_prefix_def Let_def norm pe_def [symmetric] by auto
    then show ?thesis
      using assms(3) by simp
  next
    case False
    have floor_le: "lc_floor lc \<le> 1" "length (lc_messages lc) = lc_floor lc + ?n"
      using win by (auto simp: shows_window_def capsule_window_def split: option.splits)
    then have prot: "min (lc_floor lc) pe = lc_floor lc" and removed: "pe - lc_floor lc \<le> ?n"
      and retained: "length (lc_messages lc) - pe + 1 = ?n - (pe - lc_floor lc) + 1"
      using False by (auto simp: pe_def)
    obtain epoch w1 idp st1 w2 st2 w3 e lc3 cited w4 e4 lc5 where
      epoch: "next_live_epoch lc = Inr epoch"
      and w1: "trace_create_checkpoint env capsule (lc_trace lc) d = (w1, Inr (idp, st1))"
      and w2: "set_checkpoint_context_epoch epoch st1 (apply_writes w1 d) = (w2, Inr st2)"
      and w3: "live_emit env li (Some turn) (CheckpointCreatedEv (checkpoint_event idp capsule (pe - lc_floor lc) epoch))
          (lc\<lparr>lc_trace := st2\<rparr>) (apply_writes w2 (apply_writes w1 d)) = (w3, Inr (e, lc3))"
      and w4: "live_emit env li (Some turn) (CompactionCompletedEv
            \<lparr> ccc_level = L3Checkpoint, ccc_removed_messages = pe - lc_floor lc,
              ccc_retained_messages = length (lc_messages lc3) - pe + 1, ccc_context_epoch = epoch \<rparr>)
          (lc3\<lparr>lc_cited_from := cited\<rparr>)
          (apply_writes w3 (apply_writes w2 (apply_writes w1 d))) = (w4, Inr (e4, lc5))"
      and ws: "ws = w1 @ w2 @ w3 @ w4"
      and lc': "lc' = lc5\<lparr>lc_messages := splice 0 pe [user_message (format_capsule capsule)] (lc_messages lc5),
                       lc_seqs := splice 0 pe [None] (lc_seqs lc5), lc_floor := 1, lc_epoch := epoch\<rparr>"
      using run False unfolding checkpoint_turn_prefix_def Let_def norm pe_def [symmetric] prot
      by (auto elim!: io_bind_success simp: io_lift_success)
    have "lc_messages lc3 = lc_messages lc"
      using live_emit_effect [OF w3] by auto
    with w4 retained have close: "live_emit env li (Some turn) (CompactionCompletedEv
            \<lparr> ccc_level = L3Checkpoint, ccc_removed_messages = pe - lc_floor lc,
              ccc_retained_messages = ?n - (pe - lc_floor lc) + 1, ccc_context_epoch = epoch \<rparr>)
          (lc3\<lparr>lc_cited_from := cited\<rparr>)
          (apply_writes w3 (apply_writes w2 (apply_writes w1 d))) = (w4, Inr (e4, lc5))"
      by simp
    obtain t where t: "log_state env (apply_writes w4 (apply_writes w3 (apply_writes w2 (apply_writes w1 d)))) t"
      "rs_messages t = drop (pe - lc_floor lc) (rs_messages s)" "rs_checkpoint t = Some capsule"
      "rs_context_epoch t = epoch" "rs_pre_barrier t = None" "same_window lc lc3"
      "same_window (lc3\<lparr>lc_cited_from := cited\<rparr>) lc5"
      "\<not> st_summary_pending (lc_trace lc5)" "st_checkpoint (lc_trace lc5) = None"
      using checkpoint_written [OF s win plain w1 w2 epoch removed w3 _ close] by auto
    have split_at: "lc_floor lc \<le> pe"
      using False floor_le by (cases "lc_floor lc = 0") auto
    have "shows_window lc' t"
      using t win split_at by (simp add: shows_window_def same_window_def lc' capsule_window_def [of "Some capsule"] splice_def drop_map)
    then show ?thesis
      using t(1) by (auto simp: mirrors_def ws)
  qed
qed

section \<open>Resuming\<close>

text \<open>The records a session log file holds behind its header restore to what the log state says.\<close>

lemma restore_of_log_state:
  assumes "log_state env d s" "rs_pre_barrier s = None"
  shows "\<exists>r. restore_from_report h (HeaderRec h # du_records d) n = Inr r
    \<and> rd_messages r = rs_messages s \<and> rd_checkpoint r = rs_checkpoint s
    \<and> rd_checkpoint_seq r = rs_checkpoint_seq s \<and> rd_context_epoch r = rs_context_epoch s"
  using assms by (simp add: restore_from_report_def log_state_def close_legacy_barrier_def)

lemma resumed_window_shows:
  assumes "rd_messages r = rs_messages s" "rd_checkpoint r = rs_checkpoint s"
  shows "resumed_window r = (capsule_window (rs_checkpoint s) @ map sm_message (rs_messages s),
    replicate (length (capsule_window (rs_checkpoint s))) None @ map sm_seq (rs_messages s))"
  using assms by (simp add: resumed_window_def capsule_window_def split: option.split)

lemma resume_mirrors:
  assumes "mirrors env lc d"
  obtains r lc' where "restore_from_report h (HeaderRec h # du_records d) n = Inr r"
    "resumed_window r = (lc_messages lc, lc_seqs lc)" "rd_context_epoch r = lc_epoch lc"
    "resumed_live r = Inr lc'" "same_window lc lc'" "mirrors env lc' d"
proof -
  obtain s where s: "log_state env d s" and win: "shows_window lc s"
    using assms by (auto simp: mirrors_def)
  obtain r where r: "restore_from_report h (HeaderRec h # du_records d) n = Inr r"
    and rs: "rd_messages r = rs_messages s" "rd_checkpoint r = rs_checkpoint s"
      "rd_checkpoint_seq r = rs_checkpoint_seq s" "rd_context_epoch r = rs_context_epoch s"
    using restore_of_log_state [OF s, of h n] win by (auto simp: shows_window_def)
  have window: "resumed_window r = (lc_messages lc, lc_seqs lc)"
    using resumed_window_shows [OF rs(1,2)] win by (simp add: shows_window_def)
  have "\<exists>history. cited_history r = Inr history"
  proof (cases "rs_checkpoint_seq s")
    case (Some k)
    then have "k + 1 \<le> u64_max"
      using s by (simp add: log_state_def behind_def)
    then show ?thesis
      by (simp add: cited_history_def rs Some checked_add_def)
  qed (simp add: cited_history_def rs)
  then obtain history where "cited_history r = Inr history"
    by blast
  then obtain lc' where lc': "resumed_live r = Inr lc'" "lc_messages lc' = lc_messages lc"
    "lc_seqs lc' = lc_seqs lc" "lc_epoch lc' = lc_epoch lc" "lc_floor lc' = (if rd_checkpoint r = None then 0 else 1)"
    "lc_trace lc' = new_store_trace"
    using window win rs by (simp add: resumed_live_def Let_def shows_window_def)
  have "lc_floor lc' = lc_floor lc"
    using lc'(5) win rs(2) by (simp add: shows_window_def capsule_window_def split: option.split)
  then have "same_window lc lc'" "shows_window lc' s"
    using lc' win by (simp_all add: same_window_def shows_window_def new_store_trace_def)
  then show thesis
    using that [OF r window] s win rs(4) lc'(1) by (auto simp: mirrors_def shows_window_def)
qed

section \<open>Sessions\<close>

text \<open>
  The runs of a session: messages and events in any order, evictions, summaries of either level
  and both kinds of checkpoint, each with its outcome on the window and on the files, and a restart
  at any point between two operations. The compaction commands of the turn loop all end in
  \<open>compact_range\<close>.
\<close>

inductive session_run :: "store_env \<Rightarrow> live_context \<Rightarrow> durable \<Rightarrow> bool" for env where
  begins: "du_trace d = [] \<Longrightarrow> du_records d = [] \<Longrightarrow> session_run env new_live d"
| message: "session_run env lc d \<Longrightarrow> event \<noteq> ContextSummaryEv \<Longrightarrow>
    record_message env li turn event m lc d = (ws, Inr ((), lc')) \<Longrightarrow> session_run env lc' (apply_writes ws d)"
| event: "session_run env lc d \<Longrightarrow> silent_event event \<Longrightarrow>
    live_emit env li turn_option event lc d = (ws, Inr (e, lc')) \<Longrightarrow> session_run env lc' (apply_writes ws d)"
| takeover: "session_run env lc d \<Longrightarrow>
    live_emit env li turn_option (ModelEpochStartedEv r) lc d = (ws, Inr (e, lc')) \<Longrightarrow>
    session_run env lc' (apply_writes ws d)"
| evicts: "session_run env lc d \<Longrightarrow>
    evict_oldest env li est target turn turn_start prompt_only lc d = (ws, Inr (n, lc')) \<Longrightarrow>
    session_run env lc' (apply_writes ws d)"
| summarizes: "session_run env lc d \<Longrightarrow> level \<in> {L1Ordinary, L2Phase} \<Longrightarrow>
    replaced_range lc (lc_floor lc) (min prefix_end (length (lc_messages lc))) = (a, b) \<Longrightarrow> 0 < a \<Longrightarrow> a \<le> b \<Longrightarrow>
    compact_range env li turn prefix_end summary level reason lc d = (ws, Inr (n, lc')) \<Longrightarrow>
    session_run env lc' (apply_writes ws d)"
| checkpoints: "session_run env lc d \<Longrightarrow>
    live_checkpoint env li turn capsule lc d = (ws, Inr (c, lc')) \<Longrightarrow> session_run env lc' (apply_writes ws d)"
| cuts: "session_run env lc d \<Longrightarrow>
    checkpoint_turn_prefix env li turn capsule turn_start lc d = (ws, Inr (c, lc')) \<Longrightarrow>
    session_run env lc' (apply_writes ws d)"
| restarts: "session_run env lc d \<Longrightarrow>
    restore_from_report h (HeaderRec h # du_records d) 0 = Inr r \<Longrightarrow> resumed_live r = Inr lc' \<Longrightarrow>
    session_run env lc' d"

lemma begin_mirrors:
  assumes "du_trace d = []" "du_records d = []"
  shows "mirrors env new_live d"
proof -
  have "log_state env d restore_start"
    using assms by (simp add: log_state_def restore_start_def behind_def position_def journal_last_seq_def
        whole_window_def epochs_ordered_def unused_from_def)
  moreover have "shows_window new_live restore_start"
    by (simp add: shows_window_def restore_start_def new_live_def capsule_window_def new_store_trace_def)
  ultimately show ?thesis
    by (auto simp: mirrors_def)
qed

lemma session_run_mirrors:
  assumes "session_run env lc d" "plain_store env"
  shows "mirrors env lc d"
  using assms
proof (induction rule: session_run.induct)
  case (begins d)
  then show ?case by (simp add: begin_mirrors)
next
  case message
  then show ?case using record_message_mirrors by blast
next
  case event
  then show ?case using live_emit_silent_mirrors by blast
next
  case takeover
  then show ?case using live_emit_epoch_mirrors by blast
next
  case (evicts lc d li est target turn turn_start prompt_only ws n lc')
  then show ?case using evict_oldest_mirrors by (cases n) blast
next
  case (summarizes lc d level prefix_end a b li turn summary reason ws n lc')
  then show ?case
    using compact_range_mirrors [OF summarizes.hyps(6)] by blast
next
  case checkpoints
  then show ?case using live_checkpoint_mirrors by blast
next
  case cuts
  then show ?case using checkpoint_turn_prefix_mirrors by blast
next
  case (restarts lc d h r lc')
  have "mirrors env lc d"
    using restarts by simp
  then obtain r' lc2 where "restore_from_report h (HeaderRec h # du_records d) 0 = Inr r'"
    "resumed_live r' = Inr lc2" "mirrors env lc2 d"
    by (rule resume_mirrors)
  then show ?case
    using restarts.hyps by simp
qed

section \<open>A summary that breaks the session\<close>

lemma unordered_summary_refused:
  assumes run: "compact_range env li turn prefix_end summary level reason lc d = (ws, Inr (removed, lc'))"
    and plain: "plain_store env" and "mirrors env lc d" and level: "level \<in> {L1Ordinary, L2Phase}"
    and range: "replaced_range lc (lc_floor lc) (min prefix_end (length (lc_messages lc))) = (a, b)" "b < a"
    and some: "lc_floor lc < min prefix_end (length (lc_messages lc))"
  shows "restore_from_report h (HeaderRec h # du_records (apply_writes ws d)) n
    = Inl (InvalidReplacementBounds (lc_epoch lc + 1))"
proof -
  obtain s where s: "log_state env d s" and win: "shows_window lc s"
    using assms(3) by (auto simp: mirrors_def)
  define last_one where "last_one = min prefix_end (length (lc_messages lc))"
  have gt: "\<not> last_one \<le> lc_floor lc"
    using some by (auto simp: last_one_def)
  let ?c = "summary_record lc level last_one"
  obtain k q d4 e k5 where log: "log_state env d4 (add_message q k s)"
    and k5: "appended env e k5 [CompactionRec ?c] d4 (apply_writes ws d)"
    by (rule compact_range_written [OF run plain s win level last_one_def gt])
  note facts = summary_record_facts [OF win gt _ level]
  have "\<not> valid_bounds ?c"
    using facts(7) range by (simp add: last_one_def)
  moreover have "sc_context_epoch ?c = lc_epoch lc + 1"
    by (simp add: summary_record_def compaction_record_of_def)
  ultimately have "restore_record (CompactionRec ?c) (add_message q k s)
      = Inl (InvalidReplacementBounds (lc_epoch lc + 1))"
    using facts(1) by (simp add: restore_record_def restore_compaction_def last_one_def)
  moreover have "fold_res restore_record (du_records d4) restore_start = Inr (add_message q k s)"
    using log by (simp add: log_state_def)
  ultimately show ?thesis
    using appended_facts(5) [OF k5 plain] by (simp add: restore_from_report_def fold_res_append)
qed

lemma range_over_summary:
  assumes seqs: "lc_seqs lc = replicate (lc_floor lc) None @ Some k # map sm_seq tail_messages"
    and older: "\<And>m. m \<in> set tail_messages \<Longrightarrow> \<exists>n. sm_seq m = Some n \<and> n < k"
    and limits: "lc_floor lc + 2 \<le> last_one" "last_one \<le> lc_floor lc + 1 + length tail_messages"
  obtains b where "replaced_range lc (lc_floor lc) last_one = (k, b)" "b < k"
proof -
  define old where "old = take (last_one - lc_floor lc - 1) tail_messages"
  have "take (last_one - lc_floor lc) (drop (lc_floor lc) (lc_seqs lc)) = Some k # map sm_seq old"
    using limits(1) by (cases "last_one - lc_floor lc") (simp_all add: seqs old_def take_map)
  moreover have "old \<noteq> []"
    using limits by (auto simp: old_def)
  then obtain xs m where old: "old = xs @ [m]"
    by (cases old rule: rev_cases) simp_all
  moreover have "m \<in> set tail_messages"
    using old unfolding old_def by (metis in_set_conv_decomp in_set_takeD)
  then obtain n where "sm_seq m = Some n" "n < k"
    using older by blast
  ultimately have "replaced_range lc (lc_floor lc) last_one = (k, n)"
    by (simp add: replaced_range_def first_some_def)
  then show thesis
    using that \<open>n < k\<close> by blast
qed

end
