(* ===== verification/Store_Progress.thy ===== *)
theory Store_Progress
  imports Context_Refinement
begin

text \<open>
  Progress: in a store that refuses no record and has room left, every emission and every rewrite
  of the window succeeds. Total correctness is stated by \<open>succeeds\<close>, with a rule per construct of
  the store monad.
\<close>

section \<open>Total correctness of store operations\<close>

definition succeeds :: "'a io \<Rightarrow> durable \<Rightarrow> ('a \<Rightarrow> durable \<Rightarrow> bool) \<Rightarrow> bool" where
  "succeeds m d Q \<longleftrightarrow> (\<exists>ws a. m d = (ws, Inr a) \<and> Q a (apply_writes ws d))"

lemma succeedsI: "m d = (ws, Inr a) \<Longrightarrow> Q a (apply_writes ws d) \<Longrightarrow> succeeds m d Q"
  by (auto simp: succeeds_def)

lemma succeeds_weaken: "succeeds m d Q \<Longrightarrow> (\<And>a d'. Q a d' \<Longrightarrow> P a d') \<Longrightarrow> succeeds m d P"
  by (auto simp: succeeds_def)

lemma succeeds_bind:
  assumes "succeeds m d Q" "\<And>a d'. Q a d' \<Longrightarrow> succeeds (f a) d' P"
  shows "succeeds (io_bind m f) d P"
proof -
  obtain ws a where m: "m d = (ws, Inr a)" "Q a (apply_writes ws d)"
    using assms(1) by (auto simp: succeeds_def)
  obtain us b where "f a (apply_writes ws d) = (us, Inr b)" "P b (apply_writes us (apply_writes ws d))"
    using assms(2) [OF m(2)] by (auto simp: succeeds_def)
  then have "io_bind m f d = (ws @ us, Inr b)" "P b (apply_writes (ws @ us) d)"
    using m(1) by (simp_all add: io_bind_def)
  then show ?thesis
    by (rule succeedsI)
qed

lemma succeeds_simple [simp]:
  "succeeds (io_return a) d Q \<longleftrightarrow> Q a d"
  "succeeds io_get d Q' \<longleftrightarrow> Q' d d"
  "succeeds (io_write w) d Q'' \<longleftrightarrow> Q'' () (apply_write w d)"
  by (auto simp: succeeds_def io_return_def io_get_def io_write_def apply_writes_def)

lemma succeeds_lift: "r = Inr a \<Longrightarrow> Q a d \<Longrightarrow> succeeds (io_lift f r) d Q"
  by (simp add: succeeds_def)

section \<open>A store that refuses nothing\<close>

definition open_store :: "store_env \<Rightarrow> bool" where
  "open_store env \<longleftrightarrow>
     plain_store env \<and> (\<forall>e. sv_line env e \<noteq> None) \<and> (\<forall>r. sv_record_fits env r) \<and> (\<forall>e. sv_wal_fits env e)
     \<and> (\<forall>c. sv_store_capsule env c \<noteq> None)
     \<and> sv_compression env = NoCompression"

definition minted_before :: "store_env \<Rightarrow> nat \<Rightarrow> event_id set" where
  "minted_before env n = (\<lambda>k. fst (sv_mint env k)) ` {k. k < n}"

text \<open>The intent log replays to some table, with room for \<open>k\<close> more entries.\<close>

definition wal_at :: "durable \<Rightarrow> (event_id \<rightharpoonup> pending_projection) \<Rightarrow> event_id set \<Rightarrow> nat \<Rightarrow> bool" where
  "wal_at d p ids k \<longleftrightarrow>
     (\<exists>t seen. fold_res wal_step (du_wal d) ([], []) = Inr (t, seen) \<and> map_of t = p
        \<and> set seen \<subseteq> ids \<and> length (du_wal d) + k \<le> max_wal_entries)"

text \<open>Room for \<open>n\<close> more events: each takes a position, at most one record and four intent entries.\<close>

definition room :: "store_env \<Rightarrow> nat \<Rightarrow> durable \<Rightarrow> bool" where
  "room env n d \<longleftrightarrow>
     (\<exists>p. wal_at d p (minted_before env (length (du_trace d))) (4 * n))
     \<and> position (du_trace d) + n \<le> u64_max \<and> length (du_records d) + n + 1 \<le> usize_max"

lemma wal_at_table:
  assumes "fold_res wal_step w ([], []) = Inr (t, seen)"
  shows "bt_ok t" "map_of t tx = Some i \<Longrightarrow> pp_tx_id i = tx \<and> tx \<in> set seen"
    "map_of t tx = None \<longleftrightarrow> tx \<notin> fst ` set t"
  using wal_fold_ok [OF assms] by (auto simp: wal_ok_def dest!: map_of_SomeD simp: map_of_eq_None_iff)

lemma wal_append_succeeds:
  assumes "open_store env" "wal_at d p ids (Suc k)"
    and step: "\<And>t seen. map_of t = p \<Longrightarrow> bt_ok t \<Longrightarrow> set seen \<subseteq> ids \<Longrightarrow> fst ` set t \<subseteq> set seen \<Longrightarrow>
       \<exists>t' seen'. wal_step (wal_redact env e) (t, seen) = Inr (t', seen') \<and> map_of t' = p' \<and> set seen' \<subseteq> ids'"
  shows "succeeds (wal_append env e) d (\<lambda>_ d'. wal_at d' p' ids' k \<and> same_logs d d')"
proof -
  obtain t seen where t: "fold_res wal_step (du_wal d) ([], []) = Inr (t, seen)" "map_of t = p" "set seen \<subseteq> ids"
    and len: "length (du_wal d) + Suc k \<le> max_wal_entries"
    using assms(2) by (auto simp: wal_at_def)
  have ok: "bt_ok t" "fst ` set t \<subseteq> set seen"
    using wal_fold_ok [OF t(1)] by (auto simp: wal_ok_def)
  obtain t' seen' where t': "wal_step (wal_redact env e) (t, seen) = Inr (t', seen')" "map_of t' = p'" "set seen' \<subseteq> ids'"
    using step [OF t(2) ok(1) t(3) ok(2)] by blast
  let ?d = "apply_write (WalAppend (wal_redact env e)) d"
  have "fold_res wal_step (du_wal ?d) ([], []) = Inr (t', seen')"
    using t(1) t'(1) by (simp add: fold_res_append)
  then have "wal_at ?d p' ids' k" "same_logs d ?d"
    using t'(2,3) len by (auto simp: wal_at_def same_logs_def)
  then show ?thesis
    using assms(1) by (simp add: wal_append_def open_store_def)
qed

lemma wal_prepare_succeeds:
  assumes "open_store env" "wal_at d p ids (Suc k)" "em_event_id (ee_meta e) \<notin> ids"
  shows "succeeds (wal_prepare_with_recovery env e r) d (\<lambda>tx d'. tx = em_event_id (ee_meta e)
    \<and> (\<exists>i. pp_record i = None \<and> wal_at d' (p(tx \<mapsto> i)) (insert tx ids) k) \<and> same_logs d d')"
proof -
  let ?tx = "em_event_id (ee_meta e)"
  let ?e = "PrepareEntry ?tx ((wal_prepare_of e)\<lparr>wp_recovery := r\<rparr>)"
  define i where "i = \<lparr> pp_tx_id = ?tx, pp_envelope = (wal_prepare_of e)
    \<lparr>wp_recovery := map_option (wal_redact_recovery env) r\<rparr>, pp_record = None \<rparr>"
  have "succeeds (wal_append env ?e) d (\<lambda>_ d'. wal_at d' (p(?tx \<mapsto> i)) (insert ?tx ids) k \<and> same_logs d d')"
    by (rule wal_append_succeeds [OF assms(1,2)])
      (use assms(3) in \<open>auto simp: i_def wal_prepare_of_def map_of_bt_insert map_of_eq_None_iff\<close>)
  then show ?thesis
    unfolding wal_prepare_with_recovery_def Let_def
    by (rule succeeds_bind) (auto simp: i_def intro!: exI [of _ i])
qed

lemma wal_projection_succeeds:
  assumes "open_store env" "wal_at d p ids (Suc k)" "p tx = Some i" "pp_record i = None" "\<not> is_header_record r"
  shows "succeeds (wal_set_projection env tx r) d
    (\<lambda>_ d'. wal_at d' (p(tx \<mapsto> i\<lparr>pp_record := Some r\<rparr>)) ids k \<and> same_logs d d')"
  unfolding wal_set_projection_def
  using assms(1,3-5) by (intro wal_append_succeeds [OF assms(1,2)])
    (auto simp: open_store_def plain_store_def map_of_bt_insert)

lemma wal_pending_succeeds:
  assumes "wal_at d p ids k"
  shows "succeeds wal_pending d (\<lambda>pending d'. d' = d
    \<and> (\<exists>t seen. fold_res wal_step (du_wal d) ([], []) = Inr (t, seen) \<and> map_of t = p \<and> set seen \<subseteq> ids
        \<and> pending = map snd t))"
  using assms unfolding wal_at_def succeeds_def wal_pending_def
  by (auto simp: read_pending_def simp del: bind_res_Inr)

lemma wal_commit_succeeds:
  assumes env: "open_store env" and at_: "wal_at d p ids (Suc k)" and "p tx \<noteq> None"
  shows "succeeds (wal_commit env tx) d (\<lambda>_ d'. wal_at d' (p(tx := None)) ids k \<and> same_logs d d')"
  unfolding wal_commit_def
proof (rule succeeds_bind)
  show "succeeds (wal_append env (CommitEntry tx)) d (\<lambda>_ d'. wal_at d' (p(tx := None)) ids k \<and> same_logs d d')"
    using assms(3) by (intro wal_append_succeeds [OF env at_]) (auto simp: map_of_bt_remove)
next
  fix d' assume d': "wal_at d' (p(tx := None)) ids k \<and> same_logs d d'"
  show "succeeds (io_bind wal_pending (\<lambda>pending. if pending = [] then io_write WalClear else io_return ())) d'
      (\<lambda>_ d'. wal_at d' (p(tx := None)) ids k \<and> same_logs d d')"
  proof (rule succeeds_bind [OF wal_pending_succeeds])
    show "wal_at d' (p(tx := None)) ids k"
      using d' by simp
  next
    fix pending d'' assume p: "d'' = d' \<and> (\<exists>t seen. fold_res wal_step (du_wal d') ([], []) = Inr (t, seen)
      \<and> map_of t = p(tx := None) \<and> set seen \<subseteq> ids \<and> pending = map snd t)"
    then have "pending = [] \<Longrightarrow> p(tx := None) = Map.empty"
      by auto
    then have "pending = [] \<Longrightarrow> wal_at (apply_write WalClear d') (p(tx := None)) ids k"
      using d' by (auto simp: wal_at_def)
    then show "succeeds (if pending = [] then io_write WalClear else io_return ()) d''
        (\<lambda>_ d'. wal_at d' (p(tx := None)) ids k \<and> same_logs d d')"
      using p d' by (auto simp: same_logs_def)
  qed
qed

lemma journal_append_succeeds:
  assumes "open_store env" "position (du_trace d) + 1 \<le> u64_max"
  shows "succeeds (journal_append env e) d (\<lambda>s d'. appended env e s [] d d' \<and> du_wal d' = du_wal d)"
proof -
  have "\<exists>s. checked_next_seq (du_trace d) = Inr s"
    using assms(2) by (auto simp: checked_next_seq_def position_def checked_add_def split: option.split)
  then obtain s where s: "checked_next_seq (du_trace d) = Inr s"
    by blast
  obtain l where l: "sv_line env (plain_entry (with_seq s e)) = Some l"
    using assms(1) unfolding open_store_def by blast
  show ?thesis
    using s l by (intro succeedsI [of _ _ "[TraceAppend l]" s])
      (simp_all add: journal_append_success appended_def)
qed

lemma log_append_succeeds:
  assumes "open_store env" "\<not> is_header_record r" "length (du_records d) + 2 \<le> usize_max"
  shows "succeeds (log_append env r) d (\<lambda>_ d'. du_records d' = du_records d @ [r] \<and> du_trace d' = du_trace d
    \<and> du_wal d' = du_wal d)"
  using assms by (intro succeedsI [of _ _ "[LogAppend r]" "()"])
    (simp_all add: log_append_success open_store_def plain_store_def)

lemma minted_before_Suc: "minted_before env (Suc n) = insert (fst (sv_mint env n)) (minted_before env n)"
  by (auto simp: minted_before_def less_Suc_eq)

lemma fresh_mint: "open_store env \<Longrightarrow> fst (sv_mint env n) \<notin> minted_before env n"
  by (auto simp: open_store_def plain_store_def minted_before_def dest: injD)

lemma wal_at_mono: "wal_at d p ids k \<Longrightarrow> ids \<subseteq> ids' \<Longrightarrow> k' \<le> k \<Longrightarrow> wal_at d p ids' k'"
  unfolding wal_at_def by (elim exE conjE) (intro exI conjI; (assumption | erule (1) order_trans | simp))

lemma put_blob_succeeds:
  assumes "open_store env"
  shows "succeeds (put_blob env bytes ct) d (\<lambda>_ d'. same_logs d d' \<and> du_wal d' = du_wal d)"
proof -
  let ?b = "reference_for (sv_codec env) NoCompression bytes ct"
  have raw: "br_compression ?b = NoCompression"
    by (simp add: reference_for_def Let_def blob_for_bytes_def)
  have "\<exists>fs. blob_put (sv_codec env) (sv_compression env) bytes ct (du_blobs d) = Inr (fs, ?b)"
    using assms by (simp add: open_store_def blob_put_def Let_def raw blob_encode_def blob_decode_def reference_for_claims)
  then show ?thesis
    by (auto simp: succeeds_def put_blob_def io_bind_def same_logs_def)
qed

section \<open>Emissions\<close>

text \<open>An event carries the next identifier; the emission uses one unit of room.\<close>

definition next_event :: "store_env \<Rightarrow> durable \<Rightarrow> event_envelope \<Rightarrow> bool" where
  "next_event env d e \<longleftrightarrow> em_event_id (ee_meta e) = fst (sv_mint env (length (du_trace d))) \<and> em_seq (ee_meta e) = None"

lemma appended_room:
  assumes "plain_store env" "appended env e s rs d d'" "length rs \<le> 1" "position (du_trace d) + Suc n \<le> u64_max"
    "length (du_records d) + Suc n + 1 \<le> usize_max" "wal_at d' p (minted_before env (length (du_trace d'))) (4 * n)"
  shows "room env n d'"
  using appended_facts [OF assms(2,1)] assms(3-6) by (auto simp: room_def)

lemma room_wal:
  assumes "room env (Suc n) d"
  obtains p where "wal_at d p (minted_before env (length (du_trace d))) (Suc (Suc (Suc (Suc (4 * n)))))"
    "position (du_trace d) + Suc n \<le> u64_max" "length (du_records d) + Suc n + 1 \<le> usize_max"
proof -
  obtain p where "wal_at d p (minted_before env (length (du_trace d))) (4 * Suc n)"
    "position (du_trace d) + Suc n \<le> u64_max" "length (du_records d) + Suc n + 1 \<le> usize_max"
    using assms by (auto simp: room_def)
  moreover have "4 * Suc n = Suc (Suc (Suc (Suc (4 * n))))"
    by simp
  ultimately show thesis
    using that by metis
qed

lemma validate_succeeds:
  "open_store env \<Longrightarrow> Q () d \<Longrightarrow> succeeds (validate_projection_size env tx r) d Q"
  "open_store env \<Longrightarrow> Q () d \<Longrightarrow> succeeds (validate_record_size env r) d Q"
  by (simp_all add: validate_projection_size_def validate_record_size_def open_store_def)

lemma session_emit_succeeds:
  assumes "open_store env" "room env (Suc n) d"
  shows "succeeds (session_emit env e) d (\<lambda>e' d'. e' = with_seq (position (du_trace d) + 1) e \<and> room env n d')"
proof -
  obtain p where p: "wal_at d p (minted_before env (length (du_trace d))) (Suc (Suc (Suc (Suc (4 * n)))))"
    and bounds: "position (du_trace d) + Suc n \<le> u64_max" "length (du_records d) + Suc n + 1 \<le> usize_max"
    by (rule room_wal [OF assms(2)])
  have plain: "plain_store env"
    using assms(1) by (simp add: open_store_def)
  show ?thesis
    unfolding session_emit_def
  proof (rule succeeds_bind [OF journal_append_succeeds [OF assms(1)]])
    fix s d' assume a: "appended env e s [] d d' \<and> du_wal d' = du_wal d"
    then have "wal_at d' p (minted_before env (length (du_trace d'))) (4 * n)"
      using wal_at_mono [OF p, of "minted_before env (length (du_trace d'))" "4 * n"]
        appended_facts(4) [of env e s "[]" d d'] plain
      by (simp add: wal_at_def minted_before_Suc subset_insertI)
    then show "succeeds (io_return (with_seq s e)) d'
        (\<lambda>e' d'. e' = with_seq (position (du_trace d) + 1) e \<and> room env n d')"
      using appended_room [OF plain, of e s "[]" d d'] appended_facts(1) [of env e s "[]" d d'] a bounds plain by simp
  qed (use bounds in simp)
qed


text \<open>What may follow the journal line of a transaction.\<close>

lemma commit_tail:
  assumes "open_store env" "wal_at d p ids (Suc k)" "p tx \<noteq> None"
  shows "succeeds (if hold then io_return () else wal_commit env tx) d
    (\<lambda>_ d'. same_logs d d' \<and> (\<exists>p'. wal_at d' p' ids k))"
proof (cases hold)
  case True
  then show ?thesis
    using wal_at_mono [OF assms(2), of ids k] by (auto simp: same_logs_def)
next
  case False
  have "succeeds (wal_commit env tx) d (\<lambda>_ d'. same_logs d d' \<and> (\<exists>p'. wal_at d' p' ids k))"
    by (rule succeeds_weaken [OF wal_commit_succeeds [OF assms]]) auto
  then show ?thesis
    using False by simp
qed

lemma log_tail:
  fixes d :: durable
  assumes env: "open_store env" and w: "wal_at d p ids (Suc k)" "p tx \<noteq> None"
    and r: "\<not> is_header_record r" "length (du_records d) + 2 \<le> usize_max"
  shows "succeeds (io_bind (log_append env r) (\<lambda>_. wal_commit env tx)) d
    (\<lambda>_ d'. du_trace d' = du_trace d \<and> du_records d' = du_records d @ [r] \<and> (\<exists>p'. wal_at d' p' ids k))"
proof (rule succeeds_bind [OF log_append_succeeds [OF env r]])
  fix u and d1 :: durable
  assume d1: "du_records d1 = du_records d @ [r] \<and> du_trace d1 = du_trace d \<and> du_wal d1 = du_wal d"
  have "wal_at d1 p ids (Suc k)"
    using w(1) d1 by (simp add: wal_at_def)
  from wal_commit_succeeds [OF env this w(2)]
  show "succeeds (wal_commit env tx) d1
      (\<lambda>_ d'. du_trace d' = du_trace d \<and> du_records d' = du_records d @ [r] \<and> (\<exists>p'. wal_at d' p' ids k))"
    by (rule succeeds_weaken) (use d1 in \<open>auto simp: same_logs_def\<close>)
qed

lemma project_tail:
  fixes d :: durable
  assumes env: "open_store env" and w: "wal_at d p ids (Suc (Suc k))" "p tx = Some i" "pp_record i = None"
    and r: "\<not> is_header_record r" "length (du_records d) + 2 \<le> usize_max"
  shows "succeeds (io_bind (wal_set_projection env tx r) (\<lambda>_. io_bind (log_append env r) (\<lambda>_. wal_commit env tx))) d
    (\<lambda>_ d'. du_trace d' = du_trace d \<and> du_records d' = du_records d @ [r] \<and> (\<exists>p'. wal_at d' p' ids k))"
proof (rule succeeds_bind [OF wal_projection_succeeds [OF env w r(1)]])
  fix u and d1 :: durable
  assume d1: "wal_at d1 (p(tx \<mapsto> i\<lparr>pp_record := Some r\<rparr>)) ids (Suc k) \<and> same_logs d d1"
  have "succeeds (io_bind (log_append env r) (\<lambda>_. wal_commit env tx)) d1
      (\<lambda>_ d'. du_trace d' = du_trace d1 \<and> du_records d' = du_records d1 @ [r] \<and> (\<exists>p'. wal_at d' p' ids k))"
    using d1 r by (intro log_tail [OF env]) (auto simp: same_logs_def)
  then show "succeeds (io_bind (log_append env r) (\<lambda>_. wal_commit env tx)) d1
      (\<lambda>_ d'. du_trace d' = du_trace d \<and> du_records d' = du_records d @ [r] \<and> (\<exists>p'. wal_at d' p' ids k))"
    using d1 by (simp add: same_logs_def)
qed

text \<open>The shape every transaction has: an intent, the journal line, the rest, the event with its position.\<close>

lemma transaction_succeeds:
  assumes env: "open_store env" and room: "room env (Suc n) d" and e: "next_event env d e"
    and prepare: "\<And>p. wal_at d p (minted_before env (length (du_trace d))) (Suc (Suc (Suc (Suc (4 * n))))) \<Longrightarrow>
      succeeds prepare d (\<lambda>tx d'. tx = em_event_id (ee_meta e) \<and> same_logs d d'
        \<and> (\<exists>i. pp_record i = None \<and> wal_at d' (p(tx \<mapsto> i)) (minted_before env (Suc (length (du_trace d))))
                (Suc (Suc (Suc (4 * n))))))"
    and rest: "\<And>p i s d2. appended env e s [] d d2 \<Longrightarrow> pp_record i = None \<Longrightarrow>
      wal_at d2 (p(em_event_id (ee_meta e) \<mapsto> i)) (minted_before env (Suc (length (du_trace d)))) (Suc (Suc (Suc (4 * n)))) \<Longrightarrow>
      length (du_records d2) + 2 \<le> usize_max \<Longrightarrow>
      succeeds (rest (em_event_id (ee_meta e)) s) d2 (\<lambda>_ d'. du_trace d' = du_trace d2
        \<and> du_records d' = du_records d2 @ rs s
        \<and> (\<exists>p'. wal_at d' p' (minted_before env (Suc (length (du_trace d)))) (Suc (4 * n))))"
    and one: "\<And>s. length (rs s) \<le> 1"
  shows "succeeds (io_bind prepare (\<lambda>tx. io_bind (journal_append env e) (\<lambda>s. io_bind (rest tx s)
      (\<lambda>_. io_return (with_seq s e))))) d
    (\<lambda>e' d'. e' = with_seq (position (du_trace d) + 1) e \<and> room env n d'
       \<and> (\<exists>p. wal_at d' p (minted_before env (length (du_trace d'))) (Suc (4 * n))))"
proof -
  obtain p where p: "wal_at d p (minted_before env (length (du_trace d))) (Suc (Suc (Suc (Suc (4 * n)))))"
    and bounds: "position (du_trace d) + Suc n \<le> u64_max" "length (du_records d) + Suc n + 1 \<le> usize_max"
    by (rule room_wal [OF room])
  have plain: "plain_store env"
    using env by (simp add: open_store_def)
  let ?ids = "minted_before env (Suc (length (du_trace d)))" and ?tx = "em_event_id (ee_meta e)"
  show ?thesis
  proof (rule succeeds_bind [OF prepare [OF p]])
    fix tx and d1 :: durable
    assume "tx = ?tx \<and> same_logs d d1 \<and> (\<exists>i. pp_record i = None \<and> wal_at d1 (p(tx \<mapsto> i)) ?ids (Suc (Suc (Suc (4 * n)))))"
    then obtain i where [simp]: "tx = ?tx" and d1: "same_logs d d1" and i: "pp_record i = None"
      "wal_at d1 (p(?tx \<mapsto> i)) ?ids (Suc (Suc (Suc (4 * n))))"
      by auto
    have "position (du_trace d1) + 1 \<le> u64_max"
      using d1 bounds by (simp add: same_logs_def)
    then show "succeeds (io_bind (journal_append env e) (\<lambda>s. io_bind (rest tx s) (\<lambda>_. io_return (with_seq s e)))) d1
        (\<lambda>e' d'. e' = with_seq (position (du_trace d) + 1) e \<and> room env n d'
           \<and> (\<exists>p. wal_at d' p (minted_before env (length (du_trace d'))) (Suc (4 * n))))"
    proof (rule succeeds_bind [OF journal_append_succeeds [OF env]])
      fix s and d2 :: durable
      assume a: "appended env e s [] d1 d2 \<and> du_wal d2 = du_wal d1"
      have app: "appended env e s [] d d2"
        using a d1 by (auto simp: appended_def same_logs_def)
      have w: "wal_at d2 (p(?tx \<mapsto> i)) ?ids (Suc (Suc (Suc (4 * n))))"
        using i(2) a by (simp add: wal_at_def)
      have size: "length (du_records d2) + 2 \<le> usize_max"
        using appended_facts(5) [OF app plain] bounds by simp
      show "succeeds (io_bind (rest tx s) (\<lambda>_. io_return (with_seq s e))) d2
        (\<lambda>e' d'. e' = with_seq (position (du_trace d) + 1) e \<and> room env n d'
           \<and> (\<exists>p. wal_at d' p (minted_before env (length (du_trace d'))) (Suc (4 * n))))"
        unfolding \<open>tx = ?tx\<close>
      proof (rule succeeds_bind [OF rest [OF app i(1) w size]])
        fix u and d3 :: durable
        assume d3: "du_trace d3 = du_trace d2 \<and> du_records d3 = du_records d2 @ rs s \<and> (\<exists>p'. wal_at d3 p' ?ids (Suc (4 * n)))"
        then obtain p' where w3: "wal_at d3 p' ?ids (Suc (4 * n))"
          by blast
        have len: "length (du_trace d3) = Suc (length (du_trace d))"
          and at_: "s = position (du_trace d) + 1" "position (du_trace d3) = s" "du_records d3 = du_records d @ rs s"
          using appended_facts [OF app plain] d3 by simp_all
        have "room env n d3"
          unfolding room_def using wal_at_mono [OF w3, of ?ids "4 * n"] len at_ bounds one [of s] by auto
        then show "succeeds (io_return (with_seq s e)) d3
          (\<lambda>e' d'. e' = with_seq (position (du_trace d) + 1) e \<and> room env n d'
             \<and> (\<exists>p. wal_at d' p (minted_before env (length (du_trace d'))) (Suc (4 * n))))"
          using w3 len at_(1) by auto
      qed
    qed
  qed
qed


lemma prepare_in_room:
  assumes "open_store env" "next_event env d e"
    and "wal_at d p (minted_before env (length (du_trace d))) (Suc k)"
  shows "succeeds (wal_prepare_with_recovery env e r) d (\<lambda>tx d'. tx = em_event_id (ee_meta e) \<and> same_logs d d'
    \<and> (\<exists>i. pp_record i = None \<and> wal_at d' (p(tx \<mapsto> i)) (minted_before env (Suc (length (du_trace d)))) k))"
proof (rule succeeds_weaken [OF wal_prepare_succeeds [OF assms(1,3)]])
  show "em_event_id (ee_meta e) \<notin> minted_before env (length (du_trace d))"
    using fresh_mint [OF assms(1)] assms(2) by (simp add: next_event_def)
next
  fix tx and d' :: durable
  assume "tx = em_event_id (ee_meta e) \<and> (\<exists>i. pp_record i = None
    \<and> wal_at d' (p(tx \<mapsto> i)) (insert tx (minted_before env (length (du_trace d)))) k) \<and> same_logs d d'"
  then show "tx = em_event_id (ee_meta e) \<and> same_logs d d'
    \<and> (\<exists>i. pp_record i = None \<and> wal_at d' (p(tx \<mapsto> i)) (minted_before env (Suc (length (du_trace d)))) k)"
    using assms(2) by (auto simp: next_event_def minted_before_Suc)
qed

lemma emit_transaction_succeeds:
  assumes env: "open_store env" and room: "room env (Suc n) d" and e: "next_event env d e"
    and projection: "\<And>r. projection = Some r \<Longrightarrow> \<not> is_header_record r"
  shows "succeeds (emit_transaction env e projection hold) d
    (\<lambda>e' d'. e' = with_seq (position (du_trace d) + 1) e \<and> room env n d'
       \<and> (\<exists>p. wal_at d' p (minted_before env (length (du_trace d'))) (Suc (4 * n))))"
  unfolding emit_transaction_def
proof (rule succeeds_bind [where Q = "\<lambda>_ d'. d' = d"])
  show "succeeds (case projection of None \<Rightarrow> io_return ()
      | Some r \<Rightarrow> io_bind (validate_projection_size env (em_event_id (ee_meta e)) r)
          (\<lambda>_. validate_record_size env r)) d (\<lambda>_ d'. d' = d)"
    by (auto split: option.split intro!: succeeds_bind [where Q = "\<lambda>_ d'. d' = d"] validate_succeeds env)
next
  let ?rest = "\<lambda>tx s. case projection of
      Some r \<Rightarrow> (let r = stamp_projection_seq r s
         in io_bind (wal_set_projection env tx r) (\<lambda>_. io_bind (log_append env r) (\<lambda>_. wal_commit env tx)))
    | None \<Rightarrow> if hold then io_return () else wal_commit env tx"
  fix u and d0 :: durable
  assume "d0 = d"
  moreover have "succeeds (io_bind (wal_prepare_with_recovery env e None) (\<lambda>tx. io_bind (journal_append env e)
      (\<lambda>s. io_bind (?rest tx s) (\<lambda>_. io_return (with_seq s e))))) d
    (\<lambda>e' d'. e' = with_seq (position (du_trace d) + 1) e \<and> room env n d'
       \<and> (\<exists>p. wal_at d' p (minted_before env (length (du_trace d'))) (Suc (4 * n))))"
  proof (rule transaction_succeeds [OF env room e prepare_in_room [OF env e],
        where rs = "\<lambda>s. case projection of None \<Rightarrow> [] | Some r \<Rightarrow> [stamp_projection_seq r s]"])
    let ?tx = "em_event_id (ee_meta e)" and ?ids = "minted_before env (Suc (length (du_trace d)))"
    fix p i s and d2 :: durable
    assume i: "pp_record i = None" and w: "wal_at d2 (p(?tx \<mapsto> i)) ?ids (Suc (Suc (Suc (4 * n))))"
      and size: "length (du_records d2) + 2 \<le> usize_max"
    show "succeeds (?rest ?tx s) d2 (\<lambda>_ d'. du_trace d' = du_trace d2
        \<and> du_records d' = du_records d2 @ (case projection of None \<Rightarrow> [] | Some r \<Rightarrow> [stamp_projection_seq r s])
        \<and> (\<exists>p'. wal_at d' p' ?ids (Suc (4 * n))))"
    proof (cases projection)
      case None
      have "wal_at d2 (p(?tx \<mapsto> i)) ?ids (Suc (Suc (4 * n)))"
        using wal_at_mono [OF w] by simp
      note w' = this
      have "succeeds (if hold then io_return () else wal_commit env ?tx) d2 (\<lambda>_ d'. du_trace d' = du_trace d2
          \<and> du_records d' = du_records d2 @ [] \<and> (\<exists>p'. wal_at d' p' ?ids (Suc (4 * n))))"
        by (rule succeeds_weaken [OF commit_tail [OF env w']]) (auto simp: same_logs_def)
      then show ?thesis
        by (simp add: None)
    next
      case (Some r)
      have "\<not> is_header_record (stamp_projection_seq r s)"
        using projection [OF Some] by (cases r) simp_all
      from project_tail [OF env w _ i this size] show ?thesis
        by (simp add: Some Let_def)
    qed
  qed (auto split: option.split)
  ultimately show "succeeds (io_bind (wal_prepare_with_recovery env e None) (\<lambda>tx. io_bind (journal_append env e)
      (\<lambda>s. io_bind (?rest tx s) (\<lambda>_. io_return (with_seq s e))))) d0
    (\<lambda>e' d'. e' = with_seq (position (du_trace d) + 1) e \<and> room env n d'
       \<and> (\<exists>p. wal_at d' p (minted_before env (length (du_trace d'))) (Suc (4 * n))))"
    by simp
qed

text \<open>Committing the held start of a compaction uses at most the one entry that is left.\<close>

lemma commit_intent_succeeds:
  assumes "open_store env" "wal_at d p (minted_before env (length (du_trace d))) (Suc (4 * n))" "room env n d"
  shows "succeeds (commit_projection_intent env tx) d (\<lambda>_ d'. room env n d' \<and> du_trace d' = du_trace d)"
  unfolding commit_projection_intent_def
proof (rule succeeds_bind [OF wal_pending_succeeds [OF assms(2)]])
  fix pending and d' :: durable
  assume a: "d' = d \<and> (\<exists>t seen. fold_res wal_step (du_wal d) ([], []) = Inr (t, seen) \<and> map_of t = p
    \<and> set seen \<subseteq> minted_before env (length (du_trace d)) \<and> pending = map snd t)"
  then obtain t seen where t: "fold_res wal_step (du_wal d) ([], []) = Inr (t, seen)" "map_of t = p" "pending = map snd t"
    by blast
  show "succeeds (if list_ex (\<lambda>p. pp_tx_id p = tx) pending then wal_commit env tx else io_return ()) d'
      (\<lambda>_ d'. room env n d' \<and> du_trace d' = du_trace d)"
  proof (cases "list_ex (\<lambda>p. pp_tx_id p = tx) pending")
    case True
    then obtain k i where "(k, i) \<in> set t" "pp_tx_id i = tx"
      by (auto simp: t(3) list_ex_iff)
    then have "(tx, i) \<in> set t"
      using wal_fold_ok [OF t(1)] by (auto simp: wal_ok_def)
    then have "p tx \<noteq> None"
      using t(2) by (metis map_of_eq_None_iff fst_conv imageI)
    from wal_commit_succeeds [OF assms(1,2) this] True a show ?thesis
      by (simp, elim conjE) (rule succeeds_weaken, assumption, use assms(3) in \<open>auto simp: room_def same_logs_def\<close>)
  next
    case False
    then show ?thesis
      using a assms(3) by simp
  qed
qed

lemma projection_not_header: "projection_of st e = Some r \<Longrightarrow> \<not> is_header_record r"
  by (auto simp: projection_of_def split: agent_event.splits if_splits option.splits)

lemma trace_emit_succeeds:
  assumes "open_store env" "room env (Suc n) d" "next_event env d e"
  shows "succeeds (trace_emit env e st) d (\<lambda>(e', st') d'. room env n d')"
  unfolding trace_emit_def Let_def
proof (rule succeeds_bind)
  let ?p = "projection_of (note_range (ee_event e) st) e"
  show "succeeds (if ?p \<noteq> None \<or> holds_for_message (ee_event e) \<or> holds_for_compaction (ee_event e)
      then emit_transaction env e ?p (holds_for_message (ee_event e) \<or> holds_for_compaction (ee_event e))
      else session_emit env e) d
    (\<lambda>e' d'. room env n d' \<and> (?p \<noteq> None \<longrightarrow> (\<exists>p. wal_at d' p (minted_before env (length (du_trace d'))) (Suc (4 * n)))))"
    using succeeds_weaken [OF emit_transaction_succeeds [OF assms projection_not_header]]
      succeeds_weaken [OF session_emit_succeeds [OF assms(1,2)]] by (simp add: Let_def)
next
  let ?p = "projection_of (note_range (ee_event e) st) e"
  fix e' and d' :: durable
  assume a: "room env n d' \<and> (?p \<noteq> None \<longrightarrow> (\<exists>p. wal_at d' p (minted_before env (length (du_trace d'))) (Suc (4 * n))))"
  have carries: "?p \<noteq> None" if "is_compaction_done (ee_event e)"
    using that by (cases "ee_event e") (simp_all add: projection_of_def)
  have "succeeds (case (is_compaction_done (ee_event e), st_start (note_range (ee_event e) st)) of
       (True, Some start) \<Rightarrow> commit_projection_intent env start | _ \<Rightarrow> io_return ()) d' (\<lambda>_ d'. room env n d')"
    if fin: "is_compaction_done (ee_event e)" "st_start (note_range (ee_event e) st) = Some start" for start
  proof -
    obtain p where "wal_at d' p (minted_before env (length (du_trace d'))) (Suc (4 * n))" "room env n d'"
      using a carries [OF fin(1)] by blast
    from succeeds_weaken [OF commit_intent_succeeds [OF assms(1) this]] show ?thesis
      by (simp add: fin)
  qed
  then have "succeeds (case (is_compaction_done (ee_event e), st_start (note_range (ee_event e) st)) of
       (True, Some start) \<Rightarrow> commit_projection_intent env start | _ \<Rightarrow> io_return ()) d' (\<lambda>_ d'. room env n d')"
    using a by (auto split: option.split bool.split)
  then show "succeeds (io_bind
        (case (is_compaction_done (ee_event e), st_start (note_range (ee_event e) st)) of
           (True, Some start) \<Rightarrow> commit_projection_intent env start | _ \<Rightarrow> io_return ())
        (\<lambda>_. io_return (e', after_emit (ee_event e) (em_event_id (ee_meta e)) (note_range (ee_event e) st)))) d'
      (\<lambda>(e', st') d'. room env n d')"
    by (rule succeeds_bind) simp
qed


lemma io_bind_assoc: "io_bind (io_bind m f) g = io_bind m (\<lambda>a. io_bind (f a) g)"
  by (rule ext) (simp add: io_bind_def apply_writes_def split: prod.split sum.split)

lemma succeeds_on_error: "succeeds m d Q \<Longrightarrow> succeeds (io_on_error m h) d Q"
  by (auto simp: succeeds_def io_on_error_success)

lemma prepare_recovery_succeeds:
  assumes "open_store env"
  shows "succeeds (prepare_message_recovery env m) d (\<lambda>_ d'. same_logs d d' \<and> du_wal d' = du_wal d)"
  unfolding prepare_message_recovery_def Let_def
  by (auto simp: same_logs_def split: if_splits intro!: succeeds_bind [where Q = "\<lambda>a d'. a = d \<and> d' = d"]
      succeeds_bind [OF put_blob_succeeds [OF assms]])

lemma emit_new_message_succeeds:
  assumes env: "open_store env" and room: "room env (Suc n) d" and e: "next_event env d e"
    and who: "message_attribution (ee_meta e) = Inr (turn, epoch, model)"
  shows "succeeds (emit_new_message env e m) d
    (\<lambda>e' d'. e' = with_seq (position (du_trace d) + 1) e \<and> room env n d')"
  unfolding emit_new_message_def
proof (rule succeeds_bind [where Q = "\<lambda>a d'. a = d \<and> d' = d"]; (elim conjE, hypsubst)?)
  have made: "\<exists>q. message_record (with_seq s e) m k = Inr q" "\<exists>q. message_record e m k = Inr q" for s k
    using who by (simp_all add: message_record_def message_attribution_def with_seq_def)
  let ?tail = "\<lambda>recovery. io_bind (wal_prepare_with_recovery env e recovery) (\<lambda>tx.
     io_bind (journal_append env e) (\<lambda>s. io_bind (io_bind (io_lift id (message_record (with_seq s e) m s)) (\<lambda>r.
     io_bind (log_append env (MessageRec r)) (\<lambda>_. wal_commit env tx))) (\<lambda>_. io_return (with_seq s e))))"
  have tail: "succeeds (io_bind (io_on_error (wal_prepare_with_recovery env e recovery) h) (\<lambda>tx.
     io_bind (journal_append env e) (\<lambda>s. io_bind (io_bind (io_lift id (message_record (with_seq s e) m s)) (\<lambda>r.
     io_bind (log_append env (MessageRec r)) (\<lambda>_. wal_commit env tx))) (\<lambda>_. io_return (with_seq s e))))) d1
     (\<lambda>e' d'. e' = with_seq (position (du_trace d) + 1) e \<and> room env n d')"
    if d1: "same_logs d d1" "du_wal d1 = du_wal d" for recovery h and d1 :: durable
  proof -
    have room1: "room env (Suc n) d1" and e1: "next_event env d1 e" and pos: "position (du_trace d1) = position (du_trace d)"
      using room e d1 by (simp_all add: room_def wal_at_def next_event_def same_logs_def)
    show ?thesis
    proof (rule succeeds_weaken [OF transaction_succeeds [OF env room1 e1 succeeds_on_error [OF prepare_in_room [OF env e1]],
          where rs = "\<lambda>s. [MessageRec (the (case message_record (with_seq s e) m s of Inl _ \<Rightarrow> None | Inr q \<Rightarrow> Some q))]"]])
      let ?tx = "em_event_id (ee_meta e)" and ?ids = "minted_before env (Suc (length (du_trace d1)))"
      fix p i s and d2 :: durable
      assume w: "wal_at d2 (p(?tx \<mapsto> i)) ?ids (Suc (Suc (Suc (4 * n))))" and size: "length (du_records d2) + 2 \<le> usize_max"
      obtain q where q: "message_record (with_seq s e) m s = Inr q"
        using made(1) by blast
      have w': "wal_at d2 (p(?tx \<mapsto> i)) ?ids (Suc (Suc (4 * n)))"
        using wal_at_mono [OF w] by simp
      show "succeeds (io_bind (io_lift id (message_record (with_seq s e) m s)) (\<lambda>r.
          io_bind (log_append env (MessageRec r)) (\<lambda>_. wal_commit env ?tx))) d2
        (\<lambda>_ d'. du_trace d' = du_trace d2
          \<and> du_records d' = du_records d2 @ [MessageRec (the (case message_record (with_seq s e) m s of Inl _ \<Rightarrow> None | Inr q \<Rightarrow> Some q))]
          \<and> (\<exists>p'. wal_at d' p' ?ids (Suc (4 * n))))"
        by (rule succeeds_bind [where Q = "\<lambda>r d'. r = q \<and> d' = d2"])
          (use q log_tail [OF env w' _ _ size] in \<open>auto intro: succeeds_lift\<close>)
    qed (simp_all add: pos)
  qed
  obtain q where q: "message_record e m (next_seq (du_trace d)) = Inr q"
    using made(2) by blast
  show "succeeds (io_bind (io_lift id (message_record e m (next_seq (du_trace d)))) (\<lambda>projected.
     io_bind (validate_record_size env (MessageRec projected)) (\<lambda>_.
     io_bind (prepare_message_recovery env m) (\<lambda>(recovery, cleanup).
     io_bind (io_on_error (wal_prepare_with_recovery env e (Some recovery)) (remove_unreferenced_blob cleanup)) (\<lambda>tx.
     io_bind (journal_append env e) (\<lambda>s.
     io_bind (io_lift id (message_record (with_seq s e) m s)) (\<lambda>r.
     io_bind (log_append env (MessageRec r)) (\<lambda>_.
     io_bind (wal_commit env tx) (\<lambda>_. io_return (with_seq s e)))))))))) d
     (\<lambda>e' d'. e' = with_seq (position (du_trace d) + 1) e \<and> room env n d')"
    by (rule succeeds_bind [where Q = "\<lambda>r d'. d' = d"], rule succeeds_lift [OF q], simp, hypsubst,
        rule succeeds_bind [where Q = "\<lambda>_ d'. d' = d"], rule validate_succeeds [OF env], simp, hypsubst,
        rule succeeds_bind [OF prepare_recovery_succeeds [OF env]], elim conjE, simp only: case_prod_beta,
        rule tail [unfolded io_bind_assoc])
qed simp


section \<open>Operations of the turn loop\<close>

lemma loop_envelope_next:
  "next_event env d (loop_envelope env li (length (du_trace d)) turn event)"
  "turn = Some t \<Longrightarrow> \<exists>who. message_attribution (ee_meta (loop_envelope env li k turn event)) = Inr who"
  by (simp_all add: next_event_def loop_envelope_def new_envelope_def new_meta_def case_prod_beta
      message_attribution_def)

lemma live_emit_succeeds:
  assumes "open_store env" "room env (Suc n) d"
  shows "succeeds (live_emit env li turn event lc) d (\<lambda>(e, lc') d'. room env n d')"
  unfolding live_emit_def
proof (rule succeeds_bind [where Q = "\<lambda>a d'. a = d \<and> d' = d"]; (elim conjE, hypsubst)?)
  show "succeeds (io_bind (trace_emit env (loop_envelope env li (length (du_trace d)) turn event) (lc_trace lc))
      (\<lambda>(e, st). io_return (e, lc\<lparr>lc_trace := st, lc_envelopes := lc_envelopes lc @ [e]\<rparr>))) d
      (\<lambda>(e, lc') d'. room env n d')"
    by (rule succeeds_bind [OF trace_emit_succeeds [OF assms loop_envelope_next(1)]]) (auto split: prod.splits)
qed simp

lemma live_emit_message_succeeds:
  assumes "open_store env" "room env (Suc n) d"
  shows "succeeds (live_emit_message env li (Some turn) event m lc) d (\<lambda>(e, lc') d'. room env n d')"
  unfolding live_emit_message_def
proof (rule succeeds_bind [where Q = "\<lambda>a d'. a = d \<and> d' = d"]; (elim conjE, hypsubst)?)
  let ?e = "loop_envelope env li (length (du_trace d)) (Some turn) event"
  obtain t ep model where "message_attribution (ee_meta ?e) = Inr (t, ep, model)"
    using loop_envelope_next(2) [of "Some turn" turn env li "length (du_trace d)" event] by auto
  from emit_new_message_succeeds [OF assms loop_envelope_next(1) this]
  have "succeeds (emit_message env ?e m) d (\<lambda>e' d'. room env n d')"
    using loop_envelope_next(1) [of env d li "Some turn" event]
    by (simp add: emit_message_def next_event_def) (rule succeeds_weaken, assumption, simp)
  then have "succeeds (trace_emit_message env ?e m (lc_trace lc)) d (\<lambda>(e', st) d'. room env n d')"
    unfolding trace_emit_message_def by (rule succeeds_bind) simp
  then show "succeeds (io_bind (trace_emit_message env ?e m (lc_trace lc))
      (\<lambda>(e, st). io_return (e, lc\<lparr>lc_trace := st, lc_envelopes := lc_envelopes lc @ [e]\<rparr>))) d
      (\<lambda>(e, lc') d'. room env n d')"
    by (rule succeeds_bind) (auto split: prod.splits)
qed simp

lemma record_message_succeeds:
  assumes "open_store env" "room env (Suc n) d"
  shows "succeeds (record_message env li turn event m lc) d (\<lambda>(_, lc') d'. room env n d')"
  unfolding record_message_def
  by (rule succeeds_bind [OF live_emit_message_succeeds [OF assms]]) (auto split: prod.splits)

lemma payload_succeeds:
  assumes "open_store env" "room env n d"
  shows "succeeds (trace_put_payload env bytes) d (\<lambda>_ d'. room env n d')"
  unfolding trace_put_payload_def
  by (rule succeeds_weaken [OF put_blob_succeeds [OF assms(1)]])
    (use assms(2) in \<open>auto simp: room_def wal_at_def same_logs_def\<close>)

lemma room_less:
  assumes "room env n d" "k \<le> n"
  shows "room env k d"
proof -
  obtain p where "wal_at d p (minted_before env (length (du_trace d))) (4 * n)"
    using assms(1) by (auto simp: room_def)
  from wal_at_mono [OF this order.refl, of "4 * k"] show ?thesis
    using assms by (auto simp: room_def)
qed

lemma compact_range_succeeds:
  assumes env: "open_store env" and room: "room env (Suc (Suc (Suc (Suc n)))) d"
    and size: "length (lc_messages lc) \<le> u32_max" "lc_epoch lc < u32_max"
  shows "succeeds (compact_range env li turn prefix_end summary level reason lc) d (\<lambda>(_, lc') d'. room env n d')"
proof -
  define m where "m = min prefix_end (length (lc_messages lc))"
  define lc0 where "lc0 = normalize_message_seqs lc"
  define pr where "pr = min (lc_floor lc0) (length (lc_messages lc0))"
  have same: "lc_messages lc0 = lc_messages lc" "lc_epoch lc0 = lc_epoch lc"
    by (simp_all add: lc0_def normalize_message_seqs_def Let_def)
  obtain a b where ab: "replaced_range lc0 pr m = (a, b)"
    by (cases "replaced_range lc0 pr m")
  have counts: "count_u32 (m - pr) = Inr (m - pr)" "count_u32 (length (lc_messages lc0) - m) = Inr (length (lc_messages lc0) - m)"
    using size(1) by (simp_all add: same m_def)
  have epoch: "next_live_epoch lc0 = Inr (lc_epoch lc + 1)"
    using size(2) by (simp add: next_live_epoch_def same checked_add_def)
  show ?thesis
  proof (cases "m \<le> pr")
    case True
    then show ?thesis
      using room_less [OF room, of n] unfolding compact_range_def Let_def m_def [symmetric] lc0_def [symmetric] pr_def [symmetric]
      by simp
  next
    case False
    have lift: "succeeds (io_bind (io_lift f r) g) d' Q" if "r = Inr x" "succeeds (g x) d' Q" for f r x g d' Q
      using that by (simp add: succeeds_def io_bind_def)
    show ?thesis
      unfolding compact_range_def Let_def m_def [symmetric] lc0_def [symmetric] pr_def [symmetric] if_not_P [OF False]
      by (rule lift [OF counts(1)], rule lift [OF counts(2)], simp only: ab prod.case, rule lift [OF epoch],
          rule succeeds_bind [OF live_emit_succeeds [OF env room]], clarsimp simp only: split_paired_all prod.case,
          erule succeeds_bind [OF live_emit_message_succeeds [OF env]], clarsimp simp only: split_paired_all prod.case,
          erule succeeds_bind [OF payload_succeeds [OF env]],
          erule succeeds_bind [OF live_emit_succeeds [OF env]], clarsimp simp only: split_paired_all prod.case,
          erule succeeds_bind [OF live_emit_succeeds [OF env]], clarsimp)
  qed
qed


end
