(* ===== verification/Session_Resume.thy ===== *)
theory Session_Resume
  imports Store_Progress Crash_Recovery
begin

text \<open>
  What holds of every session: it resumes into the window it was left with, its summaries succeed
  while there is room, and - the exception - a phase compaction right after an ordinary one makes it
  unresumable.
\<close>

section \<open>Resuming gives the window back\<close>


section \<open>Summaries succeed while there is room\<close>

text \<open>C6:
  a summary cannot fail half way for want of protocol: in a store that refuses no record, whatever
  the session did before, with room for four more events every request for a summary returns,
  and leaves the room it did not need.\<close>

theorem summary_succeeds_with_room:
  assumes "open_store env" "room env (n + 4) d"
    and "length (lc_messages lc) \<le> u32_max" "lc_epoch lc < u32_max"
  shows "\<exists>ws k lc'. compact_range env li turn prefix_end summary level reason lc d = (ws, Inr (k, lc'))
    \<and> room env n (apply_writes ws d)"
proof -
  have "room env (Suc (Suc (Suc (Suc n)))) d"
    using assms(2) by (simp add: numeral_eq_Suc)
  from compact_range_succeeds [OF assms(1) this assms(3,4)] show ?thesis
    unfolding succeeds_def by fastforce
qed

section \<open>A session that cannot be resumed\<close>

text \<open>C14:
  two reductions in a row can make a session unresumable: after an ordinary compaction that keeps
  at least two messages, a forced phase compaction (the next user command, say) folds the summary
  together with older messages; it succeeds, and from then on restoring the session log fails,
  because the recorded range starts behind its end.\<close>

theorem phase_after_compaction_breaks_resume:
  assumes "session_run env lc d" "plain_store env"
    and first: "compact_context env li turn summary kept lc d = (ws, Inr (n, lc1))"
    and kept: "2 \<le> kept" "lc_floor lc + kept < length (lc_messages lc)"
    and range: "replaced_range lc (lc_floor lc) (length (lc_messages lc) - kept) = (a, b)" "0 < a" "a \<le> b"
    and second: "compact_phase env li' summarize turn' phase explicit True recent lc1 (apply_writes ws d)
      = (ws', Inr (n', lc2))"
  shows "restore_from_report h (HeaderRec h # du_records (apply_writes ws' (apply_writes ws d))) 0
    = Inl (InvalidReplacementBounds (lc_epoch lc + 2))"
proof -
  have mir: "mirrors env lc d"
    by (rule session_run_mirrors [OF assms(1,2)])
  then obtain s where s: "log_state env d s" and win: "shows_window lc s"
    by (auto simp: mirrors_def)
  define last_one where "last_one = length (lc_messages lc) - kept"
  have cut: "last_one = min last_one (length (lc_messages lc))" "\<not> last_one \<le> lc_floor lc"
    using kept by (simp_all add: last_one_def)
  have run1: "compact_range env li turn last_one summary L1Ordinary (summarizing_reason last_one) lc d = (ws, Inr (n, lc1))"
  proof -
    have "lc_messages lc \<noteq> []" "min kept (length (lc_messages lc) - 1) = kept"
      using kept by auto
    then show ?thesis
      using first by (simp add: compact_context_def Let_def last_one_def)
  qed
  have mir1: "mirrors env lc1 (apply_writes ws d)"
    using compact_range_mirrors [OF run1 assms(2) mir] range by (simp add: last_one_def)
  obtain k where k: "position (du_trace d) < k"
    and lc1: "lc_messages lc1 = splice (lc_floor lc) last_one [user_message summary] (lc_messages lc)"
      "lc_seqs lc1 = splice (lc_floor lc) last_one [Some k] (lc_seqs lc)" "lc_epoch lc1 = lc_epoch lc + 1"
      "lc_floor lc1 = lc_floor lc"
    by (rule compact_range_written [OF run1 assms(2) s win _ cut]) simp
  define tail_messages where "tail_messages = drop (last_one - lc_floor lc) (rs_messages s)"
  have seqs: "lc_seqs lc1 = replicate (lc_floor lc1) None @ Some k # map sm_seq tail_messages"
    using lc1 win cut(2) by (simp add: tail_messages_def splice_behind shows_window_def drop_map)
  have len: "length tail_messages = kept" "length (lc_messages lc1) = lc_floor lc1 + 1 + kept"
    using lc1 win cut kept by (simp_all add: tail_messages_def splice_def last_one_def shows_window_def)
  have older: "\<exists>n. sm_seq m = Some n \<and> n < k" if "m \<in> set tail_messages" for m
  proof -
    have "placed (position (du_trace d)) m"
      using s in_set_dropD [OF that [unfolded tail_messages_def]]
      by (simp add: log_state_def behind_def whole_window_def)
    then show ?thesis
      using k by (auto simp: placed_def)
  qed
  have "compact_range env li' turn' (length (lc_messages lc1) - 1) (''[Phase Compaction: '' @ phase @ '']'' @ [CHR 0x0A]
      @ unwrap_or (summarize (take (length (lc_messages lc1) - 1 - min (lc_floor lc1) (length (lc_messages lc1)))
          (drop (min (lc_floor lc1) (length (lc_messages lc1))) (lc_messages lc1)))) explicit)
      L2Phase (''semantic phase: '' @ phase) lc1 (apply_writes ws d) = (ws', Inr (n', lc2))"
    using second len(2) kept(1) by (simp add: compact_phase_def Let_def)
  then obtain text' where run2: "compact_range env li' turn' (length (lc_messages lc1) - 1) text' L2Phase
      (''semantic phase: '' @ phase) lc1 (apply_writes ws d) = (ws', Inr (n', lc2))"
    by blast
  have limits: "lc_floor lc1 + 2 \<le> length (lc_messages lc1) - 1"
    "length (lc_messages lc1) - 1 \<le> lc_floor lc1 + 1 + length tail_messages"
    using len kept(1) by simp_all
  obtain b' where "replaced_range lc1 (lc_floor lc1) (length (lc_messages lc1) - 1) = (k, b')" "b' < k"
    by (rule range_over_summary [OF seqs older limits])
  then show ?thesis
    using unordered_summary_refused [OF run2 assms(2) mir1] len(2) kept(1) lc1(3) by simp
qed

section \<open>A sample session\<close>

definition roomy_env :: store_env where
  "roomy_env = sample_env\<lparr>sv_mint := \<lambda>n. (CHR ''e'' # replicate n CHR ''e'', ''span'', 0)\<rparr>"

definition sample_identity :: loop_identity where
  "sample_identity = \<lparr> li_trace_id = ''trace'', li_model_epoch = 0, li_model = sample_log_model \<rparr>"

lemma roomy_open: "open_store roomy_env" "plain_store roomy_env"
proof -
  have "inj (\<lambda>k. CHR ''e'' # replicate k CHR ''e'')"
    by (auto simp: inj_def replicate_eq_replicate)
  then show "plain_store roomy_env"
    by (simp add: plain_store_def roomy_env_def sample_env_def)
  then show "open_store roomy_env"
    by (simp add: open_store_def) (simp add: roomy_env_def sample_env_def)
qed

lemma empty_room: "room roomy_env 4096 empty_session"
  by (auto simp: room_def wal_at_def empty_session_def max_wal_entries_def position_def journal_last_seq_def
      u64_max_def)

lemma record_message_window:
  assumes "record_message env li turn event m lc d = (ws, Inr ((), lc'))"
  shows "lc_messages lc' = lc_messages lc @ [m]" "lc_floor lc' = lc_floor lc" "lc_epoch lc' = lc_epoch lc"
proof -
  obtain e lc1 where e: "live_emit_message env li (Some turn) event m lc d = (ws, Inr (e, lc1))"
    and lc': "lc' = push_message m (em_seq (ee_meta e)) lc1"
    using assms unfolding record_message_def by (auto elim!: io_bind_success)
  show "lc_messages lc' = lc_messages lc @ [m]" "lc_floor lc' = lc_floor lc" "lc_epoch lc' = lc_epoch lc"
    using live_emit_message_effect [OF e] by (auto simp: lc' push_message_def)
qed

lemma sample_session:
  "k \<le> 4096 \<Longrightarrow> \<exists>lc d. session_run roomy_env lc d \<and> room roomy_env (4096 - k) d
     \<and> length (lc_messages lc) = k \<and> lc_floor lc = 0 \<and> lc_epoch lc = 0"
proof (induction k)
  case 0
  have "session_run roomy_env new_live empty_session"
    by (rule begins) (simp_all add: empty_session_def)
  then show ?case
    using empty_room by (intro exI [of _ new_live] exI [of _ empty_session]) (simp add: new_live_def)
next
  case (Suc k)
  then obtain lc d where run: "session_run roomy_env lc d" "room roomy_env (4096 - k) d"
    and lc: "length (lc_messages lc) = k" "lc_floor lc = 0" "lc_epoch lc = 0"
    by auto
  let ?event = "UserMessageEv \<lparr> um_text = ''hi'', um_attachments = 0 \<rparr>"
  have "4096 - k = Suc (4096 - Suc k)"
    using Suc.prems by arith
  with run(2) have "room roomy_env (Suc (4096 - Suc k)) d"
    by (simp only:)
  from record_message_succeeds [OF roomy_open(1) this, of sample_identity "''turn''" ?event "user_message ''hi''" lc]
  obtain ws lc' where m: "record_message roomy_env sample_identity ''turn'' ?event (user_message ''hi'') lc d = (ws, Inr ((), lc'))"
    and "room roomy_env (4096 - Suc k) (apply_writes ws d)"
    by (auto simp: succeeds_def)
  moreover have "session_run roomy_env lc' (apply_writes ws d)"
    by (rule message [OF run(1) _ m]) simp
  ultimately show ?case
    using record_message_window [OF m] lc by fastforce
qed

lemma first_message_range:
  assumes "session_run env lc d" "plain_store env" "lc_floor lc = 0" "lc_messages lc \<noteq> []"
  obtains a where "replaced_range lc 0 1 = (a, a)" "0 < a"
proof -
  obtain s where s: "log_state env d s" "shows_window lc s"
    using session_run_mirrors [OF assms(1,2)] by (auto simp: mirrors_def)
  then obtain m ms where m: "rs_messages s = m # ms"
    using assms(3,4) by (cases "rs_messages s") (auto simp: shows_window_def)
  then have "placed (position (du_trace d)) m"
    using s(1) by (simp add: log_state_def behind_def whole_window_def)
  then obtain a where "sm_seq m = Some a" "0 < a"
    by (auto simp: placed_def)
  then have "replaced_range lc 0 1 = (a, a)"
    using s(2) m assms(3) by (simp add: replaced_range_def shows_window_def first_some_def)
  then show thesis
    using that \<open>0 < a\<close> by blast
qed


theorem summary_succeeds_with_room_witness:
  "\<exists>lc d ws k lc'. session_run roomy_env lc d \<and> length (lc_messages lc) = 3
     \<and> compact_range roomy_env sample_identity ''turn'' 1 ''sum'' L1Ordinary [] lc d = (ws, Inr (k, lc'))"
proof -
  obtain lc d where run: "session_run roomy_env lc d" "room roomy_env 4093 d" "length (lc_messages lc) = 3" "lc_epoch lc = 0"
    using sample_session [of 3] by auto
  have "room roomy_env (4089 + 4) d"
    using run(2) by simp
  from summary_succeeds_with_room [OF roomy_open(1) this, of lc] run show ?thesis
    by (fastforce simp: u32_max_def)
qed

theorem phase_after_compaction_breaks_resume_witness:
  "\<exists>lc d ws n lc1 ws' n' lc2. session_run roomy_env lc d
     \<and> compact_context roomy_env sample_identity ''turn'' ''sum'' 2 lc d = (ws, Inr (n, lc1))
     \<and> compact_phase roomy_env sample_identity (\<lambda>_. ''text'') ''turn'' ''phase'' None True False lc1 (apply_writes ws d)
         = (ws', Inr (n', lc2))
     \<and> restore_from_report sample_header
         (HeaderRec sample_header # du_records (apply_writes ws' (apply_writes ws d))) 0 = Inl (InvalidReplacementBounds 2)"
proof -
  obtain lc d where run: "session_run roomy_env lc d" "room roomy_env 4093 d"
    and lc: "length (lc_messages lc) = 3" "lc_floor lc = 0" "lc_epoch lc = 0"
    using sample_session [of 3] by auto
  have "room roomy_env (Suc (Suc (Suc (Suc 4089)))) d"
    using run(2) by simp
  from compact_range_succeeds [OF roomy_open(1) this, of lc sample_identity "''turn''" 1 "''sum''" L1Ordinary
      "summarizing_reason 1"] lc
  obtain ws n lc1 where c: "compact_range roomy_env sample_identity ''turn'' 1 ''sum'' L1Ordinary (summarizing_reason 1) lc d
      = (ws, Inr (n, lc1))" and room: "room roomy_env 4089 (apply_writes ws d)"
    by (auto simp: succeeds_def u32_max_def)
  then have first: "compact_context roomy_env sample_identity ''turn'' ''sum'' 2 lc d = (ws, Inr (n, lc1))"
    using lc by (simp add: compact_context_def Let_def)
  have "lc_messages lc \<noteq> []"
    using lc by auto
  then obtain a where a: "replaced_range lc 0 1 = (a, a)" "0 < a"
    using first_message_range [OF run(1) roomy_open(2) lc(2)] by blast
  obtain s where s: "log_state roomy_env d s" "shows_window lc s"
    using session_run_mirrors [OF run(1) roomy_open(2)] by (auto simp: mirrors_def)
  have cut: "1 = min 1 (length (lc_messages lc))" "\<not> 1 \<le> lc_floor lc"
    using lc by simp_all
  have lc1: "length (lc_messages lc1) = 3" "lc_epoch lc1 = 1"
    by (rule compact_range_written [OF c roomy_open(2) s _ cut]; simp add: lc splice_def)+
  have "room roomy_env (Suc (Suc (Suc (Suc 4085)))) (apply_writes ws d)"
    using room by simp
  from compact_range_succeeds [OF roomy_open(1) this] lc1
  have "succeeds (compact_phase roomy_env sample_identity (\<lambda>_. ''text'') ''turn'' ''phase'' None True False lc1)
      (apply_writes ws d) (\<lambda>(_, lc') d'. room roomy_env 4085 d')"
    by (simp add: compact_phase_def Let_def u32_max_def)
  then obtain ws' n' lc2 where second: "compact_phase roomy_env sample_identity (\<lambda>_. ''text'') ''turn'' ''phase'' None
      True False lc1 (apply_writes ws d) = (ws', Inr (n', lc2))"
    by (auto simp: succeeds_def)
  have "restore_from_report sample_header
      (HeaderRec sample_header # du_records (apply_writes ws' (apply_writes ws d))) 0 = Inl (InvalidReplacementBounds (lc_epoch lc + 2))"
    using phase_after_compaction_breaks_resume [OF run(1) roomy_open(2) first _ _ _ a(2) order_refl second] lc a
    by simp
  then have broken: "restore_from_report sample_header
      (HeaderRec sample_header # du_records (apply_writes ws' (apply_writes ws d))) 0 = Inl (InvalidReplacementBounds 2)"
    by (simp add: lc(3))
  show ?thesis
    by (intro exI conjI, rule run(1), rule first, rule second, rule broken)
qed

end
