(* ===== verification/Crash_Logic.thy ===== *)
theory Crash_Logic
  imports Emission_Effects
begin

text \<open>
  A Hoare logic for store operations that may be cut off: \<open>guarded I m d Q\<close> states that \<open>I\<close> holds
  of every state a crash of \<open>m\<close> in \<open>d\<close> can leave, whether \<open>m\<close> would have succeeded or not, and that
  \<open>Q\<close> holds when it succeeds. The rules for the operations of the store speak of the trace only.
\<close>

section \<open>Crash triples\<close>

definition guarded :: "(durable \<Rightarrow> bool) \<Rightarrow> 'a io \<Rightarrow> durable \<Rightarrow> ('a \<Rightarrow> durable \<Rightarrow> bool) \<Rightarrow> bool" where
  "guarded I m d Q \<longleftrightarrow>
     (\<forall>d'\<in>crash_states m d. I d') \<and> (\<forall>ws a. m d = (ws, Inr a) \<longrightarrow> Q a (apply_writes ws d))"

lemma guarded_alt:
  "guarded I m d Q \<longleftrightarrow>
     (\<forall>k. I (apply_writes (take k (fst (m d))) d)) \<and> (\<forall>a. snd (m d) = Inr a \<longrightarrow> Q a (apply_writes (fst (m d)) d))"
proof -
  have "(\<forall>k. I (apply_writes (take k (fst (m d))) d)) \<longleftrightarrow> (\<forall>d'\<in>crash_states m d. I d')"
    unfolding crash_states_def by (auto, metis nat_le_linear take_all)
  then show ?thesis
    unfolding guarded_def by (cases "m d") auto
qed

lemma guarded_start: "guarded I m d Q \<Longrightarrow> I d"
  unfolding guarded_alt by (metis apply_writes_simps(1) take_0)

lemma guarded_weaken: "guarded I m d Q \<Longrightarrow> (\<And>a d'. Q a d' \<Longrightarrow> P a d') \<Longrightarrow> guarded I m d P"
  by (auto simp: guarded_def)

lemma guarded_bind:
  assumes m: "guarded I m d Q" and f: "\<And>a d'. Q a d' \<Longrightarrow> guarded I (f a) d' P"
  shows "guarded I (io_bind m f) d P"
proof (cases "m d")
  case (Pair ws r)
  show ?thesis
  proof (cases r)
    case (Inl e)
    then show ?thesis
      using m Pair by (simp add: guarded_alt io_bind_def)
  next
    case (Inr a)
    let ?d = "apply_writes ws d"
    obtain vs s where vs: "f a ?d = (vs, s)"
      by (cases "f a ?d")
    have "guarded I (f a) ?d P"
      using m Pair Inr f by (auto simp: guarded_alt)
    then have "I (apply_writes (take k vs) ?d)" "s = Inr b \<Longrightarrow> P b (apply_writes vs ?d)" for k b
      using vs by (auto simp: guarded_alt)
    moreover have "I (apply_writes (take k ws) d)" for k
      using m Pair by (auto simp: guarded_alt)
    moreover have "I (apply_writes (take (k - length ws) vs) (apply_writes (take k ws) d))" for k
    proof (cases "k \<le> length ws")
      case False
      then show ?thesis
        using calculation(1) [of "k - length ws"] by simp
    qed (use calculation(3) in simp)
    ultimately show ?thesis
      unfolding guarded_alt using Pair Inr vs by (simp add: io_bind_def)
  qed
qed

lemma guarded_simple [simp]:
  "guarded I (io_return a) d Q \<longleftrightarrow> I d \<and> Q a d"
  "guarded I (io_fail e) d Q \<longleftrightarrow> I d"
  "guarded I io_get d Q' \<longleftrightarrow> I d \<and> Q' d d"
  by (auto simp: guarded_alt io_return_def io_fail_def io_get_def)

lemma guarded_lift: "I d \<Longrightarrow> (\<And>a. r = Inr a \<Longrightarrow> Q a d) \<Longrightarrow> guarded I (io_lift f r) d Q"
  by (cases r) simp_all

section \<open>Operations that leave the trace alone\<close>

fun traces :: "disk_write \<Rightarrow> bool" where
  "traces (TraceAppend l) = True"
| "traces _ = False"

lemma untraced_write: "\<not> traces w \<Longrightarrow> du_trace (apply_write w d) = du_trace d"
  by (cases w) simp_all

lemma untraced_writes: "list_all (\<lambda>w. \<not> traces w) ws \<Longrightarrow> du_trace (apply_writes ws d) = du_trace d"
  by (induction ws arbitrary: d) (simp_all add: untraced_write)

definition untraced :: "'a io \<Rightarrow> bool" where
  "untraced m \<longleftrightarrow> (\<forall>d. list_all (\<lambda>w. \<not> traces w) (fst (m d)))"

lemma untraced_result [simp]: "untraced (\<lambda>d. ([], r d))"
  by (simp add: untraced_def)

lemma untraced_simple [simp]:
  "untraced (io_return a)" "untraced (io_fail e)" "untraced io_get" "untraced (io_lift f r)"
  "untraced (io_write w) \<longleftrightarrow> \<not> traces w"
  by (auto simp: untraced_def io_return_def io_fail_def io_get_def io_write_def)
    (cases r; simp add: io_return_def io_fail_def)+

lemma untraced_bind: "untraced m \<Longrightarrow> (\<And>a. untraced (f a)) \<Longrightarrow> untraced (io_bind m f)"
  by (auto simp: untraced_def io_bind_def split: prod.splits sum.splits) (metis fst_conv)+

lemma untraced_on_error: "untraced m \<Longrightarrow> untraced h \<Longrightarrow> untraced (io_on_error m h)"
  by (auto simp: untraced_def io_on_error_def split: prod.splits sum.splits) (metis fst_conv)+

lemma untraced_pending: "untraced wal_pending"
  unfolding untraced_def wal_pending_def
  by (intro allI) (metis untraced_def untraced_simple(4))

lemma untraced_wal_append: "untraced (wal_append env e)"
  by (simp add: wal_append_def)

lemma untraced_wal:
  "untraced (wal_commit env tx)" "untraced (wal_prepare_with_recovery env envelope r)"
  "untraced (wal_set_projection env tx p)" "untraced (commit_projection_intent env tx)"
  "untraced (remove_unreferenced_blob c)" "untraced (log_append env q)"
proof -
  show commit: "untraced (wal_commit env tx)"
    unfolding wal_commit_def by (intro untraced_bind untraced_wal_append untraced_pending) simp
  show "untraced (wal_prepare_with_recovery env envelope r)"
    unfolding wal_prepare_with_recovery_def Let_def by (intro untraced_bind untraced_wal_append) simp
  show "untraced (wal_set_projection env tx p)"
    by (simp add: wal_set_projection_def untraced_wal_append)
  show "untraced (commit_projection_intent env tx)"
    unfolding commit_projection_intent_def by (intro untraced_bind untraced_pending) (simp add: commit)
  show "untraced (remove_unreferenced_blob c)"
    unfolding remove_unreferenced_blob_def
    by (cases c) (auto intro!: untraced_bind untraced_pending)
  show "untraced (log_append env q)"
    by (auto simp: log_append_def intro!: untraced_bind)
qed

lemma untraced_put_blob: "untraced (put_blob env bytes ct)"
  unfolding put_blob_def by (intro untraced_bind) (auto simp: untraced_def io_bind_def split: sum.splits)

lemma untraced_payload: "untraced (trace_put_payload env bytes)"
  by (simp add: trace_put_payload_def untraced_put_blob)

lemma untraced_recovery: "untraced (prepare_message_recovery env m)"
  unfolding prepare_message_recovery_def Let_def by (simp add: untraced_bind untraced_put_blob)

text \<open>An invariant of the trace survives them, and the trace is what it was.\<close>

definition on_trace :: "(trace_entry list \<Rightarrow> bool) \<Rightarrow> durable \<Rightarrow> bool" where
  "on_trace J d \<longleftrightarrow> J (du_trace d)"

lemma guarded_untraced:
  assumes "untraced m" "on_trace J d"
  shows "guarded (on_trace J) m d (\<lambda>_ d'. du_trace d' = du_trace d)"
proof -
  have ws: "list_all (\<lambda>w. \<not> traces w) (fst (m d))"
    using assms(1) by (simp add: untraced_def)
  then have "list_all (\<lambda>w. \<not> traces w) (take k (fst (m d)))" for k
    by (metis append_take_drop_id list_all_append)
  then show ?thesis
    using ws assms(2) by (auto simp: guarded_alt on_trace_def untraced_writes)
qed

section \<open>Emissions\<close>

text \<open>The lines an envelope may become, and a trace invariant that admits each of them next.\<close>

definition line_of :: "store_env \<Rightarrow> event_envelope \<Rightarrow> trace_entry \<Rightarrow> bool" where
  "line_of env e l \<longleftrightarrow> (\<exists>s. sv_line env (plain_entry (with_seq s e)) = Some l)"

definition admits :: "store_env \<Rightarrow> (trace_entry list \<Rightarrow> bool) \<Rightarrow> event_envelope \<Rightarrow> durable \<Rightarrow> bool" where
  "admits env J e d \<longleftrightarrow> J (du_trace d) \<and> (\<forall>l. line_of env e l \<longrightarrow> J (du_trace d @ [l]))"

abbreviation extended :: "store_env \<Rightarrow> event_envelope \<Rightarrow> durable \<Rightarrow> durable \<Rightarrow> bool" where
  "extended env e d d' \<equiv> \<exists>l. line_of env e l \<and> du_trace d' = du_trace d @ [l]"

lemma admits_cong: "du_trace d' = du_trace d \<Longrightarrow> admits env J e d' \<longleftrightarrow> admits env J e d"
  by (simp add: admits_def)

lemma guarded_journal_append:
  assumes "admits env J e d"
  shows "guarded (on_trace J) (journal_append env e) d (\<lambda>s d'. extended env e d d')"
proof (cases "checked_next_seq (du_trace d)")
  case (Inl x)
  then show ?thesis
    using assms by (simp add: guarded_alt journal_append_def io_bind_def io_get_def io_fail_def admits_def on_trace_def)
next
  case (Inr s)
  show ?thesis
  proof (cases "sv_line env (plain_entry (with_seq s e))")
    case None
    with Inr show ?thesis
      using assms
      by (simp add: guarded_alt journal_append_def io_bind_def io_get_def io_fail_def io_return_def admits_def on_trace_def)
  next
    case (Some l)
    then have "line_of env e l"
      by (auto simp: line_of_def)
    moreover have "journal_append env e d = ([TraceAppend l], Inr s)"
      using Inr Some
      by (simp add: journal_append_def io_bind_def io_get_def io_return_def io_write_def)
    ultimately show ?thesis
      using assms by (auto simp: guarded_alt admits_def on_trace_def take_Cons')
  qed
qed

text \<open>An operation that adds one line for the envelope, or none if it fails.\<close>

definition traced :: "store_env \<Rightarrow> event_envelope \<Rightarrow> 'a io \<Rightarrow> bool" where
  "traced env e m \<longleftrightarrow>
     (\<forall>J d. admits env J e d \<longrightarrow> guarded (on_trace J) m d (\<lambda>_ d'. extended env e d d'))"

lemma tracedD:
  "traced env e m \<Longrightarrow> admits env J e d \<Longrightarrow> guarded (on_trace J) m d (\<lambda>_ d'. extended env e d d')"
  by (simp add: traced_def)

lemma traced_append: "traced env e (journal_append env e)"
  by (simp add: traced_def guarded_journal_append)

lemma traced_after:
  assumes "untraced m" "\<And>a. traced env e (f a)"
  shows "traced env e (io_bind m f)"
  unfolding traced_def
proof (intro allI impI)
  fix J d assume adm: "admits env J e d"
  then have "on_trace J d"
    by (simp add: admits_def on_trace_def)
  then show "guarded (on_trace J) (io_bind m f) d (\<lambda>_ d'. extended env e d d')"
  proof (rule guarded_bind [OF guarded_untraced [OF assms(1)]])
    fix a and d' :: durable assume same: "du_trace d' = du_trace d"
    show "guarded (on_trace J) (f a) d' (\<lambda>_ d'. extended env e d d')"
      using tracedD [OF assms(2) iffD2 [OF admits_cong [OF same] adm]] by (simp add: same)
  qed
qed

lemma traced_before:
  assumes "traced env e m" "\<And>a. untraced (f a)"
  shows "traced env e (io_bind m f)"
  unfolding traced_def
proof (intro allI impI)
  fix J d assume adm: "admits env J e d"
  show "guarded (on_trace J) (io_bind m f) d (\<lambda>_ d'. extended env e d d')"
  proof (rule guarded_bind [OF tracedD [OF assms(1) adm]])
    fix a d' assume ext: "extended env e d d'"
    then have "on_trace J d'"
      using adm by (auto simp: admits_def on_trace_def)
    from guarded_untraced [OF assms(2) this] show "guarded (on_trace J) (f a) d' (\<lambda>_ d'. extended env e d d')"
      by (rule guarded_weaken) (use ext in auto)
  qed
qed

text \<open>Reading the durable state changes nothing: what follows may depend on it.\<close>

lemma traced_get: "(\<And>d. traced env e (f d)) \<Longrightarrow> traced env e (io_bind io_get f)"
  by (rule traced_after) simp_all

lemma traced_session_emit: "traced env e (session_emit env e)"
  unfolding session_emit_def by (rule traced_before [OF traced_append]) simp

lemma traced_emit_transaction: "traced env e (emit_transaction env e projection hold)"
proof -
  have before: "untraced (case projection of None \<Rightarrow> io_return ()
      | Some r \<Rightarrow> io_bind (validate_projection_size env (em_event_id (ee_meta e)) r) (\<lambda>_. validate_record_size env r))"
    by (cases projection) (auto simp: validate_projection_size_def validate_record_size_def intro!: untraced_bind)
  have after: "untraced (io_bind (case projection of
          Some r \<Rightarrow> (let r = stamp_projection_seq r s
             in io_bind (wal_set_projection env tx r) (\<lambda>_. io_bind (log_append env r) (\<lambda>_. wal_commit env tx)))
        | None \<Rightarrow> if hold then io_return () else wal_commit env tx) (\<lambda>_. io_return (with_seq s e)))" for s tx
    by (cases projection) (auto simp: Let_def intro!: untraced_bind untraced_wal)
  show ?thesis
    unfolding emit_transaction_def
    by (intro traced_after [OF before] traced_after [OF untraced_wal(2)] traced_before [OF traced_append] after)
qed

lemma traced_trace_emit: "traced env e (trace_emit env e st)"
proof -
  have "untraced (io_bind (case (is_compaction_done (ee_event e), st_start st') of
        (True, Some start) \<Rightarrow> commit_projection_intent env start
      | _ \<Rightarrow> io_return ()) (\<lambda>_. io_return x))" for st' x
    by (auto intro!: untraced_bind simp: untraced_wal split: option.split bool.split)
  then show ?thesis
    unfolding trace_emit_def Let_def
    by (intro traced_before) (auto simp: traced_emit_transaction traced_session_emit)
qed

lemma traced_emit_message:
  assumes "em_seq (ee_meta e) = None"
  shows "traced env e (trace_emit_message env e m st)"
proof -
  have "traced env e (emit_new_message env e m)"
    unfolding emit_new_message_def
    by (intro traced_get traced_after traced_before [OF traced_append] untraced_recovery untraced_on_error)
      (auto simp: validate_record_size_def untraced_wal case_prod_beta
        intro!: traced_after traced_before [OF traced_append] untraced_on_error untraced_bind untraced_wal)
  then show ?thesis
    using assms unfolding trace_emit_message_def emit_message_def
    by (intro traced_before) simp_all
qed

end
