(* ===== verification/Turn_Tools.thy ===== *)
theory Turn_Tools
  imports Live_Context Tool_Registry
begin

text \<open>
  \<open>crates/rupi-runtime/src/turn.rs\<close>: how a turn runs the tool calls of one response. Every call is
  recorded in the trace before anything else happens to it, its start is recorded by the registry
  just before the tool runs, and its end is recorded together with the result the model will see.
  Tools, the surface and the registry act on, or depend on, an outer world \<open>'w\<close>; the registry is a
  function of it since extensions may add and remove tools while a turn runs.
\<close>

section \<open>Emitting under a parent\<close>

definition parented :: "event_id option \<Rightarrow> event_envelope \<Rightarrow> event_envelope" where
  "parented parent e = e\<lparr>ee_meta := (ee_meta e)\<lparr>em_parent_event_id := parent\<rparr>\<rparr>"

definition turn_envelope ::
  "store_env \<Rightarrow> loop_identity \<Rightarrow> turn_id \<Rightarrow> agent_event \<Rightarrow> event_id option \<Rightarrow> durable \<Rightarrow> event_envelope" where
  "turn_envelope env li turn event parent d =
     parented parent (loop_envelope env li (length (du_trace d)) (Some turn) event)"

definition note_envelope :: "event_envelope \<Rightarrow> store_trace \<Rightarrow> live_context \<Rightarrow> live_context" where
  "note_envelope e st lc = lc\<lparr>lc_trace := st, lc_envelopes := lc_envelopes lc @ [e]\<rparr>"

definition turn_emit ::
  "store_env \<Rightarrow> loop_identity \<Rightarrow> turn_id \<Rightarrow> agent_event \<Rightarrow> event_id option \<Rightarrow> event_envelope live_io" where
  "turn_emit env li turn event parent lc =
     io_bind io_get (\<lambda>d.
     io_bind (trace_emit env (turn_envelope env li turn event parent d) (lc_trace lc)) (\<lambda>(e, st).
       io_return (e, note_envelope e st lc)))"

definition turn_emit_message ::
  "store_env \<Rightarrow> loop_identity \<Rightarrow> turn_id \<Rightarrow> agent_event \<Rightarrow> event_id option \<Rightarrow> message \<Rightarrow> event_envelope live_io" where
  "turn_emit_message env li turn event parent m lc =
     io_bind io_get (\<lambda>d.
     io_bind (trace_emit_message env (turn_envelope env li turn event parent d) m (lc_trace lc)) (\<lambda>(e, st).
       io_return (e, note_envelope e st lc)))"

text \<open>An end that has no message: the store does not hold it for one.\<close>

definition turn_emit_without_message ::
  "store_env \<Rightarrow> loop_identity \<Rightarrow> turn_id \<Rightarrow> agent_event \<Rightarrow> event_id option \<Rightarrow> event_envelope live_io" where
  "turn_emit_without_message env li turn event parent lc =
     io_bind io_get (\<lambda>d.
     io_bind (session_emit env (turn_envelope env li turn event parent d)) (\<lambda>e.
       io_return (e, note_envelope e (lc_trace lc) lc)))"

section \<open>The surroundings of a turn\<close>

text \<open>The callbacks of the surface that the handling of calls uses.\<close>

record 'w surface =
  sf_requested :: "tool_call_block \<Rightarrow> 'w \<Rightarrow> 'w"
  sf_finished :: "tool_call_block \<Rightarrow> executed \<Rightarrow> 'w \<Rightarrow> 'w"
  sf_approve :: "tool_metadata \<Rightarrow> json \<Rightarrow> 'w \<Rightarrow> approval \<times> 'w"

text \<open>\<open>tv_elapsed\<close> is the duration the clock shows between two worlds.\<close>

record 'w turn_env =
  tv_store :: store_env
  tv_identity :: loop_identity
  tv_tools :: "'w \<Rightarrow> 'w registry"
  tv_surface :: "'w surface"
  tv_cancelled :: "'w \<Rightarrow> bool"
  tv_expired :: "'w \<Rightarrow> bool"
  tv_can_ask :: bool
  tv_progress_names :: "string list"
  tv_overflow_checks :: bool
  tv_elapsed :: "'w \<Rightarrow> 'w \<Rightarrow> u64"

definition risk_of :: "'w turn_env \<Rightarrow> string \<Rightarrow> 'w \<Rightarrow> bool" where
  "risk_of tv name w =
     (case metadata_for (tv_tools tv w) name of None \<Rightarrow> False | Some m \<Rightarrow> tm_read_only m)"

definition call_makes_progress :: "'w turn_env \<Rightarrow> tool_call_block \<Rightarrow> 'w \<Rightarrow> bool" where
  "call_makes_progress tv call w =
     (case metadata_for (tv_tools tv w) (tc_name call) of
        None \<Rightarrow> False
      | Some m \<Rightarrow> \<not> tm_read_only m
          \<and> (tv_progress_names tv = [] \<or> list_ex (\<lambda>c. c = tc_name call) (tv_progress_names tv)))"

definition request_of :: "tool_call_block \<Rightarrow> tool_request" where
  "request_of call = \<lparr> tr_call_id = tc_id call, tr_name = tc_name call, tr_arguments = tc_arguments call \<rparr>"

definition requested_of :: "tool_call_block \<Rightarrow> bool \<Rightarrow> agent_event" where
  "requested_of call read_only =
     ToolRequestedEv \<lparr> trq_call_id = tc_id call, trq_name = tc_name call,
       trq_arguments = tc_arguments call, trq_read_only = read_only \<rparr>"

text \<open>A call that is closed without having been handed to the registry.\<close>

definition unexecuted :: "tool_call_block \<Rightarrow> string \<Rightarrow> executed" where
  "unexecuted call reason =
     \<lparr> ex_request = request_of call, ex_outcome = outcome_failed reason, ex_state = Failed,
       ex_started = False, ex_refusal = Some reason, ex_full_output = None, ex_cancelled = False \<rparr>"

definition result_message :: "tool_result_block \<Rightarrow> message" where
  "result_message block = new_message Tool_Role [ToolResultB block]"

section \<open>The end of a call\<close>

definition outcome_event ::
  "tool_call_block \<Rightarrow> executed \<Rightarrow> u64 \<Rightarrow> bool \<Rightarrow> bool \<Rightarrow> blob_ref option \<Rightarrow> agent_event" where
  "outcome_event call ex duration read_only reduced blob =
     (let text = to_text (ex_outcome ex)
      in case ex_state ex of
           Succeeded \<Rightarrow> ToolCompletedEv
             \<lparr> tcm_call_id = tc_id call, tcm_name = tc_name call, tcm_state = Succeeded,
               tcm_duration_ms = duration, tcm_status = to_status (ex_outcome ex),
               tcm_reduced = reduced, tcm_blob = blob, tcm_visible_bytes = length text \<rparr>
         | Failed \<Rightarrow> ToolFailedEv
             \<lparr> tfl_call_id = tc_id call, tfl_name = tc_name call, tfl_message = text,
               tfl_duration_ms = duration, tfl_status = to_status (ex_outcome ex) \<rparr>
         | _ \<Rightarrow> ToolUnknownEv
             \<lparr> tun_call_id = tc_id call, tun_name = tc_name call,
               tun_why = unwrap_or text (ex_refusal ex), tun_mutating = \<not> read_only \<rparr>)"

definition result_block :: "tool_call_block \<Rightarrow> executed \<Rightarrow> bool \<Rightarrow> tool_result_block" where
  "result_block call ex reduced =
     \<lparr> tb_id = tc_id call, tb_name = tc_name call, tb_state = ex_state ex,
       tb_text = to_text (ex_outcome ex), tb_is_error = to_is_error (ex_outcome ex), tb_reduced = reduced \<rparr>"

text \<open>The full output of a reduced result becomes a blob, and the reduction an event of its own.\<close>

definition keep_full_output ::
  "store_env \<Rightarrow> loop_identity \<Rightarrow> turn_id \<Rightarrow> tool_call_block \<Rightarrow> executed \<Rightarrow> (bool \<times> blob_ref option) live_io" where
  "keep_full_output env li turn call ex lc =
     (case ex_full_output ex of
        None \<Rightarrow> io_return ((to_reduced (ex_outcome ex), None), lc)
      | Some full \<Rightarrow>
          io_bind (trace_put_payload env full) (\<lambda>blob.
          io_bind (turn_emit env li turn (ContextReducedEv
              \<lparr> crd_reason = OversizedToolOutput (length full), crd_original_bytes = length full,
                crd_visible_bytes = length (to_text (ex_outcome ex)), crd_removed_messages = 0,
                crd_retained_messages = 0, crd_blob = Some blob,
                crd_recovery_ref = Some (blob_recovery_ref blob), crd_tool_call_id = Some (tc_id call) \<rparr>)
              None lc) (\<lambda>(_, lc).
            io_return ((True, Some blob), lc))))"

definition record_tool_outcome ::
  "store_env \<Rightarrow> loop_identity \<Rightarrow> turn_id \<Rightarrow> tool_call_block \<Rightarrow> executed \<Rightarrow> u64 \<Rightarrow> bool \<Rightarrow> event_id option
    \<Rightarrow> (tool_result_block \<times> event_seq option) live_io" where
  "record_tool_outcome env li turn call ex duration read_only parent lc =
     io_bind (keep_full_output env li turn call ex lc) (\<lambda>((reduced, blob), lc).
     let block = result_block call ex reduced
     in io_bind (turn_emit_message env li turn (outcome_event call ex duration read_only reduced blob)
                   parent (result_message block) lc) (\<lambda>(e, lc).
          io_return ((block, em_seq (ee_meta e)), lc)))"

section \<open>Closing calls that are not executed\<close>

fun record_unexecuted_calls ::
  "'w turn_env \<Rightarrow> turn_id \<Rightarrow> event_id \<Rightarrow> string \<Rightarrow> bool \<Rightarrow> tool_call_block list
    \<Rightarrow> live_context \<Rightarrow> 'w \<Rightarrow> (live_context \<times> 'w) io" where
  "record_unexecuted_calls tv turn assistant reason in_context [] lc w = io_return (lc, w)"
| "record_unexecuted_calls tv turn assistant reason in_context (call # calls) lc w =
     (let env = tv_store tv; li = tv_identity tv; read_only = risk_of tv (tc_name call) w;
          w = sf_requested (tv_surface tv) call w;
          ended = ToolFailedEv \<lparr> tfl_call_id = tc_id call, tfl_name = tc_name call, tfl_message = reason,
            tfl_duration_ms = 0, tfl_status = None \<rparr>;
          m = result_message (to_block (tc_id call) (tc_name call) (outcome_failed reason))
      in io_bind (turn_emit env li turn (requested_of call read_only) (Some assistant) lc) (\<lambda>(r, lc).
         let parent = Some (em_event_id (ee_meta r))
         in io_bind
              (if in_context
               then io_bind (turn_emit_message env li turn ended parent m lc) (\<lambda>(e, lc).
                      io_return (push_message m (em_seq (ee_meta e)) lc))
               else io_bind (turn_emit_without_message env li turn ended parent lc) (\<lambda>(_, lc).
                      io_return lc)) (\<lambda>lc.
            record_unexecuted_calls tv turn assistant reason in_context calls lc
              (sf_finished (tv_surface tv) call (unexecuted call reason) w))))"

section \<open>Handing a call to the registry\<close>

text \<open>A tool of the outer world, beside which the record of its start is kept.\<close>

definition lift_tool :: "'w tool \<Rightarrow> ('w \<times> 's) tool" where
  "lift_tool t =
     \<lparr> t_metadata = t_metadata t, t_schema = t_schema t,
       t_preflight = (\<lambda>r s. t_preflight t r (fst s)),
       t_execute = (\<lambda>r s. let (res, w) = t_execute t r (fst s) in (res, (w, snd s))),
       t_reconcile = (\<lambda>r s. t_reconcile t r (fst s)) \<rparr>"

definition lift_registered :: "'w registered_tool \<Rightarrow> ('w \<times> 's) registered_tool" where
  "lift_registered r =
     \<lparr> rt_tool = lift_tool (rt_tool r), rt_metadata = rt_metadata r, rt_schema = rt_schema r,
       rt_sampling = rt_sampling r \<rparr>"

definition lift_registry :: "'w registry \<Rightarrow> ('w \<times> 's) registry" where
  "lift_registry reg =
     \<lparr> reg_max_output_bytes = reg_max_output_bytes reg,
       reg_tools = map (\<lambda>(n, t). (n, lift_registered t)) (reg_tools reg),
       reg_allow = reg_allow reg, reg_deny = reg_deny reg,
       reg_default_gate = reg_default_gate reg,
       reg_configuration_error = reg_configuration_error reg \<rparr>"

record start_log =
  sl_trace :: store_trace
  sl_writes :: "disk_write list"
  sl_event :: "event_id option"
  sl_error :: "store_error option"

text \<open>The start observer: it writes the event through the trace, not through the loop's list.\<close>

definition record_start ::
  "'w turn_env \<Rightarrow> turn_id \<Rightarrow> tool_call_block \<Rightarrow> event_id \<Rightarrow> durable \<Rightarrow> 'w \<times> start_log
    \<Rightarrow> string option \<times> 'w \<times> start_log" where
  "record_start tv turn call parent d s =
     (case trace_emit (tv_store tv)
             (turn_envelope (tv_store tv) (tv_identity tv) turn
                (ToolStartedEv \<lparr> tst_call_id = tc_id call, tst_name = tc_name call \<rparr>) (Some parent) d)
             (sl_trace (snd s)) d of
        (ws, Inl e) \<Rightarrow>
          (Some ''the start of a tool call could not be recorded'',
           fst s, (snd s)\<lparr>sl_writes := ws, sl_error := Some e\<rparr>)
      | (ws, Inr (e, st)) \<Rightarrow>
          (None, fst s,
           (snd s)\<lparr>sl_trace := st, sl_writes := ws, sl_event := Some (em_event_id (ee_meta e))\<rparr>))"

definition dispatch_call ::
  "'w turn_env \<Rightarrow> turn_id \<Rightarrow> tool_call_block \<Rightarrow> event_id \<Rightarrow> approval \<Rightarrow> live_context \<Rightarrow> 'w
    \<Rightarrow> (executed \<times> event_id option \<times> live_context \<times> 'w) io" where
  "dispatch_call tv turn call parent answer lc w d =
     (let env = \<lparr> de_overflow_checks = tv_overflow_checks tv,
            de_cancelled = (\<lambda>s. tv_cancelled tv (fst s)), de_expired = (\<lambda>s. tv_expired tv (fst s)),
            de_on_started = record_start tv turn call parent d \<rparr>;
          s0 = (w, \<lparr> sl_trace = lc_trace lc, sl_writes = [], sl_event = None, sl_error = None \<rparr>)
      in case dispatch env (lift_registry (tv_tools tv w)) (request_of call) (\<lambda>_ _ s. (answer, s)) s0 of
           (Inl (SinkError _), (w', s)) \<Rightarrow> (sl_writes s, Inl (unwrap_or LineTooLong (sl_error s)))
         | (Inl (Panicked p), (w', s)) \<Rightarrow> (sl_writes s, Inl (ToolPanicked p))
         | (Inr ex, (w', s)) \<Rightarrow> (sl_writes s, Inr (ex, sl_event s, lc\<lparr>lc_trace := sl_trace s\<rparr>, w')))"

definition approval_for :: "'w turn_env \<Rightarrow> tool_metadata option \<Rightarrow> tool_call_block \<Rightarrow> 'w \<Rightarrow> approval \<times> 'w" where
  "approval_for tv metadata call w =
     (case metadata of
        None \<Rightarrow> (Allow, w)
      | Some m \<Rightarrow>
         (if tm_read_only m then (Allow, w)
          else if auto_approves_mutating (tv_tools tv w) then (Allow, w)
          else if tv_can_ask tv then sf_approve (tv_surface tv) m (tc_arguments call) w
          else (Deny ''approval is required for this mutating tool, but this surface cannot ask; nothing was changed'', w)))"

text \<open>A call whose cancellation the registry saw before it started is closed as failed.\<close>

definition close_unstarted :: "executed \<Rightarrow> executed" where
  "close_unstarted ex =
     (if ex_state ex = Requested \<and> \<not> ex_started ex
      then ex\<lparr>ex_state := Failed, ex_outcome := (ex_outcome ex)\<lparr>to_state := Failed, to_is_error := True\<rparr>\<rparr>
      else ex)"

section \<open>The calls of a response\<close>

definition invalid_call :: "string \<Rightarrow> string" where
  "invalid_call why =
     ''The tool call was not run because its model-generated request was invalid: '' @ why
     @ ''. Send a corrected tool call with complete JSON object arguments.''"

definition execute_call ::
  "'w turn_env \<Rightarrow> turn_id \<Rightarrow> event_id \<Rightarrow> (string \<rightharpoonup> string) \<Rightarrow> tool_call_block
    \<Rightarrow> live_context \<Rightarrow> 'w \<Rightarrow> (bool \<times> live_context \<times> 'w) io" where
  "execute_call tv turn assistant rejected call lc w =
     (let env = tv_store tv; li = tv_identity tv;
          metadata = metadata_for (tv_tools tv w) (tc_name call);
          read_only = (case metadata of None \<Rightarrow> False | Some m \<Rightarrow> tm_read_only m);
          w = sf_requested (tv_surface tv) call w
      in io_bind (turn_emit env li turn (requested_of call read_only) (Some assistant) lc) (\<lambda>(r, lc).
         let request_event = em_event_id (ee_meta r)
         in case rejected (tc_id call) of
              Some why \<Rightarrow>
                (let ex = unexecuted call (invalid_call why)
                 in io_bind (record_tool_outcome env li turn call ex 0 read_only (Some request_event) lc)
                      (\<lambda>((block, s), lc).
                      io_return (False, push_message (result_message block) s lc,
                        sf_finished (tv_surface tv) call ex w)))
            | None \<Rightarrow>
                (let (answer, w1) = approval_for tv metadata call w
                 in io_bind (dispatch_call tv turn call request_event answer lc w1) (\<lambda>(ex, started, lc, w2).
                    let ex = close_unstarted ex
                    in io_bind (record_tool_outcome env li turn call ex (tv_elapsed tv w1 w2) read_only
                                  (or_else started (Some request_event)) lc) (\<lambda>((block, s), lc).
                       io_return (call_makes_progress tv call w2 \<and> ex_state ex = Succeeded,
                         push_message (result_message block) s lc,
                         sf_finished (tv_surface tv) call ex w2))))))"

fun execute_calls ::
  "'w turn_env \<Rightarrow> turn_id \<Rightarrow> event_id \<Rightarrow> (string \<rightharpoonup> string) \<Rightarrow> tool_call_block list \<Rightarrow> bool
    \<Rightarrow> live_context \<Rightarrow> 'w \<Rightarrow> (bool \<times> live_context \<times> 'w) io" where
  "execute_calls tv turn assistant rejected [] succeeded lc w = io_return (succeeded, lc, w)"
| "execute_calls tv turn assistant rejected (call # calls) succeeded lc w =
     (if tv_cancelled tv w
      then io_bind (record_unexecuted_calls tv turn assistant ''not executed: the turn was cancelled'' True
                      (call # calls) lc w) (\<lambda>(lc, w). io_return (succeeded, lc, w))
      else io_bind (execute_call tv turn assistant rejected call lc w) (\<lambda>(ok, lc, w).
             execute_calls tv turn assistant rejected calls (succeeded \<or> ok) lc w))"

end
