(* ===== verification/Turn_Lifecycles.thy ===== *)
theory Turn_Lifecycles
  imports Crash_Logic Turn_Tools
begin

text \<open>
  The contract between the turn loop, which writes the trace, and the store, which validates it on
  the next start: whatever a batch of tool calls does and wherever it is cut off, the lifecycle scan
  accepts the trace, at most the call in hand is open, and after the batch none is. The window
  receives one result per call, in order.
\<close>

section \<open>Lines and the scan\<close>

text \<open>The part of an event that the lifecycle of a call is made of: free text and arguments are not.\<close>

fun call_edge :: "agent_event \<Rightarrow> agent_event option" where
  "call_edge (ToolRequestedEv r) = Some (ToolRequestedEv (r\<lparr>trq_arguments := JNull\<rparr>))"
| "call_edge (ToolStartedEv s) = Some (ToolStartedEv s)"
| "call_edge (ToolCompletedEv c) = Some (ToolCompletedEv c)"
| "call_edge (ToolFailedEv f) = Some (ToolFailedEv (f\<lparr>tfl_message := []\<rparr>))"
| "call_edge (ToolUnknownEv u) = Some (ToolUnknownEv (u\<lparr>tun_why := []\<rparr>))"
| "call_edge _ = None"

text \<open>Redaction and the externalization of long fields change neither the metadata nor that part.\<close>

definition records_calls :: "store_env \<Rightarrow> bool" where
  "records_calls env \<longleftrightarrow>
     (\<forall>e l. sv_line env e = Some l \<longrightarrow>
        entry_meta l = entry_meta e \<and> call_edge (entry_event l) = call_edge (entry_event e))"

lemma blanked:
  "r\<lparr>trq_arguments := a\<rparr> = r'\<lparr>trq_arguments := a\<rparr> \<Longrightarrow>
     trq_call_id r = trq_call_id r' \<and> trq_name r = trq_name r' \<and> trq_read_only r = trq_read_only r'"
  "f\<lparr>tfl_message := b\<rparr> = f'\<lparr>tfl_message := b\<rparr> \<Longrightarrow> tfl_call_id f = tfl_call_id f' \<and> tfl_name f = tfl_name f'"
  "u\<lparr>tun_why := b\<rparr> = u'\<lparr>tun_why := b\<rparr> \<Longrightarrow>
     tun_call_id u = tun_call_id u' \<and> tun_name u = tun_name u' \<and> tun_mutating u = tun_mutating u'"
proof -
  show "r\<lparr>trq_arguments := a\<rparr> = r'\<lparr>trq_arguments := a\<rparr> \<Longrightarrow>
     trq_call_id r = trq_call_id r' \<and> trq_name r = trq_name r' \<and> trq_read_only r = trq_read_only r'"
    by (cases r, cases r') simp
  show "f\<lparr>tfl_message := b\<rparr> = f'\<lparr>tfl_message := b\<rparr> \<Longrightarrow> tfl_call_id f = tfl_call_id f' \<and> tfl_name f = tfl_name f'"
    by (cases f, cases f') simp
  show "u\<lparr>tun_why := b\<rparr> = u'\<lparr>tun_why := b\<rparr> \<Longrightarrow>
     tun_call_id u = tun_call_id u' \<and> tun_name u = tun_name u' \<and> tun_mutating u = tun_mutating u'"
    by (cases u, cases u') simp
qed

lemma call_edge_requested:
  assumes "call_edge x = call_edge (ToolRequestedEv r)"
  obtains r' where "x = ToolRequestedEv r'" "trq_call_id r' = trq_call_id r" "trq_name r' = trq_name r"
    "trq_read_only r' = trq_read_only r"
  using assms by (cases x) (auto dest!: blanked(1))

lemma call_edge_started: "call_edge x = call_edge (ToolStartedEv s) \<Longrightarrow> x = ToolStartedEv s"
  by (cases x) simp_all

lemma call_edge_completed: "call_edge x = call_edge (ToolCompletedEv c) \<Longrightarrow> x = ToolCompletedEv c"
  by (cases x) simp_all

lemma call_edge_failed:
  assumes "call_edge x = call_edge (ToolFailedEv f)"
  obtains f' where "x = ToolFailedEv f'" "tfl_call_id f' = tfl_call_id f" "tfl_name f' = tfl_name f"
  using assms by (cases x) (auto dest!: blanked(2))

lemma call_edge_unknown:
  assumes "call_edge x = call_edge (ToolUnknownEv u)"
  obtains u' where "x = ToolUnknownEv u'" "tun_call_id u' = tun_call_id u" "tun_name u' = tun_name u"
    "tun_mutating u' = tun_mutating u"
  using assms by (cases x) (auto dest!: blanked(3))

lemma scan_inert: "call_edge (entry_event l) = None \<Longrightarrow> scan_entry l s = Inr s"
  by (cases "entry_event l") (simp_all add: scan_entry_def)

text \<open>No call open; the call in hand open, with its start if there is one; at most one open.\<close>

definition scans_to :: "trace_entry list \<Rightarrow> pending_table \<Rightarrow> bool" where
  "scans_to t p \<longleftrightarrow> (\<exists>ordered. fold_res scan_entry t ([], []) = Inr (p, ordered))"

definition no_call_open :: "trace_entry list \<Rightarrow> bool" where
  "no_call_open t \<longleftrightarrow> scans_to t []"

definition at_most_one_open :: "trace_entry list \<Rightarrow> bool" where
  "at_most_one_open t \<longleftrightarrow> (\<exists>p. scans_to t p \<and> length p \<le> 1)"

definition requests :: "loop_identity \<Rightarrow> turn_id \<Rightarrow> tool_call_block \<Rightarrow> bool \<Rightarrow> trace_entry \<Rightarrow> bool" where
  "requests li turn call read_only q \<longleftrightarrow>
     (\<exists>r. entry_event q = ToolRequestedEv r \<and> trq_call_id r = tc_id call \<and> trq_name r = tc_name call
        \<and> trq_read_only r = read_only)
     \<and> entry_turn q = Some turn \<and> em_model_epoch (entry_meta q) = Some (li_model_epoch li)
     \<and> em_model (entry_meta q) = Some (li_model li)"

definition in_hand ::
  "loop_identity \<Rightarrow> turn_id \<Rightarrow> tool_call_block \<Rightarrow> bool \<Rightarrow> event_id \<Rightarrow> event_id option \<Rightarrow> trace_entry list \<Rightarrow> bool" where
  "in_hand li turn call read_only i started t \<longleftrightarrow>
     (\<exists>q. scans_to t [(i, \<lparr> pt_request = q, pt_started = (started \<noteq> None), pt_started_event_id = started \<rparr>)]
        \<and> entry_id q = i \<and> requests li turn call read_only q)"

lemma open_counts:
  "no_call_open t \<Longrightarrow> at_most_one_open t"
  "in_hand li turn call ro i started t \<Longrightarrow> at_most_one_open t"
  unfolding no_call_open_def at_most_one_open_def in_hand_def by force+

lemma scans_to_snoc:
  "scans_to t p \<Longrightarrow> (\<And>ordered. \<exists>ordered'. scan_entry l (p, ordered) = Inr (p', ordered')) \<Longrightarrow> scans_to (t @ [l]) p'"
  unfolding scans_to_def by (fastforce simp: fold_res_append)

lemma inert_line:
  assumes "call_edge (entry_event l) = None"
  shows "no_call_open t \<Longrightarrow> no_call_open (t @ [l])"
    and "in_hand li turn call ro i started t \<Longrightarrow> in_hand li turn call ro i started (t @ [l])"
  using scans_to_snoc [where l = l] scan_inert [OF assms]
  by (auto simp: no_call_open_def in_hand_def)

text \<open>The metadata of the events of a turn.\<close>

definition of_turn :: "loop_identity \<Rightarrow> turn_id \<Rightarrow> event_id option \<Rightarrow> event_meta \<Rightarrow> bool" where
  "of_turn li turn parent m \<longleftrightarrow>
     em_turn_id m = Some turn \<and> em_model_epoch m = Some (li_model_epoch li)
     \<and> em_model m = Some (li_model li) \<and> em_parent_event_id m = parent \<and> em_tool_call_id m = None"

lemma turn_line:
  assumes "records_calls env" "line_of env (turn_envelope env li turn event parent d) l"
  shows "of_turn li turn parent (entry_meta l)" "call_edge (entry_event l) = call_edge event"
    "entry_id l = em_event_id (ee_meta (turn_envelope env li turn event parent d))"
proof -
  let ?e = "turn_envelope env li turn event parent d"
  obtain s where s: "sv_line env (plain_entry (with_seq s ?e)) = Some l"
    using assms(2) by (auto simp: line_of_def)
  then have "entry_meta l = (ee_meta ?e)\<lparr>em_seq := Some s\<rparr>" "call_edge (entry_event l) = call_edge (ee_event ?e)"
    using assms(1) unfolding records_calls_def by (simp_all add: plain_entry_def with_seq_def)
  then show "of_turn li turn parent (entry_meta l)" "call_edge (entry_event l) = call_edge event"
    "entry_id l = em_event_id (ee_meta ?e)"
    by (simp_all add: of_turn_def turn_envelope_def parented_def loop_envelope_def new_envelope_def
        new_meta_def case_prod_beta)
qed

section \<open>The steps of a call\<close>

lemma request_line:
  assumes "no_call_open t" "tc_id call \<noteq> []" "of_turn li turn parent (entry_meta l)"
    and "call_edge (entry_event l) = call_edge (requested_of call ro)"
  shows "in_hand li turn call ro (entry_id l) None (t @ [l])"
proof -
  obtain r where r: "entry_event l = ToolRequestedEv r" "trq_call_id r = tc_id call"
    "trq_name r = tc_name call" "trq_read_only r = ro"
    by (rule call_edge_requested [OF assms(4) [unfolded requested_of_def]]) simp
  have "scans_to (t @ [l]) [(entry_id l, \<lparr> pt_request = l, pt_started = False, pt_started_event_id = None \<rparr>)]"
    using assms(1) unfolding no_call_open_def
    by (rule scans_to_snoc)
      (use assms(2,3) r in \<open>simp add: scan_entry_def scan_requested_def Let_def of_turn_def call_metadata_matches_def\<close>)
  then show ?thesis
    using assms(3) r by (auto simp: in_hand_def requests_def of_turn_def)
qed

lemma in_hand_agrees:
  assumes "requests li turn call ro q" "of_turn li turn parent (entry_meta l)"
    and "entry_event q = ToolRequestedEv r"
  shows "agrees_with_request l (tc_id call) (tc_name call) q r" "trq_read_only r = ro"
  using assms by (auto simp: agrees_with_request_def requests_def of_turn_def call_metadata_matches_def)

lemma in_hand_resolves:
  assumes "em_parent_event_id (entry_meta l) = or_else started (Some i)"
    and "entry_event (pt_request c) = ToolRequestedEv r" "pt_started_event_id c = started"
  shows "resolved_call [(i, c)] l call_id = Inr (i, c, r)"
  using assms by (cases started) (auto simp: resolved_call_def resolve_pending_tool_def)

lemma start_line:
  assumes "in_hand li turn call ro i None t" "of_turn li turn (Some i) (entry_meta l)"
    and "call_edge (entry_event l) = call_edge (ToolStartedEv \<lparr> tst_call_id = tc_id call, tst_name = tc_name call \<rparr>)"
  shows "in_hand li turn call ro i (Some (entry_id l)) (t @ [l])"
proof -
  obtain q where q: "scans_to t [(i, \<lparr> pt_request = q, pt_started = False, pt_started_event_id = None \<rparr>)]"
    "entry_id q = i" "requests li turn call ro q"
    using assms(1) by (auto simp: in_hand_def)
  obtain r where r: "entry_event q = ToolRequestedEv r"
    using q(3) by (auto simp: requests_def)
  note ev = call_edge_started [OF assms(3)]
  have "em_parent_event_id (entry_meta l) = or_else None (Some i)"
    using assms(2) by (simp add: of_turn_def)
  from in_hand_resolves [OF this, of "\<lparr> pt_request = q, pt_started = False, pt_started_event_id = None \<rparr>" r "tc_id call"] r
  have res: "resolved_call [(i, \<lparr> pt_request = q, pt_started = False, pt_started_event_id = None \<rparr>)] l (tc_id call)
      = Inr (i, \<lparr> pt_request = q, pt_started = False, pt_started_event_id = None \<rparr>, r)"
    by simp
  have "scans_to (t @ [l]) [(i, \<lparr> pt_request = q, pt_started = True, pt_started_event_id = Some (entry_id l) \<rparr>)]"
    by (rule scans_to_snoc [OF q(1)])
      (use ev assms(2) in_hand_agrees(1) [OF q(3) assms(2) r] in
        \<open>simp add: scan_entry_def scan_started_def res bt_update_def of_turn_def\<close>)
  then show ?thesis
    using q by (auto simp: in_hand_def)
qed

lemma end_line:
  assumes "in_hand li turn call ro i started t" "of_turn li turn (or_else started (Some i)) (entry_meta l)"
    and "call_edge (entry_event l) = call_edge (outcome_event call ex duration ro reduced blob)"
    and "ex_state ex = Succeeded \<Longrightarrow> started \<noteq> None"
  shows "no_call_open (t @ [l])"
proof -
  define c where "c q = \<lparr> pt_request = q, pt_started = (started \<noteq> None), pt_started_event_id = started \<rparr>" for q
  obtain q where q: "scans_to t [(i, c q)]" "requests li turn call ro q"
    using assms(1) by (auto simp: in_hand_def c_def)
  obtain r where r: "entry_event q = ToolRequestedEv r"
    using q(2) by (auto simp: requests_def)
  note agrees = in_hand_agrees [OF q(2) assms(2) r]
  have "em_parent_event_id (entry_meta l) = or_else started (Some i)"
    using assms(2) by (simp add: of_turn_def)
  from in_hand_resolves [OF this, of "c q" r "tc_id call"] r
  have res: "resolved_call [(i, c q)] l (tc_id call) = Inr (i, c q, r)"
    by (simp add: c_def)
  have gone: "bt_remove i [(i, c q)] = []"
    by (simp add: bt_remove_def)
  have unknown: "scan_entry l ([(i, c q)], ordered) = Inr ([], ordered)"
    if "outcome_event call ex duration ro reduced blob
        = ToolUnknownEv \<lparr> tun_call_id = tc_id call, tun_name = tc_name call, tun_why = why, tun_mutating = \<not> ro \<rparr>"
    for ordered why
    by (rule call_edge_unknown [OF assms(3) [unfolded that]])
      (use agrees res gone in \<open>simp add: scan_entry_def scan_unknown_def c_def\<close>)
  have "scan_entry l ([(i, c q)], ordered) = Inr ([], ordered)" for ordered
  proof (cases "ex_state ex")
    case Succeeded
    then obtain k where "entry_event l = ToolCompletedEv k" "tcm_call_id k = tc_id call" "tcm_name k = tc_name call"
      "tcm_state k = Succeeded"
      using assms(3) by (auto simp: outcome_event_def Let_def dest!: call_edge_completed [of "entry_event l", simplified])
    then show ?thesis
      using Succeeded assms(4) agrees res gone by (simp add: scan_entry_def scan_completed_def c_def)
  next
    case Failed
    then have "call_edge (entry_event l) = call_edge (ToolFailedEv \<lparr> tfl_call_id = tc_id call, tfl_name = tc_name call,
        tfl_message = to_text (ex_outcome ex), tfl_duration_ms = duration, tfl_status = to_status (ex_outcome ex) \<rparr>)"
      using assms(3) by (simp add: outcome_event_def Let_def)
    then show ?thesis
      by (rule call_edge_failed) (use agrees res gone in \<open>simp add: scan_entry_def scan_failed_def c_def\<close>)
  qed (rule unknown, simp add: outcome_event_def Let_def)+
  then have "scans_to (t @ [l]) []"
    by (intro scans_to_snoc [OF q(1)]) auto
  then show ?thesis
    by (simp add: no_call_open_def)
qed

section \<open>Triples for the emissions of a turn\<close>

definition next_line :: "loop_identity \<Rightarrow> turn_id \<Rightarrow> event_id option \<Rightarrow> agent_event \<Rightarrow> trace_entry \<Rightarrow> bool" where
  "next_line li turn parent event l \<longleftrightarrow>
     of_turn li turn parent (entry_meta l) \<and> call_edge (entry_event l) = call_edge event"

definition adds_line ::
  "loop_identity \<Rightarrow> turn_id \<Rightarrow> event_id option \<Rightarrow> agent_event \<Rightarrow> durable \<Rightarrow> event_envelope \<Rightarrow> durable \<Rightarrow> bool" where
  "adds_line li turn parent event d e d' \<longleftrightarrow>
     (\<exists>l. next_line li turn parent event l \<and> entry_id l = em_event_id (ee_meta e) \<and> du_trace d' = du_trace d @ [l])"

lemma guarded_value:
  "guarded I m d Q \<Longrightarrow> (\<And>ws a. m d = (ws, Inr a) \<Longrightarrow> R a) \<Longrightarrow> guarded I m d (\<lambda>a d'. Q a d' \<and> R a)"
  by (auto simp: guarded_def)

lemma guarded_cong: "m d = m' d \<Longrightarrow> guarded I m d Q \<longleftrightarrow> guarded I m' d Q"
  by (simp add: guarded_def crash_states_def)

lemma guarded_read: "guarded I (io_bind io_get f) d Q \<longleftrightarrow> guarded I (f d) d Q"
  by (rule guarded_cong) simp

lemma guarded_bind_pair:
  "guarded I m d (\<lambda>(x, y). Q x y) \<Longrightarrow> (\<And>x y d'. Q x y d' \<Longrightarrow> guarded I (f x y) d' P) \<Longrightarrow>
     guarded I (io_bind m (\<lambda>(x, y). f x y)) d P"
  by (erule guarded_bind) auto

lemma guarded_bind_nested:
  "guarded I m d (\<lambda>((x, z), y). Q x z y) \<Longrightarrow> (\<And>x z y d'. Q x z y d' \<Longrightarrow> guarded I (f x z y) d' P) \<Longrightarrow>
     guarded I (io_bind m (\<lambda>((x, z), y). f x z y)) d P"
  by (erule guarded_bind) auto

lemma turn_guarded:
  assumes env: "records_calls env" and m: "traced env (turn_envelope env li turn event parent d) m"
    and result: "\<And>ws a. m d = (ws, Inr a) \<Longrightarrow>
        em_event_id (ee_meta (f a)) = em_event_id (ee_meta (turn_envelope env li turn event parent d)) \<and> R a"
    and J: "J (du_trace d)" "\<And>l. next_line li turn parent event l \<Longrightarrow> J (du_trace d @ [l])"
  shows "guarded (on_trace J) m d (\<lambda>a d'. adds_line li turn parent event d (f a) d' \<and> R a)"
proof -
  let ?e = "turn_envelope env li turn event parent d"
  have lines: "next_line li turn parent event l \<and> entry_id l = em_event_id (ee_meta ?e)" if "line_of env ?e l" for l
    using turn_line [OF env that] by (simp add: next_line_def)
  then have "admits env J ?e d"
    using J by (simp add: admits_def)
  from guarded_value [OF tracedD [OF m this] result] show ?thesis
    by (rule guarded_weaken) (use lines in \<open>auto simp: adds_line_def\<close>)
qed

lemma turn_envelope_seq: "em_seq (ee_meta (turn_envelope env li turn event parent d)) = None"
  by (simp add: turn_envelope_def parented_def loop_envelope_def new_envelope_def new_meta_def case_prod_beta)

lemma with_seq_id: "em_event_id (ee_meta (with_seq s e)) = em_event_id (ee_meta e)"
  by (simp add: with_seq_def)

lemma turn_emit_guarded:
  assumes "records_calls env" "J (du_trace d)" "\<And>l. next_line li turn parent event l \<Longrightarrow> J (du_trace d @ [l])"
  shows "guarded (on_trace J) (turn_emit env li turn event parent lc) d
    (\<lambda>(e, lc') d'. adds_line li turn parent event d e d' \<and> lc_messages lc' = lc_messages lc)"
proof -
  let ?e = "turn_envelope env li turn event parent d"
  define m where "m = io_bind (trace_emit env ?e (lc_trace lc)) (\<lambda>(e, st). io_return (e, note_envelope e st lc))"
  have "traced env ?e m"
    unfolding m_def by (rule traced_before [OF traced_trace_emit]) (simp add: case_prod_beta)
  moreover have "em_event_id (ee_meta (fst a)) = em_event_id (ee_meta ?e) \<and> lc_messages (snd a) = lc_messages lc"
    if "m d = (ws, Inr a)" for ws a
    using that unfolding m_def
    by (auto elim!: io_bind_success dest!: trace_emit_effect simp: note_envelope_def with_seq_id)
  ultimately have "guarded (on_trace J) m d
      (\<lambda>a d'. adds_line li turn parent event d (fst a) d' \<and> lc_messages (snd a) = lc_messages lc)"
    by (rule turn_guarded [OF assms(1) _ _ assms(2,3)])
  then show ?thesis
    by (simp add: turn_emit_def guarded_read m_def case_prod_beta')
qed

lemma turn_emit_message_guarded:
  assumes "records_calls env" "J (du_trace d)" "\<And>l. next_line li turn parent event l \<Longrightarrow> J (du_trace d @ [l])"
  shows "guarded (on_trace J) (turn_emit_message env li turn event parent msg lc) d
    (\<lambda>(e, lc') d'. adds_line li turn parent event d e d' \<and> lc_messages lc' = lc_messages lc)"
proof -
  let ?e = "turn_envelope env li turn event parent d"
  define m where "m = io_bind (trace_emit_message env ?e msg (lc_trace lc)) (\<lambda>(e, st). io_return (e, note_envelope e st lc))"
  have "traced env ?e m"
    unfolding m_def by (rule traced_before [OF traced_emit_message [OF turn_envelope_seq]]) (simp add: case_prod_beta)
  moreover have "em_event_id (ee_meta (fst a)) = em_event_id (ee_meta ?e) \<and> lc_messages (snd a) = lc_messages lc"
    if "m d = (ws, Inr a)" for ws a
    using that unfolding m_def
    by (auto elim!: io_bind_success dest!: trace_emit_message_effect [OF _ turn_envelope_seq]
        simp: note_envelope_def with_seq_id)
  ultimately have "guarded (on_trace J) m d
      (\<lambda>a d'. adds_line li turn parent event d (fst a) d' \<and> lc_messages (snd a) = lc_messages lc)"
    by (rule turn_guarded [OF assms(1) _ _ assms(2,3)])
  then show ?thesis
    by (simp add: turn_emit_message_def guarded_read m_def case_prod_beta')
qed

lemma turn_emit_without_message_guarded:
  assumes "records_calls env" "J (du_trace d)" "\<And>l. next_line li turn parent event l \<Longrightarrow> J (du_trace d @ [l])"
  shows "guarded (on_trace J) (turn_emit_without_message env li turn event parent lc) d
    (\<lambda>(e, lc') d'. adds_line li turn parent event d e d' \<and> lc_messages lc' = lc_messages lc)"
proof -
  let ?e = "turn_envelope env li turn event parent d"
  define m where "m = io_bind (session_emit env ?e) (\<lambda>e. io_return (e, note_envelope e (lc_trace lc) lc))"
  have "traced env ?e m"
    unfolding m_def by (rule traced_before [OF traced_session_emit]) simp
  moreover have "em_event_id (ee_meta (fst a)) = em_event_id (ee_meta ?e) \<and> lc_messages (snd a) = lc_messages lc"
    if "m d = (ws, Inr a)" for ws a
    using that unfolding m_def
    by (auto elim!: io_bind_success dest!: session_emit_effect simp: note_envelope_def with_seq_id)
  ultimately have "guarded (on_trace J) m d
      (\<lambda>a d'. adds_line li turn parent event d (fst a) d' \<and> lc_messages (snd a) = lc_messages lc)"
    by (rule turn_guarded [OF assms(1) _ _ assms(2,3)])
  then show ?thesis
    by (simp add: turn_emit_without_message_def guarded_read m_def case_prod_beta')
qed

section \<open>Triples for a call\<close>

lemma request_guarded:
  assumes "records_calls env" "no_call_open (du_trace d)" "tc_id call \<noteq> []"
  shows "guarded (on_trace at_most_one_open) (turn_emit env li turn (requested_of call ro) parent lc) d
    (\<lambda>(e, lc') d'. in_hand li turn call ro (em_event_id (ee_meta e)) None (du_trace d') \<and> lc_messages lc' = lc_messages lc)"
proof -
  have line: "in_hand li turn call ro (entry_id l) None (du_trace d @ [l])"
    if "next_line li turn parent (requested_of call ro) l" for l
    using request_line [OF assms(2,3)] that by (auto simp: next_line_def)
  show ?thesis
    by (rule guarded_weaken [OF turn_emit_guarded [OF assms(1)]])
      (use open_counts(2) [OF line] open_counts(1) [OF assms(2)] in \<open>auto simp: adds_line_def dest: line\<close>)
qed

lemma keep_full_output_guarded:
  assumes "records_calls env" "in_hand li turn call ro i started (du_trace d)"
  shows "guarded (on_trace at_most_one_open) (keep_full_output env li turn call ex lc) d
    (\<lambda>(_, lc') d'. in_hand li turn call ro i started (du_trace d') \<and> lc_messages lc' = lc_messages lc)"
proof (cases "ex_full_output ex")
  case None
  then show ?thesis
    using assms(2) open_counts(2) by (simp add: keep_full_output_def on_trace_def)
next
  case (Some full)
  have AMO: "on_trace at_most_one_open d"
    using assms(2) open_counts(2) by (simp add: on_trace_def)
  show ?thesis
    unfolding keep_full_output_def Some option.case
  proof (rule guarded_bind [OF guarded_untraced [OF untraced_payload AMO]])
    fix blob and d' :: durable
    assume same: "du_trace d' = du_trace d"
    define event where "event = ContextReducedEv
              \<lparr> crd_reason = OversizedToolOutput (length full), crd_original_bytes = length full,
                crd_visible_bytes = length (to_text (ex_outcome ex)), crd_removed_messages = 0,
                crd_retained_messages = 0, crd_blob = Some blob,
                crd_recovery_ref = Some (blob_recovery_ref blob), crd_tool_call_id = Some (tc_id call) \<rparr>"
    have line: "in_hand li turn call ro i started (du_trace d' @ [l])" if "next_line li turn None event l" for l
      using inert_line(2) that assms(2) by (simp add: next_line_def event_def same)
    note count = open_counts(2) [OF line] open_counts(2) [OF assms(2)]
    have "guarded (on_trace at_most_one_open) (turn_emit env li turn event None lc) d'
      (\<lambda>(e, lc') d''. in_hand li turn call ro i started (du_trace d'') \<and> lc_messages lc' = lc_messages lc)"
      by (rule guarded_weaken [OF turn_emit_guarded [OF assms(1)]])
        (use line count same in \<open>auto simp: adds_line_def\<close>)
    then show "guarded (on_trace at_most_one_open)
        (io_bind (turn_emit env li turn event None lc) (\<lambda>(_, lc). io_return ((True, Some blob), lc))) d'
        (\<lambda>(_, lc') d'. in_hand li turn call ro i started (du_trace d') \<and> lc_messages lc' = lc_messages lc)"
      by (rule guarded_bind) (auto simp: on_trace_def open_counts(2))
  qed
qed

lemma record_tool_outcome_guarded:
  assumes "records_calls env" "in_hand li turn call ro i started (du_trace d)"
    and "ex_state ex = Succeeded \<Longrightarrow> started \<noteq> None"
  shows "guarded (on_trace at_most_one_open)
    (record_tool_outcome env li turn call ex duration ro (or_else started (Some i)) lc) d
    (\<lambda>((block, s), lc') d'. no_call_open (du_trace d') \<and> lc_messages lc' = lc_messages lc
       \<and> tb_id block = tc_id call \<and> tb_name block = tc_name call)"
  unfolding record_tool_outcome_def
proof (rule guarded_bind_nested)
  show "guarded (on_trace at_most_one_open) (keep_full_output env li turn call ex lc) d
    (\<lambda>((_, _), lc') d'. in_hand li turn call ro i started (du_trace d') \<and> lc_messages lc' = lc_messages lc)"
    using keep_full_output_guarded [OF assms(1,2), of ex lc] by (simp add: case_prod_beta')
next
  fix reduced blob and lc1 :: live_context and d' :: durable
  assume a: "in_hand li turn call ro i started (du_trace d') \<and> lc_messages lc1 = lc_messages lc"
  define event where "event = outcome_event call ex duration ro reduced blob"
  define block where "block = result_block call ex reduced"
  define parent where "parent = or_else started (Some i)"
  have hand: "in_hand li turn call ro i started (du_trace d')" and lc1: "lc_messages lc1 = lc_messages lc"
    using a by simp_all
  have line: "no_call_open (du_trace d' @ [l])" if "next_line li turn parent event l" for l
    using end_line [OF hand _ _ assms(3)] that by (simp add: next_line_def event_def parent_def)
  have "guarded (on_trace at_most_one_open) (turn_emit_message env li turn event parent (result_message block) lc1) d'
    (\<lambda>(e, lc') d''. no_call_open (du_trace d'') \<and> lc_messages lc' = lc_messages lc)"
    by (rule guarded_weaken [OF turn_emit_message_guarded [OF assms(1)]])
      (use line open_counts(1) [OF line] open_counts(2) [OF hand] lc1 in \<open>auto simp: adds_line_def\<close>)
  then have "guarded (on_trace at_most_one_open)
      (io_bind (turn_emit_message env li turn event parent (result_message block) lc1)
        (\<lambda>(e, lc). io_return ((block, em_seq (ee_meta e)), lc))) d'
      (\<lambda>((block, s), lc') d'. no_call_open (du_trace d') \<and> lc_messages lc' = lc_messages lc
         \<and> tb_id block = tc_id call \<and> tb_name block = tc_name call)"
    by (rule guarded_bind) (auto simp: on_trace_def open_counts(1) block_def result_block_def)
  then show "guarded (on_trace at_most_one_open)
      (let block = result_block call ex reduced
         in io_bind (turn_emit_message env li turn (outcome_event call ex duration ro reduced blob)
                       (or_else started (Some i)) (result_message block) lc1)
              (\<lambda>(e, lc). io_return ((block, em_seq (ee_meta e)), lc))) d'
      (\<lambda>((block, s), lc') d'. no_call_open (du_trace d') \<and> lc_messages lc' = lc_messages lc
         \<and> tb_id block = tc_id call \<and> tb_name block = tc_name call)"
    by (simp add: Let_def event_def block_def parent_def)
qed

section \<open>The registry in between\<close>

lemma refused_not_succeeded:
  "clear_call reg request gate cancelled w = (Inl ex, w') \<Longrightarrow> ex_state ex \<noteq> Succeeded"
  by (auto simp: clear_call_def refused_def cancelled_before_start_def split: option.splits prod.splits if_splits)

text \<open>A lifted tool cannot touch the record of its start.\<close>

lemma lifted_execute:
  "map_of (reg_tools (lift_registry reg)) n = Some t \<Longrightarrow> snd (snd (t_execute (rt_tool t) r s)) = snd s"
  by (auto simp: lift_registry_def map_of_map lift_registered_def lift_tool_def case_prod_beta Let_def)

lemma dispatch_call_cases:
  defines "start tv turn call i d \<equiv> turn_envelope (tv_store tv) (tv_identity tv) turn
    (ToolStartedEv \<lparr> tst_call_id = tc_id call, tst_name = tc_name call \<rparr>) (Some i) d"
  assumes run: "dispatch_call tv turn call i answer lc w d = (ws, r)"
  shows "(ws = [] \<and> (\<exists>x. r = Inr x) \<and> (\<forall>ex started lc' w'. r = Inr (ex, started, lc', w') \<longrightarrow>
        started = None \<and> ex_state ex \<noteq> Succeeded \<and> lc_messages lc' = lc_messages lc))
    \<or> (\<exists>s. trace_emit (tv_store tv) (start tv turn call i d) (lc_trace lc) d = (ws, s)
        \<and> (\<not> tv_overflow_checks tv \<longrightarrow> (\<exists>x. s = Inr x) \<longrightarrow> (\<exists>x. r = Inr x))
        \<and> (\<forall>ex started lc' w'. r = Inr (ex, started, lc', w') \<longrightarrow>
             (\<exists>e st. s = Inr (e, st) \<and> started = Some (em_event_id (ee_meta e)) \<and> lc_messages lc' = lc_messages lc)))"
proof -
  define env where "env = \<lparr> de_overflow_checks = tv_overflow_checks tv,
            de_cancelled = (\<lambda>s. tv_cancelled tv (fst s)), de_expired = (\<lambda>s. tv_expired tv (fst s)),
            de_on_started = record_start tv turn call i d \<rparr>"
  define s0 where "s0 = (w, \<lparr> sl_trace = lc_trace lc, sl_writes = [], sl_event = None, sl_error = None \<rparr>)"
  define gate :: "('a \<times> start_log) gate" where "gate = (\<lambda>_ _ s. (answer, s))"
  define reg :: "('a \<times> start_log) registry" where "reg = lift_registry (tv_tools tv w)"
  obtain c s1 where c: "clear_call reg (request_of call) gate (de_cancelled env) s0 = (c, s1)"
    by (cases "clear_call reg (request_of call) gate (de_cancelled env) s0")
  have s1: "s1 = s0"
    using clear_call_world [OF c] by (auto simp: gate_def)
  have run': "(case dispatch env reg (request_of call) gate s0 of
           (Inl (SinkError _), (w', s)) \<Rightarrow> (sl_writes s, Inl (unwrap_or LineTooLong (sl_error s)))
         | (Inl (Panicked p), (w', s)) \<Rightarrow> (sl_writes s, Inl (ToolPanicked p))
         | (Inr ex, (w', s)) \<Rightarrow> (sl_writes s, Inr (ex, sl_event s, lc\<lparr>lc_trace := sl_trace s\<rparr>, w'))) = (ws, r)"
    using run by (simp add: dispatch_call_def Let_def env_def s0_def gate_def reg_def)
  show ?thesis
  proof (cases c)
    case (Inl ex)
    then have "dispatch env reg (request_of call) gate s0 = (Inr ex, s0)"
      using c s1 by (simp add: dispatch_def)
    then show ?thesis
      using run' refused_not_succeeded [OF c [unfolded Inl]] by (auto simp: s0_def)
  next
    case (Inr tool)
    then have tool: "map_of (reg_tools reg) (tr_name (request_of call)) = Some tool"
      using c cleared_lookup by (auto simp: clear_call_Inr)
    obtain ws1 res where emit: "trace_emit (tv_store tv) (start tv turn call i d) (lc_trace lc) d = (ws1, res)"
      by (cases "trace_emit (tv_store tv) (start tv turn call i d) (lc_trace lc) d")
    show ?thesis
    proof (cases res)
      case (Inl e)
      then have "\<exists>x. de_on_started env s0
          = (Some x, w, \<lparr> sl_trace = lc_trace lc, sl_writes = ws1, sl_event = None, sl_error = Some e \<rparr>)"
        using emit by (simp add: env_def record_start_def s0_def start_def)
      then show ?thesis
        using run' c s1 Inr emit Inl by (auto simp: dispatch_def)
    next
      case (Inr p)
      obtain e st where p: "p = (e, st)"
        by (cases p)
      define s2 where "s2 = \<lparr> sl_trace = st, sl_writes = ws1, sl_event = Some (em_event_id (ee_meta e)),
        sl_error = None \<rparr>"
      have started: "de_on_started env s0 = (None, w, s2)"
        using emit Inr p by (simp add: env_def record_start_def s0_def start_def s2_def)
      obtain res2 w3 where exec: "t_execute (rt_tool tool) (request_of call) (w, s2) = (res2, w3, s2)"
        using lifted_execute [OF tool [unfolded reg_def], of "request_of call" "(w, s2)"]
        by (metis prod.collapse snd_conv)
      have quiet: "\<exists>x. reduce False t n = Inr x" for t n
        by (simp add: reduce_def usize_sub_def Let_def)
      have "\<exists>x. dispatch env reg (request_of call) gate s0 = (x, w3, s2) \<and> (\<forall>m. x \<noteq> Inl (SinkError m))
          \<and> (\<not> tv_overflow_checks tv \<longrightarrow> (\<exists>y. x = Inr y))"
      proof (cases res2)
        case (Inr out)
        then show ?thesis
          using c s1 \<open>c = Inr tool\<close> started exec quiet [of "to_text out" "reg_max_output_bytes reg"]
          by (auto simp: dispatch_def settle_outcome_def Let_def env_def split: sum.split)
      qed (use c s1 \<open>c = Inr tool\<close> started exec in \<open>auto simp: dispatch_def\<close>)
      then show ?thesis
        using run' emit Inr p by (auto simp: s2_def split: sum.splits dispatch_error.splits)
    qed
  qed
qed

lemma dispatch_call_guarded:
  assumes env: "records_calls (tv_store tv)" and hand: "in_hand (tv_identity tv) turn call ro i None (du_trace d)"
  shows "guarded (on_trace at_most_one_open) (dispatch_call tv turn call i answer lc w) d
    (\<lambda>(ex, started, lc', w') d'. in_hand (tv_identity tv) turn call ro i started (du_trace d')
       \<and> (ex_state ex = Succeeded \<longrightarrow> started \<noteq> None) \<and> lc_messages lc' = lc_messages lc)"
proof -
  define start where "start = turn_envelope (tv_store tv) (tv_identity tv) turn
    (ToolStartedEv \<lparr> tst_call_id = tc_id call, tst_name = tc_name call \<rparr>) (Some i) d"
  obtain ws r where run: "dispatch_call tv turn call i answer lc w d = (ws, r)"
    by (cases "dispatch_call tv turn call i answer lc w d")
  have line: "in_hand (tv_identity tv) turn call ro i (Some (em_event_id (ee_meta start))) (du_trace d @ [l])"
    if "line_of (tv_store tv) start l" for l
  proof -
    note l = turn_line [OF env that [unfolded start_def]]
    show ?thesis
      using start_line [OF hand l(1,2)] unfolding l(3) start_def .
  qed
  from dispatch_call_cases [OF run, folded start_def] show ?thesis
  proof
    assume pure: "ws = [] \<and> (\<exists>x. r = Inr x) \<and> (\<forall>ex started lc' w'. r = Inr (ex, started, lc', w') \<longrightarrow>
        started = None \<and> ex_state ex \<noteq> Succeeded \<and> lc_messages lc' = lc_messages lc)"
    have "case a of (ex, started, lc', w') \<Rightarrow> in_hand (tv_identity tv) turn call ro i started (du_trace d)
       \<and> (ex_state ex = Succeeded \<longrightarrow> started \<noteq> None) \<and> lc_messages lc' = lc_messages lc" if "r = Inr a" for a
    proof -
      obtain ex started lc' w' where a: "a = (ex, started, lc', w')"
        by (metis surj_pair)
      then have "started = None" "ex_state ex \<noteq> Succeeded" "lc_messages lc' = lc_messages lc"
        using pure that by blast+
      then show ?thesis
        using hand by (simp add: a)
    qed
    then show ?thesis
      unfolding guarded_alt run fst_conv snd_conv conjunct1 [OF pure]
      by (simp add: on_trace_def open_counts(2) [OF hand] case_prod_beta)
  next
    assume "\<exists>s. trace_emit (tv_store tv) start (lc_trace lc) d = (ws, s)
      \<and> (\<not> tv_overflow_checks tv \<longrightarrow> (\<exists>x. s = Inr x) \<longrightarrow> (\<exists>x. r = Inr x))
      \<and> (\<forall>ex started lc' w'. r = Inr (ex, started, lc', w') \<longrightarrow>
        (\<exists>e st. s = Inr (e, st) \<and> started = Some (em_event_id (ee_meta e)) \<and> lc_messages lc' = lc_messages lc))"
    then obtain s where emit: "trace_emit (tv_store tv) start (lc_trace lc) d = (ws, s)"
      and result: "\<forall>ex started lc' w'. r = Inr (ex, started, lc', w') \<longrightarrow>
        (\<exists>e st. s = Inr (e, st) \<and> started = Some (em_event_id (ee_meta e)) \<and> lc_messages lc' = lc_messages lc)"
      by blast
    have "admits (tv_store tv) at_most_one_open start d"
      using open_counts(2) [OF hand] open_counts(2) [OF line] by (simp add: admits_def)
    then have g: "guarded (on_trace at_most_one_open) (trace_emit (tv_store tv) start (lc_trace lc)) d
        (\<lambda>_ d'. extended (tv_store tv) start d d')"
      by (rule tracedD [OF traced_trace_emit])
    have "in_hand (tv_identity tv) turn call ro i started (du_trace (apply_writes ws d)) \<and> started \<noteq> None
        \<and> lc_messages lc' = lc_messages lc" if r: "r = Inr (ex, started, lc', w')" for ex started lc' w'
    proof -
      obtain e st where e: "s = Inr (e, st)" "started = Some (em_event_id (ee_meta e))" "lc_messages lc' = lc_messages lc"
        using result r by blast
      then have "em_event_id (ee_meta e) = em_event_id (ee_meta start)"
        using trace_emit_effect [OF emit [unfolded e(1)]] by (auto simp: with_seq_id)
      moreover obtain l where "line_of (tv_store tv) start l" "du_trace (apply_writes ws d) = du_trace d @ [l]"
        using g emit e(1) by (auto simp: guarded_alt)
      ultimately show ?thesis
        using line e by simp
    qed
    note after = this
    have "case a of (ex, started, lc', w') \<Rightarrow>
        in_hand (tv_identity tv) turn call ro i started (du_trace (apply_writes ws d))
        \<and> (ex_state ex = Succeeded \<longrightarrow> started \<noteq> None) \<and> lc_messages lc' = lc_messages lc" if "r = Inr a" for a
    proof -
      obtain ex started lc' w' where a: "a = (ex, started, lc', w')"
        by (metis surj_pair)
      show ?thesis
        using after [OF that [unfolded a]] by (simp add: a)
    qed
    moreover have "on_trace at_most_one_open (apply_writes (take k ws) d)" for k
      using g emit by (simp add: guarded_alt)
    ultimately show ?thesis
      unfolding guarded_alt run fst_conv snd_conv by (simp add: case_prod_beta)
  qed
qed

section \<open>Batches of calls\<close>

text \<open>A message of the window that answers a call.\<close>

definition answers :: "tool_call_block \<Rightarrow> message \<Rightarrow> bool" where
  "answers call m \<longleftrightarrow> (\<exists>b. m = result_message b \<and> tb_id b = tc_id call \<and> tb_name b = tc_name call)"

definition answered :: "live_context \<Rightarrow> tool_call_block list \<Rightarrow> live_context \<Rightarrow> bool" where
  "answered lc calls lc' \<longleftrightarrow> (\<exists>ms. lc_messages lc' = lc_messages lc @ ms \<and> list_all2 answers calls ms)"

lemma answered_Nil: "answered lc [] lc' \<longleftrightarrow> lc_messages lc' = lc_messages lc"
  by (simp add: answered_def)

lemma answered_push:
  "lc_messages lc1 = lc_messages lc \<Longrightarrow> tb_id b = tc_id call \<Longrightarrow> tb_name b = tc_name call \<Longrightarrow>
     answered lc [call] (push_message (result_message b) s lc1)"
  by (auto simp: answered_def answers_def push_message_def)

lemma answered_Cons:
  assumes "answered lc [call] lc1" "answered lc1 calls lc2"
  shows "answered lc (call # calls) lc2"
proof -
  obtain m where "lc_messages lc1 = lc_messages lc @ [m]" "answers call m"
    using assms(1) by (auto simp: answered_def list_all2_Cons1)
  moreover obtain ms where "lc_messages lc2 = lc_messages lc1 @ ms" "list_all2 answers calls ms"
    using assms(2) by (auto simp: answered_def)
  ultimately have "lc_messages lc2 = lc_messages lc @ m # ms" "list_all2 answers (call # calls) (m # ms)"
    by simp_all
  then show ?thesis
    unfolding answered_def by blast
qed

lemma execute_call_guarded:
  assumes env: "records_calls (tv_store tv)" and d: "no_call_open (du_trace d)" "tc_id call \<noteq> []"
  shows "guarded (on_trace at_most_one_open) (execute_call tv turn assistant rejected call lc w) d
    (\<lambda>(ok, lc', w') d'. no_call_open (du_trace d') \<and> answered lc [call] lc')"
proof -
  define metadata where "metadata = metadata_for (tv_tools tv w) (tc_name call)"
  define ro where "ro = (case metadata of None \<Rightarrow> False | Some m \<Rightarrow> tm_read_only m)"
  define w0 where "w0 = sf_requested (tv_surface tv) call w"
  have body: "guarded (on_trace at_most_one_open)
      (let request_event = em_event_id (ee_meta e)
         in case rejected (tc_id call) of
              Some why \<Rightarrow>
                (let ex = unexecuted call (invalid_call why)
                 in io_bind (record_tool_outcome (tv_store tv) (tv_identity tv) turn call ex 0 ro (Some request_event) lc1)
                      (\<lambda>((block, s), lc).
                      io_return (False, push_message (result_message block) s lc,
                        sf_finished (tv_surface tv) call ex w0)))
            | None \<Rightarrow>
                (let (answer, w1) = approval_for tv metadata call w0
                 in io_bind (dispatch_call tv turn call request_event answer lc1 w1) (\<lambda>(ex, started, lc, w2).
                    let ex = close_unstarted ex
                    in io_bind (record_tool_outcome (tv_store tv) (tv_identity tv) turn call ex (tv_elapsed tv w1 w2) ro
                                  (or_else started (Some request_event)) lc) (\<lambda>((block, s), lc).
                       io_return (call_makes_progress tv call w2 \<and> ex_state ex = Succeeded,
                         push_message (result_message block) s lc,
                         sf_finished (tv_surface tv) call ex w2))))) d1
      (\<lambda>(ok, lc', w') d'. no_call_open (du_trace d') \<and> answered lc [call] lc')"
    if hand: "in_hand (tv_identity tv) turn call ro (em_event_id (ee_meta e)) None (du_trace d1)"
      and lc1: "lc_messages lc1 = lc_messages lc" for e lc1 d1
  proof (cases "rejected (tc_id call)")
    case (Some why)
    define ex where "ex = unexecuted call (invalid_call why)"
    have rec: "guarded (on_trace at_most_one_open)
        (record_tool_outcome (tv_store tv) (tv_identity tv) turn call ex 0 ro (Some (em_event_id (ee_meta e))) lc1) d1
        (\<lambda>((block, s), lc') d'. no_call_open (du_trace d') \<and> lc_messages lc' = lc_messages lc1
           \<and> tb_id block = tc_id call \<and> tb_name block = tc_name call)"
      using record_tool_outcome_guarded [OF env hand, of ex 0 lc1] by (simp add: ex_def unexecuted_def)
    show ?thesis
      unfolding Some option.case Let_def ex_def [symmetric]
      by (rule guarded_bind_nested [OF rec])
        (use lc1 in \<open>auto simp: on_trace_def open_counts(1) intro!: answered_push\<close>)
  next
    case None
    obtain answer w1 where ap: "approval_for tv metadata call w0 = (answer, w1)"
      by (cases "approval_for tv metadata call w0")
    have closed: "ex_state (close_unstarted ex) = Succeeded \<longleftrightarrow> ex_state ex = Succeeded" for ex
      by (simp add: close_unstarted_def)
    show ?thesis
      unfolding None option.case Let_def ap prod.case
    proof (rule guarded_bind [OF dispatch_call_guarded [OF env hand]], clarify)
      fix ex :: executed and started and lc2 :: live_context and w2 and d2 :: durable
      assume hand2: "in_hand (tv_identity tv) turn call ro (em_event_id (ee_meta e)) started (du_trace d2)"
        and st: "ex_state ex = Succeeded \<longrightarrow> started \<noteq> None" and lc2: "lc_messages lc2 = lc_messages lc1"
      define ex' where "ex' = close_unstarted ex"
      have rec: "guarded (on_trace at_most_one_open)
          (record_tool_outcome (tv_store tv) (tv_identity tv) turn call ex' (tv_elapsed tv w1 w2) ro
            (or_else started (Some (em_event_id (ee_meta e)))) lc2) d2
          (\<lambda>((block, s), lc') d'. no_call_open (du_trace d') \<and> lc_messages lc' = lc_messages lc2
             \<and> tb_id block = tc_id call \<and> tb_name block = tc_name call)"
        by (rule record_tool_outcome_guarded [OF env hand2]) (use st closed in \<open>simp add: ex'_def\<close>)
      show "guarded (on_trace at_most_one_open)
          (io_bind (record_tool_outcome (tv_store tv) (tv_identity tv) turn call (close_unstarted ex)
              (tv_elapsed tv w1 w2) ro (or_else started (Some (em_event_id (ee_meta e)))) lc2)
            (\<lambda>((block, s), lc). io_return (call_makes_progress tv call w2 \<and> ex_state (close_unstarted ex) = Succeeded,
               push_message (result_message block) s lc, sf_finished (tv_surface tv) call (close_unstarted ex) w2))) d2
          (\<lambda>(ok, lc', w') d'. no_call_open (du_trace d') \<and> answered lc [call] lc')"
        unfolding ex'_def [symmetric]
        by (rule guarded_bind_nested [OF rec])
          (use lc1 lc2 in \<open>auto simp: on_trace_def open_counts(1) intro!: answered_push\<close>)
    qed
  qed
  show ?thesis
    unfolding execute_call_def Let_def metadata_def [symmetric] ro_def [symmetric] w0_def [symmetric]
    by (rule guarded_bind_pair [OF request_guarded [OF env d]]) (rule body [unfolded Let_def]; simp)
qed

lemma failure_ends_call:
  assumes "in_hand li turn call ro i None t"
    and "next_line li turn (Some i) (ToolFailedEv \<lparr> tfl_call_id = tc_id call, tfl_name = tc_name call,
      tfl_message = reason, tfl_duration_ms = 0, tfl_status = None \<rparr>) l"
  shows "no_call_open (t @ [l])"
  by (rule end_line [OF assms(1), of l "unexecuted call reason" 0 False None])
    (use assms(2) in \<open>simp_all add: next_line_def outcome_event_def unexecuted_def outcome_failed_def\<close>)

lemma record_unexecuted_guarded:
  assumes "records_calls (tv_store tv)" "no_call_open (du_trace d)" "\<forall>call\<in>set calls. tc_id call \<noteq> []"
  shows "guarded (on_trace at_most_one_open) (record_unexecuted_calls tv turn assistant reason in_context calls lc w) d
    (\<lambda>(lc', w') d'. no_call_open (du_trace d') \<and> (if in_context then answered lc calls lc' else lc_messages lc' = lc_messages lc))"
  using assms(2,3)
proof (induction calls arbitrary: lc w d)
  case Nil
  then show ?case
    unfolding record_unexecuted_calls.simps guarded_simple(1) by (simp add: on_trace_def open_counts(1) answered_Nil)
next
  case (Cons call calls)
  let ?env = "tv_store tv" and ?li = "tv_identity tv"
  define w1 where "w1 = sf_requested (tv_surface tv) call w"
  define w2 where "w2 = sf_finished (tv_surface tv) call (unexecuted call reason) w1"
  define ended where "ended = ToolFailedEv \<lparr> tfl_call_id = tc_id call, tfl_name = tc_name call, tfl_message = reason,
            tfl_duration_ms = 0, tfl_status = None \<rparr>"
  define m where "m = result_message (to_block (tc_id call) (tc_name call) (outcome_failed reason))"
  have id: "tc_id call \<noteq> []"
    using Cons.prems(2) by simp
  have msg: "answered lc [call] (push_message m s lc')" if "lc_messages lc' = lc_messages lc" for s lc'
    using answered_push [OF that] by (simp add: m_def to_block_def)
  have close: "guarded (on_trace at_most_one_open)
      (if in_context
       then io_bind (turn_emit_message ?env ?li turn ended (Some i) m lc1) (\<lambda>(e, lc).
              io_return (push_message m (em_seq (ee_meta e)) lc))
       else io_bind (turn_emit_without_message ?env ?li turn ended (Some i) lc1) (\<lambda>(_, lc). io_return lc)) d1
      (\<lambda>lc2 d'. no_call_open (du_trace d') \<and> (if in_context then answered lc [call] lc2 else lc_messages lc2 = lc_messages lc))"
    if hand: "in_hand ?li turn call ro i None (du_trace d1)" and lc1: "lc_messages lc1 = lc_messages lc"
    for ro i lc1 d1
  proof -
    have line: "no_call_open (du_trace d1 @ [l])" if "next_line ?li turn (Some i) ended l" for l
      using failure_ends_call [OF hand] that by (simp add: ended_def)
    note count = open_counts(1) [OF line] open_counts(2) [OF hand]
    show ?thesis
    proof (cases in_context)
      case True
      have "guarded (on_trace at_most_one_open) (turn_emit_message ?env ?li turn ended (Some i) m lc1) d1
          (\<lambda>(e, lc') d'. no_call_open (du_trace d') \<and> lc_messages lc' = lc_messages lc)"
        by (rule guarded_weaken [OF turn_emit_message_guarded [OF assms(1)]])
          (use line count lc1 in \<open>auto simp: adds_line_def\<close>)
      then show ?thesis
        using True by (auto intro!: guarded_bind_pair simp: on_trace_def open_counts(1) msg elim!: guarded_bind)
    next
      case False
      have "guarded (on_trace at_most_one_open) (turn_emit_without_message ?env ?li turn ended (Some i) lc1) d1
          (\<lambda>(e, lc') d'. no_call_open (du_trace d') \<and> lc_messages lc' = lc_messages lc)"
        by (rule guarded_weaken [OF turn_emit_without_message_guarded [OF assms(1)]])
          (use line count lc1 in \<open>auto simp: adds_line_def\<close>)
      then show ?thesis
        using False by (auto simp: on_trace_def open_counts(1) elim!: guarded_bind)
    qed
  qed
  have rest: "guarded (on_trace at_most_one_open)
      (record_unexecuted_calls tv turn assistant reason in_context calls lc2 w2) d2
      (\<lambda>(lc', w') d'. no_call_open (du_trace d')
         \<and> (if in_context then answered lc (call # calls) lc' else lc_messages lc' = lc_messages lc))"
    if "no_call_open (du_trace d2) \<and> (if in_context then answered lc [call] lc2 else lc_messages lc2 = lc_messages lc)"
    for lc2 d2
    by (rule guarded_weaken [OF Cons.IH])
      (use that Cons.prems(2) in \<open>auto intro: answered_Cons split: if_splits\<close>)
  show ?case
    unfolding record_unexecuted_calls.simps Let_def w1_def [symmetric] w2_def [symmetric] ended_def [symmetric]
      m_def [symmetric]
    by (rule guarded_bind_pair [OF request_guarded [OF assms(1) Cons.prems(1) id]])
      (rule guarded_bind [OF close rest], (assumption | erule conjunct1 | erule conjunct2)+)
qed

lemma execute_calls_guarded:
  assumes "records_calls (tv_store tv)" "no_call_open (du_trace d)" "\<forall>call\<in>set calls. tc_id call \<noteq> []"
  shows "guarded (on_trace at_most_one_open) (execute_calls tv turn assistant rejected calls succeeded lc w) d
    (\<lambda>(ok, lc', w') d'. no_call_open (du_trace d') \<and> answered lc calls lc')"
  using assms(2,3)
proof (induction calls arbitrary: succeeded lc w d)
  case Nil
  then show ?case
    unfolding execute_calls.simps guarded_simple(1) by (simp add: on_trace_def open_counts(1) answered_Nil)
next
  case (Cons call calls)
  show ?case
  proof (cases "tv_cancelled tv w")
    case True
    have "guarded (on_trace at_most_one_open)
        (io_bind (record_unexecuted_calls tv turn assistant ''not executed: the turn was cancelled'' True
                      (call # calls) lc w) (\<lambda>(lc, w). io_return (succeeded, lc, w))) d
        (\<lambda>(ok, lc', w') d'. no_call_open (du_trace d') \<and> answered lc (call # calls) lc')"
      by (rule guarded_bind [OF record_unexecuted_guarded [OF assms(1) Cons.prems]])
        (auto simp: on_trace_def open_counts(1))
    then show ?thesis
      by (simp only: execute_calls.simps True if_True)
  next
    case False
    have id: "tc_id call \<noteq> []"
      using Cons.prems(2) by simp
    have "guarded (on_trace at_most_one_open)
        (io_bind (execute_call tv turn assistant rejected call lc w) (\<lambda>(ok, lc, w).
           execute_calls tv turn assistant rejected calls (succeeded \<or> ok) lc w)) d
        (\<lambda>(ok, lc', w') d'. no_call_open (du_trace d') \<and> answered lc (call # calls) lc')"
    proof (rule guarded_bind [OF execute_call_guarded [OF assms(1) Cons.prems(1) id]], clarify)
      fix ok lc1 w1 and d1 :: durable
      assume a: "no_call_open (du_trace d1)" "answered lc [call] lc1"
      show "guarded (on_trace at_most_one_open) (execute_calls tv turn assistant rejected calls (succeeded \<or> ok) lc1 w1) d1
          (\<lambda>(ok, lc', w') d'. no_call_open (du_trace d') \<and> answered lc (call # calls) lc')"
        by (rule guarded_weaken [OF Cons.IH [OF a(1)]]) (use Cons.prems(2) a(2) answered_Cons in auto)
    qed
    then show ?thesis
      by (simp only: execute_calls.simps False if_False)
  qed
qed

section \<open>The scan as the store runs it\<close>

lemma scans_to_lifecycles:
  "scans_to t p \<Longrightarrow> \<exists>calls. scan_tool_lifecycles t = Inr calls \<and> length calls = length p"
proof -
  assume "scans_to t p"
  then obtain ordered where f: "fold_res scan_entry t ([], []) = Inr (p, ordered)"
    by (auto simp: scans_to_def)
  then have s: "scan_tool_lifecycles t = Inr (in_request_order ordered p)"
    by (simp add: scan_tool_lifecycles_def)
  have "length (in_request_order ordered p) = length p"
    using scan_result [OF s] f by (metis Inr_inject prod.inject)
  with s show ?thesis
    by simp
qed

lemma no_call_open_scan: "no_call_open t \<longleftrightarrow> scan_tool_lifecycles t = Inr []"
proof
  assume "no_call_open t"
  then show "scan_tool_lifecycles t = Inr []"
    using scans_to_lifecycles [of t "[]"] by (auto simp: no_call_open_def)
next
  assume s: "scan_tool_lifecycles t = Inr []"
  then obtain p ordered where "fold_res scan_entry t ([], []) = Inr (p, ordered)" "length p = 0"
    by (metis list.size(3) scan_result)
  then show "no_call_open t"
    by (auto simp: no_call_open_def scans_to_def)
qed

lemma at_most_one_open_scan: "at_most_one_open t \<Longrightarrow> \<exists>calls. scan_tool_lifecycles t = Inr calls \<and> length calls \<le> 1"
  using scans_to_lifecycles by (fastforce simp: at_most_one_open_def)

end
