(* ===== verification/Turn_Contract.thy ===== *)
theory Turn_Contract
  imports Turn_Lifecycles Session_Resume
begin

text \<open>
  What the turn loop owes the store and the model for every batch of tool calls: a trace the next
  start can read wherever the process stopped, and one answer per call.
\<close>

section \<open>Progress\<close>

lemma turn_envelope_next:
  "next_event env d (turn_envelope env li turn event parent d)"
  "\<exists>who. message_attribution (ee_meta (turn_envelope env li turn event parent d)) = Inr who"
  by (simp_all add: next_event_def turn_envelope_def parented_def loop_envelope_def new_envelope_def new_meta_def
      case_prod_beta message_attribution_def)

lemma succeeds_read: "succeeds (io_bind io_get f) d Q \<longleftrightarrow> succeeds (f d) d Q"
  by (simp add: succeeds_def)

lemma turn_emit_succeeds:
  assumes "open_store env" "room env (Suc n) d"
  shows "succeeds (turn_emit env li turn event parent lc) d (\<lambda>(e, lc') d'. room env n d')"
  unfolding turn_emit_def succeeds_read
  by (rule succeeds_bind [OF trace_emit_succeeds [OF assms turn_envelope_next(1)]]) (auto split: prod.splits)

lemma turn_emit_message_succeeds:
  assumes "open_store env" "room env (Suc n) d"
  shows "succeeds (turn_emit_message env li turn event parent m lc) d (\<lambda>(e, lc') d'. room env n d')"
  unfolding turn_emit_message_def succeeds_read
proof -
  let ?e = "turn_envelope env li turn event parent d"
  obtain t ep model where "message_attribution (ee_meta ?e) = Inr (t, ep, model)"
    using turn_envelope_next(2) [of env li turn event parent d] by (metis surj_pair)
  from emit_new_message_succeeds [OF assms turn_envelope_next(1) this]
  have "succeeds (emit_message env ?e m) d (\<lambda>e' d'. room env n d')"
    by (simp add: emit_message_def turn_envelope_seq) (rule succeeds_weaken, assumption, simp)
  then have "succeeds (trace_emit_message env ?e m (lc_trace lc)) d (\<lambda>(e', st) d'. room env n d')"
    unfolding trace_emit_message_def by (rule succeeds_bind) simp
  then show "succeeds (io_bind (trace_emit_message env ?e m (lc_trace lc)) (\<lambda>(e, st). io_return (e, note_envelope e st lc))) d
      (\<lambda>(e, lc') d'. room env n d')"
    by (rule succeeds_bind) (auto split: prod.splits)
qed

lemma record_tool_outcome_succeeds:
  assumes "open_store env" "room env (Suc (Suc n)) d"
  shows "succeeds (record_tool_outcome env li turn call ex duration ro parent lc) d (\<lambda>(b, lc') d'. room env n d')"
  unfolding record_tool_outcome_def
proof (rule succeeds_bind)
  show "succeeds (keep_full_output env li turn call ex lc) d (\<lambda>_ d'. room env (Suc n) d')"
  proof (cases "ex_full_output ex")
    case None
    then show ?thesis
      using room_less [OF assms(2), of "Suc n"] by (simp add: keep_full_output_def)
  next
    case (Some full)
    show ?thesis
      unfolding keep_full_output_def Some option.case
      by (rule succeeds_bind [OF payload_succeeds [OF assms]], rule succeeds_bind [OF turn_emit_succeeds [OF assms(1)]])
        (auto split: prod.splits)
  qed
next
  fix a :: "(bool \<times> blob_ref option) \<times> live_context" and d' :: durable
  assume room: "room env (Suc n) d'"
  obtain reduced blob lc1 where a: "a = ((reduced, blob), lc1)"
    by (metis surj_pair)
  have "succeeds (io_bind (turn_emit_message env li turn (outcome_event call ex duration ro reduced blob) parent
          (result_message (result_block call ex reduced)) lc1)
        (\<lambda>(e, lc). io_return ((result_block call ex reduced, em_seq (ee_meta e)), lc))) d' (\<lambda>(b, lc') d'. room env n d')"
    by (rule succeeds_bind [OF turn_emit_message_succeeds [OF assms(1) room]]) (auto split: prod.splits)
  then show "succeeds (case a of (a, b) \<Rightarrow> (case a of (reduced, blob) \<Rightarrow> \<lambda>lc.
         let block = result_block call ex reduced
         in io_bind (turn_emit_message env li turn (outcome_event call ex duration ro reduced blob) parent
                       (result_message block) lc)
              (\<lambda>(e, lc). io_return ((block, em_seq (ee_meta e)), lc))) b) d' (\<lambda>(b, lc') d'. room env n d')"
    by (simp add: a Let_def)
qed

lemma dispatch_call_succeeds:
  assumes "open_store (tv_store tv)" "\<not> tv_overflow_checks tv" "room (tv_store tv) (Suc n) d"
  shows "succeeds (dispatch_call tv turn call i answer lc w) d (\<lambda>_ d'. room (tv_store tv) n d')"
proof -
  obtain ws r where run: "dispatch_call tv turn call i answer lc w d = (ws, r)"
    by (cases "dispatch_call tv turn call i answer lc w d")
  define start where "start = turn_envelope (tv_store tv) (tv_identity tv) turn
    (ToolStartedEv \<lparr> tst_call_id = tc_id call, tst_name = tc_name call \<rparr>) (Some i) d"
  obtain ws' x where emit: "trace_emit (tv_store tv) start (lc_trace lc) d = (ws', Inr x)"
    and room: "room (tv_store tv) n (apply_writes ws' d)"
    using trace_emit_succeeds [OF assms(1,3) turn_envelope_next(1)] unfolding start_def succeeds_def
    by (metis (mono_tags, lifting) case_prod_beta)
  have "(\<exists>y. r = Inr y) \<and> room (tv_store tv) n (apply_writes ws d)"
    using dispatch_call_cases [OF run, folded start_def]
  proof
    assume "ws = [] \<and> (\<exists>x. r = Inr x) \<and> (\<forall>ex started lc' w'. r = Inr (ex, started, lc', w') \<longrightarrow>
        started = None \<and> ex_state ex \<noteq> Succeeded \<and> lc_messages lc' = lc_messages lc)"
    then show ?thesis
      using room_less [OF assms(3), of n] by auto
  next
    assume "\<exists>s. trace_emit (tv_store tv) start (lc_trace lc) d = (ws, s)
      \<and> (\<not> tv_overflow_checks tv \<longrightarrow> (\<exists>x. s = Inr x) \<longrightarrow> (\<exists>x. r = Inr x))
      \<and> (\<forall>ex started lc' w'. r = Inr (ex, started, lc', w') \<longrightarrow>
        (\<exists>e st. s = Inr (e, st) \<and> started = Some (em_event_id (ee_meta e)) \<and> lc_messages lc' = lc_messages lc))"
    then have "ws = ws'" "\<exists>y. r = Inr y"
      using emit assms(2) by auto
    then show ?thesis
      using room by simp
  qed
  then show ?thesis
    using run by (auto simp: succeeds_def)
qed

lemma execute_call_succeeds:
  assumes env: "open_store (tv_store tv)" "\<not> tv_overflow_checks tv" and room: "room (tv_store tv) (4 + n) d"
  shows "succeeds (execute_call tv turn assistant rejected call lc w) d (\<lambda>_ d'. room (tv_store tv) n d')"
proof -
  have room4: "room (tv_store tv) (Suc (Suc (Suc (Suc n)))) d"
    using room by (simp add: numeral_eq_Suc)
  show ?thesis
    unfolding execute_call_def Let_def
  proof (rule succeeds_bind [OF turn_emit_succeeds [OF env(1) room4]], clarify)
    fix e lc1 and d1 :: durable
    assume room3: "room (tv_store tv) (Suc (Suc (Suc n))) d1"
    have room2: "room (tv_store tv) (Suc (Suc n)) d1"
      using room_less [OF room3] by simp
    obtain answer w1 where ap: "approval_for tv (metadata_for (tv_tools tv w) (tc_name call)) call
        (sf_requested (tv_surface tv) call w) = (answer, w1)"
      by (metis surj_pair)
    show "succeeds (case rejected (tc_id call) of
          None \<Rightarrow> (case approval_for tv (metadata_for (tv_tools tv w) (tc_name call)) call
              (sf_requested (tv_surface tv) call w) of (answer, w1) \<Rightarrow>
            io_bind (dispatch_call tv turn call (em_event_id (ee_meta e)) answer lc1 w1) (\<lambda>(ex, started, lc, w2).
              io_bind (record_tool_outcome (tv_store tv) (tv_identity tv) turn call (close_unstarted ex)
                  (tv_elapsed tv w1 w2)
                  (case metadata_for (tv_tools tv w) (tc_name call) of None \<Rightarrow> False | Some m \<Rightarrow> tm_read_only m)
                  (or_else started (Some (em_event_id (ee_meta e)))) lc)
                (\<lambda>((block, s), lc). io_return (call_makes_progress tv call w2 \<and> ex_state (close_unstarted ex) = Succeeded,
                   push_message (result_message block) s lc, sf_finished (tv_surface tv) call (close_unstarted ex) w2))))
        | Some why \<Rightarrow>
            io_bind (record_tool_outcome (tv_store tv) (tv_identity tv) turn call (unexecuted call (invalid_call why)) 0
                (case metadata_for (tv_tools tv w) (tc_name call) of None \<Rightarrow> False | Some m \<Rightarrow> tm_read_only m)
                (Some (em_event_id (ee_meta e))) lc1)
              (\<lambda>((block, s), lc). io_return (False, push_message (result_message block) s lc,
                 sf_finished (tv_surface tv) call (unexecuted call (invalid_call why)) (sf_requested (tv_surface tv) call w))))
        d1 (\<lambda>_ d'. room (tv_store tv) n d')"
    proof (cases "rejected (tc_id call)")
      case (Some why)
      show ?thesis
        unfolding Some option.case
        by (rule succeeds_bind [OF record_tool_outcome_succeeds [OF env(1) room2]]) (auto split: prod.splits)
    next
      case None
      show ?thesis
        unfolding None option.case ap prod.case
      proof (rule succeeds_bind [OF dispatch_call_succeeds [OF env room3]], clarify)
        fix ex :: executed and started lc2 w2 and d2 :: durable
        assume room': "room (tv_store tv) (Suc (Suc n)) d2"
        show "succeeds (io_bind (record_tool_outcome (tv_store tv) (tv_identity tv) turn call (close_unstarted ex)
                  (tv_elapsed tv w1 w2)
                  (case metadata_for (tv_tools tv w) (tc_name call) of None \<Rightarrow> False | Some m \<Rightarrow> tm_read_only m)
                  (or_else started (Some (em_event_id (ee_meta e)))) lc2)
                (\<lambda>((block, s), lc). io_return (call_makes_progress tv call w2 \<and> ex_state (close_unstarted ex) = Succeeded,
                   push_message (result_message block) s lc, sf_finished (tv_surface tv) call (close_unstarted ex) w2)))
            d2 (\<lambda>_ d'. room (tv_store tv) n d')"
          by (rule succeeds_bind [OF record_tool_outcome_succeeds [OF env(1) room']]) (auto split: prod.splits)
      qed
    qed
  qed
qed

lemma record_unexecuted_succeeds:
  assumes env: "open_store (tv_store tv)" and room: "room (tv_store tv) (4 * length calls + n) d"
  shows "succeeds (record_unexecuted_calls tv turn assistant reason True calls lc w) d
    (\<lambda>_ d'. room (tv_store tv) n d')"
  using room
proof (induction calls arbitrary: lc w d)
  case (Cons call calls)
  have room2: "room (tv_store tv) (Suc (Suc (4 * length calls + n))) d"
    by (rule room_less [OF Cons.prems]) simp
  define m where "m = result_message (to_block (tc_id call) (tc_name call) (outcome_failed reason))"
  have close: "succeeds (io_bind (turn_emit_message (tv_store tv) (tv_identity tv) turn event parent m lc1)
      (\<lambda>(e, lc). io_return (push_message m (em_seq (ee_meta e)) lc))) d1
      (\<lambda>_ d'. room (tv_store tv) (4 * length calls + n) d')"
    if "room (tv_store tv) (Suc (4 * length calls + n)) d1" for event parent lc1 d1
    by (rule succeeds_bind [OF turn_emit_message_succeeds [OF env that]]) (auto split: prod.splits)
  show ?case
    unfolding record_unexecuted_calls.simps Let_def if_True m_def [symmetric]
  proof (rule succeeds_bind [OF turn_emit_succeeds [OF env room2]], clarify)
    fix e lc1 and d1 :: durable
    assume room1: "room (tv_store tv) (Suc (4 * length calls + n)) d1"
    let ?event = "ToolFailedEv \<lparr> tfl_call_id = tc_id call, tfl_name = tc_name call, tfl_message = reason,
            tfl_duration_ms = 0, tfl_status = None \<rparr>"
    show "succeeds (io_bind (io_bind (turn_emit_message (tv_store tv) (tv_identity tv) turn ?event
          (Some (em_event_id (ee_meta e))) m lc1) (\<lambda>(e, lc). io_return (push_message m (em_seq (ee_meta e)) lc)))
        (\<lambda>lc. record_unexecuted_calls tv turn assistant reason True calls lc
           (sf_finished (tv_surface tv) call (unexecuted call reason) (sf_requested (tv_surface tv) call w)))) d1
        (\<lambda>_ d'. room (tv_store tv) n d')"
      by (rule succeeds_bind [OF close [OF room1]]) (rule Cons.IH)
  qed
qed simp

lemma execute_calls_succeeds:
  assumes env: "open_store (tv_store tv)" "\<not> tv_overflow_checks tv"
    and room: "room (tv_store tv) (4 * length calls + n) d"
  shows "succeeds (execute_calls tv turn assistant rejected calls succeeded lc w) d (\<lambda>_ d'. room (tv_store tv) n d')"
  using room
proof (induction calls arbitrary: succeeded lc w d)
  case (Cons call calls)
  show ?case
  proof (cases "tv_cancelled tv w")
    case True
    show ?thesis
      unfolding execute_calls.simps if_P [OF True]
      by (rule succeeds_bind [OF record_unexecuted_succeeds [OF env(1) Cons.prems]]) (auto split: prod.splits)
  next
    case False
    have "room (tv_store tv) (4 + (4 * length calls + n)) d"
      by (rule room_less [OF Cons.prems]) simp
    then show ?thesis
      unfolding execute_calls.simps if_not_P [OF False]
      by (intro succeeds_bind [OF execute_call_succeeds [OF env]]) (auto intro: Cons.IH)
  qed
qed simp

section \<open>The contract of a batch\<close>

text \<open>C7:
  wherever the process stops while it runs the calls of a response - between any two writes of any
  of them, whatever the tools do, and also when a write fails - the lifecycle scan of the next start
  accepts the trace, and at most the call in hand is open in it.\<close>

theorem interrupted_batch_is_readable:
  assumes "records_calls (tv_store tv)" "scan_tool_lifecycles (du_trace d) = Inr []"
    and "\<forall>call\<in>set calls. tc_id call \<noteq> []"
    and "d' \<in> crash_states (execute_calls tv turn assistant rejected calls False lc w) d"
  shows "\<exists>open_calls. scan_tool_lifecycles (du_trace d') = Inr open_calls \<and> length open_calls \<le> 1"
proof -
  have "guarded (on_trace at_most_one_open) (execute_calls tv turn assistant rejected calls False lc w) d
      (\<lambda>(ok, lc', w') d'. no_call_open (du_trace d') \<and> answered lc calls lc')"
    by (rule execute_calls_guarded) (use assms in \<open>simp_all add: no_call_open_scan\<close>)
  then have "at_most_one_open (du_trace d')"
    using assms(4) by (auto simp: guarded_def on_trace_def)
  then show ?thesis
    by (rule at_most_one_open_scan)
qed

text \<open>C8:
  in a store with room for four events per call the batch always comes to its end - tools that
  fail, calls that are refused, cancellation in the middle included - and then every call has exactly
  one answer in the window, in the order of the calls, and none is open in the trace.\<close>

theorem every_call_is_answered:
  assumes "records_calls (tv_store tv)" "scan_tool_lifecycles (du_trace d) = Inr []"
    and "\<forall>call\<in>set calls. tc_id call \<noteq> []"
    and "open_store (tv_store tv)" "\<not> tv_overflow_checks tv" "room (tv_store tv) (4 * length calls) d"
  shows "\<exists>ws ok lc' w' ms. execute_calls tv turn assistant rejected calls False lc w d = (ws, Inr (ok, lc', w'))
    \<and> lc_messages lc' = lc_messages lc @ ms \<and> list_all2 answers calls ms
    \<and> scan_tool_lifecycles (du_trace (apply_writes ws d)) = Inr []"
proof -
  have "room (tv_store tv) (4 * length calls + 0) d"
    using assms(6) by simp
  from execute_calls_succeeds [OF assms(4,5) this, of turn assistant rejected False lc w]
  obtain ws ok lc' w' where run:
    "execute_calls tv turn assistant rejected calls False lc w d = (ws, Inr (ok, lc', w'))"
    unfolding succeeds_def by (metis surj_pair)
  have "guarded (on_trace at_most_one_open) (execute_calls tv turn assistant rejected calls False lc w) d
      (\<lambda>(ok, lc', w') d'. no_call_open (du_trace d') \<and> answered lc calls lc')"
    by (rule execute_calls_guarded) (use assms in \<open>simp_all add: no_call_open_scan\<close>)
  then have "no_call_open (du_trace (apply_writes ws d)) \<and> answered lc calls lc'"
    using run by (auto simp: guarded_def)
  then show ?thesis
    using run by (auto simp: answered_def no_call_open_scan)
qed

section \<open>A sample batch\<close>

definition sample_call :: "string \<Rightarrow> string \<Rightarrow> tool_call_block" where
  "sample_call i n = \<lparr> tc_id = i, tc_name = n, tc_arguments = JObj [] \<rparr>"

definition quiet_surface :: "nat surface" where
  "quiet_surface = \<lparr> sf_requested = (\<lambda>_ w. w), sf_finished = (\<lambda>_ _ w. w), sf_approve = (\<lambda>_ _ w. (Allow, w)) \<rparr>"

text \<open>A mutating tool that counts its runs; the turn is cancelled once it ran twice.\<close>

definition sample_turn :: "nat turn_env" where
  "sample_turn =
     \<lparr> tv_store = roomy_env, tv_identity = sample_identity, tv_tools = (\<lambda>_. probe_registry False),
       tv_surface = quiet_surface, tv_cancelled = (\<lambda>w. 2 \<le> w), tv_expired = (\<lambda>_. False), tv_can_ask = True,
       tv_progress_names = [], tv_overflow_checks = False, tv_elapsed = (\<lambda>_ _. 0) \<rparr>"

lemma sample_turn_facts:
  "records_calls (tv_store sample_turn)" "open_store (tv_store sample_turn)" "\<not> tv_overflow_checks sample_turn"
  "room (tv_store sample_turn) 4096 empty_session" "scan_tool_lifecycles (du_trace empty_session) = Inr []"
  using roomy_open empty_room
  by (simp_all add: sample_turn_def records_calls_def roomy_env_def sample_env_def empty_session_def
      scan_tool_lifecycles_def)

theorem interrupted_batch_is_readable_witness:
  "\<forall>k. \<exists>open_calls. scan_tool_lifecycles (du_trace (apply_writes (take k (fst (execute_calls sample_turn ''turn'' ''e''
      Map.empty [sample_call ''c1'' ''probe'', sample_call ''c2'' ''none''] False new_live 0 empty_session))) empty_session))
      = Inr open_calls \<and> length open_calls \<le> 1"
proof
  fix k
  define m where "m = execute_calls sample_turn ''turn'' ''e'' Map.empty
    [sample_call ''c1'' ''probe'', sample_call ''c2'' ''none''] False new_live 0"
  have "apply_writes (take k (fst (m empty_session))) empty_session \<in> crash_states m empty_session"
    unfolding crash_states_def by (auto, metis nat_le_linear take_all)
  from interrupted_batch_is_readable [OF sample_turn_facts(1,5) _ this [unfolded m_def]]
  show "\<exists>open_calls. scan_tool_lifecycles (du_trace (apply_writes (take k (fst (execute_calls sample_turn ''turn'' ''e''
      Map.empty [sample_call ''c1'' ''probe'', sample_call ''c2'' ''none''] False new_live 0 empty_session))) empty_session))
      = Inr open_calls \<and> length open_calls \<le> 1"
    by (simp add: sample_call_def)
qed

theorem every_call_is_answered_witness:
  "\<exists>ws ok lc' w' ms. execute_calls sample_turn ''turn'' ''e'' Map.empty
       [sample_call ''c1'' ''probe'', sample_call ''c2'' ''none'', sample_call ''c3'' ''probe'', sample_call ''c4'' ''probe'']
       False new_live 0 empty_session = (ws, Inr (ok, lc', w'))
     \<and> lc_messages lc' = ms \<and> length ms = 4
     \<and> scan_tool_lifecycles (du_trace (apply_writes ws empty_session)) = Inr []"
proof -
  let ?calls = "[sample_call ''c1'' ''probe'', sample_call ''c2'' ''none'', sample_call ''c3'' ''probe'',
    sample_call ''c4'' ''probe'']"
  have ids: "\<forall>call\<in>set ?calls. tc_id call \<noteq> []"
    by (simp add: sample_call_def)
  have room: "room (tv_store sample_turn) (4 * length ?calls) empty_session"
    by (rule room_less [OF sample_turn_facts(4)]) simp
  obtain ws ok lc' w' ms where run: "execute_calls sample_turn ''turn'' ''e'' Map.empty ?calls False new_live 0 empty_session
      = (ws, Inr (ok, lc', w'))" and ms: "lc_messages lc' = lc_messages new_live @ ms" "list_all2 answers ?calls ms"
    and scan: "scan_tool_lifecycles (du_trace (apply_writes ws empty_session)) = Inr []"
    using every_call_is_answered [OF sample_turn_facts(1,5) ids sample_turn_facts(2,3) room,
        of "''turn''" "''e''" Map.empty new_live 0] by metis
  have "length ms = 4"
    using list_all2_lengthD [OF ms(2)] by simp
  with run scan ms(1) show ?thesis
    by (simp add: new_live_def)
qed

end
