(* ===== verification/Turn_Recovery.thy ===== *)
theory Turn_Recovery
  imports Live_Context Failover_Policy Tool_Registry
begin

text \<open>
  \<open>crates/rupi-runtime/src/turn.rs\<close>: which model owns generation. The loop keeps the list of its
  epochs; a failed request is answered by the recovery policy, which may hand the session to the
  backup, and the user may switch by hand. Every change is an event of the outgoing epoch.
\<close>

section \<open>Models and epochs\<close>

text \<open>A provider as the loop sees it: its model, its capabilities, the estimate of a request to it.\<close>

record provider_seat =
  ps_model :: model_ref
  ps_capabilities :: model_capabilities
  ps_estimate :: estimator

record model_seat =
  ms_primary :: provider_seat
  ms_backup :: "provider_seat option"
  ms_policy :: failover_policy
  ms_epochs :: "model_epoch list"
  ms_started :: bool
  ms_resumed :: bool
  ms_working_dir :: string
  ms_trace_id :: trace_id

definition epoch_of_provider :: "u32 \<Rightarrow> provider_seat \<Rightarrow> epoch_reason \<Rightarrow> model_epoch" where
  "epoch_of_provider i p r =
     \<lparr> me_index = i, me_model = ps_model p, me_capabilities = ps_capabilities p, me_reason = r \<rparr>"

definition new_seat ::
  "provider_seat \<Rightarrow> provider_seat option \<Rightarrow> failover_policy \<Rightarrow> string \<Rightarrow> trace_id \<Rightarrow> model_seat" where
  "new_seat primary backup policy dir trace =
     \<lparr> ms_primary = primary, ms_backup = backup, ms_policy = policy,
       ms_epochs = [epoch_of_provider 0 primary Initial], ms_started = False, ms_resumed = False,
       ms_working_dir = dir, ms_trace_id = trace \<rparr>"

definition active_epoch :: "model_seat \<Rightarrow> model_epoch" where
  "active_epoch ms = last (ms_epochs ms)"

definition active_model :: "model_seat \<Rightarrow> model_ref" where
  "active_model ms = me_model (active_epoch ms)"

definition epoch_index :: "model_seat \<Rightarrow> u32" where
  "epoch_index ms = me_index (active_epoch ms)"

definition active_provider :: "model_seat \<Rightarrow> provider_seat" where
  "active_provider ms =
     (case ms_backup ms of
        Some b \<Rightarrow> if ps_model b = active_model ms then b else ms_primary ms
      | None \<Rightarrow> ms_primary ms)"

definition failed_over :: "model_seat \<Rightarrow> bool" where
  "failed_over ms =
     (case ms_backup ms of None \<Rightarrow> False | Some b \<Rightarrow> ps_model b = active_model ms)"

definition seat_identity :: "model_seat \<Rightarrow> loop_identity" where
  "seat_identity ms =
     \<lparr> li_trace_id = ms_trace_id ms, li_model_epoch = epoch_index ms, li_model = active_model ms \<rparr>"

definition epoch_event :: "model_epoch \<Rightarrow> agent_event" where
  "epoch_event e =
     ModelEpochStartedEv \<lparr> mes_epoch = me_index e, mes_model = me_model e, mes_reason = me_reason e,
       mes_capabilities = me_capabilities e \<rparr>"

text \<open>\<open>epoch_index().checked_add(1)\<close>.\<close>

definition next_epoch_index :: "model_seat \<Rightarrow> u32 io" where
  "next_epoch_index ms = io_lift id (ok_or (checked_add u32_max (epoch_index ms) 1) EpochExhausted)"

definition diagnose ::
  "store_env \<Rightarrow> model_seat \<Rightarrow> turn_id option \<Rightarrow> diagnostic_level \<Rightarrow> string \<Rightarrow> live_context \<Rightarrow> live_context io" where
  "diagnose env ms turn level text lc =
     io_bind (live_emit env (seat_identity ms) turn (DiagnosticEv \<lparr> dg_level = level, dg_message = text \<rparr>) lc)
       (\<lambda>(_, lc). io_return lc)"

section \<open>Opening the session\<close>

definition ensure_session_started :: "store_env \<Rightarrow> model_seat \<Rightarrow> live_context \<Rightarrow> (model_seat \<times> live_context) io" where
  "ensure_session_started env ms lc =
     (if ms_started ms then io_return (ms, lc)
      else let ms = ms\<lparr>ms_started := True\<rparr>;
               e = (if ms_resumed ms then active_epoch ms else hd (ms_epochs ms));
               li = seat_identity ms
           in io_bind (live_emit env li None (SessionStartedEv
                \<lparr> ss_working_dir = ms_working_dir ms, ss_model = me_model e, ss_capabilities = me_capabilities e,
                  ss_resumed = ms_resumed ms \<rparr>) lc) (\<lambda>(_, lc).
              if ms_resumed ms then io_return (ms, lc)
              else io_bind (live_emit env li None (epoch_event e) lc) (\<lambda>(_, lc). io_return (ms, lc))))"

section \<open>Switching by hand\<close>

datatype switch_refusal = NoBackup | AlreadyActive model_ref | HardShortfall model_ref "capability_gap list"

definition start_epoch ::
  "store_env \<Rightarrow> turn_id option \<Rightarrow> model_epoch \<Rightarrow> model_seat \<Rightarrow> live_context \<Rightarrow> (model_seat \<times> live_context) io" where
  "start_epoch env turn e ms lc =
     io_bind (live_emit env (seat_identity ms) turn (epoch_event e) lc) (\<lambda>(_, lc).
       io_return (ms\<lparr>ms_epochs := ms_epochs ms @ [e]\<rparr>, lc))"

text \<open>A refusal is a value; the session is opened by the attempt all the same.\<close>

definition failover_manual ::
  "store_env \<Rightarrow> model_seat \<Rightarrow> live_context \<Rightarrow> ((switch_refusal + model_epoch) \<times> model_seat \<times> live_context) io" where
  "failover_manual env ms lc =
     io_bind (ensure_session_started env ms lc) (\<lambda>(ms, lc).
     case ms_backup ms of
       None \<Rightarrow> io_return (Inl NoBackup, ms, lc)
     | Some backup \<Rightarrow>
        (if active_model ms = ps_model backup then io_return (Inl (AlreadyActive (ps_model backup)), ms, lc)
         else let gs = gaps (ps_capabilities backup) (ps_capabilities (ms_primary ms))
              in if has_hard_gap gs then io_return (Inl (HardShortfall (ps_model backup) gs), ms, lc)
                 else io_bind (next_epoch_index ms) (\<lambda>i.
                      let e = epoch_of_provider i backup ManualSwitch
                      in io_bind (start_epoch env None e ms lc) (\<lambda>(ms, lc). io_return (Inr e, ms, lc)))))"

definition switch_back_manual ::
  "store_env \<Rightarrow> model_seat \<Rightarrow> live_context \<Rightarrow> ((switch_refusal + model_epoch) \<times> model_seat \<times> live_context) io" where
  "switch_back_manual env ms lc =
     io_bind (ensure_session_started env ms lc) (\<lambda>(ms, lc).
     let primary = ms_primary ms
     in if active_model ms = ps_model primary then io_return (Inl (AlreadyActive (ps_model primary)), ms, lc)
        else io_bind (next_epoch_index ms) (\<lambda>i.
             let e = epoch_of_provider i primary ManualSwitchBack
             in io_bind (start_epoch env None e ms lc) (\<lambda>(ms, lc). io_return (Inr e, ms, lc))))"

section \<open>Recovery\<close>

definition overflow_recovery_target :: "u64 \<Rightarrow> u64" where
  "overflow_recovery_target window = window - window div 10"

text \<open>Dropping old turns before a takeover into a smaller window: the request must fit afterwards.\<close>

definition rebudget ::
  "store_env \<Rightarrow> model_seat \<Rightarrow> provider_seat \<Rightarrow> turn_id \<Rightarrow> nat \<Rightarrow> live_context \<Rightarrow> (u32 \<times> nat \<times> live_context) io" where
  "rebudget env ms backup turn turn_start lc =
     (let target = overflow_recovery_target (cap_context_window (ps_capabilities backup))
      in io_bind (evict_oldest env (seat_identity ms) (ps_estimate backup) target turn turn_start False lc)
           (\<lambda>((dropped, turn_start), lc).
           if ps_estimate backup (lc_messages lc) False > target then io_fail (CannotRebudget target)
           else io_return (dropped, turn_start, lc)))"

datatype action = RetryRequest | Takeover | StopTurn

definition recover ::
  "store_env \<Rightarrow> model_seat \<Rightarrow> turn_id \<Rightarrow> model_failure \<Rightarrow> bool \<Rightarrow> nat \<Rightarrow> live_context
    \<Rightarrow> (action \<times> nat \<times> model_seat \<times> live_context) io" where
  "recover env ms turn failure cancelled turn_start lc =
     (let li = seat_identity ms in
      if cancelled \<or> mf_kind failure = Cancelled then io_return (StopTurn, turn_start, ms, lc)
      else case decide (ms_policy ms) failure of
        Retry attempt max_attempts \<Rightarrow>
          io_bind (live_emit env li (Some turn) (ModelRetryEv
              \<lparr> mre_attempt = attempt + 1, mre_max_attempts = max_attempts, mre_kind = mf_kind failure,
                mre_retry_after_ms = mf_retry_after_ms failure,
                mre_will_failover = (ms_backup ms \<noteq> None \<and> attempt + 1 \<ge> max_attempts) \<rparr>) lc) (\<lambda>(_, lc).
            io_return (RetryRequest, turn_start, ms, lc))
      | Failover to gs \<Rightarrow>
         (case ms_backup ms of
            None \<Rightarrow> io_return (StopTurn, turn_start, ms, lc)
          | Some backup \<Rightarrow>
             (if ps_model backup \<noteq> to
              then io_bind (diagnose env ms (Some turn) ErrorLevel
                     (''failover to '' @ as_key to @ '' refused: it is not the attached backup'') lc) (\<lambda>lc.
                     io_return (StopTurn, turn_start, ms, lc))
              else if active_model ms = to
              then io_bind (diagnose env ms (Some turn) ErrorLevel
                     (''failover to '' @ as_key to @ '' refused: it is the active model'') lc) (\<lambda>lc.
                     io_return (StopTurn, turn_start, ms, lc))
              else io_bind
                (if list_ex is_context_window_gap gs then rebudget env ms backup turn turn_start lc
                 else io_return (0, turn_start, lc)) (\<lambda>(dropped, turn_start, lc).
                io_bind (next_epoch_index ms) (\<lambda>i.
                let e = \<lparr> me_index = i, me_model = to, me_capabilities = ps_capabilities backup,
                          me_reason = AutomaticFailover \<rparr>
                in io_bind (live_emit env li (Some turn) (ModelFailoverEv
                     \<lparr> mfe_from = active_model ms, mfe_to = to, mfe_kind = mf_kind failure, mfe_gaps = gs,
                       mfe_compacted = (dropped > 0) \<rparr>) lc) (\<lambda>(_, lc).
                   io_bind (start_epoch env (Some turn) e ms lc) (\<lambda>(ms, lc).
                     io_return (Takeover, turn_start, ms, lc)))))))
      | Refused to gs \<Rightarrow>
          io_bind (diagnose env ms (Some turn) ErrorLevel
             (''failover to '' @ as_key to @ '' refused: the backup cannot do this work ('' @ join '', '' (map display_gap gs)
              @ '')'') lc) (\<lambda>lc.
            io_return (StopTurn, turn_start, ms, lc))
      | Abort \<Rightarrow> io_return (StopTurn, turn_start, ms, lc))"

section \<open>The reigns of a session\<close>

text \<open>Everything that can happen to the seat after it was created.\<close>

inductive seat_run :: "store_env \<Rightarrow> model_seat \<Rightarrow> model_seat \<Rightarrow> bool" for env ms0 where
  begins: "seat_run env ms0 ms0"
| opens: "seat_run env ms0 ms \<Longrightarrow> ensure_session_started env ms lc d = (ws, Inr (ms', lc')) \<Longrightarrow> seat_run env ms0 ms'"
| switches: "seat_run env ms0 ms \<Longrightarrow> failover_manual env ms lc d = (ws, Inr (r, ms', lc')) \<Longrightarrow> seat_run env ms0 ms'"
| switches_back: "seat_run env ms0 ms \<Longrightarrow> switch_back_manual env ms lc d = (ws, Inr (r, ms', lc')) \<Longrightarrow>
    seat_run env ms0 ms'"
| recovers: "seat_run env ms0 ms \<Longrightarrow>
    recover env ms turn failure cancelled turn_start lc d = (ws, Inr (a, turn_start', ms', lc')) \<Longrightarrow>
    seat_run env ms0 ms'"

text \<open>
  The next epoch differs from the one in office, follows it without a gap, and belongs to the
  backup unless it is a switch back.
\<close>

definition succession :: "model_seat \<Rightarrow> model_seat \<Rightarrow> bool" where
  "succession ms ms' \<longleftrightarrow>
     (\<exists>p r. ms_epochs ms' = ms_epochs ms @ [epoch_of_provider (epoch_index ms + 1) p r]
        \<and> epoch_index ms < u32_max \<and> ps_model p \<noteq> active_model ms
        \<and> (r \<in> {ManualSwitch, AutomaticFailover} \<and> ms_backup ms = Some p \<or> r = ManualSwitchBack \<and> p = ms_primary ms))
     \<and> ms_primary ms' = ms_primary ms \<and> ms_backup ms' = ms_backup ms"

lemma successionI:
  assumes "ms' = ms\<lparr>ms_epochs := ms_epochs ms @ [epoch_of_provider (Suc (epoch_index ms)) p r]\<rparr>"
    and "epoch_index ms < u32_max" "ps_model p \<noteq> active_model ms"
    and "r \<in> {ManualSwitch, AutomaticFailover} \<and> ms_backup ms = Some p \<or> r = ManualSwitchBack \<and> p = ms_primary ms"
  shows "succession ms ms'"
  unfolding succession_def
proof (intro conjI exI)
  show "ms_epochs ms' = ms_epochs ms @ [epoch_of_provider (epoch_index ms + 1) p r]"
    by (simp add: assms(1))
qed (use assms in simp_all)

definition same_seat :: "model_seat \<Rightarrow> model_seat \<Rightarrow> bool" where
  "same_seat ms ms' \<longleftrightarrow>
     ms_epochs ms' = ms_epochs ms \<and> ms_primary ms' = ms_primary ms \<and> ms_backup ms' = ms_backup ms"

lemma ensure_session_started_seat:
  "ensure_session_started env ms lc d = (ws, Inr (ms', lc')) \<Longrightarrow> same_seat ms ms'"
  unfolding ensure_session_started_def Let_def same_seat_def
  by (auto split: if_splits elim!: io_bind_success)

lemma same_seat_active:
  "same_seat ms ms' \<Longrightarrow> active_model ms' = active_model ms \<and> epoch_index ms' = epoch_index ms"
  by (simp add: same_seat_def active_model_def epoch_index_def active_epoch_def)

lemma next_epoch_index_success:
  "next_epoch_index ms d = (ws, Inr i) \<longleftrightarrow> ws = [] \<and> i = epoch_index ms + 1 \<and> epoch_index ms < u32_max"
  by (auto simp: next_epoch_index_def checked_add_def)

lemma start_epoch_seat:
  "start_epoch env turn e ms lc d = (ws, Inr (ms', lc')) \<Longrightarrow> ms' = ms\<lparr>ms_epochs := ms_epochs ms @ [e]\<rparr>"
  unfolding start_epoch_def by (auto elim!: io_bind_success)

lemma succession_same: "same_seat ms ms1 \<Longrightarrow> succession ms1 ms' \<Longrightarrow> succession ms ms'"
  using same_seat_active [of ms ms1] by (auto simp: succession_def same_seat_def)

lemma failover_manual_seat:
  assumes "failover_manual env ms lc d = (ws, Inr (r, ms', lc'))"
  shows "same_seat ms ms' \<or> succession ms ms'"
proof -
  obtain ms1 lc1 w1 w2 where opened: "ensure_session_started env ms lc d = (w1, Inr (ms1, lc1))"
    and rest: "(case ms_backup ms1 of
       None \<Rightarrow> io_return (Inl NoBackup, ms1, lc1)
     | Some backup \<Rightarrow>
        (if active_model ms1 = ps_model backup then io_return (Inl (AlreadyActive (ps_model backup)), ms1, lc1)
         else let gs = gaps (ps_capabilities backup) (ps_capabilities (ms_primary ms1))
              in if has_hard_gap gs then io_return (Inl (HardShortfall (ps_model backup) gs), ms1, lc1)
                 else io_bind (next_epoch_index ms1) (\<lambda>i.
                      let e = epoch_of_provider i backup ManualSwitch
                      in io_bind (start_epoch env None e ms1 lc1) (\<lambda>(ms, lc). io_return (Inr e, ms, lc)))))
        (apply_writes w1 d) = (w2, Inr (r, ms', lc'))"
    using assms unfolding failover_manual_def by (auto elim!: io_bind_success)
  have same: "same_seat ms ms1"
    by (rule ensure_session_started_seat [OF opened])
  have "ms' = ms1 \<or> succession ms1 ms'"
    using rest
    by (auto simp: Let_def next_epoch_index_success split: option.splits if_splits
        elim!: io_bind_success dest!: start_epoch_seat intro!: successionI)
  then show ?thesis
    using same succession_same by auto
qed

lemma switch_back_manual_seat:
  assumes "switch_back_manual env ms lc d = (ws, Inr (r, ms', lc'))"
  shows "same_seat ms ms' \<or> succession ms ms'"
proof -
  obtain ms1 lc1 w1 w2 where opened: "ensure_session_started env ms lc d = (w1, Inr (ms1, lc1))"
    and rest: "(let primary = ms_primary ms1
     in if active_model ms1 = ps_model primary then io_return (Inl (AlreadyActive (ps_model primary)), ms1, lc1)
        else io_bind (next_epoch_index ms1) (\<lambda>i.
             let e = epoch_of_provider i primary ManualSwitchBack
             in io_bind (start_epoch env None e ms1 lc1) (\<lambda>(ms, lc). io_return (Inr e, ms, lc))))
        (apply_writes w1 d) = (w2, Inr (r, ms', lc'))"
    using assms unfolding switch_back_manual_def by (auto elim!: io_bind_success)
  have same: "same_seat ms ms1"
    by (rule ensure_session_started_seat [OF opened])
  have "ms' = ms1 \<or> succession ms1 ms'"
    using rest
    by (auto simp: Let_def next_epoch_index_success split: if_splits
        elim!: io_bind_success dest!: start_epoch_seat intro!: successionI)
  then show ?thesis
    using same succession_same by auto
qed

text \<open>A recovery changes the seat exactly when it is a takeover, and then by the policy's decision.\<close>

lemma recover_seat:
  assumes "recover env ms turn failure cancelled turn_start lc d = (ws, Inr (a, turn_start', ms', lc'))"
  shows "a \<noteq> Takeover \<and> ms' = ms \<or> a = Takeover \<and> succession ms ms'"
proof (cases "\<not> (cancelled \<or> mf_kind failure = Cancelled) \<and> (\<exists>to gs backup. decide (ms_policy ms) failure = Failover to gs
    \<and> ms_backup ms = Some backup \<and> ps_model backup = to \<and> active_model ms \<noteq> to)")
  case False
  then have "a \<noteq> Takeover \<and> ms' = ms"
    using assms
    by (auto simp: recover_def Let_def diagnose_def split: recovery.splits option.splits if_splits
        elim!: io_bind_success)
  then show ?thesis
    by simp
next
  case True
  then obtain to gs backup where decision: "decide (ms_policy ms) failure = Failover to gs"
    "ms_backup ms = Some backup" "ps_model backup = to" "active_model ms \<noteq> to"
    by blast
  have "a = Takeover \<and> ms' = ms\<lparr>ms_epochs := ms_epochs ms
      @ [epoch_of_provider (Suc (epoch_index ms)) backup AutomaticFailover]\<rparr> \<and> epoch_index ms < u32_max"
    using assms True decision
    by (auto simp: recover_def Let_def next_epoch_index_success epoch_of_provider_def
        elim!: io_bind_success dest!: start_epoch_seat)
  then show ?thesis
    using decision by (auto intro: successionI)
qed

section \<open>The invariant\<close>

definition heir :: "model_seat \<Rightarrow> model_epoch \<Rightarrow> model_epoch \<Rightarrow> bool" where
  "heir ms0 e e' \<longleftrightarrow>
     me_model e' \<noteq> me_model e
     \<and> (me_reason e' \<in> {ManualSwitch, AutomaticFailover} \<and> map_option ps_model (ms_backup ms0) = Some (me_model e')
        \<or> me_reason e' = ManualSwitchBack \<and> me_model e' = ps_model (ms_primary ms0))"

definition reigns :: "model_seat \<Rightarrow> model_seat \<Rightarrow> bool" where
  "reigns ms0 ms \<longleftrightarrow>
     ms_primary ms = ms_primary ms0 \<and> ms_backup ms = ms_backup ms0
     \<and> map me_index (ms_epochs ms) = [0..<length (ms_epochs ms)] \<and> ms_epochs ms \<noteq> []
     \<and> me_model (hd (ms_epochs ms)) = ps_model (ms_primary ms0) \<and> me_reason (hd (ms_epochs ms)) = Initial
     \<and> (\<forall>k. Suc k < length (ms_epochs ms) \<longrightarrow> heir ms0 (ms_epochs ms ! k) (ms_epochs ms ! Suc k))"

lemma reigns_same: "reigns ms0 ms \<Longrightarrow> same_seat ms ms' \<Longrightarrow> reigns ms0 ms'"
  by (simp add: reigns_def same_seat_def)

lemma reigns_succession:
  assumes "reigns ms0 ms" "succession ms ms'"
  shows "reigns ms0 ms'"
proof -
  let ?es = "ms_epochs ms"
  obtain p r where es: "ms_epochs ms' = ?es @ [epoch_of_provider (epoch_index ms + 1) p r]"
    and p: "ps_model p \<noteq> active_model ms" "r \<in> {ManualSwitch, AutomaticFailover} \<and> ms_backup ms = Some p
      \<or> r = ManualSwitchBack \<and> p = ms_primary ms"
    and same: "ms_primary ms' = ms_primary ms" "ms_backup ms' = ms_backup ms"
    using assms(2) unfolding succession_def by blast
  have ms0: "ms_primary ms = ms_primary ms0" "ms_backup ms = ms_backup ms0" and nonempty: "?es \<noteq> []"
    and index: "map me_index ?es = [0..<length ?es]"
    and old: "\<And>k. Suc k < length ?es \<Longrightarrow> heir ms0 (?es ! k) (?es ! Suc k)"
    using assms(1) by (simp_all add: reigns_def)
  have "epoch_index ms = map me_index ?es ! (length ?es - 1)"
    using nonempty by (simp add: epoch_index_def active_epoch_def last_conv_nth)
  then have next_index: "epoch_index ms + 1 = length ?es"
    using nonempty by (simp add: index)
  have newest: "heir ms0 (?es ! (length ?es - 1)) (epoch_of_provider (epoch_index ms + 1) p r)"
    using p nonempty ms0
    by (auto simp: heir_def epoch_of_provider_def active_model_def active_epoch_def last_conv_nth)
  have "heir ms0 (ms_epochs ms' ! k) (ms_epochs ms' ! Suc k)" if "Suc k < length (ms_epochs ms')" for k
  proof (cases "Suc k < length ?es")
    case True
    then show ?thesis
      using old by (simp add: es nth_append)
  next
    case False
    then have "k = length ?es - 1" "Suc k = length ?es"
      using that by (simp_all add: es)
    then show ?thesis
      using newest by (simp add: es nth_append)
  qed
  moreover have "map me_index (ms_epochs ms') = [0..<length (ms_epochs ms')]"
    using index next_index by (simp add: es epoch_of_provider_def)
  ultimately show ?thesis
    using assms(1) same nonempty by (simp add: reigns_def es)
qed

lemma seat_run_reigns:
  "seat_run env ms0 ms \<Longrightarrow> reigns ms0 ms0 \<Longrightarrow> reigns ms0 ms"
proof (induction rule: seat_run.induct)
  case (opens ms lc d ws ms' lc')
  then show ?case
    using ensure_session_started_seat reigns_same by blast
next
  case (switches ms lc d ws r ms' lc')
  then show ?case
    using failover_manual_seat reigns_same reigns_succession by blast
next
  case (switches_back ms lc d ws r ms' lc')
  then show ?case
    using switch_back_manual_seat reigns_same reigns_succession by blast
next
  case (recovers ms turn failure cancelled turn_start lc d ws a turn_start' ms' lc')
  then show ?case
    using recover_seat reigns_succession by blast
qed

lemma new_seat_reigns: "reigns (new_seat primary backup policy dir trace) (new_seat primary backup policy dir trace)"
  by (simp add: reigns_def new_seat_def epoch_of_provider_def)

end
