(* ===== verification/Model_Reign.thy ===== *)
theory Model_Reign
  imports Turn_Recovery Session_Resume
begin

text \<open>
  Who answers: the history of the models of a session, whatever goes wrong and whatever the user does.
\<close>

section \<open>The epochs of a session\<close>

text \<open>C9:
  whatever failures, recoveries and switches by hand a session goes through, its epochs are numbered
  from zero without a gap, no epoch is followed by one of the same model, only the primary and the
  attached backup ever answer, and between two automatic takeovers the user has switched back: the
  recovery never bounces between the models by itself.\<close>

theorem models_reign_in_turn:
  assumes "seat_run env (new_seat primary backup policy dir trace) ms"
  shows "map me_index (ms_epochs ms) = [0..<length (ms_epochs ms)]
    \<and> (\<forall>k. Suc k < length (ms_epochs ms) \<longrightarrow> me_model (ms_epochs ms ! Suc k) \<noteq> me_model (ms_epochs ms ! k))
    \<and> (\<forall>e\<in>set (ms_epochs ms). me_model e = ps_model primary \<or> map_option ps_model backup = Some (me_model e))
    \<and> (\<forall>i j. i < j \<longrightarrow> j < length (ms_epochs ms) \<longrightarrow> me_reason (ms_epochs ms ! i) = AutomaticFailover \<longrightarrow>
         me_reason (ms_epochs ms ! j) = AutomaticFailover \<longrightarrow>
         (\<exists>k. i < k \<and> k < j \<and> me_reason (ms_epochs ms ! k) = ManualSwitchBack))"
proof -
  let ?es = "ms_epochs ms"
  have reigns: "reigns (new_seat primary backup policy dir trace) ms"
    by (rule seat_run_reigns [OF assms new_seat_reigns])
  then have step: "heir (new_seat primary backup policy dir trace) (?es ! k) (?es ! Suc k)" if "Suc k < length ?es" for k
    using that by (simp add: reigns_def)
  have step: "me_model (?es ! Suc k) \<noteq> me_model (?es ! k)"
    "me_reason (?es ! Suc k) \<in> {ManualSwitch, AutomaticFailover} \<and> map_option ps_model backup = Some (me_model (?es ! Suc k))
      \<or> me_reason (?es ! Suc k) = ManualSwitchBack \<and> me_model (?es ! Suc k) = ps_model primary"
    if "Suc k < length ?es" for k
    using step [OF that] by (simp_all add: heir_def new_seat_def)
  have "?es \<noteq> []" "me_model (hd ?es) = ps_model primary" "me_reason (hd ?es) = Initial"
    using reigns by (simp_all add: reigns_def new_seat_def)
  then have first: "me_model (?es ! 0) = ps_model primary" "me_reason (?es ! 0) = Initial"
    by (simp_all add: hd_conv_nth)
  have known: "me_model e = ps_model primary \<or> map_option ps_model backup = Some (me_model e)" if e: "e \<in> set ?es" for e
  proof -
    obtain k where k: "k < length ?es" "e = ?es ! k"
      using e unfolding in_set_conv_nth by blast
    show ?thesis
    proof (cases k)
      case (Suc m)
      then show ?thesis
        unfolding k(2) using step(2) [of m] k(1) by blast
    qed (simp add: k first(1))
  qed
  have apart: "\<exists>k. i < k \<and> k < j \<and> me_reason (?es ! k) = ManualSwitchBack"
    if auto_reasons: "i < j" "j < length ?es" "me_reason (?es ! i) = AutomaticFailover" "me_reason (?es ! j) = AutomaticFailover"
    for i j
  proof -
    obtain m where j: "j = Suc m"
      using auto_reasons(1) by (cases j) auto
    have heir: "map_option ps_model backup = Some (me_model (?es ! j))" "me_model (?es ! j) \<noteq> me_model (?es ! m)"
      using step [of m] auto_reasons by (auto simp: j)
    have "me_model (?es ! i) = me_model (?es ! j) \<or> i = 0"
      using step(2) [of "i - 1"] auto_reasons heir(1) by (cases i) auto
    moreover have "i \<noteq> 0"
      using first(2) auto_reasons(3) by (metis epoch_reason.distinct(3))
    ultimately have "i < m"
      using heir(2) auto_reasons(1) by (auto simp: j less_Suc_eq)
    then obtain m' where m: "m = Suc m'"
      by (cases m) auto
    have "me_reason (?es ! m) = ManualSwitchBack"
      using step(2) [of m'] heir auto_reasons(2) by (auto simp: j m)
    then show ?thesis
      using \<open>i < m\<close> j by blast
  qed
  show ?thesis
    using reigns step(1) known apart unfolding reigns_def by blast
qed

section \<open>A session that is taken over twice\<close>

lemma io_bind_return: "io_bind (io_return a) f = f a"
  by (rule ext) (simp add: io_bind_def)

lemma succeeds_cong: "m d = m' d \<Longrightarrow> succeeds m d Q \<longleftrightarrow> succeeds m' d Q"
  by (simp add: succeeds_def)

lemma start_epoch_succeeds:
  assumes "open_store env" "room env (Suc n) d"
  shows "succeeds (start_epoch env turn e ms lc) d
    (\<lambda>(ms', lc') d'. room env n d' \<and> ms' = ms\<lparr>ms_epochs := ms_epochs ms @ [e]\<rparr>)"
  unfolding start_epoch_def
  by (rule succeeds_bind [OF live_emit_succeeds [OF assms]]) (auto split: prod.splits)

text \<open>Where the policy names the attached, idle backup, and its window is wide enough, it takes over.\<close>

lemma takeover_succeeds:
  assumes env: "open_store env" "room env (Suc (Suc n)) d"
    and decision: "decide (ms_policy ms) failure = Failover (ps_model backup) gs"
    and able: "mf_kind failure \<noteq> Cancelled" "ms_backup ms = Some backup" "active_model ms \<noteq> ps_model backup"
      "\<not> list_ex is_context_window_gap gs" "epoch_index ms < u32_max"
  shows "succeeds (recover env ms turn failure False turn_start lc) d (\<lambda>(a, t, ms', lc') d'. room env n d'
    \<and> ms' = ms\<lparr>ms_epochs := ms_epochs ms @ [epoch_of_provider (Suc (epoch_index ms)) backup AutomaticFailover]\<rparr>)"
proof -
  define e where "e = epoch_of_provider (Suc (epoch_index ms)) backup AutomaticFailover"
  define li where "li = seat_identity ms"
  define event where "event = ModelFailoverEv \<lparr> mfe_from = active_model ms, mfe_to = ps_model backup,
    mfe_kind = mf_kind failure, mfe_gaps = gs, mfe_compacted = False \<rparr>"
  define m where "m = io_bind (live_emit env li (Some turn) event lc) (\<lambda>(_, lc).
    io_bind (start_epoch env (Some turn) e ms lc) (\<lambda>(ms, lc). io_return (Takeover, turn_start, ms, lc)))"
  have "recover env ms turn failure False turn_start lc d = m d"
    using decision able
    by (simp add: recover_def Let_def m_def e_def li_def event_def epoch_of_provider_def next_epoch_index_def checked_add_def
        io_bind_return)
  moreover have "succeeds m d (\<lambda>(a, t, ms', lc') d'. room env n d' \<and> ms' = ms\<lparr>ms_epochs := ms_epochs ms @ [e]\<rparr>)"
    unfolding m_def
  proof (rule succeeds_bind [OF live_emit_succeeds [OF env]], clarify)
    fix e0 lc1 and d1 :: durable
    assume room: "room env (Suc n) d1"
    show "succeeds (io_bind (start_epoch env (Some turn) e ms lc1) (\<lambda>(ms, lc). io_return (Takeover, turn_start, ms, lc))) d1
        (\<lambda>(a, t, ms', lc') d'. room env n d' \<and> ms' = ms\<lparr>ms_epochs := ms_epochs ms @ [e]\<rparr>)"
      by (rule succeeds_bind [OF start_epoch_succeeds [OF env(1) room]]) (auto split: prod.splits)
  qed
  ultimately show ?thesis
    unfolding e_def [symmetric] by (metis (no_types) succeeds_cong)
qed

lemma switch_back_succeeds:
  assumes env: "open_store env" "room env (Suc n) d"
    and able: "ms_started ms" "active_model ms \<noteq> ps_model (ms_primary ms)" "epoch_index ms < u32_max"
  shows "succeeds (switch_back_manual env ms lc) d (\<lambda>(r, ms', lc') d'. room env n d'
    \<and> ms' = ms\<lparr>ms_epochs := ms_epochs ms @ [epoch_of_provider (Suc (epoch_index ms)) (ms_primary ms) ManualSwitchBack]\<rparr>)"
proof -
  define e where "e = epoch_of_provider (Suc (epoch_index ms)) (ms_primary ms) ManualSwitchBack"
  have "switch_back_manual env ms lc d = io_bind (start_epoch env None e ms lc) (\<lambda>(ms, lc). io_return (Inr e, ms, lc)) d"
    using able
    by (simp add: switch_back_manual_def ensure_session_started_def Let_def next_epoch_index_def checked_add_def e_def
        io_bind_return)
  moreover have "succeeds (io_bind (start_epoch env None e ms lc) (\<lambda>(ms, lc). io_return (Inr e, ms, lc))) d
      (\<lambda>(r, ms', lc') d'. room env n d' \<and> ms' = ms\<lparr>ms_epochs := ms_epochs ms @ [e]\<rparr>)"
    by (rule succeeds_bind [OF start_epoch_succeeds [OF env]]) (auto split: prod.splits)
  ultimately show ?thesis
    unfolding e_def [symmetric] by (metis (no_types) succeeds_cong)
qed

lemma session_opening_succeeds:
  assumes env: "open_store env" "room env (Suc (Suc n)) d" and fresh: "\<not> ms_started ms" "\<not> ms_resumed ms"
  shows "succeeds (ensure_session_started env ms lc) d (\<lambda>(ms', lc') d'. room env n d' \<and> ms' = ms\<lparr>ms_started := True\<rparr>)"
proof -
  have second: "succeeds (io_bind (live_emit env li None event lc1) (\<lambda>(_, lc). io_return (ms\<lparr>ms_started := True\<rparr>, lc))) d1
      (\<lambda>(ms', lc') d'. room env n d' \<and> ms' = ms\<lparr>ms_started := True\<rparr>)" if "room env (Suc n) d1" for li event lc1 d1
    by (rule succeeds_bind [OF live_emit_succeeds [OF env(1) that]]) (auto split: prod.splits)
  show ?thesis
    using fresh unfolding ensure_session_started_def Let_def
    by (simp, intro succeeds_bind [OF live_emit_succeeds [OF env]]) (auto intro: second split: prod.splits)
qed

definition sample_seat :: model_seat where
  "sample_seat =
     (let primary = \<lparr> ps_model = new_model_ref ''local'' ''model'', ps_capabilities = text_only 8192, ps_estimate = (\<lambda>_ _. 0) \<rparr>;
          backup = \<lparr> ps_model = new_model_ref ''b'' ''m'', ps_capabilities = text_only 9000, ps_estimate = (\<lambda>_ _. 0) \<rparr>
      in new_seat primary (Some backup) (policy_with_backup (ps_model backup) (ps_capabilities backup) default_policy)
           ''/work'' ''trace'')"

theorem models_reign_in_turn_witness:
  "\<exists>ms. seat_run roomy_env sample_seat ms
     \<and> map me_reason (ms_epochs ms) = [Initial, AutomaticFailover, ManualSwitchBack, AutomaticFailover]
     \<and> map me_index (ms_epochs ms) = [0, 1, 2, 3]"
proof -
  define f where "f = new_failure Protocol PreRequest ''bad''"
  obtain primary backup policy where seat: "sample_seat = new_seat primary (Some backup) policy ''/work'' ''trace''"
    and refs: "ps_model primary \<noteq> ps_model backup" and gs: "decide policy f = Failover (ps_model backup) []"
    by (simp add: sample_seat_def Let_def new_model_ref_def f_def decide_def new_failure_def safe_to_retry_def
        policy_with_backup_def default_policy_def failover_or_abort_def gaps_def text_only_def has_hard_gap_def)
  have kind: "mf_kind f \<noteq> Cancelled"
    by (simp add: f_def new_failure_def)
  note unfold = seat new_seat_def epoch_of_provider_def active_model_def active_epoch_def epoch_index_def u32_max_def
  have "room roomy_env (Suc (Suc 4094)) empty_session"
    using empty_room by simp
  from session_opening_succeeds [OF roomy_open(1) this, of sample_seat new_live]
  obtain ws0 lc0 where opened: "ensure_session_started roomy_env sample_seat new_live empty_session
      = (ws0, Inr (sample_seat\<lparr>ms_started := True\<rparr>, lc0))" and room0: "room roomy_env 4094 (apply_writes ws0 empty_session)"
    by (auto simp: succeeds_def seat new_seat_def)
  define ms0 where "ms0 = sample_seat\<lparr>ms_started := True\<rparr>"
  define d0 where "d0 = apply_writes ws0 empty_session"
  have run0: "seat_run roomy_env sample_seat ms0"
    using seat_run.opens [OF seat_run.begins opened] by (simp add: ms0_def)
  have "room roomy_env (Suc (Suc 4092)) d0"
    using room0 by (simp add: d0_def)
  from takeover_succeeds [OF roomy_open(1) this, of ms0 f backup "[]" "''turn''" 0 lc0] gs refs kind
  obtain ws1 a1 t1 ms1 lc1 where take1: "recover roomy_env ms0 ''turn'' f False 0 lc0 d0 = (ws1, Inr (a1, t1, ms1, lc1))"
    and room1: "room roomy_env 4092 (apply_writes ws1 d0)"
    and ms1: "ms1 = ms0\<lparr>ms_epochs := ms_epochs ms0 @ [epoch_of_provider (Suc (epoch_index ms0)) backup AutomaticFailover]\<rparr>"
    by (auto simp: succeeds_def ms0_def unfold)
  define d1 where "d1 = apply_writes ws1 d0"
  have run1: "seat_run roomy_env sample_seat ms1"
    by (rule seat_run.recovers [OF run0 take1])
  have "room roomy_env (Suc 4091) d1"
    using room1 by (simp add: d1_def)
  from switch_back_succeeds [OF roomy_open(1) this, of ms1 lc1] refs
  obtain ws2 r2 ms2 lc2 where returned: "switch_back_manual roomy_env ms1 lc1 d1 = (ws2, Inr (r2, ms2, lc2))"
    and room2: "room roomy_env 4091 (apply_writes ws2 d1)"
    and ms2: "ms2 = ms1\<lparr>ms_epochs := ms_epochs ms1 @ [epoch_of_provider (Suc (epoch_index ms1)) (ms_primary ms1) ManualSwitchBack]\<rparr>"
    by (auto simp: succeeds_def ms1 ms0_def unfold)
  define d2 where "d2 = apply_writes ws2 d1"
  have run2: "seat_run roomy_env sample_seat ms2"
    by (rule seat_run.switches_back [OF run1 returned])
  have "room roomy_env (Suc (Suc 4089)) d2"
    using room2 by (simp add: d2_def)
  from takeover_succeeds [OF roomy_open(1) this, of ms2 f backup "[]" "''turn''" 0 lc2] gs refs kind
  obtain ws3 a3 t3 ms3 lc3 where take3: "recover roomy_env ms2 ''turn'' f False 0 lc2 d2 = (ws3, Inr (a3, t3, ms3, lc3))"
    and ms3: "ms3 = ms2\<lparr>ms_epochs := ms_epochs ms2 @ [epoch_of_provider (Suc (epoch_index ms2)) backup AutomaticFailover]\<rparr>"
    by (auto simp: succeeds_def ms2 ms1 ms0_def unfold)
  have run3: "seat_run roomy_env sample_seat ms3"
    by (rule seat_run.recovers [OF run2 take3])
  have reasons: "map me_reason (ms_epochs ms3) = [Initial, AutomaticFailover, ManualSwitchBack, AutomaticFailover]"
    by (simp add: ms3 ms2 ms1 ms0_def seat new_seat_def epoch_of_provider_def)
  have "map me_index (ms_epochs ms3) = [0..<length (ms_epochs ms3)]" "length (ms_epochs ms3) = 4"
    using models_reign_in_turn [OF run3 [unfolded seat]] arg_cong [OF reasons, of length] by auto
  then show ?thesis
    using run3 reasons by (intro exI [of _ ms3]) (simp add: upt_rec)
qed

end
