(* ===== verification/Request_Budget.thy ===== *)
theory Request_Budget
  imports Provider_Contract Live_Context
begin

text \<open>
  \<open>crates/rupi-runtime/src/turn.rs\<close>: the sizes a request and a response are held to. The budget of a
  request is what remains of the window beside the prompt and a reserve; the size of tool arguments
  is measured only up to the limit they must not exceed. The text of a JSON value and of a number is
  a parameter.
\<close>

section \<open>The estimate of a prompt\<close>

definition spec_bytes :: "(json \<Rightarrow> string) \<Rightarrow> tool_spec \<Rightarrow> nat" where
  "spec_bytes js s = length (ts_name s) + length (ts_description s) + length (js (ts_parameters s))"

definition estimate_request_tokens :: "(json \<Rightarrow> string) \<Rightarrow> model_request \<Rightarrow> u64" where
  "estimate_request_tokens js r =
     (let bytes = (case rq_system r of None \<Rightarrow> 0 | Some s \<Rightarrow> length s)
            + sum_list (map (estimate_message_bytes (\<lambda>j. length (js j))) (rq_messages r))
            + sum_list (map (spec_bytes js) (rq_tools r))
      in max (bytes div 4) 1)"

section \<open>The budget\<close>

definition minimum_useful_output_tokens :: u64 where
  "minimum_useful_output_tokens = 256"

record request_budget =
  rb_prompt_tokens_est :: u64
  rb_desired_output_tokens :: "u64 option"
  rb_effective_output_tokens :: "u64 option"
  rb_context_window :: u64
  rb_safety_reserve_tokens :: u64

definition budget_for_request :: "(json \<Rightarrow> string) \<Rightarrow> model_request \<Rightarrow> request_budget" where
  "budget_for_request js r =
     (let prompt = estimate_request_tokens js r; window = cap_context_window (rq_capabilities r);
          reserve = window div 10; available = window - prompt - reserve;
          desired = rq_desired_output_tokens r
      in \<lparr> rb_prompt_tokens_est = prompt, rb_desired_output_tokens = desired,
           rb_effective_output_tokens = map_option (\<lambda>d. min d available) desired,
           rb_context_window = window, rb_safety_reserve_tokens = reserve \<rparr>)"

definition is_unusable :: "request_budget \<Rightarrow> bool" where
  "is_unusable b =
     (if rb_desired_output_tokens b = Some 0 then True
      else let headroom = (if rb_desired_output_tokens b \<noteq> None then rb_safety_reserve_tokens b else 0)
           in sat_add u64_max (rb_prompt_tokens_est b) headroom > rb_context_window b
              \<or> (case (rb_desired_output_tokens b, rb_effective_output_tokens b) of
                   (Some desired, Some effective) \<Rightarrow>
                     effective < desired \<and> effective < minimum_useful_output_tokens
                 | _ \<Rightarrow> False))"

definition context_tokens_est :: "request_budget \<Rightarrow> u64" where
  "context_tokens_est b =
     sat_add u64_max (rb_prompt_tokens_est b) (unwrap_or 0 (rb_effective_output_tokens b))"

definition request_context_tokens :: "(json \<Rightarrow> string) \<Rightarrow> model_request \<Rightarrow> u64" where
  "request_context_tokens js r = context_tokens_est (budget_for_request js r)"

text \<open>C11:
  a request is sent exactly when a useful answer fits: with an output ceiling, when the prompt, the
  reserve of a tenth of the window and the smaller of the ceiling and 256 tokens fit into the window
  together; the allowance it is sent with then keeps the reserve free, is no more than the ceiling and
  useful. Without a ceiling, when the prompt fits.\<close>

theorem usable_request_fits:
  assumes "cap_context_window (rq_capabilities r) < u64_max"
  shows "(\<not> is_unusable (budget_for_request js r) \<longleftrightarrow>
       (case rq_desired_output_tokens r of
          None \<Rightarrow> estimate_request_tokens js r \<le> cap_context_window (rq_capabilities r)
        | Some d \<Rightarrow> 0 < d \<and> estimate_request_tokens js r + cap_context_window (rq_capabilities r) div 10
            + min d minimum_useful_output_tokens \<le> cap_context_window (rq_capabilities r)))
    \<and> (\<forall>d. \<not> is_unusable (budget_for_request js r) \<longrightarrow> rq_desired_output_tokens r = Some d \<longrightarrow>
       (\<exists>e. rb_effective_output_tokens (budget_for_request js r) = Some e
          \<and> request_context_tokens js r + cap_context_window (rq_capabilities r) div 10
              \<le> cap_context_window (rq_capabilities r)
          \<and> e \<le> d \<and> min d minimum_useful_output_tokens \<le> e))"
proof -
  let ?p = "estimate_request_tokens js r" and ?w = "cap_context_window (rq_capabilities r)"
  have sat: "sat_add u64_max ?p x > ?w \<longleftrightarrow> ?p + x > ?w" for x
    using assms by (auto simp: sat_add_def)
  have exact: "\<not> is_unusable (budget_for_request js r) \<longleftrightarrow>
       (case rq_desired_output_tokens r of
          None \<Rightarrow> ?p \<le> ?w
        | Some d \<Rightarrow> 0 < d \<and> ?p + ?w div 10 + min d minimum_useful_output_tokens \<le> ?w)"
  proof (cases "rq_desired_output_tokens r")
    case None
    then show ?thesis
      by (simp add: is_unusable_def budget_for_request_def Let_def sat not_less)
  next
    case (Some d)
    have "\<not> is_unusable (budget_for_request js r) \<longleftrightarrow> 0 < d \<and> ?p + ?w div 10 \<le> ?w
        \<and> \<not> (min d (?w - ?p - ?w div 10) < d \<and> min d (?w - ?p - ?w div 10) < minimum_useful_output_tokens)"
      using Some by (simp add: is_unusable_def budget_for_request_def Let_def sat not_less)
    also have "\<dots> \<longleftrightarrow> 0 < d \<and> ?p + ?w div 10 + min d minimum_useful_output_tokens \<le> ?w"
      by (auto simp: min_def minimum_useful_output_tokens_def)
    finally show ?thesis
      by (simp add: Some)
  qed
  have "\<exists>e. rb_effective_output_tokens (budget_for_request js r) = Some e
      \<and> request_context_tokens js r + ?w div 10 \<le> ?w \<and> e \<le> d \<and> min d minimum_useful_output_tokens \<le> e"
    if usable: "\<not> is_unusable (budget_for_request js r)" and d: "rq_desired_output_tokens r = Some d" for d
  proof -
    have fits: "?p + ?w div 10 + min d minimum_useful_output_tokens \<le> ?w"
      using usable exact d by simp
    have e: "rb_effective_output_tokens (budget_for_request js r) = Some (min d (?w - ?p - ?w div 10))"
      using d by (simp add: budget_for_request_def Let_def)
    then have "request_context_tokens js r \<le> ?p + min d (?w - ?p - ?w div 10)"
      using d by (simp add: request_context_tokens_def context_tokens_est_def budget_for_request_def Let_def sat_add_def)
    with e fits show ?thesis
      by (auto simp: min_def split: if_splits)
  qed
  with exact show ?thesis
    by blast
qed

definition sample_prompt :: "nat \<Rightarrow> model_request" where
  "sample_prompt n =
     (new_request (new_model_ref ''local'' ''model'') (text_only 1000) [user_message (replicate n CHR ''a'')])
       \<lparr>rq_desired_output_tokens := Some 800\<rparr>"

theorem usable_request_fits_witness:
  "\<not> is_unusable (budget_for_request (\<lambda>_. []) (sample_prompt 2000))
   \<and> rb_effective_output_tokens (budget_for_request (\<lambda>_. []) (sample_prompt 2000)) = Some 400
   \<and> is_unusable (budget_for_request (\<lambda>_. []) (sample_prompt 2800))"
proof -
  note facts = sample_prompt_def new_request_def text_only_def user_message_def new_message_def estimate_request_tokens_def
    estimate_message_bytes_def minimum_useful_output_tokens_def u64_max_def Let_def
  have "\<not> is_unusable (budget_for_request (\<lambda>_. []) (sample_prompt 2000))"
    "is_unusable (budget_for_request (\<lambda>_. []) (sample_prompt 2800))"
    using usable_request_fits [of "sample_prompt 2000" "\<lambda>_. []"] usable_request_fits [of "sample_prompt 2800" "\<lambda>_. []"]
    by (simp_all add: facts)
  then show ?thesis
    by (simp add: budget_for_request_def facts)
qed

section \<open>The size of tool arguments\<close>

fun measure_json :: "(json_num \<Rightarrow> string) \<Rightarrow> nat \<Rightarrow> json \<Rightarrow> nat"
  and measure_items :: "(json_num \<Rightarrow> string) \<Rightarrow> nat \<Rightarrow> nat \<Rightarrow> json list \<Rightarrow> nat"
  and measure_members :: "(json_num \<Rightarrow> string) \<Rightarrow> nat \<Rightarrow> nat \<Rightarrow> (string \<times> json) list \<Rightarrow> nat" where
  "measure_json ns limit JNull = min 4 (sat_add usize_max limit 1)"
| "measure_json ns limit (JBool b) = min (if b then 4 else 5) (sat_add usize_max limit 1)"
| "measure_json ns limit (JNum n) = min (length (ns n)) (sat_add usize_max limit 1)"
| "measure_json ns limit (JStr t) = min (sat_add usize_max (length t) 2) (sat_add usize_max limit 1)"
| "measure_json ns limit (JArr items) = min (measure_items ns limit 2 items) (sat_add usize_max limit 1)"
| "measure_json ns limit (JObj members) = min (measure_members ns limit 2 members) (sat_add usize_max limit 1)"
| "measure_items ns limit bytes [] = bytes"
| "measure_items ns limit bytes (item # items) =
     (let bytes = sat_add usize_max (sat_add usize_max bytes (measure_json ns limit item)) 1
      in if bytes > limit then sat_add usize_max limit 1 else measure_items ns limit bytes items)"
| "measure_members ns limit bytes [] = bytes"
| "measure_members ns limit bytes ((name, item) # members) =
     (let bytes = sat_add usize_max (sat_add usize_max (sat_add usize_max bytes (length name))
            (measure_json ns limit item)) 3
      in if bytes > limit then sat_add usize_max limit 1 else measure_members ns limit bytes members)"

definition bounded_json_bytes :: "(json_num \<Rightarrow> string) \<Rightarrow> json \<Rightarrow> nat \<Rightarrow> nat" where
  "bounded_json_bytes ns v limit = measure_json ns limit v"

text \<open>The full size.\<close>

fun json_bytes :: "(json_num \<Rightarrow> string) \<Rightarrow> json \<Rightarrow> nat" where
  "json_bytes ns JNull = 4"
| "json_bytes ns (JBool b) = (if b then 4 else 5)"
| "json_bytes ns (JNum n) = length (ns n)"
| "json_bytes ns (JStr t) = length t + 2"
| "json_bytes ns (JArr items) = 2 + sum_list (map (\<lambda>i. json_bytes ns i + 1) items)"
| "json_bytes ns (JObj members) = 2 + sum_list (map (\<lambda>(n, i). length n + json_bytes ns i + 3) members)"

lemma sat_next: "limit < usize_max \<Longrightarrow> sat_add usize_max limit (Suc 0) = limit + 1"
  by (simp add: sat_add_def)

text \<open>One step of a loop: it stops exactly when the full sum is over the limit, and adds exactly otherwise.\<close>

lemma bounded_step:
  fixes limit :: nat
  assumes "limit < usize_max" "m = min full (limit + 1)"
  shows "sat_add usize_max (sat_add usize_max bytes m) k > limit \<longleftrightarrow> bytes + full + k > limit"
    and "bytes + full + k \<le> limit \<Longrightarrow> sat_add usize_max (sat_add usize_max bytes m) k = bytes + full + k"
proof -
  show "sat_add usize_max (sat_add usize_max bytes m) k > limit \<longleftrightarrow> bytes + full + k > limit"
    using assms by (auto simp: sat_add_def min_def)
  show "bytes + full + k \<le> limit \<Longrightarrow> sat_add usize_max (sat_add usize_max bytes m) k = bytes + full + k"
    using assms by (auto simp: sat_add_def min_def)
qed

lemma measure_exact:
  "limit < usize_max \<Longrightarrow> measure_json ns limit v = min (json_bytes ns v) (limit + 1)"
  "limit < usize_max \<Longrightarrow> min (measure_items ns limit bytes items) (limit + 1)
      = min (bytes + sum_list (map (\<lambda>i. json_bytes ns i + 1) items)) (limit + 1)"
  "limit < usize_max \<Longrightarrow> min (measure_members ns limit bytes members) (limit + 1)
      = min (bytes + sum_list (map (\<lambda>(n, i). length n + json_bytes ns i + 3) members)) (limit + 1)"
proof (induction ns limit v and ns limit bytes items and ns limit bytes members
    rule: measure_json_measure_items_measure_members.induct)
  case (4 ns limit t)
  then show ?case
    by (auto simp: sat_next) (auto simp: sat_add_def)
next
  case (8 ns limit bytes item items)
  define b where "b = sat_add usize_max (sat_add usize_max bytes (measure_json ns limit item)) 1"
  note step = bounded_step [OF 8(3) 8(1) [OF 8(3)], of bytes 1, folded b_def]
  have eq: "measure_items ns limit bytes (item # items)
      = (if b > limit then sat_add usize_max limit 1 else measure_items ns limit b items)"
    by (simp only: measure_items.simps Let_def b_def)
  show ?case
  proof (cases "b > limit")
    case True
    then show ?thesis
      unfolding eq using step(1) 8(3) by (simp add: sat_next min_def)
  next
    case False
    then show ?thesis
      unfolding eq using step 8(2) [OF b_def _ 8(3)] by (simp add: add.assoc)
  qed
next
  case (10 ns limit bytes name item members)
  define b where "b = sat_add usize_max (sat_add usize_max (sat_add usize_max bytes (length name)) (measure_json ns limit item)) 3"
  have sat: "sat_add usize_max (sat_add usize_max bytes (length name)) m = sat_add usize_max (bytes + length name) m" for m
    by (auto simp: sat_add_def min_def)
  note step = bounded_step [OF 10(3) 10(1) [OF 10(3)], of "bytes + length name" 3, folded sat, folded b_def]
  have eq: "measure_members ns limit bytes ((name, item) # members)
      = (if b > limit then sat_add usize_max limit 1 else measure_members ns limit b members)"
    by (simp only: measure_members.simps Let_def b_def)
  show ?case
  proof (cases "b > limit")
    case True
    then show ?thesis
      unfolding eq using step(1) 10(3) by (simp add: sat_next min_def)
  next
    case False
    then show ?thesis
      unfolding eq using step 10(2) [OF b_def _ 10(3)] by (simp add: add.assoc)
  qed
qed (simp_all add: sat_next)

text \<open>C12:
  measuring arguments only as far as the limit loses nothing: the measured size is the full size
  where that is within the limit, and one more than the limit where it is not - for every nesting, and
  with the saturating arithmetic of the code.\<close>

theorem bounded_measure_exact:
  assumes "limit < usize_max"
  shows "bounded_json_bytes ns v limit = (if json_bytes ns v \<le> limit then json_bytes ns v else limit + 1)"
  using measure_exact(1) [OF assms, of ns v] by (simp add: bounded_json_bytes_def min_def)

theorem bounded_measure_exact_witness:
  "bounded_json_bytes (\<lambda>_. ''1'') (JObj [(''path'', JStr ''a''), (''lines'', JArr [JBool True, JNull])]) 20 = 21
    \<and> json_bytes (\<lambda>_. ''1'') (JObj [(''path'', JStr ''a''), (''lines'', JArr [JBool True, JNull])]) = 32"
  using bounded_measure_exact [of 20 "\<lambda>_. ''1''" "JObj [(''path'', JStr ''a''), (''lines'', JArr [JBool True, JNull])]"]
  by (simp add: u64_max_def)

section \<open>What a response that is not a completion becomes\<close>

definition completion_failure :: "completion_usage \<Rightarrow> bool \<Rightarrow> bool \<Rightarrow> model_failure option" where
  "completion_failure usage produced committed =
     (if stopped_at_output_limit usage
      then Some ((with_partial_output committed (new_failure Semantic Normalizing
             ''provider stopped at its output limit before completing the response''))
             \<lparr>mf_detail := us_finish_reason usage\<rparr>)
      else if usage_is_certain usage then None
      else Some (with_partial_output committed
             (new_failure (if produced then Semantic else Protocol) Streaming
                ''the response stream ended without a definitive completion signal'')))"

end
