(* ===== verification/Stream_Collector.thy ===== *)
theory Stream_Collector
  imports Live_Context Request_Budget
begin

text \<open>
  \<open>Collector\<close> of \<open>crates/rupi-runtime/src/turn.rs\<close>: what the turn loop does with the events of a
  response while they arrive. A delta is recorded in the trace first and only then kept and shown; the
  limits of a response are checked again, and the first failure - of the trace or of a limit - is kept
  and cancels the request. The clock and the surface's answer whether output can be taken back are
  arguments.
\<close>

section \<open>The collector\<close>

record collector =
  co_first_delta_ms :: "u64 option"
  co_text :: string
  co_content :: "content_block list"
  co_calls :: "tool_call_block list"
  co_rejected :: "(string, string) btree"
  co_committed :: bool
  co_surface_output :: bool
  co_reasoning_index :: u32
  co_text_index :: u32
  co_reasoning_provenance :: "reasoning_provenance option"
  co_response_events :: nat
  co_text_bytes :: nat
  co_reasoning_bytes :: nat
  co_argument_bytes :: nat
  co_provider_error :: "model_failure option"
  co_sink_error :: "store_error option"
  co_cancelled :: bool
  co_shown :: "provider_event list"

text \<open>\<open>co_shown\<close> lists what was handed to the surface, in order.\<close>

definition new_collector :: collector where
  "new_collector =
     \<lparr> co_first_delta_ms = None, co_text = [], co_content = [], co_calls = [], co_rejected = [],
       co_committed = False, co_surface_output = False, co_reasoning_index = 0, co_text_index = 0,
       co_reasoning_provenance = None, co_response_events = 0, co_text_bytes = 0, co_reasoning_bytes = 0,
       co_argument_bytes = 0, co_provider_error = None, co_sink_error = None, co_cancelled = False,
       co_shown = [] \<rparr>"

definition mark_first_delta :: "u64 \<Rightarrow> collector \<Rightarrow> collector" where
  "mark_first_delta now co =
     (if co_first_delta_ms co = None then co\<lparr>co_first_delta_ms := Some now\<rparr> else co)"

definition append_text_content :: "string \<Rightarrow> content_block list \<Rightarrow> content_block list" where
  "append_text_content t blocks =
     (case rev blocks of
        TextBlock prior # before \<Rightarrow> rev before @ [TextBlock (prior @ t)]
      | _ \<Rightarrow> blocks @ [TextBlock t])"

definition append_reasoning_content ::
  "string \<Rightarrow> reasoning_provenance \<Rightarrow> content_block list \<Rightarrow> content_block list" where
  "append_reasoning_content t p blocks =
     (case rev blocks of
        ReasoningBlock c # before \<Rightarrow>
          (if rc_provenance c = p then rev before @ [ReasoningBlock (c\<lparr>rc_text := rc_text c @ t\<rparr>)]
           else blocks @ [ReasoningBlock (new_chunk t p)])
      | _ \<Rightarrow> blocks @ [ReasoningBlock (new_chunk t p)])"

definition reject_response :: "string \<Rightarrow> collector \<Rightarrow> collector" where
  "reject_response message co =
     (if co_provider_error co = None
      then co\<lparr>co_provider_error := Some (with_partial_output (co_committed co) (new_failure Protocol Normalizing message)),
              co_cancelled := True\<rparr>
      else co)"

text \<open>\<open>None\<close> when the aggregate limit of events is reached.\<close>

definition account_collected_event :: "collector \<Rightarrow> collector option" where
  "account_collected_event co =
     (if max_response_events \<le> co_response_events co then None
      else Some (co\<lparr>co_response_events := co_response_events co + 1\<rparr>))"

definition too_many_events :: string where
  "too_many_events = ''provider response exceeded the '' @ show_nat max_response_events @ ''-event aggregate limit''"

text \<open>The trace's error is kept in the collector; the caller learns whether the event was recorded.\<close>

definition trace_event ::
  "store_env \<Rightarrow> loop_identity \<Rightarrow> turn_id \<Rightarrow> agent_event \<Rightarrow> collector \<Rightarrow> store_trace
    \<Rightarrow> (bool \<times> collector \<times> store_trace) io" where
  "trace_event env li turn event co st d =
     (if co_sink_error co \<noteq> None \<or> co_provider_error co \<noteq> None then ([], Inr (False, co, st))
      else case trace_emit env (loop_envelope env li (length (du_trace d)) (Some turn) event) st d of
             (ws, Inl e) \<Rightarrow> (ws, Inr (False, co\<lparr>co_sink_error := Some e, co_cancelled := True\<rparr>, st))
           | (ws, Inr (_, st')) \<Rightarrow> (ws, Inr (True, co, st')))"

section \<open>Events of a response\<close>

record collector_env =
  ce_store :: store_env
  ce_identity :: loop_identity
  ce_turn :: turn_id
  ce_irreversible :: bool
  ce_number :: "json_num \<Rightarrow> string"

definition collect_thought ::
  "collector_env \<Rightarrow> string \<Rightarrow> reasoning_provenance \<Rightarrow> collector \<Rightarrow> store_trace \<Rightarrow> (collector \<times> store_trace) io" where
  "collect_thought ce t p co st =
     (if sat_add usize_max (co_reasoning_bytes co) (length t) > max_response_reasoning_bytes
      then io_return (reject_response (''provider response exceeded the '' @ show_nat max_response_reasoning_bytes
             @ ''-byte aggregate reasoning limit'') co, st)
      else let co = co\<lparr>co_reasoning_bytes := co_reasoning_bytes co + length t\<rparr>
           in io_bind (trace_event (ce_store ce) (ce_identity ce) (ce_turn ce) (ReasoningDeltaEv
                \<lparr> rde_text = t, rde_provenance = p, rde_chunk_index = co_reasoning_index co \<rparr>) co st) (\<lambda>(traced, co, st).
              io_return (if traced
                then co\<lparr>co_reasoning_index := sat_add u32_max (co_reasoning_index co) 1,
                        co_reasoning_provenance := Some p, co_committed := True,
                        co_content := append_reasoning_content t p (co_content co),
                        co_surface_output := co_surface_output co \<or> t \<noteq> [] \<and> ce_irreversible ce,
                        co_shown := co_shown co @ [ReasoningDelta t p]\<rparr>
                else co, st)))"

definition collect_text ::
  "collector_env \<Rightarrow> string \<Rightarrow> collector \<Rightarrow> store_trace \<Rightarrow> (collector \<times> store_trace) io" where
  "collect_text ce t co st =
     (if sat_add usize_max (co_text_bytes co) (length t) > max_response_text_bytes
      then io_return (reject_response (''provider response exceeded the '' @ show_nat max_response_text_bytes
             @ ''-byte aggregate text limit'') co, st)
      else let co = co\<lparr>co_text_bytes := co_text_bytes co + length t\<rparr>
           in io_bind (trace_event (ce_store ce) (ce_identity ce) (ce_turn ce) (AssistantDeltaEv
                \<lparr> ad_text = t, ad_chunk_index = co_text_index co \<rparr>) co st) (\<lambda>(traced, co, st).
              io_return (if traced
                then co\<lparr>co_text_index := sat_add u32_max (co_text_index co) 1, co_committed := True,
                        co_content := append_text_content t (co_content co),
                        co_surface_output := co_surface_output co \<or> t \<noteq> [] \<and> ce_irreversible ce,
                        co_text := co_text co @ t, co_shown := co_shown co @ [TextDelta t]\<rparr>
                else co, st)))"

definition identity_too_long :: "string \<Rightarrow> string \<Rightarrow> bool" where
  "identity_too_long name i \<longleftrightarrow> length name > max_tool_name_bytes \<or> length i > max_tool_id_bytes"

definition too_many_calls :: string where
  "too_many_calls = ''provider response exceeded the '' @ show_nat max_response_tool_calls @ ''-tool-call limit''"

definition collect_call :: "collector_env \<Rightarrow> tool_call_block \<Rightarrow> collector \<Rightarrow> collector" where
  "collect_call ce call co =
     (if identity_too_long (tc_name call) (tc_id call)
      then reject_response ''provider tool-call identity exceeded response limits'' co
      else let bytes = bounded_json_bytes (ce_number ce) (tc_arguments call) max_tool_argument_bytes_per_call;
               total = sat_add usize_max (co_argument_bytes co) bytes
           in if max_response_tool_calls \<le> length (co_calls co) then reject_response too_many_calls co
              else if bytes > max_tool_argument_bytes_per_call \<or> total > max_tool_argument_bytes_total
              then reject_response ''provider response exceeded tool-argument byte limits'' co
              else co\<lparr>co_argument_bytes := total, co_committed := True, co_calls := co_calls co @ [call]\<rparr>)"

definition collect_rejected :: "string \<Rightarrow> string \<Rightarrow> string \<Rightarrow> collector \<Rightarrow> collector" where
  "collect_rejected i name reason co =
     (if identity_too_long name i then reject_response ''provider tool-call identity exceeded response limits'' co
      else if max_response_tool_calls \<le> length (co_calls co) then reject_response too_many_calls co
      else if co_sink_error co = None
      then co\<lparr>co_committed := True,
              co_calls := co_calls co @ [\<lparr> tc_id = i, tc_name = name, tc_arguments = JObj [] \<rparr>],
              co_rejected := bt_insert i reason (co_rejected co)\<rparr>
      else co)"

definition collect_event ::
  "collector_env \<Rightarrow> u64 \<Rightarrow> provider_event \<Rightarrow> collector \<Rightarrow> store_trace \<Rightarrow> (collector \<times> store_trace) io" where
  "collect_event ce now event co st =
     (if co_sink_error co \<noteq> None \<or> co_provider_error co \<noteq> None then io_return (co, st)
      else let co = mark_first_delta now co
           in case account_collected_event co of
                None \<Rightarrow> io_return (reject_response too_many_events co, st)
              | Some co \<Rightarrow>
                 (case event of
                    ReasoningDelta t p \<Rightarrow> collect_thought ce t p co st
                  | TextDelta t \<Rightarrow> collect_text ce t co st
                  | ToolCallEvent call \<Rightarrow> io_return (collect_call ce call co, st)
                  | ToolCallRejected i name reason \<Rightarrow> io_return (collect_rejected i name reason co, st)))"

text \<open>The events of a response in the order they arrive, each with the time on the clock.\<close>

fun collect_events ::
  "collector_env \<Rightarrow> (u64 \<times> provider_event) list \<Rightarrow> collector \<Rightarrow> store_trace \<Rightarrow> (collector \<times> store_trace) io" where
  "collect_events ce [] co st = io_return (co, st)"
| "collect_events ce ((now, event) # events) co st =
     io_bind (collect_event ce now event co st) (\<lambda>(co, st). collect_events ce events co st)"

end
