(* ===== verification/Collector_Tee.thy ===== *)
theory Collector_Tee
  imports Stream_Collector Session_Resume
begin

text \<open>
  The order the collector keeps: nothing is shown that is not recorded, nothing is recorded that is not
  kept, and a response counts as committed exactly when something of it went out or was accepted.
\<close>

section \<open>Deltas in the trace\<close>

fun delta_of :: "agent_event \<Rightarrow> (provider_event \<times> nat) option" where
  "delta_of (ReasoningDeltaEv r) = Some (ReasoningDelta (rde_text r) (rde_provenance r), rde_chunk_index r)"
| "delta_of (AssistantDeltaEv a) = Some (TextDelta (ad_text a), ad_chunk_index a)"
| "delta_of _ = None"

definition deltas :: "trace_entry list \<Rightarrow> (provider_event \<times> nat) list" where
  "deltas ls = List.map_filter (\<lambda>l. delta_of (entry_event l)) ls"

text \<open>Redaction and externalization leave deltas as they are.\<close>

definition keeps_deltas :: "store_env \<Rightarrow> bool" where
  "keeps_deltas env \<longleftrightarrow> (\<forall>e l. sv_line env e = Some l \<longrightarrow> delta_of (entry_event l) = delta_of (entry_event e))"

fun is_text_delta :: "provider_event \<Rightarrow> bool" where
  "is_text_delta (TextDelta _) = True"
| "is_text_delta _ = False"

fun text_of_delta :: "provider_event \<Rightarrow> string" where
  "text_of_delta (TextDelta t) = t"
| "text_of_delta _ = []"

lemma deltas_append: "deltas (xs @ ys) = deltas xs @ deltas ys"
  by (induction xs) (simp_all add: deltas_def List.map_filter_def)

lemma deltas_Nil: "deltas [] = []"
  by (simp add: deltas_def List.map_filter_def)

lemma deltas_one: "delta_of (entry_event l) = Some x \<Longrightarrow> deltas [l] = [x]"
  by (simp add: deltas_def List.map_filter_def)

lemma emit_delta:
  assumes "delta_of event = Some x" "keeps_deltas env"
  shows "(\<exists>err. trace_emit env (loop_envelope env li n turn event) st d = ([], Inl err))
    \<or> (\<exists>l e'. trace_emit env (loop_envelope env li n turn event) st d = ([TraceAppend l], Inr (e', st))
         \<and> delta_of (entry_event l) = Some x)"
proof -
  define e where "e = loop_envelope env li n turn event"
  have ev: "ee_event e = event"
    by (simp add: e_def loop_envelope_def new_envelope_def case_prod_beta)
  have plain: "projection_of (note_range event st) e = None" "note_range event st = st"
    "\<not> holds_for_message event" "\<not> holds_for_compaction event" "\<not> is_compaction_done event" "after_emit event i st = st" for i
    using assms(1) by (cases event; simp add: projection_of_def note_range_def after_emit_def ev)+
  have run: "trace_emit env e st d = io_bind (session_emit env e) (\<lambda>w. io_return (w, st)) d"
    using plain by (simp add: trace_emit_def ev Let_def io_bind_def case_prod_beta split: sum.split prod.split)
  show ?thesis
  proof (cases "checked_next_seq (du_trace d)")
    case (Inl err)
    then show ?thesis
      unfolding e_def [symmetric] run by (simp add: session_emit_def journal_append_def io_bind_def)
  next
    case (Inr s)
    show ?thesis
    proof (cases "sv_line env (plain_entry (with_seq s e))")
      case None
      with Inr show ?thesis
        unfolding e_def [symmetric] run by (simp add: session_emit_def journal_append_def io_bind_def)
    next
      case (Some l)
      then have "delta_of (entry_event l) = Some x"
        using assms unfolding keeps_deltas_def by (simp add: plain_entry_def with_seq_def ev)
      with Inr Some show ?thesis
        unfolding e_def [symmetric] run by (simp add: session_emit_def journal_append_def io_bind_def)
    qed
  qed
qed

section \<open>The invariant of the tee\<close>

definition limits_hold :: "collector \<Rightarrow> bool" where
  "limits_hold co \<longleftrightarrow>
     co_response_events co \<le> max_response_events \<and> co_text_bytes co \<le> max_response_text_bytes
     \<and> co_reasoning_bytes co \<le> max_response_reasoning_bytes \<and> co_argument_bytes co \<le> max_tool_argument_bytes_total
     \<and> length (co_calls co) \<le> max_response_tool_calls \<and> length (co_text co) \<le> co_text_bytes co"

definition teed :: "nat \<Rightarrow> trace_entry list \<Rightarrow> collector \<Rightarrow> bool" where
  "teed k ls co \<longleftrightarrow>
     map fst (deltas ls) = co_shown co
     \<and> map snd (filter (\<lambda>x. is_text_delta (fst x)) (deltas ls)) = [0..<co_text_index co]
     \<and> map snd (filter (\<lambda>x. \<not> is_text_delta (fst x)) (deltas ls)) = [0..<co_reasoning_index co]
     \<and> co_text co = concat (map text_of_delta (co_shown co))
     \<and> (co_committed co \<longleftrightarrow> co_shown co \<noteq> [] \<or> co_calls co \<noteq> [])
     \<and> length (co_shown co) + k \<le> co_response_events co
     \<and> limits_hold co"

lemma teed_indices:
  assumes "teed k ls co"
  shows "co_text_index co + k \<le> co_response_events co" "co_reasoning_index co + k \<le> co_response_events co"
proof -
  have "co_text_index co = length (filter (\<lambda>x. is_text_delta (fst x)) (deltas ls))"
    "co_reasoning_index co = length (filter (\<lambda>x. \<not> is_text_delta (fst x)) (deltas ls))"
    using assms arg_cong [where f = length] unfolding teed_def by (metis diff_zero length_map length_upt)+
  moreover have "length (deltas ls) + k \<le> co_response_events co"
    using assms unfolding teed_def by (metis length_map)
  ultimately show "co_text_index co + k \<le> co_response_events co" "co_reasoning_index co + k \<le> co_response_events co"
    using length_filter_le [of "\<lambda>x. is_text_delta (fst x)" "deltas ls"]
      length_filter_le [of "\<lambda>x. \<not> is_text_delta (fst x)" "deltas ls"] by linarith+
qed

lemma sat_index: "n + 1 \<le> m \<Longrightarrow> m \<le> max_response_events \<Longrightarrow> sat_add u32_max n (Suc 0) = Suc n"
  by (simp add: sat_add_def u32_max_def max_response_events_def)

lemma teed_reject: "teed k ls co \<Longrightarrow> teed 0 ls (reject_response m co)"
  by (auto simp: teed_def reject_response_def limits_hold_def)

lemma teed_less: "teed k ls co \<Longrightarrow> teed 0 ls co"
  by (simp add: teed_def)

lemma new_collector_teed: "teed 0 [] new_collector"
  by (simp add: teed_def new_collector_def deltas_Nil limits_hold_def)

text \<open>What an attempt to record a delta leaves.\<close>

lemma trace_delta:
  assumes "delta_of event = Some x" "keeps_deltas env"
    and "trace_event env li turn event co st d = (ws, r)"
  shows "(\<exists>co'. r = Inr (False, co', st) \<and> ws = [] \<and> (co' = co \<or> (\<exists>e. co' = co\<lparr>co_sink_error := Some e, co_cancelled := True\<rparr>)))
    \<or> (\<exists>l. r = Inr (True, co, st) \<and> ws = [TraceAppend l] \<and> deltas [l] = [x])"
proof (cases "co_sink_error co \<noteq> None \<or> co_provider_error co \<noteq> None")
  case True
  then have "r = Inr (False, co, st) \<and> ws = []"
    using assms(3) unfolding trace_event_def if_P [OF True] by simp
  then show ?thesis
    by blast
next
  case False
  have run: "(case trace_emit env (loop_envelope env li (length (du_trace d)) (Some turn) event) st d of
             (ws, Inl e) \<Rightarrow> (ws, Inr (False, co\<lparr>co_sink_error := Some e, co_cancelled := True\<rparr>, st))
           | (ws, Inr (_, st')) \<Rightarrow> (ws, Inr (True, co, st'))) = (ws, r)"
    using assms(3) unfolding trace_event_def if_not_P [OF False] .
  from emit_delta [OF assms(1,2), of li "length (du_trace d)" "Some turn" st d] show ?thesis
  proof (elim disjE exE conjE)
    fix err assume "trace_emit env (loop_envelope env li (length (du_trace d)) (Some turn) event) st d = ([], Inl err)"
    then have "r = Inr (False, co\<lparr>co_sink_error := Some err, co_cancelled := True\<rparr>, st) \<and> ws = []"
      using run by simp
    then show ?thesis
      by blast
  next
    fix l e' assume "trace_emit env (loop_envelope env li (length (du_trace d)) (Some turn) event) st d
        = ([TraceAppend l], Inr (e', st))" and l: "delta_of (entry_event l) = Some x"
    then have "r = Inr (True, co, st) \<and> ws = [TraceAppend l]"
      using run by simp
    then show ?thesis
      using deltas_one [OF l] by blast
  qed
qed

lemma collect_text_teed:
  assumes "teed 1 ls co" "keeps_deltas (ce_store ce)" "du_trace d = t @ ls"
    and "collect_text ce s co st d = (ws, r)"
  shows "\<exists>co' st' ls'. r = Inr (co', st') \<and> du_trace (apply_writes ws d) = t @ ls' \<and> teed 0 ls' co'"
proof (cases "sat_add usize_max (co_text_bytes co) (length s) > max_response_text_bytes")
  case True
  then show ?thesis
    using assms teed_reject by (auto simp: collect_text_def)
next
  case False
  then have small: "co_text_bytes co + length s \<le> max_response_text_bytes"
    by (auto simp: sat_add_def u64_max_def max_response_text_bytes_def min_def split: if_splits)
  define co1 where "co1 = co\<lparr>co_text_bytes := co_text_bytes co + length s\<rparr>"
  define event where "event = AssistantDeltaEv \<lparr> ad_text = s, ad_chunk_index = co_text_index co1 \<rparr>"
  have one: "teed 1 ls co1"
    using assms(1) small by (auto simp: teed_def limits_hold_def co1_def)
  obtain ws1 r1 where tr: "trace_event (ce_store ce) (ce_identity ce) (ce_turn ce) event co1 st d = (ws1, r1)"
    by (cases "trace_event (ce_store ce) (ce_identity ce) (ce_turn ce) event co1 st d")
  have delta: "delta_of event = Some (TextDelta s, co_text_index co)"
    by (simp add: event_def co1_def)
  have run: "(ws, r) = io_bind (trace_event (ce_store ce) (ce_identity ce) (ce_turn ce) event co1 st) (\<lambda>(traced, co, st).
              io_return (if traced
                then co\<lparr>co_text_index := sat_add u32_max (co_text_index co) 1, co_committed := True,
                        co_content := append_text_content s (co_content co),
                        co_surface_output := co_surface_output co \<or> s \<noteq> [] \<and> ce_irreversible ce,
                        co_text := co_text co @ s, co_shown := co_shown co @ [TextDelta s]\<rparr>
                else co, st)) d"
    using assms(4) False by (simp add: collect_text_def Let_def co1_def event_def)
  from trace_delta [OF delta assms(2) tr] show ?thesis
  proof (elim disjE exE conjE)
    fix co' assume "r1 = Inr (False, co', st)" "ws1 = []" "co' = co1"
    then show ?thesis
      using run tr assms(3) teed_less [OF one] by (simp add: io_bind_def)
  next
    fix co' e assume "r1 = Inr (False, co', st)" "ws1 = []" "co' = co1\<lparr>co_sink_error := Some e, co_cancelled := True\<rparr>"
    moreover have "teed 0 ls (co1\<lparr>co_sink_error := Some e, co_cancelled := True\<rparr>)"
      using one by (auto simp: teed_def limits_hold_def)
    ultimately show ?thesis
      using run tr assms(3) by (simp add: io_bind_def)
  next
    fix l assume l: "r1 = Inr (True, co1, st)" "ws1 = [TraceAppend l]" "deltas [l] = [(TextDelta s, co_text_index co)]"
    have idx: "sat_add u32_max (co_text_index co) (Suc 0) = Suc (co_text_index co)"
      by (rule sat_index [OF teed_indices(1) [OF assms(1)]]) (use assms(1) in \<open>simp add: teed_def limits_hold_def\<close>)
    have "teed 0 (ls @ [l]) (co1\<lparr>co_text_index := Suc (co_text_index co), co_committed := True,
                        co_content := append_text_content s (co_content co1),
                        co_surface_output := co_surface_output co1 \<or> s \<noteq> [] \<and> ce_irreversible ce,
                        co_text := co_text co1 @ s, co_shown := co_shown co1 @ [TextDelta s]\<rparr>)"
      using assms(1) small l(3) by (auto simp: teed_def limits_hold_def co1_def deltas_append)
    then show ?thesis
      using run tr l assms(3) idx by (auto simp: io_bind_def co1_def)
  qed
qed

lemma collect_thought_teed:
  assumes "teed 1 ls co" "keeps_deltas (ce_store ce)" "du_trace d = t @ ls"
    and "collect_thought ce s p co st d = (ws, r)"
  shows "\<exists>co' st' ls'. r = Inr (co', st') \<and> du_trace (apply_writes ws d) = t @ ls' \<and> teed 0 ls' co'"
proof (cases "sat_add usize_max (co_reasoning_bytes co) (length s) > max_response_reasoning_bytes")
  case True
  then show ?thesis
    using assms teed_reject by (auto simp: collect_thought_def)
next
  case False
  then have small: "co_reasoning_bytes co + length s \<le> max_response_reasoning_bytes"
    by (auto simp: sat_add_def u64_max_def max_response_reasoning_bytes_def min_def split: if_splits)
  define co1 where "co1 = co\<lparr>co_reasoning_bytes := co_reasoning_bytes co + length s\<rparr>"
  define event where "event = ReasoningDeltaEv
    \<lparr> rde_text = s, rde_provenance = p, rde_chunk_index = co_reasoning_index co1 \<rparr>"
  have one: "teed 1 ls co1"
    using assms(1) small by (auto simp: teed_def limits_hold_def co1_def)
  obtain ws1 r1 where tr: "trace_event (ce_store ce) (ce_identity ce) (ce_turn ce) event co1 st d = (ws1, r1)"
    by (cases "trace_event (ce_store ce) (ce_identity ce) (ce_turn ce) event co1 st d")
  have delta: "delta_of event = Some (ReasoningDelta s p, co_reasoning_index co)"
    by (simp add: event_def co1_def)
  have run: "(ws, r) = io_bind (trace_event (ce_store ce) (ce_identity ce) (ce_turn ce) event co1 st) (\<lambda>(traced, co, st).
              io_return (if traced
                then co\<lparr>co_reasoning_index := sat_add u32_max (co_reasoning_index co) 1,
                        co_reasoning_provenance := Some p, co_committed := True,
                        co_content := append_reasoning_content s p (co_content co),
                        co_surface_output := co_surface_output co \<or> s \<noteq> [] \<and> ce_irreversible ce,
                        co_shown := co_shown co @ [ReasoningDelta s p]\<rparr>
                else co, st)) d"
    using assms(4) False by (simp add: collect_thought_def Let_def co1_def event_def)
  from trace_delta [OF delta assms(2) tr] show ?thesis
  proof (elim disjE exE conjE)
    fix co' assume "r1 = Inr (False, co', st)" "ws1 = []" "co' = co1"
    then show ?thesis
      using run tr assms(3) teed_less [OF one] by (simp add: io_bind_def)
  next
    fix co' e assume "r1 = Inr (False, co', st)" "ws1 = []" "co' = co1\<lparr>co_sink_error := Some e, co_cancelled := True\<rparr>"
    moreover have "teed 0 ls (co1\<lparr>co_sink_error := Some e, co_cancelled := True\<rparr>)"
      using one by (auto simp: teed_def limits_hold_def)
    ultimately show ?thesis
      using run tr assms(3) by (simp add: io_bind_def)
  next
    fix l assume l: "r1 = Inr (True, co1, st)" "ws1 = [TraceAppend l]"
      "deltas [l] = [(ReasoningDelta s p, co_reasoning_index co)]"
    have idx: "sat_add u32_max (co_reasoning_index co) (Suc 0) = Suc (co_reasoning_index co)"
      by (rule sat_index [OF teed_indices(2) [OF assms(1)]]) (use assms(1) in \<open>simp add: teed_def limits_hold_def\<close>)
    have "teed 0 (ls @ [l]) (co1\<lparr>co_reasoning_index := Suc (co_reasoning_index co),
                        co_reasoning_provenance := Some p, co_committed := True,
                        co_content := append_reasoning_content s p (co_content co1),
                        co_surface_output := co_surface_output co1 \<or> s \<noteq> [] \<and> ce_irreversible ce,
                        co_shown := co_shown co1 @ [ReasoningDelta s p]\<rparr>)"
      using assms(1) small l(3) by (auto simp: teed_def limits_hold_def co1_def deltas_append)
    then show ?thesis
      using run tr l assms(3) idx by (auto simp: io_bind_def co1_def)
  qed
qed

lemma collect_call_teed: "teed 1 ls co \<Longrightarrow> teed 0 ls (collect_call ce call co)"
  using teed_reject [of 1 ls co] teed_less [of 1 ls co]
  by (auto simp: collect_call_def Let_def) (auto simp: teed_def limits_hold_def)

lemma collect_rejected_teed: "teed 1 ls co \<Longrightarrow> teed 0 ls (collect_rejected i name reason co)"
  using teed_reject [of 1 ls co] teed_less [of 1 ls co]
  by (auto simp: collect_rejected_def) (auto simp: teed_def limits_hold_def)

lemma collect_event_teed:
  assumes "teed 0 ls co" "keeps_deltas (ce_store ce)" "du_trace d = t @ ls"
    and run: "collect_event ce now event co st d = (ws, r)"
  shows "\<exists>co' st' ls'. r = Inr (co', st') \<and> du_trace (apply_writes ws d) = t @ ls' \<and> teed 0 ls' co'"
proof (cases "co_sink_error co \<noteq> None \<or> co_provider_error co \<noteq> None")
  case True
  then show ?thesis
    using run assms(1,3) unfolding collect_event_def if_P [OF True] by auto
next
  case False
  define co1 where "co1 = mark_first_delta now co"
  have one: "teed 0 ls co1"
    using assms(1) by (auto simp: co1_def mark_first_delta_def teed_def limits_hold_def)
  have run1: "(case account_collected_event co1 of
                None \<Rightarrow> io_return (reject_response too_many_events co1, st)
              | Some co \<Rightarrow>
                 (case event of
                    ReasoningDelta t p \<Rightarrow> collect_thought ce t p co st
                  | TextDelta t \<Rightarrow> collect_text ce t co st
                  | ToolCallEvent call \<Rightarrow> io_return (collect_call ce call co, st)
                  | ToolCallRejected i name reason \<Rightarrow> io_return (collect_rejected i name reason co, st))) d = (ws, r)"
    using run unfolding collect_event_def if_not_P [OF False] Let_def co1_def .
  show ?thesis
  proof (cases "account_collected_event co1")
    case None
    then show ?thesis
      using run1 assms(3) teed_reject [OF one] by auto
  next
    case (Some co2)
    then have two: "teed 1 ls co2"
      using one by (auto simp: account_collected_event_def teed_def limits_hold_def split: if_splits)
    show ?thesis
    proof (cases event)
      case (ReasoningDelta s p)
      then show ?thesis
        using collect_thought_teed [OF two assms(2,3)] run1 Some by simp
    next
      case (TextDelta s)
      then show ?thesis
        using collect_text_teed [OF two assms(2,3)] run1 Some by simp
    next
      case (ToolCallEvent call)
      then show ?thesis
        using collect_call_teed [OF two] run1 Some assms(3) by auto
    next
      case (ToolCallRejected i name reason)
      then show ?thesis
        using collect_rejected_teed [OF two] run1 Some assms(3) by auto
    qed
  qed
qed

lemma collect_events_teed:
  assumes "keeps_deltas (ce_store ce)" "teed 0 ls co" "du_trace d = t @ ls"
  shows "\<exists>ws co' st' ls'. collect_events ce events co st d = (ws, Inr (co', st'))
    \<and> du_trace (apply_writes ws d) = t @ ls' \<and> teed 0 ls' co'"
  using assms(2,3)
proof (induction events arbitrary: co st ls d)
  case Nil
  then show ?case
    by auto
next
  case (Cons e events)
  obtain now event where e: "e = (now, event)"
    by (cases e)
  obtain ws r where run: "collect_event ce now event co st d = (ws, r)"
    by (cases "collect_event ce now event co st d")
  obtain co1 st1 ls1 where one: "r = Inr (co1, st1)" "du_trace (apply_writes ws d) = t @ ls1" "teed 0 ls1 co1"
    using collect_event_teed [OF Cons.prems(1) assms(1) Cons.prems(2) run] by blast
  obtain vs co' st' ls' where rest: "collect_events ce events co1 st1 (apply_writes ws d) = (vs, Inr (co', st'))"
    "du_trace (apply_writes vs (apply_writes ws d)) = t @ ls'" "teed 0 ls' co'"
    using Cons.IH [OF one(3,2)] by blast
  have "collect_events ce (e # events) co st d = (ws @ vs, Inr (co', st'))"
    using run one(1) rest(1) by (simp add: e io_bind_def)
  then show ?case
    using rest(2,3) by (intro exI [of _ "ws @ vs"] exI [of _ co'] exI [of _ st'] exI [of _ ls']) simp
qed


definition sample_collector_env :: collector_env where
  "sample_collector_env =
     \<lparr> ce_store = roomy_env, ce_identity = sample_identity, ce_turn = ''turn'', ce_irreversible = True,
       ce_number = (\<lambda>_. ''1'') \<rparr>"


end
