(* ===== verification/Turn_Requests.thy ===== *)
theory Turn_Requests
  imports Turn_Recovery Turn_Tools Stream_Collector
begin

text \<open>
  \<open>crates/rupi-runtime/src/turn.rs\<close>: the state of a turn and the requests it assembles. The tools a
  request exposes depend on the model, on the approval the surface can give and on the progress
  boundary; the window is reduced by the context policy and, when the prompt still does not fit, by
  eviction. Providers, tools, the surface and the clock act on an outer world \<open>'w\<close>.
\<close>

section \<open>Outcomes of a turn\<close>

datatype turn_error =
  Unavailable model_failure
| AbortedTurn turn_status
| SinkText string
| RefusedAction string

definition turn_error_kind :: "turn_error \<Rightarrow> model_failure_kind option" where
  "turn_error_kind e =
     (case e of
        Unavailable f \<Rightarrow> Some (mf_kind f)
      | AbortedTurn (TurnFailed k) \<Rightarrow> Some k
      | _ \<Rightarrow> None)"

definition session_recoverable :: "turn_error \<Rightarrow> bool" where
  "session_recoverable e \<longleftrightarrow> (case e of SinkText _ \<Rightarrow> False | _ \<Rightarrow> True)"

record turn_report =
  rep_turn_id :: turn_id
  rep_status :: turn_status
  rep_text :: string
  rep_tool_calls :: u32
  rep_requests :: usize
  rep_epoch :: u32
  rep_duration_ms :: u64
  rep_budget_exhausted :: bool

definition new_report :: "turn_id \<Rightarrow> u32 \<Rightarrow> turn_report" where
  "new_report turn epoch =
     \<lparr> rep_turn_id = turn, rep_status = TurnDone, rep_text = [], rep_tool_calls = 0, rep_requests = 0,
       rep_epoch = epoch, rep_duration_ms = 0, rep_budget_exhausted = False \<rparr>"

datatype turn_failure =
  TurnStopped
| ProviderOverflow model_failure
| OutputTruncated model_failure u64 u64 bool
| FatalFailure model_failure
| StoreStopped string

text \<open>\<open>From<TurnError>\<close>. A store that fails while it writes is an error of the operation itself.\<close>

definition failure_of_error :: "turn_error \<Rightarrow> turn_failure" where
  "failure_of_error e =
     (case e of
        Unavailable f \<Rightarrow> FatalFailure f
      | AbortedTurn _ \<Rightarrow> FatalFailure (new_failure ContextOverflow PreRequest ''context refused the request'')
      | RefusedAction m \<Rightarrow> FatalFailure (new_failure Protocol PreRequest m)
      | SinkText m \<Rightarrow> StoreStopped m)"

section \<open>The loop\<close>

datatype compaction_strategy = EvictOldest | SummarizeOldest

text \<open>
  What a turn does not change: the settings of the loop, the surface and the providers. A provider
  answers a request with its events, each with the time on the clock, and its outcome; it can see
  the cancellation a rejected event causes, but whatever it does after one is ignored.
\<close>

record 'w loop_env =
  lp_turn :: "'w turn_env"
  lp_system :: "string option"
  lp_thinking :: thinking_level
  lp_max_requests :: usize
  lp_progress_limit :: "usize option"
  lp_interactive_approval :: bool
  lp_approval_available :: "'w \<Rightarrow> bool"
  lp_irreversible :: bool
  lp_policy_warning :: "context_state \<Rightarrow> string option"
  lp_policy_evaluate :: "context_state \<Rightarrow> context_decision"
  lp_strategy :: compaction_strategy
  lp_has_summarizer :: bool
  lp_summarize :: summarizer
  lp_checkpoint_auto :: bool
  lp_capsule :: "message list \<Rightarrow> context_state \<Rightarrow> string \<Rightarrow> context_capsule"
  lp_json :: "json \<Rightarrow> string"
  lp_number :: "json_num \<Rightarrow> string"
  lp_stream :: "model_ref \<Rightarrow> model_request \<Rightarrow> 'w
    \<Rightarrow> (u64 \<times> provider_event) list \<times> (model_failure + completion_usage) \<times> 'w"
  lp_reset :: "model_ref \<Rightarrow> 'w \<Rightarrow> 'w"
  lp_sleep :: "u64 \<Rightarrow> 'w \<Rightarrow> 'w"
  lp_on_request :: "model_ref \<Rightarrow> usize \<Rightarrow> usize \<Rightarrow> 'w \<Rightarrow> 'w"
  lp_on_user :: "string \<Rightarrow> 'w \<Rightarrow> 'w"
  lp_on_shown :: "provider_event list \<Rightarrow> 'w \<Rightarrow> 'w"

record 'w turn_state =
  tt_seat :: model_seat
  tt_live :: live_context
  tt_world :: 'w
  tt_requests :: usize
  tt_start :: nat
  tt_silent_requests :: usize
  tt_boundary :: bool
  tt_boundary_used :: bool
  tt_tools_enabled :: bool
  tt_can_approve :: bool
  tt_adjusted :: "(string \<times> u64) list"
  tt_last_shed :: "'w option"
  tt_interrupted :: "interrupted_tool_call list"
  tt_blocked :: bool

type_synonym ('w, 'a) turn_io = "'w turn_state \<Rightarrow> ('a \<times> 'w turn_state) io"

definition loop_store :: "'w loop_env \<Rightarrow> store_env" where
  "loop_store lp = tv_store (lp_turn lp)"

definition state_identity :: "'w turn_state \<Rightarrow> loop_identity" where
  "state_identity ts = seat_identity (tt_seat ts)"

text \<open>The surroundings of a tool call under the epoch and the approval of the moment.\<close>

definition tools_env :: "'w loop_env \<Rightarrow> 'w turn_state \<Rightarrow> 'w turn_env" where
  "tools_env lp ts = (lp_turn lp)\<lparr>tv_identity := state_identity ts, tv_can_ask := tt_can_approve ts\<rparr>"

definition loop_cancelled :: "'w loop_env \<Rightarrow> 'w turn_state \<Rightarrow> bool" where
  "loop_cancelled lp ts \<longleftrightarrow> tv_cancelled (lp_turn lp) (tt_world ts)"

text \<open>The time of the last reduction is that of the last operation that left its event.\<close>

fun sheds_history :: "agent_event \<Rightarrow> bool" where
  "sheds_history (ContextReducedEv r) \<longleftrightarrow> crd_removed_messages r > 0"
| "sheds_history (CompactionCompletedEv _) \<longleftrightarrow> True"
| "sheds_history _ \<longleftrightarrow> False"

definition keep_live :: "live_context \<Rightarrow> 'w turn_state \<Rightarrow> 'w turn_state" where
  "keep_live lc ts =
     ts\<lparr>tt_live := lc,
        tt_last_shed := (if list_ex (\<lambda>e. sheds_history (ee_event e))
                              (drop (length (lc_envelopes (tt_live ts))) (lc_envelopes lc))
                         then Some (tt_world ts) else tt_last_shed ts)\<rparr>"

definition in_live :: "'a live_io \<Rightarrow> ('w, 'a) turn_io" where
  "in_live m ts = io_bind (m (tt_live ts)) (\<lambda>(a, lc). io_return (a, keep_live lc ts))"

text \<open>An operation of the window that may move the start of the turn's own messages.\<close>

definition in_window :: "(u32 \<times> nat) live_io \<Rightarrow> ('w, u32) turn_io" where
  "in_window m ts =
     io_bind (in_live m ts) (\<lambda>((n, start), ts). io_return (n, ts\<lparr>tt_start := start\<rparr>))"

definition turn_note ::
  "'w loop_env \<Rightarrow> turn_id option \<Rightarrow> diagnostic_level \<Rightarrow> string \<Rightarrow> ('w, unit) turn_io" where
  "turn_note lp turn level text ts =
     in_live (\<lambda>lc. io_bind (diagnose (loop_store lp) (tt_seat ts) turn level text lc)
       (\<lambda>lc. io_return ((), lc))) ts"

text \<open>A message of the runtime's own, put into the window like one of the user.\<close>

definition say :: "'w loop_env \<Rightarrow> turn_id \<Rightarrow> string \<Rightarrow> ('w, unit) turn_io" where
  "say lp turn text ts =
     in_live (record_message (loop_store lp) (state_identity ts) turn
       (UserMessageEv \<lparr> um_text = text, um_attachments = 0 \<rparr>) (user_message text)) ts"

section \<open>The exposed tools\<close>

definition registry_now :: "'w loop_env \<Rightarrow> 'w turn_state \<Rightarrow> 'w registry" where
  "registry_now lp ts = tv_tools (lp_turn lp) (tt_world ts)"

definition names_progress :: "'w loop_env \<Rightarrow> string \<Rightarrow> bool" where
  "names_progress lp name \<longleftrightarrow>
     tv_progress_names (lp_turn lp) = [] \<or> list_ex (\<lambda>c. c = name) (tv_progress_names (lp_turn lp))"

definition progress_tool_is_exposed :: "'w loop_env \<Rightarrow> 'w turn_state \<Rightarrow> string \<Rightarrow> bool" where
  "progress_tool_is_exposed lp ts name \<longleftrightarrow>
     (if \<not> tt_boundary ts then True
      else case metadata_for (registry_now lp ts) name of
             None \<Rightarrow> False
           | Some m \<Rightarrow> \<not> tm_read_only m \<and> names_progress lp name)"

definition is_read_only :: "'w registry \<Rightarrow> string \<Rightarrow> bool" where
  "is_read_only reg name = (case metadata_for reg name of None \<Rightarrow> False | Some m \<Rightarrow> tm_read_only m)"

definition exposed_tools :: "'w loop_env \<Rightarrow> 'w turn_state \<Rightarrow> model_capabilities \<Rightarrow> tool_spec list" where
  "exposed_tools lp ts capabilities =
     (if \<not> tt_tools_enabled ts \<or> \<not> cap_tools capabilities then []
      else let reg = registry_now lp ts; may_approve = tt_can_approve ts \<or> auto_approves_mutating reg
           in filter (\<lambda>s. progress_tool_is_exposed lp ts (ts_name s) \<and> (may_approve \<or> is_read_only reg (ts_name s)))
                (registry_specs reg))"

definition effective_progress_tools :: "'w loop_env \<Rightarrow> 'w turn_state \<Rightarrow> string list" where
  "effective_progress_tools lp ts =
     map ts_name (exposed_tools lp ts (ps_capabilities (active_provider (tt_seat ts))))"

definition tool_availability_prompt :: "tool_spec list \<Rightarrow> string" where
  "tool_availability_prompt tools =
     (if tools = []
      then ''No tools are available for this request. Do not claim to inspect or change workspace state.''
      else ''Tools available for this request: '' @ join '', '' (map ts_name tools)
           @ ''. Use only these tools; the listed schemas define the permitted arguments.'')"

section \<open>Assembling a request\<close>

definition assemble_for :: "'w loop_env \<Rightarrow> 'w turn_state \<Rightarrow> provider_seat \<Rightarrow> message list \<Rightarrow> model_request" where
  "assemble_for lp ts p ms =
     (let capabilities = ps_capabilities p; tools = exposed_tools lp ts capabilities;
          choice = (if tt_boundary ts \<and> tools \<noteq> [] then ChoiceRequired else ChoiceAuto);
          request = request_with_thinking (lp_thinking lp) (request_with_tool_choice choice
            (request_with_tools tools (new_request (ps_model p) capabilities ms)));
          base = unwrap_or [] (lp_system lp);
          system = (if base = [] then [] else base @ [CHR 0x0A, CHR 0x0A]) @ tool_availability_prompt tools
      in (request_with_system system request)\<lparr>rq_max_output_tokens := cap_max_output_tokens capabilities\<rparr>)"

definition assemble_request :: "'w loop_env \<Rightarrow> 'w turn_state \<Rightarrow> message list \<Rightarrow> model_request" where
  "assemble_request lp ts ms = assemble_for lp ts (active_provider (tt_seat ts)) ms"

definition estimate_request_for :: "'w loop_env \<Rightarrow> 'w turn_state \<Rightarrow> provider_seat \<Rightarrow> estimator" where
  "estimate_request_for lp ts p ms prompt_only =
     (let request = assemble_for lp ts p ms
      in if prompt_only then estimate_request_tokens (lp_json lp) request
         else request_context_tokens (lp_json lp) request)"

text \<open>The seat with the estimates of the moment, as \<open>recover\<close> consults it.\<close>

definition measured :: "'w loop_env \<Rightarrow> 'w turn_state \<Rightarrow> provider_seat \<Rightarrow> provider_seat" where
  "measured lp ts p = p\<lparr>ps_estimate := estimate_request_for lp ts p\<rparr>"

definition measured_seat :: "'w loop_env \<Rightarrow> 'w turn_state \<Rightarrow> model_seat" where
  "measured_seat lp ts =
     (tt_seat ts)\<lparr>ms_primary := measured lp ts (ms_primary (tt_seat ts)),
                   ms_backup := map_option (measured lp ts) (ms_backup (tt_seat ts))\<rparr>"

definition evict_to :: "'w loop_env \<Rightarrow> turn_id \<Rightarrow> u64 \<Rightarrow> bool \<Rightarrow> ('w, u32) turn_io" where
  "evict_to lp turn target prompt_only ts =
     in_window (evict_oldest (loop_store lp) (state_identity ts)
       (estimate_request_for lp ts (active_provider (tt_seat ts))) target turn (tt_start ts) prompt_only) ts"

section \<open>The progress boundary\<close>

definition boundary_tools :: "'w loop_env \<Rightarrow> string" where
  "boundary_tools lp =
     (if tv_progress_names (lp_turn lp) = [] then ''a permitted mutating tool''
      else join '', '' (tv_progress_names (lp_turn lp)))"

definition append_progress_retry :: "'w loop_env \<Rightarrow> turn_id \<Rightarrow> ('w, unit) turn_io" where
  "append_progress_retry lp turn =
     say lp turn (''Runtime progress boundary remains unsatisfied: your previous response did not make a ''
       @ ''successful progress-tool call. Call one of '' @ boundary_tools lp
       @ '' now; do not claim completion until the requested change has been attempted.'')"

definition append_progress_instruction :: "'w loop_env \<Rightarrow> turn_id \<Rightarrow> ('w, unit) turn_io" where
  "append_progress_instruction lp turn =
     say lp turn (''Runtime progress boundary: this implementation turn has spent the configured inspection ''
       @ ''budget without calling a progress tool. In your next response, call one of '' @ boundary_tools lp
       @ '' to make the requested change. Do not spend another request reading, probing, or planning; the ''
       @ ''turn remains incomplete until the change is attempted.'')"

definition append_finalization :: "'w loop_env \<Rightarrow> turn_id \<Rightarrow> ('w, unit) turn_io" where
  "append_finalization lp turn =
     say lp turn (''The model-request safety budget is exhausted for this turn. This is a bounded ''
       @ ''finalization request: do not request or imply any tool execution. Summarize what is complete, ''
       @ ''identify unfinished files or verification, and state the safest next continuation step. Treat ''
       @ ''the task as incomplete.'')"

definition boundary_unsatisfiable :: string where
  "boundary_unsatisfiable =
     ''progress boundary cannot be satisfied: configured progress tools are unavailable under the current ''
     @ ''model, tool, or approval policy''"

text \<open>A reason ends the turn: no tool could satisfy the boundary.\<close>

definition observe_progress :: "'w loop_env \<Rightarrow> turn_id \<Rightarrow> bool \<Rightarrow> ('w, string option) turn_io" where
  "observe_progress lp turn succeeded ts =
     (case lp_progress_limit lp of
        None \<Rightarrow> io_return (None, ts)
      | Some limit \<Rightarrow>
         (if succeeded
          then io_return (None, ts\<lparr>tt_silent_requests := 0, tt_boundary := False, tt_boundary_used := True\<rparr>)
          else if tt_boundary_used ts then io_return (None, ts)
          else let ts = ts\<lparr>tt_silent_requests := sat_add usize_max (tt_silent_requests ts) 1\<rparr>
               in if tt_silent_requests ts \<ge> limit \<and> \<not> tt_boundary ts
                  then let ts = ts\<lparr>tt_boundary := True\<rparr>; available = effective_progress_tools lp ts
                       in if available = []
                          then io_bind (turn_note lp (Some turn) ErrorLevel boundary_unsatisfiable ts) (\<lambda>(_, ts).
                                 io_return (Some boundary_unsatisfiable, ts))
                          else io_bind (append_progress_instruction lp turn ts) (\<lambda>(_, ts).
                               io_bind (turn_note lp (Some turn) InfoLevel
                                 (''progress boundary active after '' @ show_nat (tt_silent_requests ts)
                                  @ '' model request(s) without a configured progress tool; next request exposes ''
                                  @ join '', '' available) ts) (\<lambda>(_, ts).
                                 io_return (None, ts)))
                  else io_return (None, ts)))"

end
