(* ===== verification/Turn_Attempt.thy ===== *)
theory Turn_Attempt
  imports Turn_Requests Output_Reduction
begin

text \<open>
  \<open>crates/rupi-runtime/src/turn.rs\<close>: building a request under the context policy, one attempt at a
  response with its retries and its takeover, the record of the response, and the one recovery from
  an overflow or an output limit. A request is counted when it exists, and only a request that
  committed nothing is repeated.
\<close>

section \<open>Building a request\<close>

definition context_state_of :: "'w loop_env \<Rightarrow> 'w turn_state \<Rightarrow> context_state" where
  "context_state_of lp ts =
     (let ms = lc_messages (tt_live ts); p = active_provider (tt_seat ts)
      in (zero_state (cap_context_window (ps_capabilities p)))
           \<lparr>cs_model := Some (active_model (tt_seat ts)), cs_context_epoch := lc_epoch (tt_live ts),
            cs_estimated_tokens := request_context_tokens (lp_json lp) (assemble_request lp ts ms),
            cs_recent_tokens := estimate_messages (\<lambda>j. length (lp_json lp j)) (drop (min (tt_start ts) (length ms)) ms),
            cs_working_messages := length ms mod (u32_max + 1),
            cs_since_last_compaction_ms :=
              (case tt_last_shed ts of
                 None \<Rightarrow> u64_max
               | Some w \<Rightarrow> tv_elapsed (lp_turn lp) w (tt_world ts)),
            cs_at_safe_boundary := True\<rparr>)"

definition warn_adjustment :: "'w loop_env \<Rightarrow> turn_id \<Rightarrow> context_state \<Rightarrow> ('w, unit) turn_io" where
  "warn_adjustment lp turn cs ts =
     (case lp_policy_warning lp cs of
        None \<Rightarrow> io_return ((), ts)
      | Some text \<Rightarrow>
         (let key = (case cs_model cs of None \<Rightarrow> ''<unknown>'' | Some m \<Rightarrow> as_key m, cs_window cs)
          in if key \<in> set (tt_adjusted ts) then io_return ((), ts)
             else turn_note lp (Some turn) WarnLevel text (ts\<lparr>tt_adjusted := key # tt_adjusted ts\<rparr>)))"

definition compact_cycles :: "'w loop_env \<Rightarrow> turn_id \<Rightarrow> u64 \<Rightarrow> string \<Rightarrow> ('w, u32) turn_io" where
  "compact_cycles lp turn target reason ts =
     in_window (compact_completed_turn_cycles (loop_store lp) (state_identity ts) (lp_summarize lp)
       (\<lambda>ms. request_context_tokens (lp_json lp) (assemble_request lp ts ms)) turn (tt_start ts) target reason) ts"

definition compact_older :: "'w loop_env \<Rightarrow> turn_id \<Rightarrow> context_level \<Rightarrow> string \<Rightarrow> ('w, u32) turn_io" where
  "compact_older lp turn level reason ts =
     (if tt_start ts > 0 \<and> (level = L2Phase \<or> lp_strategy lp = SummarizeOldest \<or> lp_has_summarizer lp)
      then in_window (compact_turn_prefix (loop_store lp) (state_identity ts) (lp_summarize lp) turn (tt_start ts)
             level reason) ts
      else io_return (0, ts))"

text \<open>The three ways of reducing the window, each tried when the ones before it did nothing.\<close>

definition reduce_window ::
  "'w loop_env \<Rightarrow> turn_id \<Rightarrow> context_level \<Rightarrow> string \<Rightarrow> u64 \<Rightarrow> ('w, unit) turn_io" where
  "reduce_window lp turn level reason target ts =
     io_bind (compact_older lp turn level reason ts) (\<lambda>(n, ts).
     io_bind (if n = 0 then compact_cycles lp turn target reason ts else io_return (n, ts)) (\<lambda>(n, ts).
     if n > 0 then io_return ((), ts)
     else io_bind (evict_to lp turn target False ts) (\<lambda>(n, ts).
            if n > 0 then io_return ((), ts)
            else turn_note lp None WarnLevel
                   (''context suggests '' @ level_as_str level @ '' compaction: '' @ reason) ts)))"

definition suggest_checkpoint :: "'w loop_env \<Rightarrow> turn_id \<Rightarrow> context_state \<Rightarrow> string \<Rightarrow> ('w, unit) turn_io" where
  "suggest_checkpoint lp turn cs reason ts =
     (if lp_checkpoint_auto lp
      then let capsule = lp_capsule lp (lc_messages (tt_live ts)) cs reason
           in io_bind (if tt_start ts > 0
                       then io_bind (in_live (checkpoint_turn_prefix (loop_store lp) (state_identity ts) turn capsule
                              (tt_start ts)) ts) (\<lambda>((created, start), ts). io_return (created, ts\<lparr>tt_start := start\<rparr>))
                       else io_return (None, ts)) (\<lambda>(created, ts).
                case created of
                  Some c \<Rightarrow> turn_note lp (Some turn) InfoLevel
                    (''runtime created checkpoint '' @ ckc_checkpoint_id c @ '' under context pressure: '' @ reason) ts
                | None \<Rightarrow> turn_note lp (Some turn) WarnLevel (''context suggests checkpoint: '' @ reason) ts)
      else turn_note lp (Some turn) WarnLevel (''context suggests checkpoint: '' @ reason) ts)"

text \<open>The debug rendering of a reason.\<close>

fun debug_reason :: "reduction_reason \<Rightarrow> string" where
  "debug_reason (OversizedToolOutput n) = ''OversizedToolOutput { limit_bytes: '' @ show_nat n @ '' }''"
| "debug_reason (RecentTargetExceeded n) = ''RecentTargetExceeded { target_tokens: '' @ show_nat n @ '' }''"
| "debug_reason (ExternalContextTooLarge n) = ''ExternalContextTooLarge { limit_bytes: '' @ show_nat n @ '' }''"
| "debug_reason UserRequested = ''UserRequested''"

definition reduce_payload :: "'w loop_env \<Rightarrow> turn_id \<Rightarrow> reduction_reason \<Rightarrow> ('w, unit) turn_io" where
  "reduce_payload lp turn reason ts =
     (let target = (case reason of
            RecentTargetExceeded t \<Rightarrow> t
          | _ \<Rightarrow> sat_mul u64_max (estimate_messages (\<lambda>j. length (lp_json lp j)) (lc_messages (tt_live ts))) 3 div 4)
      in io_bind (compact_cycles lp turn target (''payload reduction: '' @ debug_reason reason) ts) (\<lambda>(n, ts).
         if n > 0 then io_return ((), ts)
         else io_bind (evict_to lp turn target False ts) (\<lambda>(n, ts).
                if n > 0 then io_return ((), ts)
                else turn_note lp (Some turn) InfoLevel
                  ''context requested payload reduction, but no completed history boundary is available yet'' ts)))"

text \<open>What the policy recommends; a refusal is a reason to stop.\<close>

definition follow_policy :: "'w loop_env \<Rightarrow> turn_id \<Rightarrow> context_state \<Rightarrow> ('w, string option) turn_io" where
  "follow_policy lp turn cs ts =
     (let over = (\<lambda>(_, ts). io_return (None, ts))
      in case cd_action (lp_policy_evaluate lp cs) of
           Refuse reason \<Rightarrow>
             io_bind (turn_note lp None ErrorLevel (''context refused: '' @ reason) ts) (\<lambda>(_, ts).
               io_return (Some reason, ts))
         | Compact level reason target \<Rightarrow> io_bind (reduce_window lp turn level reason target ts) over
         | SuggestCheckpoint reason \<Rightarrow> io_bind (suggest_checkpoint lp turn cs reason ts) over
         | ReducePayload reason \<Rightarrow> io_bind (reduce_payload lp turn reason ts) over
         | _ \<Rightarrow> io_return (None, ts))"

definition prompt_target :: "request_budget \<Rightarrow> u64" where
  "prompt_target b =
     (case rb_desired_output_tokens b of
        Some desired \<Rightarrow> rb_context_window b - rb_safety_reserve_tokens b - min desired minimum_useful_output_tokens
      | None \<Rightarrow> rb_context_window b)"

definition budget_now :: "'w loop_env \<Rightarrow> 'w turn_state \<Rightarrow> model_request \<times> request_budget" where
  "budget_now lp ts =
     (let request = assemble_request lp ts (lc_messages (tt_live ts))
      in (request, budget_for_request (lp_json lp) request))"

definition overflow_abort :: turn_error where
  "overflow_abort = AbortedTurn (TurnFailed ContextOverflow)"

definition fit_budget :: "'w loop_env \<Rightarrow> turn_id \<Rightarrow> ('w, turn_error + model_request) turn_io" where
  "fit_budget lp turn ts =
     (let budget = snd (budget_now lp ts)
      in io_bind (if is_unusable budget
                  then io_bind (evict_to lp turn (prompt_target budget) True ts) (\<lambda>(_, ts). io_return ((), ts))
                  else io_return ((), ts)) (\<lambda>(_, ts).
         let (request, budget) = budget_now lp ts; shown = (\<lambda>n. show_nat (unwrap_or 0 n))
         in if is_unusable budget
            then io_bind (turn_note lp (Some turn) ErrorLevel
                   (''context cannot reserve a useful output budget: prompt estimate ''
                    @ show_nat (rb_prompt_tokens_est budget) @ '', desired output ''
                    @ shown (rb_desired_output_tokens budget) @ '', available output ''
                    @ shown (rb_effective_output_tokens budget) @ '' after ''
                    @ show_nat (rb_safety_reserve_tokens budget) @ ''-token safety reserve in a ''
                    @ show_nat (rb_context_window budget) @ ''-token window'') ts) (\<lambda>(_, ts).
                   io_return (Inl overflow_abort, ts))
            else io_bind (if rb_desired_output_tokens budget \<noteq> rb_effective_output_tokens budget
                          then turn_note lp (Some turn) WarnLevel
                            (''output budget reduced from '' @ shown (rb_desired_output_tokens budget) @ '' to ''
                             @ shown (rb_effective_output_tokens budget) @ '' tokens to fit the active ''
                             @ show_nat (rb_context_window budget) @ ''-token context window (prompt estimate ''
                             @ show_nat (rb_prompt_tokens_est budget) @ '', safety reserve ''
                             @ show_nat (rb_safety_reserve_tokens budget) @ '')'') ts
                          else io_return ((), ts)) (\<lambda>(_, ts).
                   io_return (Inr (request_with_output_budget (rb_desired_output_tokens budget)
                     (rb_effective_output_tokens budget) request), ts))))"

definition boundary_lost :: string where
  "boundary_lost =
     ''progress boundary cannot be satisfied: configured progress tools became unavailable under the ''
     @ ''current model, tool, or approval policy''"

definition build_request :: "'w loop_env \<Rightarrow> turn_id \<Rightarrow> ('w, turn_error + model_request) turn_io" where
  "build_request lp turn ts =
     (if tt_boundary ts \<and> tt_tools_enabled ts \<and> effective_progress_tools lp ts = []
      then io_bind (turn_note lp (Some turn) ErrorLevel boundary_lost ts) (\<lambda>(_, ts).
             io_return (Inl (Unavailable (new_failure Semantic PreRequest boundary_lost)), ts))
      else if cap_max_output_tokens (ps_capabilities (active_provider (tt_seat ts))) = Some 0
      then io_bind (turn_note lp (Some turn) ErrorLevel
             ''context cannot reserve a useful output budget: configured output ceiling is zero'' ts) (\<lambda>(_, ts).
             io_return (Inl overflow_abort, ts))
      else let cs = context_state_of lp ts
           in io_bind (warn_adjustment lp turn cs ts) (\<lambda>(_, ts).
              io_bind (follow_policy lp turn cs ts) (\<lambda>(refusal, ts).
                if refusal \<noteq> None then io_return (Inl overflow_abort, ts)
                else fit_budget lp turn ts)))"

section \<open>One request\<close>

record model_response =
  rp_epoch :: u32
  rp_text :: "string option"
  rp_content :: "content_block list"
  rp_calls :: "tool_call_block list"
  rp_rejected :: "(string, string) btree"
  rp_completion :: event_envelope

definition completed_event ::
  "u32 \<Rightarrow> model_ref \<Rightarrow> string option \<Rightarrow> completion_usage option \<Rightarrow> u64 \<Rightarrow> u32 \<Rightarrow> collector \<Rightarrow> agent_event" where
  "completed_event epoch model finish usage duration calls co =
     (let used = (\<lambda>f. Option.bind usage f)
      in ModelRequestCompletedEv
           \<lparr> mrc_epoch = epoch, mrc_model = model, mrc_finish_reason = finish,
             mrc_input_tokens = used us_input_tokens, mrc_uncached_input_tokens = used us_uncached_input_tokens,
             mrc_logical_prompt_tokens = used us_logical_prompt_tokens,
             mrc_cache_read_tokens = used us_cache_read_tokens, mrc_cache_write_tokens = used us_cache_write_tokens,
             mrc_output_tokens = used us_output_tokens, mrc_provider_total_tokens = used us_provider_total_tokens,
             mrc_duration_ms = duration, mrc_tool_calls = calls,
             mrc_reasoning_provenance = co_reasoning_provenance co, mrc_first_delta_ms = co_first_delta_ms co \<rparr>)"

definition retry_delay :: "u32 \<Rightarrow> u64" where
  "retry_delay attempts = min (sat_mul u64_max 100 (2 ^ min (attempts - 1) 5)) 2000"

text \<open>Sleeping ends with the wait or with the cancellation; the answer is whether to go on.\<close>

definition sleep_with_cancel :: "'w loop_env \<Rightarrow> u64 \<Rightarrow> 'w turn_state \<Rightarrow> bool \<times> 'w turn_state" where
  "sleep_with_cancel lp delay ts =
     (if loop_cancelled lp ts then (False, ts)
      else let ts = ts\<lparr>tt_world := lp_sleep lp delay (tt_world ts)\<rparr> in (\<not> loop_cancelled lp ts, ts))"

datatype attempt_step = Reissue u32 u32 | Ended "turn_failure + model_response"

definition collector_env_of :: "'w loop_env \<Rightarrow> turn_id \<Rightarrow> 'w turn_state \<Rightarrow> collector_env" where
  "collector_env_of lp turn ts =
     \<lparr> ce_store = loop_store lp, ce_identity = state_identity ts, ce_turn = turn,
       ce_irreversible = lp_irreversible lp, ce_number = lp_number lp \<rparr>"

text \<open>The response is collected while it streams; an error of the trace ends the turn.\<close>

definition receive_response ::
  "'w loop_env \<Rightarrow> turn_id \<Rightarrow> model_request \<Rightarrow> ('w, collector \<times> (model_failure + completion_usage) \<times> u64) turn_io" where
  "receive_response lp turn request ts =
     (let w0 = lp_on_request lp (active_model (tt_seat ts)) (tt_requests ts) (lp_max_requests lp) (tt_world ts);
          (events, outcome, w1) = lp_stream lp (ps_model (active_provider (tt_seat ts))) request w0
      in io_bind (collect_events (collector_env_of lp turn ts) events new_collector (lc_trace (tt_live ts)))
           (\<lambda>(co, st).
           let ts = ts\<lparr>tt_world := lp_on_shown lp (co_shown co) w1, tt_live := (tt_live ts)\<lparr>lc_trace := st\<rparr>\<rparr>
           in case co_sink_error co of
                Some e \<Rightarrow> io_fail e
              | None \<Rightarrow>
                  io_return ((co, case co_provider_error co of None \<Rightarrow> outcome | Some f \<Rightarrow> Inl f,
                    tv_elapsed (lp_turn lp) w0 w1), ts)))"

text \<open>The request is counted and announced before it is sent.\<close>

definition stream_request ::
  "'w loop_env \<Rightarrow> turn_id \<Rightarrow> model_request \<Rightarrow> ('w, collector \<times> (model_failure + completion_usage) \<times> u64) turn_io" where
  "stream_request lp turn request ts =
     (if tt_requests ts = usize_max then io_fail CountTooLarge
      else let ts = ts\<lparr>tt_requests := tt_requests ts + 1\<rparr>
           in io_bind (io_lift id (count_u32 (length (rq_messages request)))) (\<lambda>messages.
              io_bind (io_lift id (count_u32 (length (rq_tools request)))) (\<lambda>tools.
              io_bind (in_live (live_emit (loop_store lp) (state_identity ts) (Some turn) (ModelRequestStartedEv
                \<lparr> mrs_epoch = epoch_index (tt_seat ts), mrs_model = active_model (tt_seat ts),
                  mrs_message_count = messages,
                  mrs_context_tokens_est = estimate_request_tokens (lp_json lp) request,
                  mrs_tools_exposed = tools \<rparr>)) ts) (\<lambda>(_, ts). receive_response lp turn request ts))))"

text \<open>A complete response: its completion is kept back until the message is assembled.\<close>

definition complete_response ::
  "'w loop_env \<Rightarrow> turn_id \<Rightarrow> collector \<Rightarrow> completion_usage \<Rightarrow> u64 \<Rightarrow> ('w, model_response) turn_io" where
  "complete_response lp turn co usage duration ts =
     io_bind (io_lift id (count_u32 (length (co_calls co)))) (\<lambda>calls.
     io_bind io_get (\<lambda>d.
       let epoch = epoch_index (tt_seat ts);
           finish = or_else (us_finish_reason usage)
             (if usage_is_certain usage then Some (if co_calls co = [] then ''stop'' else ''tool_calls'') else None);
           completion = loop_envelope (loop_store lp) (state_identity ts) (length (du_trace d)) (Some turn)
             (completed_event epoch (active_model (tt_seat ts)) finish (Some usage) duration calls co)
       in io_return (\<lparr> rp_epoch = epoch, rp_text = (if co_text co = [] then None else Some (co_text co)),
            rp_content = co_content co, rp_calls = co_calls co, rp_rejected = co_rejected co,
            rp_completion = completion \<rparr>, ts)))"

text \<open>The request of a failed response is closed, and so are the calls it asked for.\<close>

definition close_failed ::
  "'w loop_env \<Rightarrow> turn_id \<Rightarrow> model_failure \<Rightarrow> completion_usage option \<Rightarrow> u64 \<Rightarrow> collector \<Rightarrow> ('w, unit) turn_io" where
  "close_failed lp turn failure usage duration co ts =
     io_bind (io_lift id (count_u32 (length (co_calls co)))) (\<lambda>calls.
     io_bind (in_live (live_emit (loop_store lp) (state_identity ts) (Some turn)
       (completed_event (epoch_index (tt_seat ts)) (active_model (tt_seat ts))
          (Option.bind usage us_finish_reason) usage duration calls co)) ts) (\<lambda>(e, ts).
     io_bind (record_unexecuted_calls (tools_env lp ts) turn (em_event_id (ee_meta e))
       ''model response did not complete; tool was not executed''
       (case usage of None \<Rightarrow> True | Some u \<Rightarrow> \<not> stopped_at_output_limit u) (co_calls co)
       (tt_live ts) (tt_world ts)) (\<lambda>(lc, w).
     turn_note lp (Some turn) WarnLevel
       (''model request failed ('' @ failure_kind_as_str (mf_kind failure) @ ''; replay safety ''
        @ replay_safety_as_str (mf_replay_safety failure) @ ''): '' @ mf_message failure)
       (ts\<lparr>tt_live := lc, tt_world := w\<rparr>))))"

definition recoverable_truncation :: "model_request \<Rightarrow> completion_usage option \<Rightarrow> (u64 \<times> u64) option" where
  "recoverable_truncation request usage =
     (case (usage, rq_max_output_tokens request) of
        (Some u, Some requested) \<Rightarrow>
          (case us_output_tokens u of
             Some actual \<Rightarrow>
               (if stopped_at_output_limit u \<and> actual < requested then Some (actual, requested) else None)
           | None \<Rightarrow> None)
      | _ \<Rightarrow> None)"

definition recover_request ::
  "'w loop_env \<Rightarrow> turn_id \<Rightarrow> u32 \<Rightarrow> u32 \<Rightarrow> model_failure \<Rightarrow> bool \<Rightarrow> ('w, attempt_step) turn_io" where
  "recover_request lp turn attempts epoch failure cancelled ts =
     io_bind (recover (loop_store lp) (measured_seat lp ts) turn failure cancelled (tt_start ts) (tt_live ts))
       (\<lambda>(act, start, seat, lc).
       let ts = (keep_live lc ts)\<lparr>tt_seat := seat, tt_start := start\<rparr>
       in case act of
            RetryRequest \<Rightarrow>
              (let (go, ts) = sleep_with_cancel lp (unwrap_or (retry_delay attempts) (mf_retry_after_ms failure)) ts
               in io_return (if go then Reissue attempts epoch else Ended (Inl TurnStopped), ts))
          | Takeover \<Rightarrow> io_return (Reissue attempts epoch, ts)
          | StopTurn \<Rightarrow> io_return (Ended (Inl (FatalFailure failure)), ts))"

text \<open>
  Where a failed request leads. A collector that stopped the response has cancelled the turn's own
  token, which is the first thing looked at.
\<close>

definition settle_failure ::
  "'w loop_env \<Rightarrow> turn_id \<Rightarrow> u32 \<Rightarrow> u32 \<Rightarrow> model_request \<Rightarrow> collector \<Rightarrow> model_failure \<Rightarrow> completion_usage option
    \<Rightarrow> ('w, attempt_step) turn_io" where
  "settle_failure lp turn attempts epoch request co failure usage ts =
     (let cancelled = loop_cancelled lp ts \<or> co_cancelled co
      in if cancelled then io_return (Ended (Inl TurnStopped), ts)
         else case recoverable_truncation request usage of
                Some (actual, requested) \<Rightarrow>
                  io_return (Ended (Inl (OutputTruncated failure actual requested (co_surface_output co))), ts)
              | None \<Rightarrow>
                 (if mf_kind failure = ContextOverflow
                  then io_return (Ended (Inl (if mf_partial_output_emitted failure then FatalFailure failure
                                              else ProviderOverflow failure)), ts)
                  else if tt_requests ts \<ge> lp_max_requests lp
                  then io_return (Ended (Inl (FatalFailure failure)), ts)
                  else recover_request lp turn attempts epoch failure cancelled ts))"

definition judge_response ::
  "'w loop_env \<Rightarrow> turn_id \<Rightarrow> u32 \<Rightarrow> u32 \<Rightarrow> model_request \<Rightarrow> collector \<Rightarrow> model_failure + completion_usage \<Rightarrow> u64
    \<Rightarrow> ('w, attempt_step) turn_io" where
  "judge_response lp turn attempts epoch request co outcome duration ts =
     (let failed = (\<lambda>failure usage.
            let failure = failure\<lparr>mf_attempts := attempts, mf_model := Some (active_model (tt_seat ts))\<rparr>
            in io_bind (close_failed lp turn failure usage duration co ts) (\<lambda>(_, ts).
                 settle_failure lp turn attempts epoch request co failure usage ts))
      in case outcome of
           Inl failure \<Rightarrow> failed (with_partial_output (mf_partial_output_emitted failure \<or> co_committed co) failure) None
         | Inr usage \<Rightarrow>
            (case completion_failure usage (co_text co \<noteq> []) (co_committed co) of
               Some failure \<Rightarrow> failed failure (Some usage)
             | None \<Rightarrow> io_bind (complete_response lp turn co usage duration ts) (\<lambda>(response, ts).
                         io_return (Ended (Inr response), ts))))"

definition attempt_once :: "'w loop_env \<Rightarrow> turn_id \<Rightarrow> u32 \<Rightarrow> u32 \<Rightarrow> ('w, attempt_step) turn_io" where
  "attempt_once lp turn attempts epoch ts =
     (let now = epoch_index (tt_seat ts); spent = (if now \<noteq> epoch then 0 else attempts)
      in io_bind (io_lift id (ok_or (checked_add u32_max spent 1) CountTooLarge)) (\<lambda>attempts.
         io_bind (build_request lp turn ts) (\<lambda>(built, ts).
           case built of
             Inl e \<Rightarrow> io_return (Ended (Inl (failure_of_error e)), ts)
           | Inr request \<Rightarrow>
               io_bind (stream_request lp turn request ts) (\<lambda>((co, outcome, duration), ts).
                 judge_response lp turn attempts now request co outcome duration ts))))"

end
