(* ===== verification/Turn_Driver.thy ===== *)
theory Turn_Driver
  imports Turn_Attempt
begin

text \<open>
  \<open>crates/rupi-runtime/src/turn.rs\<close>: a turn from the input of the user to its end. Attempts and rounds
  are loops over the requests that are left: every attempt spends one, and no loop goes on without
  having spent one, which is their termination proof.
\<close>

section \<open>Attempts\<close>

lemma io_bind_ok:
  assumes "io_bind m f d = (ws, Inr b)"
  obtains a ws1 ws2 where "m d = (ws1, Inr a)" "f a (apply_writes ws1 d) = (ws2, Inr b)" "ws = ws1 @ ws2"
  using assms by (auto simp: io_bind_def split: prod.splits sum.splits)

lemma in_live_state:
  assumes "in_live m ts d = (ws, Inr (a, ts'))"
  obtains lc where "m (tt_live ts) d = (ws, Inr (a, lc))" "ts' = keep_live lc ts"
  using assms by (auto simp: in_live_def io_return_def elim!: io_bind_ok)

text \<open>Operations that leave the count of requests alone.\<close>

lemma keep_live_count [simp]: "tt_requests (keep_live lc ts) = tt_requests ts"
  by (simp add: keep_live_def)

lemma in_live_count: "in_live m ts d = (ws, Inr (a, ts')) \<Longrightarrow> tt_requests ts' = tt_requests ts"
  by (auto elim!: in_live_state)

lemma in_window_count: "in_window m ts d = (ws, Inr (a, ts')) \<Longrightarrow> tt_requests ts' = tt_requests ts"
  unfolding in_window_def by (auto simp: io_return_def elim!: io_bind_ok in_live_state)

lemma turn_note_count: "turn_note lp turn level s ts d = (ws, Inr (a, ts')) \<Longrightarrow> tt_requests ts' = tt_requests ts"
  unfolding turn_note_def by (rule in_live_count)

lemma say_count: "say lp turn s ts d = (ws, Inr (a, ts')) \<Longrightarrow> tt_requests ts' = tt_requests ts"
  unfolding say_def by (rule in_live_count)

lemma evict_to_count: "evict_to lp turn n p ts d = (ws, Inr (a, ts')) \<Longrightarrow> tt_requests ts' = tt_requests ts"
  unfolding evict_to_def by (rule in_window_count)

lemma compact_cycles_count:
  "compact_cycles lp turn n reason ts d = (ws, Inr (a, ts')) \<Longrightarrow> tt_requests ts' = tt_requests ts"
  unfolding compact_cycles_def by (rule in_window_count)

lemma compact_older_count:
  "compact_older lp turn level reason ts d = (ws, Inr (a, ts')) \<Longrightarrow> tt_requests ts' = tt_requests ts"
  unfolding compact_older_def by (auto simp: io_return_def split: if_splits dest: in_window_count)

lemmas count_steps = in_live_count in_window_count turn_note_count say_count evict_to_count compact_cycles_count
  compact_older_count

lemma reduce_window_count:
  "reduce_window lp turn level reason n ts d = (ws, Inr (a, ts')) \<Longrightarrow> tt_requests ts' = tt_requests ts"
  unfolding reduce_window_def
  by (auto simp: io_return_def split: if_splits elim!: io_bind_ok dest!: count_steps)

lemma suggest_checkpoint_count:
  "suggest_checkpoint lp turn cs reason ts d = (ws, Inr (a, ts')) \<Longrightarrow> tt_requests ts' = tt_requests ts"
  unfolding suggest_checkpoint_def Let_def
  by (auto simp: io_return_def split: if_splits option.splits elim!: io_bind_ok dest!: count_steps)

lemma reduce_payload_count:
  "reduce_payload lp turn reason ts d = (ws, Inr (a, ts')) \<Longrightarrow> tt_requests ts' = tt_requests ts"
  unfolding reduce_payload_def Let_def
  by (auto simp: io_return_def split: if_splits elim!: io_bind_ok dest!: count_steps)

lemma follow_policy_count:
  "follow_policy lp turn cs ts d = (ws, Inr (a, ts')) \<Longrightarrow> tt_requests ts' = tt_requests ts"
  unfolding follow_policy_def Let_def
  by (auto simp: io_return_def split: context_action.splits elim!: io_bind_ok
      dest!: count_steps reduce_window_count suggest_checkpoint_count reduce_payload_count)

lemma warn_adjustment_count:
  "warn_adjustment lp turn cs ts d = (ws, Inr (a, ts')) \<Longrightarrow> tt_requests ts' = tt_requests ts"
  unfolding warn_adjustment_def Let_def
  by (auto simp: io_return_def split: if_splits option.splits dest!: count_steps)

lemma fit_budget_count:
  "fit_budget lp turn ts d = (ws, Inr (a, ts')) \<Longrightarrow> tt_requests ts' = tt_requests ts"
  unfolding fit_budget_def Let_def
  by (auto simp: io_return_def split: if_splits prod.splits elim!: io_bind_ok dest!: count_steps)

lemma build_request_count:
  "build_request lp turn ts d = (ws, Inr (a, ts')) \<Longrightarrow> tt_requests ts' = tt_requests ts"
  unfolding build_request_def Let_def
  by (auto simp: io_return_def split: if_splits elim!: io_bind_ok
      dest!: count_steps warn_adjustment_count follow_policy_count fit_budget_count)

lemma receive_response_count:
  "receive_response lp turn request ts d = (ws, Inr (r, ts')) \<Longrightarrow> tt_requests ts' = tt_requests ts"
  unfolding receive_response_def Let_def
  by (auto simp: io_return_def io_fail_def split: option.splits prod.splits elim!: io_bind_ok)

lemma stream_request_count:
  "stream_request lp turn request ts d = (ws, Inr (r, ts')) \<Longrightarrow> tt_requests ts' = tt_requests ts + 1"
  unfolding stream_request_def Let_def
  by (auto simp: io_fail_def split: if_splits elim!: io_bind_ok dest!: in_live_count receive_response_count)

lemma close_failed_count:
  "close_failed lp turn failure usage n co ts d = (ws, Inr (a, ts')) \<Longrightarrow> tt_requests ts' = tt_requests ts"
  unfolding close_failed_def
  by (auto simp: io_return_def elim!: io_bind_ok dest!: count_steps)

lemma complete_response_count:
  "complete_response lp turn co usage n ts d = (ws, Inr (a, ts')) \<Longrightarrow> tt_requests ts' = tt_requests ts"
  unfolding complete_response_def Let_def by (auto simp: io_return_def elim!: io_bind_ok)

lemma sleep_count: "sleep_with_cancel lp n ts = (go, ts') \<Longrightarrow> tt_requests ts' = tt_requests ts"
  by (auto simp: sleep_with_cancel_def Let_def split: if_splits)

lemma recover_request_count:
  "recover_request lp turn n e failure c ts d = (ws, Inr (a, ts')) \<Longrightarrow> tt_requests ts' = tt_requests ts"
  unfolding recover_request_def Let_def
  by (auto simp: io_return_def split: action.splits prod.splits elim!: io_bind_ok dest!: sleep_count)

lemma settle_failure_count:
  assumes "settle_failure lp turn attempts epoch request co failure usage ts d = (ws, Inr (s, ts'))"
  shows "tt_requests ts' = tt_requests ts \<and> (s = Reissue a e \<longrightarrow> tt_requests ts < lp_max_requests lp)"
  using assms unfolding settle_failure_def Let_def
  by (auto simp: io_return_def not_le split: if_splits option.splits dest: recover_request_count)

lemma judge_response_count:
  assumes "judge_response lp turn attempts epoch request co outcome duration ts d = (ws, Inr (s, ts'))"
  shows "tt_requests ts' = tt_requests ts \<and> (s = Reissue a e \<longrightarrow> tt_requests ts < lp_max_requests lp)"
  using assms unfolding judge_response_def Let_def
  by (auto simp: io_return_def split: sum.splits option.splits elim!: io_bind_ok
      dest!: close_failed_count complete_response_count settle_failure_count [where a = a and e = e])

text \<open>
  A request is spent by every attempt that is repeated, answered or recovered from, and a repeated
  attempt leaves one for the next.
\<close>

fun is_spent :: "turn_failure + model_response \<Rightarrow> bool" where
  "is_spent (Inr _) \<longleftrightarrow> True"
| "is_spent (Inl (ProviderOverflow _)) \<longleftrightarrow> True"
| "is_spent (Inl (OutputTruncated _ _ _ _)) \<longleftrightarrow> True"
| "is_spent (Inl _) \<longleftrightarrow> False"

lemma failure_of_error_unspent: "\<not> is_spent (Inl (failure_of_error e))"
  by (cases e) (simp_all add: failure_of_error_def)

lemma attempt_once_count:
  assumes "attempt_once lp turn attempts epoch ts d = (ws, Inr (s, ts'))"
  shows "tt_requests ts \<le> tt_requests ts' \<and> tt_requests ts' \<le> tt_requests ts + 1
    \<and> (s = Reissue a e \<longrightarrow> tt_requests ts' = tt_requests ts + 1 \<and> tt_requests ts' < lp_max_requests lp)
    \<and> (\<forall>r. s = Ended r \<longrightarrow> is_spent r \<longrightarrow> tt_requests ts' = tt_requests ts + 1)"
  using assms unfolding attempt_once_def Let_def
  by (auto simp: io_return_def failure_of_error_unspent split: sum.splits elim!: io_bind_ok
      dest!: build_request_count stream_request_count judge_response_count [where a = a and e = e])

lemma reissue_decreases:
  "attempt_once lp turn attempts epoch ts d = (ws, Inr (Reissue a e, ts'))
    \<Longrightarrow> lp_max_requests lp - tt_requests ts' < lp_max_requests lp - tt_requests ts"
  by (drule attempt_once_count [of _ _ _ _ _ _ _ _ _ a e]) auto

function attempt ::
  "'w loop_env \<Rightarrow> turn_id \<Rightarrow> u32 \<Rightarrow> u32 \<Rightarrow> 'w turn_state \<Rightarrow> ((turn_failure + model_response) \<times> 'w turn_state) io" where
  "attempt lp turn attempts epoch ts d =
     (case attempt_once lp turn attempts epoch ts d of
        (ws, Inl e) \<Rightarrow> (ws, Inl e)
      | (ws, Inr (Ended r, ts')) \<Rightarrow> (ws, Inr (r, ts'))
      | (ws, Inr (Reissue a e, ts')) \<Rightarrow>
          (let (vs, r) = attempt lp turn a e ts' (apply_writes ws d) in (ws @ vs, r)))"
  by pat_completeness auto
termination
  by (relation "measure (\<lambda>(lp, turn, a, e, ts, d). lp_max_requests lp - tt_requests ts)")
    (auto dest: reissue_decreases reissue_decreases [OF sym])

declare attempt.simps [simp del]

section \<open>Recording a response\<close>

definition report_response :: "'w turn_state \<Rightarrow> model_response \<Rightarrow> bool \<Rightarrow> turn_report \<Rightarrow> turn_report" where
  "report_response ts response include_message report =
     report\<lparr>rep_epoch := rp_epoch response, rep_requests := tt_requests ts,
            rep_text := rep_text report @ (if include_message then unwrap_or [] (rp_text response) else [])\<rparr>"

definition response_blocks :: "model_response \<Rightarrow> bool \<Rightarrow> content_block list" where
  "response_blocks response include_message =
     (if include_message then rp_content response else []) @ map ToolCallB (rp_calls response)"

text \<open>The completion that was kept back is written now, with the message where there is one.\<close>

definition record_response ::
  "'w loop_env \<Rightarrow> model_response \<Rightarrow> bool \<Rightarrow> turn_report \<Rightarrow> ('w, event_id \<times> turn_report) turn_io" where
  "record_response lp response include_message report ts =
     (let blocks = response_blocks response include_message; completion = rp_completion response;
          report = report_response ts response include_message report;
          m = new_message Assistant blocks; lc = tt_live ts
      in io_bind (if blocks \<noteq> []
                  then io_bind (trace_emit_message (loop_store lp) completion m (lc_trace lc)) (\<lambda>(e, st).
                         io_return (push_message m (em_seq (ee_meta e)) (note_envelope e st lc)))
                  else io_bind (session_emit (loop_store lp) completion) (\<lambda>e.
                         io_return (note_envelope e (lc_trace lc) lc))) (\<lambda>lc.
           io_return ((em_event_id (ee_meta completion), report), ts\<lparr>tt_live := lc\<rparr>)))"

section \<open>Recovering the room for one more request\<close>

definition truncate_utf8_to_bytes :: "string \<Rightarrow> nat \<Rightarrow> string" where
  "truncate_utf8_to_bytes s n = take (floor_char_boundary s n) s"

text \<open>The summary is cut in halves until the request fits, at most 65 times.\<close>

fun fit_summary :: "nat \<Rightarrow> (string \<Rightarrow> bool) \<Rightarrow> string \<Rightarrow> nat \<Rightarrow> string option" where
  "fit_summary 0 fits source n = None"
| "fit_summary (Suc k) fits source n =
     (let s = truncate_utf8_to_bytes source n
      in if fits s then Some s
         else if n = 0 then None
         else let next = length (truncate_utf8_to_bytes source (n div 2))
              in fit_summary k fits source (if next = n then n - 1 else next))"

definition structurally_compacted :: "turn_id \<Rightarrow> live_context \<Rightarrow> bool" where
  "structurally_compacted turn lc =
     list_ex (\<lambda>e. em_turn_id (ee_meta e) = Some turn \<and>
       (case ee_event e of CompactionCompletedEv c \<Rightarrow> requires_safe_boundary (ccc_level c) | _ \<Rightarrow> False))
       (lc_envelopes lc)"

definition fits_request :: "'w loop_env \<Rightarrow> 'w turn_state \<Rightarrow> message list \<Rightarrow> bool" where
  "fits_request lp ts ms \<longleftrightarrow>
     request_context_tokens (lp_json lp) (assemble_request lp ts ms)
       \<le> overflow_recovery_target (cap_context_window (ps_capabilities (active_provider (tt_seat ts))))"

definition recovery_summary :: "'w loop_env \<Rightarrow> 'w turn_state \<Rightarrow> nat \<Rightarrow> nat \<Rightarrow> string option" where
  "recovery_summary lp ts protected prefix_end =
     (let ms = lc_messages (tt_live ts);
          source = lp_summarize lp (take (prefix_end - protected) (drop protected ms))
      in fit_summary 65
           (\<lambda>s. fits_request lp ts (take protected ms @ [user_message s] @ drop prefix_end ms))
           source (length source))"

definition recover_prior_context :: "'w loop_env \<Rightarrow> turn_id \<Rightarrow> ('w, bool) turn_io" where
  "recover_prior_context lp turn ts =
     (let ms = lc_messages (tt_live ts); prefix_end = min (tt_start ts) (length ms);
          protected = min (lc_floor (tt_live ts)) prefix_end;
          refuse = (\<lambda>text. io_bind (turn_note lp (Some turn) WarnLevel text ts) (\<lambda>(_, ts). io_return (False, ts)))
      in if prefix_end \<le> protected
         then refuse ''model response needs recovery, but current-turn content alone cannot be compacted safely''
         else if tt_requests ts \<ge> lp_max_requests lp
         then refuse ''model response needs recovery, but the request budget cannot pay for a reissue''
         else if structurally_compacted turn (tt_live ts) \<and> fits_request lp ts ms
         then io_bind (turn_note lp (Some turn) InfoLevel
                ''existing context compaction already bounded the request; retrying once'' ts) (\<lambda>(_, ts).
                io_return (True, ts))
         else case recovery_summary lp ts protected prefix_end of
                None \<Rightarrow>
                  refuse ''no bounded compacted request fits the active context window; recovery is unavailable''
              | Some summary \<Rightarrow>
                  io_bind (turn_note lp (Some turn) InfoLevel
                    ''compacting prior history for one bounded model-request recovery'' ts) (\<lambda>(_, ts).
                  io_bind (in_live (compact_prefix (loop_store lp) (state_identity ts) turn prefix_end summary) ts)
                    (\<lambda>(replaced, ts).
                    if replaced = 0 then io_return (False, ts)
                    else io_return (True, ts\<lparr>tt_start := lc_floor (tt_live ts) + 1\<rparr>))))"

section \<open>The end of a turn\<close>

type_synonym turn_result = "turn_error + turn_report"

definition finish :: "'w loop_env \<Rightarrow> 'w \<Rightarrow> turn_report \<Rightarrow> turn_status \<Rightarrow> ('w, turn_report) turn_io" where
  "finish lp w0 report status ts =
     (let duration = tv_elapsed (lp_turn lp) w0 (tt_world ts);
          report = report\<lparr>rep_status := status, rep_duration_ms := duration\<rparr>
      in io_bind (in_live (live_emit (loop_store lp) (state_identity ts) (Some (rep_turn_id report))
           (TurnCompletedEv \<lparr> tcd_status = status, tcd_duration_ms = duration \<rparr>)) ts) (\<lambda>(_, ts).
         io_bind (session_flush (loop_store lp)) (\<lambda>_. io_return (report, ts))))"

definition finish_with :: "'w loop_env \<Rightarrow> 'w \<Rightarrow> turn_report \<Rightarrow> turn_status \<Rightarrow> ('w, turn_result) turn_io" where
  "finish_with lp w0 report status ts =
     io_bind (finish lp w0 report status ts) (\<lambda>(report, ts). io_return (Inr report, ts))"

definition finish_failure :: "'w loop_env \<Rightarrow> 'w \<Rightarrow> turn_report \<Rightarrow> model_failure \<Rightarrow> ('w, turn_result) turn_io" where
  "finish_failure lp w0 report failure ts =
     io_bind (finish lp w0 (report\<lparr>rep_requests := tt_requests ts\<rparr>) (TurnFailed (mf_kind failure)) ts) (\<lambda>(_, ts).
       io_return (Inl (Unavailable failure), ts))"

definition exhausted :: "turn_report \<Rightarrow> turn_report" where
  "exhausted report = report\<lparr>rep_budget_exhausted := True\<rparr>"

definition finish_exhausted :: "'w loop_env \<Rightarrow> turn_id \<Rightarrow> 'w \<Rightarrow> turn_report \<Rightarrow> string \<Rightarrow> ('w, turn_result) turn_io" where
  "finish_exhausted lp turn w0 report text ts =
     io_bind (turn_note lp (Some turn) WarnLevel text ts) (\<lambda>(_, ts).
       finish_with lp w0 (exhausted report) TurnBudgetExhausted ts)"

definition count_calls :: "turn_report \<Rightarrow> tool_call_block list \<Rightarrow> store_error + turn_report" where
  "count_calls report calls =
     bind_res (count_u32 (length calls)) (\<lambda>n.
     bind_res (ok_or (checked_add u32_max (rep_tool_calls report) n) CountTooLarge) (\<lambda>total.
       Inr (report\<lparr>rep_tool_calls := total\<rparr>)))"

section \<open>Rounds\<close>

datatype round_step = NextRound bool bool turn_report | TurnEnds turn_result

text \<open>One request is kept back for a final answer, unless the truncation recovery needs it.\<close>

definition request_limit :: "'w loop_env \<Rightarrow> bool \<Rightarrow> usize" where
  "request_limit lp truncation_used =
     (if truncation_used then lp_max_requests lp
      else if lp_max_requests lp > 1 then lp_max_requests lp - 1 else lp_max_requests lp)"

definition ends :: "('w, turn_result) turn_io \<Rightarrow> ('w, round_step) turn_io" where
  "ends m ts = io_bind (m ts) (\<lambda>(r, ts). io_return (TurnEnds r, ts))"

definition noted_failure ::
  "'w loop_env \<Rightarrow> turn_id \<Rightarrow> 'w \<Rightarrow> turn_report \<Rightarrow> model_failure \<Rightarrow> string \<Rightarrow> ('w, turn_result) turn_io" where
  "noted_failure lp turn w0 report failure text ts =
     io_bind (turn_note lp (Some turn) WarnLevel text ts) (\<lambda>(_, ts). finish_failure lp w0 report failure ts)"

text \<open>The two recoveries of a turn are each used once.\<close>

definition handle_failure ::
  "'w loop_env \<Rightarrow> turn_id \<Rightarrow> 'w \<Rightarrow> bool \<Rightarrow> bool \<Rightarrow> turn_report \<Rightarrow> turn_failure \<Rightarrow> ('w, round_step) turn_io" where
  "handle_failure lp turn w0 overflow_used truncation_used report failure ts =
     (case failure of
        TurnStopped \<Rightarrow>
          ends (finish_with lp w0 (report\<lparr>rep_requests := tt_requests ts\<rparr>) TurnCancelled) ts
      | ProviderOverflow f \<Rightarrow>
          (if overflow_used
           then ends (noted_failure lp turn w0 report f
                  (''provider rejected the compacted request for context overflow; automatic recovery already ''
                   @ ''used for this turn'')) ts
           else io_bind (recover_prior_context lp turn ts) (\<lambda>(recovered, ts).
                  if recovered then io_return (NextRound True truncation_used report, ts)
                  else ends (finish_failure lp w0 report f) ts))
      | OutputTruncated f actual requested shown \<Rightarrow>
          (if shown
           then ends (noted_failure lp turn w0 report f
                  (''output-limit recovery was skipped because partial assistant output was already streamed ''
                   @ ''to the surface'')) ts
           else if truncation_used
           then ends (noted_failure lp turn w0 report f
                  (''output-limit recovery was already used for this turn; leaving the incomplete response ''
                   @ ''failed'')) ts
           else io_bind (recover_prior_context lp turn ts) (\<lambda>(recovered, ts).
                  if recovered
                  then io_bind (turn_note lp (Some turn) InfoLevel
                         (''output-limit response used '' @ show_nat actual @ '' of '' @ show_nat requested
                          @ '' requested tokens; prior context compacted and one same-model retry is allowed'') ts)
                         (\<lambda>(_, ts). io_return (NextRound overflow_used True report, ts))
                  else ends (finish_failure lp w0 report f) ts))
      | FatalFailure f \<Rightarrow> ends (finish_failure lp w0 report f) ts
      | StoreStopped m \<Rightarrow> io_return (TurnEnds (Inl (SinkText m)), ts))"

definition boundary_failure :: "string \<Rightarrow> model_failure" where
  "boundary_failure reason = new_failure Semantic PreRequest reason"

definition run_calls ::
  "'w loop_env \<Rightarrow> turn_id \<Rightarrow> event_id \<Rightarrow> (string, string) btree \<Rightarrow> tool_call_block list \<Rightarrow> ('w, bool) turn_io" where
  "run_calls lp turn assistant rejected calls ts =
     io_bind (execute_calls (tools_env lp ts) turn assistant (map_of rejected) calls False (tt_live ts) (tt_world ts))
       (\<lambda>(ok, lc, w). io_return (ok, ts\<lparr>tt_live := lc, tt_world := w\<rparr>))"

definition leave_calls ::
  "'w loop_env \<Rightarrow> turn_id \<Rightarrow> event_id \<Rightarrow> string \<Rightarrow> tool_call_block list \<Rightarrow> ('w, unit) turn_io" where
  "leave_calls lp turn assistant reason calls ts =
     io_bind (record_unexecuted_calls (tools_env lp ts) turn assistant reason True calls (tt_live ts) (tt_world ts))
       (\<lambda>(lc, w). io_return ((), ts\<lparr>tt_live := lc, tt_world := w\<rparr>))"

definition handle_response ::
  "'w loop_env \<Rightarrow> turn_id \<Rightarrow> 'w \<Rightarrow> bool \<Rightarrow> bool \<Rightarrow> turn_report \<Rightarrow> model_response \<Rightarrow> ('w, round_step) turn_io" where
  "handle_response lp turn w0 overflow_used truncation_used report response ts =
     (let calls = rp_calls response; rejected_completion = (tt_boundary ts \<and> calls = [])
      in io_bind (record_response lp response (\<not> rejected_completion) report ts) (\<lambda>((assistant, report), ts).
         if calls = [] then
           (if rejected_completion
            then io_bind (append_progress_retry lp turn ts) (\<lambda>(_, ts).
                 io_bind (turn_note lp (Some turn) WarnLevel
                   (''progress boundary rejected a text-only completion; a configured progress tool must ''
                    @ ''succeed before the turn can complete'') ts) (\<lambda>(_, ts).
                   io_return (NextRound overflow_used truncation_used report, ts)))
            else ends (finish_with lp w0 report TurnDone) ts)
         else if \<not> tt_tools_enabled ts then
           io_bind (leave_calls lp turn assistant ''finalization mode does not execute tools'' calls ts) (\<lambda>(_, ts).
             ends (finish_exhausted lp turn w0 report
               ''finalization received a tool request; no tool was executed'') ts)
         else
           io_bind (io_lift id (count_calls report calls)) (\<lambda>report.
           io_bind (run_calls lp turn assistant (rp_rejected response) calls ts) (\<lambda>(succeeded, ts).
           io_bind (observe_progress lp turn succeeded ts) (\<lambda>(reason, ts).
             case reason of
               Some why \<Rightarrow> ends (finish_failure lp w0 report (boundary_failure why)) ts
             | None \<Rightarrow> io_return (NextRound overflow_used truncation_used report, ts))))))"

definition refresh_approval :: "'w loop_env \<Rightarrow> 'w turn_state \<Rightarrow> 'w turn_state" where
  "refresh_approval lp ts =
     ts\<lparr>tt_can_approve := lp_interactive_approval lp \<and> lp_approval_available lp (tt_world ts)\<rparr>"

definition start_attempt :: "'w loop_env \<Rightarrow> turn_id \<Rightarrow> ('w, turn_failure + model_response) turn_io" where
  "start_attempt lp turn ts = attempt lp turn 0 (epoch_index (tt_seat ts)) ts"

definition turn_round ::
  "'w loop_env \<Rightarrow> turn_id \<Rightarrow> 'w \<Rightarrow> bool \<Rightarrow> bool \<Rightarrow> turn_report \<Rightarrow> ('w, round_step) turn_io" where
  "turn_round lp turn w0 overflow_used truncation_used report ts =
     (if loop_cancelled lp ts then ends (finish_with lp w0 report TurnCancelled) ts
      else io_bind (start_attempt lp turn (refresh_approval lp ts)) (\<lambda>(result, ts).
             case result of
               Inl failure \<Rightarrow> handle_failure lp turn w0 overflow_used truncation_used report failure ts
             | Inr response \<Rightarrow> handle_response lp turn w0 overflow_used truncation_used report response ts))"

end
