(* ===== verification/Turn_Loop.thy ===== *)
theory Turn_Loop
  imports Turn_Driver
begin

text \<open>
  \<open>run_turn\<close> of \<open>crates/rupi-runtime/src/turn.rs\<close>: interrupted calls are reconciled before anything is
  asked of a model, rounds run while requests are left, and the last request of the budget asks for a
  final answer without tools.
\<close>

section \<open>Rounds spend requests\<close>

lemma recover_prior_context_count:
  "recover_prior_context lp turn ts d = (ws, Inr (a, ts')) \<Longrightarrow> tt_requests ts' = tt_requests ts"
  unfolding recover_prior_context_def Let_def
  by (auto simp: io_return_def split: if_splits option.splits elim!: io_bind_ok dest!: count_steps)

lemma record_response_count:
  "record_response lp response m report ts d = (ws, Inr (a, ts')) \<Longrightarrow> tt_requests ts' = tt_requests ts"
  unfolding record_response_def Let_def
  by (auto simp: io_return_def elim!: io_bind_ok)

lemma run_calls_count:
  "run_calls lp turn assistant rejected calls ts d = (ws, Inr (a, ts')) \<Longrightarrow> tt_requests ts' = tt_requests ts"
  unfolding run_calls_def by (auto simp: io_return_def elim!: io_bind_ok)

lemma leave_calls_count:
  "leave_calls lp turn assistant reason calls ts d = (ws, Inr (a, ts')) \<Longrightarrow> tt_requests ts' = tt_requests ts"
  unfolding leave_calls_def by (auto simp: io_return_def elim!: io_bind_ok)

lemma observe_progress_count:
  "observe_progress lp turn ok ts d = (ws, Inr (a, ts')) \<Longrightarrow> tt_requests ts' = tt_requests ts"
  unfolding observe_progress_def append_progress_instruction_def Let_def
  by (auto simp: io_return_def split: if_splits option.splits elim!: io_bind_ok dest!: count_steps)

lemma append_progress_retry_count:
  "append_progress_retry lp turn ts d = (ws, Inr (a, ts')) \<Longrightarrow> tt_requests ts' = tt_requests ts"
  unfolding append_progress_retry_def by (rule say_count)

lemma ends_never_next: "ends m ts d = (ws, Inr (NextRound ou' tu' rep, ts')) \<Longrightarrow> False"
  by (auto simp: ends_def io_return_def elim!: io_bind_ok)

text \<open>An attempt that did not stop has spent a request; none spends more than there are.\<close>

lemma attempt_count:
  assumes "attempt lp turn a e ts d = (ws, Inr (r, ts'))"
  shows "tt_requests ts \<le> tt_requests ts' \<and> tt_requests ts' \<le> max (tt_requests ts + 1) (lp_max_requests lp)
    \<and> (is_spent r \<longrightarrow> tt_requests ts < tt_requests ts')"
  using assms
proof (induction lp turn a e ts d arbitrary: ws rule: attempt.induct)
  case (1 lp turn attempts epoch ts d)
  obtain ws1 r1 where one: "attempt_once lp turn attempts epoch ts d = (ws1, r1)"
    by (cases "attempt_once lp turn attempts epoch ts d")
  show ?case
  proof (cases r1)
    case (Inl err)
    then show ?thesis
      using "1.prems" one by (simp add: attempt.simps)
  next
    case (Inr p)
    obtain s ts1 where p: "p = (s, ts1)"
      by (cases p)
    show ?thesis
    proof (cases s)
      case (Reissue a e)
      from attempt_once_count [OF one [unfolded Inr p], of a e] Reissue
      have count: "tt_requests ts1 = tt_requests ts + 1" "tt_requests ts1 < lp_max_requests lp"
        by simp_all
      obtain vs where rest: "attempt lp turn a e ts1 (apply_writes ws1 d) = (vs, Inr (r, ts'))"
        using "1.prems" one Inr p Reissue by (subst (asm) attempt.simps) (auto split: prod.splits)
      from "1.IH" [OF one [symmetric] Inr p [symmetric] Reissue rest] have
        "tt_requests ts1 \<le> tt_requests ts'" "tt_requests ts' \<le> max (tt_requests ts1 + 1) (lp_max_requests lp)"
        by blast+
      with count show ?thesis
        by auto
    next
      case (Ended res)
      then have "res = r" "ts1 = ts'"
        using "1.prems" one Inr p by (auto simp: attempt.simps)
      with attempt_once_count [OF one [unfolded Inr p]] Ended show ?thesis
        by auto
    qed
  qed
qed

lemma handle_failure_count:
  assumes "handle_failure lp turn w0 ou tu report failure ts d = (ws, Inr (NextRound ou' tu' report', ts'))"
  shows "tt_requests ts' = tt_requests ts \<and> is_spent (Inl failure)"
  using assms unfolding handle_failure_def Let_def
  by (auto simp: io_return_def split: turn_failure.splits if_splits elim!: io_bind_ok
      dest!: count_steps recover_prior_context_count ends_never_next)

lemma handle_response_count:
  assumes "handle_response lp turn w0 ou tu report response ts d = (ws, Inr (NextRound ou' tu' report', ts'))"
  shows "tt_requests ts' = tt_requests ts"
  using assms unfolding handle_response_def Let_def
  by (auto simp: io_return_def split: if_splits option.splits elim!: io_bind_ok
      dest!: count_steps record_response_count run_calls_count leave_calls_count observe_progress_count
        append_progress_retry_count ends_never_next)

lemma turn_round_count:
  assumes "turn_round lp turn w0 ou tu report ts d = (ws, Inr (NextRound ou' tu' report', ts'))"
  shows "tt_requests ts < tt_requests ts'"
  using assms unfolding turn_round_def start_attempt_def
  by (auto simp: refresh_approval_def split: if_splits sum.splits elim!: io_bind_ok
      dest!: handle_failure_count handle_response_count attempt_count ends_never_next)

lemma request_limit_le: "request_limit lp tu \<le> lp_max_requests lp"
  by (simp add: request_limit_def)

lemma round_decreases:
  assumes "turn_round lp turn w0 ou tu report ts d = (ws, Inr (NextRound ou' tu' report', ts'))"
    and "tt_requests ts < request_limit lp tu"
  shows "lp_max_requests lp - tt_requests ts' < lp_max_requests lp - tt_requests ts"
  using turn_round_count [OF assms(1)] assms(2) request_limit_le [of lp tu] by linarith

text \<open>\<open>None\<close> when the requests ran out before the turn ended.\<close>

function rounds ::
  "'w loop_env \<Rightarrow> turn_id \<Rightarrow> 'w \<Rightarrow> bool \<Rightarrow> bool \<Rightarrow> turn_report \<Rightarrow> 'w turn_state
    \<Rightarrow> ((turn_result option \<times> turn_report) \<times> 'w turn_state) io" where
  "rounds lp turn w0 overflow_used truncation_used report ts d =
     (if tt_requests ts < request_limit lp truncation_used
      then case turn_round lp turn w0 overflow_used truncation_used report ts d of
             (ws, Inl e) \<Rightarrow> (ws, Inl e)
           | (ws, Inr (TurnEnds r, ts')) \<Rightarrow> (ws, Inr ((Some r, report), ts'))
           | (ws, Inr (NextRound ou tu report', ts')) \<Rightarrow>
               (let (vs, r) = rounds lp turn w0 ou tu report' ts' (apply_writes ws d) in (ws @ vs, r))
      else ([], Inr ((None, report), ts)))"
  by pat_completeness auto
termination
  by (relation "measure (\<lambda>(lp, turn, w0, ou, tu, report, ts, d). lp_max_requests lp - tt_requests ts)")
    (auto dest: round_decreases round_decreases [OF sym])

declare rounds.simps [simp del]

section \<open>The final answer\<close>

definition finalize_turn :: "'w loop_env \<Rightarrow> turn_id \<Rightarrow> 'w \<Rightarrow> turn_report \<Rightarrow> ('w, turn_result) turn_io" where
  "finalize_turn lp turn w0 report ts =
     (if loop_cancelled lp ts
      then finish_with lp w0 (report\<lparr>rep_requests := tt_requests ts\<rparr>) TurnCancelled ts
      else io_bind (append_finalization lp turn ts) (\<lambda>(_, ts).
        let tools_enabled = tt_tools_enabled ts
        in io_bind (start_attempt lp turn (ts\<lparr>tt_tools_enabled := False\<rparr>)) (\<lambda>(result, ts).
           let ts = ts\<lparr>tt_tools_enabled := tools_enabled\<rparr>
           in case result of
                Inl TurnStopped \<Rightarrow> finish_with lp w0 (report\<lparr>rep_requests := tt_requests ts\<rparr>) TurnCancelled ts
              | Inl (ProviderOverflow f) \<Rightarrow> finish_failure lp w0 report f ts
              | Inl (FatalFailure f) \<Rightarrow> finish_failure lp w0 report f ts
              | Inl (StoreStopped m) \<Rightarrow> io_return (Inl (SinkText m), ts)
              | Inl (OutputTruncated f _ _ _) \<Rightarrow> finish_failure lp w0 report f ts
              | Inr response \<Rightarrow>
                  io_bind (record_response lp response True report ts) (\<lambda>((assistant, report), ts).
                    let calls = rp_calls response
                    in if calls = []
                       then finish_exhausted lp turn w0 report
                         (''request budget exhausted; finalization answer is incomplete and the session can be ''
                          @ ''resumed'') ts
                       else io_bind (io_lift id (count_calls report calls)) (\<lambda>report.
                            io_bind (leave_calls lp turn assistant
                              ''request-budget finalization does not execute tools'' calls ts) (\<lambda>(_, ts).
                              finish_exhausted lp turn w0 report
                                (''request budget exhausted; finalization requested tools and none were executed, ''
                                 @ ''so the session can be resumed'') ts))))))"

definition out_of_requests :: "'w loop_env \<Rightarrow> turn_id \<Rightarrow> 'w \<Rightarrow> turn_report \<Rightarrow> ('w, turn_result) turn_io" where
  "out_of_requests lp turn w0 report ts =
     (if tt_boundary ts
      then finish_exhausted lp turn w0 report
        (''request budget exhausted while the required progress boundary remained unsatisfied; the session can ''
         @ ''be resumed'') ts
      else if lp_max_requests lp > 1 \<and> tt_requests ts < lp_max_requests lp
      then finalize_turn lp turn w0 report ts
      else finish_exhausted lp turn w0 report
        (''request budget exhausted after '' @ show_nat (lp_max_requests lp)
         @ '' model requests without a final answer; the session can be resumed'') ts)"

definition drive_turn :: "'w loop_env \<Rightarrow> turn_id \<Rightarrow> 'w \<Rightarrow> turn_report \<Rightarrow> ('w, turn_result) turn_io" where
  "drive_turn lp turn w0 report ts =
     io_bind (rounds lp turn w0 False False report ts) (\<lambda>((result, report), ts).
       case result of Some r \<Rightarrow> io_return (r, ts) | None \<Rightarrow> out_of_requests lp turn w0 report ts)"

section \<open>Interrupted calls\<close>

text \<open>A call that cannot be settled blocks the loop; the reason is the error the caller gets.\<close>

definition blocked :: "string \<Rightarrow> ('w, turn_error option) turn_io" where
  "blocked text ts = io_return (Some (SinkText text), ts\<lparr>tt_blocked := True\<rparr>)"

definition recovered_text :: "string \<Rightarrow> string" where
  "recovered_text details = ''recovered interrupted call: '' @ details"

definition settled_event :: "tool_request \<Rightarrow> bool \<Rightarrow> string \<Rightarrow> agent_event" where
  "settled_event request committed details =
     (if committed
      then ToolCompletedEv \<lparr> tcm_call_id = tr_call_id request, tcm_name = tr_name request, tcm_state = Succeeded,
             tcm_duration_ms = 0, tcm_status = None, tcm_reduced = False, tcm_blob = None,
             tcm_visible_bytes = length (recovered_text details) \<rparr>
      else ToolFailedEv \<lparr> tfl_call_id = tr_call_id request, tfl_name = tr_name request, tfl_message = details,
             tfl_duration_ms = 0, tfl_status = None \<rparr>)"

definition settle_call ::
  "'w loop_env \<Rightarrow> turn_id \<Rightarrow> interrupted_tool_call \<Rightarrow> bool \<Rightarrow> string \<Rightarrow> ('w, unit) turn_io" where
  "settle_call lp turn call committed details ts =
     (let request = it_request call;
          m = result_message \<lparr> tb_id = tr_call_id request, tb_name = tr_name request,
            tb_state = (if committed then Succeeded else Failed), tb_text = recovered_text details,
            tb_is_error = (\<not> committed), tb_reduced = False \<rparr>
      in in_live (\<lambda>lc. io_bind (turn_emit_message (loop_store lp) (state_identity ts) turn
             (settled_event request committed details)
             (or_else (it_started_event_id call) (it_request_event_id call)) m lc) (\<lambda>(e, lc).
             io_return ((), push_message m (em_seq (ee_meta e)) lc))) ts)"

definition quoted :: "string \<Rightarrow> string" where
  "quoted s = [CHR 0x27] @ s @ [CHR 0x27]"

fun reconcile_calls :: "'w loop_env \<Rightarrow> interrupted_tool_call list \<Rightarrow> ('w, turn_error option) turn_io" where
  "reconcile_calls lp [] ts = io_return (None, ts\<lparr>tt_interrupted := []\<rparr>)"
| "reconcile_calls lp (call # calls) ts =
     (let name = tr_name (it_request call); ts = ts\<lparr>tt_interrupted := call # calls\<rparr>
      in case it_turn_id call of
           None \<Rightarrow> blocked (''cannot resume interrupted tool '' @ quoted name @ '': trace has no turn identity'') ts
         | Some turn \<Rightarrow>
            (case reconcile_with_risk (registry_now lp ts) (it_request call) (Some (it_read_only call)) (tt_world ts) of
               Inl e \<Rightarrow> blocked (''cannot reconcile interrupted tool '' @ quoted name @ '': '' @ te_message e) ts
             | Inr (Committed details) \<Rightarrow>
                 io_bind (settle_call lp turn call True details ts) (\<lambda>(_, ts). reconcile_calls lp calls ts)
             | Inr (Unmodified details) \<Rightarrow>
                 io_bind (settle_call lp turn call False details ts) (\<lambda>(_, ts). reconcile_calls lp calls ts)
             | Inr r \<Rightarrow>
                 blocked (''cannot continue session: interrupted mutating tool '' @ quoted name
                   @ '' requires manual inspection: '' @ rs_details r) ts))"

definition reconcile_interrupted :: "'w loop_env \<Rightarrow> ('w, turn_error option) turn_io" where
  "reconcile_interrupted lp ts =
     (if tt_blocked ts
      then io_return (Some (SinkText
        ''cannot continue session: interrupted tool reconciliation is still unresolved''), ts)
      else reconcile_calls lp (tt_interrupted ts) ts)"

section \<open>A turn\<close>

definition open_turn :: "'w loop_env \<Rightarrow> ('w, turn_error option) turn_io" where
  "open_turn lp ts =
     io_bind (ensure_session_started (loop_store lp) (tt_seat ts) (tt_live ts)) (\<lambda>(seat, lc).
     let ts = (keep_live lc ts)\<lparr>tt_seat := seat\<rparr>; was_resumed = ms_resumed seat;
         restored = active_model seat; restored_epoch = lc_epoch (tt_live ts);
         pending = length (tt_interrupted ts)
     in io_bind (reconcile_interrupted lp ts) (\<lambda>(refusal, ts).
        if refusal \<noteq> None \<or> \<not> was_resumed then io_return (refusal, ts)
        else io_bind (turn_note lp None WarnLevel
               (''resumed session: model '' @ as_key restored @ '', context epoch '' @ show_nat restored_epoch
                @ '', reconciled '' @ show_nat pending @ '' interrupted tool(s); fresh request budget is ''
                @ show_nat (lp_max_requests lp)) ts) (\<lambda>(_, ts).
               io_return (None, ts\<lparr>tt_seat := (tt_seat ts)\<lparr>ms_resumed := False\<rparr>\<rparr>))))"

fun add_external :: "'w loop_env \<Rightarrow> turn_id \<Rightarrow> external_item list \<Rightarrow> ('w, unit) turn_io" where
  "add_external lp turn [] ts = io_return ((), ts)"
| "add_external lp turn (item # items) ts =
     io_bind (in_live (record_message (loop_store lp) (state_identity ts) turn
       (ExternalContextEv \<lparr> ecr_source = ei_source item, ecr_citation = ei_citation item,
          ecr_bytes = length (ei_text item), ecr_inline = ei_inline item, ecr_metadata = ei_metadata item \<rparr>)
       (user_message (format_item item))) ts) (\<lambda>(_, ts). add_external lp turn items ts)"

definition begin_turn :: "'w loop_env \<Rightarrow> 'w turn_state \<Rightarrow> 'w turn_state" where
  "begin_turn lp ts =
     (refresh_approval lp (ts\<lparr>tt_world := lp_reset lp (ps_model (active_provider (tt_seat ts))) (tt_world ts)\<rparr>))
       \<lparr>tt_requests := 0, tt_silent_requests := 0, tt_boundary := False, tt_boundary_used := False,
        tt_start := length (lc_messages (tt_live ts))\<rparr>"

definition run_turn :: "'w loop_env \<Rightarrow> turn_id \<Rightarrow> string \<Rightarrow> external_item list \<Rightarrow> ('w, turn_result) turn_io" where
  "run_turn lp turn input external ts =
     (let ts = begin_turn lp ts; w0 = tt_world ts; report = new_report turn (epoch_index (tt_seat ts))
      in io_bind (open_turn lp ts) (\<lambda>(refusal, ts).
         case refusal of
           Some e \<Rightarrow> io_return (Inl e, ts)
         | None \<Rightarrow>
             io_bind (add_external lp turn external ts) (\<lambda>(_, ts).
             io_bind (say lp turn input ts) (\<lambda>(_, ts).
               drive_turn lp turn w0 report (ts\<lparr>tt_world := lp_on_user lp input (tt_world ts)\<rparr>)))))"

text \<open>A bounded assessment: one request, no tools.\<close>

definition run_finalization :: "'w loop_env \<Rightarrow> turn_id \<Rightarrow> string \<Rightarrow> ('w, turn_result) turn_io" where
  "run_finalization lp turn input ts =
     io_bind (run_turn (lp\<lparr>lp_max_requests := 1\<rparr>) turn input [] (ts\<lparr>tt_tools_enabled := False\<rparr>)) (\<lambda>(r, ts').
       io_return (r, ts'\<lparr>tt_tools_enabled := tt_tools_enabled ts\<rparr>))"

section \<open>Around the turns\<close>

text \<open>An explicit end distinguishes a finished session from a lost one; it is on disk before it returns.\<close>

definition end_session :: "'w loop_env \<Rightarrow> session_end_reason \<Rightarrow> ('w, unit) turn_io" where
  "end_session lp reason ts =
     io_bind (in_live (live_emit (loop_store lp) (state_identity ts) None (SessionEndedEv reason)) ts) (\<lambda>(_, ts).
     io_bind (session_flush (loop_store lp)) (\<lambda>_. io_return ((), ts)))"

definition with_messages :: "message list \<Rightarrow> 'w turn_state \<Rightarrow> 'w turn_state" where
  "with_messages ms ts = ts\<lparr>tt_live := (tt_live ts)\<lparr>lc_seqs := replicate (length ms) None, lc_messages := ms\<rparr>\<rparr>"

end
