(* ===== verification/Emission_Kinds.thy ===== *)
theory Emission_Kinds
  imports Turn_Loop Turn_Lifecycles Session_Resume
begin

text \<open>
  Which kinds of events an operation may write, whether it succeeds or breaks off. Everything a turn
  does beside announcing and streaming a request writes neither a request nor a delta.
\<close>

section \<open>The lines of a list of writes\<close>

fun written_line :: "disk_write \<Rightarrow> trace_entry option" where
  "written_line (TraceAppend l) = Some l"
| "written_line _ = None"

definition trace_lines :: "disk_write list \<Rightarrow> trace_entry list" where
  "trace_lines ws = List.map_filter written_line ws"

lemma trace_lines_simps [simp]:
  "trace_lines [] = []"
  "trace_lines (ws @ vs) = trace_lines ws @ trace_lines vs"
  by (simp_all add: trace_lines_def List.map_filter_def)

lemma trace_lines_Cons: "trace_lines (w # ws) = (case written_line w of None \<Rightarrow> [] | Some l \<Rightarrow> [l]) @ trace_lines ws"
  by (auto simp: trace_lines_def List.map_filter_def split: option.split)

lemma trace_of_writes: "du_trace (apply_writes ws d) = du_trace d @ trace_lines ws"
proof (induction ws arbitrary: d)
  case (Cons w ws)
  then show ?case
    by (cases w) (simp_all add: trace_lines_Cons)
qed simp

definition kind_of_line :: "trace_entry \<Rightarrow> string" where
  "kind_of_line l = event_kind (entry_event l)"

definition kinds_in :: "string set \<Rightarrow> disk_write list \<Rightarrow> bool" where
  "kinds_in K ws \<longleftrightarrow> kind_of_line ` set (trace_lines ws) \<subseteq> K"

lemma kinds_in_simps [simp]: "kinds_in K []" "kinds_in K (ws @ vs) \<longleftrightarrow> kinds_in K ws \<and> kinds_in K vs"
  by (auto simp: kinds_in_def)

definition emits :: "string set \<Rightarrow> 'a io \<Rightarrow> bool" where
  "emits K m \<longleftrightarrow> (\<forall>d. kinds_in K (fst (m d)))"

lemma emitsD: "emits K m \<Longrightarrow> m d = (ws, r) \<Longrightarrow> kinds_in K ws"
  unfolding emits_def by (metis fst_conv)

lemma emits_mono: "emits K m \<Longrightarrow> K \<subseteq> L \<Longrightarrow> emits L m"
  unfolding emits_def kinds_in_def by blast

lemma emits_bind: "emits K m \<Longrightarrow> (\<And>a. emits K (f a)) \<Longrightarrow> emits K (io_bind m f)"
  by (auto simp: emits_def io_bind_def split: prod.splits sum.splits) (metis fst_conv)+

lemma emits_simple [simp]:
  "emits K (io_return a)" "emits K (io_fail e)" "emits K io_get" "emits K (io_lift f r)"
  by (auto simp: emits_def io_get_def) (cases r; simp)

lemma emits_untraced: "untraced m \<Longrightarrow> emits K m"
proof -
  assume m: "untraced m"
  have "trace_lines (fst (m d)) = []" for d
    using untraced_writes [of "fst (m d)" d] m by (simp add: untraced_def trace_of_writes)
  then show ?thesis
    by (simp add: emits_def kinds_in_def)
qed

lemma emits_Let: "(\<And>x. emits K (f x)) \<Longrightarrow> emits K (let x = t in f x)"
  by simp

lemma emits_if: "emits K a \<Longrightarrow> emits K b \<Longrightarrow> emits K (if c then a else b)"
  by simp

lemma emits_pair: "(\<And>x y. emits K (f x y)) \<Longrightarrow> emits K (case p of (x, y) \<Rightarrow> f x y)"
  by (cases p) simp

lemma emits_pair_app: "(\<And>x y. emits K (f x y z)) \<Longrightarrow> emits K ((case p of (x, y) \<Rightarrow> f x y) z)"
  by (cases p) simp

lemma emits_option: "emits K a \<Longrightarrow> (\<And>x. emits K (f x)) \<Longrightarrow> emits K (case p of None \<Rightarrow> a | Some x \<Rightarrow> f x)"
  by (cases p) simp_all

lemma emits_sum: "(\<And>x. emits K (f x)) \<Longrightarrow> (\<And>x. emits K (g x)) \<Longrightarrow> emits K (case p of Inl x \<Rightarrow> f x | Inr x \<Rightarrow> g x)"
  by (cases p) simp_all

lemmas emits_intros = emits_Let emits_if emits_pair emits_pair_app emits_option emits_sum emits_bind emits_simple

text \<open>A store may shorten a line, but it does not change what kind of event it is.\<close>

definition keeps_kinds :: "store_env \<Rightarrow> bool" where
  "keeps_kinds env \<longleftrightarrow> (\<forall>e l. sv_line env e = Some l \<longrightarrow> kind_of_line l = kind_of_line e)"

lemma line_kind: "keeps_kinds env \<Longrightarrow> line_of env e l \<Longrightarrow> kind_of_line l = event_kind (ee_event e)"
  by (auto simp: keeps_kinds_def line_of_def kind_of_line_def plain_entry_def with_seq_def)

lemma emits_traced:
  assumes "traced env e m" "keeps_kinds env" "event_kind (ee_event e) \<in> K"
  shows "emits K m"
  unfolding emits_def
proof
  fix d :: durable
  let ?J = "\<lambda>t. \<exists>ls. t = du_trace d @ ls \<and> kind_of_line ` set ls \<subseteq> K"
  have "admits env ?J e d"
    using line_kind [OF assms(2)] assms(3) by (fastforce simp: admits_def)
  then have g: "guarded (on_trace ?J) m d (\<lambda>_ d'. extended env e d d')"
    by (rule tracedD [OF assms(1)])
  then have "on_trace ?J (apply_writes (take (length (fst (m d))) (fst (m d))) d)"
    unfolding guarded_alt by blast
  then show "kinds_in K (fst (m d))"
    by (auto simp: on_trace_def trace_of_writes kinds_in_def)
qed

section \<open>Everything but requests and deltas\<close>

definition plain :: "string set" where
  "plain = - {''model_request_started'', ''reasoning_delta'', ''assistant_delta''}"

lemma emits_trace_emit:
  "keeps_kinds env \<Longrightarrow> event_kind (ee_event e) \<in> K \<Longrightarrow> emits K (trace_emit env e st)"
  by (rule emits_traced [OF traced_trace_emit])

lemma emits_trace_message:
  "keeps_kinds env \<Longrightarrow> em_seq (ee_meta e) = None \<Longrightarrow> event_kind (ee_event e) \<in> K \<Longrightarrow>
    emits K (trace_emit_message env e m st)"
  by (rule emits_traced [OF traced_emit_message])

lemma loop_envelope_parts [simp]:
  "ee_event (loop_envelope env li n turn event) = event"
  "em_seq (ee_meta (loop_envelope env li n turn event)) = None"
  "ee_event (turn_envelope env li t event parent d) = event"
  "em_seq (ee_meta (turn_envelope env li t event parent d)) = None"
  by (simp_all add: loop_envelope_def turn_envelope_def parented_def new_envelope_def new_meta_def case_prod_beta)

lemma emits_live:
  assumes "keeps_kinds env" "event_kind event \<in> K"
  shows "emits K (live_emit env li turn event lc)" "emits K (live_emit_message env li turn event m lc)"
    "emits K (turn_emit env li t event parent lc)" "emits K (turn_emit_message env li t event parent m lc)"
    "emits K (turn_emit_without_message env li t event parent lc)"
  using assms emits_traced [OF traced_session_emit]
  unfolding live_emit_def live_emit_message_def turn_emit_def turn_emit_message_def turn_emit_without_message_def
  by (auto intro!: emits_bind emits_trace_emit emits_trace_message)

lemma emits_payload: "emits K (trace_put_payload env bytes)"
  by (rule emits_untraced [OF untraced_payload])

lemma emits_checkpoint_file: "emits K (trace_create_checkpoint env capsule st)" "emits K (set_checkpoint_context_epoch n st)"
  by (auto simp: trace_create_checkpoint_def prepare_checkpoint_def set_checkpoint_context_epoch_def Let_def
      intro!: emits_bind split: option.split)

lemmas emits_events = emits_live

lemma emits_diagnose:
  assumes env: "keeps_kinds env"
  shows "emits plain (diagnose env ms turn level text lc)"
  unfolding diagnose_def by (intro emits_bind emits_events env) (auto simp: plain_def)

lemma emits_evict:
  assumes env: "keeps_kinds env"
  shows "emits plain (evict_oldest env li est target turn start p lc)"
  unfolding evict_oldest_def
  by (intro emits_intros emits_events env emits_payload) (simp add: plain_def)

lemma emits_compact_range:
  assumes env: "keeps_kinds env"
  shows "emits plain (compact_range env li turn n summary level reason lc)"
  unfolding compact_range_def
  by (intro emits_intros emits_events env emits_payload) (simp_all add: plain_def)

lemma emits_compactions:
  assumes env: "keeps_kinds env"
  shows "emits plain (compact_prefix env li turn n summary lc)"
  "emits plain (compact_turn_prefix env li summarize turn start level reason lc)"
  "emits plain (compact_completed_turn_cycles env li summarize tokens turn start target reason lc)"
  unfolding compact_prefix_def compact_turn_prefix_def compact_completed_turn_cycles_def
  by (intro emits_intros emits_compact_range [OF env])+

lemma emits_checkpoint_prefix:
  assumes env: "keeps_kinds env"
  shows "emits plain (checkpoint_turn_prefix env li turn capsule start lc)"
  unfolding checkpoint_turn_prefix_def
  by (intro emits_intros emits_events env emits_checkpoint_file) (simp_all add: plain_def)

lemma emits_record_message:
  assumes env: "keeps_kinds env"
  shows "event_kind event \<in> plain \<Longrightarrow> emits plain (record_message env li turn event m lc)"
  unfolding record_message_def by (intro emits_intros emits_events env)

lemma emits_started:
  assumes env: "keeps_kinds env"
  shows "emits plain (ensure_session_started env ms lc)"
  unfolding ensure_session_started_def epoch_event_def
  by (intro emits_intros emits_events env) (simp_all add: plain_def)

lemma emits_rebudget:
  assumes env: "keeps_kinds env"
  shows "emits plain (rebudget env ms backup turn start lc)"
  unfolding rebudget_def by (intro emits_intros emits_evict [OF env])

lemma emits_next_index: "emits K (next_epoch_index ms)"
  by (simp add: next_epoch_index_def)

lemma emits_start_epoch:
  assumes env: "keeps_kinds env"
  shows "emits plain (start_epoch env turn e ms lc)"
  unfolding start_epoch_def epoch_event_def
  by (intro emits_intros emits_events env) (simp add: plain_def)

lemma emits_recover:
  assumes env: "keeps_kinds env"
  shows "emits plain (recover env ms turn failure cancelled start lc)"
proof -
  have decision: "(\<And>a n. emits plain (f a n)) \<Longrightarrow> (\<And>t gs. emits plain (g t gs)) \<Longrightarrow> (\<And>t gs. emits plain (h t gs)) \<Longrightarrow>
      emits plain z \<Longrightarrow> emits plain (case r of Retry a n \<Rightarrow> f a n | Failover t gs \<Rightarrow> g t gs | Refused t gs \<Rightarrow> h t gs | Abort \<Rightarrow> z)"
    for f g h z r
    by (cases r) simp_all
  show ?thesis
    unfolding recover_def
    by (intro emits_intros decision emits_events env emits_diagnose [OF env] emits_rebudget [OF env] emits_next_index emits_start_epoch [OF env])
      (simp_all add: plain_def)
qed

end
