(* ===== verification/Turn_Bounds.thy ===== *)
theory Turn_Bounds
  imports Emission_Kinds Collector_Tee
begin

text \<open>
  What bounds a turn: whatever the model, the tools and the store do, it starts no more requests than
  its budget, and within an attempt nothing is asked again once something was shown.
\<close>

section \<open>Operations that start no request\<close>

definition quiet_env :: "'w loop_env \<Rightarrow> bool" where
  "quiet_env lp \<longleftrightarrow> keeps_kinds (loop_store lp)"

lemma loop_stores [simp]:
  "tv_store (lp_turn lp) = loop_store lp" "tv_store (tools_env lp ts) = loop_store lp"
  by (simp_all add: loop_store_def tools_env_def)

lemma emits_in_live: "(\<And>lc. emits K (m lc)) \<Longrightarrow> emits K (in_live m ts)"
  unfolding in_live_def by (intro emits_intros)

lemma emits_in_window: "(\<And>lc. emits K (m lc)) \<Longrightarrow> emits K (in_window m ts)"
  unfolding in_window_def by (intro emits_intros emits_in_live)

lemma untraced_for: "(\<And>x. untraced (f x)) \<Longrightarrow> untraced (io_for xs f)"
  by (induction xs) (auto intro!: untraced_bind)

lemma untraced_flush: "untraced (session_flush env)"
proof -
  have "untraced (commit_if_empty env trace intent)" for trace intent
    unfolding commit_if_empty_def
    by (auto intro!: untraced_bind untraced_wal split: option.split)
  then show ?thesis
    unfolding session_flush_def by (auto intro!: untraced_bind untraced_pending untraced_for)
qed

lemma emits_dispatch:
  assumes "keeps_kinds (tv_store tv)"
  shows "emits plain (dispatch_call tv turn call i answer lc w)"
  unfolding emits_def
proof
  fix d :: durable
  obtain ws r where run: "dispatch_call tv turn call i answer lc w d = (ws, r)"
    by (cases "dispatch_call tv turn call i answer lc w d")
  let ?e = "turn_envelope (tv_store tv) (tv_identity tv) turn
    (ToolStartedEv \<lparr> tst_call_id = tc_id call, tst_name = tc_name call \<rparr>) (Some i) d"
  have "emits plain (trace_emit (tv_store tv) ?e (lc_trace lc))"
    by (rule emits_trace_emit [OF assms]) (simp add: plain_def)
  then have "kinds_in plain ws"
    using dispatch_call_cases [OF run] emitsD by fastforce
  then show "kinds_in plain (fst (dispatch_call tv turn call i answer lc w d))"
    by (simp add: run)
qed

lemma emits_outcome:
  assumes "keeps_kinds env"
  shows "emits plain (record_tool_outcome env li turn call ex duration ro parent lc)"
proof -
  have kind: "event_kind (outcome_event call ex duration ro reduced blob) \<in> plain" for reduced blob
    by (simp add: outcome_event_def plain_def Let_def split: tool_execution_state.split)
  show ?thesis
    unfolding record_tool_outcome_def keep_full_output_def
    by (intro emits_intros emits_live [OF assms] emits_payload kind) (simp_all add: plain_def)
qed

lemma emits_unexecuted:
  "keeps_kinds (tv_store tv) \<Longrightarrow> emits plain (record_unexecuted_calls tv turn a reason c calls lc w)"
proof (induction calls arbitrary: lc w)
  case (Cons call calls)
  then show ?case
    unfolding record_unexecuted_calls.simps requested_of_def Let_def
    by (intro emits_intros emits_live) (simp_all add: plain_def)
qed simp

lemma emits_call:
  assumes "keeps_kinds (tv_store tv)"
  shows "emits plain (execute_call tv turn a rejected call lc w)"
  unfolding execute_call_def requested_of_def Let_def
  by (intro emits_intros emits_live emits_outcome emits_dispatch assms) (simp_all add: plain_def)

lemma emits_calls:
  "keeps_kinds (tv_store tv) \<Longrightarrow> emits plain (execute_calls tv turn a rejected calls ok lc w)"
proof (induction calls arbitrary: ok lc w)
  case (Cons call calls)
  then show ?case
    unfolding execute_calls.simps by (intro emits_intros emits_unexecuted emits_call)
qed simp

lemma store_quiet:
  assumes quiet: "quiet_env lp"
  shows "keeps_kinds (loop_store lp)" "keeps_kinds (tv_store (tools_env lp ts))"
  using quiet by (simp_all add: quiet_env_def)

lemma emits_note:
  assumes quiet: "quiet_env lp"
  shows "emits plain (turn_note lp turn level s ts)"
  unfolding turn_note_def by (intro emits_in_live emits_intros emits_diagnose store_quiet [OF quiet])

lemma emits_say:
  assumes quiet: "quiet_env lp"
  shows "emits plain (say lp turn s ts)"
  unfolding say_def by (intro emits_in_live emits_record_message store_quiet [OF quiet]) (simp add: plain_def)

lemma emits_window_ops:
  assumes quiet: "quiet_env lp"
  shows "emits plain (evict_to lp turn n p ts)" "emits plain (compact_cycles lp turn n reason ts)"
  "emits plain (compact_older lp turn level reason ts)"
  unfolding evict_to_def compact_cycles_def compact_older_def
  by (intro emits_in_window emits_intros emits_evict emits_compactions store_quiet [OF quiet])+

lemmas emits_basic = emits_intros emits_note emits_say emits_window_ops

lemma emits_policy:
  assumes quiet: "quiet_env lp"
  shows "emits plain (follow_policy lp turn cs ts)"
proof -
  have "emits plain (reduce_window lp turn level reason n ts)" for level reason n ts
    unfolding reduce_window_def by (intro emits_basic quiet)
  moreover have "emits plain (suggest_checkpoint lp turn cs reason ts)" for reason ts
    unfolding suggest_checkpoint_def by (intro emits_basic quiet emits_in_live emits_checkpoint_prefix store_quiet [OF quiet])
  moreover have "emits plain (reduce_payload lp turn reason ts)" for reason ts
    unfolding reduce_payload_def by (intro emits_basic quiet)
  ultimately show ?thesis
    unfolding follow_policy_def Let_def
    by (auto split: context_action.split intro!: emits_bind emits_note [OF quiet])
qed

lemma emits_build:
  assumes quiet: "quiet_env lp"
  shows "emits plain (build_request lp turn ts)"
proof -
  have "emits plain (warn_adjustment lp turn cs ts)" for cs ts
    unfolding warn_adjustment_def by (intro emits_basic quiet)
  moreover have "emits plain (fit_budget lp turn ts)" for ts
    unfolding fit_budget_def by (intro emits_basic quiet)
  ultimately show ?thesis
    unfolding build_request_def by (intro emits_basic quiet emits_policy [OF quiet])
qed

lemma emits_close:
  assumes quiet: "quiet_env lp"
  shows "emits plain (close_failed lp turn failure usage n co ts)"
  unfolding close_failed_def completed_event_def
  by (intro emits_basic quiet emits_in_live emits_live emits_unexecuted store_quiet [OF quiet]) (simp add: plain_def Let_def)

lemma emits_complete: "emits plain (complete_response lp turn co usage n ts)"
  unfolding complete_response_def by (intro emits_intros)

lemma emits_recover_request:
  assumes quiet: "quiet_env lp"
  shows "emits plain (recover_request lp turn n e failure c ts)"
proof -
  have act: "emits plain a \<Longrightarrow> emits plain b \<Longrightarrow> emits plain z \<Longrightarrow>
      emits plain (case x of RetryRequest \<Rightarrow> a | Takeover \<Rightarrow> b | StopTurn \<Rightarrow> z)" for a b z x
    by (cases x) simp_all
  show ?thesis
    unfolding recover_request_def by (intro emits_basic quiet act emits_recover store_quiet [OF quiet])
qed

lemma emits_settle:
  assumes quiet: "quiet_env lp"
  shows "emits plain (settle_failure lp turn n e request co failure usage ts)"
  unfolding settle_failure_def by (intro emits_basic quiet emits_recover_request [OF quiet])

lemma emits_judge:
  assumes quiet: "quiet_env lp"
  shows "emits plain (judge_response lp turn n e request co outcome duration ts)"
  unfolding judge_response_def Let_def
  by (intro emits_basic quiet emits_close [OF quiet] emits_complete emits_settle [OF quiet])

lemma emits_recovery:
  assumes quiet: "quiet_env lp"
  shows "emits plain (recover_prior_context lp turn ts)"
  unfolding recover_prior_context_def Let_def
  by (intro emits_basic quiet emits_in_live emits_compactions store_quiet [OF quiet])

lemma emits_record:
  assumes quiet: "quiet_env lp"
  shows "em_seq (ee_meta (rp_completion response)) = None \<Longrightarrow> event_kind (ee_event (rp_completion response)) \<in> plain
    \<Longrightarrow> emits plain (record_response lp response m report ts)"
  unfolding record_response_def Let_def
  by (intro emits_basic quiet emits_trace_message emits_traced [OF traced_session_emit] store_quiet [OF quiet])

lemma emits_finish:
  assumes quiet: "quiet_env lp"
  shows "emits plain (finish lp w0 report status ts)"
proof -
  have "untraced (session_flush (loop_store lp))"
    by (rule untraced_flush)
  then show ?thesis
    unfolding finish_def
    by (intro emits_basic quiet emits_in_live emits_live store_quiet [OF quiet] emits_untraced) (simp_all add: plain_def)
qed

lemma emits_finishes:
  assumes quiet: "quiet_env lp"
  shows "emits plain (finish_with lp w0 report status ts)" "emits plain (finish_failure lp w0 report failure ts)"
  "emits plain (finish_exhausted lp turn w0 report s ts)" "emits plain (noted_failure lp turn w0 report failure s ts)"
  unfolding finish_with_def finish_failure_def finish_exhausted_def noted_failure_def
  by (intro emits_basic quiet emits_finish [OF quiet])+

lemma emits_ends: "emits K (m ts) \<Longrightarrow> emits K (ends m ts)"
  unfolding ends_def by (intro emits_intros)

lemma emits_run_calls:
  assumes quiet: "quiet_env lp"
  shows "emits plain (run_calls lp turn a rejected calls ts)" "emits plain (leave_calls lp turn a reason calls ts)"
  unfolding run_calls_def leave_calls_def
  by (intro emits_basic quiet emits_calls emits_unexecuted store_quiet [OF quiet])+

lemma emits_observe:
  assumes quiet: "quiet_env lp"
  shows "emits plain (observe_progress lp turn ok ts)"
  unfolding observe_progress_def append_progress_instruction_def by (intro emits_basic quiet)

lemma emits_handle_failure:
  assumes quiet: "quiet_env lp"
  shows "emits plain (handle_failure lp turn w0 ou tu report failure ts)"
proof -
  have cases: "emits plain a \<Longrightarrow> (\<And>f. emits plain (b f)) \<Longrightarrow> (\<And>f x y z. emits plain (c f x y z)) \<Longrightarrow>
      (\<And>f. emits plain (e f)) \<Longrightarrow> (\<And>m. emits plain (g m)) \<Longrightarrow> emits plain (case x of TurnStopped \<Rightarrow> a | ProviderOverflow f \<Rightarrow> b f
        | OutputTruncated f x y z \<Rightarrow> c f x y z | FatalFailure f \<Rightarrow> e f
        | StoreStopped m \<Rightarrow> g m)" for a b c e g x
    by (cases x) simp_all
  show ?thesis
    unfolding handle_failure_def by (intro cases emits_basic quiet emits_ends emits_finishes [OF quiet] emits_recovery [OF quiet])
qed

lemma emits_handle_response:
  assumes quiet: "quiet_env lp" and "em_seq (ee_meta (rp_completion response)) = None" "event_kind (ee_event (rp_completion response)) \<in> plain"
  shows "emits plain (handle_response lp turn w0 ou tu report response ts)"
  unfolding handle_response_def append_progress_retry_def
  by (intro emits_basic quiet emits_ends emits_finishes [OF quiet] emits_run_calls [OF quiet] emits_observe [OF quiet] emits_record [OF quiet] assms)

section \<open>Counting requests\<close>

definition requests_started :: "trace_entry list \<Rightarrow> nat" where
  "requests_started ls = length (filter (\<lambda>l. is_request_start (entry_event l)) ls)"

definition starts :: "disk_write list \<Rightarrow> nat" where
  "starts ws = requests_started (trace_lines ws)"

lemma requests_started_append: "requests_started (xs @ ys) = requests_started xs + requests_started ys"
  by (simp add: requests_started_def)

lemma starts_simps [simp]: "starts [] = 0" "starts (ws @ vs) = starts ws + starts vs"
  by (simp_all add: starts_def requests_started_append) (simp add: requests_started_def)

lemma request_start_kind: "is_request_start e \<longleftrightarrow> event_kind e = ''model_request_started''"
  by (cases e) simp_all

lemma no_starts: "kinds_in K ws \<Longrightarrow> ''model_request_started'' \<notin> K \<Longrightarrow> starts ws = 0"
  by (force simp: starts_def requests_started_def kinds_in_def kind_of_line_def request_start_kind filter_empty_conv)

lemma starts_plain: "emits plain m \<Longrightarrow> m d = (ws, r) \<Longrightarrow> starts ws = 0"
  using no_starts [of plain ws] emitsD [of plain m d ws r] by (simp add: plain_def)

text \<open>
  The meter of an operation on the state of a turn: it may start requests up to a bound, and when it
  succeeds the state has counted them.
\<close>

definition metered :: "nat \<Rightarrow> nat \<Rightarrow> ('a \<times> 'w turn_state) io \<Rightarrow> bool" where
  "metered B n m \<longleftrightarrow> (\<forall>d ws r. m d = (ws, r) \<longrightarrow>
     n + starts ws \<le> B \<and> (\<forall>a ts'. r = Inr (a, ts') \<longrightarrow> tt_requests ts' = n + starts ws))"

lemma meteredD:
  assumes "metered B n m" "m d = (ws, r)"
  shows "n + starts ws \<le> B" "r = Inr (a, ts') \<Longrightarrow> tt_requests ts' = n + starts ws"
  using assms unfolding metered_def by blast+

lemma metered_quiet:
  assumes "emits plain m" "\<And>d ws a ts'. m d = (ws, Inr (a, ts')) \<Longrightarrow> tt_requests ts' = n" "n \<le> B"
  shows "metered B n m"
  using assms(2,3) starts_plain [OF assms(1)] unfolding metered_def by fastforce

lemma metered_bind:
  assumes "metered B n m"
    and "\<And>d ws a ts'. m d = (ws, Inr (a, ts')) \<Longrightarrow> tt_requests ts' \<le> B \<Longrightarrow> metered B (tt_requests ts') (f (a, ts'))"
  shows "metered B n (io_bind m f)"
  unfolding metered_def
proof (intro allI impI)
  fix d ws r
  assume run: "io_bind m f d = (ws, r)"
  obtain ws1 r1 where m: "m d = (ws1, r1)"
    by (cases "m d")
  show "n + starts ws \<le> B \<and> (\<forall>a ts'. r = Inr (a, ts') \<longrightarrow> tt_requests ts' = n + starts ws)"
  proof (cases r1)
    case (Inl e)
    then show ?thesis
      using run m meteredD(1) [OF assms(1) m] by (auto simp: io_bind_def)
  next
    case (Inr p)
    obtain a ts1 where p: "p = (a, ts1)"
      by (cases p)
    obtain ws2 r2 where f: "f (a, ts1) (apply_writes ws1 d) = (ws2, r2)"
      by (cases "f (a, ts1) (apply_writes ws1 d)")
    have ws: "ws = ws1 @ ws2" "r = r2"
      using run m Inr p f by (simp_all add: io_bind_def)
    have n1: "tt_requests ts1 = n + starts ws1"
      using meteredD(2) [OF assms(1) m] Inr p by simp
    then have le: "tt_requests ts1 \<le> B"
      using meteredD(1) [OF assms(1) m] by simp
    from assms(2) [OF m [unfolded Inr p] le] have "metered B (tt_requests ts1) (f (a, ts1))" .
    from meteredD [OF this f] show ?thesis
      using ws n1 by auto
  qed
qed

lemma metered_before:
  assumes "\<And>d ws r. m d = (ws, r) \<Longrightarrow> starts ws = 0" "\<And>a. metered B n (f a)"
  shows "metered B n (io_bind m f)"
  unfolding metered_def
proof (intro allI impI)
  fix d ws r
  assume run: "io_bind m f d = (ws, r)"
  obtain ws1 r1 where m: "m d = (ws1, r1)"
    by (cases "m d")
  have "n \<le> B"
    using assms(2) meteredD(1) by (metis add_leD1 prod.exhaust)
  with run m assms(1) [OF m] show
    "n + starts ws \<le> B \<and> (\<forall>a ts'. r = Inr (a, ts') \<longrightarrow> tt_requests ts' = n + starts ws)"
    using meteredD [OF assms(2)] by (cases r1) (auto simp: io_bind_def split: prod.splits)
qed

lemma metered_if: "metered B n a \<Longrightarrow> metered B n b \<Longrightarrow> metered B n (if c then a else b)"
  by simp

lemma metered_fail: "n \<le> B \<Longrightarrow> metered B n (io_fail e)"
  by (simp add: metered_def)

lemma metered_return: "tt_requests ts = n \<Longrightarrow> n \<le> B \<Longrightarrow> metered B n (io_return (a, ts))"
  by (simp add: metered_def)

section \<open>One line per emission\<close>

lemma traced_lines:
  assumes "traced env e m" "m d = (ws, r)"
  shows "length (trace_lines ws) \<le> 1" "r = Inr a \<Longrightarrow> \<exists>l. trace_lines ws = [l] \<and> line_of env e l"
proof -
  let ?J = "\<lambda>t. t = du_trace d \<or> (\<exists>l. t = du_trace d @ [l])"
  have g: "guarded (on_trace ?J) m d (\<lambda>_ d'. extended env e d d')"
    by (rule tracedD [OF assms(1)]) (simp add: admits_def)
  then have "on_trace ?J (apply_writes (take (length ws) ws) d)"
    unfolding guarded_alt assms(2) fst_conv by blast
  then show "length (trace_lines ws) \<le> 1"
    by (auto simp: on_trace_def trace_of_writes)
  show "\<exists>l. trace_lines ws = [l] \<and> line_of env e l" if "r = Inr a"
    using g that unfolding guarded_alt assms(2) by (auto simp: trace_of_writes)
qed

lemma live_emit_lines:
  assumes "live_emit env li turn event lc d = (ws, r)"
  shows "length (trace_lines ws) \<le> 1"
    "r = Inr a \<Longrightarrow> \<exists>l. trace_lines ws = [l] \<and> line_of env (loop_envelope env li (length (du_trace d)) turn event) l"
proof -
  let ?e = "loop_envelope env li (length (du_trace d)) turn event"
  obtain ws1 r1 where tr: "trace_emit env ?e (lc_trace lc) d = (ws1, r1)"
    by (cases "trace_emit env ?e (lc_trace lc) d")
  have "ws = ws1 \<and> (\<forall>a. r = Inr a \<longrightarrow> (\<exists>b. r1 = Inr b))"
    using assms tr by (auto simp: live_emit_def io_bind_def io_get_def split: sum.splits prod.splits)
  with traced_lines [OF traced_trace_emit tr] show "length (trace_lines ws) \<le> 1"
    "r = Inr a \<Longrightarrow> \<exists>l. trace_lines ws = [l] \<and> line_of env ?e l"
    by auto
qed

section \<open>A stream writes deltas\<close>

definition delta_kinds :: "string set" where
  "delta_kinds = {''reasoning_delta'', ''assistant_delta''}"

lemma emits_trace_event:
  assumes "keeps_kinds env" "event_kind event \<in> K"
  shows "emits K (trace_event env li turn event co st)"
  unfolding emits_def
proof
  fix d :: durable
  let ?e = "loop_envelope env li (length (du_trace d)) (Some turn) event"
  have "emits K (trace_emit env ?e st)"
    by (rule emits_trace_emit) (simp_all add: assms)
  then show "kinds_in K (fst (trace_event env li turn event co st d))"
    unfolding trace_event_def by (auto dest: emitsD split: prod.splits sum.splits)
qed

lemma emits_collect_event:
  assumes "keeps_kinds (ce_store ce)"
  shows "emits delta_kinds (collect_event ce now event co st)"
proof -
  have "emits delta_kinds (collect_thought ce t p co st)" "emits delta_kinds (collect_text ce t co st)" for t p co st
    unfolding collect_thought_def collect_text_def
    by (intro emits_intros emits_trace_event assms; simp add: delta_kinds_def)+
  then show ?thesis
    unfolding collect_event_def Let_def
    by (auto split: option.split provider_event.split)
qed

lemma emits_collect:
  assumes "keeps_kinds (ce_store ce)"
  shows "emits delta_kinds (collect_events ce events co st)"
proof (induction events arbitrary: co st)
  case (Cons e events)
  then show ?case
    by (cases e) (auto intro!: emits_bind emits_collect_event assms)
qed simp

section \<open>No turn starts more requests than its budget\<close>

lemma collector_store:
  assumes quiet: "quiet_env lp"
  shows "keeps_kinds (ce_store (collector_env_of lp turn ts))"
  using quiet by (simp add: collector_env_of_def quiet_env_def)

lemma collect_starts:
  assumes quiet: "quiet_env lp"
  shows "collect_events (collector_env_of lp turn ts) events co st d = (ws, r) \<Longrightarrow> starts ws = 0"
  by (rule no_starts [where K = delta_kinds, OF emitsD [OF emits_collect [OF collector_store [OF quiet]]]])
    (simp_all add: delta_kinds_def)

lemma announce_metered:
  assumes quiet: "quiet_env lp" and "n + 1 \<le> B" "tt_requests ts = n + 1"
  shows "metered B n (in_live (live_emit (loop_store lp) li turn (ModelRequestStartedEv x)) ts)"
  unfolding metered_def
proof (intro allI impI)
  fix d ws r
  assume run: "in_live (live_emit (loop_store lp) li turn (ModelRequestStartedEv x)) ts d = (ws, r)"
  obtain ws1 r1 where live: "live_emit (loop_store lp) li turn (ModelRequestStartedEv x) (tt_live ts) d = (ws1, r1)"
    by (cases "live_emit (loop_store lp) li turn (ModelRequestStartedEv x) (tt_live ts) d")
  have ws: "ws = ws1" "\<And>a ts'. r = Inr (a, ts') \<Longrightarrow> tt_requests ts' = n + 1 \<and> (\<exists>b. r1 = Inr b)"
    using run live assms(3) by (auto simp: in_live_def io_bind_def split: sum.splits prod.splits)
  have "starts ws1 \<le> 1"
    using live_emit_lines(1) [OF live] length_filter_le [of _ "trace_lines ws1"]
    unfolding starts_def requests_started_def by (meson le_trans)
  moreover have "starts ws1 = 1" if b: "r1 = Inr b" for b
  proof -
    obtain l where l: "trace_lines ws1 = [l]" and line: "line_of (loop_store lp)
        (loop_envelope (loop_store lp) li (length (du_trace d)) turn (ModelRequestStartedEv x)) l"
      using live_emit_lines(2) [OF live b] by blast
    have "is_request_start (entry_event l)"
      using line_kind [OF _ line] quiet by (simp add: request_start_kind kind_of_line_def quiet_env_def)
    with l show ?thesis
      by (simp add: starts_def requests_started_def)
  qed
  ultimately show "n + starts ws \<le> B \<and> (\<forall>a ts'. r = Inr (a, ts') \<longrightarrow> tt_requests ts' = n + starts ws)"
    using ws assms(2) by fastforce
qed

lemma lift_starts: "io_lift f r d = (ws, x) \<Longrightarrow> starts ws = 0"
  by (cases r) auto

lemma metered_lift:
  assumes "\<And>a. metered B n (f a)"
  shows "metered B n (io_bind (io_lift g r) f)"
  by (rule metered_before) (auto dest: lift_starts intro: assms)

lemma metered_collect:
  assumes quiet: "quiet_env lp" and "\<And>a. metered B n (f a)"
  shows "metered B n (io_bind (collect_events (collector_env_of lp turn ts) events co st) f)"
  by (rule metered_before) (auto dest: collect_starts [OF quiet] intro: assms)

lemma receive_metered:
  assumes quiet: "quiet_env lp" and "tt_requests ts \<le> B"
  shows "metered B (tt_requests ts) (receive_response lp turn request ts)"
  using assms unfolding receive_response_def Let_def
  by (auto split: prod.split option.split
      intro!: metered_collect [OF quiet] metered_fail metered_return)

lemma stream_metered:
  assumes quiet: "quiet_env lp" and "tt_requests ts + 1 \<le> B"
  shows "metered B (tt_requests ts) (stream_request lp turn request ts)"
  unfolding stream_request_def Let_def
proof (rule metered_if)
  show "metered B (tt_requests ts) (io_fail CountTooLarge)"
    using assms by (simp add: metered_fail)
qed (use assms in \<open>auto intro!: metered_lift metered_bind announce_metered [OF quiet] receive_metered [OF quiet]\<close>)

lemma plain_metered: "emits plain m \<Longrightarrow> (\<And>d ws a ts'. m d = (ws, Inr (a, ts')) \<Longrightarrow> tt_requests ts' = n) \<Longrightarrow> n \<le> B \<Longrightarrow> metered B n m"
  by (rule metered_quiet)

lemma attempt_once_metered:
  assumes quiet: "quiet_env lp" and "tt_requests ts + 1 \<le> B"
  shows "metered B (tt_requests ts) (attempt_once lp turn attempts epoch ts)"
proof -
  have build: "metered B (tt_requests ts) (build_request lp turn ts)"
    by (rule metered_quiet [OF emits_build [OF quiet]]) (use assms build_request_count in auto)
  have judge: "metered B (tt_requests ts1) (judge_response lp turn a e request co outcome duration ts1)"
    if "tt_requests ts1 \<le> B" for ts1 a e request co outcome duration
    by (rule metered_quiet [OF emits_judge [OF quiet]])
      (use that judge_response_count in blast)+
  show ?thesis
    unfolding attempt_once_def Let_def
    by (rule metered_lift, rule metered_bind [OF build])
      (use assms in \<open>auto dest!: build_request_count split: sum.split
        intro!: metered_return metered_bind [OF stream_metered [OF quiet]] judge\<close>)
qed

lemma attempt_spends:
  assumes "quiet_env lp" "tt_requests ts + 1 \<le> B" "lp_max_requests lp \<le> B" "attempt lp turn a e ts d = (ws, r)"
  shows "tt_requests ts + starts ws \<le> B
    \<and> (\<forall>x ts'. r = Inr (x, ts') \<longrightarrow> tt_requests ts' = tt_requests ts + starts ws)"
  using assms
proof (induction lp turn a e ts d arbitrary: ws r rule: attempt.induct)
  case (1 lp turn attempts epoch ts d)
  obtain ws1 r1 where one: "attempt_once lp turn attempts epoch ts d = (ws1, r1)"
    by (cases "attempt_once lp turn attempts epoch ts d")
  note metered = meteredD [OF attempt_once_metered [OF "1.prems"(1,2)] one]
  show ?case
  proof (cases r1)
    case (Inl err)
    then show ?thesis
      using "1.prems"(4) one metered(1) by (auto simp: attempt.simps)
  next
    case (Inr p)
    obtain s ts1 where p: "p = (s, ts1)"
      by (cases p)
    have count: "tt_requests ts1 = tt_requests ts + starts ws1"
      using metered(2) Inr p by simp
    show ?thesis
    proof (cases s)
      case (Reissue a e)
      obtain vs r2 where rest: "attempt lp turn a e ts1 (apply_writes ws1 d) = (vs, r2)"
        by (cases "attempt lp turn a e ts1 (apply_writes ws1 d)")
      have ws: "ws = ws1 @ vs" "r = r2"
        using "1.prems"(4) one Inr p Reissue rest by (simp_all add: attempt.simps [of lp turn attempts])
      have "tt_requests ts1 + 1 \<le> B"
        using attempt_once_count [OF one [unfolded Inr p], of a e] Reissue "1.prems"(3) by simp
      from "1.IH" [OF one [symmetric] Inr p [symmetric] Reissue "1.prems"(1) this "1.prems"(3) rest]
      show ?thesis
        using ws count by auto
    next
      case (Ended res)
      then show ?thesis
        using "1.prems"(4) one Inr p metered(1) count by (auto simp: attempt.simps)
    qed
  qed
qed

lemma attempt_metered:
  "quiet_env lp \<Longrightarrow> tt_requests ts + 1 \<le> B \<Longrightarrow> lp_max_requests lp \<le> B \<Longrightarrow>
    metered B (tt_requests ts) (attempt lp turn a e ts)"
  unfolding metered_def using attempt_spends by blast

section \<open>Complete responses\<close>

text \<open>The completion a response is kept with is a fresh envelope of its kind.\<close>

definition completion_ok :: "model_response \<Rightarrow> bool" where
  "completion_ok response \<longleftrightarrow>
     em_seq (ee_meta (rp_completion response)) = None \<and> event_kind (ee_event (rp_completion response)) \<in> plain"

lemma complete_response_ok:
  "complete_response lp turn co usage n ts d = (ws, Inr (response, ts')) \<Longrightarrow> completion_ok response"
  unfolding complete_response_def Let_def
  by (auto simp: io_return_def completion_ok_def completed_event_def plain_def elim!: io_bind_ok)

lemma recover_request_ends:
  "recover_request lp turn n e failure c ts d = (ws, Inr (s, ts')) \<Longrightarrow> s \<noteq> Ended (Inr response)"
  unfolding recover_request_def Let_def
  by (auto simp: io_return_def split: action.splits prod.splits if_splits elim!: io_bind_ok)

lemma settle_failure_ends:
  "settle_failure lp turn n e request co failure usage ts d = (ws, Inr (s, ts')) \<Longrightarrow> s \<noteq> Ended (Inr response)"
  unfolding settle_failure_def Let_def
  by (auto simp: io_return_def split: if_splits option.splits dest: recover_request_ends [where response = response])

lemma judge_response_ok:
  "judge_response lp turn n e request co outcome duration ts d = (ws, Inr (Ended (Inr response), ts')) \<Longrightarrow>
    completion_ok response"
  unfolding judge_response_def Let_def
  by (auto simp: io_return_def split: sum.splits option.splits elim!: io_bind_ok
      dest: complete_response_ok settle_failure_ends [where response = response])

lemma attempt_once_ok:
  "attempt_once lp turn n e ts d = (ws, Inr (Ended (Inr response), ts')) \<Longrightarrow> completion_ok response"
  unfolding attempt_once_def Let_def
  by (auto simp: io_return_def split: sum.splits elim!: io_bind_ok dest: judge_response_ok)

text \<open>How an attempt ends is how one of its requests ended.\<close>

lemma attempt_outcome:
  "attempt lp turn n e ts d = (ws, Inr (r, ts')) \<Longrightarrow>
    \<exists>n1 e1 ts1 d1 ws1. attempt_once lp turn n1 e1 ts1 d1 = (ws1, Inr (Ended r, ts'))"
proof (induction lp turn n e ts d arbitrary: ws rule: attempt.induct)
  case (1 lp turn attempts epoch ts d)
  obtain ws1 s ts1 where one: "attempt_once lp turn attempts epoch ts d = (ws1, Inr (s, ts1))"
    using "1.prems" by (subst (asm) attempt.simps) (auto split: prod.splits sum.splits)
  show ?case
  proof (cases s)
    case (Reissue a e)
    then obtain vs where "attempt lp turn a e ts1 (apply_writes ws1 d) = (vs, Inr (r, ts'))"
      using "1.prems" one by (subst (asm) attempt.simps) (auto split: prod.splits)
    from "1.IH" [OF one [symmetric] refl refl Reissue this] show ?thesis .
  next
    case (Ended r1)
    then have "r1 = r" "ts1 = ts'"
      using "1.prems" one by (simp_all add: attempt.simps)
    with one Ended show ?thesis
      by blast
  qed
qed

lemma attempt_ok: "attempt lp turn n e ts d = (ws, Inr (Inr response, ts')) \<Longrightarrow> completion_ok response"
  by (blast dest: attempt_outcome attempt_once_ok)

section \<open>Rounds and turns\<close>

lemma count_step_facts: "finish lp w0 report status ts d = (ws, Inr (x, ts')) \<Longrightarrow> tt_requests ts' = tt_requests ts"
  unfolding finish_def Let_def by (auto simp: io_return_def elim!: io_bind_ok dest!: count_steps)

lemma finish_counts: "finish_with lp w0 report status ts d = (ws, Inr (x, ts')) \<Longrightarrow> tt_requests ts' = tt_requests ts"
  "finish_failure lp w0 report failure ts d = (ws, Inr (x, ts')) \<Longrightarrow> tt_requests ts' = tt_requests ts"
  "finish_exhausted lp turn w0 report s ts d = (ws, Inr (x, ts')) \<Longrightarrow> tt_requests ts' = tt_requests ts"
  "noted_failure lp turn w0 report failure s ts d = (ws, Inr (x, ts')) \<Longrightarrow> tt_requests ts' = tt_requests ts"
  unfolding finish_with_def finish_failure_def finish_exhausted_def noted_failure_def
  by (auto simp: io_return_def elim!: io_bind_ok dest!: count_step_facts count_steps)

lemma finish_metered:
  assumes quiet: "quiet_env lp" and "tt_requests ts \<le> B"
  shows "metered B (tt_requests ts) (finish_with lp w0 report status ts)"
    "metered B (tt_requests ts) (finish_failure lp w0 report failure ts)"
    "metered B (tt_requests ts) (finish_exhausted lp turn w0 report s ts)"
    "metered B (tt_requests ts) (noted_failure lp turn w0 report failure s ts)"
  by (rule metered_quiet, rule emits_finishes [OF quiet], erule finish_counts, rule assms)+

lemma ends_metered: "metered B n (m ts) \<Longrightarrow> metered B n (ends m ts)"
  unfolding ends_def by (auto intro!: metered_bind metered_return)

lemma note_metered:
  assumes quiet: "quiet_env lp"
  shows "tt_requests ts \<le> B \<Longrightarrow> metered B (tt_requests ts) (turn_note lp turn level s ts)"
  by (rule metered_quiet, rule emits_note [OF quiet], erule turn_note_count)

lemma say_metered:
  assumes quiet: "quiet_env lp"
  shows "tt_requests ts \<le> B \<Longrightarrow> metered B (tt_requests ts) (say lp turn s ts)"
  by (rule metered_quiet, rule emits_say [OF quiet], erule say_count)

lemma recovery_metered:
  assumes quiet: "quiet_env lp"
  shows "tt_requests ts \<le> B \<Longrightarrow> metered B (tt_requests ts) (recover_prior_context lp turn ts)"
  by (rule metered_quiet, rule emits_recovery [OF quiet], erule recover_prior_context_count)

lemma calls_metered:
  assumes quiet: "quiet_env lp" and "tt_requests ts \<le> B"
  shows "metered B (tt_requests ts) (run_calls lp turn a rejected calls ts)"
    "metered B (tt_requests ts) (leave_calls lp turn a reason calls ts)"
  by (rule metered_quiet, rule emits_run_calls [OF quiet], erule run_calls_count, rule assms)
    (rule metered_quiet, rule emits_run_calls [OF quiet], erule leave_calls_count, rule assms)

lemma observe_metered:
  assumes quiet: "quiet_env lp"
  shows "tt_requests ts \<le> B \<Longrightarrow> metered B (tt_requests ts) (observe_progress lp turn ok ts)"
  by (rule metered_quiet, rule emits_observe [OF quiet], erule observe_progress_count)

lemma record_metered:
  assumes quiet: "quiet_env lp"
  shows "completion_ok response \<Longrightarrow> tt_requests ts \<le> B \<Longrightarrow> metered B (tt_requests ts) (record_response lp response m report ts)"
  by (rule metered_quiet, rule emits_record [OF quiet]) (auto simp: completion_ok_def dest: record_response_count)

lemmas metered_rules = finish_metered ends_metered note_metered say_metered recovery_metered calls_metered
  observe_metered record_metered metered_return metered_fail metered_lift

lemma handle_failure_metered:
  assumes quiet: "quiet_env lp" and "tt_requests ts \<le> B"
  shows "metered B (tt_requests ts) (handle_failure lp turn w0 ou tu report failure ts)"
  using assms unfolding handle_failure_def
  by (cases failure) (auto intro!: metered_rules quiet metered_bind)

lemma handle_response_metered:
  assumes quiet: "quiet_env lp" and "completion_ok response" "tt_requests ts \<le> B"
  shows "metered B (tt_requests ts) (handle_response lp turn w0 ou tu report response ts)"
  using assms unfolding handle_response_def append_progress_retry_def Let_def
  by (auto split: option.split intro!: metered_bind [OF record_metered [OF quiet]] metered_rules quiet metered_bind
      dest: record_response_count)

lemma refresh_count [simp]: "tt_requests (refresh_approval lp ts) = tt_requests ts"
  by (simp add: refresh_approval_def)

lemma start_attempt_metered:
  assumes quiet: "quiet_env lp" and "tt_requests ts + 1 \<le> B" "lp_max_requests lp \<le> B"
  shows "metered B (tt_requests ts) (start_attempt lp turn ts)"
  unfolding start_attempt_def by (rule attempt_metered [OF assms])

lemma turn_round_metered:
  assumes quiet: "quiet_env lp" and "tt_requests ts + 1 \<le> B" "lp_max_requests lp \<le> B"
  shows "metered B (tt_requests ts) (turn_round lp turn w0 ou tu report ts)"
proof (cases "loop_cancelled lp ts")
  case True
  then show ?thesis
    unfolding turn_round_def using assms by (auto intro!: metered_rules quiet)
next
  case False
  have "metered B (tt_requests (refresh_approval lp ts)) (start_attempt lp turn (refresh_approval lp ts))"
    by (rule start_attempt_metered [OF quiet]) (use assms in simp_all)
  then have start: "metered B (tt_requests ts) (start_attempt lp turn (refresh_approval lp ts))"
    by simp
  show ?thesis
    unfolding turn_round_def if_not_P [OF False]
  proof (rule metered_bind [OF start])
    fix d ws result ts'
    assume run: "start_attempt lp turn (refresh_approval lp ts) d = (ws, Inr (result, ts'))" and le: "tt_requests ts' \<le> B"
    show "metered B (tt_requests ts') (case (result, ts') of (result, ts) \<Rightarrow>
        (case result of
           Inl failure \<Rightarrow> handle_failure lp turn w0 ou tu report failure ts
         | Inr response \<Rightarrow> handle_response lp turn w0 ou tu report response ts))"
    proof (cases result)
      case (Inr response)
      then have "completion_ok response"
        using run attempt_ok by (simp add: start_attempt_def)
      with Inr show ?thesis
        by (simp add: handle_response_metered [OF quiet _ le])
    qed (simp add: handle_failure_metered [OF quiet le])
  qed
qed

lemma rounds_spends:
  assumes "quiet_env lp" "tt_requests ts \<le> lp_max_requests lp" "rounds lp turn w0 ou tu report ts d = (ws, r)"
  shows "tt_requests ts + starts ws \<le> lp_max_requests lp
    \<and> (\<forall>x ts'. r = Inr (x, ts') \<longrightarrow> tt_requests ts' = tt_requests ts + starts ws)"
  using assms
proof (induction lp turn w0 ou tu report ts d arbitrary: ws r rule: rounds.induct)
  case (1 lp turn w0 ou tu report ts d)
  show ?case
  proof (cases "tt_requests ts < request_limit lp tu")
    case False
    then show ?thesis
      using "1.prems"(2,3) by (auto simp: rounds.simps)
  next
    case True
    then have room: "tt_requests ts + 1 \<le> lp_max_requests lp"
      using request_limit_le [of lp tu] by simp
    obtain ws1 r1 where one: "turn_round lp turn w0 ou tu report ts d = (ws1, r1)"
      by (cases "turn_round lp turn w0 ou tu report ts d")
    note metered = meteredD [OF turn_round_metered [OF "1.prems"(1) room order_refl] one]
    show ?thesis
    proof (cases r1)
      case (Inl err)
      then show ?thesis
        using "1.prems"(3) one metered(1) True by (auto simp: rounds.simps)
    next
      case (Inr p)
      obtain s ts1 where p: "p = (s, ts1)"
        by (cases p)
      have count: "tt_requests ts1 = tt_requests ts + starts ws1"
        using metered(2) Inr p by simp
      show ?thesis
      proof (cases s)
        case (NextRound ou' tu' report')
        obtain vs r2 where rest: "rounds lp turn w0 ou' tu' report' ts1 (apply_writes ws1 d) = (vs, r2)"
          by (cases "rounds lp turn w0 ou' tu' report' ts1 (apply_writes ws1 d)")
        have ws: "ws = ws1 @ vs" "r = r2"
          using "1.prems"(3) one Inr p NextRound rest True by (simp_all add: rounds.simps [of lp turn w0 ou])
        have "tt_requests ts1 \<le> lp_max_requests lp"
          using metered(1) count by simp
        from "1.IH" [OF True one [symmetric] Inr p [symmetric] NextRound "1.prems"(1) this rest]
        show ?thesis
          using ws count by auto
      next
        case (TurnEnds res)
        then show ?thesis
          using "1.prems"(3) one Inr p metered(1) count True by (auto simp: rounds.simps)
      qed
    qed
  qed
qed

lemma rounds_metered:
  assumes quiet: "quiet_env lp"
  shows "tt_requests ts \<le> lp_max_requests lp \<Longrightarrow> metered (lp_max_requests lp) (tt_requests ts) (rounds lp turn w0 ou tu report ts)"
  unfolding metered_def using rounds_spends [OF quiet] by blast

lemma finalize_metered:
  assumes quiet: "quiet_env lp" and "tt_requests ts < lp_max_requests lp"
  shows "metered (lp_max_requests lp) (tt_requests ts) (finalize_turn lp turn w0 report ts)"
proof (cases "loop_cancelled lp ts")
  case True
  then show ?thesis
    unfolding finalize_turn_def using assms by (auto intro!: finish_metered [OF quiet])
next
  case False
  define tail where "tail = (\<lambda>enabled. \<lambda>(result, ts).
           let ts = ts\<lparr>tt_tools_enabled := enabled\<rparr>
           in case result of
                Inl TurnStopped \<Rightarrow> finish_with lp w0 (report\<lparr>rep_requests := tt_requests ts\<rparr>) TurnCancelled ts
              | Inl (ProviderOverflow f) \<Rightarrow> finish_failure lp w0 report f ts
              | Inl (FatalFailure f) \<Rightarrow> finish_failure lp w0 report f ts
              | Inl (StoreStopped m) \<Rightarrow> io_return (Inl (SinkText m), ts)
              | Inl (OutputTruncated f _ _ _) \<Rightarrow> finish_failure lp w0 report f ts
              | Inr response \<Rightarrow>
                  io_bind (record_response lp response True report ts) (\<lambda>((assistant, report), ts).
                    let calls = rp_calls response
                    in if calls = []
                       then finish_exhausted lp turn w0 report
                         (''request budget exhausted; finalization answer is incomplete and the session can be ''
                          @ ''resumed'') ts
                       else io_bind (io_lift id (count_calls report calls)) (\<lambda>report.
                            io_bind (leave_calls lp turn assistant
                              ''request-budget finalization does not execute tools'' calls ts) (\<lambda>(_, ts).
                              finish_exhausted lp turn w0 report
                                (''request budget exhausted; finalization requested tools and none were executed, ''
                                 @ ''so the session can be resumed'') ts))))"
  have tail: "metered (lp_max_requests lp) (tt_requests ts1) (tail enabled (result, ts1))"
    if "tt_requests ts1 \<le> lp_max_requests lp" "\<And>response. result = Inr response \<Longrightarrow> completion_ok response" for ts1 enabled result
  proof -
    define ts2 where "ts2 = ts1\<lparr>tt_tools_enabled := enabled\<rparr>"
    have ts2: "tt_requests ts1 = tt_requests ts2" "tt_requests ts2 \<le> lp_max_requests lp"
      using that(1) by (simp_all add: ts2_def)
    show ?thesis
    proof (cases result)
      case (Inl f)
      then show ?thesis
        unfolding tail_def Let_def ts2(1) using ts2(2)
        by (cases f) (auto simp: ts2_def [symmetric] intro!: finish_metered [OF quiet] metered_return)
    next
      case (Inr response)
      have ok: "completion_ok response"
        by (rule that(2) [OF Inr])
      show ?thesis
        unfolding Inr tail_def Let_def ts2(1) using ts2(2) ok
        by (auto simp: ts2_def [symmetric]
          intro!: metered_bind [OF record_metered [OF quiet ok]] metered_rules quiet metered_bind)
    qed
  qed
  have "finalize_turn lp turn w0 report ts = io_bind (append_finalization lp turn ts) (\<lambda>(_, ts).
      io_bind (start_attempt lp turn (ts\<lparr>tt_tools_enabled := False\<rparr>)) (tail (tt_tools_enabled ts)))"
    using False by (simp add: finalize_turn_def tail_def)
  moreover have "metered (lp_max_requests lp) (tt_requests ts) (io_bind (append_finalization lp turn ts) (\<lambda>(_, ts).
      io_bind (start_attempt lp turn (ts\<lparr>tt_tools_enabled := False\<rparr>)) (tail (tt_tools_enabled ts))))"
  proof (rule metered_bind, unfold append_finalization_def)
    show "metered (lp_max_requests lp) (tt_requests ts) (say lp turn s ts)" for s
      by (rule say_metered [OF quiet]) (use assms in simp)
  next
    fix d ws a ts1 s
    assume "say lp turn s ts d = (ws, Inr (a, ts1))"
    then have n: "tt_requests ts1 = tt_requests ts"
      by (rule say_count)
    let ?ts = "ts1\<lparr>tt_tools_enabled := False\<rparr>"
    have start: "metered (lp_max_requests lp) (tt_requests ?ts) (start_attempt lp turn ?ts)"
      by (rule start_attempt_metered [OF quiet]) (use assms n in simp_all)
    have "metered (lp_max_requests lp) (tt_requests ?ts) (io_bind (start_attempt lp turn ?ts) (tail (tt_tools_enabled ts1)))"
      by (rule metered_bind [OF start], rule tail) (auto simp: start_attempt_def dest: attempt_ok)
    then show "metered (lp_max_requests lp) (tt_requests ts1) (case (a, ts1) of (_, ts) \<Rightarrow>
        io_bind (start_attempt lp turn (ts\<lparr>tt_tools_enabled := False\<rparr>)) (tail (tt_tools_enabled ts)))"
      by simp
  qed
  ultimately show ?thesis
    by simp
qed

lemma drive_metered:
  assumes quiet: "quiet_env lp" and "tt_requests ts \<le> lp_max_requests lp"
  shows "metered (lp_max_requests lp) (tt_requests ts) (drive_turn lp turn w0 report ts)"
proof -
  have rest: "metered (lp_max_requests lp) (tt_requests ts1) (out_of_requests lp turn w0 report1 ts1)"
    if "tt_requests ts1 \<le> lp_max_requests lp" for ts1 report1
    unfolding out_of_requests_def using that finalize_metered [OF quiet] finish_metered(3) [OF quiet that] by auto
  show ?thesis
    unfolding drive_turn_def
    by (rule metered_bind [OF rounds_metered [OF assms]]) (auto split: option.split intro: rest metered_return)
qed

lemma emits_reconcile:
  assumes quiet: "quiet_env lp"
  shows "emits plain (reconcile_interrupted lp ts)"
proof -
  have kind: "event_kind (settled_event request committed details) \<in> plain" for request committed details
    by (simp add: settled_event_def plain_def)
  have settle: "emits plain (settle_call lp turn call c details ts)" for turn call c details ts
    unfolding settle_call_def
    by (intro emits_intros emits_in_live emits_live kind) (use quiet in \<open>simp add: quiet_env_def\<close>)
  have "emits plain (reconcile_calls lp calls ts)" for calls ts
    by (induction calls arbitrary: ts)
      (auto simp: Let_def blocked_def split: option.split sum.split reconciliation_status.split
        intro!: emits_bind settle)
  then show ?thesis
    unfolding reconcile_interrupted_def by simp
qed

lemma reconcile_count: "reconcile_interrupted lp ts d = (ws, Inr (a, ts')) \<Longrightarrow> tt_requests ts' = tt_requests ts"
proof -
  have settle: "settle_call lp turn call c details ts d = (ws, Inr (x, ts')) \<Longrightarrow> tt_requests ts' = tt_requests ts"
    for turn call c details ts d ws x ts'
    unfolding settle_call_def Let_def by (rule in_live_count)
  have "reconcile_calls lp calls ts d = (ws, Inr (a, ts')) \<Longrightarrow> tt_requests ts' = tt_requests ts" for calls ts d ws
    by (induction calls arbitrary: ts d ws)
      (fastforce simp: Let_def blocked_def io_return_def split: option.splits sum.splits reconciliation_status.splits
        elim!: io_bind_ok dest: settle)+
  then show "reconcile_interrupted lp ts d = (ws, Inr (a, ts')) \<Longrightarrow> tt_requests ts' = tt_requests ts"
    by (auto simp: reconcile_interrupted_def split: if_splits)
qed

lemma open_turn_metered:
  assumes quiet: "quiet_env lp" and "tt_requests ts \<le> lp_max_requests lp"
  shows "metered (lp_max_requests lp) (tt_requests ts) (open_turn lp ts)"
proof -
  have env: "keeps_kinds (loop_store lp)"
    using quiet by (simp add: quiet_env_def)
  have "emits plain (open_turn lp ts)"
    unfolding open_turn_def
    by (intro emits_intros emits_started [OF env] emits_reconcile [OF quiet] emits_note [OF quiet])
  then show ?thesis
  proof (rule metered_quiet [OF _ _ assms(2)])
    fix d ws a ts'
    assume "open_turn lp ts d = (ws, Inr (a, ts'))"
    then show "tt_requests ts' = tt_requests ts"
      unfolding open_turn_def Let_def
      by (auto simp: io_return_def split: if_splits elim!: io_bind_ok dest!: reconcile_count count_steps)
  qed
qed

lemma external_metered:
  assumes quiet: "quiet_env lp" and "tt_requests ts \<le> lp_max_requests lp"
  shows "metered (lp_max_requests lp) (tt_requests ts) (add_external lp turn items ts)"
  using assms
proof (induction items arbitrary: ts)
  case (Cons item items)
  have env: "keeps_kinds (loop_store lp)"
    using quiet by (simp add: quiet_env_def)
  have "emits plain (in_live (record_message (loop_store lp) (state_identity ts) turn (ExternalContextEv x) m) ts)" for x m
    by (intro emits_in_live emits_record_message [OF env]) (simp add: plain_def)
  then have "metered (lp_max_requests lp) (tt_requests ts)
      (in_live (record_message (loop_store lp) (state_identity ts) turn (ExternalContextEv x) m) ts)" for x m
    by (rule metered_quiet) (auto dest: in_live_count intro: Cons.prems)
  then show ?case
    unfolding add_external.simps by (rule metered_bind) (auto intro: Cons.IH quiet)
qed (simp add: metered_return)

lemma run_turn_metered:
  assumes quiet: "quiet_env lp"
  shows "metered (lp_max_requests lp) 0 (run_turn lp turn input external ts)"
proof -
  have zero: "tt_requests (begin_turn lp ts) = 0"
    by (simp add: begin_turn_def)
  have "metered (lp_max_requests lp) (tt_requests (begin_turn lp ts)) (run_turn lp turn input external ts)"
    unfolding run_turn_def Let_def
    by (rule metered_bind [OF open_turn_metered [OF quiet]])
      (auto simp: zero split: option.split
        intro!: metered_return metered_bind [OF external_metered [OF quiet]] metered_bind [OF say_metered [OF quiet]]
          drive_metered [OF quiet, of "ts'\<lparr>tt_world := w\<rparr>" for ts' w, simplified])
  then show ?thesis
    by (simp add: zero)
qed

end
