(* ===== verification/Turn_Ends.thy ===== *)
theory Turn_Ends
  imports Turn_Bounds Model_Reign
begin

text \<open>
  What a turn may cost and what it may repeat: whatever happens it asks for no more than its budget,
  and an attempt is repeated only while nothing was shown.
\<close>

section \<open>A loop\<close>

definition sample_registry :: "nat registry" where
  "sample_registry = \<lparr> reg_max_output_bytes = 1000, reg_tools = [], reg_allow = [], reg_deny = [],
     reg_default_gate = GateDeny, reg_configuration_error = None \<rparr>"

text \<open>The model of this loop times out once and answers then; the world is the number of its failures.\<close>

definition sample_loop :: "nat loop_env" where
  "sample_loop =
     \<lparr> lp_turn = \<lparr> tv_store = roomy_env, tv_identity = sample_identity, tv_tools = (\<lambda>_. sample_registry),
         tv_surface = \<lparr> sf_requested = (\<lambda>_ w. w), sf_finished = (\<lambda>_ _ w. w), sf_approve = (\<lambda>_ _ w. (Allow, w)) \<rparr>,
         tv_cancelled = (\<lambda>_. False), tv_expired = (\<lambda>_. False), tv_can_ask = False, tv_progress_names = [],
         tv_overflow_checks = True, tv_elapsed = (\<lambda>_ _. 0) \<rparr>,
       lp_system = None, lp_thinking = ThinkMedium, lp_max_requests = 3, lp_progress_limit = None,
       lp_interactive_approval = False, lp_approval_available = (\<lambda>_. False), lp_irreversible = False,
       lp_policy_warning = (\<lambda>_. None), lp_policy_evaluate = (\<lambda>_. \<lparr> cd_action = Keep, cd_tokens = 0, cd_level = None \<rparr>),
       lp_strategy = EvictOldest, lp_has_summarizer = False, lp_summarize = (\<lambda>_. ''summary''), lp_checkpoint_auto = False,
       lp_capsule = (\<lambda>_ _. new_capsule), lp_json = (\<lambda>_. []), lp_number = (\<lambda>_. []),
       lp_stream = (\<lambda>_ _ w. if w = 0 then ([], Inl (new_failure Timeout PreRequest ''slow''), 1)
                             else ([(0, TextDelta ''ok'')], Inr unknown_usage, w)),
       lp_reset = (\<lambda>_ w. w), lp_sleep = (\<lambda>_ w. w), lp_on_request = (\<lambda>_ _ _ w. w), lp_on_user = (\<lambda>_ w. w),
       lp_on_shown = (\<lambda>_ w. w) \<rparr>"

definition sample_state :: "nat turn_state" where
  "sample_state =
     \<lparr> tt_seat = sample_seat, tt_live = new_live, tt_world = 0, tt_requests = 0, tt_start = 0,
       tt_silent_requests = 0, tt_boundary = False, tt_boundary_used = False, tt_tools_enabled = True,
       tt_can_approve = False, tt_adjusted = [], tt_last_shed = None, tt_interrupted = [], tt_blocked = False \<rparr>"

lemma sample_store: "loop_store sample_loop = roomy_env"
  by (simp add: loop_store_def sample_loop_def)

lemma roomy_lines: "sv_line roomy_env = Some"
  by (simp add: roomy_env_def sample_env_def)

lemma roomy_keeps: "keeps_kinds roomy_env" "keeps_deltas roomy_env"
  by (simp_all add: keeps_kinds_def keeps_deltas_def roomy_lines)

section \<open>The budget\<close>

lemma requests_started_take: "requests_started (trace_lines (take k ws)) \<le> starts ws"
proof -
  have "starts ws = starts (take k ws) + starts (drop k ws)"
    by (metis append_take_drop_id starts_simps(2))
  then show ?thesis
    by (simp add: starts_def)
qed

text \<open>C1:
  however a turn goes - whatever the model answers, the tools do, fails, is retried, taken over or
  recovered from, and wherever the process stops - the trace shows no more model requests than the
  budget of the turn allows.\<close>

theorem turn_is_bounded:
  assumes "keeps_kinds (loop_store lp)"
  shows "requests_started (du_trace (apply_writes (take k (fst (run_turn lp turn input external ts d))) d))
    \<le> requests_started (du_trace d) + lp_max_requests lp"
proof -
  obtain ws r where run: "run_turn lp turn input external ts d = (ws, r)"
    by (cases "run_turn lp turn input external ts d")
  have "metered (lp_max_requests lp) 0 (run_turn lp turn input external ts)"
    by (rule run_turn_metered) (simp add: quiet_env_def assms)
  then have "starts ws \<le> lp_max_requests lp"
    using run by (auto simp: metered_def)
  then show ?thesis
    using requests_started_take [of k ws] by (simp add: run trace_of_writes requests_started_append)
qed

theorem turn_is_bounded_witness:
  "requests_started (du_trace (apply_writes (take 40
       (fst (run_turn sample_loop ''turn'' ''hi'' [] sample_state empty_session))) empty_session)) \<le> 3"
proof -
  have "keeps_kinds (loop_store sample_loop)"
    by (simp only: sample_store roomy_keeps)
  from turn_is_bounded [OF this, of 40 "''turn''" "''hi''" "[]" sample_state empty_session] show ?thesis
    by (simp add: sample_loop_def empty_session_def requests_started_def)
qed

section \<open>No repetition after output\<close>

definition shows_output :: "trace_entry \<Rightarrow> bool" where
  "shows_output l \<longleftrightarrow> kind_of_line l \<in> delta_kinds"

lemma deltas_empty: "deltas ls = [] \<longleftrightarrow> (\<forall>l \<in> set ls. \<not> shows_output l)"
proof -
  have "delta_of e = None \<longleftrightarrow> event_kind e \<notin> delta_kinds" for e
    by (cases e) (simp_all add: delta_kinds_def)
  then show ?thesis
    by (induction ls) (auto simp: deltas_def shows_output_def kind_of_line_def List.map_filter_def)
qed

text \<open>The failure of a response that showed something says so.\<close>

lemma recover_request_uncommitted:
  assumes "recover_request lp turn n e failure c ts d = (ws, Inr (Reissue a b, ts'))"
  shows "\<not> mf_partial_output_emitted failure"
proof -
  have "(\<exists>m k. decide p failure = Retry m k) \<or> (\<exists>t gs. decide p failure = Failover t gs)"
    if "recover env ms turn failure c start lc d1 = (ws1, Inr (act, start', ms', lc'))" "act \<noteq> StopTurn" "p = ms_policy ms"
    for env ms start lc d1 ws1 act start' ms' lc' p
    using that unfolding recover_def Let_def
    by (auto split: if_splits recovery.splits option.splits elim!: io_bind_ok)
  then show ?thesis
    using assms fop.reissue_uncommitted unfolding recover_request_def Let_def
    by (auto split: action.splits prod.splits if_splits elim!: io_bind_ok) (metis action.distinct)+
qed

lemma judge_response_uncommitted:
  assumes "judge_response lp turn n e request co outcome duration ts d = (ws, Inr (Reissue a b, ts'))"
  shows "\<not> co_committed co"
proof -
  have settle: "\<not> mf_partial_output_emitted failure"
    if s: "settle_failure lp turn n e request co failure usage ts1 d1 = (ws1, Inr (Reissue a b, ts2))" for failure usage ts1 d1 ws1 ts2
    using s unfolding settle_failure_def Let_def
    by (auto dest: recover_request_uncommitted split: if_splits option.splits)
  have partial: "completion_failure usage p committed = Some f \<Longrightarrow> mf_partial_output_emitted f = committed" for usage p committed f
    by (auto simp: completion_failure_def with_partial_output_def new_failure_def Let_def split: if_splits)
  show ?thesis
    using assms unfolding judge_response_def Let_def
    by (auto split: sum.splits option.splits elim!: io_bind_ok dest!: settle partial
        simp: with_partial_output_def Let_def split: if_splits)
qed

text \<open>The order of an attempt: its requests before anything that is shown.\<close>

definition asks_first :: "trace_entry list \<Rightarrow> bool" where
  "asks_first ls \<longleftrightarrow> (\<exists>xs ys. ls = xs @ ys \<and> (\<forall>l \<in> set xs. \<not> shows_output l)
     \<and> (\<forall>l \<in> set ys. \<not> is_request_start (entry_event l)))"

definition asks :: "'a io \<Rightarrow> bool" where
  "asks m \<longleftrightarrow> (\<forall>d. asks_first (trace_lines (fst (m d))))"

lemma kinds_shown: "kinds_in (- delta_kinds) ws \<longleftrightarrow> (\<forall>l \<in> set (trace_lines ws). \<not> shows_output l)"
  by (auto simp: kinds_in_def shows_output_def)

lemma kinds_started: "kinds_in (- {''model_request_started''}) ws \<longleftrightarrow> (\<forall>l \<in> set (trace_lines ws). \<not> is_request_start (entry_event l))"
  by (force simp: kinds_in_def kind_of_line_def request_start_kind)

lemma asks_first_before:
  assumes "kinds_in (- delta_kinds) ws" "asks_first ls"
  shows "asks_first (trace_lines ws @ ls)"
proof -
  obtain xs ys where "ls = xs @ ys" "\<forall>l \<in> set xs. \<not> shows_output l" "\<forall>l \<in> set ys. \<not> is_request_start (entry_event l)"
    using assms(2) unfolding asks_first_def by blast
  then show ?thesis
    using assms(1) unfolding asks_first_def kinds_shown
    by (intro exI [of _ "trace_lines ws @ xs"] exI [of _ ys]) auto
qed

lemma asks_first_after:
  assumes "kinds_in (- {''model_request_started''}) ws" "asks_first ls"
  shows "asks_first (ls @ trace_lines ws)"
proof -
  obtain xs ys where "ls = xs @ ys" "\<forall>l \<in> set xs. \<not> shows_output l" "\<forall>l \<in> set ys. \<not> is_request_start (entry_event l)"
    using assms(2) unfolding asks_first_def by blast
  then show ?thesis
    using assms(1) unfolding asks_first_def kinds_started
    by (intro exI [of _ xs] exI [of _ "ys @ trace_lines ws"]) auto
qed

lemma asks_first_late: "kinds_in (- {''model_request_started''}) ws \<Longrightarrow> asks_first (trace_lines ws)"
  unfolding asks_first_def kinds_started by (intro exI [of _ "[]"] exI [of _ "trace_lines ws"]) simp

lemma asks_late: "emits (- {''model_request_started''}) m \<Longrightarrow> asks m"
  unfolding asks_def emits_def by (blast intro: asks_first_late)

lemma asks_bind:
  assumes "emits (- delta_kinds) m" "\<And>a. asks (f a)"
  shows "asks (io_bind m f)"
  unfolding asks_def
proof
  fix d :: durable
  obtain ws r where m: "m d = (ws, r)"
    by (cases "m d")
  note before = asks_first_before [OF emitsD [OF assms(1) m]]
  show "asks_first (trace_lines (fst (io_bind m f d)))"
  proof (cases r)
    case (Inl err)
    have "asks_first []"
      by (simp add: asks_first_def)
    from before [OF this] show ?thesis
      by (simp add: io_bind_def m Inl)
  next
    case (Inr a)
    obtain vs s where f: "f a (apply_writes ws d) = (vs, s)"
      by (cases "f a (apply_writes ws d)")
    have "asks_first (trace_lines vs)"
      using assms(2) [of a] f unfolding asks_def by (metis fst_conv)
    from before [OF this] show ?thesis
      by (simp add: io_bind_def m Inr f)
  qed
qed

lemma asks_then:
  assumes "asks m" "\<And>a. emits (- {''model_request_started''}) (f a)"
  shows "asks (io_bind m f)"
  unfolding asks_def
proof
  fix d :: durable
  obtain ws r where m: "m d = (ws, r)"
    by (cases "m d")
  have first: "asks_first (trace_lines ws)"
    using assms(1) m unfolding asks_def by (metis fst_conv)
  show "asks_first (trace_lines (fst (io_bind m f d)))"
  proof (cases r)
    case (Inr a)
    obtain vs s where f: "f a (apply_writes ws d) = (vs, s)"
      by (cases "f a (apply_writes ws d)")
    show ?thesis
      using asks_first_after [OF emitsD [OF assms(2) f] first] m f Inr by (simp add: io_bind_def)
  qed (use m first in \<open>simp add: io_bind_def\<close>)
qed

lemma plain_subsets: "plain \<subseteq> - delta_kinds" "plain \<subseteq> - {''model_request_started''}" "delta_kinds \<subseteq> - {''model_request_started''}"
  by (auto simp: plain_def delta_kinds_def)

lemma asks_if: "asks a \<Longrightarrow> asks b \<Longrightarrow> asks (if c then a else b)"
  by simp

lemma stream_asks:
  assumes "quiet_env lp"
  shows "asks (stream_request lp turn request ts)"
proof -
  have env: "keeps_kinds (loop_store lp)" "keeps_kinds (ce_store (collector_env_of lp turn ts))" for ts
    using assms by (simp_all add: quiet_env_def collector_env_of_def)
  have receive: "asks (receive_response lp turn request ts)" for ts
    unfolding receive_response_def Let_def
    by (intro asks_late emits_intros emits_mono [OF emits_collect [OF env(2)] plain_subsets(3)])
  have announce: "emits (- delta_kinds) (in_live (live_emit (loop_store lp) li t (ModelRequestStartedEv x)) ts)" for li t x ts
    by (intro emits_in_live emits_live [OF env(1)]) (simp add: delta_kinds_def)
  have refuse: "asks (io_fail CountTooLarge)"
    by (rule asks_late) simp
  show ?thesis
    unfolding stream_request_def Let_def
    by (intro asks_if refuse asks_bind emits_simple) (auto intro!: asks_bind announce receive)
qed

lemma attempt_once_asks:
  assumes "quiet_env lp"
  shows "asks (attempt_once lp turn n e ts)"
proof -
  have over: "asks (io_return x)" for x :: "attempt_step \<times> 'a turn_state"
    by (rule asks_late) simp
  show ?thesis
    unfolding attempt_once_def Let_def
  proof (rule asks_bind [OF emits_simple(4)], rule asks_bind, unfold case_prod_beta)
    show "emits (- delta_kinds) (build_request lp turn ts)"
      by (rule emits_mono [OF emits_build [OF assms] plain_subsets(1)])
  qed (auto split: sum.split intro!: over asks_then stream_asks [OF assms]
      emits_mono [OF emits_judge [OF assms] plain_subsets(2)])
qed

text \<open>A repeated request has shown nothing.\<close>

lemma receive_silent:
  assumes "keeps_deltas (loop_store lp)" "\<not> co_committed co"
    and run: "receive_response lp turn request ts d = (ws, Inr ((co, outcome, duration), ts'))"
  shows "kinds_in (- delta_kinds) ws"
proof -
  let ?ce = "collector_env_of lp turn ts"
  obtain events st where collect: "collect_events ?ce events new_collector (lc_trace (tt_live ts)) d = (ws, Inr (co, st))"
    using run unfolding receive_response_def Let_def
    by (auto simp: io_return_def io_fail_def split: prod.splits option.splits elim!: io_bind_ok)
  have keeps: "keeps_deltas (ce_store ?ce)"
    using assms(1) by (simp add: collector_env_of_def)
  from collect_events_teed [OF keeps new_collector_teed, of d "du_trace d" events "lc_trace (tt_live ts)"] collect
  obtain ls where ls: "du_trace (apply_writes ws d) = du_trace d @ ls" "teed 0 ls co"
    by auto
  then have "deltas ls = []"
    using assms(2) unfolding teed_def by (metis map_is_Nil_conv)
  with ls(1) show ?thesis
    by (simp add: trace_of_writes deltas_empty kinds_shown)
qed

lemma stream_silent:
  assumes "keeps_deltas (loop_store lp)" "quiet_env lp" "\<not> co_committed co"
    and run: "stream_request lp turn request ts d = (ws, Inr ((co, outcome, duration), ts'))"
  shows "kinds_in (- delta_kinds) ws"
proof -
  have env: "keeps_kinds (loop_store lp)"
    using assms(2) by (simp add: quiet_env_def)
  have announce: "emits (- delta_kinds) (in_live (live_emit (loop_store lp) li t (ModelRequestStartedEv x)) ts)" for li t x ts
    by (intro emits_in_live emits_live [OF env]) (simp add: delta_kinds_def)
  have lift: "kinds_in K w1" if "io_lift g r d1 = (w1, x)" for K w1 x g r d1
    using emitsD [OF emits_simple(4) that] .
  show ?thesis
    using run unfolding stream_request_def Let_def
    by (auto simp: io_fail_def split: if_splits elim!: io_bind_ok
        dest: receive_silent [OF assms(1,3)] emitsD [OF announce] lift)
qed

lemma reissue_silent:
  assumes "keeps_deltas (loop_store lp)" "quiet_env lp"
    and run: "attempt_once lp turn n e ts d = (ws, Inr (Reissue a b, ts'))"
  shows "kinds_in (- delta_kinds) ws"
proof -
  have lift: "kinds_in K w1" if "io_lift g r d1 = (w1, x)" for K w1 x g r d1
    using emitsD [OF emits_simple(4) that] .
  obtain w0 w1 w2 w3 d1 d2 d3 n' ts1 ts2 request co outcome duration x where parts:
    "kinds_in (- delta_kinds) w0" "build_request lp turn ts d1 = (w1, x)"
    "stream_request lp turn request ts1 d2 = (w2, Inr ((co, outcome, duration), ts2))"
    "judge_response lp turn n' (epoch_index (tt_seat ts)) request co outcome duration ts2 d3 = (w3, Inr (Reissue a b, ts'))"
    "ws = w0 @ w1 @ w2 @ w3"
    using run unfolding attempt_once_def Let_def
    by (auto simp: io_return_def split: sum.splits elim!: io_bind_ok dest: lift) (metis lift)
  have "kinds_in (- delta_kinds) w1" "kinds_in (- delta_kinds) w3"
    using emitsD [OF emits_mono [OF emits_build [OF assms(2)] plain_subsets(1)] parts(2)]
      emitsD [OF emits_mono [OF emits_judge [OF assms(2)] plain_subsets(1)] parts(4)] by simp_all
  moreover have "kinds_in (- delta_kinds) w2"
    by (rule stream_silent [OF assms(1,2) judge_response_uncommitted [OF parts(4)] parts(3)])
  ultimately show ?thesis
    using parts(1,5) by simp
qed

lemma attempt_asks:
  assumes "keeps_deltas (loop_store lp)" "quiet_env lp" "attempt lp turn n e ts d = (ws, r)"
  shows "asks_first (trace_lines ws)"
  using assms
proof (induction lp turn n e ts d arbitrary: ws r rule: attempt.induct)
  case (1 lp turn n e ts d)
  obtain ws1 r1 where one: "attempt_once lp turn n e ts d = (ws1, r1)"
    by (cases "attempt_once lp turn n e ts d")
  have first: "asks_first (trace_lines ws1)"
    using attempt_once_asks [OF "1.prems"(2)] one unfolding asks_def by (metis fst_conv)
  show ?case
  proof (cases "\<exists>a b ts1. r1 = Inr (Reissue a b, ts1)")
    case False
    then have "ws = ws1"
      using "1.prems"(3) one
      by (subst (asm) attempt.simps) (auto split: sum.splits prod.splits attempt_step.splits)
    with first show ?thesis
      by simp
  next
    case True
    then obtain a b ts1 where r1: "r1 = Inr (Reissue a b, ts1)"
      by blast
    obtain vs r2 where rest: "attempt lp turn a b ts1 (apply_writes ws1 d) = (vs, r2)"
      by (cases "attempt lp turn a b ts1 (apply_writes ws1 d)")
    have ws: "ws = ws1 @ vs" "r = r2"
      using "1.prems"(3) one r1 rest by (simp_all add: attempt.simps [of lp turn n])
    from "1.IH" [OF one [symmetric] r1 refl refl "1.prems"(1,2) rest]
    have "asks_first (trace_lines vs)" .
    with reissue_silent [OF "1.prems"(1,2) one [unfolded r1]] ws show ?thesis
      by (simp add: asks_first_before)
  qed
qed

text \<open>C2:
  output is never asked for twice: in the trace of an attempt, with all its retries and its takeover and
  wherever it ends, every request comes before anything of a response that was shown.\<close>

theorem nothing_repeated_after_output:
  assumes "keeps_deltas (loop_store lp)" "keeps_kinds (loop_store lp)"
  shows "\<exists>asked answered. trace_lines (fst (attempt lp turn n e ts d)) = asked @ answered
    \<and> deltas asked = [] \<and> requests_started answered = 0"
proof -
  obtain ws r where run: "attempt lp turn n e ts d = (ws, r)"
    by (cases "attempt lp turn n e ts d")
  have "asks_first (trace_lines ws)"
    by (rule attempt_asks [OF assms(1) _ run]) (simp add: quiet_env_def assms(2))
  then show ?thesis
    by (auto simp: run asks_first_def deltas_empty requests_started_def filter_empty_conv)
qed

theorem nothing_repeated_after_output_witness:
  "\<exists>asked answered. trace_lines (fst (attempt sample_loop ''turn'' 0 0 sample_state empty_session)) = asked @ answered
    \<and> deltas asked = [] \<and> requests_started answered = 0"
  by (rule nothing_repeated_after_output; simp only: sample_store roomy_keeps)

end
