(* ===== verification/Turn_Closing.thy ===== *)
theory Turn_Closing
  imports Turn_Ends
begin

text \<open>
  How a turn ends in the trace: whichever way it takes, a turn that gives the caller an outcome has
  written its \<open>turn_completed\<close> with that outcome, as the last line of the turn.
\<close>

section \<open>Closed turns\<close>

text \<open>The status of an outcome; a loop blocked by an interrupted call gives its reason instead.\<close>

fun outcome_status :: "turn_result \<Rightarrow> turn_status option" where
  "outcome_status (Inr report) = Some (rep_status report)"
| "outcome_status (Inl (Unavailable f)) = Some (TurnFailed (mf_kind f))"
| "outcome_status (Inl (AbortedTurn status)) = Some status"
| "outcome_status (Inl _) = None"

definition closed_with :: "turn_status \<Rightarrow> trace_entry list \<Rightarrow> bool" where
  "closed_with status ls \<longleftrightarrow> (\<exists>xs l n. ls = xs @ [l]
     \<and> entry_event l = TurnCompletedEv \<lparr> tcd_status = status, tcd_duration_ms = n \<rparr>)"

lemma closed_with_append: "closed_with s ls \<Longrightarrow> closed_with s (xs @ ls)"
  unfolding closed_with_def by (metis append.assoc)

definition settled :: "turn_result \<Rightarrow> disk_write list \<Rightarrow> bool" where
  "settled r ws \<longleftrightarrow> (\<exists>s. outcome_status r = Some s \<and> closed_with s (trace_lines ws))"

lemma settled_append: "settled r ws \<Longrightarrow> settled r (vs @ ws)"
  by (auto simp: settled_def closed_with_append)

definition keeps_ends :: "store_env \<Rightarrow> bool" where
  "keeps_ends env \<longleftrightarrow> (\<forall>e l c. sv_line env e = Some l \<longrightarrow> entry_event e = TurnCompletedEv c \<longrightarrow> entry_event l = TurnCompletedEv c)"

text \<open>Operations whose outcome is closed, and rounds that end the turn only so.\<close>

definition closes :: "(turn_result \<times> 'b) io \<Rightarrow> bool" where
  "closes m \<longleftrightarrow> (\<forall>d ws r b. m d = (ws, Inr (r, b)) \<longrightarrow> settled r ws)"

definition round_closes :: "(round_step \<times> 'b) io \<Rightarrow> bool" where
  "round_closes m \<longleftrightarrow> (\<forall>d ws r b. m d = (ws, Inr (TurnEnds r, b)) \<longrightarrow> settled r ws)"

lemma closesD: "closes m \<Longrightarrow> m d = (ws, Inr (r, b)) \<Longrightarrow> settled r ws"
  by (auto simp: closes_def)

lemma round_closesD: "round_closes m \<Longrightarrow> m d = (ws, Inr (TurnEnds r, b)) \<Longrightarrow> settled r ws"
  by (auto simp: round_closes_def)

lemma closes_bind: "(\<And>a. closes (f a)) \<Longrightarrow> closes (io_bind m f)"
  unfolding closes_def [of "io_bind m f"] by (auto elim!: io_bind_ok intro!: settled_append dest: closesD)

lemma round_closes_bind: "(\<And>a. round_closes (f a)) \<Longrightarrow> round_closes (io_bind m f)"
  unfolding round_closes_def [of "io_bind m f"] by (auto elim!: io_bind_ok intro!: settled_append dest: round_closesD)

lemma round_closes_result:
  "(\<And>d ws a. m d = (ws, Inr a) \<Longrightarrow> round_closes (f a)) \<Longrightarrow> round_closes (io_bind m f)"
  unfolding round_closes_def [of "io_bind m f"] by (auto elim!: io_bind_ok intro!: settled_append dest: round_closesD)

lemma closes_result: "(\<And>d ws a. m d = (ws, Inr a) \<Longrightarrow> closes (f a)) \<Longrightarrow> closes (io_bind m f)"
  unfolding closes_def [of "io_bind m f"] by (auto elim!: io_bind_ok intro!: settled_append dest: closesD)

lemma round_closes_next: "round_closes (io_return (NextRound ou tu report, b))"
  by (simp add: round_closes_def io_return_def)

lemma round_closes_ends: "closes (m ts) \<Longrightarrow> round_closes (ends m ts)"
  unfolding round_closes_def ends_def by (auto simp: io_return_def elim!: io_bind_ok dest: closesD)

lemma finish_closes:
  assumes "keeps_ends (loop_store lp)" "finish lp w0 report status ts d = (ws, Inr (report', ts'))"
  shows "closed_with status (trace_lines ws) \<and> rep_status report' = status"
proof -
  define event where "event = TurnCompletedEv \<lparr> tcd_status = status, tcd_duration_ms = tv_elapsed (lp_turn lp) w0 (tt_world ts) \<rparr>"
  have one: "closed_with status (trace_lines ws1)"
    if emit: "in_live (live_emit (loop_store lp) li t event) ts1 d1 = (ws1, Inr b)" for li t ts1 d1 ws1 b
  proof -
    obtain a where "live_emit (loop_store lp) li t event (tt_live ts1) d1 = (ws1, Inr a)"
      using emit unfolding in_live_def by (auto simp: io_return_def elim!: io_bind_ok)
    from live_emit_lines(2) [OF this refl] obtain l where l: "trace_lines ws1 = [l]"
      and line: "line_of (loop_store lp) (loop_envelope (loop_store lp) li (length (du_trace d1)) t event) l"
      by blast
    have "entry_event l = event"
      using line assms(1) by (auto simp: line_of_def keeps_ends_def plain_entry_def with_seq_def event_def)
    with l show ?thesis
      by (auto simp: closed_with_def event_def)
  qed
  have flush: "trace_lines ws2 = []" if "session_flush (loop_store lp) d1 = (ws2, x)" for d1 ws2 x
  proof -
    have "kinds_in {} ws2"
      by (rule emitsD [OF emits_untraced [OF untraced_flush] that])
    then show ?thesis
      by (simp add: kinds_in_def)
  qed
  show ?thesis
    using assms(2) unfolding finish_def Let_def event_def [symmetric]
    by (auto simp: io_return_def dest!: one flush elim!: io_bind_ok)
qed

lemma ended_closes:
  assumes "keeps_ends (loop_store lp)"
  shows "closes (finish_with lp w0 report status ts)" "closes (finish_failure lp w0 report failure ts)"
    "closes (finish_exhausted lp turn w0 report s ts)" "closes (noted_failure lp turn w0 report failure s ts)"
proof -
  show w: "closes (finish_with lp w0 report status ts)" for report status ts
    unfolding closes_def finish_with_def
    by (auto simp: io_return_def settled_def dest!: finish_closes [OF assms] elim!: io_bind_ok)
  show f: "closes (finish_failure lp w0 report failure ts)" for ts
    unfolding closes_def finish_failure_def
    by (auto simp: io_return_def settled_def dest!: finish_closes [OF assms] elim!: io_bind_ok)
  show "closes (finish_exhausted lp turn w0 report s ts)" "closes (noted_failure lp turn w0 report failure s ts)"
    unfolding finish_exhausted_def noted_failure_def by (auto intro!: closes_bind w f)
qed

lemmas round_rules = round_closes_bind round_closes_next round_closes_ends

text \<open>No attempt ends with an error of the store: building a request either works or is refused.\<close>

lemma build_request_refusals:
  assumes "build_request lp turn ts d = (ws, Inr (Inl e, ts'))"
  shows "e \<noteq> SinkText m"
  using assms unfolding build_request_def fit_budget_def overflow_abort_def Let_def
  by (auto simp: io_return_def split: if_splits prod.splits elim!: io_bind_ok)

lemma recover_request_unstopped:
  "recover_request lp turn a e f c ts d = (ws, Inr (Ended (Inl (StoreStopped m)), ts')) \<Longrightarrow> False"
  unfolding recover_request_def Let_def
  by (auto simp: io_return_def split: action.splits prod.splits if_splits elim!: io_bind_ok)

lemma settle_failure_unstopped:
  "settle_failure lp turn a e request co f usage ts d = (ws, Inr (Ended (Inl (StoreStopped m)), ts')) \<Longrightarrow> False"
  unfolding settle_failure_def Let_def
  by (auto simp: io_return_def split: option.splits if_splits dest: recover_request_unstopped)

lemma judge_response_unstopped:
  "judge_response lp turn a e request co outcome n ts d = (ws, Inr (Ended (Inl (StoreStopped m)), ts')) \<Longrightarrow> False"
  unfolding judge_response_def Let_def
  by (auto simp: io_return_def split: sum.splits option.splits elim!: io_bind_ok dest: settle_failure_unstopped)

lemma attempt_never_stopped:
  assumes "attempt lp turn n e ts d = (ws, Inr (Inl (StoreStopped m), ts'))"
  shows False
proof -
  have built: "failure_of_error err \<noteq> StoreStopped m"
    if "build_request lp turn ts1 d1 = (ws1, Inr (Inl err, ts2))" for ts1 d1 ws1 ts2 err
    using build_request_refusals [OF that, of m] by (cases err) (auto simp: failure_of_error_def)
  obtain a e1 ts1 d1 ws1 where "attempt_once lp turn a e1 ts1 d1 = (ws1, Inr (Ended (Inl (StoreStopped m)), ts'))"
    using attempt_outcome [OF assms] by blast
  then show False
    unfolding attempt_once_def Let_def
    by (auto simp: io_return_def split: sum.splits elim!: io_bind_ok dest!: judge_response_unstopped built)
qed

lemma turn_round_closes:
  assumes "keeps_ends (loop_store lp)"
  shows "round_closes (turn_round lp turn w0 ou tu report ts)"
proof -
  note rules = round_rules ended_closes [OF assms]
  have failure: "round_closes (handle_failure lp turn w0 ou tu report failure ts1)" if "\<And>m. failure \<noteq> StoreStopped m" for failure ts1
    using that unfolding handle_failure_def by (cases failure) (auto intro!: rules)
  have response: "round_closes (handle_response lp turn w0 ou tu report response ts1)" for response ts1
    unfolding handle_response_def Let_def by (auto split: option.split intro!: rules)
  have result: "round_closes (case (res, ts1) of (result, ts) \<Rightarrow>
      (case result of Inl f \<Rightarrow> handle_failure lp turn w0 ou tu report f ts
       | Inr response \<Rightarrow> handle_response lp turn w0 ou tu report response ts))"
    if "start_attempt lp turn ts0 d = (ws, Inr (res, ts1))" for res ts0 ts1 d ws
    using that unfolding start_attempt_def
    by (auto split: sum.split intro!: failure response dest: attempt_never_stopped)
  show ?thesis
    unfolding turn_round_def
    by (auto intro!: round_closes_ends ended_closes [OF assms] round_closes_result dest!: result)
qed

lemma rounds_close:
  assumes "keeps_ends (loop_store lp)" "rounds lp turn w0 ou tu report ts d = (ws, Inr ((Some r, report'), ts'))"
  shows "settled r ws"
  using assms
proof (induction lp turn w0 ou tu report ts d arbitrary: ws rule: rounds.induct)
  case (1 lp turn w0 ou tu report ts d)
  have room: "tt_requests ts < request_limit lp tu"
    using "1.prems"(2) by (auto simp: rounds.simps [of lp turn w0 ou] split: if_splits)
  obtain ws1 r1 where one: "turn_round lp turn w0 ou tu report ts d = (ws1, r1)"
    by (cases "turn_round lp turn w0 ou tu report ts d")
  obtain s ts1 where r1: "r1 = Inr (s, ts1)"
    using "1.prems"(2) one room by (cases r1) (auto simp: rounds.simps [of lp turn w0 ou])
  show ?case
  proof (cases s)
    case (NextRound ou' tu' report1)
    obtain vs where rest: "rounds lp turn w0 ou' tu' report1 ts1 (apply_writes ws1 d) = (vs, Inr ((Some r, report'), ts'))"
      and ws: "ws = ws1 @ vs"
      using "1.prems"(2) one r1 NextRound room by (auto simp: rounds.simps [of lp turn w0 ou] split: prod.splits)
    from "1.IH" [OF room one [symmetric] r1 refl NextRound "1.prems"(1) rest] ws show ?thesis
      by (simp add: settled_append)
  next
    case (TurnEnds res)
    then have "res = r" "ws = ws1"
      using "1.prems"(2) one r1 room by (simp_all add: rounds.simps [of lp turn w0 ou])
    with turn_round_closes [OF "1.prems"(1)] one r1 TurnEnds show ?thesis
      unfolding round_closes_def by blast
  qed
qed

lemma finalize_closes:
  assumes "keeps_ends (loop_store lp)"
  shows "closes (finalize_turn lp turn w0 report ts)"
proof -
  have tail: "closes (case result of
      Inl TurnStopped \<Rightarrow> a ts1 | Inl (ProviderOverflow f) \<Rightarrow> b f | Inl (FatalFailure f) \<Rightarrow> b f | Inl (StoreStopped m) \<Rightarrow> c m
    | Inl (OutputTruncated f _ _ _) \<Rightarrow> b f | Inr response \<Rightarrow> g response)"
    if "\<And>failure m. result = Inl failure \<Longrightarrow> failure \<noteq> StoreStopped m" "closes (a ts1)" "\<And>f. closes (b f)" "\<And>r. closes (g r)"
    for result a b c g and ts1 :: "'a turn_state"
    using that by (auto split: sum.split turn_failure.split)
  show ?thesis
    unfolding finalize_turn_def start_attempt_def Let_def
    by (auto intro!: closes_bind ended_closes [OF assms] closes_result tail dest: attempt_never_stopped)
qed

lemma drive_closes:
  assumes "keeps_ends (loop_store lp)"
  shows "closes (drive_turn lp turn w0 report ts)"
  unfolding closes_def
proof (intro allI impI)
  fix d ws r ts'
  assume run: "drive_turn lp turn w0 report ts d = (ws, Inr (r, ts'))"
  have out: "closes (out_of_requests lp turn w0 report1 ts1)" for report1 ts1
    unfolding out_of_requests_def using ended_closes [OF assms] finalize_closes [OF assms] by auto
  show "settled r ws"
    using run unfolding drive_turn_def
    by (auto simp: io_return_def settled_append split: option.splits elim!: io_bind_ok
        dest!: rounds_close [OF assms] closesD [OF out])
qed

text \<open>A turn that is refused asks nothing: its reason comes from the reconciliation.\<close>

lemma reconcile_refusal:
  assumes "reconcile_interrupted lp ts d = (ws, Inr (Some e, ts'))"
  shows "tt_blocked ts' \<and> (\<exists>s. e = SinkText s)"
proof -
  have "tt_blocked ts' \<and> (\<exists>s. e = SinkText s)" if "reconcile_calls lp calls ts1 d1 = (ws1, Inr (Some e, ts'))" for calls ts1 d1 ws1
    using that
  proof (induction calls arbitrary: ts1 d1 ws1)
    case (Cons call calls)
    then show ?case
      by (fastforce simp: Let_def blocked_def io_return_def split: option.splits sum.splits reconciliation_status.splits
          elim!: io_bind_ok)
  qed (simp add: io_return_def)
  then show ?thesis
    using assms by (auto simp: reconcile_interrupted_def io_return_def split: if_splits)
qed

lemma open_refusal:
  assumes "open_turn lp ts d = (ws, Inr (Some e, ts'))"
  shows "tt_blocked ts' \<and> (\<exists>s. e = SinkText s)"
  using assms unfolding open_turn_def Let_def
  by (auto simp: io_return_def split: if_splits elim!: io_bind_ok dest: reconcile_refusal)



section \<open>The summary of a recovery\<close>

text \<open>Every try takes at most half of the one before, so 65 tries reach the empty summary.\<close>

lemma truncated_length: "length (truncate_utf8_to_bytes s n) \<le> n"
  by (simp add: truncate_utf8_to_bytes_def floor_char_boundary_le min_le_iff_disj)

lemma fit_summary_sound:
  "fit_summary k fits source n = Some s \<Longrightarrow> fits s \<and> (\<exists>m. s = truncate_utf8_to_bytes source m)"
  by (induction k arbitrary: n) (auto simp: Let_def split: if_splits)

lemma fit_summary_exhaustive:
  "fit_summary (Suc k) fits source n = None \<Longrightarrow> n < 2 ^ k \<Longrightarrow> \<not> fits []"
proof (induction k arbitrary: n)
  case 0
  then have "n = 0"
    by simp
  with 0 show ?case
    using truncated_length [of source 0] by (simp add: Let_def split: if_splits)
next
  case (Suc k)
  let ?next = "length (truncate_utf8_to_bytes source (n div 2))"
  show ?case
  proof (cases "n = 0")
    case True
    then show ?thesis
      using Suc.prems(1) truncated_length [of source 0] by (simp add: Let_def split: if_splits)
  next
    case False
    have half: "?next \<le> n div 2"
      by (rule truncated_length)
    with False have "?next \<noteq> n" "?next < 2 ^ k"
      using Suc.prems(2) by (auto simp: less_mult_imp_div_less mult.commute)
    moreover have "fit_summary (Suc k) fits source ?next = None"
      using Suc.prems(1) False \<open>?next \<noteq> n\<close> by (subst (asm) fit_summary.simps) (simp add: Let_def del: fit_summary.simps split: if_splits)
    ultimately show ?thesis
      by (intro Suc.IH)
  qed
qed

text \<open>C13:
  the search for a summary that fits always ends with one when any can fit: the summary it finds is a
  cut of the prepared one with which the request fits, and it gives up only when the request would not
  fit even with an empty summary. The 65 tries are enough for every summary the machine can hold.\<close>

theorem recovery_summary_found:
  assumes "length (lp_summarize lp (take (prefix_end - protected) (drop protected (lc_messages (tt_live ts))))) \<le> usize_max"
  shows "case recovery_summary lp ts protected prefix_end of
      None \<Rightarrow> \<not> fits_request lp ts (take protected (lc_messages (tt_live ts)) @ [user_message []]
                @ drop prefix_end (lc_messages (tt_live ts)))
    | Some s \<Rightarrow> fits_request lp ts (take protected (lc_messages (tt_live ts)) @ [user_message s]
                @ drop prefix_end (lc_messages (tt_live ts)))
        \<and> (\<exists>n. s = truncate_utf8_to_bytes
              (lp_summarize lp (take (prefix_end - protected) (drop protected (lc_messages (tt_live ts))))) n)"
proof -
  define source where "source = lp_summarize lp (take (prefix_end - protected) (drop protected (lc_messages (tt_live ts))))"
  define fits where "fits = (\<lambda>s. fits_request lp ts (take protected (lc_messages (tt_live ts)) @ [user_message s]
    @ drop prefix_end (lc_messages (tt_live ts))))"
  have found: "recovery_summary lp ts protected prefix_end = fit_summary (Suc 64) fits source (length source)"
    by (simp add: recovery_summary_def source_def fits_def Let_def del: fit_summary.simps)
  have "length source < 2 ^ 64"
    using assms by (simp add: source_def u64_max_def)
  then have "case fit_summary (Suc 64) fits source (length source) of
      None \<Rightarrow> \<not> fits [] | Some s \<Rightarrow> fits s \<and> (\<exists>n. s = truncate_utf8_to_bytes source n)"
    using fit_summary_exhaustive [of 64 fits source "length source"] fit_summary_sound [of "Suc 64" fits source "length source"]
    by (simp del: fit_summary.simps split: option.split)
  then show ?thesis
    unfolding found unfolding source_def fits_def .
qed

theorem recovery_summary_found_witness:
  "\<exists>summary. recovery_summary sample_loop sample_state 0 0 = Some summary"
proof -
  have "length (lp_summarize sample_loop (take (0 - 0) (drop 0 (lc_messages (tt_live sample_state))))) \<le> usize_max"
    by (simp add: sample_loop_def u64_max_def)
  moreover have "fits_request sample_loop sample_state [user_message []]"
  proof -
    have caps: "ps_capabilities (active_provider (tt_seat sample_state)) = text_only 8192"
      by (simp add: sample_state_def sample_seat_def Let_def new_seat_def active_provider_def active_model_def
          active_epoch_def epoch_of_provider_def new_model_ref_def)
    have none: "exposed_tools lp ts (text_only 8192) = []" for lp :: "nat loop_env" and ts
      by (simp add: exposed_tools_def text_only_def)
    have "estimate_request_tokens (lp_json sample_loop) (assemble_request sample_loop sample_state [user_message []]) \<le> 100"
      by (simp add: assemble_request_def assemble_for_def caps none Let_def new_request_def request_with_system_def
          request_with_tools_def request_with_tool_choice_def request_with_thinking_def estimate_request_tokens_def
          estimate_message_bytes_def user_message_def new_message_def tool_availability_prompt_def sample_loop_def)
    moreover have "rq_desired_output_tokens (assemble_request sample_loop sample_state [user_message []]) = None"
      by (simp add: assemble_request_def assemble_for_def caps Let_def new_request_def request_with_system_def
          request_with_tools_def request_with_tool_choice_def request_with_thinking_def text_only_def)
    ultimately show ?thesis
      by (simp add: fits_request_def request_context_tokens_def context_tokens_est_def budget_for_request_def
          overflow_recovery_target_def caps Let_def sat_add_def) (simp add: text_only_def)
  qed
  ultimately show ?thesis
    using recovery_summary_found [of sample_loop 0 0 sample_state]
    by (auto simp: sample_state_def new_live_def split: option.splits)
qed

end
