(* ===== verification/Edit_Tool.thy ===== *)
theory Edit_Tool
  imports Tool_Lifecycle
begin

text \<open>
  \<open>crates/rupi-tools/src/edit.rs\<close>: the tool that changes a file by exact match. The file system, the
  resolution of paths and the cancellation of the call are parameters over a world; what is modelled
  is when the tool writes, what it writes, and what it says of an edit that was interrupted.
\<close>

section \<open>Matches\<close>

text \<open>\<open>str::matches\<close> and \<open>str::replace\<close> of a pattern that is not empty, from the left, without overlaps.\<close>

function count_matches :: "string \<Rightarrow> string \<Rightarrow> nat" where
  "count_matches pat s =
     (if pat = [] \<or> s = [] then 0
      else if take (length pat) s = pat then 1 + count_matches pat (drop (length pat) s)
      else count_matches pat (tl s))"
  by pat_completeness auto
termination
  by (relation "measure (\<lambda>(pat, s). length s)") auto

function replace_str :: "string \<Rightarrow> string \<Rightarrow> string \<Rightarrow> string" where
  "replace_str pat new s =
     (if pat = [] \<or> s = [] then s
      else if take (length pat) s = pat then new @ replace_str pat new (drop (length pat) s)
      else hd s # replace_str pat new (tl s))"
  by pat_completeness auto
termination
  by (relation "measure (\<lambda>(pat, new, s). length s)") auto

declare count_matches.simps [simp del] replace_str.simps [simp del]

definition count_overlapping :: "string \<Rightarrow> string \<Rightarrow> nat" where
  "count_overlapping haystack needle = (if needle = [] then 0 else count_matches needle haystack)"

section \<open>The tool\<close>

text \<open>
  What the tool meets. \<open>ed_cancelled k\<close> is the answer to the \<open>k\<close>-th look at the cancellation,
  \<open>ed_write\<close> the atomic replacement with the text of its error, \<open>ed_debug\<close> whether debug assertions
  are compiled in.
\<close>

record 'w edit_env =
  ed_write_path :: "string \<Rightarrow> 'w \<Rightarrow> string + string"
  ed_exists :: "string \<Rightarrow> 'w \<Rightarrow> bool"
  ed_read :: "string \<Rightarrow> 'w \<Rightarrow> string + string"
  ed_write :: "string \<Rightarrow> string \<Rightarrow> 'w \<Rightarrow> string option \<times> 'w"
  ed_cancelled :: "nat \<Rightarrow> 'w \<Rightarrow> bool"
  ed_elapsed_ms :: "'w \<Rightarrow> u64"
  ed_debug :: bool

definition quote_text :: "string \<Rightarrow> string" where
  "quote_text s = [CHR 0x27] @ s @ [CHR 0x27]"

definition arg_str :: "tool_request \<Rightarrow> string \<Rightarrow> tool_error + string" where
  "arg_str request name =
     ok_or (Option.bind (jget (tr_arguments request) name) as_str)
       (new_tool_error (tr_name request @ '': missing required string argument '' @ quote_text name))"

definition arg_bool :: "tool_request \<Rightarrow> string \<Rightarrow> bool \<Rightarrow> bool" where
  "arg_bool request name fallback =
     (case jget (tr_arguments request) name of Some (JBool b) \<Rightarrow> b | _ \<Rightarrow> fallback)"

definition edit_metadata :: tool_metadata where
  "edit_metadata = mutating_metadata ''edit''
     (''Replace an exact string in a file. The string must appear exactly once unless replace_all is set.'') True"

definition resolve_path :: "'w edit_env \<Rightarrow> string \<Rightarrow> 'w \<Rightarrow> tool_error + string" where
  "resolve_path env path w = (case ed_write_path env path w of Inl e \<Rightarrow> Inl (new_tool_error e) | Inr p \<Rightarrow> Inr p)"

definition edit_preflight :: "'w edit_env \<Rightarrow> tool_request \<Rightarrow> 'w \<Rightarrow> tool_error option" where
  "edit_preflight env request w =
     (case bind_res (arg_str request ''path'') (\<lambda>path. resolve_path env path w) of Inl e \<Rightarrow> Some e | Inr _ \<Rightarrow> None)"

text \<open>The hint looks for a line that starts like the missing text.\<close>

definition em_dash :: string where
  "em_dash = [CHR 0xE2, CHR 0x80, CHR 0x94]"

definition edit_hint :: "string \<Rightarrow> string \<Rightarrow> string" where
  "edit_hint original target =
     (let head = take_chars 40 (trim (case str_lines target of [] \<Rightarrow> [] | l # _ \<Rightarrow> l)); lines = str_lines original;
          similar = (\<lambda>l. trim l = take_chars 20 (trim head))
      in if original = [] then ''the file is empty''
         else if list_ex similar lines
         then ''a similar line exists at line '' @ show_nat (length (takeWhile (\<lambda>l. \<not> similar l) lines) + 1) @ '' ''
              @ em_dash @ '' check indentation and whitespace''
         else ''the exact text is absent '' @ em_dash @ '' re-read the file before editing'')"

definition edit_failure_text :: "string \<Rightarrow> string \<Rightarrow> string \<Rightarrow> string" where
  "edit_failure_text original target path =
     ''edit: 'find' does not match '' @ quote_text path @ '' ('' @ edit_hint original target @ '')''"

text \<open>A debug assertion that fails is a panic.\<close>

datatype edit_result = EditPanic | EditAnswer "tool_error + tool_outcome"

abbreviation edit_failed :: "string \<Rightarrow> edit_result" where
  "edit_failed text \<equiv> EditAnswer (Inr (outcome_failed text))"

text \<open>From the write on, the file may have changed.\<close>

definition write_edit ::
  "'w edit_env \<Rightarrow> string \<Rightarrow> string \<Rightarrow> string \<Rightarrow> bool \<Rightarrow> nat \<Rightarrow> 'w \<Rightarrow> edit_result \<times> 'w" where
  "write_edit env resolved original updated replace_all hits w =
     (case ed_write env resolved updated w of
        (Some e, w) \<Rightarrow> (EditAnswer (Inl (tool_error_after_start (''edit: '' @ e))), w)
      | (None, w) \<Rightarrow>
          (EditAnswer (Inr (
             if ed_cancelled env 4 w
             then outcome_unknown (''edit of '' @ quote_text resolved
               @ '' completed at the filesystem boundary but the caller was interrupted; inspect before retrying'')
             else outcome_succeeded ((if replace_all \<and> hits > 1 then ''replaced '' @ show_nat hits @ '' occurrences in''
                                      else ''edited'') @ '' '' @ quote_text resolved @ '' ('' @ show_nat (length original)
               @ '' -> '' @ show_nat (length updated) @ '' bytes) [in '' @ show_nat (ed_elapsed_ms env w) @ '' ms]''))), w))"

definition apply_edit ::
  "'w edit_env \<Rightarrow> string \<Rightarrow> string \<Rightarrow> string \<Rightarrow> string \<Rightarrow> bool \<Rightarrow> 'w \<Rightarrow> edit_result \<times> 'w" where
  "apply_edit env resolved original target new replace_all w =
     (let hits = count_overlapping original target; updated = replace_str target new original
      in if hits = 0 then (edit_failed (edit_failure_text original target resolved), w)
         else if hits > 1 \<and> \<not> replace_all
         then (edit_failed (''edit: 'find' matches '' @ show_nat hits @ '' times in '' @ quote_text resolved
                @ ''; it must be unique. Add surrounding context, or set replace_all.''), w)
         else if ed_debug env \<and> replace_all \<and> count_matches target updated \<noteq> 0 then (EditPanic, w)
         else if ed_cancelled env 3 w then (edit_failed ''edit: cancelled before writing'', w)
         else write_edit env resolved original updated replace_all hits w)"

definition edit_execute :: "'w edit_env \<Rightarrow> tool_request \<Rightarrow> 'w \<Rightarrow> edit_result \<times> 'w" where
  "edit_execute env request w =
     (case bind_res (arg_str request ''path'') (\<lambda>path. bind_res (arg_str request ''find'') (\<lambda>target.
           bind_res (arg_str request ''replace'') (\<lambda>new. Inr (path, target, new)))) of
        Inl e \<Rightarrow> (EditAnswer (Inl e), w)
      | Inr (path, target, new) \<Rightarrow>
          if target = new
          then (edit_failed ''edit: 'find' and 'replace' are identical, so nothing would change'', w)
          else if ed_cancelled env 1 w then (edit_failed ''edit: cancelled before reading'', w)
          else case resolve_path env path w of
                 Inl e \<Rightarrow> (EditAnswer (Inl e), w)
               | Inr resolved \<Rightarrow>
                  (case ed_read env resolved w of
                     Inl e \<Rightarrow> (EditAnswer (Inl (new_tool_error
                       (''edit: cannot read '' @ quote_text resolved @ '': '' @ e))), w)
                   | Inr original \<Rightarrow>
                       if ed_cancelled env 2 w then (edit_failed ''edit: cancelled after reading'', w)
                       else apply_edit env resolved original target new (arg_bool request ''replace_all'' False) w))"

definition show_bool :: "bool \<Rightarrow> string" where
  "show_bool b = (if b then ''true'' else ''false'')"

definition judge_content :: "string \<Rightarrow> string \<Rightarrow> string \<Rightarrow> string \<Rightarrow> reconciliation_status" where
  "judge_content path target new content =
     (let has_replace = contains_str content new; has_find = contains_str content target
      in if has_replace \<and> \<not> has_find
         then Committed (''target file '' @ quote_text path
                @ '' contains replacement text and no longer contains original text'')
         else if has_find \<and> \<not> has_replace
         then Unmodified (''target file '' @ quote_text path @ '' contains original text and replacement is absent'')
         else Diverged (''target file '' @ quote_text path @ '' state is ambiguous (contains find: '' @ show_bool has_find
                @ '', contains replace: '' @ show_bool has_replace @ '')''))"

definition edit_reconcile :: "'w edit_env \<Rightarrow> tool_request \<Rightarrow> 'w \<Rightarrow> tool_error + reconciliation_status" where
  "edit_reconcile env request w =
     bind_res (arg_str request ''path'') (\<lambda>path. bind_res (arg_str request ''find'') (\<lambda>target.
     bind_res (arg_str request ''replace'') (\<lambda>new. bind_res (resolve_path env path w) (\<lambda>resolved.
       Inr (if \<not> ed_exists env resolved w
            then Unmodified (''target file '' @ quote_text path @ '' does not exist'')
            else case ed_read env resolved w of
                   Inr content \<Rightarrow> judge_content path target new content
                 | Inl e \<Rightarrow> RequiresManualInspection (''cannot read target file '' @ quote_text path @ '': '' @ e))))))"

section \<open>What a replacement leaves\<close>

lemma take_length_prefix: "take (length pat) s = pat \<longleftrightarrow> prefix pat s"
  by (metis append_eq_conv_conj prefix_def)

lemma count_matches_zero: "pat \<noteq> [] \<Longrightarrow> count_matches pat s = 0 \<longleftrightarrow> \<not> sublist pat s"
proof (induction pat s rule: count_matches.induct)
  case (1 pat s)
  show ?case
  proof (cases s)
    case (Cons c cs)
    then show ?thesis
      using 1 by (subst count_matches.simps) (auto simp: take_length_prefix sublist_Cons_right)
  qed (use 1 in \<open>simp add: count_matches.simps\<close>)
qed

lemma replace_str_none: "count_matches pat s = 0 \<Longrightarrow> replace_str pat new s = s"
proof (induction pat new s rule: replace_str.induct)
  case (1 pat new s)
  then show ?case
    by (subst replace_str.simps) (subst (asm) count_matches.simps, auto split: if_splits)
qed

lemma replace_str_contains: "count_matches pat s > 0 \<Longrightarrow> sublist new (replace_str pat new s)"
proof (induction pat new s rule: replace_str.induct)
  case (1 pat new s)
  then show ?case
    by (subst replace_str.simps) (subst (asm) count_matches.simps, auto intro: sublist_appendI simp: sublist_Cons_right split: if_splits)
qed

lemma replace_str_unique:
  "count_matches pat s = 1 \<Longrightarrow> \<exists>before after. s = before @ pat @ after \<and> replace_str pat new s = before @ new @ after"
proof (induction pat new s rule: replace_str.induct)
  case (1 pat new s)
  have s: "pat \<noteq> []" "s \<noteq> []"
    using "1.prems" by (subst (asm) count_matches.simps, simp split: if_splits)+
  show ?case
  proof (cases "take (length pat) s = pat")
    case True
    then have "count_matches pat (drop (length pat) s) = 0"
      using "1.prems" s by (subst (asm) count_matches.simps) simp
    then have "replace_str pat new s = new @ drop (length pat) s"
      using True s by (subst replace_str.simps) (simp add: replace_str_none)
    with True show ?thesis
      by (metis append_Nil append_take_drop_id)
  next
    case False
    then have "count_matches pat (tl s) = 1"
      using "1.prems" s by (subst (asm) count_matches.simps) simp
    from "1.IH"(2) [OF _ False this] s obtain before after where
      ih: "tl s = before @ pat @ after" "replace_str pat new (tl s) = before @ new @ after"
      by auto
    have "s = (hd s # before) @ pat @ after"
      using ih(1) s(2) by (metis append_Cons list.collapse)
    moreover have "replace_str pat new s = (hd s # before) @ new @ after"
      using ih(2) s False by (subst replace_str.simps) simp
    ultimately show ?thesis
      by blast
  qed
qed

section \<open>The contract of the tool\<close>

text \<open>The answers that promise an unchanged file.\<close>

definition edit_refused :: "edit_result \<Rightarrow> bool" where
  "edit_refused result \<longleftrightarrow> result = EditPanic \<or> (\<exists>t. result = EditAnswer (Inr (outcome_failed t)))
     \<or> (\<exists>t. result = EditAnswer (Inl (new_tool_error t)))"

lemma edit_refused_simps [simp]:
  "edit_refused EditPanic" "edit_refused (EditAnswer (Inr (outcome_failed t)))"
  "edit_refused (EditAnswer (Inl (new_tool_error t)))"
  by (auto simp: edit_refused_def)

lemma arg_str_refused: "arg_str request n = Inl e \<Longrightarrow> edit_refused (EditAnswer (Inl e))"
  by (cases "Option.bind (jget (tr_arguments request) n) as_str") (auto simp: arg_str_def)

lemma resolve_path_refused: "resolve_path env p w = Inl e \<Longrightarrow> edit_refused (EditAnswer (Inl e))"
  by (auto simp: resolve_path_def split: sum.splits)

lemma resolve_path_Inr: "resolve_path env p w = Inr r \<longleftrightarrow> ed_write_path env p w = Inr r"
  by (auto simp: resolve_path_def split: sum.splits)

lemma write_edit_writes:
  "snd (write_edit env resolved original updated every hits w) = snd (ed_write env resolved updated w)"
  by (simp add: write_edit_def split: prod.splits option.splits)

lemma apply_edit_cases:
  assumes "apply_edit env resolved original target new every w = (result, w')"
  shows "(w' = w \<and> edit_refused result)
    \<or> (w' = snd (ed_write env resolved (replace_str target new original) w) \<and> (every \<or> count_matches target original = 1))"
proof -
  have "w' = snd (apply_edit env resolved original target new every w)"
    using assms by simp
  then show ?thesis
    using assms write_edit_writes [of env resolved original "replace_str target new original" every] unfolding apply_edit_def Let_def
    by (auto simp: count_overlapping_def split: if_splits)
qed

text \<open>C19:
  an edit that is not applied writes nothing: whatever the arguments, the file and the moment of a
  cancellation, the tool either leaves the world as it was and answers with a refusal, or hands the file
  system one write, whose text is the original with the asked change - at the one match, with the text
  before and after it untouched, unless every match was asked for.\<close>

theorem edit_writes_only_the_edit:
  assumes "edit_execute env request w = (result, w')"
  shows "(w' = w \<and> edit_refused result)
    \<or> (\<exists>path target new resolved original. arg_str request ''path'' = Inr path \<and> arg_str request ''find'' = Inr target
        \<and> arg_str request ''replace'' = Inr new \<and> ed_write_path env path w = Inr resolved \<and> ed_read env resolved w = Inr original
        \<and> w' = snd (ed_write env resolved (replace_str target new original) w)
        \<and> (arg_bool request ''replace_all'' False
           \<or> (\<exists>before after. original = before @ target @ after \<and> replace_str target new original = before @ new @ after)))"
proof (cases "\<exists>path target new. arg_str request ''path'' = Inr path \<and> arg_str request ''find'' = Inr target
    \<and> arg_str request ''replace'' = Inr new")
  case False
  then have "w' = w \<and> edit_refused result"
    using assms arg_str_refused [of request] unfolding edit_execute_def
    by (cases "arg_str request ''path''"; cases "arg_str request ''find''"; cases "arg_str request ''replace''") auto
  then show ?thesis
    by simp
next
  case True
  then obtain path target new where args: "arg_str request ''path'' = Inr path" "arg_str request ''find'' = Inr target"
    "arg_str request ''replace'' = Inr new"
    by blast
  consider "w' = w" "edit_refused result" | resolved original where "ed_write_path env path w = Inr resolved"
    "ed_read env resolved w = Inr original"
    "apply_edit env resolved original target new (arg_bool request ''replace_all'' False) w = (result, w')"
    using assms unfolding edit_execute_def args bind_res.simps
    by (auto simp: resolve_path_refused resolve_path_Inr split: if_splits sum.splits)
  then show ?thesis
  proof cases
    case 2
    show ?thesis
      using apply_edit_cases [OF 2(3)] replace_str_unique [of target original new] args 2(1,2) by blast
  qed simp
qed

text \<open>An edit tool over one file.\<close>

definition sample_edit_env :: "string edit_env" where
  "sample_edit_env =
     \<lparr> ed_write_path = (\<lambda>p _. Inr p), ed_exists = (\<lambda>_ _. True), ed_read = (\<lambda>_ w. Inr w),
       ed_write = (\<lambda>_ t _. (None, t)), ed_cancelled = (\<lambda>_ _. False), ed_elapsed_ms = (\<lambda>_. 0), ed_debug = False \<rparr>"

definition sample_edit :: "string \<Rightarrow> string \<Rightarrow> bool \<Rightarrow> tool_request" where
  "sample_edit target new every =
     \<lparr> tr_call_id = ''c'', tr_name = ''edit'', tr_arguments = JObj [(''find'', JStr target), (''path'', JStr ''f''),
         (''replace'', JStr new), (''replace_all'', JBool every)] \<rparr>"

lemma sample_arguments:
  "arg_str (sample_edit target new every) ''path'' = Inr ''f''" "arg_str (sample_edit target new every) ''find'' = Inr target"
  "arg_str (sample_edit target new every) ''replace'' = Inr new" "arg_bool (sample_edit target new every) ''replace_all'' d = every"
  by (simp_all add: arg_str_def arg_bool_def sample_edit_def)

lemma sample_edit_runs:
  "snd (edit_execute sample_edit_env (sample_edit ''ab'' ''c'' False) ''xaby'') = ''xcy''"
  by (simp add: edit_execute_def sample_arguments resolve_path_def sample_edit_env_def apply_edit_def write_edit_def
      count_overlapping_def count_matches.simps replace_str.simps)

theorem edit_writes_only_the_edit_witness:
  "\<exists>before after. ''xaby'' = before @ ''ab'' @ after \<and> ''xcy'' = before @ ''c'' @ after"
proof -
  obtain result w' where run: "edit_execute sample_edit_env (sample_edit ''ab'' ''c'' False) ''xaby'' = (result, w')"
    by fastforce
  then have w': "w' = ''xcy''"
    using sample_edit_runs by simp
  from edit_writes_only_the_edit [OF run] show ?thesis
    unfolding w' by (auto simp: sample_arguments sample_edit_env_def)
qed

text \<open>C20:
  an interrupted edit is never misreported: when the file holds the edited text, reconciliation does not
  say that nothing was changed, and when it still holds the original it does not say that the edit was
  made.\<close>

theorem edit_reconciliation_honest:
  assumes "arg_str request ''path'' = Inr path" "arg_str request ''find'' = Inr target" "arg_str request ''replace'' = Inr new"
    and "ed_write_path env path w = Inr resolved" "ed_exists env resolved w" "0 < count_overlapping original target"
  shows "(ed_read env resolved w = Inr (replace_str target new original) \<longrightarrow>
        (\<forall>details. edit_reconcile env request w \<noteq> Inr (Unmodified details)))
    \<and> (ed_read env resolved w = Inr original \<longrightarrow>
        (\<forall>details. edit_reconcile env request w \<noteq> Inr (Committed details)))"
proof -
  have target: "target \<noteq> []" "0 < count_matches target original"
    using assms(6) by (auto simp: count_overlapping_def split: if_splits)
  have "contains_str (replace_str target new original) new" "contains_str original target"
    using replace_str_contains [OF target(2)] count_matches_zero [OF target(1), of original] target(2)
    by (auto simp: contains_str_sublist)
  then show ?thesis
    using assms(1-5) by (auto simp: edit_reconcile_def resolve_path_def judge_content_def Let_def split: if_splits)
qed

theorem edit_reconciliation_honest_witness:
  "\<forall>details. edit_reconcile sample_edit_env (sample_edit ''ab'' ''c'' False) ''xcy'' \<noteq> Inr (Unmodified details)"
proof -
  have hits: "0 < count_overlapping ''xaby'' ''ab''" and new: "replace_str ''ab'' ''c'' ''xaby'' = ''xcy''"
    by (simp_all add: count_overlapping_def count_matches.simps replace_str.simps)
  have "ed_write_path sample_edit_env ''f'' ''xcy'' = Inr ''f''" "ed_exists sample_edit_env ''f'' ''xcy''"
    "ed_read sample_edit_env ''f'' ''xcy'' = Inr ''xcy''"
    by (simp_all add: sample_edit_env_def)
  then show ?thesis
    using edit_reconciliation_honest [OF sample_arguments(1-3) _ _ hits, of sample_edit_env "''xcy''" "''f''" "''c''" False] new
    by auto
qed



end
