(* ===== verification/Write_Tool.thy ===== *)
theory Write_Tool
  imports Edit_Tool
begin

text \<open>
  \<open>crates/rupi-tools/src/write.rs\<close>: the tool that creates or replaces a file. It answers with the list
  of its operations on the file system, in order; a crash is a prefix of it, so that the claim of an
  atomic replacement can be stated. Which operations fail, and with what text, is a parameter.
\<close>

section \<open>The file system\<close>

text \<open>A path is its parent and its file name, where it has one.\<close>

type_synonym fs_path = "string \<times> string option"

datatype fs_op =
  MakeParents fs_path
| CreateNew fs_path
| WriteAll fs_path string
| SyncAll fs_path
| RemoveFile fs_path
| RenameFile fs_path fs_path

type_synonym files = "fs_path \<rightharpoonup> string"

fun apply_op :: "fs_op \<Rightarrow> files \<Rightarrow> files" where
  "apply_op (MakeParents p) fs = fs"
| "apply_op (CreateNew p) fs = fs(p \<mapsto> [])"
| "apply_op (WriteAll p t) fs = fs(p \<mapsto> t)"
| "apply_op (SyncAll p) fs = fs"
| "apply_op (RemoveFile p) fs = fs(p := None)"
| "apply_op (RenameFile a b) fs = (fs(b := fs a))(a := None)"

definition apply_ops :: "fs_op list \<Rightarrow> files \<Rightarrow> files" where
  "apply_ops ops fs = fold apply_op ops fs"

lemma apply_ops_simps [simp]:
  "apply_ops [] fs = fs" "apply_ops (x # ops) fs = apply_ops ops (apply_op x fs)"
  by (simp_all add: apply_ops_def)

section \<open>The tool\<close>

text \<open>
  \<open>wr_fails\<close> is the error of an operation, \<open>wr_partial\<close> what a failed write leaves in the temporary
  file, \<open>wr_size\<close> the length of the file that is replaced.
\<close>

record write_env =
  wr_write_path :: "string \<Rightarrow> string + fs_path"
  wr_has_parent :: "fs_path \<Rightarrow> bool"
  wr_display :: "fs_path \<Rightarrow> string"
  wr_size :: "fs_path \<Rightarrow> u64 option"
  wr_pid :: nat
  wr_nanos :: nat
  wr_fails :: "fs_op \<Rightarrow> string option"
  wr_partial :: string
  wr_cancelled :: "nat \<Rightarrow> bool"
  wr_elapsed_ms :: u64

type_synonym write_answer = "fs_op list \<times> (tool_error + tool_outcome)"

definition write_metadata :: tool_metadata where
  "write_metadata = mutating_metadata ''write'' (''Create or replace a file with exact contents.'') True"

definition append_refused :: tool_error where
  "append_refused = new_tool_error ''write: append is a separate non-idempotent tool; call 'append' instead''"

definition asks_append :: "tool_request \<Rightarrow> bool" where
  "asks_append request \<longleftrightarrow> jget (tr_arguments request) ''append'' \<noteq> None"

definition write_target :: "write_env \<Rightarrow> string \<Rightarrow> tool_error + fs_path" where
  "write_target env path = (case wr_write_path env path of Inl e \<Rightarrow> Inl (new_tool_error e) | Inr p \<Rightarrow> Inr p)"

definition write_preflight :: "write_env \<Rightarrow> tool_request \<Rightarrow> tool_error option" where
  "write_preflight env request =
     (if asks_append request then Some append_refused
      else case bind_res (arg_str request ''path'') (write_target env) of Inl e \<Rightarrow> Some e | Inr _ \<Rightarrow> None)"

definition temp_path_for :: "write_env \<Rightarrow> fs_path \<Rightarrow> fs_path" where
  "temp_path_for env target =
     (fst target, Some (''.'' @ unwrap_or ''file'' (snd target) @ ''.'' @ show_nat (wr_pid env) @ ''.''
        @ show_nat (wr_nanos env) @ ''.tmp''))"

definition write_failed :: "string \<Rightarrow> tool_error + tool_outcome" where
  "write_failed e = Inl (tool_error_after_start (''write: '' @ e))"

definition wrote_text :: "write_env \<Rightarrow> fs_path \<Rightarrow> string \<Rightarrow> u64 option \<Rightarrow> string" where
  "wrote_text env resolved contents existing =
     ''wrote '' @ show_nat (length contents) @ '' bytes to '' @ quote_text (wr_display env resolved)
     @ (case existing of Some n \<Rightarrow> '' (replaced a '' @ show_nat n @ '' byte file)'' | None \<Rightarrow> '' (created)'')
     @ '' [in '' @ show_nat (wr_elapsed_ms env) @ '' ms]''"

text \<open>
  The contents go to a temporary file beside the target, which is then renamed over it. A failed write
  and a failed rename remove the temporary file, a failed sync leaves it.
\<close>

definition replace_file :: "write_env \<Rightarrow> fs_path \<Rightarrow> string \<Rightarrow> write_answer" where
  "replace_file env resolved contents =
     (let temp = temp_path_for env resolved; written = [CreateNew temp, WriteAll temp contents]
      in case wr_fails env (CreateNew temp) of
           Some e \<Rightarrow> ([], write_failed e)
         | None \<Rightarrow>
          (case wr_fails env (WriteAll temp contents) of
             Some e \<Rightarrow> ([CreateNew temp, WriteAll temp (wr_partial env), RemoveFile temp], write_failed e)
           | None \<Rightarrow>
            (case wr_fails env (SyncAll temp) of
               Some e \<Rightarrow> (written, write_failed e)
             | None \<Rightarrow>
               if wr_cancelled env 2
               then (written @ [SyncAll temp, RemoveFile temp], Inr (outcome_unknown (''write of ''
                      @ quote_text (wr_display env resolved) @ '' was interrupted before replacement; inspect the target'')))
               else case wr_fails env (RenameFile temp resolved) of
                      Some e \<Rightarrow> (written @ [SyncAll temp, RemoveFile temp], write_failed e)
                    | None \<Rightarrow>
                        (written @ [SyncAll temp, RenameFile temp resolved], Inr (
                           if wr_cancelled env 3
                           then outcome_unknown (''write of '' @ quote_text (wr_display env resolved)
                             @ '' completed at the filesystem boundary but the caller was interrupted; inspect before retrying'')
                           else outcome_succeeded (wrote_text env resolved contents (wr_size env resolved)))))))"

definition write_execute :: "write_env \<Rightarrow> tool_request \<Rightarrow> write_answer" where
  "write_execute env request =
     (case bind_res (arg_str request ''path'') (\<lambda>path. bind_res (arg_str request ''contents'') (\<lambda>contents.
           if asks_append request then Inl append_refused
           else bind_res (write_target env path) (\<lambda>resolved. Inr (resolved, contents)))) of
        Inl e \<Rightarrow> ([], Inl e)
      | Inr (resolved, contents) \<Rightarrow>
          if wr_cancelled env 1 then ([], Inr (outcome_failed ''write: cancelled before writing''))
          else if wr_has_parent env resolved
          then (case wr_fails env (MakeParents resolved) of
                  Some e \<Rightarrow> ([], Inl (new_tool_error (''write: cannot create parent: '' @ e)))
                | None \<Rightarrow> (case replace_file env resolved contents of (ops, r) \<Rightarrow> (MakeParents resolved # ops, r)))
          else replace_file env resolved contents)"

text \<open>\<open>reading\<close> is what the target holds, or the error of reading it; \<open>None\<close> when it does not exist.\<close>

definition write_reconcile ::
  "write_env \<Rightarrow> (fs_path \<Rightarrow> (string + string) option) \<Rightarrow> tool_request \<Rightarrow> tool_error + reconciliation_status" where
  "write_reconcile env reading request =
     bind_res (arg_str request ''path'') (\<lambda>path. bind_res (arg_str request ''contents'') (\<lambda>contents.
     bind_res (write_target env path) (\<lambda>resolved.
       Inr (let named = ''target file '' @ quote_text path
            in case reading resolved of
                 None \<Rightarrow> Unmodified (named @ '' does not exist'')
               | Some (Inl e) \<Rightarrow> RequiresManualInspection (''cannot read target file '' @ quote_text path @ '': '' @ e)
               | Some (Inr bytes) \<Rightarrow>
                   (if bytes = contents then Committed (named @ '' contains exact requested contents'')
                    else Diverged (named @ '' exists with differing contents ('' @ show_nat (length bytes)
                      @ '' bytes vs expected '' @ show_nat (length contents) @ '' bytes)''))))))"

section \<open>Atomic replacement\<close>

lemma temp_path_differs: "temp_path_for env target \<noteq> target" "target \<noteq> temp_path_for env target"
proof -
  have "length (''.'' @ n @ ''.'' @ m) \<noteq> length n" for n m :: string
    by simp
  then have "''.'' @ n @ ''.'' @ m \<noteq> n" for n m :: string
    by metis
  then show "temp_path_for env target \<noteq> target" "target \<noteq> temp_path_for env target"
    by (cases target; cases "snd target"; force simp: temp_path_for_def unwrap_or_def)+
qed

text \<open>Where the file ends up, and where it can be in between.\<close>

definition replaces :: "fs_path \<Rightarrow> fs_path \<Rightarrow> string \<Rightarrow> fs_op list \<Rightarrow> bool" where
  "replaces temp resolved contents ops \<longleftrightarrow>
     (\<forall>k fs p. p \<noteq> temp \<longrightarrow> apply_ops (take k ops) fs p = fs p
        \<or> p = resolved \<and> apply_ops (take k ops) fs p = Some contents)"

lemma replace_file_replaces:
  "replaces (temp_path_for env resolved) resolved contents (fst (replace_file env resolved contents))"
  unfolding replaces_def replace_file_def Let_def
  by (auto simp: take_Cons' split: option.split)

lemma replace_file_result:
  assumes "replace_file env resolved contents = (ops, r)"
  shows "r = Inr t \<Longrightarrow> to_state t = Succeeded \<Longrightarrow> apply_ops ops fs resolved = Some contents"
    "r = Inr t \<Longrightarrow> to_state t \<noteq> Failed" "r = Inl e \<Longrightarrow> te_started e"
  using assms temp_path_differs [where env = env and target = resolved] unfolding replace_file_def Let_def write_failed_def
  by (auto simp: outcome_unknown_def outcome_succeeded_def tool_error_after_start_def split: option.splits if_splits)

text \<open>C22:
  a file is replaced atomically: wherever the process stops, whatever operation of the file system fails
  and whenever the call is cancelled, every path but the temporary one holds what it held before, or is
  the target and holds exactly the requested contents. A success means that the target holds them; a
  refusal, or an error before the start, means that nothing was touched.\<close>

theorem write_is_atomic:
  assumes "arg_str request ''contents'' = Inr contents" "arg_str request ''path'' = Inr path" "wr_write_path env path = Inr resolved"
    and "write_execute env request = (ops, r)"
  shows "(\<forall>k fs p. p \<noteq> temp_path_for env resolved \<longrightarrow> apply_ops (take k ops) fs p = fs p
        \<or> p = resolved \<and> apply_ops (take k ops) fs p = Some contents)
    \<and> (\<forall>fs t. r = Inr t \<longrightarrow> to_state t = Succeeded \<longrightarrow> apply_ops ops fs resolved = Some contents)
    \<and> ((\<exists>t. r = Inr t \<and> to_state t = Failed) \<or> (\<exists>e. r = Inl e \<and> \<not> te_started e) \<longrightarrow> ops = [])"
proof -
  obtain ops1 r1 where run: "replace_file env resolved contents = (ops1, r1)"
    by fastforce
  have steps: "replaces (temp_path_for env resolved) resolved contents ops1"
    using replace_file_replaces [of env resolved contents] run by simp
  consider "ops = []" "\<And>t. r = Inr t \<Longrightarrow> to_state t \<noteq> Succeeded" | "ops = ops1" "r = r1" | "ops = MakeParents resolved # ops1" "r = r1"
    using assms(4) unfolding write_execute_def assms(1,2) bind_res.simps
    by (auto simp: write_target_def assms(3) run outcome_failed_def split: if_splits option.splits)
  then show ?thesis
  proof cases
    case 2
    with steps replace_file_result [OF run] show ?thesis
      unfolding replaces_def by blast
  next
    case 3
    have "apply_ops (take k ops) fs = apply_ops (take (k - 1) ops1) fs" for k fs
      using 3(1) by (cases k) simp_all
    with 3 steps replace_file_result [OF run] show ?thesis
      unfolding replaces_def by (metis apply_op.simps(1) apply_ops_simps(2))
  qed simp
qed

definition sample_write_env :: write_env where
  "sample_write_env =
     \<lparr> wr_write_path = (\<lambda>p. Inr (''/w'', Some p)), wr_has_parent = (\<lambda>_. True), wr_display = (\<lambda>_. ''f''),
       wr_size = (\<lambda>_. None), wr_pid = 7, wr_nanos = 2, wr_fails = (\<lambda>_. None), wr_partial = [],
       wr_cancelled = (\<lambda>_. False), wr_elapsed_ms = 0 \<rparr>"

lemma sample_write_fields [simp]:
  "wr_fails sample_write_env x = None" "wr_cancelled sample_write_env k = False" "wr_has_parent sample_write_env p"
  "wr_write_path sample_write_env t = Inr (''/w'', Some t)"
  by (simp_all add: sample_write_env_def)

definition sample_write :: tool_request where
  "sample_write = \<lparr> tr_call_id = ''c'', tr_name = ''write'', tr_arguments = JObj [(''contents'', JStr ''new''), (''path'', JStr ''f'')] \<rparr>"

theorem write_is_atomic_witness:
  "apply_ops (take 3 (fst (write_execute sample_write_env sample_write))) [(''/w'', Some ''f'') \<mapsto> ''old''] (''/w'', Some ''f'') = Some ''old''
    \<and> apply_ops (fst (write_execute sample_write_env sample_write)) [(''/w'', Some ''f'') \<mapsto> ''old''] (''/w'', Some ''f'') = Some ''new''"
proof -
  let ?temp = "(''/w'', Some (''.f.'' @ show_nat 7 @ ''.'' @ show_nat 2 @ ''.tmp''))"
  have args: "arg_str sample_write ''contents'' = Inr ''new''" "arg_str sample_write ''path'' = Inr ''f''"
    "wr_write_path sample_write_env ''f'' = Inr (''/w'', Some ''f'')"
    by (simp_all add: arg_str_def sample_write_def sample_write_env_def)
  have temp: "temp_path_for sample_write_env (''/w'', Some ''f'') = ?temp"
    by (simp add: temp_path_for_def sample_write_env_def unwrap_or_def)
  have run: "fst (write_execute sample_write_env sample_write)
      = [MakeParents (''/w'', Some ''f''), CreateNew ?temp, WriteAll ?temp ''new'', SyncAll ?temp, RenameFile ?temp (''/w'', Some ''f'')]"
    and finished: "\<exists>t. snd (write_execute sample_write_env sample_write) = Inr t \<and> to_state t = Succeeded"
    unfolding write_execute_def args bind_res.simps
    by (simp_all add: asks_append_def sample_write_def write_target_def replace_file_def temp Let_def outcome_succeeded_def)
  from write_is_atomic [OF args, of "fst (write_execute sample_write_env sample_write)" "snd (write_execute sample_write_env sample_write)"]
  have "apply_ops (fst (write_execute sample_write_env sample_write)) fs (''/w'', Some ''f'') = Some ''new''" for fs
    using finished by auto
  then show ?thesis
    by (auto simp: run eval_nat_numeral)
qed

end
