(* ===== verification/Read_Tool.thy ===== *)
theory Read_Tool
  imports Edit_Tool Tool_Registry Sse_Framing
begin

text \<open>
  \<open>crates/rupi-tools/src/read.rs\<close>: the tool that shows a window of a file, line by line over the
  bounded reader. The resolution of the path, the bytes of the file, the cancellation and the clock
  are parameters. The loop ends because every line takes bytes from the reader.
\<close>

section \<open>Lossy decoding\<close>

text \<open>
  \<open>String::from_utf8_lossy\<close>: bytes that are no character become the replacement character, one for
  every longest start of a character that is broken off.
\<close>

definition replacement_char :: string where
  "replacement_char = [CHR 0xEF, CHR 0xBF, CHR 0xBD]"

definition three_start :: "nat \<Rightarrow> nat \<Rightarrow> bool" where
  "three_start a b \<longleftrightarrow> three_bytes a b 128"

definition four_start :: "nat \<Rightarrow> nat \<Rightarrow> bool" where
  "four_start a b \<longleftrightarrow> four_bytes a b 128 128"

fun broken_len :: "string \<Rightarrow> nat" where
  "broken_len (a # b # c # s) =
     (if four_start (byte a) (byte b) then (if cont_byte (byte c) then 3 else 2)
      else if three_start (byte a) (byte b) then 2 else 1)"
| "broken_len [a, b] = (if four_start (byte a) (byte b) \<or> three_start (byte a) (byte b) then 2 else 1)"
| "broken_len _ = 1"

lemma broken_len_pos: "0 < broken_len s"
  by (cases s rule: broken_len.cases) auto

function from_utf8_lossy :: "string \<Rightarrow> string" where
  "from_utf8_lossy s =
     (if s = [] then []
      else if char_len s = 0 then replacement_char @ from_utf8_lossy (drop (broken_len s) s)
      else take (char_len s) s @ from_utf8_lossy (drop (char_len s) s))"
  by pat_completeness auto
termination
  by (relation "measure length") (auto simp: broken_len_pos)

declare from_utf8_lossy.simps [simp del]

lemma lossy_valid: "valid_utf8 s \<Longrightarrow> from_utf8_lossy s = s"
proof (induction s rule: from_utf8_lossy.induct)
  case (1 s)
  show ?case
  proof (cases "s = []")
    case False
    with "1.prems" have "char_len s \<noteq> 0" "valid_utf8 (drop (char_len s) s)"
      by (subst (asm) valid_utf8.simps; simp split: if_splits)+
    with False "1.IH" show ?thesis
      by (subst from_utf8_lossy.simps) simp
  qed (simp add: from_utf8_lossy.simps)
qed

section \<open>Progress within bounds\<close>

record bounded_progress =
  bp_budget :: usize
  bp_streamed :: usize
  bp_truncated :: bool
  bp_timed_out :: bool

definition new_bounded_progress :: "usize \<Rightarrow> bounded_progress" where
  "new_bounded_progress budget = \<lparr> bp_budget = budget, bp_streamed = 0, bp_truncated = False, bp_timed_out = False \<rparr>"

definition floor_text :: "string \<Rightarrow> usize \<Rightarrow> string" where
  "floor_text text bytes = (if length text \<le> bytes then text else take (floor_loop text bytes) text)"

text \<open>Whether the caller may go on, the chunk that is emitted, and the sink afterwards.\<close>

definition send_progress ::
  "bool \<Rightarrow> string \<Rightarrow> bounded_progress \<Rightarrow> bool \<times> string option \<times> bounded_progress" where
  "send_progress expired text bp =
     (let remaining = bp_budget bp - bp_streamed bp
      in if text = [] then (True, None, bp)
         else if expired then (False, None, bp\<lparr>bp_timed_out := True\<rparr>)
         else if remaining = 0 then (False, None, bp\<lparr>bp_truncated := True\<rparr>)
         else let slice = floor_text text remaining;
                  cut = (bp_truncated bp \<or> remaining < length text)
              in (\<not> cut, Some slice, bp\<lparr>bp_streamed := bp_streamed bp + length slice, bp_truncated := cut\<rparr>))"

section \<open>The tool\<close>

text \<open>
  \<open>rn_cancelled k\<close> is the answer to the \<open>k\<close>-th look at the cancellation, \<open>rn_expired n\<close> to the look at
  the clock behind line \<open>n\<close>, with 0 for the one before the text is sent.
\<close>

record read_env =
  rn_read_path :: "string \<Rightarrow> string + string"
  rn_open :: "string \<Rightarrow> string + reader"
  rn_cancelled :: "nat \<Rightarrow> bool"
  rn_expired :: "nat \<Rightarrow> bool"
  rn_max_line_bytes :: usize

definition default_limit :: u64 where
  "default_limit = 2000"

definition max_limit :: u64 where
  "max_limit = 20000"

definition read_metadata :: tool_metadata where
  "read_metadata = read_only_metadata ''read''
     ''Read a text file with line numbers. Use offset and limit for large files.''"

definition read_target :: "read_env \<Rightarrow> string \<Rightarrow> tool_error + string" where
  "read_target env path = (case rn_read_path env path of Inl e \<Rightarrow> Inl (new_tool_error e) | Inr p \<Rightarrow> Inr p)"

definition read_preflight :: "read_env \<Rightarrow> tool_request \<Rightarrow> tool_error option" where
  "read_preflight env request =
     (case bind_res (arg_str request ''path'') (read_target env) of Inl e \<Rightarrow> Some e | Inr _ \<Rightarrow> None)"

definition arg_u64 :: "tool_request \<Rightarrow> string \<Rightarrow> u64 option" where
  "arg_u64 request name = Option.bind (jget (tr_arguments request) name) as_u64"

definition read_offset :: "tool_request \<Rightarrow> usize" where
  "read_offset request = max (unwrap_or 1 (arg_u64 request ''offset'')) 1"

definition read_limit :: "tool_request \<Rightarrow> u64" where
  "read_limit request = min (max (unwrap_or default_limit (arg_u64 request ''limit'')) 1) max_limit"

definition line_limit :: "read_env \<Rightarrow> usize" where
  "line_limit env = max (sat_add u64_max (rn_max_line_bytes env) 4) 1"

record read_state =
  rs_out :: string
  rs_line_number :: nat
  rs_emitted :: nat
  rs_by_limit :: bool
  rs_early :: bool
  rs_binary :: "nat option"

definition new_read_state :: read_state where
  "new_read_state = \<lparr> rs_out = [], rs_line_number = 0, rs_emitted = 0, rs_by_limit = False, rs_early = False, rs_binary = None \<rparr>"

definition pad_number :: "nat \<Rightarrow> string" where
  "pad_number n = replicate (5 - length (show_nat n)) (CHR '' '') @ show_nat n"

definition line_cut_mark :: string where
  "line_cut_mark = [CHR 0xE2, CHR 0x80, CHR 0xA6] @ ''[line truncated]''"

definition display_line :: "read_env \<Rightarrow> nat \<Rightarrow> bool \<Rightarrow> string \<Rightarrow> string" where
  "display_line env n by_reader text =
     (let shown = trim_eol text;
          capped = (by_reader \<or> rn_max_line_bytes env < length shown);
          cut = floor_loop shown (min (rn_max_line_bytes env) (length shown))
      in pad_number n @ '': '' @ (if capped then take cut shown else shown)
         @ (if capped then line_cut_mark else []) @ [nl_char])"

text \<open>One line; \<open>True\<close> stops the reading.\<close>

definition read_step :: "read_env \<Rightarrow> nat \<Rightarrow> nat \<Rightarrow> bounded_line \<Rightarrow> read_state \<Rightarrow> bool \<times> read_state" where
  "read_step env offset limit line st =
     (let n = rs_line_number st + 1;
          st = st\<lparr>rs_line_number := n\<rparr>;
          text = from_utf8_lossy (line_bytes line)
      in if CHR 0x00 \<in> set text then (True, st\<lparr>rs_binary := Some n\<rparr>)
         else if n < offset then (False, st)
         else if limit \<le> rs_emitted st then (True, st\<lparr>rs_by_limit := True\<rparr>)
         else let st = st\<lparr>rs_out := rs_out st @ display_line env n (is_truncated line) text, rs_emitted := rs_emitted st + 1\<rparr>
              in if rn_expired env n then (True, st\<lparr>rs_early := True\<rparr>) else (False, st))"

function read_lines :: "read_env \<Rightarrow> nat \<Rightarrow> nat \<Rightarrow> read_state \<Rightarrow> reader \<Rightarrow> tool_error + read_state" where
  "read_lines env offset limit st r =
     (if rn_cancelled env (rs_line_number st + 1) then Inr (st\<lparr>rs_early := True\<rparr>)
      else case read_bounded_line (line_limit env) Truncate r of
             (Inl e, _) \<Rightarrow> Inl (new_tool_error (''read: io error: '' @ snd e))
           | (Inr None, _) \<Rightarrow> Inr st
           | (Inr (Some line), r) \<Rightarrow>
               (case read_step env offset limit line st of
                  (True, st) \<Rightarrow> Inr st
                | (False, st) \<Rightarrow> read_lines env offset limit st r))"
  by pat_completeness auto
termination
  by (relation "measure (\<lambda>(env, offset, limit, st, r). reader_size r)")
    (auto simp: read_bounded_line_def new_line_reader_def split: prod.splits dest!: read_line_weight)

declare read_lines.simps [simp del]

definition read_notes :: "nat \<Rightarrow> nat \<Rightarrow> read_state \<Rightarrow> string list" where
  "read_notes offset limit st =
     (if rs_by_limit st
      then [''stopped at '' @ show_nat limit @ '' lines; re-read with offset '' @ show_nat (offset + limit)] else [])
     @ (if rs_early st
        then [''stopped before completing the read at line '' @ show_nat (rs_line_number st)
              @ ''; re-read with offset '' @ show_nat (rs_line_number st + 1)] else [])
     @ (if rs_line_number st = 0 then [''file is empty''] else [])"

definition read_text :: "nat \<Rightarrow> nat \<Rightarrow> read_state \<Rightarrow> string" where
  "read_text offset limit st =
     (let notes = read_notes offset limit st
      in if notes = [] then rs_out st else rs_out st @ [nl_char] @ ''['' @ join ''; '' notes @ '']'' @ [nl_char])"

text \<open>The outcome, and the chunk of progress that is emitted.\<close>

definition read_execute :: "read_env \<Rightarrow> tool_request \<Rightarrow> (tool_error + tool_outcome) \<times> string option" where
  "read_execute env request =
     (case bind_res (arg_str request ''path'') (read_target env) of
        Inl e \<Rightarrow> (Inl e, None)
      | Inr resolved \<Rightarrow>
          if rn_cancelled env 0 then (Inr (outcome_failed ''read: cancelled before reading''), None)
          else case rn_open env resolved of
                 Inl e \<Rightarrow> (Inl (new_tool_error (''read: cannot open '' @ quote_text resolved @ '': '' @ e)), None)
               | Inr r \<Rightarrow>
                   (case read_lines env (read_offset request) (read_limit request) new_read_state r of
                      Inl e \<Rightarrow> (Inl e, None)
                    | Inr st \<Rightarrow>
                        (case rs_binary st of
                           Some n \<Rightarrow>
                             (Inr (outcome_failed (quote_text resolved @ '' looks binary: a NUL byte appeared at line ''
                                @ show_nat n @ ''. Read a text file, or use a tool that handles binaries.'')), None)
                         | None \<Rightarrow>
                             let out = read_text (read_offset request) (read_limit request) st
                             in (Inr (outcome_succeeded out),
                                 fst (snd (send_progress (rn_expired env 0) out (new_bounded_progress 65536)))))))"

section \<open>The window\<close>

lemma line_pass_truncate: "line_pass limit Reject b lr = Inr y \<Longrightarrow> line_pass limit Truncate b lr = Inr y"
  by (auto simp: line_pass_def Let_def split: if_splits)

lemma read_loop_truncate:
  "read_loop limit Reject lr r = (Inr x, lr', r') \<Longrightarrow> read_loop limit Truncate lr r = (Inr x, lr', r')"
proof (induction limit Reject lr r rule: read_loop.induct)
  case (1 limit lr r)
  obtain a r1 where fill: "fill_buf r = (a, r1)"
    by fastforce
  show ?case
  proof (cases a)
    case (Inl e)
    with "1.prems" fill show ?thesis
      by (subst (asm) read_loop.simps) simp
  next
    case (Inr buffer)
    show ?thesis
    proof (cases "buffer = []")
      case False
      then obtain lr1 n fin where pass: "line_pass limit Reject buffer lr = Inr (lr1, n, fin)"
        using "1.prems" fill Inr by (subst (asm) read_loop.simps) (auto split: sum.splits)
      have rest: "\<not> fin \<Longrightarrow> read_loop limit Reject lr1 (consume n r1) = (Inr x, lr', r')"
        using "1.prems" fill Inr False pass by (subst (asm) read_loop.simps) simp
      from "1.hyps" [OF fill [symmetric] Inr False pass refl refl _ rest] "1.prems" fill Inr False pass
        line_pass_truncate [OF pass]
      show ?thesis
        by (subst read_loop.simps, subst (asm) (2) read_loop.simps) (cases fin; simp)
    qed (use "1.prems" fill Inr in \<open>subst read_loop.simps, subst (asm) read_loop.simps, simp\<close>)
  qed
qed

lemma read_next_line:
  assumes "steady r" "pending r = a @ nl_char # rest" "nl_char \<notin> set a" "length a \<le> limit" "0 < limit"
  shows "\<exists>r'. read_bounded_line limit Truncate r = (Inr (Some (Complete (a @ [nl_char]))), r') \<and> pending r' = rest \<and> steady r'"
  using read_line_line [OF assms] assms(5) by (auto simp: read_line_def read_bounded_line_def dest: read_loop_truncate)

lemma read_no_line:
  assumes "steady r" "pending r = []" "0 < limit"
  shows "\<exists>r'. read_bounded_line limit Truncate r = (Inr None, r')"
  using read_line_end [OF assms] assms(3) by (auto simp: read_line_def read_bounded_line_def dest: read_loop_truncate)

text \<open>A line the tool shows as it is, and the lines of a window with their numbers.\<close>

definition plain_line :: "read_env \<Rightarrow> string \<Rightarrow> bool" where
  "plain_line env l \<longleftrightarrow> valid_utf8 l \<and> nl_char \<notin> set l \<and> CHR 0x00 \<notin> set l \<and> (l \<noteq> [] \<longrightarrow> last l \<noteq> CHR 0x0D)
     \<and> length l \<le> rn_max_line_bytes env"

fun rows :: "nat \<Rightarrow> string list \<Rightarrow> string" where
  "rows n [] = []"
| "rows n (l # ls) = pad_number n @ '': '' @ l @ [nl_char] @ rows (n + 1) ls"

lemma rows_append: "rows n (xs @ ys) = rows n xs @ rows (n + length xs) ys"
  by (induction xs arbitrary: n) simp_all

lemma plain_trim: "plain_line env l \<Longrightarrow> trim_eol (l @ [nl_char]) = l"
  by (cases l rule: rev_cases) (auto simp: trim_eol_def plain_line_def)

lemma plain_step:
  assumes "plain_line env l" "\<not> rn_expired env (rs_line_number st + 1)" "n = rs_line_number st + 1"
  shows "read_step env offset limit (Complete (l @ [nl_char])) st =
    (if n < offset then (False, st\<lparr>rs_line_number := n\<rparr>)
     else if limit \<le> rs_emitted st then (True, st\<lparr>rs_line_number := n, rs_by_limit := True\<rparr>)
     else (False, st\<lparr>rs_line_number := n, rs_out := rs_out st @ rows n [l], rs_emitted := rs_emitted st + 1\<rparr>))"
proof -
  have "from_utf8_lossy (l @ [nl_char]) = l @ [nl_char]"
    using assms(1) valid_utf8_ascii [of "[nl_char]"]
    by (intro lossy_valid valid_utf8_append) (simp_all add: plain_line_def byte_def)
  then show ?thesis
    using assms plain_trim [OF assms(1)]
    by (auto simp: read_step_def display_line_def plain_line_def is_truncated_def Let_def)
qed

definition window :: "nat \<Rightarrow> nat \<Rightarrow> string list \<Rightarrow> string" where
  "window offset limit ls = rows offset (take limit (drop (offset - 1) ls))"

lemma read_lines_window:
  assumes "\<And>k. \<not> rn_cancelled env k" "\<And>k. \<not> rn_expired env k" "rn_max_line_bytes env \<le> usize_max"
  shows "steady r \<Longrightarrow> pending r = concat (map (\<lambda>l. l @ [nl_char]) ls) \<Longrightarrow> \<forall>l \<in> set ls. plain_line env l \<Longrightarrow>
    \<not> rs_by_limit st \<and> \<not> rs_early st \<and> rs_binary st = None \<Longrightarrow>
    \<exists>st'. read_lines env offset limit st r = Inr st'
      \<and> rs_out st' = rs_out st @ rows (max (rs_line_number st + 1) offset)
           (take (limit - rs_emitted st) (drop (offset - 1 - rs_line_number st) ls))
      \<and> (rs_by_limit st' \<longleftrightarrow> limit - rs_emitted st < length (drop (offset - 1 - rs_line_number st) ls))
      \<and> \<not> rs_early st' \<and> rs_binary st' = None \<and> (rs_line_number st' = 0 \<longleftrightarrow> rs_line_number st = 0 \<and> ls = [])"
proof (induction ls arbitrary: st r)
  case Nil
  moreover have "0 < line_limit env"
    by (simp add: line_limit_def)
  ultimately obtain r' where "read_bounded_line (line_limit env) Truncate r = (Inr None, r')"
    using read_no_line [of r "line_limit env"] by auto
  with Nil.prems assms(1) show ?case
    by (subst read_lines.simps) simp
next
  case (Cons l ls)
  let ?n = "rs_line_number st + 1"
  have l: "plain_line env l" "nl_char \<notin> set l" "length l \<le> line_limit env" "0 < line_limit env"
    using Cons.prems(3) assms(3) by (auto simp: plain_line_def line_limit_def sat_add_def)
  obtain r' where next_line: "read_bounded_line (line_limit env) Truncate r = (Inr (Some (Complete (l @ [nl_char]))), r')"
    and r': "pending r' = concat (map (\<lambda>l. l @ [nl_char]) ls)" "steady r'"
    using read_next_line [OF Cons.prems(1) _ l(2,3,4)] Cons.prems(2) by auto
  note step = plain_step [OF l(1) assms(2) refl, where st = st and offset = offset and limit = limit]
  note IH = Cons.IH [OF r'(2,1)]
  consider "?n < offset" | "\<not> ?n < offset" "limit \<le> rs_emitted st" | "\<not> ?n < offset" "rs_emitted st < limit"
    by linarith
  then show ?case
  proof cases
    case 1
    then have "offset - 1 - rs_line_number st = Suc (offset - 1 - ?n)"
      by simp
    with 1 IH [of "st\<lparr>rs_line_number := ?n\<rparr>"] Cons.prems(3,4) assms(1) next_line step show ?thesis
      by (subst read_lines.simps) (simp add: max_def)
  next
    case 2
    with Cons.prems(4) assms(1) next_line step show ?thesis
      by (subst read_lines.simps) simp
  next
    case 3
    then have "limit - rs_emitted st = Suc (limit - Suc (rs_emitted st))"
      by simp
    with 3 IH [of "st\<lparr>rs_line_number := ?n, rs_out := rs_out st @ rows ?n [l], rs_emitted := rs_emitted st + 1\<rparr>"]
      Cons.prems(3,4) assms(1) next_line step
    show ?thesis
      by (subst read_lines.simps) (simp add: max_def)
  qed
qed

definition window_note :: "nat \<Rightarrow> nat \<Rightarrow> string list \<Rightarrow> string" where
  "window_note offset limit ls =
     (if offset - 1 + limit < length ls
      then [nl_char] @ ''[stopped at '' @ show_nat limit @ '' lines; re-read with offset '' @ show_nat (offset + limit) @ '']'' @ [nl_char]
      else if ls = [] then [nl_char] @ ''[file is empty]'' @ [nl_char] else [])"

text \<open>C23:
  a read shows exactly the window it was asked for: of a file of lines the lines from the offset on,
  numbered as in the file, up to the limit, however the bytes arrive. A note says to go on at the next
  offset exactly when lines are left, and the page read there continues this one: nothing is shown
  twice and nothing is skipped between the two.\<close>

theorem read_shows_window:
  assumes "arg_str request ''path'' = Inr path" "rn_read_path env path = Inr resolved" "rn_open env resolved = Inr r"
    and "steady r" "pending r = concat (map (\<lambda>l. l @ [nl_char]) ls)" "\<forall>l \<in> set ls. plain_line env l"
    and "\<forall>k. \<not> rn_cancelled env k \<and> \<not> rn_expired env k"
    and "rn_max_line_bytes env \<le> usize_max"
  shows "fst (read_execute env request) = Inr (outcome_succeeded
        (window (read_offset request) (read_limit request) ls @ window_note (read_offset request) (read_limit request) ls))
    \<and> (\<forall>k. window (read_offset request) (read_limit request + k) ls
         = window (read_offset request) (read_limit request) ls @ window (read_offset request + read_limit request) k ls)"
proof -
  let ?o = "read_offset request" and ?n = "read_limit request"
  have pos: "1 \<le> ?o" "1 \<le> ?n"
    by (simp_all add: read_offset_def read_limit_def max_limit_def)
  obtain st where st: "read_lines env ?o ?n new_read_state r = Inr st" "rs_out st = window ?o ?n ls"
    "rs_by_limit st \<longleftrightarrow> ?n < length ls - (?o - 1)" "\<not> rs_early st" "rs_binary st = None" "rs_line_number st = 0 \<longleftrightarrow> ls = []"
    using read_lines_window [OF _ _ assms(8) assms(4-6), of new_read_state ?o ?n] assms(7) pos
    by (auto simp: new_read_state_def window_def max_def)
  have "read_text ?o ?n st = window ?o ?n ls @ window_note ?o ?n ls"
    using st pos by (auto simp: read_text_def read_notes_def window_note_def Let_def)
  then have "fst (read_execute env request) = Inr (outcome_succeeded (window ?o ?n ls @ window_note ?o ?n ls))"
    using assms st(1,5) by (simp add: read_execute_def read_target_def Let_def)
  moreover have "window ?o (?n + k) ls = window ?o ?n ls @ window (?o + ?n) k ls" for k
  proof -
    have "take (?n + k) (drop (?o - 1) ls) = take ?n (drop (?o - 1) ls) @ take k (drop (?o + ?n - 1) ls)"
      using pos by (simp only: take_add drop_drop) (simp add: add.commute)
    then show ?thesis
      by (cases "?o - 1 + ?n \<le> length ls") (auto simp: window_def rows_append min_def)
  qed
  ultimately show ?thesis
    by blast
qed

definition sample_file :: reader where
  "sample_file = \<lparr> rd_buffer = [], rd_source = [Inr (''on'' ), Inr (''e'' @ [nl_char] @ ''two'' @ [nl_char]), Inr (''three'' @ [nl_char])] \<rparr>"

definition sample_read_env :: read_env where
  "sample_read_env =
     \<lparr> rn_read_path = (\<lambda>p. Inr p), rn_open = (\<lambda>_. Inr sample_file), rn_cancelled = (\<lambda>_. False), rn_expired = (\<lambda>_. False),
       rn_max_line_bytes = 4096 \<rparr>"

definition sample_read :: tool_request where
  "sample_read = \<lparr> tr_call_id = ''c'', tr_name = ''read'',
     tr_arguments = JObj [(''limit'', JNum (PosInt 1)), (''offset'', JNum (PosInt 2)), (''path'', JStr ''f'')] \<rparr>"

theorem read_shows_window_witness:
  "fst (read_execute sample_read_env sample_read) = Inr (outcome_succeeded
     (''    2: two'' @ [nl_char] @ [nl_char] @ ''[stopped at 1 lines; re-read with offset 3]'' @ [nl_char]))"
proof -
  have "arg_str sample_read ''path'' = Inr ''f''" "rn_read_path sample_read_env ''f'' = Inr ''f''"
    "rn_open sample_read_env ''f'' = Inr sample_file" "steady sample_file"
    "pending sample_file = concat (map (\<lambda>l. l @ [nl_char]) [''one'', ''two'', ''three''])"
    "\<forall>k. \<not> rn_cancelled sample_read_env k \<and> \<not> rn_expired sample_read_env k"
    by (simp_all add: arg_str_def sample_read_def sample_read_env_def sample_file_def steady_def pending_def)
  moreover have "rn_max_line_bytes sample_read_env \<le> usize_max"
    by (simp add: sample_read_env_def u64_max_def)
  moreover have "\<forall>l \<in> set [''one'', ''two'', ''three'']. plain_line sample_read_env l"
    by (simp add: plain_line_def sample_read_env_def valid_utf8_ascii byte_def)
  moreover have shown: "pad_number 2 = ''    2''" "show_nat 1 = ''1''" "show_nat 3 = ''3''" "show_nat (Suc 0) = ''1''"
    by code_simp+
  moreover have "read_offset sample_read = 2" "read_limit sample_read = 1"
    by (simp_all add: read_offset_def read_limit_def arg_u64_def sample_read_def max_limit_def unwrap_or_def)
  ultimately show ?thesis
    using read_shows_window [of sample_read "''f''" sample_read_env "''f''" sample_file "[''one'', ''two'', ''three'']"]
    by (simp add: window_def window_note_def shown)
qed

end
