(* ===== verification/Workspace_Paths.thy ===== *)
theory Workspace_Paths
  imports Edit_Tool
begin

text \<open>
  \<open>crates/rupi-tools/src/paths.rs\<close>: the paths of the file tools, on Unix. An absolute path is the list
  of its components. What the operating system says of a path is a parameter; the property compares it
  with a file system in which links are followed.
\<close>

section \<open>Lexical paths\<close>

type_synonym abs_path = "string list"

datatype path_error = OutsideWorkspace string string | Unresolvable string

definition path_error_text :: "path_error \<Rightarrow> string" where
  "path_error_text e =
     (case e of
        OutsideWorkspace requested resolved \<Rightarrow>
          quote_text requested @ '' resolves to '' @ quote_text resolved @ '', which is outside the workspace root''
      | Unresolvable reason \<Rightarrow> ''cannot resolve path: '' @ reason)"

function split_slash :: "string \<Rightarrow> string list" where
  "split_slash s = (case split_once (CHR ''/'') s of None \<Rightarrow> [s] | Some (a, b) \<Rightarrow> a # split_slash b)"
  by pat_completeness auto
termination
  by (relation "measure length") (auto simp: split_once_Some)

declare split_slash.simps [simp del]

text \<open>\<open>Path::components\<close> but for the root: empty components and dots are dropped.\<close>

definition components :: "string \<Rightarrow> string list" where
  "components s = filter (\<lambda>c. c \<noteq> [] \<and> c \<noteq> ''.'') (split_slash s)"

definition show_path :: "abs_path \<Rightarrow> string" where
  "show_path p = (if p = [] then ''/'' else concat (map (\<lambda>c. CHR ''/'' # c) p))"

definition lexical_absolute :: "string list \<Rightarrow> abs_path" where
  "lexical_absolute cs = rev (foldl (\<lambda>parts c. if c = ''..'' then tl parts else c # parts) [] cs)"

section \<open>The workspace\<close>

record workspace =
  ws_root :: abs_path
  ws_read_outside :: bool
  ws_write_outside :: bool
  ws_search_outside :: bool

datatype lstat = LstatLink | LstatOther | LstatMissing | LstatError string

datatype canonical = Canonical abs_path | CanonicalMissing string | CanonicalError string

record path_env =
  pe_lstat :: "abs_path \<Rightarrow> lstat"
  pe_canonicalize :: "abs_path \<Rightarrow> canonical"
  pe_canonical_root :: "string \<Rightarrow> canonical"
  pe_is_dir :: "abs_path \<Rightarrow> bool"

definition canonical_existing :: "path_env \<Rightarrow> string \<Rightarrow> path_error + abs_path" where
  "canonical_existing env path =
     (case pe_canonical_root env path of
        Canonical p \<Rightarrow> Inr p
      | CanonicalMissing e \<Rightarrow> Inl (Unresolvable (path @ '': '' @ e))
      | CanonicalError e \<Rightarrow> Inl (Unresolvable (path @ '': '' @ e)))"

definition new_workspace :: "path_env \<Rightarrow> string \<Rightarrow> path_error + workspace" where
  "new_workspace env configured =
     bind_res (canonical_existing env configured) (\<lambda>dir.
       if pe_is_dir env dir
       then Inr \<lparr> ws_root = dir, ws_read_outside = False, ws_write_outside = False, ws_search_outside = False \<rparr>
       else Inl (Unresolvable (show_path dir @ '' is not a directory'')))"

definition resolve :: "workspace \<Rightarrow> string \<Rightarrow> path_error + abs_path" where
  "resolve ws requested =
     (if trim requested = [] then Inl (Unresolvable ''empty path'')
      else if take 1 requested = ''/'' then Inr (lexical_absolute (components requested))
      else Inr (lexical_absolute (ws_root ws @ components requested)))"

definition contains_path :: "workspace \<Rightarrow> abs_path \<Rightarrow> bool" where
  "contains_path ws p = prefix (ws_root ws) p"

text \<open>The components below the root, up to the first that does not exist.\<close>

fun inspect_components :: "path_env \<Rightarrow> workspace \<Rightarrow> string \<Rightarrow> abs_path \<Rightarrow> string list \<Rightarrow> path_error option" where
  "inspect_components env ws requested current [] = None"
| "inspect_components env ws requested current (name # rest) =
     (let current = current @ [name]
      in case pe_lstat env current of
           LstatLink \<Rightarrow>
             (case pe_canonicalize env current of
                Canonical target \<Rightarrow>
                  if \<not> contains_path ws target then Some (OutsideWorkspace requested (show_path target))
                  else Some (Unresolvable (''symlink component '' @ quote_text (show_path current) @ '' is not allowed in a confined path''))
              | _ \<Rightarrow> Some (Unresolvable (''symlink component '' @ quote_text (show_path current) @ '' is not allowed in a confined path'')))
         | LstatOther \<Rightarrow> inspect_components env ws requested current rest
         | LstatMissing \<Rightarrow> None
         | LstatError e \<Rightarrow> Some (Unresolvable (''cannot inspect '' @ quote_text (show_path current) @ '': '' @ e)))"

definition check_confined :: "path_env \<Rightarrow> workspace \<Rightarrow> string \<Rightarrow> abs_path \<Rightarrow> path_error option" where
  "check_confined env ws requested resolved =
     (if \<not> contains_path ws resolved then Some (OutsideWorkspace requested (show_path resolved))
      else case inspect_components env ws requested (ws_root ws) (drop (length (ws_root ws)) resolved) of
             Some e \<Rightarrow> Some e
           | None \<Rightarrow>
               (case pe_canonicalize env resolved of
                  Canonical c \<Rightarrow> if \<not> contains_path ws c then Some (OutsideWorkspace requested (show_path c)) else None
                | CanonicalMissing _ \<Rightarrow> None
                | CanonicalError e \<Rightarrow> Some (Unresolvable (''cannot resolve '' @ quote_text (show_path resolved) @ '': '' @ e))))"

definition confine :: "path_env \<Rightarrow> workspace \<Rightarrow> bool \<Rightarrow> string \<Rightarrow> path_error + abs_path" where
  "confine env ws outside requested =
     bind_res (resolve ws requested) (\<lambda>resolved.
       if outside then Inr resolved
       else case check_confined env ws requested resolved of Some e \<Rightarrow> Inl e | None \<Rightarrow> Inr resolved)"

definition search_path :: "path_env \<Rightarrow> workspace \<Rightarrow> string \<Rightarrow> path_error + abs_path" where
  "search_path env ws requested = confine env ws (ws_search_outside ws) requested"

definition read_path :: "path_env \<Rightarrow> workspace \<Rightarrow> string \<Rightarrow> path_error + abs_path" where
  "read_path env ws requested = confine env ws (ws_read_outside ws) requested"

definition write_path :: "path_env \<Rightarrow> workspace \<Rightarrow> string \<Rightarrow> path_error + abs_path" where
  "write_path env ws requested = confine env ws (ws_write_outside ws) requested"

section \<open>A file system with links\<close>

datatype node = Entry | Link abs_path

text \<open>Where a path leads, links followed at most \<open>fuel\<close> times.\<close>

fun follow :: "(abs_path \<Rightarrow> node option) \<Rightarrow> nat \<Rightarrow> abs_path \<Rightarrow> string list \<Rightarrow> abs_path option" where
  "follow fs fuel current [] = Some current"
| "follow fs fuel current (c # cs) =
     (case fs (current @ [c]) of
        Some (Link target) \<Rightarrow> (case fuel of 0 \<Rightarrow> None | Suc n \<Rightarrow> follow fs n [] (target @ cs))
      | _ \<Rightarrow> follow fs fuel (current @ [c]) cs)"

definition is_link :: "(abs_path \<Rightarrow> node option) \<Rightarrow> abs_path \<Rightarrow> bool" where
  "is_link fs p \<longleftrightarrow> (\<exists>t. fs p = Some (Link t))"

definition lstat_of :: "(abs_path \<Rightarrow> node option) \<Rightarrow> abs_path \<Rightarrow> lstat" where
  "lstat_of fs p = (case fs p of None \<Rightarrow> LstatMissing | Some Entry \<Rightarrow> LstatOther | Some (Link _) \<Rightarrow> LstatLink)"

text \<open>Nothing lies below what does not exist, and the root of the workspace is canonical.\<close>

definition fs_tree :: "(abs_path \<Rightarrow> node option) \<Rightarrow> bool" where
  "fs_tree fs \<longleftrightarrow> (\<forall>p q. fs p = None \<longrightarrow> fs (p @ q) = None)"

definition canonical_path :: "(abs_path \<Rightarrow> node option) \<Rightarrow> abs_path \<Rightarrow> bool" where
  "canonical_path fs p \<longleftrightarrow> (\<forall>k. \<not> is_link fs (take k p))"

lemma follow_plain:
  "(\<And>k. 0 < k \<Longrightarrow> k \<le> length cs \<Longrightarrow> \<not> is_link fs (current @ take k cs)) \<Longrightarrow> follow fs fuel current cs = Some (current @ cs)"
proof (induction cs arbitrary: current)
  case (Cons c cs)
  have "\<not> is_link fs (current @ [c])"
    using Cons.prems [of 1] by simp
  moreover have "follow fs fuel (current @ [c]) cs = Some ((current @ [c]) @ cs)"
    using Cons.prems [of "Suc k" for k] by (intro Cons.IH) simp
  ultimately show ?case
    by (auto simp: is_link_def split: option.split node.split)
qed simp

lemma inspected_plain:
  assumes "fs_tree fs" "\<And>p. pe_lstat env p = lstat_of fs p"
  shows "inspect_components env ws requested current cs = None \<Longrightarrow> 0 < k \<Longrightarrow> k \<le> length cs \<Longrightarrow> \<not> is_link fs (current @ take k cs)"
proof (induction cs arbitrary: current k)
  case (Cons c cs)
  obtain j where k: "k = Suc j"
    using Cons.prems(2) by (cases k) auto
  show ?case
  proof (cases "fs (current @ [c])")
    case None
    then have "fs ((current @ [c]) @ take j cs) = None"
      using assms(1) unfolding fs_tree_def by blast
    then show ?thesis
      by (simp add: k is_link_def)
  next
    case (Some x)
    with Cons.prems(1) have x: "x = Entry" "inspect_components env ws requested (current @ [c]) cs = None"
      by (auto simp: assms(2) lstat_of_def Let_def split: node.splits canonical.splits if_splits)
    with Some Cons.IH [of "current @ [c]" j] Cons.prems(3) show ?thesis
      by (cases j) (auto simp: k is_link_def)
  qed
qed simp

text \<open>C24:
  a path that a tool was given for a confined workspace leads nowhere else: it lies below the root, and
  following it from the root of the file system meets no link at all, so that what is opened is the path
  that was checked, whatever links the file system holds and whatever the requested text was.\<close>

theorem confined_path_stays:
  assumes "confine env ws False requested = Inr p"
    and "fs_tree fs" "canonical_path fs (ws_root ws)" "\<forall>q. pe_lstat env q = lstat_of fs q"
  shows "prefix (ws_root ws) p \<and> follow fs fuel [] p = Some p"
proof -
  have checked: "check_confined env ws requested p = None"
    using assms(1) by (auto simp: confine_def resolve_def split: if_splits option.splits)
  then obtain rel where p: "p = ws_root ws @ rel"
    by (auto simp: check_confined_def contains_path_def prefix_def split: if_splits)
  with checked have "inspect_components env ws requested (ws_root ws) rel = None"
    by (simp add: check_confined_def contains_path_def split: option.splits)
  then have below: "\<not> is_link fs (ws_root ws @ take j rel)" if "0 < j" "j \<le> length rel" for j
    using inspected_plain [OF assms(2)] assms(4) that by blast
  have "\<not> is_link fs ([] @ take k p)" if "k \<le> length p" for k
  proof (cases "k \<le> length (ws_root ws)")
    case True
    then show ?thesis
      using assms(3) by (simp add: canonical_path_def p)
  next
    case False
    then show ?thesis
      using below [of "k - length (ws_root ws)"] that by (simp add: p)
  qed
  then show ?thesis
    using follow_plain [of p fs "[]" fuel] by (simp add: p)
qed

definition sample_fs :: "abs_path \<Rightarrow> node option" where
  "sample_fs p = (if p = [] \<or> p = [''w''] \<or> p = [''w'', ''src''] then Some Entry
     else if p = [''w'', ''out''] then Some (Link [''etc'']) else None)"

definition sample_paths :: path_env where
  "sample_paths = \<lparr> pe_lstat = lstat_of sample_fs, pe_canonicalize = (\<lambda>p. CanonicalMissing []),
     pe_canonical_root = (\<lambda>_. Canonical [''w'']), pe_is_dir = (\<lambda>_. True) \<rparr>"

definition sample_workspace :: workspace where
  "sample_workspace = \<lparr> ws_root = [''w''], ws_read_outside = False, ws_write_outside = False, ws_search_outside = False \<rparr>"

theorem confined_path_stays_witness:
  "confine sample_paths sample_workspace False ''src/../src/./new'' = Inr [''w'', ''src'', ''new'']
    \<and> follow sample_fs 9 [] [''w'', ''src'', ''new''] = Some [''w'', ''src'', ''new'']
    \<and> confine sample_paths sample_workspace False ''out/passwd'' \<noteq> Inr [''w'', ''out'', ''passwd'']"
proof -
  have run: "confine sample_paths sample_workspace False ''src/../src/./new'' = Inr [''w'', ''src'', ''new'']"
    "confine sample_paths sample_workspace False ''out/passwd'' \<noteq> Inr [''w'', ''out'', ''passwd'']"
    by code_simp+
  have "fs_tree sample_fs"
    by (auto simp: fs_tree_def sample_fs_def append_eq_Cons_conv Cons_eq_append_conv)
  moreover have "\<not> is_link sample_fs (take k [''w''])" for k
    by (cases k) (auto simp: is_link_def sample_fs_def)
  then have "canonical_path sample_fs (ws_root sample_workspace)"
    by (simp add: canonical_path_def sample_workspace_def)
  moreover have "\<forall>q. pe_lstat sample_paths q = lstat_of sample_fs q"
    by (simp add: sample_paths_def)
  ultimately show ?thesis
    using confined_path_stays [OF run(1), of sample_fs 9] run by simp
qed

end
