(* ===== verification/Prompt_Template.thy ===== *)
theory Prompt_Template
  imports Tool_Registry
begin

text \<open>
  \<open>crates/rupi-compat/src/substitute.rs\<close>: the arguments of a prompt template. The scan of the source by
  offsets is a recursion on what is left of the body; a placeholder is at least one byte, so it ends.
\<close>

section \<open>Numbers and arguments\<close>

definition is_ascii_digit :: "char \<Rightarrow> bool" where
  "is_ascii_digit c \<longleftrightarrow> 48 \<le> byte c \<and> byte c \<le> 57"

definition is_digits :: "string \<Rightarrow> bool" where
  "is_digits t \<longleftrightarrow> t \<noteq> [] \<and> list_all is_ascii_digit t"

definition digits_value :: "string \<Rightarrow> nat" where
  "digits_value ds = foldl (\<lambda>n c. 10 * n + (byte c - 48)) 0 ds"

text \<open>\<open>str::parse::<usize>\<close>: digits after an optional plus sign, within the range.\<close>

definition parse_usize :: "string \<Rightarrow> usize option" where
  "parse_usize s =
     (let ds = (case s of c # r \<Rightarrow> if c = CHR ''+'' then r else s | [] \<Rightarrow> [])
      in if is_digits ds \<and> digits_value ds \<le> usize_max then Some (digits_value ds) else None)"

definition is_word_byte :: "string \<Rightarrow> bool" where
  "is_word_byte rest =
     (case rest of [] \<Rightarrow> False
      | c # _ \<Rightarrow> is_ascii_digit c \<or> 65 \<le> byte c \<and> byte c \<le> 90 \<or> 97 \<le> byte c \<and> byte c \<le> 122 \<or> c = CHR ''_'')"

definition join_args :: "string list \<Rightarrow> string" where
  "join_args args = join '' '' args"

definition positional :: "string list \<Rightarrow> usize \<Rightarrow> string" where
  "positional args index = (if index - 1 < length args then args ! (index - 1) else [])"

definition slice_from :: "string list \<Rightarrow> string \<Rightarrow> string option" where
  "slice_from args spec =
     (let (start, len) = (case split_once (CHR '':'') spec of Some (a, b) \<Rightarrow> (a, Some b) | None \<Rightarrow> (spec, None))
      in case parse_usize start of
           None \<Rightarrow> None
         | Some n \<Rightarrow>
             if n = 0 then None
             else let rest = drop (min (n - 1) (length args)) args
                  in case len of
                       None \<Rightarrow> Some (join_args rest)
                     | Some l \<Rightarrow> map_option (\<lambda>k. join_args (take (min k (length rest)) rest)) (parse_usize l))"

section \<open>Placeholders\<close>

definition verbatim :: "string \<Rightarrow> string" where
  "verbatim inner = ''${'' @ inner @ ''}''"

definition braced :: "string \<Rightarrow> string list \<Rightarrow> string" where
  "braced inner args =
     (let (target, spec) = (case split_once (CHR '':'') inner of Some (a, b) \<Rightarrow> (a, Some b) | None \<Rightarrow> (inner, None));
          every = (target = ''@'' \<or> target = ''ARGUMENTS'')
      in if \<not> every \<and> \<not> is_digits target then verbatim inner
         else let v = (if every then join_args args else positional args (unwrap_or 0 (parse_usize target)))
              in case spec of
                   None \<Rightarrow> v
                 | Some s \<Rightarrow>
                     if take 1 s = ''-'' then (if v = [] then tl s else v)
                     else if every then unwrap_or (verbatim inner) (slice_from args s)
                     else verbatim inner)"

text \<open>What a \<open>$\<close> becomes, and what is left behind the placeholder.\<close>

definition expand_at :: "string \<Rightarrow> string list \<Rightarrow> (string \<times> string) option" where
  "expand_at behind args =
     (case behind of
        [] \<Rightarrow> None
      | c # rest \<Rightarrow>
          if c = CHR ''{'' then map_option (\<lambda>(inner, rest). (braced inner args, rest)) (split_once (CHR ''}'') rest)
          else if c = CHR ''@'' then Some (join_args args, rest)
          else if is_ascii_digit c
          then map_option (\<lambda>n. (positional args n, dropWhile is_ascii_digit behind)) (parse_usize (takeWhile is_ascii_digit behind))
          else if take 9 behind = ''ARGUMENTS'' \<and> \<not> is_word_byte (drop 9 behind) then Some (join_args args, drop 9 behind)
          else None)"

lemma expand_at_shorter:
  assumes "expand_at behind args = Some (t, rest)"
  shows "length rest \<le> length behind"
proof (cases behind)
  case (Cons c r)
  then show ?thesis
    using assms length_dropWhile_le [of is_ascii_digit r]
    by (auto simp: expand_at_def split_once_Some split: if_splits)
qed (use assms in \<open>simp add: expand_at_def\<close>)

definition next_char_boundary :: "string \<Rightarrow> nat" where
  "next_char_boundary body = 1 + length (takeWhile is_continuation (tl body))"

function substitute :: "string \<Rightarrow> string list \<Rightarrow> string" where
  "substitute body args =
     (if body = [] then []
      else case (if hd body = CHR ''$'' then expand_at (tl body) args else None) of
             Some (t, rest) \<Rightarrow> t @ substitute rest args
           | None \<Rightarrow> take (next_char_boundary body) body @ substitute (drop (next_char_boundary body) body) args)"
  by pat_completeness auto
termination
proof (relation "measure (\<lambda>(body, args). length body)")
  fix body :: string and args p t rest
  assume "body \<noteq> []" "(if hd body = CHR ''$'' then expand_at (tl body) args else None) = Some p" "(t, rest) = p"
  then show "((rest, args), body, args) \<in> measure (\<lambda>(body, args). length body)"
    using expand_at_shorter [of "tl body" args t rest] by (cases body) (auto split: if_splits)
qed (auto simp: next_char_boundary_def)

declare substitute.simps [simp del]

section \<open>The scan\<close>

lemma take_boundary:
  "take (next_char_boundary (c # s)) (c # s) = c # takeWhile is_continuation s"
  "drop (next_char_boundary (c # s)) (c # s) = dropWhile is_continuation s"
  by (simp_all add: next_char_boundary_def takeWhile_eq_take [symmetric] dropWhile_eq_drop [symmetric])

lemma substitute_Nil [simp]: "substitute [] args = []"
  by (simp add: substitute.simps)

lemma substitute_char:
  assumes "c \<noteq> CHR ''$''"
  shows "substitute (c # s) args = c # substitute s args"
proof -
  have step: "substitute (c # s) args = c # takeWhile is_continuation s @ substitute (dropWhile is_continuation s) args"
    if "c \<noteq> CHR ''$''" for c s
    using that by (subst substitute.simps) (simp add: take_boundary)
  have "takeWhile is_continuation s @ substitute (dropWhile is_continuation s) args = substitute s args"
  proof (cases s)
    case (Cons b r)
    show ?thesis
    proof (cases "is_continuation b")
      case True
      then have "b \<noteq> CHR ''$''"
        by (auto simp: is_continuation_def byte_def)
      from step [OF this, of r] True Cons show ?thesis
        by simp
    qed (simp add: Cons)
  qed simp
  with step [OF assms] show ?thesis
    by simp
qed

lemma substitute_literal: "CHR ''$'' \<notin> set t \<Longrightarrow> substitute (t @ s) args = t @ substitute s args"
  by (induction t) (auto simp: substitute_char)

lemma substitute_placeholder:
  "expand_at behind args = Some (t, rest) \<Longrightarrow> substitute (CHR ''$'' # behind) args = t @ substitute rest args"
  by (subst substitute.simps) simp

section \<open>Templates\<close>

text \<open>A template as its author means it.\<close>

datatype piece =
  Literal string
| AllArguments
| Argument nat
| ArgumentOr nat string
| AllOr string
| ArgumentsFrom nat
| ArgumentsSlice nat nat

definition in_braces :: "string \<Rightarrow> string" where
  "in_braces t = ''${'' @ t @ ''}''"

fun render :: "piece \<Rightarrow> string" where
  "render (Literal t) = t"
| "render AllArguments = ''$@''"
| "render (Argument n) = in_braces (show_nat n)"
| "render (ArgumentOr n d) = in_braces (show_nat n @ '':-'' @ d)"
| "render (AllOr d) = in_braces (''@:-'' @ d)"
| "render (ArgumentsFrom n) = in_braces (''@:'' @ show_nat n)"
| "render (ArgumentsSlice n k) = in_braces (''@:'' @ show_nat n @ '':'' @ show_nat k)"

definition or_default :: "string \<Rightarrow> string \<Rightarrow> string" where
  "or_default v d = (if v = [] then d else v)"

definition argument :: "string list \<Rightarrow> nat \<Rightarrow> string" where
  "argument args n = (if n \<le> length args then args ! (n - 1) else [])"

fun meaning :: "string list \<Rightarrow> piece \<Rightarrow> string" where
  "meaning args (Literal t) = t"
| "meaning args AllArguments = join '' '' args"
| "meaning args (Argument n) = argument args n"
| "meaning args (ArgumentOr n d) = or_default (argument args n) d"
| "meaning args (AllOr d) = or_default (join '' '' args) d"
| "meaning args (ArgumentsFrom n) = join '' '' (drop (n - 1) args)"
| "meaning args (ArgumentsSlice n k) = join '' '' (take k (drop (n - 1) args))"

fun written_well :: "piece \<Rightarrow> bool" where
  "written_well (Literal t) \<longleftrightarrow> CHR ''$'' \<notin> set t"
| "written_well AllArguments \<longleftrightarrow> True"
| "written_well (Argument n) \<longleftrightarrow> 0 < n \<and> n \<le> usize_max"
| "written_well (ArgumentOr n d) \<longleftrightarrow> 0 < n \<and> n \<le> usize_max \<and> CHR ''}'' \<notin> set d"
| "written_well (AllOr d) \<longleftrightarrow> CHR ''}'' \<notin> set d"
| "written_well (ArgumentsFrom n) \<longleftrightarrow> 0 < n \<and> n \<le> usize_max"
| "written_well (ArgumentsSlice n k) \<longleftrightarrow> 0 < n \<and> n \<le> usize_max \<and> k \<le> usize_max"

lemma byte_digit_char: "d < 10 \<Longrightarrow> byte (digit_char d) = 48 + d"
  by (simp add: byte_def digit_char_def)

lemma digit_char_is_digit: "d < 10 \<Longrightarrow> is_ascii_digit (digit_char d)"
  by (simp add: is_ascii_digit_def byte_digit_char)

lemma show_nat_digits: "list_all is_ascii_digit (show_nat n)"
proof (induction n rule: show_nat.induct)
  case (1 n)
  then show ?case
    by (subst show_nat.simps) (auto simp: digit_char_is_digit)
qed

lemma digits_value_show: "digits_value (show_nat n) = n"
proof (induction n rule: show_nat.induct)
  case (1 n)
  then show ?case
    by (subst show_nat.simps) (auto simp: digits_value_def byte_digit_char)
qed

lemma show_nat_not_digit: "\<not> is_ascii_digit c \<Longrightarrow> c \<notin> set (show_nat n)"
  using show_nat_digits [of n] by (auto simp: list_all_iff)

lemma not_digits [simp]:
  "\<not> is_ascii_digit (CHR ''+'')" "\<not> is_ascii_digit (CHR '':'')" "\<not> is_ascii_digit (CHR ''}'')" "\<not> is_ascii_digit (CHR ''@'')"
  "\<not> is_ascii_digit (CHR ''A'')" "\<not> is_ascii_digit (CHR ''-'')"
  by (simp_all add: is_ascii_digit_def byte_def)

lemma parse_show [simp]: "n \<le> usize_max \<Longrightarrow> parse_usize (show_nat n) = Some n"
  using show_nat_digits [of n] digits_value_show [of n]
  by (cases "show_nat n") (auto simp: parse_usize_def is_digits_def Let_def)

lemma is_digits_show [simp]: "is_digits (show_nat n)"
  by (simp add: is_digits_def show_nat_digits)

lemma split_show:
  "split_once (CHR '':'') (show_nat n) = None" "split_once (CHR '':'') (show_nat n @ CHR '':'' # s) = Some (show_nat n, s)"
  by (simp_all add: split_once_None split_once_Some show_nat_not_digit)

lemma show_nat_names [simp]: "show_nat n \<noteq> ''@''" "show_nat n \<noteq> ''ARGUMENTS''"
  using show_nat_digits [of n] by auto

lemma expand_braces:
  "CHR ''}'' \<notin> set t \<Longrightarrow> substitute (in_braces t @ s) args = braced t args @ substitute s args"
proof -
  assume t: "CHR ''}'' \<notin> set t"
  have "expand_at (CHR ''{'' # t @ CHR ''}'' # s) args = Some (braced t args, s)"
    using t split_once_Some [of "CHR ''}''" "t @ CHR ''}'' # s" t s] by (simp add: expand_at_def)
  from substitute_placeholder [OF this] show ?thesis
    by (simp add: in_braces_def)
qed

lemma cut_to_length: "drop (min n (length xs)) xs = drop n xs" "take (min n (length xs)) xs = take n xs"
  by (simp_all add: min_def)

lemma slice_show:
  "0 < n \<Longrightarrow> n \<le> usize_max \<Longrightarrow> slice_from args (show_nat n) = Some (join '' '' (drop (n - 1) args))"
  "0 < n \<Longrightarrow> n \<le> usize_max \<Longrightarrow> k \<le> usize_max \<Longrightarrow>
    slice_from args (show_nat n @ CHR '':'' # show_nat k) = Some (join '' '' (take k (drop (n - 1) args)))"
  by (simp_all add: slice_from_def split_show join_args_def cut_to_length Let_def del: length_drop)

lemma take_one_show: "take 1 (show_nat n @ s) \<noteq> ''-''"
  using show_nat_digits [of n] by (cases "show_nat n") auto

lemma piece_substituted:
  assumes "written_well p"
  shows "substitute (render p @ s) args = meaning args p @ substitute s args"
proof (cases p)
  case (Literal t)
  then show ?thesis
    using assms by (simp add: substitute_literal)
next
  case AllArguments
  have "expand_at (CHR ''@'' # s) args = Some (join_args args, s)"
    by (simp add: expand_at_def)
  from substitute_placeholder [OF this] AllArguments show ?thesis
    by (simp add: join_args_def)
next
  case (Argument n)
  then show ?thesis
    using assms expand_braces [of "show_nat n"]
    by (auto simp: show_nat_not_digit braced_def split_show positional_def argument_def)
next
  case (ArgumentOr n d)
  then show ?thesis
    using assms expand_braces [of "show_nat n @ '':-'' @ d"]
    by (auto simp: show_nat_not_digit braced_def split_show positional_def argument_def or_default_def)
next
  case (AllOr d)
  then show ?thesis
    using assms expand_braces [of "''@:-'' @ d"] by (auto simp: braced_def join_args_def or_default_def)
next
  case (ArgumentsFrom n)
  then show ?thesis
    using assms expand_braces [of "''@:'' @ show_nat n"] take_one_show [of n "[]"]
    by (auto simp: show_nat_not_digit braced_def slice_show [unfolded One_nat_def])
next
  case (ArgumentsSlice n k)
  then show ?thesis
    using assms expand_braces [of "''@:'' @ show_nat n @ '':'' @ show_nat k"] take_one_show [of n "CHR '':'' # show_nat k"]
    by (auto simp: show_nat_not_digit braced_def slice_show [unfolded One_nat_def])
qed



text \<open>The position 0 is the first argument, and so is a position too large for the machine.\<close>

lemma position_zero: "braced ''0'' (a # args) = a"
  by (simp add: braced_def parse_usize_def is_digits_def is_ascii_digit_def byte_def digits_value_def positional_def)

end
