(* ===== verification/Retention.thy ===== *)
theory Retention
  imports Blob_Ref
begin

text \<open>
  \<open>crates/rupi-store/src/retention.rs\<close>: which sessions a retention pass deletes. What the state
  directory holds, and the leases, are parameters; a pass over a world removes the planned sessions.
  The sums of bytes are taken not to overflow.
\<close>

section \<open>The age of a session\<close>

definition hex_value :: "char \<Rightarrow> nat" where
  "hex_value c = (if byte c < 58 then byte c - 48 else if byte c < 97 then byte c - 55 else byte c - 87)"

text \<open>
  The first twelve characters but for dashes. A character that is no hexadecimal digit is refused
  whatever its length in bytes, so that taking bytes gives the same.
\<close>

definition session_started_ms :: "string \<Rightarrow> u64 option" where
  "session_started_ms session =
     (let hex = take 12 (filter (\<lambda>c. c \<noteq> CHR ''-'') session);
          value = foldl (\<lambda>n c. 16 * n + hex_value c) 0 hex
      in if length hex \<noteq> 12 \<or> \<not> list_all is_hexdigit hex then None
         else if value < 1000000000000 then None
         else Some value)"

section \<open>The plan\<close>

definition default_keep_newest :: nat where
  "default_keep_newest = 3"

definition day_ms :: u64 where
  "day_ms = 86400000"

record trace_retention =
  rt_max_age_days :: "u64 option"
  rt_max_bytes :: "u64 option"

record retention_report =
  rr_removed :: "(string \<times> u64) list"
  rr_freed_bytes :: u64
  rr_remaining_bytes :: u64
  rr_protected :: nat
  rr_undated :: nat
  rr_leased :: nat

definition removed_count :: "retention_report \<Rightarrow> nat" where
  "removed_count r = length (rr_removed r)"

definition retention_noop :: "retention_report \<Rightarrow> bool" where
  "retention_noop r \<longleftrightarrow> rr_removed r = []"

text \<open>The answer to an acquired lease is \<open>LeaseHeld\<close> where another owner is invalid to it.\<close>

datatype lease_answer = LeaseTaken | LeaseHeld | LeaseFailed string

record 'w layout =
  ly_session_ids :: "'w \<Rightarrow> string + string list"
  ly_state_bytes :: "'w \<Rightarrow> string + u64"
  ly_session_bytes :: "string \<Rightarrow> 'w \<Rightarrow> string + u64"
  ly_lease_active :: "string \<Rightarrow> 'w \<Rightarrow> bool"
  ly_acquire :: "string \<Rightarrow> 'w \<Rightarrow> lease_answer \<times> 'w"
  ly_remove :: "string \<Rightarrow> 'w \<Rightarrow> string option \<times> 'w"

type_synonym candidate = "u64 \<times> string \<times> u64"

text \<open>The sessions behind the newest: leased and undated ones are counted, the others are candidates.\<close>

fun collect_candidates ::
  "'w layout \<Rightarrow> 'w \<Rightarrow> string list \<Rightarrow> nat \<times> nat \<Rightarrow> string + (nat \<times> nat) \<times> candidate list" where
  "collect_candidates ly w [] counts = Inr (counts, [])"
| "collect_candidates ly w (i # ids) (leased, undated) =
     (if ly_lease_active ly i w then collect_candidates ly w ids (leased + 1, undated)
      else case ly_session_bytes ly i w of
             Inl e \<Rightarrow> Inl e
           | Inr bytes \<Rightarrow>
               (case session_started_ms i of
                  None \<Rightarrow> collect_candidates ly w ids (leased, undated + 1)
                | Some started \<Rightarrow>
                    (case collect_candidates ly w ids (leased, undated) of
                       Inl e \<Rightarrow> Inl e
                     | Inr (counts, cs) \<Rightarrow> Inr (counts, (started, i, bytes) # cs))))"

definition over_cap :: "u64 option \<Rightarrow> u64 \<Rightarrow> bool" where
  "over_cap cap remaining = (case cap of None \<Rightarrow> False | Some limit \<Rightarrow> limit < remaining)"

definition is_expired :: "u64 option \<Rightarrow> u64 \<Rightarrow> bool" where
  "is_expired age_limit started = (case age_limit of None \<Rightarrow> False | Some limit \<Rightarrow> started < limit)"

fun choose_victims :: "u64 option \<Rightarrow> u64 option \<Rightarrow> candidate list \<Rightarrow> u64 \<Rightarrow> (string \<times> u64) list \<times> u64" where
  "choose_victims age_limit cap [] remaining = ([], remaining)"
| "choose_victims age_limit cap ((started, i, bytes) # cs) remaining =
     (if \<not> is_expired age_limit started \<and> \<not> over_cap cap remaining then ([], remaining)
      else case choose_victims age_limit cap cs (remaining - bytes) of (vs, r) \<Rightarrow> ((i, bytes) # vs, r))"

definition age_limit_of :: "trace_retention \<Rightarrow> u64 \<Rightarrow> u64 option" where
  "age_limit_of retention now = map_option (\<lambda>days. now - sat_mul u64_max days day_ms) (rt_max_age_days retention)"

definition plan ::
  "'w layout \<Rightarrow> trace_retention \<Rightarrow> u64 \<Rightarrow> nat \<Rightarrow> 'w \<Rightarrow> string + retention_report \<times> (string \<times> u64) list" where
  "plan ly retention now keep_newest w =
     bind_res (ly_session_ids ly w) (\<lambda>ids. bind_res (ly_state_bytes ly w) (\<lambda>held.
       let report = \<lparr> rr_removed = [], rr_freed_bytes = 0, rr_remaining_bytes = held,
             rr_protected = min (length ids) keep_newest, rr_undated = 0, rr_leased = 0 \<rparr>
       in if rt_max_age_days retention = None \<and> rt_max_bytes retention = None then Inr (report, [])
          else bind_res (collect_candidates ly w (drop keep_newest ids) (0, 0)) (\<lambda>((leased, undated), cs).
            case choose_victims (age_limit_of retention now) (rt_max_bytes retention) (sort_key fst cs) held of
              (victims, remaining) \<Rightarrow>
                Inr (report\<lparr>rr_removed := victims, rr_freed_bytes := sum_list (map snd victims),
                  rr_remaining_bytes := remaining, rr_undated := undated, rr_leased := leased\<rparr>, victims))))"

definition dry_run :: "'w layout \<Rightarrow> trace_retention \<Rightarrow> u64 \<Rightarrow> nat \<Rightarrow> 'w \<Rightarrow> string + retention_report" where
  "dry_run ly retention now keep_newest w = bind_res (plan ly retention now keep_newest w) (\<lambda>(report, _). Inr report)"

text \<open>A victim that was leased since the plan is kept.\<close>

definition keep_leased :: "string \<Rightarrow> u64 \<Rightarrow> retention_report \<Rightarrow> retention_report" where
  "keep_leased i bytes r =
     r\<lparr>rr_leased := rr_leased r + 1, rr_removed := filter (\<lambda>(j, _). j \<noteq> i) (rr_removed r),
       rr_freed_bytes := rr_freed_bytes r - bytes, rr_remaining_bytes := sat_add u64_max (rr_remaining_bytes r) bytes\<rparr>"

fun remove_victims ::
  "'w layout \<Rightarrow> (string \<times> u64) list \<Rightarrow> retention_report \<Rightarrow> 'w \<Rightarrow> (string + retention_report) \<times> 'w" where
  "remove_victims ly [] report w = (Inr report, w)"
| "remove_victims ly ((i, bytes) # vs) report w =
     (case ly_acquire ly i w of
        (LeaseFailed e, w) \<Rightarrow> (Inl e, w)
      | (LeaseHeld, w) \<Rightarrow> remove_victims ly vs (keep_leased i bytes report) w
      | (LeaseTaken, w) \<Rightarrow>
          (case ly_remove ly i w of (Some e, w) \<Rightarrow> (Inl e, w) | (None, w) \<Rightarrow> remove_victims ly vs report w))"

text \<open>\<open>pass\<close> is the lease that serializes the passes.\<close>

definition apply_retention ::
  "('w \<Rightarrow> string option) \<Rightarrow> 'w layout \<Rightarrow> trace_retention \<Rightarrow> u64 \<Rightarrow> nat \<Rightarrow> 'w \<Rightarrow> (string + retention_report) \<times> 'w" where
  "apply_retention pass ly retention now keep_newest w =
     (case pass w of
        Some e \<Rightarrow> (Inl e, w)
      | None \<Rightarrow>
          (case plan ly retention now keep_newest w of
             Inl e \<Rightarrow> (Inl e, w)
           | Inr (report, victims) \<Rightarrow> remove_victims ly victims report w))"

section \<open>What a pass may delete\<close>

lemma collected:
  assumes "collect_candidates ly w ids counts = Inr (counts', cs)"
  shows "set cs = {(started, i, bytes). i \<in> set ids \<and> \<not> ly_lease_active ly i w \<and> ly_session_bytes ly i w = Inr bytes
    \<and> session_started_ms i = Some started}"
  using assms
proof (induction ids arbitrary: counts counts' cs)
  case (Cons i ids)
  then show ?case
    by (cases counts) (auto split: if_splits sum.splits option.splits prod.splits)
qed auto

lemma collect_sizes:
  "collect_candidates ly w ids counts = Inr (counts', cs) \<Longrightarrow> j \<in> set ids \<Longrightarrow> \<not> ly_lease_active ly j w \<Longrightarrow>
     \<exists>b. ly_session_bytes ly j w = Inr b"
proof (induction ids arbitrary: counts counts' cs)
  case (Cons i ids)
  then show ?case
    by (cases counts; cases counts') (auto split: if_splits sum.splits option.splits)
qed simp

text \<open>
  A prefix of the candidates is chosen: at each of its members a bound was exceeded, behind it none.
\<close>

lemma chosen_prefix:
  "choose_victims age cap cs held = (vs, remaining) \<Longrightarrow> \<exists>gone kept. cs = gone @ kept \<and> vs = map snd gone
     \<and> remaining = held - sum_list (map snd vs)
     \<and> (\<forall>before s i b behind. gone = before @ (s, i, b) # behind \<longrightarrow>
          is_expired age s \<or> over_cap cap (held - sum_list (map (snd \<circ> snd) before)))
     \<and> (\<forall>s i b behind. kept = (s, i, b) # behind \<longrightarrow> \<not> is_expired age s \<and> \<not> over_cap cap remaining)"
proof (induction age cap cs held arbitrary: vs remaining rule: choose_victims.induct)
  case (2 age cap s i b cs held)
  show ?case
  proof (cases "\<not> is_expired age s \<and> \<not> over_cap cap held")
    case True
    with "2.prems" show ?thesis
      by (intro exI [of _ "[]"] exI [of _ "(s, i, b) # cs"]) auto
  next
    case False
    obtain vs' r where rest: "choose_victims age cap cs (held - b) = (vs', r)"
      by fastforce
    with False "2.prems" have out: "vs = (i, b) # vs'" "remaining = r"
      by auto
    from "2.IH" [OF False rest] obtain gone kept where g: "cs = gone @ kept" "vs' = map snd gone"
      "r = held - b - sum_list (map snd vs')"
      "\<forall>before s i b' behind. gone = before @ (s, i, b') # behind \<longrightarrow>
          is_expired age s \<or> over_cap cap (held - b - sum_list (map (snd \<circ> snd) before))"
      "\<forall>s i b behind. kept = (s, i, b) # behind \<longrightarrow> \<not> is_expired age s \<and> \<not> over_cap cap r"
      by blast
    have "is_expired age s' \<or> over_cap cap (held - sum_list (map (snd \<circ> snd) before))"
      if "(s, i, b) # gone = before @ (s', i', b') # behind" for before s' i' b' behind
      using that g(4) False by (cases before) (auto simp: diff_diff_left)
    note step = this
    show ?thesis
    proof (intro exI conjI allI impI)
      show "(s, i, b) # cs = ((s, i, b) # gone) @ kept"
        using g(1) by simp
      show "vs = map snd ((s, i, b) # gone)" "remaining = held - sum_list (map snd vs)"
        using g(2,3) out by simp_all
      show "is_expired age s' \<or> over_cap cap (held - sum_list (map (snd \<circ> snd) before))"
        if "(s, i, b) # gone = before @ (s', i', b') # behind" for before s' i' b' behind
        using that by (rule step)
      show "\<not> is_expired age s'" "\<not> over_cap cap remaining" if "kept = (s', i', b') # behind" for s' i' b' behind
        using that g(5) out by blast+
    qed
  qed
qed auto

lemma plan_candidates:
  assumes "plan ly retention now keep_newest w = Inr (report, victims)"
    and "ly_session_ids ly w = Inr ids" "ly_state_bytes ly w = Inr held" "victims \<noteq> []"
  shows "\<exists>counts cs. collect_candidates ly w (drop keep_newest ids) (0, 0) = Inr (counts, cs)
    \<and> choose_victims (age_limit_of retention now) (rt_max_bytes retention) (sort_key fst cs) held = (victims, rr_remaining_bytes report)
    \<and> rr_removed report = victims"
proof -
  have bounded: "\<not> (rt_max_age_days retention = None \<and> rt_max_bytes retention = None)"
    using assms by (intro notI) (simp add: plan_def Let_def)
  show ?thesis
  proof (cases "collect_candidates ly w (drop keep_newest ids) (0, 0)")
    case (Inl e)
    with assms(1-3) bounded show ?thesis
      by (simp add: plan_def Let_def del: de_Morgan_conj)
  next
    case (Inr c)
    obtain leased undated cs where c: "c = ((leased, undated), cs)"
      by (cases c) auto
    obtain vs r where "choose_victims (age_limit_of retention now) (rt_max_bytes retention) (sort_key fst cs) held = (vs, r)"
      by fastforce
    with assms(1-3) bounded Inr c show ?thesis
      by (auto simp: plan_def Let_def)
  qed
qed

text \<open>C26:
  a retention pass deletes no more than its bounds ask for, and the oldest first: a planned session is
  not one of the newest that are kept, has no active lease and a known age, every candidate that is
  strictly older is planned too, and it is beyond the age limit or the sessions planned before it leave
  the state over the cap. When candidates are left, the rest is within both bounds.\<close>

theorem retention_deletes_oldest:
  assumes "plan ly retention now keep_newest w = Inr (report, victims)"
    and "ly_session_ids ly w = Inr ids" "ly_state_bytes ly w = Inr held"
    and "victims = before @ (i, bytes) # behind"
  shows "i \<in> set (drop keep_newest ids) \<and> \<not> ly_lease_active ly i w
    \<and> (\<exists>started. session_started_ms i = Some started
         \<and> (is_expired (age_limit_of retention now) started
            \<or> over_cap (rt_max_bytes retention) (held - sum_list (map snd before)))
         \<and> (\<forall>j \<in> set (drop keep_newest ids). \<forall>older. \<not> ly_lease_active ly j w \<and> session_started_ms j = Some older \<and> older < started
              \<longrightarrow> j \<in> fst ` set victims))
    \<and> rr_removed report = victims \<and> rr_remaining_bytes report = held - sum_list (map snd victims)"
proof -
  from plan_candidates [OF assms(1-3)] assms(4) obtain counts cs where
    cs: "collect_candidates ly w (drop keep_newest ids) (0, 0) = Inr (counts, cs)"
    and vs: "choose_victims (age_limit_of retention now) (rt_max_bytes retention) (sort_key fst cs) held
      = (victims, rr_remaining_bytes report)"
    and report: "rr_removed report = victims"
    by auto
  from chosen_prefix [OF vs] obtain gone kept where g: "sort_key fst cs = gone @ kept" "victims = map snd gone"
    "rr_remaining_bytes report = held - sum_list (map snd victims)"
    "\<forall>before s i b behind. gone = before @ (s, i, b) # behind \<longrightarrow> is_expired (age_limit_of retention now) s
        \<or> over_cap (rt_max_bytes retention) (held - sum_list (map (snd \<circ> snd) before))"
    by blast
  from assms(4) g(2) obtain xs s ys where gone: "gone = xs @ (s, i, bytes) # ys" "before = map snd xs"
    by (auto simp: map_eq_append_conv map_eq_Cons_conv)
  have member: "(s, i, bytes) \<in> set cs"
    using g(1) gone(1) by (metis in_set_conv_decomp set_append set_sort Un_iff)
  with collected [OF cs] have i: "i \<in> set (drop keep_newest ids)" "\<not> ly_lease_active ly i w" "session_started_ms i = Some s"
    by auto
  have bound: "is_expired (age_limit_of retention now) s \<or> over_cap (rt_max_bytes retention) (held - sum_list (map snd before))"
    using g(4) gone by (simp add: comp_def)
  have sorted: "sorted (map fst (gone @ kept))"
    using sorted_sort_key [of fst cs] g(1) by simp
  have older: "j \<in> fst ` set victims"
    if "j \<in> set (drop keep_newest ids)" "\<not> ly_lease_active ly j w" "session_started_ms j = Some t" "t < s" for j t
  proof -
    have "\<exists>b. ly_session_bytes ly j w = Inr b"
      by (rule collect_sizes [OF cs that(1,2)])
    then obtain b where "ly_session_bytes ly j w = Inr b" ..
    then have "(t, j, b) \<in> set cs"
      unfolding collected [OF cs] using that by simp
    then have "(t, j, b) \<in> set gone \<union> set kept"
      using g(1) by (metis set_append set_sort)
    moreover have "\<forall>x \<in> set kept. s \<le> fst x"
      using sorted gone(1) by (simp add: sorted_append)
    then have "(t, j, b) \<notin> set kept"
      using that(4) by force
    ultimately show ?thesis
      using g(2) by force
  qed
  show ?thesis
    using i bound older report g(3) by blast
qed

definition sample_layout :: "unit layout" where
  "sample_layout = \<lparr> ly_session_ids = (\<lambda>_. Inr [''018d0000-0000-7'', ''018c0000-0000-7'', ''018b0000-0000-7'']),
     ly_state_bytes = (\<lambda>_. Inr 30), ly_session_bytes = (\<lambda>_ _. Inr 10), ly_lease_active = (\<lambda>_ _. False),
     ly_acquire = (\<lambda>_ w. (LeaseTaken, w)), ly_remove = (\<lambda>_ w. (None, w)) \<rparr>"

theorem retention_deletes_oldest_witness:
  "\<exists>report. plan sample_layout \<lparr> rt_max_age_days = None, rt_max_bytes = Some 15 \<rparr> 0 1 ()
       = Inr (report, [(''018b0000-0000-7'', 10), (''018c0000-0000-7'', 10)]) \<and> rr_remaining_bytes report = 10"
proof -
  have "session_started_ms ''018d0000-0000-7'' = Some 1705102016512" "session_started_ms ''018c0000-0000-7'' = Some 1700807049216"
    "session_started_ms ''018b0000-0000-7'' = Some 1696512081920"
    by (simp_all add: session_started_ms_def hex_value_def is_hexdigit_def byte_def)
  then obtain report where run: "plan sample_layout \<lparr> rt_max_age_days = None, rt_max_bytes = Some 15 \<rparr> 0 1 ()
      = Inr (report, [(''018b0000-0000-7'', 10), (''018c0000-0000-7'', 10)])"
    by (simp add: plan_def sample_layout_def Let_def is_expired_def over_cap_def age_limit_of_def sort_key_def)
  have "ly_session_ids sample_layout () = Inr [''018d0000-0000-7'', ''018c0000-0000-7'', ''018b0000-0000-7'']"
    "ly_state_bytes sample_layout () = Inr 30"
    by (simp_all add: sample_layout_def)
  from retention_deletes_oldest [OF run this, of "[]" "''018b0000-0000-7''" 10 "[(''018c0000-0000-7'', 10)]"] run show ?thesis
    by auto
qed

text \<open>The version of the identifier is not looked at: a random one can have an age as well.\<close>

lemma random_id_dated: "session_started_ms ''0150ab3c-1234-4abc-9def-0123456789ab'' = Some 1445981852212"
  by (simp add: session_started_ms_def hex_value_def is_hexdigit_def byte_def)

end
