(* ===== verification/Spec2Isabelle.thy ===== *)
theory Spec2Isabelle
  imports Failover_Policy Tool_Registry Adaptive_Context Context_Capsule Fragment_Assembly Sse_Framing
    Provider_Failures Blob_Ref Events Tool_Trace Request_Trace Compaction_Trace Trace_Integrity
    Session_Log Projection_Wal Session_Store Crash_Recovery Store_Trace Live_Context
    Emission_Effects Context_Refinement Store_Progress Session_Resume
    Crash_Logic Turn_Tools Turn_Lifecycles Turn_Contract
    Turn_Recovery Model_Reign Request_Budget Stream_Collector Collector_Tee
    Turn_Requests Turn_Attempt Turn_Driver Turn_Loop Emission_Kinds Turn_Bounds Turn_Ends Turn_Closing
    Edit_Tool Write_Tool Read_Tool Workspace_Paths Prompt_Template Retention
begin

text \<open>
  Verification of the core logic of \<open>rupi\<close>, a coding-agent harness in Rust.

  \<^bold>\<open>The program.\<close> A session alternates model requests and tool calls. The bytes of a response are
  framed into events and decoded (\<open>rupi-provider\<close>), the failures are classified and answered by a
  recovery policy (\<open>rupi-runtime/failover.rs\<close>), tool calls are cleared and run by the registry
  (\<open>rupi-tools\<close>), and the window of messages is kept below the limits of the model by a context
  policy (\<open>rupi-core/context.rs\<close>, \<open>rupi-experiments/context.rs\<close>) and the operations of the turn
  loop (\<open>rupi-runtime/turn.rs\<close>). Whatever happens is recorded twice (\<open>rupi-store\<close>): in the trace
  journal, which holds every event, and in the session log, which holds what is needed to resume.
  An intent log joins the two across crashes, and a resumed session first validates and repairs its
  trace.

  \<^bold>\<open>Theories and sources.\<close> Paths are relative to \<open>src/crates\<close>.

  \<^item> \<open>Rupi_Prelude\<close>: results, bounded machine arithmetic, folds that can fail, list lemmas.
    \<open>F64\<close>: the double-precision operations of the thresholds as rationals rounded to 53 bits.
    \<open>Ordered_Table\<close>: ordered maps as sorted association lists, an interpretation of its locale.
    \<open>Json\<close>: JSON values.
  \<^item> \<open>Model_Failure\<close>, \<open>Capability\<close>, \<open>Failover_Policy\<close>: \<open>rupi-core/src/failure.rs\<close>,
    \<open>capability.rs\<close>, \<open>provenance.rs\<close>, \<open>rupi-runtime/src/failover.rs\<close>. Every branch of the recovery
    decision, and that output once shown is never replayed.
  \<^item> \<open>Bounded_Lines\<close>, \<open>Sse_Framing\<close>: \<open>rupi-core/src/bounded.rs\<close>, \<open>rupi-provider/src/sse.rs\<close>. The
    readers over a source that may split and fail anywhere; loops are total, their measures are the
    remaining chunks. No byte is lost, events round trip for every chunking.
  \<^item> \<open>Messages\<close>, \<open>Provider_Contract\<close>, \<open>Stream_Decoder\<close>, \<open>Fragment_Assembly\<close>:
    \<open>rupi-core/src/message.rs\<close>, \<open>provider.rs\<close>, \<open>rupi-provider/src/decode.rs\<close>. The decoder as a state
    passed from chunk to chunk with the events it emits; limits, honest failures, all-or-nothing
    ends, reassembly of interleaved fragments.
  \<^item> \<open>Provider_Failures\<close>: the classification of provider errors in \<open>decode.rs\<close>.
  \<^item> \<open>Argument_Schema\<close>, \<open>Output_Reduction\<close>, \<open>Tool_Lifecycle\<close>, \<open>Tool_Registry\<close>:
    \<open>rupi-tools/src/registry.rs\<close>, \<open>reduce.rs\<close>, \<open>rupi-core/src/tool.rs\<close>. Tools, gates and the start
    sink act on an abstract world; what runs was cleared and recorded.
  \<^item> \<open>Edit_Tool\<close>, \<open>Write_Tool\<close>: \<open>rupi-tools/src/edit.rs\<close>, \<open>write.rs\<close>. When the two tools write and
    what, the atomic replacement as a list of file operations of which a crash is a prefix, and that
    the verdict on an interrupted edit is honest.
  \<^item> \<open>Read_Tool\<close>, \<open>Workspace_Paths\<close>: \<open>rupi-tools/src/read.rs\<close>, \<open>paths.rs\<close>. The window of a file that is
    shown over the bounded reader, and that a path confined to the workspace meets no link of the file
    system.
  \<^item> \<open>Prompt_Template\<close>: \<open>rupi-compat/src/substitute.rs\<close>. A prompt template means what was written.
  \<^item> \<open>Retention\<close>: \<open>rupi-store/src/retention.rs\<close>. A retention pass deletes the oldest sessions and no more
    than its bounds ask for.
  \<^item> \<open>Context_Policy\<close>, \<open>Adaptive_Context\<close>, \<open>Context_Capsule\<close>: \<open>rupi-core/src/context.rs\<close>,
    \<open>rupi-experiments/src/context.rs\<close>. Thresholds form a ladder; guards of structural actions;
    compaction settles.
  \<^item> \<open>Sha256\<close>, \<open>Blob_Ref\<close>: \<open>rupi-core/src/hash.rs\<close>, \<open>trace.rs\<close>, \<open>rupi-store/src/blob.rs\<close>. Blobs of one
    session as a map from paths to bytes; DEFLATE is a pair of functions.
  \<^item> \<open>Events\<close>: \<open>rupi-core/src/event.rs\<close>, \<open>trace.rs\<close>, every event and the trace line.
  \<^item> \<open>Tool_Trace\<close>, \<open>Request_Trace\<close>, \<open>Compaction_Trace\<close>, \<open>Trace_Integrity\<close>: the validators and repairs
    of a trace in \<open>rupi-store/src/store.rs\<close>. Each loop is a fold that can fail. The lemmas show what
    an accepted trace is, and that a trace that breaks off inside a lifecycle is repaired by the
    events recovery appends.
  \<^item> \<open>Session_Log\<close>, \<open>Projection_Wal\<close>, \<open>Session_Store\<close>, \<open>Crash_Recovery\<close>: \<open>session_log.rs\<close>,
    \<open>projection.rs\<close>, \<open>journal.rs\<close> and the \<open>Session\<close> of \<open>store.rs\<close>. A store operation maps the durable
    files to the list of its writes, in order, and its result; a crash is a prefix of the writes.
    \<open>Crash_Recovery\<close> shows that a message and its event survive every crash together.
  \<^item> \<open>Store_Trace\<close>, \<open>Live_Context\<close>: \<open>rupi-runtime/src/store_trace.rs\<close> and the window operations of
    \<open>turn.rs\<close>: recording, eviction, compaction, checkpoints, resume.
  \<^item> \<open>Emission_Effects\<close>, \<open>Context_Refinement\<close>: what a recorded event leaves in the durable files, and
    the relation \<open>mirrors\<close> between the live window and the session log, which every operation of a
    session preserves (rule induction on \<open>session_run\<close>). \<open>Store_Progress\<close>: a total-correctness triple
    for store operations and the room they need in the bounded files. \<open>Session_Resume\<close>: a session
    resumes into the window it was left with; the one order of operations, outside \<open>session_run\<close>,
    that leaves a session no restore accepts.
  \<^item> \<open>Turn_Tools\<close>: \<open>turn.rs\<close>, the calls of a response from the request event to the recorded result;
    the registry runs on a world that also carries the record of the start. \<open>Crash_Logic\<close>: a Hoare logic
    with a crash invariant for store operations. \<open>Turn_Lifecycles\<close>, \<open>Turn_Contract\<close>: the traces the
    turn loop writes are those the store's lifecycle scan accepts, wherever the process stops, and
    every call of a batch is answered once.
  \<^item> \<open>Turn_Recovery\<close>, \<open>Model_Reign\<close>: \<open>turn.rs\<close>, the model in office, its epochs and the answer to a
    failed request; rule induction over all that can happen to the seat shows that one model reigns at
    a time. \<open>Request_Budget\<close>: what a request may ask for and the bounded measure of arguments.
    \<open>Stream_Collector\<close>, \<open>Collector_Tee\<close>: the events of a response as they arrive, and that what is
    shown, kept and recorded agree whatever fails in between.
  \<^item> \<open>Turn_Requests\<close>, \<open>Turn_Attempt\<close>, \<open>Turn_Driver\<close>, \<open>Turn_Loop\<close>: \<open>turn.rs\<close>, a turn from the input of the
    user to its end. \<open>Turn_Requests\<close> holds the state of the loop and how a request is assembled;
    \<open>Turn_Attempt\<close> one request (\<open>build_request\<close> and the body of the loop of \<open>attempt\<close>); \<open>Turn_Driver\<close> its
    repetition and one round of \<open>run_turn_with_external_context\<close>; \<open>Turn_Loop\<close> the rounds, the final answer
    and the reconciliation of interrupted calls. \<open>attempt\<close> and \<open>rounds\<close> have no fuel: they terminate
    because every repetition spends a request of the budget. \<open>Emission_Kinds\<close>: which kinds of events an
    operation may write. \<open>Turn_Bounds\<close>, \<open>Turn_Ends\<close>, \<open>Turn_Closing\<close>: no turn starts more requests than
    its budget, nothing is asked again after output, every outcome is the last line of its turn, and
    the summary of a recovery is found when any fits.

  \<^bold>\<open>Conventions.\<close> Text is a list of bytes. Machine integers are words where bits matter and
  naturals with explicit bounds (\<open>u32_max\<close>, \<open>u64_max\<close>, \<open>usize_max\<close>) elsewhere; a \<open>checked_add\<close> of
  the source is one of the model. A panic is a value of the error type. No definition uses fuel
  of its own: every loop of the source that is modelled is structural or has a measure, and the 65
  tries of \<open>fit_summary\<close> are those of the source. Time is an argument.

  \<^bold>\<open>Parameters.\<close> JSON parsing and printing, Unicode tables, DEFLATE, fresh identifiers and clocks,
  redaction rules, the serialized size of records, the externalization of long trace fields, the
  policy a loop is given, the summarizer and the synthesis of capsules. A provider maps a request and
  the outer world to its events, its outcome and a new world; the surface, the tools and the waiting
  before a retry act on that world. Hypotheses about them are named definitions
  (\<open>honest_env\<close>, \<open>no_collision\<close>) with witnesses.

  \<^bold>\<open>Not modelled.\<close> File system access (tail repair, leases, directory listing),
  configuration layering, redaction rules, the other built-in tools, HTTP and the JSON of providers, MCP
  processes and threads, the terminal interface, compatibility packages (but for prompt
  substitution), replay, import and export,
  and the command line: input and output, foreign formats or presentation. Of \<open>store.rs\<close> the
  alignment check of trace and log is left out, and of the loop its builders. A
  theorem follows a session up to the first operation that fails; flags such a failure leaves in
  memory are not kept.
\<close>

end
